(* ===== verification/Aexor_Prelude.thy ===== *)
theory Aexor_Prelude
  imports Complex_Main "HOL-Library.AList"
begin

text \<open>
  Generic vocabulary of the development: results with errors as values, the two shapes in
  which the Python services run a sequence of checks, insertion-ordered dictionaries, and the
  lemma collections the component theories extend.

  \<^item> A call that may raise is a value of \<open>'e + 'a\<close>: \<open>Inl\<close> the exception, \<open>Inr\<close> the result.
  \<^item> A \<open>for\<close> loop whose body only raises is \<open>first_error\<close>; a sequence of guard statements is
    \<open>seq_checks\<close>.
  \<^item> A Python \<open>dict\<close> is an association list without repeated keys, in insertion order;
    \<open>d[k] = v\<close> is \<open>AList.update\<close> (it keeps the position of an existing key and appends a new
    one) and \<open>d.get(k)\<close> is \<open>map_of\<close>.
\<close>

section \<open>Lemma collections\<close>

named_theorems result_simps \<open>rules for results, checks and their composition\<close>
named_theorems inv_intros \<open>preservation of component invariants\<close>

section \<open>Results\<close>

definition bind_res :: "'e + 'a \<Rightarrow> ('a \<Rightarrow> 'e + 'b) \<Rightarrow> 'e + 'b" where
  "bind_res r f = (case r of Inl e \<Rightarrow> Inl e | Inr x \<Rightarrow> f x)"

lemma bind_res_simps [simp, result_simps]:
  "bind_res (Inl e) f = Inl e"
  "bind_res (Inr x) f = f x"
  by (simp_all add: bind_res_def)

lemma bind_res_Inr_iff [result_simps]:
  "bind_res r f = Inr y \<longleftrightarrow> (\<exists>x. r = Inr x \<and> f x = Inr y)"
  by (cases r) auto

lemma bind_res_Inl_iff [result_simps]:
  "bind_res r f = Inl e \<longleftrightarrow> r = Inl e \<or> (\<exists>x. r = Inr x \<and> f x = Inl e)"
  by (cases r) auto

definition is_ok :: "'e + 'a \<Rightarrow> bool" where
  "is_ok r \<longleftrightarrow> (case r of Inl _ \<Rightarrow> False | Inr _ \<Rightarrow> True)"

lemma is_ok_simps [simp]: "\<not> is_ok (Inl e)" "is_ok (Inr x)"
  by (simp_all add: is_ok_def)

lemma is_ok_iff: "is_ok r \<longleftrightarrow> (\<exists>x. r = Inr x)"
  by (cases r) auto

section \<open>Sequences of checks\<close>

primrec first_error :: "('a \<Rightarrow> 'e option) \<Rightarrow> 'a list \<Rightarrow> 'e option" where
  "first_error f [] = None"
| "first_error f (x # xs) = (case f x of Some e \<Rightarrow> Some e | None \<Rightarrow> first_error f xs)"

lemma first_error_None_iff [result_simps]:
  "first_error f xs = None \<longleftrightarrow> (\<forall>x\<in>set xs. f x = None)"
  by (induction xs) (auto split: option.splits)

lemma first_error_SomeD:
  "first_error f xs = Some e \<Longrightarrow> \<exists>x\<in>set xs. f x = Some e"
  by (induction xs) (auto split: option.splits)

lemma first_error_append:
  "first_error f (xs @ ys) = (case first_error f xs of Some e \<Rightarrow> Some e | None \<Rightarrow> first_error f ys)"
  by (induction xs) (auto split: option.splits)

primrec seq_checks :: "'e option list \<Rightarrow> 'e option" where
  "seq_checks [] = None"
| "seq_checks (c # cs) = (case c of Some e \<Rightarrow> Some e | None \<Rightarrow> seq_checks cs)"

lemma seq_checks_None_iff [result_simps]:
  "seq_checks cs = None \<longleftrightarrow> (\<forall>c\<in>set cs. c = None)"
  by (induction cs) (auto split: option.splits)

lemma seq_checks_SomeD: "seq_checks cs = Some e \<Longrightarrow> Some e \<in> set cs"
  by (induction cs) (auto split: option.splits)

definition check_that :: "bool \<Rightarrow> 'e \<Rightarrow> 'e option" where
  "check_that ok e = (if ok then None else Some e)"

lemma check_that_simps [simp, result_simps]:
  "check_that ok e = None \<longleftrightarrow> ok"
  "check_that ok e = Some e' \<longleftrightarrow> \<not> ok \<and> e' = e"
  by (auto simp: check_that_def)

section \<open>Dictionaries\<close>

type_synonym ('k, 'v) dict = "('k \<times> 'v) list"

abbreviation dict_get :: "('k, 'v) dict \<Rightarrow> 'k \<Rightarrow> 'v option" where
  "dict_get d k \<equiv> map_of d k"

abbreviation dict_set :: "'k \<Rightarrow> 'v \<Rightarrow> ('k, 'v) dict \<Rightarrow> ('k, 'v) dict" where
  "dict_set \<equiv> AList.update"

abbreviation dict_keys :: "('k, 'v) dict \<Rightarrow> 'k list" where
  "dict_keys d \<equiv> map fst d"

definition dict_ok :: "('k, 'v) dict \<Rightarrow> bool" where
  "dict_ok d \<longleftrightarrow> distinct (dict_keys d)"

lemma dict_ok_Nil [simp]: "dict_ok []"
  by (simp add: dict_ok_def)

lemma dict_ok_set [inv_intros]: "dict_ok d \<Longrightarrow> dict_ok (dict_set k v d)"
  by (simp add: dict_ok_def distinct_update)

lemma dict_get_set [simp]:
  "dict_get (dict_set k v d) k' = (if k' = k then Some v else dict_get d k')"
  by (simp add: update_conv')

lemma dict_keys_set:
  "set (dict_keys (dict_set k v d)) = insert k (set (dict_keys d))"
  by (simp add: dom_update)

section \<open>Lists in order of first occurrence\<close>

text \<open>The keys of \<open>{f(x): ... for x in xs}\<close>: repeated keys keep their first position.\<close>

definition nub_first :: "'a list \<Rightarrow> 'a list" where
  "nub_first xs = rev (remdups (rev xs))"

lemma set_nub_first [simp]: "set (nub_first xs) = set xs"
  by (simp add: nub_first_def)

lemma distinct_nub_first [simp]: "distinct (nub_first xs)"
  by (simp add: nub_first_def)

lemma nub_first_distinct [simp]: "distinct xs \<Longrightarrow> nub_first xs = xs"
  by (simp add: nub_first_def distinct_remdups_id)

lemma length_nub_first: "length (nub_first xs) = card (set xs)"
  by (metis distinct_card distinct_nub_first set_nub_first)

lemma sort_key_Nil: "sort_key f xs = [] \<longleftrightarrow> xs = []"
  by (metis length_0_conv length_sort)

end
