(* ===== verification/Json_Value.thy ===== *)
theory Json_Value
  imports Aexor_Prelude
begin

text \<open>
  The values the services exchange: Python objects of the JSON shape. A \<open>dict\<close> is an
  association list in insertion order (see \<open>Aexor_Prelude\<close>); a \<open>float\<close> is an exact rational.
  Strings are lists of characters with codes below 256.
\<close>

datatype json =
    JNull
  | JBool bool
  | JInt int
  | JFloat rat
  | JStr string
  | JArr "json list"
  | JObj "(string \<times> json) list"

type_synonym jobj = "(string, json) dict"

text \<open>Python truthiness (\<open>if x:\<close>).\<close>

fun truthy :: "json \<Rightarrow> bool" where
  "truthy JNull = False"
| "truthy (JBool b) = b"
| "truthy (JInt i) = (i \<noteq> 0)"
| "truthy (JFloat q) = (q \<noteq> 0)"
| "truthy (JStr s) = (s \<noteq> [])"
| "truthy (JArr xs) = (xs \<noteq> [])"
| "truthy (JObj d) = (d \<noteq> [])"

text \<open>\<open>d.get(k, default)\<close>.\<close>

definition jget :: "jobj \<Rightarrow> string \<Rightarrow> json \<Rightarrow> json" where
  "jget d k dflt = (case dict_get d k of Some v \<Rightarrow> v | None \<Rightarrow> dflt)"

text \<open>\<open>x in xs\<close> for a list of strings \<open>xs\<close> and any value \<open>x\<close>.\<close>

fun in_strs :: "json \<Rightarrow> string list \<Rightarrow> bool" where
  "in_strs (JStr s) xs = (s \<in> set xs)"
| "in_strs _ xs = False"

lemma in_strs_Nil [simp]: "\<not> in_strs j []"
  by (cases j) simp_all

lemma in_strs_iff: "in_strs j xs \<longleftrightarrow> (\<exists>s. j = JStr s \<and> s \<in> set xs)"
  by (cases j) auto

end
