(* ===== verification/Plan_Schema.thy ===== *)
theory Plan_Schema
  imports Json_Value
begin

text \<open>
  The shared plan contract (\<open>shared/schemas/plan.py\<close>, \<open>policy.py\<close>, \<open>trust.py\<close>, \<open>intent.py\<close>,
  \<open>outcome.py\<close>): one \<open>datatype\<close> per \<open>Literal\<close> type, one \<open>record\<close> per model, the field
  constraints the models declare as \<open>\<dots>_ok\<close> predicates (what \<open>model_validate\<close> accepts), and
  \<open>model_dump\<close> of a step as a dictionary.
\<close>

section \<open>Literal types\<close>

datatype step_mode = Interactive | Durable

datatype role =
    Fetcher | Analyzer | Watcher | Resolver | Booker | Notifier | Reasoner | Guard

datatype step_type = Api | Llm_reasoning | Policy_check | Sanitizer

datatype trust_level = Untrusted_input | Trusted

datatype step_status = Pending | Running | Completed | Failed | Skipped

datatype execute_mode = Preview_only | Execute_only | Both

datatype verdict = Clean | Suspicious | Injection

fun role_name :: "role \<Rightarrow> string" where
  "role_name Fetcher = ''Fetcher''"
| "role_name Analyzer = ''Analyzer''"
| "role_name Watcher = ''Watcher''"
| "role_name Resolver = ''Resolver''"
| "role_name Booker = ''Booker''"
| "role_name Notifier = ''Notifier''"
| "role_name Reasoner = ''Reasoner''"
| "role_name Guard = ''Guard''"

lemma role_name_inject [simp]: "role_name r = role_name r' \<longleftrightarrow> r = r'"
  by (cases r; cases r'; simp)

lemma role_name_Booker [simp]: "role_name r = ''Booker'' \<longleftrightarrow> r = Booker"
  by (cases r; simp)

lemma role_name_not_Nil [simp]: "role_name r \<noteq> []"
  by (cases r; simp)

fun step_mode_name :: "step_mode \<Rightarrow> string" where
  "step_mode_name Interactive = ''interactive''"
| "step_mode_name Durable = ''durable''"

fun step_type_name :: "step_type \<Rightarrow> string" where
  "step_type_name Api = ''api''"
| "step_type_name Llm_reasoning = ''llm_reasoning''"
| "step_type_name Policy_check = ''policy_check''"
| "step_type_name Sanitizer = ''sanitizer''"

fun trust_level_name :: "trust_level \<Rightarrow> string" where
  "trust_level_name Untrusted_input = ''untrusted_input''"
| "trust_level_name Trusted = ''trusted''"

fun step_status_name :: "step_status \<Rightarrow> string" where
  "step_status_name Pending = ''pending''"
| "step_status_name Running = ''running''"
| "step_status_name Completed = ''completed''"
| "step_status_name Failed = ''failed''"
| "step_status_name Skipped = ''skipped''"

fun execute_mode_name :: "execute_mode \<Rightarrow> string" where
  "execute_mode_name Preview_only = ''preview_only''"
| "execute_mode_name Execute_only = ''execute_only''"
| "execute_mode_name Both = ''both''"

fun verdict_name :: "verdict \<Rightarrow> string" where
  "verdict_name Clean = ''clean''"
| "verdict_name Suspicious = ''suspicious''"
| "verdict_name Injection = ''injection''"

section \<open>Reasoning configuration\<close>

record reasoning_config =
  rc_model :: string
  rc_temperature :: rat
  rc_max_tokens :: int
  rc_system_prompt_ref :: string
  rc_output_schema_ref :: "string option"

definition reasoning_config_ok :: "reasoning_config \<Rightarrow> bool" where
  "reasoning_config_ok c \<longleftrightarrow>
     0 \<le> rc_temperature c \<and> rc_temperature c \<le> 1 \<and>
     256 \<le> rc_max_tokens c \<and> rc_max_tokens c \<le> 8192"

section \<open>Steps and plans\<close>

record plan_step =
  ps_step :: int
  ps_mode :: step_mode
  ps_role :: role
  ps_uses :: string
  ps_call :: string
  ps_args :: jobj
  ps_after :: "int list"
  ps_timeout_s :: int
  ps_deadline :: "string option"
  ps_gate_id :: "string option"
  ps_dry_run :: bool
  ps_type :: step_type
  ps_trust_level :: "trust_level option"
  ps_context_from :: "int list"
  ps_can_spawn :: bool
  ps_max_spawned_steps :: "int option"
  ps_spawned_by :: "int option"
  ps_policy_ref :: "string option"
  ps_reasoning_config :: "reasoning_config option"
  ps_status :: step_status
  ps_result :: "jobj option"
  ps_error :: "jobj option"
  ps_execute_mode :: "execute_mode option"

definition plan_step_ok :: "plan_step \<Rightarrow> bool" where
  "plan_step_ok s \<longleftrightarrow>
     1 \<le> ps_step s \<and> ps_uses s \<noteq> [] \<and> ps_call s \<noteq> [] \<and>
     5 \<le> ps_timeout_s s \<and> ps_timeout_s s \<le> 3600 \<and>
     (case ps_max_spawned_steps s of None \<Rightarrow> True | Some n \<Rightarrow> 1 \<le> n \<and> n \<le> 10) \<and>
     (case ps_reasoning_config s of None \<Rightarrow> True | Some c \<Rightarrow> reasoning_config_ok c)"

text \<open>A step with the required fields and every other field at its declared default.\<close>

definition new_plan_step :: "int \<Rightarrow> step_mode \<Rightarrow> role \<Rightarrow> string \<Rightarrow> string \<Rightarrow> plan_step" where
  "new_plan_step n m r u c =
     \<lparr>ps_step = n, ps_mode = m, ps_role = r, ps_uses = u, ps_call = c, ps_args = [],
      ps_after = [], ps_timeout_s = 30, ps_deadline = None, ps_gate_id = None,
      ps_dry_run = True, ps_type = Api, ps_trust_level = None, ps_context_from = [],
      ps_can_spawn = False, ps_max_spawned_steps = None, ps_spawned_by = None,
      ps_policy_ref = None, ps_reasoning_config = None, ps_status = Pending,
      ps_result = None, ps_error = None, ps_execute_mode = None\<rparr>"

text \<open>The declared constraints; what \<open>extra="allow"\<close> admits beside them is dropped.\<close>

record plan_constraints =
  pc_scopes :: "string list"
  pc_ttl_s :: int
  pc_max_retries :: int
  pc_policy_version :: int

definition plan_constraints_ok :: "plan_constraints \<Rightarrow> bool" where
  "plan_constraints_ok c \<longleftrightarrow>
     60 \<le> pc_ttl_s c \<and> pc_ttl_s c \<le> 86400 \<and>
     0 \<le> pc_max_retries c \<and> pc_max_retries c \<le> 5 \<and> 0 \<le> pc_policy_version c"

definition default_constraints :: plan_constraints where
  "default_constraints =
     \<lparr>pc_scopes = [], pc_ttl_s = 900, pc_max_retries = 3, pc_policy_version = 0\<rparr>"

record plan_meta =
  pm_created_at :: string
  pm_author :: string
  pm_version :: string
  pm_canonical_hash :: string

record intent =
  in_intent :: string
  in_entities :: jobj
  in_constraints :: jobj
  in_tz :: string
  in_user_id :: string
  in_context_budget :: "int option"
  in_session_id :: "string option"
  in_trace_id :: "string option"
  in_sub_intents :: "string list"
  in_tool_overrides :: "(int, string) dict"

definition intent_ok :: "intent \<Rightarrow> bool" where
  "intent_ok i \<longleftrightarrow> in_intent i \<noteq> [] \<and>
     (case in_context_budget i of None \<Rightarrow> True | Some b \<Rightarrow> 1 \<le> b \<and> b \<le> 5)"

record plan =
  pl_plan_id :: string
  pl_intent :: intent
  pl_trace_id :: "string option"
  pl_graph :: "plan_step list"
  pl_constraints :: plan_constraints
  pl_plugins :: "string list"
  pl_meta :: plan_meta
  pl_plan_revision :: int

definition plan_ok :: "plan \<Rightarrow> bool" where
  "plan_ok p \<longleftrightarrow>
     length (pl_plan_id p) = 26 \<and> intent_ok (pl_intent p) \<and>
     1 \<le> length (pl_graph p) \<and> length (pl_graph p) \<le> 100 \<and>
     list_all plan_step_ok (pl_graph p) \<and> plan_constraints_ok (pl_constraints p) \<and>
     0 \<le> pl_plan_revision p"

lemma plan_ok_graph: "plan_ok p \<Longrightarrow> pl_graph p \<noteq> [] \<and> length (pl_graph p) \<le> 100"
  by (auto simp: plan_ok_def)

section \<open>\<open>model_dump\<close>\<close>

definition jopt :: "('a \<Rightarrow> json) \<Rightarrow> 'a option \<Rightarrow> json" where
  "jopt f x = (case x of None \<Rightarrow> JNull | Some v \<Rightarrow> f v)"

lemma jopt_simps [simp]: "jopt f None = JNull" "jopt f (Some v) = f v"
  by (simp_all add: jopt_def)

definition reasoning_config_dump :: "reasoning_config \<Rightarrow> json" where
  "reasoning_config_dump c = JObj
     [(''model'', JStr (rc_model c)), (''temperature'', JFloat (rc_temperature c)),
      (''max_tokens'', JInt (rc_max_tokens c)),
      (''system_prompt_ref'', JStr (rc_system_prompt_ref c)),
      (''output_schema_ref'', jopt JStr (rc_output_schema_ref c))]"

definition step_dump :: "plan_step \<Rightarrow> jobj" where
  "step_dump s =
     [(''step'', JInt (ps_step s)), (''mode'', JStr (step_mode_name (ps_mode s))),
      (''role'', JStr (role_name (ps_role s))), (''uses'', JStr (ps_uses s)),
      (''call'', JStr (ps_call s)), (''args'', JObj (ps_args s)),
      (''after'', JArr (map JInt (ps_after s))), (''timeout_s'', JInt (ps_timeout_s s)),
      (''deadline'', jopt JStr (ps_deadline s)), (''gate_id'', jopt JStr (ps_gate_id s)),
      (''dry_run'', JBool (ps_dry_run s)), (''type'', JStr (step_type_name (ps_type s))),
      (''trust_level'', jopt (JStr \<circ> trust_level_name) (ps_trust_level s)),
      (''context_from'', JArr (map JInt (ps_context_from s))),
      (''can_spawn'', JBool (ps_can_spawn s)),
      (''max_spawned_steps'', jopt JInt (ps_max_spawned_steps s)),
      (''spawned_by'', jopt JInt (ps_spawned_by s)),
      (''policy_ref'', jopt JStr (ps_policy_ref s)),
      (''reasoning_config'', jopt reasoning_config_dump (ps_reasoning_config s)),
      (''status'', JStr (step_status_name (ps_status s))),
      (''result'', jopt JObj (ps_result s)), (''error'', jopt JObj (ps_error s)),
      (''execute_mode'', jopt (JStr \<circ> execute_mode_name) (ps_execute_mode s))]"

text \<open>What the policy engine reads of a dumped step.\<close>

lemma step_dump_get [simp]:
  "jget (step_dump s) ''step'' d = JInt (ps_step s)"
  "jget (step_dump s) ''role'' d = JStr (role_name (ps_role s))"
  "jget (step_dump s) ''uses'' d = JStr (ps_uses s)"
  "jget (step_dump s) ''call'' d = JStr (ps_call s)"
  "jget (step_dump s) ''can_spawn'' d = JBool (ps_can_spawn s)"
  "jget (step_dump s) ''gate_id'' d = jopt JStr (ps_gate_id s)"
  by (simp_all add: step_dump_def jget_def)

lemma step_dump_ok: "dict_ok (step_dump s)"
  by (simp add: step_dump_def dict_ok_def)

end
