(* ===== verification/Dag_Resolver.thy ===== *)
theory Dag_Resolver
  imports Plan_Schema "HOL-Library.Multiset"
begin

text \<open>
  \<open>ExecuteOrchestrator/adapters/dag_resolver.py\<close>: Kahn's algorithm, grouping the steps of a plan
  into execution levels. The edges of the graph are the pairs (dependency, step) the two nested
  loops visit, in that order; \<open>relax\<close> is the inner loop that decrements in-degrees and appends to
  the queue, \<open>kahn\<close> the outer \<open>while queue\<close> loop. The loop is given as many rounds as the graph
  has steps; \<open>kahn_terminates\<close> shows it never needs more.

  The contract the orchestrators rely on is the locale \<open>level_scheduler\<close>.
\<close>

section \<open>The algorithm\<close>

datatype dag_error = Empty_graph | Cycle_detected nat nat

definition step_ids :: "plan_step list \<Rightarrow> int list" where
  "step_ids g = map ps_step g"

definition step_map :: "plan_step list \<Rightarrow> (int, plan_step) dict" where
  "step_map g = fold (\<lambda>s d. dict_set (ps_step s) s d) g []"

definition graph_keys :: "plan_step list \<Rightarrow> int list" where
  "graph_keys g = nub_first (step_ids g)"

definition edges :: "plan_step list \<Rightarrow> (int \<times> int) list" where
  "edges g = concat (map (\<lambda>s. map (\<lambda>dep. (dep, ps_step s))
     (filter (\<lambda>dep. dep \<in> set (step_ids g)) (ps_after s))) g)"

definition in_degree0 :: "plan_step list \<Rightarrow> int \<Rightarrow> int" where
  "in_degree0 g = fold (\<lambda>e d. d(snd e := d (snd e) + 1)) (edges g) (\<lambda>_. 0)"

definition dependents :: "plan_step list \<Rightarrow> int \<Rightarrow> int list" where
  "dependents g n = map snd (filter (\<lambda>e. fst e = n) (edges g))"

fun relax :: "int list \<Rightarrow> (int \<Rightarrow> int) \<Rightarrow> int list \<Rightarrow> (int \<Rightarrow> int) \<times> int list" where
  "relax [] d q = (d, q)"
| "relax (x # xs) d q =
     (let d' = d(x := d x - 1) in relax xs d' (if d' x = 0 then q @ [x] else q))"

fun kahn :: "nat \<Rightarrow> plan_step list \<Rightarrow> (int \<Rightarrow> int) \<Rightarrow> int list \<Rightarrow> int list list \<Rightarrow> int list list option"
where
  "kahn fuel g d [] levels = Some levels"
| "kahn 0 g d (q # qs) levels = None"
| "kahn (Suc fuel) g d (q # qs) levels =
     (let (d', q') = relax (concat (map (dependents g) (q # qs))) d []
      in kahn fuel g d' q' (levels @ [q # qs]))"

definition level_steps :: "plan_step list \<Rightarrow> int list \<Rightarrow> plan_step list" where
  "level_steps g ids = List.map_filter (dict_get (step_map g)) ids"

definition id_levels :: "plan_step list \<Rightarrow> int list list option" where
  "id_levels g = kahn (length g) g (in_degree0 g)
     (filter (\<lambda>n. in_degree0 g n = 0) (graph_keys g)) []"

definition resolve :: "plan_step list \<Rightarrow> (dag_error + plan_step list list) option" where
  "resolve g =
     (if g = [] then Some (Inl Empty_graph)
      else map_option (\<lambda>levels.
        let processed = length (concat levels) in
        if processed \<noteq> length g then Inl (Cycle_detected processed (length g))
        else Inr (map (level_steps g) levels)) (id_levels g))"

section \<open>The graph and its in-degrees\<close>

lemma set_graph_keys [simp]: "set (graph_keys g) = ps_step ` set g"
  by (simp add: graph_keys_def step_ids_def)

lemma distinct_graph_keys [simp]: "distinct (graph_keys g)"
  by (simp add: graph_keys_def)

definition preds :: "plan_step list \<Rightarrow> int \<Rightarrow> int set" where
  "preds g x = {d. (d, x) \<in> set (edges g)}"

lemma edges_iff:
  "(d, x) \<in> set (edges g) \<longleftrightarrow>
     (\<exists>s\<in>set g. ps_step s = x \<and> d \<in> set (ps_after s)) \<and> d \<in> ps_step ` set g"
  by (auto simp: edges_def step_ids_def)

lemma preds_iff:
  "d \<in> preds g x \<longleftrightarrow> (\<exists>s\<in>set g. ps_step s = x \<and> d \<in> set (ps_after s)) \<and> d \<in> ps_step ` set g"
  by (simp add: preds_def edges_iff)

lemma preds_subset_keys: "preds g x \<subseteq> ps_step ` set g"
  by (auto simp: preds_iff)

abbreviation indeg_from :: "plan_step list \<Rightarrow> int set \<Rightarrow> int \<Rightarrow> nat" where
  "indeg_from g D x \<equiv> length (filter (\<lambda>e. snd e = x \<and> fst e \<notin> D) (edges g))"

lemma indeg_from_0_iff: "indeg_from g D x = 0 \<longleftrightarrow> preds g x \<subseteq> D"
  by (auto simp: preds_def filter_empty_conv)

lemma fold_count:
  "fold (\<lambda>e d. d(snd e := d (snd e) + 1)) es d x
     = d x + int (length (filter (\<lambda>e. snd e = x) es))" for d :: "int \<Rightarrow> int"
  by (induction es arbitrary: d) auto

lemma in_degree0_eq: "in_degree0 g x = int (indeg_from g {} x)"
  by (simp add: in_degree0_def fold_count)

lemma count_dependents:
  assumes "distinct ids"
  shows "count_list (concat (map (dependents g) ids)) x
     = length (filter (\<lambda>e. snd e = x \<and> fst e \<in> set ids) (edges g))"
proof -
  have one: "count_list (dependents g n) x
      = length (filter (\<lambda>e. snd e = x \<and> fst e = n) (edges g))" for n
  proof -
    have "count_list (map snd (filter (\<lambda>e. fst e = n) es)) x
        = length (filter (\<lambda>e. snd e = x \<and> fst e = n) es)" for es :: "(int \<times> int) list"
      by (induction es) auto
    then show ?thesis by (simp add: dependents_def)
  qed
  have split: "length (filter (\<lambda>e. snd e = x \<and> (fst e = n \<or> fst e \<in> A)) es)
      = length (filter (\<lambda>e. snd e = x \<and> fst e = n) es)
        + length (filter (\<lambda>e. snd e = x \<and> fst e \<in> A) es)"
    if "n \<notin> A" for n A and es :: "(int \<times> int) list"
    using that by (induction es) auto
  from assms show ?thesis
    by (induction ids) (simp_all add: one split)
qed

section \<open>One round of the loop\<close>

lemma relax_result:
  assumes "\<forall>x. int (count_list xs x) \<le> d x"
  shows "\<exists>hits. relax xs d q = ((\<lambda>x. d x - int (count_list xs x)), q @ hits) \<and> distinct hits \<and>
     set hits = {x \<in> set xs. d x = int (count_list xs x)}"
  using assms
proof (induction xs arbitrary: d q)
  case Nil
  then show ?case by simp
next
  case (Cons y xs)
  let ?d = "d(y := d y - 1)"
  have "\<forall>x. int (count_list xs x) \<le> ?d x"
    using Cons.prems by (auto split: if_splits)
  from Cons.IH [OF this, of "if ?d y = 0 then q @ [y] else q"] obtain hits where
    h: "relax xs ?d (if ?d y = 0 then q @ [y] else q)
          = ((\<lambda>x. ?d x - int (count_list xs x)), (if ?d y = 0 then q @ [y] else q) @ hits)"
    and dh: "distinct hits" and sh: "set hits = {x \<in> set xs. ?d x = int (count_list xs x)}"
    by blast
  have deg: "(\<lambda>x. ?d x - int (count_list xs x)) = (\<lambda>x. d x - int (count_list (y # xs) x))"
    by auto
  have eq: "(?d x = int (count_list xs x)) = (d x = int (count_list (y # xs) x))" for x
    by (cases "x = y") (simp_all, linarith)
  have hits: "set hits = {x \<in> set xs. d x = int (count_list (y # xs) x)}"
    unfolding sh eq ..
  have y0: "d y = int (count_list (y # xs) y) \<longleftrightarrow> ?d y = 0" if "y \<notin> set xs"
    using that by (simp add: count_list_0_iff)
  have notin: "y \<notin> set xs" if "?d y = 0"
    using that Cons.prems [rule_format, of y] by (simp add: count_list_0_iff)
  have step: "relax (y # xs) d q
      = ((\<lambda>x. d x - int (count_list (y # xs) x)), (if ?d y = 0 then q @ [y] else q) @ hits)"
    using h unfolding relax.simps Let_def deg .
  show ?case
  proof (cases "?d y = 0")
    case True
    have "set (y # hits) = {x \<in> set (y # xs). d x = int (count_list (y # xs) x)}"
    proof -
      have "d y = int (count_list (y # xs) y)"
        using y0 [OF notin [OF True]] True by blast
      then show ?thesis unfolding list.set hits by blast
    qed
    moreover have "distinct (y # hits)"
      using notin [OF True] dh unfolding distinct.simps hits by blast
    moreover have "relax (y # xs) d q
        = ((\<lambda>x. d x - int (count_list (y # xs) x)), q @ (y # hits))"
      using step True by (simp only: if_True append_assoc append_Cons append_Nil simp_thms)
    ultimately show ?thesis by blast
  next
    case False
    have "y \<in> set xs" if "d y = int (count_list (y # xs) y)"
      using that y0 False by blast
    then have "set hits = {x \<in> set (y # xs). d x = int (count_list (y # xs) x)}"
      unfolding list.set hits by blast
    moreover have "relax (y # xs) d q = ((\<lambda>x. d x - int (count_list (y # xs) x)), q @ hits)"
      using step False by (simp only: if_False)
    ultimately show ?thesis using dh by blast
  qed
qed

text \<open>
  The loop invariant: \<open>D\<close> is the set of processed steps, \<open>d\<close> counts the edges that come from
  unprocessed steps, and the queue holds exactly the unprocessed steps with no such edge.
\<close>

definition kahn_inv :: "plan_step list \<Rightarrow> int set \<Rightarrow> (int \<Rightarrow> int) \<Rightarrow> int list \<Rightarrow> bool" where
  "kahn_inv g D d q \<longleftrightarrow>
     D \<subseteq> ps_step ` set g \<and> distinct q \<and>
     set q = {x \<in> ps_step ` set g. x \<notin> D \<and> preds g x \<subseteq> D} \<and>
     (\<forall>x. d x = int (indeg_from g D x)) \<and> (\<forall>x\<in>D. preds g x \<subseteq> D)"

lemma kahn_inv_init:
  "kahn_inv g {} (in_degree0 g) (filter (\<lambda>n. in_degree0 g n = 0) (graph_keys g))"
  unfolding kahn_inv_def in_degree0_eq of_nat_eq_0_iff indeg_from_0_iff by auto

lemma kahn_inv_round:
  assumes inv: "kahn_inv g D d q"
  obtains d' q' where "relax (concat (map (dependents g) q)) d [] = (d', q')"
    and "kahn_inv g (D \<union> set q) d' q'"
    and "\<forall>x\<in>set q'. preds g x \<inter> set q \<noteq> {}"
proof -
  let ?xs = "concat (map (dependents g) q)"
  have dq: "distinct q" and d: "\<And>x. d x = int (indeg_from g D x)"
    and sq: "set q = {x \<in> ps_step ` set g. x \<notin> D \<and> preds g x \<subseteq> D}"
    using inv by (auto simp: kahn_inv_def)
  have cnt: "count_list ?xs x = length (filter (\<lambda>e. snd e = x \<and> fst e \<in> set q) (edges g))" for x
    by (rule count_dependents [OF dq])
  have split: "indeg_from g D x = count_list ?xs x + indeg_from g (D \<union> set q) x" for x
  proof -
    have "length (filter (\<lambda>e. snd e = x \<and> fst e \<notin> D) es)
        = length (filter (\<lambda>e. snd e = x \<and> fst e \<in> set q) es)
          + length (filter (\<lambda>e. snd e = x \<and> fst e \<notin> D \<union> set q) es)" for es
      using sq by (induction es) auto
    then show ?thesis unfolding cnt .
  qed
  have "\<forall>x. int (count_list ?xs x) \<le> d x"
    using d split by simp
  from relax_result [OF this, of "[]"] obtain q' where
    r: "relax ?xs d [] = ((\<lambda>x. d x - int (count_list ?xs x)), q')"
    and dq': "distinct q'" and sq': "set q' = {x \<in> set ?xs. d x = int (count_list ?xs x)}"
    by auto
  have mem: "x \<in> set ?xs \<longleftrightarrow> preds g x \<inter> set q \<noteq> {}" for x
    by (force simp: dependents_def preds_def)
  have zero: "d x = int (count_list ?xs x) \<longleftrightarrow> preds g x \<subseteq> D \<union> set q" for x
    using d [of x] split [of x] indeg_from_0_iff [where g = g and D = "D \<union> set q" and x = x] by simp
  have new: "set q' = {x \<in> ps_step ` set g. x \<notin> D \<union> set q \<and> preds g x \<subseteq> D \<union> set q}"
  proof (intro set_eqI iffI)
    fix x assume "x \<in> set q'"
    then have hit: "preds g x \<inter> set q \<noteq> {}" and all: "preds g x \<subseteq> D \<union> set q"
      using sq' mem zero by auto
    from hit have key: "x \<in> ps_step ` set g" by (auto simp: preds_iff)
    from hit have "\<not> preds g x \<subseteq> D" using sq by auto
    then have "x \<notin> D" "x \<notin> set q" using inv sq by (auto simp: kahn_inv_def)
    with key all show "x \<in> {x \<in> ps_step ` set g. x \<notin> D \<union> set q \<and> preds g x \<subseteq> D \<union> set q}"
      by simp
  next
    fix x assume "x \<in> {x \<in> ps_step ` set g. x \<notin> D \<union> set q \<and> preds g x \<subseteq> D \<union> set q}"
    then have key: "x \<in> ps_step ` set g" and nD: "x \<notin> D" and nq: "x \<notin> set q"
      and all: "preds g x \<subseteq> D \<union> set q" by auto
    from key nD nq have "\<not> preds g x \<subseteq> D" unfolding sq by simp
    with all have "preds g x \<inter> set q \<noteq> {}" by auto
    with all show "x \<in> set q'" using sq' mem zero by simp
  qed
  have "kahn_inv g (D \<union> set q) (\<lambda>x. d x - int (count_list ?xs x)) q'"
    unfolding kahn_inv_def
  proof (intro conjI)
    show "D \<union> set q \<subseteq> ps_step ` set g" using inv sq by (auto simp: kahn_inv_def)
    show "distinct q'" by (rule dq')
    show "set q' = {x \<in> ps_step ` set g. x \<notin> D \<union> set q \<and> preds g x \<subseteq> D \<union> set q}" by (rule new)
    show "\<forall>x. d x - int (count_list ?xs x) = int (indeg_from g (D \<union> set q) x)"
      using d split by simp
    show "\<forall>x\<in>D \<union> set q. preds g x \<subseteq> D \<union> set q" using inv sq by (auto simp: kahn_inv_def)
  qed
  moreover have "\<forall>x\<in>set q'. preds g x \<inter> set q \<noteq> {}" using sq' mem by auto
  ultimately show thesis using r that by blast
qed

section \<open>The whole loop\<close>

text \<open>
  A list of levels is \<open>layered\<close> above a set \<open>D\<close> of earlier steps when every step of a level has its
  dependencies below it and, but for the first level, at least one of them in the level just
  before (so no step could have run earlier).
\<close>

fun layered :: "plan_step list \<Rightarrow> int set \<Rightarrow> int set option \<Rightarrow> int list list \<Rightarrow> bool" where
  "layered g D prev [] = True"
| "layered g D prev (L # Ls) =
     (L \<noteq> [] \<and> (\<forall>x\<in>set L. preds g x \<subseteq> D) \<and>
      (case prev of None \<Rightarrow> True | Some P \<Rightarrow> \<forall>x\<in>set L. preds g x \<inter> P \<noteq> {}) \<and>
      layered g (D \<union> set L) (Some (set L)) Ls)"

definition stuck :: "plan_step list \<Rightarrow> int set \<Rightarrow> bool" where
  "stuck g D \<longleftrightarrow> (\<forall>x\<in>ps_step ` set g - D. preds g x - D \<noteq> {})"

lemma kahn_result:
  assumes "kahn fuel g d q levels = Some r" and "kahn_inv g D d q"
    and "case prev of None \<Rightarrow> True | Some P \<Rightarrow> \<forall>x\<in>set q. preds g x \<inter> P \<noteq> {}"
  shows "\<exists>rest. r = levels @ rest \<and> layered g D prev rest \<and> distinct (concat rest) \<and>
     set (concat rest) \<inter> D = {} \<and> set (concat rest) \<subseteq> ps_step ` set g \<and>
     stuck g (D \<union> set (concat rest))"
  using assms
proof (induction fuel g d q levels arbitrary: D prev rule: kahn.induct)
  case (1 fuel g d levels)
  then have "stuck g D" by (auto simp: stuck_def kahn_inv_def)
  with 1 show ?case by auto
next
  case (2 g d q qs levels)
  then show ?case by simp
next
  case (3 fuel g d q qs levels)
  let ?q = "q # qs"
  have inv: "kahn_inv g D d ?q" by (rule 3)
  obtain d' q' where rel: "relax (concat (map (dependents g) ?q)) d [] = (d', q')"
    and inv': "kahn_inv g (D \<union> set ?q) d' q'"
    and hit: "\<forall>x\<in>set q'. preds g x \<inter> set ?q \<noteq> {}"
    using kahn_inv_round [OF inv] by metis
  have k: "kahn fuel g d' q' (levels @ [?q]) = Some r"
    using "3.prems"(1) rel by simp
  obtain rest where rest: "r = (levels @ [?q]) @ rest" "layered g (D \<union> set ?q) (Some (set ?q)) rest"
      "distinct (concat rest)" "set (concat rest) \<inter> (D \<union> set ?q) = {}"
      "set (concat rest) \<subseteq> ps_step ` set g" "stuck g (D \<union> set ?q \<union> set (concat rest))"
    using "3.IH" [OF rel [symmetric] refl k inv', of "Some (set ?q)"] hit by auto
  have "\<forall>x\<in>set ?q. preds g x \<subseteq> D"
    using inv unfolding kahn_inv_def by blast
  with rest(2) "3.prems"(3) have "layered g D prev (?q # rest)"
    unfolding layered.simps by simp
  moreover have "r = levels @ (?q # rest)" using rest(1) by simp
  moreover have "distinct (concat (?q # rest))" using rest(3,4) inv by (auto simp: kahn_inv_def)
  moreover have "set (concat (?q # rest)) \<inter> D = {}" using rest(4) inv by (auto simp: kahn_inv_def)
  moreover have "set (concat (?q # rest)) \<subseteq> ps_step ` set g"
    using rest(5) inv by (auto simp: kahn_inv_def)
  moreover have "stuck g (D \<union> set (concat (?q # rest)))" using rest(6) by (simp add: Un_assoc)
  ultimately show ?case by blast
qed

lemma kahn_fuel_enough:
  assumes "kahn_inv g D d q" and "card (ps_step ` set g - D) \<le> fuel"
  shows "\<exists>r. kahn fuel g d q levels = Some r"
  using assms
proof (induction fuel g d q levels arbitrary: D rule: kahn.induct)
  case (1 fuel g d levels)
  then show ?case by simp
next
  case (2 g d q qs levels)
  then have "ps_step ` set g - D = {}" by simp
  moreover have "q \<in> ps_step ` set g - D" using 2 by (auto simp: kahn_inv_def)
  ultimately show ?case by blast
next
  case (3 fuel g d q qs levels)
  let ?q = "q # qs"
  obtain d' q' where rel: "relax (concat (map (dependents g) ?q)) d [] = (d', q')"
    and inv': "kahn_inv g (D \<union> set ?q) d' q'"
    using kahn_inv_round [OF "3.prems"(1)] by metis
  have "q \<in> ps_step ` set g - D" using "3.prems"(1) by (auto simp: kahn_inv_def)
  then have "ps_step ` set g - (D \<union> set ?q) \<subset> ps_step ` set g - D" by auto
  then have "card (ps_step ` set g - (D \<union> set ?q)) < card (ps_step ` set g - D)"
    by (intro psubset_card_mono) auto
  with "3.prems"(2) have "card (ps_step ` set g - (D \<union> set ?q)) \<le> fuel" by simp
  from "3.IH" [OF rel [symmetric] refl inv' this] rel show ?case by simp
qed

lemma id_levels_Some: "\<exists>r. id_levels g = Some r"
proof -
  have "card (ps_step ` set g - {}) \<le> length g"
    using card_image_le [of "set g" ps_step] card_length [of g] by simp
  then show ?thesis
    unfolding id_levels_def by (rule kahn_fuel_enough [OF kahn_inv_init])
qed

lemma id_levels_result:
  assumes "id_levels g = Some r"
  shows "layered g {} None r" "distinct (concat r)" "set (concat r) \<subseteq> ps_step ` set g"
    "stuck g (set (concat r))"
  using kahn_result [OF assms [unfolded id_levels_def] kahn_inv_init, of None] by auto

lemma layered_nth:
  assumes "layered g D prev Ls" and "i < length Ls" and "x \<in> set (Ls ! i)"
  shows "preds g x \<subseteq> D \<union> set (concat (take i Ls))"
  using assms
proof (induction g D prev Ls arbitrary: i rule: layered.induct)
  case (2 g D prev L Ls)
  then show ?case by (cases i) auto
qed simp

lemma layered_nth_prev:
  assumes "layered g D prev Ls" and "Suc i < length Ls" and "x \<in> set (Ls ! Suc i)"
  shows "preds g x \<inter> set (Ls ! i) \<noteq> {}"
  using assms
proof (induction g D prev Ls arbitrary: i rule: layered.induct)
  case (2 g D prev L Ls)
  show ?case
  proof (cases i)
    case 0
    with 2 show ?thesis by (cases Ls) auto
  next
    case (Suc j)
    with 2 show ?thesis by auto
  qed
qed simp

section \<open>Acyclicity\<close>

lemma stuck_acyclic:
  assumes "acyclic (set (edges g))" and "stuck g D"
  shows "ps_step ` set g \<subseteq> D"
proof (rule ccontr)
  assume "\<not> ps_step ` set g \<subseteq> D"
  then obtain x where "x \<in> ps_step ` set g - D" by blast
  moreover have "wf (set (edges g))" using assms(1) by (simp add: finite_acyclic_wf)
  ultimately obtain z where z: "z \<in> ps_step ` set g - D"
    and min: "\<And>y. (y, z) \<in> set (edges g) \<Longrightarrow> y \<notin> ps_step ` set g - D"
    using wfE_min by metis
  from assms(2) z obtain y where "y \<in> preds g z" "y \<notin> D" by (auto simp: stuck_def)
  with min [of y] preds_subset_keys [of g z] show False by (auto simp: preds_def)
qed

lemma layered_acyclic:
  assumes lay: "layered g {} None Ls" and all: "ps_step ` set g \<subseteq> set (concat Ls)"
  shows "acyclic (set (edges g))"
proof -
  define rank where "rank x = (LEAST i. i < length Ls \<and> x \<in> set (Ls ! i))" for x
  have rank: "rank x < length Ls \<and> x \<in> set (Ls ! rank x)" if "x \<in> ps_step ` set g" for x
  proof -
    from that all obtain L where "L \<in> set Ls" "x \<in> set L" by auto
    then obtain i where "i < length Ls \<and> x \<in> set (Ls ! i)" by (auto simp: in_set_conv_nth)
    then show ?thesis unfolding rank_def by (rule LeastI)
  qed
  have "rank d < rank x" if "(d, x) \<in> set (edges g)" for d x
  proof -
    from that have "x \<in> ps_step ` set g" by (auto simp: edges_iff)
    with rank have x: "rank x < length Ls" "x \<in> set (Ls ! rank x)" by auto
    from that layered_nth [OF lay x] have "d \<in> set (concat (take (rank x) Ls))"
      by (auto simp: preds_def)
    then obtain L where "L \<in> set (take (rank x) Ls)" "d \<in> set L" by auto
    then obtain j where j: "j < rank x" "j < length Ls" "d \<in> set (Ls ! j)"
      by (metis in_set_conv_nth length_take min_less_iff_conj nth_take)
    then have "rank d \<le> j" unfolding rank_def by (intro Least_le) simp
    with j show ?thesis by simp
  qed
  then have "set (edges g) \<subseteq> measure rank" by (auto simp: in_measure)
  then show ?thesis by (meson wf_acyclic wf_measure wf_subset)
qed

section \<open>The resolved levels\<close>

lemma dict_get_step_map:
  assumes "distinct (step_ids g)" and "s \<in> set g"
  shows "dict_get (step_map g) (ps_step s) = Some s"
proof -
  have gen: "dict_get (fold (\<lambda>s d. dict_set (ps_step s) s d) xs d) n =
      (case map_of (rev (map (\<lambda>s. (ps_step s, s)) xs)) n of
         Some s \<Rightarrow> Some s | None \<Rightarrow> dict_get d n)" for xs d n
    by (induction xs arbitrary: d) (auto simp: map_add_def split: option.splits)
  have "map_of (rev (map (\<lambda>s. (ps_step s, s)) g)) (ps_step s) = Some s"
    using assms by (intro map_of_is_SomeI) (auto simp: rev_map step_ids_def comp_def simp flip: rev_map)
  then show ?thesis by (simp add: step_map_def gen)
qed

lemma level_steps_ids:
  assumes "distinct (step_ids g)" and "set ids \<subseteq> ps_step ` set g"
  shows "map ps_step (level_steps g ids) = ids" and "set (level_steps g ids) \<subseteq> set g"
  using assms
  by (induction ids)
    (auto simp: level_steps_def map_filter_simps dict_get_step_map [OF assms(1)])

lemma concat_level_steps: "concat (map (level_steps g) ls) = level_steps g (concat ls)"
  by (induction ls) (simp_all add: level_steps_def map_filter_def)

lemma resolve_Inr:
  assumes "resolve g = Some (Inr lv)"
  obtains r where "id_levels g = Some r" "lv = map (level_steps g) r"
    "distinct (step_ids g)" "set (concat r) = ps_step ` set g"
proof -
  from assms obtain r where r: "id_levels g = Some r" "length (concat r) = length g"
      "lv = map (level_steps g) r"
    using id_levels_Some [of g] by (auto simp: resolve_def Let_def split: if_splits)
  note res = id_levels_result [OF r(1)]
  have "card (set (concat r)) = length g" using res(2) r(2) distinct_card by metis
  with res(3) have "length g \<le> card (ps_step ` set g)"
    by (metis card_mono finite_imageI List.finite_set)
  moreover have "card (ps_step ` set g) \<le> length (step_ids g)"
    by (metis card_length list.set_map step_ids_def)
  ultimately have dist: "distinct (step_ids g)"
    by (intro card_distinct) (simp add: step_ids_def)
  then have "card (ps_step ` set g) = length g"
    using distinct_card [OF dist] by (simp add: step_ids_def)
  with res(3) \<open>card (set (concat r)) = length g\<close> have "set (concat r) = ps_step ` set g"
    by (intro card_subset_eq) auto
  with r dist that show thesis by blast
qed

lemma resolve_total: "\<exists>r. resolve g = Some r"
  using id_levels_Some [of g] by (auto simp: resolve_def)

lemma resolve_cover:
  assumes "resolve g = Some (Inr lv)"
  shows "mset (concat lv) = mset g"
proof -
  obtain r where r: "id_levels g = Some r" "lv = map (level_steps g) r"
    "distinct (step_ids g)" "set (concat r) = ps_step ` set g"
    using resolve_Inr [OF assms] by blast
  have keys: "set (concat r) \<subseteq> ps_step ` set g" using r(4) by simp
  note ls = level_steps_ids [OF r(3) keys]
  have "distinct (level_steps g (concat r))"
    using ls(1) id_levels_result(2) [OF r(1)] distinct_map by metis
  moreover have "set g \<subseteq> set (level_steps g (concat r))"
  proof
    fix s assume s: "s \<in> set g"
    then have "ps_step s \<in> set (map ps_step (level_steps g (concat r)))"
      unfolding ls(1) r(4) by blast
    then obtain t where "t \<in> set (level_steps g (concat r))" "ps_step t = ps_step s" by auto
    moreover have "t = s"
      using calculation s ls(2) r(3) by (auto simp: step_ids_def distinct_map inj_on_def)
    ultimately show "s \<in> set (level_steps g (concat r))" by simp
  qed
  moreover have "distinct g" using r(3) by (simp add: step_ids_def distinct_map)
  ultimately have "mset (level_steps g (concat r)) = mset g"
    using ls(2) by (metis set_eq_iff_mset_eq_distinct subset_antisym)
  then show ?thesis by (simp add: r(2) concat_level_steps)
qed

lemma resolve_ids:
  assumes "resolve g = Some (Inr lv)"
  shows "map (map ps_step) lv = the (id_levels g)" and "layered g {} None (map (map ps_step) lv)"
proof -
  obtain r where r: "id_levels g = Some r" "lv = map (level_steps g) r"
    "distinct (step_ids g)" "set (concat r) = ps_step ` set g"
    using resolve_Inr [OF assms] by blast
  have "map ps_step (level_steps g L) = L" if "L \<in> set r" for L
    using level_steps_ids(1) [OF r(3)] r(4) that by auto
  then have "map (map ps_step) lv = r" unfolding r(2) by (simp add: map_idI)
  then show "map (map ps_step) lv = the (id_levels g)" "layered g {} None (map (map ps_step) lv)"
    using r(1) id_levels_result(1) [OF r(1)] by simp_all
qed

lemma resolve_deps:
  assumes res: "resolve g = Some (Inr lv)" and i: "i < length lv" and s: "s \<in> set (lv ! i)"
    and d: "d \<in> set (ps_after s)" "d \<in> ps_step ` set g"
  shows "d \<in> ps_step ` set (concat (take i lv))"
proof -
  let ?ids = "map (map ps_step) lv"
  have "ps_step s \<in> set (?ids ! i)" using i s by simp
  from layered_nth [OF resolve_ids(2) [OF res] _ this] i
  have "preds g (ps_step s) \<subseteq> set (concat (take i ?ids))" by simp
  moreover have "set (concat lv) = set g" using resolve_cover [OF res] by (rule mset_eq_setD)
  then have "s \<in> set g" using i s by (metis UN_I nth_mem set_concat)
  then have "d \<in> preds g (ps_step s)" using d by (auto simp: preds_iff)
  ultimately obtain L where "L \<in> set (take i lv)" "d \<in> ps_step ` set L"
    by (fastforce simp: take_map)
  then show ?thesis by auto
qed

lemma resolve_prev:
  assumes res: "resolve g = Some (Inr lv)" and i: "Suc i < length lv" and s: "s \<in> set (lv ! Suc i)"
  shows "\<exists>d\<in>preds g (ps_step s). d \<in> ps_step ` set (lv ! i)"
proof -
  let ?ids = "map (map ps_step) lv"
  have "ps_step s \<in> set (?ids ! Suc i)" using i s by simp
  from layered_nth_prev [OF resolve_ids(2) [OF res] _ this] i
  have "preds g (ps_step s) \<inter> set (?ids ! i) \<noteq> {}" by simp
  then show ?thesis using i by auto
qed

lemma resolve_distinct: "resolve g = Some (Inr lv) \<Longrightarrow> distinct (step_ids g)"
  by (erule resolve_Inr)

lemma resolve_iff_acyclic:
  assumes "g \<noteq> []" and dist: "distinct (step_ids g)"
  shows "(\<exists>lv. resolve g = Some (Inr lv)) \<longleftrightarrow> acyclic (set (edges g))"
proof
  assume "\<exists>lv. resolve g = Some (Inr lv)"
  then obtain lv where "resolve g = Some (Inr lv)" ..
  then obtain r where "id_levels g = Some r" "set (concat r) = ps_step ` set g"
    by (rule resolve_Inr) blast
  then show "acyclic (set (edges g))"
    using id_levels_result(1) by (intro layered_acyclic [of g r]) auto
next
  assume acyc: "acyclic (set (edges g))"
  obtain r where r: "id_levels g = Some r" using id_levels_Some by blast
  note res = id_levels_result [OF r]
  have "set (concat r) = ps_step ` set g"
    using stuck_acyclic [OF acyc res(4)] res(3) by blast
  then have "length (concat r) = card (set (step_ids g))"
    using distinct_card [OF res(2)] by (simp add: step_ids_def)
  then have "length (concat r) = length g"
    using distinct_card [OF dist] by (simp add: step_ids_def)
  with r assms(1) show "\<exists>lv. resolve g = Some (Inr lv)" by (simp add: resolve_def Let_def)
qed

section \<open>The contract of a scheduler\<close>

text \<open>
  What the orchestrators use: a scheduler answers on every graph; its levels hold every step
  exactly once; and a dependency that is a step of the plan is in an earlier level.
\<close>

locale level_scheduler =
  fixes sched :: "plan_step list \<Rightarrow> (dag_error + plan_step list list) option"
  assumes sched_total: "\<exists>r. sched g = Some r"
    and sched_cover: "sched g = Some (Inr lv) \<Longrightarrow> mset (concat lv) = mset g"
    and sched_deps: "sched g = Some (Inr lv) \<Longrightarrow> i < length lv \<Longrightarrow> s \<in> set (lv ! i) \<Longrightarrow>
      d \<in> set (ps_after s) \<Longrightarrow> d \<in> ps_step ` set g \<Longrightarrow> d \<in> ps_step ` set (concat (take i lv))"
begin

lemma sched_set: "sched g = Some (Inr lv) \<Longrightarrow> set (concat lv) = set g"
  by (rule mset_eq_setD) (rule sched_cover)

lemma sched_length: "sched g = Some (Inr lv) \<Longrightarrow> length (concat lv) = length g"
  by (rule mset_eq_length) (rule sched_cover)

text \<open>When a level is reached, the dependencies of its steps are in the levels already run.\<close>

lemma sched_ready:
  assumes "sched g = Some (Inr (before @ L # rest))" and "s \<in> set L"
    and "d \<in> set (ps_after s)" and "d \<in> ps_step ` set g"
  shows "d \<in> ps_step ` set (concat before)"
  using sched_deps [OF assms(1), of "length before" s d] assms(2-) by simp

end

interpretation kahn_scheduler: level_scheduler resolve
  by unfold_locales (fact resolve_total, fact resolve_cover, fact resolve_deps)

section \<open>Properties\<close>

text \<open>C31. The execution levels are right: they hold every step of the plan exactly once, a step's
  dependencies (those that are steps of the plan) are all in earlier levels, and every step
  outside the first level has a dependency in the level just before it, so no step waits longer
  than its dependencies require.\<close>

theorem execution_levels_correct:
  assumes "resolve g = Some (Inr lv)"
  shows "mset (concat lv) = mset g \<and>
     (\<forall>i<length lv. \<forall>s\<in>set (lv ! i). \<forall>d\<in>set (ps_after s). d \<in> ps_step ` set g \<longrightarrow>
        d \<in> ps_step ` set (concat (take i lv))) \<and>
     (\<forall>i. Suc i < length lv \<longrightarrow> (\<forall>s\<in>set (lv ! Suc i). \<exists>d\<in>set (ps_after s).
        d \<in> ps_step ` set (lv ! i)))"
proof (intro conjI allI impI ballI)
  show "mset (concat lv) = mset g" by (rule kahn_scheduler.sched_cover [OF assms])
next
  fix i s d
  assume "i < length lv" "s \<in> set (lv ! i)" "d \<in> set (ps_after s)" "d \<in> ps_step ` set g"
  then show "d \<in> ps_step ` set (concat (take i lv))"
    by (rule kahn_scheduler.sched_deps [OF assms])
next
  fix i s
  assume i: "Suc i < length lv" and s: "s \<in> set (lv ! Suc i)"
  from resolve_prev [OF assms i s] obtain d where d: "d \<in> preds g (ps_step s)"
    and di: "d \<in> ps_step ` set (lv ! i)" by blast
  have "s \<in> set g"
    using kahn_scheduler.sched_set [OF assms] i s by (metis UN_I nth_mem set_concat)
  then have "d \<in> set (ps_after s)"
    using d resolve_distinct [OF assms] by (auto simp: preds_iff step_ids_def distinct_map inj_on_def)
  with di show "\<exists>d\<in>set (ps_after s). d \<in> ps_step ` set (lv ! i)" by blast
qed

text \<open>A diamond: 1, then 2 and 3, then 4.\<close>

definition diamond :: "plan_step list" where
  "diamond = map (\<lambda>(n, deps). (new_plan_step n Interactive Fetcher ''t'' ''c'')\<lparr>ps_after := deps\<rparr>)
     [(4, [2, 3]), (2, [1]), (3, [1, 1]), (1, [])]"

lemma diamond_levels:
  "map_option (map_sum id (map (map ps_step))) (resolve diamond) = Some (Inr [[1], [2, 3], [4]])"
  by code_simp

lemma diamond_resolves:
  "\<exists>lv. resolve diamond = Some (Inr lv) \<and> map (map ps_step) lv = [[1], [2, 3], [4]]"
proof -
  obtain r where r: "resolve diamond = Some r" using resolve_total by blast
  have m: "map_sum id (map (map ps_step)) r = Inr [[1], [2, 3], [4]]"
    using diamond_levels unfolding r option.map by (rule option.inject [THEN iffD1])
  show ?thesis
  proof (cases r)
    case (Inl e)
    with m show ?thesis by simp
  next
    case (Inr lv)
    have "map (map ps_step) lv = [[1], [2, 3], [4]]"
      using m unfolding Inr map_sum.simps by (rule Inr_inject)
    then show ?thesis using r unfolding Inr by (intro exI conjI)
  qed
qed

theorem execution_levels_correct_witness:
  "\<exists>lv. resolve diamond = Some (Inr lv) \<and> map (map ps_step) lv = [[1], [2, 3], [4]] \<and>
     mset (concat lv) = mset diamond"
proof -
  obtain lv where lv: "resolve diamond = Some (Inr lv)" "map (map ps_step) lv = [[1], [2, 3], [4]]"
    using diamond_resolves by (elim exE conjE)
  show ?thesis
    by (intro exI [of _ lv] conjI lv execution_levels_correct [OF lv(1), THEN conjunct1])
qed

text \<open>Cycle detection is exact: on a non-empty plan with distinct step numbers the resolver
  returns levels if and only if the dependency relation has no cycle.\<close>

theorem cycle_detection_exact:
  assumes "g \<noteq> []" and "distinct (step_ids g)"
  shows "(\<exists>lv. resolve g = Some (Inr lv)) \<longleftrightarrow> acyclic (set (edges g))"
  by (rule resolve_iff_acyclic [OF assms])

theorem cycle_detection_exact_witness:
  "distinct (step_ids diamond) \<and> acyclic (set (edges diamond))"
proof -
  have ne: "diamond \<noteq> []" and dist: "distinct (step_ids diamond)"
    by (simp_all add: diamond_def step_ids_def new_plan_step_def)
  have "\<exists>lv. resolve diamond = Some (Inr lv)"
    using diamond_resolves by (elim exE conjE) (rule exI)
  then show ?thesis using cycle_detection_exact [OF ne dist] dist by blast
qed

text \<open>C34. The \<open>while queue\<close> loop ends on every graph, cyclic or not: with one round per step the
  resolver answers, and the answer is a failure exactly on the empty graph, on repeated step
  numbers and on a cycle.\<close>

theorem resolver_answers:
  "\<exists>r. resolve g = Some r \<and>
     (is_ok r \<longleftrightarrow> g \<noteq> [] \<and> distinct (step_ids g) \<and> acyclic (set (edges g)))"
proof -
  obtain r where r: "resolve g = Some r" using kahn_scheduler.sched_total by blast
  have "is_ok r \<longleftrightarrow> (\<exists>lv. resolve g = Some (Inr lv))" using r by (auto simp: is_ok_iff)
  also have "\<dots> \<longleftrightarrow> g \<noteq> [] \<and> distinct (step_ids g) \<and> acyclic (set (edges g))"
  proof
    assume ok: "\<exists>lv. resolve g = Some (Inr lv)"
    then have "g \<noteq> []" by (auto simp: resolve_def)
    moreover have "distinct (step_ids g)" using ok resolve_distinct by blast
    ultimately show "g \<noteq> [] \<and> distinct (step_ids g) \<and> acyclic (set (edges g))"
      using ok resolve_iff_acyclic by blast
  qed (use resolve_iff_acyclic in blast)
  finally show ?thesis using r by blast
qed

end
