(* ===== verification/Py_Strings.thy ===== *)
theory Py_Strings
  imports Json_Value
begin

text \<open>
  The Python string operations the sources use, on lists of characters with codes below 256:
  \<open>strip\<close>, \<open>lower\<close>, \<open>startswith\<close>, \<open>endswith\<close>, \<open>find\<close>, \<open>split\<close> on a character, \<open>split(s, 1)\<close>,
  \<open>rsplit(s, 1)\<close>, \<open>join\<close>, \<open>replace\<close> of a character, and the decimal rendering of an integer.
\<close>

section \<open>White space and case\<close>

definition is_space :: "char \<Rightarrow> bool" where
  "is_space c \<longleftrightarrow> of_char c \<in> {9, 10, 11, 12, 13, 28, 29, 30, 31, 32, 133, 160 :: nat}"

definition lstrip :: "string \<Rightarrow> string" where
  "lstrip s = dropWhile is_space s"

definition rstrip :: "string \<Rightarrow> string" where
  "rstrip s = rev (dropWhile is_space (rev s))"

definition strip :: "string \<Rightarrow> string" where
  "strip s = rstrip (lstrip s)"

text \<open>\<open>lower()\<close> on the letters A-Z and the Latin-1 capitals (codes 192 to 222 but 215).\<close>

definition lower_char :: "char \<Rightarrow> char" where
  "lower_char c = (let n = of_char c :: int in
     if 65 \<le> n \<and> n \<le> 90 \<or> 192 \<le> n \<and> n \<le> 222 \<and> n \<noteq> 215 then char_of (n + 32) else c)"

definition lower :: "string \<Rightarrow> string" where
  "lower s = map lower_char s"

text \<open>\<open>upper()\<close> on the letters a-z (tool names are ASCII).\<close>

definition upper_char :: "char \<Rightarrow> char" where
  "upper_char c = (let n = of_char c :: int in
     if 97 \<le> n \<and> n \<le> 122 then char_of (n - 32) else c)"

definition upper :: "string \<Rightarrow> string" where
  "upper s = map upper_char s"

lemma length_lower [simp]: "length (lower s) = length s"
  by (simp add: lower_def)

section \<open>Prefixes, suffixes and searching\<close>

definition starts_with :: "string \<Rightarrow> string \<Rightarrow> bool" where
  "starts_with p s \<longleftrightarrow> take (length p) s = p"

definition ends_with :: "string \<Rightarrow> string \<Rightarrow> bool" where
  "ends_with p s \<longleftrightarrow> starts_with (rev p) (rev s)"

lemma starts_with_iff: "starts_with p s \<longleftrightarrow> (\<exists>t. s = p @ t)"
  by (auto simp: starts_with_def) (metis append_take_drop_id)

lemma ends_with_iff: "ends_with p s \<longleftrightarrow> (\<exists>t. s = t @ p)"
proof -
  have "(\<exists>t. rev s = rev p @ t) \<longleftrightarrow> (\<exists>t. s = t @ p)"
    by (metis rev_append rev_rev_ident)
  then show ?thesis by (simp add: ends_with_def starts_with_iff)
qed

text \<open>\<open>s.find(p)\<close>, with \<open>None\<close> for -1.\<close>

fun find_sub :: "string \<Rightarrow> string \<Rightarrow> nat option" where
  "find_sub p [] = (if p = [] then Some 0 else None)"
| "find_sub p (c # s) = (if starts_with p (c # s) then Some 0 else map_option Suc (find_sub p s))"

definition contains_sub :: "string \<Rightarrow> string \<Rightarrow> bool" where
  "contains_sub p s \<longleftrightarrow> find_sub p s \<noteq> None"

lemma find_sub_SomeD:
  "find_sub p s = Some i \<Longrightarrow> \<exists>t. drop i s = p @ t \<and> i \<le> length s"
proof (induction p s arbitrary: i rule: find_sub.induct)
  case (2 p c s)
  show ?case
  proof (cases "starts_with p (c # s)")
    case True
    with 2 show ?thesis by (auto simp: starts_with_iff)
  next
    case False
    with 2 show ?thesis by auto
  qed
qed (auto split: if_splits)

lemma contains_sub_iff: "contains_sub p s \<longleftrightarrow> (\<exists>u v. s = u @ p @ v)"
proof
  assume "contains_sub p s"
  then obtain i where "find_sub p s = Some i" by (auto simp: contains_sub_def)
  then obtain t where "drop i s = p @ t" using find_sub_SomeD by blast
  then have "s = take i s @ p @ t" by (metis append_take_drop_id)
  then show "\<exists>u v. s = u @ p @ v" by blast
next
  have "find_sub p (u @ p @ v) \<noteq> None" for u v
  proof (induction u)
    case Nil
    have "starts_with p (p @ v)" by (auto simp: starts_with_iff)
    then show ?case by (cases "p @ v") auto
  qed auto
  then show "\<exists>u v. s = u @ p @ v \<Longrightarrow> contains_sub p s" by (auto simp: contains_sub_def)
qed

section \<open>Splitting and joining\<close>

fun split_on :: "char \<Rightarrow> string \<Rightarrow> string list" where
  "split_on c [] = [[]]"
| "split_on c (x # xs) =
     (if x = c then [] # split_on c xs
      else (case split_on c xs of [] \<Rightarrow> [[x]] | p # ps \<Rightarrow> (x # p) # ps))"

fun join_with :: "string \<Rightarrow> string list \<Rightarrow> string" where
  "join_with sep [] = []"
| "join_with sep [s] = s"
| "join_with sep (s # t # ts) = s @ sep @ join_with sep (t # ts)"

lemma split_on_not_Nil [simp]: "split_on c s \<noteq> []"
  by (induction s) (auto split: list.splits)

lemma join_split_on: "join_with [c] (split_on c s) = s"
proof (induction s)
  case (Cons x s)
  obtain p ps where p: "split_on c s = p # ps" by (cases "split_on c s") auto
  with Cons show ?case by (cases ps) auto
qed simp

lemma split_on_no_sep: "p \<in> set (split_on c s) \<Longrightarrow> c \<notin> set p"
  by (induction s arbitrary: p) (auto split: if_splits list.splits)

lemma split_on_id: "c \<notin> set s \<Longrightarrow> split_on c s = [s]"
  by (induction s) auto

lemma split_on_append: "c \<notin> set s \<Longrightarrow> split_on c (s @ c # t) = s # split_on c t"
  by (induction s) auto

text \<open>\<open>s.split(p, 1)[-1]\<close>: what follows the first \<open>p\<close>, or \<open>s\<close>.\<close>

definition split_once_last :: "string \<Rightarrow> string \<Rightarrow> string" where
  "split_once_last p s = (case find_sub p s of None \<Rightarrow> s | Some i \<Rightarrow> drop (i + length p) s)"

text \<open>\<open>s.rsplit(p, 1)[0]\<close>: what precedes the last \<open>p\<close>, or \<open>s\<close>.\<close>

definition rsplit_once_first :: "string \<Rightarrow> string \<Rightarrow> string" where
  "rsplit_once_first p s =
     (case find_sub (rev p) (rev s) of None \<Rightarrow> s | Some i \<Rightarrow> take (length s - i - length p) s)"

definition replace_char :: "char \<Rightarrow> string \<Rightarrow> string \<Rightarrow> string" where
  "replace_char c r s = concat (map (\<lambda>x. if x = c then r else [x]) s)"

section \<open>Decimal rendering\<close>

definition digit_char :: "nat \<Rightarrow> char" where
  "digit_char d = char_of (48 + d)"

function show_nat :: "nat \<Rightarrow> string" where
  "show_nat n = (if n < 10 then [digit_char n] else show_nat (n div 10) @ [digit_char (n mod 10)])"
  by pat_completeness auto
termination by (relation "measure id") auto

declare show_nat.simps [simp del]

definition show_int :: "int \<Rightarrow> string" where
  "show_int i = (if i < 0 then CHR ''-'' # show_nat (nat (- i)) else show_nat (nat i))"

definition is_digit :: "char \<Rightarrow> bool" where
  "is_digit c \<longleftrightarrow> 48 \<le> (of_char c :: nat) \<and> (of_char c :: nat) \<le> 57"

definition digit_val :: "char \<Rightarrow> nat" where
  "digit_val c = of_char c - 48"

definition read_nat :: "string \<Rightarrow> nat" where
  "read_nat s = fold (\<lambda>c n. 10 * n + digit_val c) s 0"

text \<open>\<open>int(s)\<close> for a string of ASCII digits, \<open>None\<close> for the \<open>ValueError\<close>.\<close>

definition parse_nat :: "string \<Rightarrow> nat option" where
  "parse_nat s = (if s \<noteq> [] \<and> list_all is_digit s then Some (read_nat s) else None)"

lemma digit_char [simp]: "d < 10 \<Longrightarrow> is_digit (digit_char d)" "d < 10 \<Longrightarrow> digit_val (digit_char d) = d"
  by (simp_all add: digit_char_def is_digit_def digit_val_def)

lemma show_nat_digits: "list_all is_digit (show_nat n)" "show_nat n \<noteq> []"
  by (induction n rule: show_nat.induct) (subst show_nat.simps, simp)+

lemma read_show_nat: "read_nat (show_nat n) = n"
proof (induction n rule: show_nat.induct)
  case (1 n)
  then show ?case by (subst show_nat.simps) (auto simp: read_nat_def)
qed

lemma parse_show_nat [simp]: "parse_nat (show_nat n) = Some n"
  by (simp add: parse_nat_def show_nat_digits read_show_nat)

lemma show_nat_inject [simp]: "show_nat m = show_nat n \<longleftrightarrow> m = n"
  by (metis read_show_nat)

lemma minus_not_digit: "\<not> is_digit (CHR ''-'')"
  by (simp add: is_digit_def)

lemma show_int_inject [simp]: "show_int i = show_int j \<longleftrightarrow> i = j"
proof -
  have "show_nat m \<noteq> CHR ''-'' # s" for m s
    using show_nat_digits(1) [of m] minus_not_digit by auto
  then show ?thesis by (auto simp: show_int_def eq_nat_nat_iff split: if_splits) metis+
qed

lemma show_int_chars: "c \<in> set (show_int i) \<Longrightarrow> is_digit c \<or> c = CHR ''-''"
  using show_nat_digits(1) by (auto simp: show_int_def list_all_iff split: if_splits)

end
