(* ===== verification/Redis_Api.thy ===== *)
theory Redis_Api
  imports Aexor_Prelude
begin

text \<open>
  The Redis client as the components see it. Redis is not part of the repository, so it is a
  parameter: a record of the commands the code issues, over an unknown server state \<open>'s\<close>. Every
  command takes the instant at which it runs (microseconds, as in a Python \<open>datetime\<close>) and
  answers \<open>None\<close> when the client raises (connection lost, wrong type).

  The locale \<open>redis_store\<close> states the documented behaviour the code relies on, through a lookup
  \<open>lk s t k\<close> of the value live at instant \<open>t\<close>. Nothing is assumed about when a command fails.
  \<open>mem_redis\<close> is an in-memory server that meets the laws and never fails; the witnesses run on it.
\<close>

datatype rval = RStr string | RHash "(string, string) dict"

record 's redis =
  rd_get :: "int \<Rightarrow> string \<Rightarrow> 's \<Rightarrow> string option option"
  rd_set :: "int \<Rightarrow> string \<Rightarrow> string \<Rightarrow> int option \<Rightarrow> bool \<Rightarrow> 's \<Rightarrow> (bool \<times> 's) option"
  rd_del :: "int \<Rightarrow> string \<Rightarrow> 's \<Rightarrow> (bool \<times> 's) option"
  rd_keys :: "int \<Rightarrow> string \<Rightarrow> 's \<Rightarrow> string list option"
  rd_hgetall :: "int \<Rightarrow> string \<Rightarrow> 's \<Rightarrow> (string, string) dict option"
  rd_hset :: "int \<Rightarrow> string \<Rightarrow> (string, string) dict \<Rightarrow> 's \<Rightarrow> 's option"
  rd_expire :: "int \<Rightarrow> string \<Rightarrow> int \<Rightarrow> 's \<Rightarrow> 's option"

text \<open>Seconds of a Redis expiry in microseconds, and whether an expiry set at \<open>t\<close> is still
  ahead at \<open>t'\<close>.\<close>

definition sec :: int where "sec = 1000000"

definition alive :: "int \<Rightarrow> int option \<Rightarrow> int \<Rightarrow> bool" where
  "alive t ex t' \<longleftrightarrow> (case ex of None \<Rightarrow> True | Some n \<Rightarrow> t' < t + n * sec)"

lemma alive_None [simp]: "alive t None t'"
  by (simp add: alive_def)

definition as_hash :: "rval option \<Rightarrow> (string, string) dict" where
  "as_hash v = (case v of Some (RHash h) \<Rightarrow> h | _ \<Rightarrow> [])"

definition hash_put :: "(string, string) dict \<Rightarrow> (string, string) dict \<Rightarrow> (string, string) dict" where
  "hash_put m h = fold (\<lambda>(k, v). dict_set k v) m h"

locale redis_store =
  fixes rd :: "'s redis"
    and lk :: "'s \<Rightarrow> int \<Rightarrow> string \<Rightarrow> rval option"
  assumes get_law: "rd_get rd t k s = Some r \<Longrightarrow> lk s t k = map_option RStr r"
    and set_law: "rd_set rd t k v ex nx s = Some (b, s') \<Longrightarrow>
        (b \<longleftrightarrow> \<not> nx \<or> lk s t k = None) \<and>
        (\<forall>t' k'. t \<le> t' \<longrightarrow> lk s' t' k' =
           (if b \<and> k' = k then (if alive t ex t' then Some (RStr v) else None) else lk s t' k'))"
    and del_law: "rd_del rd t k s = Some (b, s') \<Longrightarrow>
        (b \<longleftrightarrow> lk s t k \<noteq> None) \<and>
        (\<forall>t' k'. t \<le> t' \<longrightarrow> lk s' t' k' = (if k' = k then None else lk s t' k'))"
    and keys_law: "rd_keys rd t p s = Some ks \<Longrightarrow>
        set ks = {k. lk s t k \<noteq> None \<and> take (length p) k = p}"
    and hgetall_law: "rd_hgetall rd t k s = Some h \<Longrightarrow>
        h = as_hash (lk s t k) \<and> (\<forall>v. lk s t k \<noteq> Some (RStr v))"
    and hset_law: "rd_hset rd t k m s = Some s' \<Longrightarrow> t \<le> t' \<Longrightarrow>
        lk s' t' k' = (if k' = k
           then (if lk s t k = None \<or> lk s t' k \<noteq> None
                 then Some (RHash (hash_put m (as_hash (lk s t k)))) else None)
           else lk s t' k')"
    and expire_law: "rd_expire rd t k n s = Some s' \<Longrightarrow> t \<le> t' \<Longrightarrow>
        lk s' t' k' = (if k' = k then (if alive t (Some n) t' then lk s t k else None) else lk s t' k')"
    and ageing_law: "t \<le> t' \<Longrightarrow> lk s t' k \<noteq> None \<Longrightarrow> lk s t k = lk s t' k"
begin

lemma get_SomeD: "rd_get rd t k s = Some (Some v) \<Longrightarrow> lk s t k = Some (RStr v)"
  using get_law by fastforce

lemma get_missing: "lk s t k = None \<Longrightarrow> rd_get rd t k s = None \<or> rd_get rd t k s = Some None"
  using get_law by (cases "rd_get rd t k s") fastforce+

lemma get_present:
  "lk s t k = Some (RStr v) \<Longrightarrow> rd_get rd t k s = None \<or> rd_get rd t k s = Some (Some v)"
  using get_law by (cases "rd_get rd t k s") (fastforce split: option.splits)+

lemma set_own:
  "rd_set rd t k v ex nx s = Some (True, s') \<Longrightarrow> t \<le> t' \<Longrightarrow> alive t ex t' \<Longrightarrow> lk s' t' k = Some (RStr v)"
  using set_law by fastforce

lemma set_other:
  "rd_set rd t k v ex nx s = Some (b, s') \<Longrightarrow> t \<le> t' \<Longrightarrow> k' \<noteq> k \<Longrightarrow> lk s' t' k' = lk s t' k'"
  using set_law by fastforce

lemma set_nx_False:
  "rd_set rd t k v ex True s = Some (False, s') \<Longrightarrow> t \<le> t' \<Longrightarrow> lk s' t' k' = lk s t' k'"
  using set_law by fastforce

lemma set_nx_fresh: "rd_set rd t k v ex True s = Some (True, s') \<Longrightarrow> lk s t k = None"
  using set_law by fastforce

lemma gone_stays: "t \<le> t' \<Longrightarrow> lk s t k = None \<Longrightarrow> lk s t' k = None"
  using ageing_law by metis

end

section \<open>An in-memory server\<close>

type_synonym mem = "(string, rval \<times> int option) dict"

text \<open>An entry carries the instant at which it expires.\<close>

definition mem_lookup :: "mem \<Rightarrow> int \<Rightarrow> string \<Rightarrow> rval option" where
  "mem_lookup m t k =
     (case dict_get m k of None \<Rightarrow> None
      | Some (v, None) \<Rightarrow> Some v
      | Some (v, Some e) \<Rightarrow> if t < e then Some v else None)"

definition mem_expiry :: "mem \<Rightarrow> string \<Rightarrow> int option" where
  "mem_expiry m k = (case dict_get m k of None \<Rightarrow> None | Some (_, e) \<Rightarrow> e)"

definition mem_redis :: "mem redis" where
  "mem_redis =
     \<lparr>rd_get = \<lambda>t k m. (case mem_lookup m t k of
         None \<Rightarrow> Some None | Some (RStr v) \<Rightarrow> Some (Some v) | Some (RHash _) \<Rightarrow> None),
      rd_set = \<lambda>t k v ex nx m. if nx \<and> mem_lookup m t k \<noteq> None then Some (False, m)
         else Some (True, dict_set k (RStr v, map_option (\<lambda>n. t + n * sec) ex) m),
      rd_del = \<lambda>t k m. Some (mem_lookup m t k \<noteq> None, AList.delete k m),
      rd_keys = \<lambda>t p m. Some (filter (\<lambda>k. mem_lookup m t k \<noteq> None \<and> take (length p) k = p) (map fst m)),
      rd_hgetall = \<lambda>t k m. (case mem_lookup m t k of
         None \<Rightarrow> Some [] | Some (RHash h) \<Rightarrow> Some h | Some (RStr _) \<Rightarrow> None),
      rd_hset = \<lambda>t k h m. Some (dict_set k (RHash (hash_put h (as_hash (mem_lookup m t k))),
         if mem_lookup m t k = None then None else mem_expiry m k) m),
      rd_expire = \<lambda>t k n m. (case mem_lookup m t k of
         None \<Rightarrow> Some (AList.delete k m) | Some v \<Rightarrow> Some (dict_set k (v, Some (t + n * sec)) m))\<rparr>"

lemma mem_lookup_set [simp]:
  "mem_lookup (dict_set k (v, e) m) t k' =
     (if k' = k then (if \<forall>x. e = Some x \<longrightarrow> t < x then Some v else None) else mem_lookup m t k')"
  by (auto simp: mem_lookup_def split: option.splits)

lemma mem_lookup_delete [simp]:
  "mem_lookup (AList.delete k m) t k' = (if k' = k then None else mem_lookup m t k')"
  by (simp add: mem_lookup_def delete_conv')

lemma mem_lookup_key: "mem_lookup m t k \<noteq> None \<Longrightarrow> k \<in> fst ` set m"
  by (cases "dict_get m k") (simp add: mem_lookup_def, metis map_of_SomeD fst_conv image_eqI)

lemma mem_lookup_ageing:
  "t \<le> t' \<Longrightarrow> mem_lookup m t' k \<noteq> None \<Longrightarrow> mem_lookup m t k = mem_lookup m t' k"
proof (cases "dict_get m k")
  case (Some p)
  moreover assume "t \<le> t'" "mem_lookup m t' k \<noteq> None"
  ultimately show ?thesis by (cases p; cases "snd p") (simp_all add: mem_lookup_def split: if_splits)
qed (simp add: mem_lookup_def)

lemma mem_lookup_expiry:
  "mem_lookup m t k \<noteq> None \<Longrightarrow>
   mem_lookup m t' k \<noteq> None \<longleftrightarrow> (\<forall>x. mem_expiry m k = Some x \<longrightarrow> t' < x)"
  by (cases "dict_get m k") (simp_all add: mem_lookup_def mem_expiry_def split: option.splits prod.splits)

interpretation mem_store: redis_store mem_redis mem_lookup
proof (unfold_locales, goal_cases)
  case (1 t k s r)
  then show ?case by (auto simp: mem_redis_def split: option.splits rval.splits)
next
  case (2 t k v ex nx s b s')
  then show ?case by (cases ex) (auto simp: mem_redis_def alive_def split: if_splits)
next
  case (3 t k s b s')
  then show ?case by (auto simp: mem_redis_def)
next
  case (4 t p s ks)
  then show ?case using mem_lookup_key by (fastforce simp: mem_redis_def)
next
  case (5 t k s h)
  then show ?case by (auto simp: mem_redis_def as_hash_def split: option.splits rval.splits)
next
  case (6 t k m s s' t' k')
  then show ?case using mem_lookup_expiry [of s t k t'] by (auto simp: mem_redis_def)
next
  case (7 t k n s s' t' k')
  then show ?case by (auto simp: mem_redis_def alive_def split: option.splits)
next
  case (8 t t' s k)
  then show ?case by (rule mem_lookup_ageing)
qed

end
