(* ===== verification/Record_Store.thy ===== *)
theory Record_Store
  imports Redis_Api
begin

text \<open>
  The contract of a keyed store, as the services use one another's stores: \<open>get\<close> answers an
  optional record or an error and may change the state (it fills caches), \<open>put\<close> writes one. After
  a successful \<open>put\<close> the record is read back, in the form \<open>norm\<close> the store gives it, until the
  next write under that key; reads and writes elsewhere do not disturb it.
\<close>

locale record_store =
  fixes get :: "'k \<Rightarrow> 'st \<Rightarrow> ('e + 'v option) \<times> 'st"
    and put :: "'k \<Rightarrow> 'v \<Rightarrow> 'st \<Rightarrow> ('e + 'v) \<times> 'st"
    and norm :: "'k \<Rightarrow> 'v \<Rightarrow> 'v"
    and good :: "'v \<Rightarrow> bool"
  assumes get_put: "put k v s = (Inr r, s') \<Longrightarrow> good v \<Longrightarrow> fst (get k s') = Inr (Some (norm k v))"
    and put_other: "put k v s = (Inr r, s') \<Longrightarrow> k' \<noteq> k \<Longrightarrow> fst (get k' s') = fst (get k' s)"
    and put_error: "put k v s = (Inl e, s') \<Longrightarrow> s' = s"
    and get_stable: "fst (get k' (snd (get k s))) = fst (get k' s)"
begin

primrec reads :: "'k list \<Rightarrow> 'st \<Rightarrow> 'st" where
  "reads [] s = s"
| "reads (k # ks) s = reads ks (snd (get k s))"

lemma reads_stable: "fst (get k (reads ks s)) = fst (get k s)"
  by (induction ks arbitrary: s) (simp_all add: get_stable)

primrec puts :: "('k \<times> 'v) list \<Rightarrow> 'st \<Rightarrow> 'st" where
  "puts [] s = s"
| "puts (p # ps) s = puts ps (snd (put (fst p) (snd p) s))"

lemma put_elsewhere: "k' \<noteq> k \<Longrightarrow> fst (get k' (snd (put k v s))) = fst (get k' s)"
  by (cases "put k v s"; cases "fst (put k v s)") (auto dest: put_other put_error)

lemma puts_elsewhere: "k \<notin> fst ` set ps \<Longrightarrow> fst (get k (puts ps s)) = fst (get k s)"
  by (induction ps arbitrary: s) (auto simp: put_elsewhere)

text \<open>A written record survives any reads and any writes under other keys.\<close>

lemma put_then_used:
  assumes "put k v s = (Inr r, s')" and "good v" and "k \<notin> fst ` set ps"
  shows "fst (get k (puts ps (reads ks s'))) = Inr (Some (norm k v))"
  using assms by (simp add: puts_elsewhere reads_stable get_put)

end

end
