(* ===== verification/Policy_Engine.thy ===== *)
theory Policy_Engine
  imports Plan_Schema Py_Strings Record_Store
begin

text \<open>
  The PolicyEngine: policy rules and decisions (\<open>shared/schemas/policy.py\<close>), the policies and
  attestations tables with the adapter's statements (\<open>adapters/db.py\<close>), the rule cache
  (\<open>adapters/cache.py\<close>) and the service (\<open>service/policy_service.py\<close>).

  The tables are part of the state; \<open>pe_db_up\<close> says whether the database answers. Redis, the JSON
  form Pydantic gives a rule, and the text Python prints for a value that is not a string are
  parameters, bundled in \<open>policy_env\<close>. The strings of \<open>violations\<close> and \<open>reason\<close> are values of
  \<open>violation\<close> and \<open>reason\<close>: one constructor per message, carrying what the message interpolates.
\<close>

section \<open>Rules, requests and decisions\<close>

datatype policy_scope = Scope_step | Scope_role | Scope_system

fun scope_name :: "policy_scope \<Rightarrow> string" where
  "scope_name Scope_step = ''step''"
| "scope_name Scope_role = ''role''"
| "scope_name Scope_system = ''system''"

definition parse_scope :: "string \<Rightarrow> policy_scope option" where
  "parse_scope x = (if x = ''step'' then Some Scope_step else if x = ''role'' then Some Scope_role
     else if x = ''system'' then Some Scope_system else None)"

lemma parse_scope_name [simp]: "parse_scope (scope_name c) = Some c"
  by (cases c) (simp_all add: parse_scope_def)

datatype rule_action = Require_approval | Block_step

record trust_verdict_rule =
  tv_verdict :: verdict
  tv_action :: rule_action
  tv_roles :: "string list"
  tv_enabled :: bool

record policy_rule =
  po_policy_id :: string
  po_name :: string
  po_version :: int
  po_scope :: policy_scope
  po_allowed_tools :: "string list"
  po_allowed_roles :: "string list"
  po_max_spawned_steps :: int
  po_require_approval :: bool
  po_data_access :: "string list"
  po_forbidden_actions :: "string list"
  po_token_budget :: int
  po_trust_verdict_rules :: "trust_verdict_rule list"

definition policy_rule_ok :: "policy_rule \<Rightarrow> bool" where
  "policy_rule_ok r \<longleftrightarrow> 1 \<le> po_version r \<and> 0 \<le> po_max_spawned_steps r \<and>
     po_max_spawned_steps r \<le> 10 \<and> 256 \<le> po_token_budget r"

datatype violation =
    Over_policy_max int int
  | Over_spawn_max int
  | Over_plan_total int
  | Recursive_spawn json
  | Role_not_allowed json json
  | Tool_not_allowed json json
  | Tool_not_in_plugins json json
  | Forbidden_call json json
  | Ancestor_injection int
  | Scanner_degraded
  | Verdict_rule string int

datatype reason =
    No_policy_found
  | Violated "violation list"
  | Approved_by string int
  | Escalated "violation list"
  | No_escalation
  | Blocked_by string int
  | Approval_but_no_gate
  | Spawn_limit_exceeded
  | Plan_limit_exceeded

record policy_decision =
  pd_allowed :: bool
  pd_requires_approval :: bool
  pd_reason :: reason
  pd_violations :: "violation list"
  pd_policy_matched :: bool

text \<open>\<open>PolicyDecision(allowed=a, requires_approval=q, reason=r, violations=vs)\<close>.\<close>

definition decision :: "bool \<Rightarrow> bool \<Rightarrow> reason \<Rightarrow> violation list \<Rightarrow> policy_decision" where
  "decision a q r vs = \<lparr>pd_allowed = a, pd_requires_approval = q, pd_reason = r,
     pd_violations = vs, pd_policy_matched = True\<rparr>"

record spawn_request =
  sr_plan_id :: string
  sr_plan_revision :: int
  sr_spawning_step :: int
  sr_proposed_steps :: "jobj list"
  sr_current_step_count :: int
  sr_plan_plugins :: "string list"
  sr_policy_ref :: "string option"
  sr_ancestor_verdicts :: "(int, string) dict"
  sr_scanner_degraded :: bool

definition spawn_request_ok :: "spawn_request \<Rightarrow> bool" where
  "spawn_request_ok q \<longleftrightarrow> length (sr_plan_id q) = 26 \<and> 1 \<le> sr_plan_revision q \<and>
     1 \<le> sr_spawning_step q \<and> sr_proposed_steps q \<noteq> [] \<and> 0 \<le> sr_current_step_count q"

record policy_attestation =
  pa_attestation_id :: string
  pa_plan_id :: string
  pa_plan_revision :: int
  pa_spawned_by_step :: int
  pa_new_steps :: "jobj list"
  pa_policy_id :: string
  pa_policy_version :: int
  pa_decision :: policy_decision
  pa_attested_at :: int

definition attestation_ok :: "policy_attestation \<Rightarrow> bool" where
  "attestation_ok a \<longleftrightarrow> length (pa_attestation_id a) = 26 \<and> length (pa_plan_id a) = 26 \<and>
     1 \<le> pa_plan_revision a \<and> 1 \<le> pa_spawned_by_step a \<and> 1 \<le> pa_policy_version a"

section \<open>The tables\<close>

record policy_db =
  pb_policy_id :: string
  pb_name :: string
  pb_version :: int
  pb_scope :: string
  pb_allowed_tools :: "string list"
  pb_allowed_roles :: "string list"
  pb_max_spawned_steps :: int
  pb_require_approval :: bool
  pb_data_access :: "string list"
  pb_forbidden_actions :: "string list"
  pb_token_budget :: int
  pb_created_at :: "int option"
  pb_updated_at :: "int option"

definition policy_db_ok :: "policy_db \<Rightarrow> bool" where
  "policy_db_ok p \<longleftrightarrow> length (pb_policy_id p) \<le> 128 \<and> length (pb_name p) \<le> 256 \<and>
     1 \<le> pb_version p \<and> 0 \<le> pb_max_spawned_steps p \<and> pb_max_spawned_steps p \<le> 10 \<and>
     256 \<le> pb_token_budget p"

text \<open>The tables' rows (a row has the fields of \<open>PolicyDB\<close>), the plans the foreign key of an
  attestation refers to, whether the database answers, and the state of Redis.\<close>

record 's policy_state =
  pe_policies :: "(string, policy_db) dict"
  pe_attestations :: "policy_attestation list"
  pe_plan_ids :: "string list"
  pe_db_up :: bool
  pe_redis :: 's

record 's policy_env =
  pv_redis :: "'s redis option"
  pv_enc :: "policy_rule \<Rightarrow> string"
  pv_dec :: "string \<Rightarrow> policy_rule option"
  pv_repr :: "json \<Rightarrow> string"

datatype policy_error = Database_down | Validation_failed | Attestation_error

definition or_default :: "string list \<Rightarrow> string list \<Rightarrow> string list" where
  "or_default xs d = (if xs = [] then d else xs)"

definition row_to_policy :: "policy_db \<Rightarrow> policy_db" where
  "row_to_policy row = row
     \<lparr>pb_allowed_tools := or_default (pb_allowed_tools row) [''*''],
      pb_data_access := or_default (pb_data_access row) [''tier1'']\<rparr>"

definition store_policy :: "int \<Rightarrow> policy_db \<Rightarrow> 's policy_state \<Rightarrow> (policy_error + bool) \<times> 's policy_state" where
  "store_policy now p s =
     (if \<not> pe_db_up s then (Inl Database_down, s)
      else let row = (case dict_get (pe_policies s) (pb_policy_id p) of
               Some old \<Rightarrow> p \<lparr>pb_created_at := pb_created_at old, pb_updated_at := Some now\<rparr>
             | None \<Rightarrow> p \<lparr>pb_created_at := Some now, pb_updated_at := Some now\<rparr>)
           in (Inr True, s \<lparr>pe_policies := dict_set (pb_policy_id p) row (pe_policies s)\<rparr>))"

definition checked_row :: "policy_db \<Rightarrow> policy_error + policy_db" where
  "checked_row row = (if policy_db_ok (row_to_policy row) then Inr (row_to_policy row) else Inl Validation_failed)"

definition db_get_policy :: "string \<Rightarrow> int option \<Rightarrow> 's policy_state \<Rightarrow> policy_error + policy_db option" where
  "db_get_policy pid ver s =
     (if \<not> pe_db_up s then Inl Database_down
      else case dict_get (pe_policies s) pid of
        None \<Rightarrow> Inr None
      | Some row \<Rightarrow> if ver \<noteq> None \<and> ver \<noteq> Some (pb_version row) then Inr None
                    else bind_res (checked_row row) (\<lambda>p. Inr (Some p)))"

text \<open>\<open>ORDER BY policy_id\<close> uses the collation of the database: \<open>coll\<close> is its sort key.\<close>

definition db_list_policies :: "(string \<Rightarrow> nat) \<Rightarrow> string option \<Rightarrow> 's policy_state \<Rightarrow> policy_error + policy_db list" where
  "db_list_policies coll scope s =
     (if \<not> pe_db_up s then Inl Database_down
      else let rows = filter (\<lambda>r. scope = None \<or> scope = Some (pb_scope r))
             (sort_key (\<lambda>r. coll (pb_policy_id r)) (map snd (pe_policies s)))
           in if list_all (\<lambda>r. policy_db_ok (row_to_policy r)) rows
              then Inr (map row_to_policy rows) else Inl Validation_failed)"

text \<open>The insert fails on a repeated primary key and on a policy or a plan that is not stored.\<close>

definition store_attestation ::
  "policy_attestation \<Rightarrow> 's policy_state \<Rightarrow> (policy_error + bool) \<times> 's policy_state" where
  "store_attestation a s =
     (if \<not> pe_db_up s \<or> pa_attestation_id a \<in> pa_attestation_id ` set (pe_attestations s) \<or>
         pa_policy_id a \<notin> set (dict_keys (pe_policies s)) \<or> pa_plan_id a \<notin> set (pe_plan_ids s)
      then (Inl Database_down, s)
      else (Inr True, s \<lparr>pe_attestations := pe_attestations s @ [a]\<rparr>))"

definition get_attestations_for_plan :: "string \<Rightarrow> 's policy_state \<Rightarrow> policy_error + policy_attestation list" where
  "get_attestations_for_plan pid s =
     (if \<not> pe_db_up s then Inl Database_down
      else Inr (sort_key pa_attested_at (filter (\<lambda>a. pa_plan_id a = pid) (pe_attestations s))))"

section \<open>The rule cache\<close>

definition cache_ttl_seconds :: int where "cache_ttl_seconds = 300"

definition policy_cache_key :: "string \<Rightarrow> int \<Rightarrow> string" where
  "policy_cache_key pid v = ''policy_cache:'' @ pid @ '':'' @ show_int v"

definition cache_get_policy :: "'s policy_env \<Rightarrow> int \<Rightarrow> string \<Rightarrow> int \<Rightarrow> 's policy_state \<Rightarrow> policy_rule option" where
  "cache_get_policy env now pid v s =
     (case pv_redis env of None \<Rightarrow> None
      | Some rd \<Rightarrow> (case rd_get rd now (policy_cache_key pid v) (pe_redis s) of
            Some (Some data) \<Rightarrow> pv_dec env data
          | _ \<Rightarrow> None))"

definition cache_set_policy :: "'s policy_env \<Rightarrow> int \<Rightarrow> string \<Rightarrow> int \<Rightarrow> policy_rule \<Rightarrow> 's policy_state \<Rightarrow> 's policy_state" where
  "cache_set_policy env now pid v r s =
     (case pv_redis env of None \<Rightarrow> s
      | Some rd \<Rightarrow> (case rd_set rd now (policy_cache_key pid v) (pv_enc env r) (Some cache_ttl_seconds) False (pe_redis s) of
            Some (b, rs) \<Rightarrow> s \<lparr>pe_redis := rs\<rparr>
          | None \<Rightarrow> s))"

definition cache_invalidate :: "'s policy_env \<Rightarrow> int \<Rightarrow> string \<Rightarrow> int \<Rightarrow> 's policy_state \<Rightarrow> 's policy_state" where
  "cache_invalidate env now pid v s =
     (case pv_redis env of None \<Rightarrow> s
      | Some rd \<Rightarrow> (case rd_del rd now (policy_cache_key pid v) (pe_redis s) of
            Some (b, rs) \<Rightarrow> s \<lparr>pe_redis := rs\<rparr>
          | None \<Rightarrow> s))"

section \<open>Policy CRUD of the service\<close>

definition rule_of_db :: "policy_db \<Rightarrow> policy_error + policy_rule" where
  "rule_of_db p = (case parse_scope (pb_scope p) of
       None \<Rightarrow> Inl Validation_failed
     | Some c \<Rightarrow> let r = \<lparr>po_policy_id = pb_policy_id p, po_name = pb_name p, po_version = pb_version p,
           po_scope = c, po_allowed_tools = pb_allowed_tools p, po_allowed_roles = pb_allowed_roles p,
           po_max_spawned_steps = pb_max_spawned_steps p, po_require_approval = pb_require_approval p,
           po_data_access = pb_data_access p, po_forbidden_actions = pb_forbidden_actions p,
           po_token_budget = pb_token_budget p, po_trust_verdict_rules = []\<rparr>
         in if policy_rule_ok r then Inr r else Inl Validation_failed)"

text \<open>A read and a write that nothing interrupts: the code awaits the database and the cache one after the other, and
  \<open>Policy_Race\<close> takes the two apart.\<close>

definition get_policy :: "'s policy_env \<Rightarrow> int \<Rightarrow> string \<Rightarrow> int option \<Rightarrow> 's policy_state \<Rightarrow> (policy_error + policy_rule option) \<times> 's policy_state" where
  "get_policy env now pid ver s =
     (case (case ver of None \<Rightarrow> None | Some v \<Rightarrow> cache_get_policy env now pid v s) of
        Some r \<Rightarrow> (Inr (Some r), s)
      | None \<Rightarrow> (case db_get_policy pid ver s of
            Inl e \<Rightarrow> (Inl e, s)
          | Inr None \<Rightarrow> (Inr None, s)
          | Inr (Some p) \<Rightarrow> (case rule_of_db p of
                Inl e \<Rightarrow> (Inl e, s)
              | Inr r \<Rightarrow> (Inr (Some r), cache_set_policy env now pid (po_version r) r s))))"

definition db_of_rule :: "policy_rule \<Rightarrow> policy_db" where
  "db_of_rule r = \<lparr>pb_policy_id = po_policy_id r, pb_name = po_name r, pb_version = po_version r,
     pb_scope = scope_name (po_scope r), pb_allowed_tools = po_allowed_tools r,
     pb_allowed_roles = po_allowed_roles r, pb_max_spawned_steps = po_max_spawned_steps r,
     pb_require_approval = po_require_approval r, pb_data_access = po_data_access r,
     pb_forbidden_actions = po_forbidden_actions r, pb_token_budget = po_token_budget r,
     pb_created_at = None, pb_updated_at = None\<rparr>"

text \<open>The commit and the invalidation are two awaits as well (\<open>Policy_Race\<close>).\<close>

definition create_policy :: "'s policy_env \<Rightarrow> int \<Rightarrow> policy_rule \<Rightarrow> 's policy_state \<Rightarrow> (policy_error + policy_rule) \<times> 's policy_state" where
  "create_policy env now r s =
     (if \<not> policy_db_ok (db_of_rule r) then (Inl Validation_failed, s)
      else case store_policy now (db_of_rule r) s of
        (Inl e, s1) \<Rightarrow> (Inl e, s1)
      | (Inr _, s1) \<Rightarrow> (Inr r, cache_invalidate env now (po_policy_id r) (po_version r) s1))"

definition list_policies :: "(string \<Rightarrow> nat) \<Rightarrow> string option \<Rightarrow> 's policy_state \<Rightarrow> policy_error + policy_rule list" where
  "list_policies coll scope s =
     bind_res (db_list_policies coll scope s)
       (\<lambda>ps. let rs = map rule_of_db ps in
          if list_all is_ok rs then Inr (map projr rs) else Inl Validation_failed)"

section \<open>Spawn evaluation\<close>

definition max_steps_per_spawn :: int where "max_steps_per_spawn = 10"

definition max_total_plan_steps :: int where "max_total_plan_steps = 100"

text \<open>An f-string prints a string as it is and any other value with \<open>repr\<close>.\<close>

fun fstring :: "(json \<Rightarrow> string) \<Rightarrow> json \<Rightarrow> string" where
  "fstring rep (JStr x) = x"
| "fstring rep j = rep j"

definition learned_id :: "string \<Rightarrow> string \<Rightarrow> string" where
  "learned_id role_str tool = ''learned:'' @ role_str @ '':'' @ tool"

primrec resolve_learned_policy :: "'s policy_env \<Rightarrow> int \<Rightarrow> jobj list \<Rightarrow> 's policy_state \<Rightarrow> (policy_error + policy_rule option) \<times> 's policy_state" where
  "resolve_learned_policy env now [] s = (Inr None, s)"
| "resolve_learned_policy env now (d # ds) s =
     (let rl = jget d ''role'' (JStr ''''); tool = jget d ''uses'' (JStr '''') in
      if truthy rl \<and> truthy tool
      then case get_policy env now (learned_id (fstring (pv_repr env) rl) (fstring (pv_repr env) tool)) None s of
             (Inl e, s1) \<Rightarrow> (Inl e, s1)
           | (Inr (Some r), s1) \<Rightarrow> (Inr (Some r), s1)
           | (Inr None, s1) \<Rightarrow> resolve_learned_policy env now ds s1
      else resolve_learned_policy env now ds s)"

definition count_violations :: "policy_rule \<Rightarrow> spawn_request \<Rightarrow> violation list" where
  "count_violations rule q =
     (let n = int (length (sr_proposed_steps q)); total = sr_current_step_count q + n in
      (if n > po_max_spawned_steps rule then [Over_policy_max n (po_max_spawned_steps rule)] else []) @
      (if n > max_steps_per_spawn then [Over_spawn_max n] else []) @
      (if total > max_total_plan_steps then [Over_plan_total total] else []))"

definition step_violations :: "policy_rule \<Rightarrow> string list \<Rightarrow> jobj \<Rightarrow> violation list" where
  "step_violations rule plugins d =
     (let num = jget d ''step'' (JStr ''?''); rl = jget d ''role'' (JStr '''');
          tool = jget d ''uses'' (JStr ''''); call = jget d ''call'' (JStr '''') in
      (if truthy (jget d ''can_spawn'' (JBool False)) then [Recursive_spawn num] else []) @
      (if po_allowed_roles rule \<noteq> [] \<and> \<not> in_strs rl (po_allowed_roles rule)
       then [Role_not_allowed num rl] else []) @
      (if ''*'' \<notin> set (po_allowed_tools rule) \<and> \<not> in_strs tool (po_allowed_tools rule)
       then [Tool_not_allowed num tool] else []) @
      (if plugins \<noteq> [] \<and> \<not> in_strs tool plugins then [Tool_not_in_plugins num tool] else []) @
      (if in_strs call (po_forbidden_actions rule) then [Forbidden_call num call] else []))"

definition spawn_violations :: "policy_rule \<Rightarrow> spawn_request \<Rightarrow> violation list" where
  "spawn_violations rule q = count_violations rule q @
     concat (map (step_violations rule (sr_plan_plugins q)) (sr_proposed_steps q))"

definition is_booker :: "jobj \<Rightarrow> bool" where
  "is_booker d \<longleftrightarrow> jget d ''role'' (JStr '''') = JStr ''Booker''"

definition injection_violations :: "(int, string) dict \<Rightarrow> violation list" where
  "injection_violations av = [Ancestor_injection n. (n, v) \<leftarrow> av, v = verdict_name Injection]"

text \<open>The inner loop over the ancestors' verdicts of one rule, then the loop over the rules:
  \<open>Inl\<close> is the early return of a blocking rule, with the violations gathered so far.\<close>

primrec match_verdicts :: "trust_verdict_rule \<Rightarrow> (int, string) dict \<Rightarrow> bool \<times> violation list \<Rightarrow>
    (string \<times> int \<times> violation list) + (bool \<times> violation list)" where
  "match_verdicts r [] acc = Inr acc"
| "match_verdicts r (p # av) acc =
     (if snd p \<noteq> verdict_name (tv_verdict r) then match_verdicts r av acc
      else case tv_action r of
        Require_approval \<Rightarrow> match_verdicts r av (True, snd acc @ [Verdict_rule (snd p) (fst p)])
      | Block_step \<Rightarrow> Inl (snd p, fst p, snd acc))"

primrec apply_verdict_rules :: "json \<Rightarrow> (int, string) dict \<Rightarrow> trust_verdict_rule list \<Rightarrow> bool \<times> violation list \<Rightarrow>
    (string \<times> int \<times> violation list) + (bool \<times> violation list)" where
  "apply_verdict_rules rl av [] acc = Inr acc"
| "apply_verdict_rules rl av (r # rs) acc =
     (if \<not> tv_enabled r \<or> (tv_roles r \<noteq> [] \<and> \<not> in_strs rl (tv_roles r))
      then apply_verdict_rules rl av rs acc
      else bind_res (match_verdicts r av acc) (apply_verdict_rules rl av rs))"

definition evaluate_trust_verdicts :: "jobj \<Rightarrow> (int, string) dict \<Rightarrow> bool \<Rightarrow> policy_rule option \<Rightarrow> policy_decision" where
  "evaluate_trust_verdicts d av degraded pol =
     (let inj = injection_violations av;
          vs0 = inj @ (if degraded then [Scanner_degraded] else []);
          rules = (case pol of None \<Rightarrow> [] | Some r \<Rightarrow> po_trust_verdict_rules r) in
      case apply_verdict_rules (jget d ''role'' (JStr '''')) av rules (vs0 \<noteq> [], vs0) of
        Inl (v, n, vs) \<Rightarrow> decision False False (Blocked_by v n) vs
      | Inr (appr, vs) \<Rightarrow>
          if appr \<and> \<not> truthy (jget d ''gate_id'' JNull)
          then decision False True Approval_but_no_gate vs
          else decision True appr (if vs = [] then No_escalation else Escalated vs) [])"

definition evaluate_rule :: "policy_rule \<Rightarrow> spawn_request \<Rightarrow> policy_decision" where
  "evaluate_rule rule q =
     (let vs = spawn_violations rule q;
          appr = (po_require_approval rule \<or> list_ex is_booker (sr_proposed_steps q)) in
      if vs \<noteq> [] then decision False False (Violated vs) vs
      else if sr_ancestor_verdicts q \<noteq> [] \<or> sr_scanner_degraded q
      then let td = evaluate_trust_verdicts [(''step'', JInt (sr_spawning_step q)), (''role'', JStr '''')]
                 (sr_ancestor_verdicts q) (sr_scanner_degraded q) (Some rule) in
           if \<not> pd_allowed td then td
           else decision True (appr \<or> pd_requires_approval td) (Approved_by (po_policy_id rule) (po_version rule)) []
      else decision True appr (Approved_by (po_policy_id rule) (po_version rule)) [])"

definition resolve_policy :: "'s policy_env \<Rightarrow> int \<Rightarrow> spawn_request \<Rightarrow> 's policy_state \<Rightarrow> (policy_error + policy_rule option) \<times> 's policy_state" where
  "resolve_policy env now q s =
     (case (case sr_policy_ref q of
              None \<Rightarrow> (Inr None, s)
            | Some pid \<Rightarrow> if pid = [] then (Inr None, s) else get_policy env now pid None s) of
        (Inl e, s1) \<Rightarrow> (Inl e, s1)
      | (Inr (Some r), s1) \<Rightarrow> (Inr (Some r), s1)
      | (Inr None, s1) \<Rightarrow> resolve_learned_policy env now (sr_proposed_steps q) s1)"

definition evaluate_spawn :: "'s policy_env \<Rightarrow> int \<Rightarrow> spawn_request \<Rightarrow> 's policy_state \<Rightarrow> (policy_error + policy_decision) \<times> 's policy_state" where
  "evaluate_spawn env now q s =
     (case resolve_policy env now q s of
        (Inl e, s1) \<Rightarrow> (Inl e, s1)
      | (Inr None, s1) \<Rightarrow> (Inr (decision True True No_policy_found [] \<lparr>pd_policy_matched := False\<rparr>), s1)
      | (Inr (Some rule), s1) \<Rightarrow> (Inr (evaluate_rule rule q), s1))"

section \<open>Attestations and learned policies\<close>

definition create_attestation ::
  "string \<Rightarrow> int \<Rightarrow> int \<Rightarrow> string \<Rightarrow> int \<Rightarrow> int \<Rightarrow> jobj list \<Rightarrow> string \<Rightarrow> int \<Rightarrow> policy_decision \<Rightarrow>
   's policy_state \<Rightarrow> (policy_error + policy_attestation) \<times> 's policy_state" where
  "create_attestation aid now now2 plan_id revision by_step new_steps pid pver dec s =
     (let a = \<lparr>pa_attestation_id = aid, pa_plan_id = plan_id, pa_plan_revision = revision,
           pa_spawned_by_step = by_step, pa_new_steps = new_steps, pa_policy_id = pid,
           pa_policy_version = pver, pa_decision = dec, pa_attested_at = now\<rparr> in
      if \<not> attestation_ok a \<or> 128 < length pid then (Inl Validation_failed, s)
      else case store_attestation (a \<lparr>pa_attested_at := now2\<rparr>) s of
        (Inl _, s1) \<Rightarrow> (Inl Attestation_error, s1)
      | (Inr _, s1) \<Rightarrow> (Inr a, s1))"

definition learned_rule :: "string \<Rightarrow> string \<Rightarrow> int \<Rightarrow> int \<Rightarrow> policy_rule" where
  "learned_rule rl tool mx budget =
     \<lparr>po_policy_id = learned_id rl tool, po_name = ''Learned policy for '' @ rl @ '' using '' @ tool,
      po_version = 1, po_scope = Scope_role, po_allowed_tools = [tool], po_allowed_roles = [rl],
      po_max_spawned_steps = mx, po_require_approval = False, po_data_access = [],
      po_forbidden_actions = [], po_token_budget = budget, po_trust_verdict_rules = []\<rparr>"

definition learn_from_approval :: "'s policy_env \<Rightarrow> int \<Rightarrow> string \<Rightarrow> string \<Rightarrow> int \<Rightarrow> int \<Rightarrow> 's policy_state \<Rightarrow> (policy_error + policy_rule) \<times> 's policy_state" where
  "learn_from_approval env now rl tool mx budget s =
     (if policy_rule_ok (learned_rule rl tool mx budget)
      then create_policy env now (learned_rule rl tool mx budget) s
      else (Inl Validation_failed, s))"

section \<open>The policy store\<close>

text \<open>A policy is read back as it was stored, except for the three fields the row does not carry
  or rewrites.\<close>

definition stored_form :: "policy_rule \<Rightarrow> policy_rule" where
  "stored_form r = r \<lparr>po_allowed_tools := or_default (po_allowed_tools r) [''*''],
     po_data_access := or_default (po_data_access r) [''tier1''], po_trust_verdict_rules := []\<rparr>"

lemma cache_set_tables [simp]:
  "pe_policies (cache_set_policy env now pid v r s) = pe_policies s"
  "pe_db_up (cache_set_policy env now pid v r s) = pe_db_up s"
  "pe_attestations (cache_set_policy env now pid v r s) = pe_attestations s"
  by (simp_all add: cache_set_policy_def split: option.split prod.split)

lemma cache_invalidate_tables [simp]:
  "pe_policies (cache_invalidate env now pid v s) = pe_policies s"
  "pe_db_up (cache_invalidate env now pid v s) = pe_db_up s"
  "pe_attestations (cache_invalidate env now pid v s) = pe_attestations s"
  by (simp_all add: cache_invalidate_def split: option.split prod.split)

lemma get_policy_tables [simp]:
  "pe_policies (snd (get_policy env now pid ver s)) = pe_policies s"
  "pe_db_up (snd (get_policy env now pid ver s)) = pe_db_up s"
  "pe_attestations (snd (get_policy env now pid ver s)) = pe_attestations s"
  by (simp_all add: get_policy_def split: option.split sum.split)

lemma get_latest:
  "fst (get_policy env now pid None s) =
     bind_res (db_get_policy pid None s)
       (\<lambda>p. case p of None \<Rightarrow> Inr None | Some p \<Rightarrow> bind_res (rule_of_db p) (\<lambda>r. Inr (Some r)))"
  by (simp add: get_policy_def bind_res_def split: option.split sum.split)

lemma get_latest_cong:
  "pe_policies s' = pe_policies s \<Longrightarrow> pe_db_up s' = pe_db_up s \<Longrightarrow>
   fst (get_policy env now pid None s') = fst (get_policy env' now' pid None s)"
  by (simp add: get_latest db_get_policy_def)

lemma row_form_ok: "policy_db_ok (row_to_policy p) = policy_db_ok p"
  by (simp add: policy_db_ok_def row_to_policy_def)

lemma policy_db_ok_stamps [simp]:
  "policy_db_ok (p \<lparr>pb_created_at := x, pb_updated_at := y\<rparr>) = policy_db_ok p"
  by (simp add: policy_db_ok_def)

lemma rule_of_row:
  assumes "policy_rule_ok r"
  shows "rule_of_db (row_to_policy ((db_of_rule r) \<lparr>pb_created_at := x, pb_updated_at := y\<rparr>)) = Inr (stored_form r)"
  using assms
  by (simp add: rule_of_db_def row_to_policy_def db_of_rule_def stored_form_def policy_rule_ok_def Let_def)

lemma db_of_rule_id [simp]: "pb_policy_id (db_of_rule r) = po_policy_id r"
  by (simp add: db_of_rule_def)

lemma create_policy_Inr:
  assumes "create_policy env now r s = (Inr r', s')"
  shows "r' = r" "pe_db_up s" "pe_db_up s'" "policy_db_ok (db_of_rule r)"
    and "\<exists>x y. pe_policies s' =
           dict_set (po_policy_id r) ((db_of_rule r) \<lparr>pb_created_at := x, pb_updated_at := y\<rparr>) (pe_policies s)"
proof -
  show "r' = r" "pe_db_up s" "pe_db_up s'" "policy_db_ok (db_of_rule r)"
    using assms by (auto simp: create_policy_def store_policy_def Let_def split: if_splits)
  show "\<exists>x y. pe_policies s' =
      dict_set (po_policy_id r) ((db_of_rule r) \<lparr>pb_created_at := x, pb_updated_at := y\<rparr>) (pe_policies s)"
    using assms
    by (cases "dict_get (pe_policies s) (po_policy_id r)")
      (clarsimp simp: create_policy_def store_policy_def Let_def split: if_splits, blast)+
qed

lemma get_created:
  assumes "create_policy env now r s = (Inr r', s')" and "policy_rule_ok r"
  shows "fst (get_policy env now' (po_policy_id r) None s') = Inr (Some (stored_form r))"
proof -
  obtain x y where "pe_policies s' =
      dict_set (po_policy_id r) ((db_of_rule r) \<lparr>pb_created_at := x, pb_updated_at := y\<rparr>) (pe_policies s)"
    using create_policy_Inr(5) [OF assms(1)] by blast
  then show ?thesis
    using create_policy_Inr(3,4) [OF assms(1)] assms(2)
    by (simp add: get_latest db_get_policy_def checked_row_def row_form_ok rule_of_row)
qed

lemma get_not_created:
  assumes "create_policy env now r s = (Inr r', s')" and "pid \<noteq> po_policy_id r"
  shows "fst (get_policy env now' pid None s') = fst (get_policy env now' pid None s)"
proof -
  obtain x y where "pe_policies s' =
      dict_set (po_policy_id r) ((db_of_rule r) \<lparr>pb_created_at := x, pb_updated_at := y\<rparr>) (pe_policies s)"
    using create_policy_Inr(5) [OF assms(1)] by blast
  then show ?thesis
    using create_policy_Inr(2,3) [OF assms(1)] assms(2) by (simp add: get_latest db_get_policy_def)
qed

interpretation policy_store: record_store "\<lambda>pid. get_policy env now' pid None"
  "\<lambda>pid r. create_policy env now (r \<lparr>po_policy_id := pid\<rparr>)"
  "\<lambda>pid r. stored_form (r \<lparr>po_policy_id := pid\<rparr>)" policy_rule_ok for env now now'
proof (unfold_locales, goal_cases)
  case (1 k v s r s')
  then show ?case using get_created [OF 1(1)] by (simp add: policy_rule_ok_def)
next
  case (2 k v s r s' k')
  show ?case by (rule get_not_created [OF 2(1)]) (use 2(2) in simp)
next
  case (3 k v s e s')
  then show ?case by (auto simp: create_policy_def store_policy_def Let_def split: if_splits)
next
  case (4 k' k s)
  show ?case by (rule get_latest_cong) simp_all
qed

section \<open>What a decision means\<close>

definition step_conforms :: "policy_rule \<Rightarrow> string list \<Rightarrow> jobj \<Rightarrow> bool" where
  "step_conforms rule plugins d \<longleftrightarrow>
     \<not> truthy (jget d ''can_spawn'' (JBool False)) \<and>
     (po_allowed_roles rule = [] \<or> in_strs (jget d ''role'' (JStr '''')) (po_allowed_roles rule)) \<and>
     (''*'' \<in> set (po_allowed_tools rule) \<or> in_strs (jget d ''uses'' (JStr '''')) (po_allowed_tools rule)) \<and>
     (plugins = [] \<or> in_strs (jget d ''uses'' (JStr '''')) plugins) \<and>
     \<not> in_strs (jget d ''call'' (JStr '''')) (po_forbidden_actions rule)"

lemma step_violations_Nil: "step_violations rule plugins d = [] \<longleftrightarrow> step_conforms rule plugins d"
  by (auto simp: step_violations_def step_conforms_def Let_def)

definition count_conforms :: "policy_rule \<Rightarrow> spawn_request \<Rightarrow> bool" where
  "count_conforms rule q \<longleftrightarrow> int (length (sr_proposed_steps q)) \<le> po_max_spawned_steps rule \<and>
     length (sr_proposed_steps q) \<le> 10 \<and>
     sr_current_step_count q + int (length (sr_proposed_steps q)) \<le> 100"

lemma count_violations_Nil: "count_violations rule q = [] \<longleftrightarrow> count_conforms rule q"
  by (auto simp: count_violations_def count_conforms_def Let_def max_steps_per_spawn_def
      max_total_plan_steps_def)

lemma spawn_violations_Nil:
  "spawn_violations rule q = [] \<longleftrightarrow> count_conforms rule q \<and>
     (\<forall>d\<in>set (sr_proposed_steps q). step_conforms rule (sr_plan_plugins q) d)"
  by (simp add: spawn_violations_def count_violations_Nil step_violations_Nil)

definition tainted :: "spawn_request \<Rightarrow> bool" where
  "tainted q \<longleftrightarrow> sr_scanner_degraded q \<or> (\<exists>p\<in>set (sr_ancestor_verdicts q). snd p = ''injection'')"

lemma injection_violations_Nil:
  "injection_violations av = [] \<longleftrightarrow> \<not> (\<exists>p\<in>set av. snd p = ''injection'')"
  by (induction av) (auto simp: injection_violations_def)

text \<open>With no trust rules of its own, a rule denies on any tainted ancestor: the step handed to
  \<open>evaluate_trust_verdicts\<close> carries no \<open>gate_id\<close>.\<close>

lemma trust_verdicts_default:
  assumes "po_trust_verdict_rules rule = []"
  shows "pd_allowed (evaluate_trust_verdicts [(''step'', n), (''role'', rl)]
           (sr_ancestor_verdicts q) (sr_scanner_degraded q) (Some rule)) \<longleftrightarrow> \<not> tainted q"
    and "\<not> tainted q \<Longrightarrow> \<not> pd_requires_approval (evaluate_trust_verdicts [(''step'', n), (''role'', rl)]
           (sr_ancestor_verdicts q) (sr_scanner_degraded q) (Some rule))"
  using assms injection_violations_Nil [of "sr_ancestor_verdicts q"]
  by (auto simp: evaluate_trust_verdicts_def Let_def tainted_def decision_def jget_def)

lemma evaluate_rule_iff:
  assumes "po_trust_verdict_rules rule = []"
  shows "pd_allowed (evaluate_rule rule q) \<longleftrightarrow> spawn_violations rule q = [] \<and> \<not> tainted q"
    and "pd_allowed (evaluate_rule rule q) \<Longrightarrow> pd_requires_approval (evaluate_rule rule q) \<longleftrightarrow>
           po_require_approval rule \<or> list_ex is_booker (sr_proposed_steps q)"
    and "pd_policy_matched (evaluate_rule rule q)"
proof -
  note trust = trust_verdicts_default [OF assms]
  have clean: "\<not> tainted q" if "sr_ancestor_verdicts q = []" "\<not> sr_scanner_degraded q"
    using that by (simp add: tainted_def)
  show "pd_allowed (evaluate_rule rule q) \<longleftrightarrow> spawn_violations rule q = [] \<and> \<not> tainted q"
    using trust(1) clean by (auto simp: evaluate_rule_def decision_def Let_def)
  show "pd_allowed (evaluate_rule rule q) \<Longrightarrow> pd_requires_approval (evaluate_rule rule q) \<longleftrightarrow>
           po_require_approval rule \<or> list_ex is_booker (sr_proposed_steps q)"
    using trust clean by (auto simp: evaluate_rule_def decision_def Let_def split: if_splits)
  show "pd_policy_matched (evaluate_rule rule q)"
    by (simp add: evaluate_rule_def decision_def Let_def evaluate_trust_verdicts_def
        split: sum.split prod.split)
qed

lemma rule_of_db_trust: "rule_of_db p = Inr r \<Longrightarrow> po_trust_verdict_rules r = []"
  by (auto simp: rule_of_db_def Let_def split: option.splits if_splits)

lemma get_latest_trust:
  "fst (get_policy env now pid None s) = Inr (Some r) \<Longrightarrow> po_trust_verdict_rules r = []"
  by (auto simp: get_latest bind_res_Inr_iff dest: rule_of_db_trust split: option.splits)

lemma resolve_learned_stored:
  "resolve_learned_policy env now ds s = (Inr (Some r), s') \<Longrightarrow>
   \<exists>pid. fst (get_policy env now pid None s) = Inr (Some r)"
proof (induction ds arbitrary: s)
  case (Cons d ds)
  define rl tool where "rl = jget d ''role'' (JStr '''')" and "tool = jget d ''uses'' (JStr '''')"
  define k where "k = learned_id (fstring (pv_repr env) rl) (fstring (pv_repr env) tool)"
  show ?case
  proof (cases "truthy rl \<and> truthy tool")
    case False
    with Cons show ?thesis by (auto simp: rl_def tool_def)
  next
    case True
    obtain x s1 where g: "get_policy env now k None s = (x, s1)" by (rule prod.exhaust)
    with True Cons.prems consider "x = Inr (Some r)" |
        "x = Inr None" "resolve_learned_policy env now ds s1 = (Inr (Some r), s')"
      by (auto simp: rl_def tool_def k_def Let_def split: sum.splits option.splits)
    then show ?thesis
    proof cases
      case 1
      with g show ?thesis by (metis fst_conv)
    next
      case 2
      then obtain pid where "fst (get_policy env now pid None s1) = Inr (Some r)" using Cons.IH by blast
      then show ?thesis using policy_store.get_stable [of env now pid k s] g by auto
    qed
  qed
qed simp

lemma resolve_stored:
  assumes "resolve_policy env now q s = (Inr (Some r), s')"
  shows "\<exists>pid. fst (get_policy env now pid None s) = Inr (Some r)"
proof (cases "sr_policy_ref q = None \<or> sr_policy_ref q = Some []")
  case True
  with assms show ?thesis by (auto simp: resolve_policy_def split: option.splits dest: resolve_learned_stored)
next
  case False
  then obtain pid where pid: "sr_policy_ref q = Some pid" "pid \<noteq> []" by auto
  obtain x s1 where g: "get_policy env now pid None s = (x, s1)" by (rule prod.exhaust)
  with assms pid consider "x = Inr (Some r)" |
      "resolve_learned_policy env now (sr_proposed_steps q) s1 = (Inr (Some r), s')"
    by (auto simp: resolve_policy_def split: sum.splits option.splits)
  then show ?thesis
  proof cases
    case 1
    with g show ?thesis by (metis fst_conv)
  next
    case 2
    then obtain k where "fst (get_policy env now k None s1) = Inr (Some r)"
      using resolve_learned_stored by blast
    then show ?thesis using policy_store.get_stable [of env now k pid s] g by auto
  qed
qed

section \<open>Properties\<close>

lemma evaluate_spawn_cases:
  assumes "evaluate_spawn env now q s = (Inr d, s')"
  obtains (fallback) "resolve_policy env now q s = (Inr None, s')" "pd_allowed d"
      "pd_requires_approval d" "\<not> pd_policy_matched d"
  | (rule) r where "resolve_policy env now q s = (Inr (Some r), s')" "d = evaluate_rule r q"
      "po_trust_verdict_rules r = []"
proof -
  obtain x s1 where x: "resolve_policy env now q s = (x, s1)" by (rule prod.exhaust)
  have "po_trust_verdict_rules r = []" if "x = Inr (Some r)" for r
    using resolve_stored x that get_latest_trust by blast
  with x assms that show thesis
    by (auto simp: evaluate_spawn_def decision_def split: sum.splits option.splits)
qed

text \<open>A spawn that goes ahead without a human, an allowed decision that needs no approval,
  was judged by a stored policy that asks for none, and lies within every limit: at most the
  policy's maximum and 10 steps per spawn, at most 100 steps in the plan, and every proposed step
  has an allowed role, an allowed tool, a tool among the plan's plugins, no forbidden call, no
  \<open>can_spawn\<close> and is no Booker. No ancestor sanitizer reported an injection or a degraded scan.\<close>

theorem auto_approved_spawn_bounded:
  assumes "evaluate_spawn env now q s = (Inr d, s')"
    and "pd_allowed d" and "\<not> pd_requires_approval d"
  shows "\<exists>pid r. fst (get_policy env now pid None s) = Inr (Some r) \<and> \<not> po_require_approval r \<and>
     int (length (sr_proposed_steps q)) \<le> po_max_spawned_steps r \<and>
     length (sr_proposed_steps q) \<le> 10 \<and>
     sr_current_step_count q + int (length (sr_proposed_steps q)) \<le> 100 \<and>
     (\<forall>x\<in>set (sr_proposed_steps q). step_conforms r (sr_plan_plugins q) x \<and> \<not> is_booker x) \<and>
     \<not> tainted q"
  using assms(1)
proof (cases rule: evaluate_spawn_cases)
  case fallback
  with assms(3) show ?thesis by simp
next
  case (rule r)
  obtain pid where pid: "fst (get_policy env now pid None s) = Inr (Some r)"
    using resolve_stored rule(1) by blast
  note exact = evaluate_rule_iff [OF rule(3), of q]
  show ?thesis
    using pid exact(1,2) assms(2,3) rule(2)
    by (intro exI [of _ pid] exI [of _ r])
      (auto simp: spawn_violations_Nil count_conforms_def list_ex_iff)
qed

text \<open>A database with one learned rule, and a spawn of one step it covers.\<close>

definition demo_env :: "mem policy_env" where
  "demo_env = \<lparr>pv_redis = None, pv_enc = (\<lambda>_. []), pv_dec = (\<lambda>_. None), pv_repr = (\<lambda>_. [])\<rparr>"

definition demo_state :: "mem policy_state" where
  "demo_state = \<lparr>pe_policies = [(''learned:Fetcher:t'', (db_of_rule (learned_rule ''Fetcher'' ''t'' 3 8192)))],
     pe_attestations = [], pe_plan_ids = [], pe_db_up = True, pe_redis = []\<rparr>"

definition demo_step :: jobj where
  "demo_step = [(''role'', JStr ''Fetcher''), (''uses'', JStr ''t''), (''call'', JStr ''c'')]"

definition demo_request :: spawn_request where
  "demo_request = \<lparr>sr_plan_id = replicate 26 CHR ''P'', sr_plan_revision = 1, sr_spawning_step = 1,
     sr_proposed_steps = [demo_step], sr_current_step_count = 4, sr_plan_plugins = [],
     sr_policy_ref = None, sr_ancestor_verdicts = [], sr_scanner_degraded = False\<rparr>"

lemmas demo_defs = demo_env_def demo_state_def demo_step_def demo_request_def

lemma demo_evaluates:
  "evaluate_spawn demo_env 0 demo_request demo_state =
     (Inr (decision True False (Approved_by ''learned:Fetcher:t'' 1) []), demo_state)"
  by (simp add: demo_defs evaluate_spawn_def resolve_policy_def get_policy_def db_get_policy_def
      jget_def learned_id_def learned_rule_def db_of_rule_def checked_row_def row_to_policy_def or_default_def
      policy_db_ok_def rule_of_db_def parse_scope_def policy_rule_ok_def cache_set_policy_def Let_def
      evaluate_rule_def spawn_violations_def count_violations_def step_violations_def is_booker_def
      max_steps_per_spawn_def max_total_plan_steps_def)

theorem auto_approved_spawn_bounded_witness:
  "\<exists>pid r. fst (get_policy demo_env 0 pid None demo_state) = Inr (Some r) \<and> \<not> po_require_approval r \<and>
     int (length (sr_proposed_steps demo_request)) \<le> po_max_spawned_steps r"
proof -
  have "pd_allowed (decision True False x [])" "\<not> pd_requires_approval (decision True False x [])" for x
    by (simp_all add: decision_def)
  note auto_approved_spawn_bounded [OF demo_evaluates this]
  then show ?thesis by blast
qed

text \<open>What the code decides when a policy is found (the specification asks for a gate at every spawned step): the spawn is allowed if and only
  if it violates no limit and has no tainted ancestor, and then approval is required if and only
  if the policy asks for it or a Booker is among the proposed steps. A tainted ancestor always
  denies: approval behind a gate, which the rules FR-029 and FR-031 foresee, is never granted.\<close>

theorem spawn_decision_exact:
  assumes "fst (resolve_policy env now q s) = Inr (Some r)"
  shows "\<exists>d. fst (evaluate_spawn env now q s) = Inr d \<and> pd_policy_matched d \<and>
     (pd_allowed d \<longleftrightarrow> count_conforms r q \<and>
        (\<forall>x\<in>set (sr_proposed_steps q). step_conforms r (sr_plan_plugins q) x) \<and> \<not> tainted q) \<and>
     (pd_allowed d \<longrightarrow> (pd_requires_approval d \<longleftrightarrow>
        po_require_approval r \<or> (\<exists>x\<in>set (sr_proposed_steps q). is_booker x)))"
proof -
  obtain s1 where r: "resolve_policy env now q s = (Inr (Some r), s1)"
    using assms by (cases "resolve_policy env now q s") simp
  have "po_trust_verdict_rules r = []" using resolve_stored [OF r] get_latest_trust by blast
  note exact = evaluate_rule_iff [OF this, of q]
  have "fst (evaluate_spawn env now q s) = Inr (evaluate_rule r q)"
    using r by (simp add: evaluate_spawn_def)
  then show ?thesis
    using exact by (auto simp: spawn_violations_Nil list_ex_iff)
qed

theorem spawn_decision_exact_witness:
  "fst (resolve_policy demo_env 0 demo_request demo_state) = Inr (Some (stored_form (learned_rule ''Fetcher'' ''t'' 3 8192))) \<and>
   (\<exists>d. fst (evaluate_spawn demo_env 0 demo_request demo_state) = Inr d \<and> pd_policy_matched d)"
proof -
  have "fst (resolve_policy demo_env 0 demo_request demo_state) =
      Inr (Some (stored_form (learned_rule ''Fetcher'' ''t'' 3 8192)))"
    by (simp add: demo_defs resolve_policy_def get_policy_def db_get_policy_def jget_def learned_id_def
        learned_rule_def db_of_rule_def checked_row_def row_to_policy_def or_default_def policy_db_ok_def
        rule_of_db_def parse_scope_def policy_rule_ok_def cache_set_policy_def Let_def stored_form_def)
  with spawn_decision_exact [OF this] show ?thesis by blast
qed

text \<open>Learning closes the loop: once \<open>learn_from_approval\<close> has stored the rule of a role and a
  tool, a later spawn of up to the learned number of steps with that role and tool, whatever was
  read and whatever other policies were written in between, is allowed without approval (provided
  the role is not Booker, no step may spawn, the plan is within 100 steps and nothing is tainted).\<close>

theorem learned_policy_auto_approves:
  assumes "learn_from_approval env t0 rl tool mx budget s = (Inr r0, s0)"
    and "s1 = policy_store.puts env t1 ps (policy_store.reads env t1 ks s0)"
    and "learned_id rl tool \<notin> fst ` set ps"
    and "sr_policy_ref q = None" and "sr_proposed_steps q \<noteq> []"
    and "\<forall>d\<in>set (sr_proposed_steps q). jget d ''role'' (JStr '''') = JStr rl \<and>
           jget d ''uses'' (JStr '''') = JStr tool \<and> \<not> truthy (jget d ''can_spawn'' (JBool False))"
    and "rl \<noteq> []" and "tool \<noteq> []" and "rl \<noteq> ''Booker''"
    and "sr_plan_plugins q = [] \<or> tool \<in> set (sr_plan_plugins q)"
    and "int (length (sr_proposed_steps q)) \<le> mx"
    and "sr_current_step_count q + int (length (sr_proposed_steps q)) \<le> 100" and "\<not> tainted q"
  shows "\<exists>d. fst (evaluate_spawn env now q s1) = Inr d \<and> pd_allowed d \<and> \<not> pd_requires_approval d"
proof -
  let ?r = "learned_rule rl tool mx budget"
  have ok: "policy_rule_ok ?r" and put: "create_policy env t0 ?r s = (Inr r0, s0)"
    using assms(1) by (auto simp: learn_from_approval_def split: if_splits)

  have got: "fst (get_policy env now (learned_id rl tool) None s1) = Inr (Some (stored_form ?r))"
  proof -
    have "fst (get_policy env now (learned_id rl tool) None s1) =
        fst (get_policy env t1 (learned_id rl tool) None s1)"
      by (rule get_latest_cong) simp_all
    also have "\<dots> = fst (get_policy env t1 (learned_id rl tool) None s0)"
      unfolding assms(2) by (simp only: policy_store.puts_elsewhere [OF assms(3)] policy_store.reads_stable)
    also have "\<dots> = Inr (Some (stored_form ?r))"
      using get_created [OF put ok, of t1] by (simp add: learned_rule_def)
    finally show ?thesis .
  qed
  obtain d ds where ds: "sr_proposed_steps q = d # ds" using assms(5) by (cases "sr_proposed_steps q") auto
  obtain s2 where g: "get_policy env now (learned_id rl tool) None s1 = (Inr (Some (stored_form ?r)), s2)"
    using got by (metis prod.collapse)
  have "resolve_policy env now q s1 = (Inr (Some (stored_form ?r)), s2)"
    using g assms(4,6,7,8) ds by (simp add: resolve_policy_def)
  then have "fst (evaluate_spawn env now q s1) = Inr (evaluate_rule (stored_form ?r) q)"
    by (simp add: evaluate_spawn_def)
  moreover have trust: "po_trust_verdict_rules (stored_form ?r) = []" by (simp add: stored_form_def)
  have "spawn_violations (stored_form ?r) q = []"
    using assms(6,10,11,12) ok
    by (auto simp: spawn_violations_Nil count_conforms_def step_conforms_def stored_form_def
        learned_rule_def or_default_def policy_rule_ok_def)
  moreover have "\<not> list_ex is_booker (sr_proposed_steps q)"
    using assms(6,9) by (auto simp: list_ex_iff is_booker_def)
  moreover have "\<not> po_require_approval (stored_form ?r)" by (simp add: stored_form_def learned_rule_def)
  ultimately show ?thesis using evaluate_rule_iff [OF trust, of q] assms(13) by auto
qed

definition empty_state :: "mem policy_state" where
  "empty_state = \<lparr>pe_policies = [], pe_attestations = [], pe_plan_ids = [], pe_db_up = True, pe_redis = []\<rparr>"

definition learned_demo :: "mem policy_state" where
  "learned_demo = empty_state \<lparr>pe_policies := [(''learned:Fetcher:t'',
     (db_of_rule (learned_rule ''Fetcher'' ''t'' 3 8192)) \<lparr>pb_created_at := Some 0, pb_updated_at := Some 0\<rparr>)]\<rparr>"

lemma learned_demo_stored:
  "learn_from_approval demo_env 0 ''Fetcher'' ''t'' 3 8192 empty_state =
     (Inr (learned_rule ''Fetcher'' ''t'' 3 8192), learned_demo)"
  by (simp add: learn_from_approval_def create_policy_def store_policy_def policy_rule_ok_def
      policy_db_ok_def db_of_rule_def learned_rule_def learned_id_def empty_state_def learned_demo_def
      cache_invalidate_def demo_env_def)

theorem learned_policy_auto_approves_witness:
  "\<exists>d. fst (evaluate_spawn demo_env 9 demo_request learned_demo) = Inr d \<and> pd_allowed d \<and>
     \<not> pd_requires_approval d"
  by (rule learned_policy_auto_approves [OF learned_demo_stored, of _ 0 "[]" "[]"])
    (simp_all add: demo_request_def demo_step_def jget_def tainted_def)

text \<open>A policy that allows no tool does not stay so: \<open>_row_to_policy\<close> reads an empty
  \<open>allowed_tools\<close> back as the wildcard, so a spawn judged by a policy created with an empty tool
  list is never denied for its tools.\<close>

theorem empty_tool_list_allows_all:
  assumes "create_policy env t0 r s = (Inr r0, s0)" and "policy_rule_ok r" and "po_allowed_tools r = []"
    and "sr_policy_ref q = Some (po_policy_id r)" and "po_policy_id r \<noteq> []"
    and "fst (evaluate_spawn env now q s0) = Inr d"
  shows "Tool_not_allowed n tool \<notin> set (pd_violations d)"
proof -
  obtain s2 where g: "get_policy env now (po_policy_id r) None s0 = (Inr (Some (stored_form r)), s2)"
    using get_created [OF assms(1,2), of now] by (metis prod.collapse)
  have "resolve_policy env now q s0 = (Inr (Some (stored_form r)), s2)"
    using g assms(4,5) by (simp add: resolve_policy_def)
  then have d: "d = evaluate_rule (stored_form r) q"
    using assms(6) by (simp add: evaluate_spawn_def)
  have "''*'' \<in> set (po_allowed_tools (stored_form r))"
    using assms(3) by (simp add: stored_form_def or_default_def)
  then have "Tool_not_allowed n tool \<notin> set (spawn_violations (stored_form r) q)"
    by (auto simp: spawn_violations_def step_violations_def count_violations_def Let_def)
  then show ?thesis
    unfolding d
    by (auto simp: evaluate_rule_def evaluate_trust_verdicts_def decision_def Let_def stored_form_def
        injection_violations_def split: if_splits)
qed

definition no_tools_rule :: policy_rule where
  "no_tools_rule = (learned_rule ''Fetcher'' ''t'' 3 8192) \<lparr>po_policy_id := ''p'', po_allowed_tools := []\<rparr>"

theorem empty_tool_list_allows_all_witness:
  "\<exists>s0 d. create_policy demo_env 0 no_tools_rule empty_state = (Inr no_tools_rule, s0) \<and>
     fst (evaluate_spawn demo_env 1 (demo_request \<lparr>sr_policy_ref := Some ''p''\<rparr>) s0) = Inr d \<and>
     Tool_not_allowed (JStr ''?'') (JStr ''t'') \<notin> set (pd_violations d)"
proof -
  let ?q = "demo_request \<lparr>sr_policy_ref := Some ''p''\<rparr>"
  have ok: "policy_rule_ok no_tools_rule" and e: "po_allowed_tools no_tools_rule = []"
    and id: "po_policy_id no_tools_rule = ''p''"
    by (simp_all add: no_tools_rule_def learned_rule_def policy_rule_ok_def)
  obtain s0 where c: "create_policy demo_env 0 no_tools_rule empty_state = (Inr no_tools_rule, s0)"
    by (simp add: create_policy_def store_policy_def policy_db_ok_def db_of_rule_def learned_rule_def
        empty_state_def no_tools_rule_def learned_id_def cache_invalidate_def demo_env_def)
  obtain s2 where g: "get_policy demo_env 1 ''p'' None s0 = (Inr (Some (stored_form no_tools_rule)), s2)"
    using get_created [OF c ok, of 1] unfolding id by (metis prod.collapse)
  have "fst (evaluate_spawn demo_env 1 ?q s0) = Inr (evaluate_rule (stored_form no_tools_rule) ?q)"
    using g by (simp add: evaluate_spawn_def resolve_policy_def)
  with empty_tool_list_allows_all [OF c ok e, of ?q 1] c id show ?thesis
    by (intro exI [of _ s0] exI [of _ "evaluate_rule (stored_form no_tools_rule) ?q"]) simp
qed

text \<open>An attestation is stored completely or not at all: success appends exactly one record,
  whose policy and plan exist, with an id no record had; a failure of the store becomes an
  \<open>AttestationError\<close> and changes nothing. The ids of the stored records stay distinct.\<close>

theorem attestation_stored_or_rejected:
  assumes "create_attestation aid now now2 plan revision by_step steps pid ver dec s = (r, s')"
    and "distinct (map pa_attestation_id (pe_attestations s))"
  shows "distinct (map pa_attestation_id (pe_attestations s')) \<and>
    (case r of
       Inl e \<Rightarrow> s' = s \<and> e \<in> {Validation_failed, Attestation_error}
     | Inr a \<Rightarrow> pe_attestations s' = pe_attestations s @ [a \<lparr>pa_attested_at := now2\<rparr>] \<and>
         pe_policies s' = pe_policies s \<and> pid \<in> set (dict_keys (pe_policies s)) \<and>
         plan \<in> set (pe_plan_ids s) \<and> pa_decision a = dec \<and> attestation_ok a)"
  using assms
  by (auto simp: create_attestation_def store_attestation_def Let_def split: if_splits) force

definition attest_state :: "mem policy_state" where
  "attest_state = demo_state \<lparr>pe_plan_ids := [replicate 26 CHR ''P'']\<rparr>"

theorem attestation_stored_or_rejected_witness:
  "\<exists>a s'. create_attestation (replicate 26 CHR ''A'') 5 6 (replicate 26 CHR ''P'') 1 1 [] ''learned:Fetcher:t'' 1
       (decision True False No_escalation []) attest_state = (Inr a, s') \<and>
     pe_attestations s' = [a \<lparr>pa_attested_at := 6\<rparr>]"
proof -
  let ?c = "create_attestation (replicate 26 CHR ''A'') 5 6 (replicate 26 CHR ''P'') 1 1 [] ''learned:Fetcher:t'' 1
       (decision True False No_escalation []) attest_state"
  obtain r s' where c: "?c = (r, s')" by (rule prod.exhaust)
  obtain a where a: "r = Inr a"
    using c by (auto simp: create_attestation_def store_attestation_def attest_state_def demo_state_def attestation_ok_def)
  have e: "pe_attestations attest_state = []" by (simp add: attest_state_def demo_state_def)
  show ?thesis
    using attestation_stored_or_rejected [OF c] c a e
    by (intro exI [of _ a] exI [of _ s']) simp
qed

section \<open>The cache\<close>

text \<open>A cached rule that can still be read is the stored one, when the stored one has that version.\<close>

definition cache_coherent ::
  "('s \<Rightarrow> int \<Rightarrow> string \<Rightarrow> rval option) \<Rightarrow> 's policy_env \<Rightarrow> int \<Rightarrow> 's policy_state \<Rightarrow> bool" where
  "cache_coherent lk env now s \<longleftrightarrow>
     (\<forall>t pid v data r row. now \<le> t \<longrightarrow>
        lk (pe_redis s) t (policy_cache_key pid v) = Some (RStr data) \<longrightarrow> pv_dec env data = Some r \<longrightarrow>
        dict_get (pe_policies s) pid = Some row \<longrightarrow> pb_version row = v \<longrightarrow>
        rule_of_db (row_to_policy row) = Inr r)"

text \<open>Pydantic reads back the rules of the table from the JSON it wrote.\<close>

definition codec_ok :: "'s policy_env \<Rightarrow> 's policy_state \<Rightarrow> bool" where
  "codec_ok env s \<longleftrightarrow> (\<forall>pid row r. dict_get (pe_policies s) pid = Some row \<longrightarrow>
     rule_of_db (row_to_policy row) = Inr r \<longrightarrow> pv_dec env (pv_enc env r) = Some r)"

lemma codec_okD:
  "codec_ok env s \<Longrightarrow> dict_get (pe_policies s) pid = Some row \<Longrightarrow>
   rule_of_db (row_to_policy row) = Inr r \<Longrightarrow> pv_dec env (pv_enc env r) = Some r"
  unfolding codec_ok_def by blast

lemma cache_coherentD:
  "cache_coherent lk env now s \<Longrightarrow> now \<le> t \<Longrightarrow>
   lk (pe_redis s) t (policy_cache_key pid v) = Some (RStr data) \<Longrightarrow> pv_dec env data = Some r \<Longrightarrow>
   dict_get (pe_policies s) pid = Some row \<Longrightarrow> pb_version row = v \<Longrightarrow>
   rule_of_db (row_to_policy row) = Inr r"
  unfolding cache_coherent_def by blast

lemma takeWhile_rev_split:
  "c \<notin> set b \<Longrightarrow> c \<notin> set b' \<Longrightarrow> a @ c # b = a' @ c # b' \<Longrightarrow> a = a' \<and> b = b'"
proof (induction a arbitrary: a')
  case Nil
  then show ?case by (cases a') auto
next
  case (Cons x a)
  then show ?case by (cases a') auto
qed

lemma policy_cache_key_inject [simp]:
  "policy_cache_key pid v = policy_cache_key pid' v' \<longleftrightarrow> pid = pid' \<and> v = v'"
proof
  assume "policy_cache_key pid v = policy_cache_key pid' v'"
  then have eq: "pid @ CHR '':'' # show_int v = pid' @ CHR '':'' # show_int v'"
    by (simp add: policy_cache_key_def)
  have no: "CHR '':'' \<notin> set (show_int w)" for w
    using show_int_chars [of "CHR '':''" w] by (auto simp: is_digit_def)
  from takeWhile_rev_split [OF no no eq] show "pid = pid' \<and> v = v'"
    by (simp add: show_int_inject)
qed simp

lemma cache_set_coherent [inv_intros]:
  assumes "redis_store rd lk" and "pv_redis env = Some rd" and "pv_dec env (pv_enc env r) = Some r"
    and "cache_coherent lk env now s" and "dict_get (pe_policies s) pid = Some row"
    and "rule_of_db (row_to_policy row) = Inr r" and "v = pb_version row"
  shows "cache_coherent lk env now (cache_set_policy env now pid v r s)"
proof (cases "rd_set rd now (policy_cache_key pid v) (pv_enc env r) (Some cache_ttl_seconds) False (pe_redis s)")
  case None
  with assms show ?thesis by (simp add: cache_set_policy_def)
next
  case (Some br)
  then obtain b rs where br: "rd_set rd now (policy_cache_key pid v) (pv_enc env r) (Some cache_ttl_seconds) False (pe_redis s) = Some (b, rs)"
    by (cases br) simp
  have s': "cache_set_policy env now pid v r s = s \<lparr>pe_redis := rs\<rparr>"
    using br assms(2) by (simp add: cache_set_policy_def)
  have lk: "lk rs t k = (if k = policy_cache_key pid v then
      (if alive now (Some cache_ttl_seconds) t then Some (RStr (pv_enc env r)) else None)
      else lk (pe_redis s) t k)" if "now \<le> t" for t k
    using redis_store.set_law [OF assms(1) br] that by auto
  show ?thesis
    unfolding s' cache_coherent_def
  proof (intro allI impI)
    fix t pid' v' data r' row'
    assume a: "now \<le> t" "lk (pe_redis (s \<lparr>pe_redis := rs\<rparr>)) t (policy_cache_key pid' v') = Some (RStr data)"
      "pv_dec env data = Some r'" "dict_get (pe_policies (s \<lparr>pe_redis := rs\<rparr>)) pid' = Some row'" "pb_version row' = v'"
    then have *: "now \<le> t" "lk rs t (policy_cache_key pid' v') = Some (RStr data)" "pv_dec env data = Some r'"
      "dict_get (pe_policies s) pid' = Some row'" "pb_version row' = v'" by simp_all
    show "rule_of_db (row_to_policy row') = Inr r'"
    proof (cases "pid' = pid \<and> v' = v")
      case True
      with * lk [of t] assms show ?thesis by (auto split: if_splits)
    next
      case False
      with * lk [of t] have "lk (pe_redis s) t (policy_cache_key pid' v') = Some (RStr data)" by auto
      with * show ?thesis using cache_coherentD [OF assms(4)] by blast
    qed
  qed
qed

lemma rule_of_row_version: "rule_of_db (row_to_policy row) = Inr r \<Longrightarrow> po_version r = pb_version row"
  by (auto simp: rule_of_db_def row_to_policy_def Let_def split: option.splits if_splits)

lemma db_get_policy_SomeD:
  assumes "db_get_policy pid ver s = Inr (Some p)"
  shows "\<exists>row. dict_get (pe_policies s) pid = Some row \<and> p = row_to_policy row \<and>
    (\<forall>v. ver = Some v \<longrightarrow> pb_version row = v)"
  using assms
  by (auto simp: db_get_policy_def checked_row_def bind_res_def split: if_splits option.splits)

lemma get_policy_coherent [inv_intros]:
  assumes "redis_store rd lk" and "pv_redis env = Some rd" and "codec_ok env s"
    and "cache_coherent lk env now s"
  shows "cache_coherent lk env now (snd (get_policy env now pid ver s))"
proof (cases "snd (get_policy env now pid ver s) = s")
  case False
  then obtain p r where p: "db_get_policy pid ver s = Inr (Some p)" and r: "rule_of_db p = Inr r"
    and s': "snd (get_policy env now pid ver s) = cache_set_policy env now pid (po_version r) r s"
    by (auto simp: get_policy_def split: option.splits sum.splits)
  obtain row where "dict_get (pe_policies s) pid = Some row" "p = row_to_policy row"
    using db_get_policy_SomeD [OF p] by blast
  with r s' assms show ?thesis
    by (auto intro!: cache_set_coherent rule_of_row_version intro: codec_okD)
qed (use assms in simp)

lemma create_policy_coherent [inv_intros]:
  assumes "redis_store rd lk" and "pv_redis env = Some rd"
    and "cache_coherent lk env now s" and "create_policy env now r s = (Inr r0, s')"
    and "rd_del rd now (policy_cache_key (po_policy_id r) (po_version r)) (pe_redis s) = Some (b, rs)"
  shows "cache_coherent lk env now s'"
proof -
  obtain x y where tab: "pe_policies s' =
      dict_set (po_policy_id r) ((db_of_rule r) \<lparr>pb_created_at := x, pb_updated_at := y\<rparr>) (pe_policies s)"
    using create_policy_Inr(5) [OF assms(4)] by blast
  have red: "pe_redis s' = rs"
    using assms(2,4,5)
    by (auto simp: create_policy_def store_policy_def cache_invalidate_def Let_def split: if_splits)
  have lk: "lk rs t k = (if k = policy_cache_key (po_policy_id r) (po_version r) then None
      else lk (pe_redis s) t k)" if "now \<le> t" for t k
    using redis_store.del_law [OF assms(1,5)] that by auto
  have ver: "pb_version ((db_of_rule r) \<lparr>pb_created_at := x, pb_updated_at := y\<rparr>) = po_version r"
    by (simp add: db_of_rule_def)
  show ?thesis
    unfolding cache_coherent_def
  proof (intro allI impI)
    fix t pid v data r' row
    assume *: "now \<le> t" "lk (pe_redis s') t (policy_cache_key pid v) = Some (RStr data)"
      "pv_dec env data = Some r'" "dict_get (pe_policies s') pid = Some row" "pb_version row = v"
    then have "\<not> (pid = po_policy_id r \<and> v = po_version r)" and "lk (pe_redis s) t (policy_cache_key pid v) = Some (RStr data)"
      using lk [of t] red by (auto split: if_splits)
    moreover from this * tab ver have "dict_get (pe_policies s) pid = Some row"
      by (auto split: if_splits)
    ultimately show "rule_of_db (row_to_policy row) = Inr r'"
      using cache_coherentD [OF assms(3)] * by blast
  qed
qed

lemma versioned_read_current:
  assumes "redis_store rd lk" and "pv_redis env = Some rd" and "cache_coherent lk env now s"
    and "fst (get_policy env now pid (Some v) s) = Inr (Some r)"
    and "dict_get (pe_policies s) pid = Some row" and "pb_version row = v"
  shows "rule_of_db (row_to_policy row) = Inr r"
proof (cases "cache_get_policy env now pid v s")
  case None
  with assms(4-6) show ?thesis
    by (auto simp: get_policy_def db_get_policy_def checked_row_def bind_res_def
        split: if_splits option.splits sum.splits)
next
  case (Some r')
  with assms(4) have "r' = r" by (simp add: get_policy_def)
  with Some assms(2) obtain data where "rd_get rd now (policy_cache_key pid v) (pe_redis s) = Some (Some data)"
    "pv_dec env data = Some r"
    by (auto simp: cache_get_policy_def split: option.splits)
  with redis_store.get_SomeD [OF assms(1)] assms(5,6) show ?thesis
    by (intro cache_coherentD [OF assms(3)]) auto
qed

text \<open>When calls do not overlap, the rule cache is coherent: reading policies keeps it so, creating one keeps it so when
  Redis carries out the invalidation, and in a coherent state a versioned read that finds the
  stored version answers with exactly the stored rule, from the cache or from the table.\<close>

theorem policy_cache_coherent:
  assumes "redis_store rd lk" and "pv_redis env = Some rd" and "codec_ok env s"
    and "cache_coherent lk env now s"
  shows "cache_coherent lk env now (snd (get_policy env now pid ver s)) \<and>
    (\<forall>r0 s'. create_policy env now r s = (Inr r0, s') \<longrightarrow>
       rd_del rd now (policy_cache_key (po_policy_id r) (po_version r)) (pe_redis s) \<noteq> None \<longrightarrow>
       cache_coherent lk env now s') \<and>
    (\<forall>r row. fst (get_policy env now pid (Some (pb_version row)) s) = Inr (Some r) \<longrightarrow>
       dict_get (pe_policies s) pid = Some row \<longrightarrow> rule_of_db (row_to_policy row) = Inr r)"
  using get_policy_coherent [OF assms] create_policy_coherent [OF assms(1,2,4)]
    versioned_read_current [OF assms(1,2,4)] by (fastforce split: option.splits)

definition cached_env :: "mem policy_env" where
  "cached_env = \<lparr>pv_redis = Some mem_redis, pv_enc = (\<lambda>_. ''rule''),
     pv_dec = (\<lambda>_. Some (stored_form (learned_rule ''Fetcher'' ''t'' 3 8192))), pv_repr = (\<lambda>_. [])\<rparr>"

theorem policy_cache_coherent_witness:
  "cache_coherent mem_lookup cached_env 0 (snd (get_policy cached_env 0 ''learned:Fetcher:t'' None demo_state)) \<and>
   pe_redis (snd (get_policy cached_env 0 ''learned:Fetcher:t'' None demo_state)) \<noteq> []"
proof -
  have r: "rule_of_db (row_to_policy (db_of_rule (learned_rule ''Fetcher'' ''t'' 3 8192))) =
      Inr (stored_form (learned_rule ''Fetcher'' ''t'' 3 8192))"
    using rule_of_row [of "learned_rule ''Fetcher'' ''t'' 3 8192" None None]
    by (simp add: policy_rule_ok_def learned_rule_def db_of_rule_def)
  have codec: "codec_ok cached_env demo_state"
    using r by (auto simp: codec_ok_def cached_env_def demo_state_def split: if_splits)
  have coh: "cache_coherent mem_lookup cached_env 0 demo_state"
    by (simp add: cache_coherent_def demo_state_def mem_lookup_def)
  have env: "pv_redis cached_env = Some mem_redis" by (simp add: cached_env_def)
  have "pe_redis (snd (get_policy cached_env 0 ''learned:Fetcher:t'' None demo_state)) \<noteq> []"
    by (simp add: demo_defs cached_env_def get_policy_def db_get_policy_def learned_id_def learned_rule_def
        db_of_rule_def checked_row_def row_to_policy_def or_default_def policy_db_ok_def rule_of_db_def
        parse_scope_def policy_rule_ok_def cache_set_policy_def Let_def mem_redis_def)
  with policy_cache_coherent [OF mem_store.redis_store_axioms env codec coh] show ?thesis by blast
qed

end
