(* ===== verification/Result_State.thy ===== *)
theory Result_State
  imports Aexor_Prelude
begin

text \<open>
  Stateful code that may raise: a computation takes a state and answers an error or a value,
  with the state it leaves behind (an exception keeps the effects that came before it). The
  combinators follow Python: sequencing, \<open>try ... except\<close>, \<open>try ... finally\<close>, \<open>for\<close> loops.
  \<open>keeps P m\<close> says that \<open>m\<close> preserves \<open>P\<close>, whatever it answers.
\<close>

type_synonym ('s, 'e, 'a) comp = "'s \<Rightarrow> ('e + 'a) \<times> 's"

definition retS :: "'a \<Rightarrow> ('s, 'e, 'a) comp" where
  "retS a s = (Inr a, s)"

definition throwS :: "'e \<Rightarrow> ('s, 'e, 'a) comp" where
  "throwS e s = (Inl e, s)"

definition bindS :: "('s, 'e, 'a) comp \<Rightarrow> ('a \<Rightarrow> ('s, 'e, 'b) comp) \<Rightarrow> ('s, 'e, 'b) comp" where
  "bindS m f s = (case m s of (Inl e, s1) \<Rightarrow> (Inl e, s1) | (Inr a, s1) \<Rightarrow> f a s1)"

definition thenS :: "('s, 'e, 'a) comp \<Rightarrow> ('s, 'e, 'b) comp \<Rightarrow> ('s, 'e, 'b) comp" where
  "thenS m n = bindS m (\<lambda>_. n)"

definition readS :: "('s \<Rightarrow> 'a) \<Rightarrow> ('s, 'e, 'a) comp" where
  "readS f s = (Inr (f s), s)"

definition modS :: "('s \<Rightarrow> 's) \<Rightarrow> ('s, 'e, unit) comp" where
  "modS f s = (Inr (), f s)"

definition tryS :: "('s, 'e, 'a) comp \<Rightarrow> ('e \<Rightarrow> ('s, 'e, 'a) comp) \<Rightarrow> ('s, 'e, 'a) comp" where
  "tryS m h s = (case m s of (Inl e, s1) \<Rightarrow> h e s1 | (Inr a, s1) \<Rightarrow> (Inr a, s1))"

text \<open>\<open>try: m finally: n\<close>: an exception of \<open>n\<close> replaces the outcome of \<open>m\<close>.\<close>

definition finallyS :: "('s, 'e, 'a) comp \<Rightarrow> ('s, 'e, unit) comp \<Rightarrow> ('s, 'e, 'a) comp" where
  "finallyS m n s = (case m s of (r, s1) \<Rightarrow> (case n s1 of (Inl e, s2) \<Rightarrow> (Inl e, s2) | (Inr _, s2) \<Rightarrow> (r, s2)))"

primrec forS :: "('a \<Rightarrow> ('s, 'e, unit) comp) \<Rightarrow> 'a list \<Rightarrow> ('s, 'e, unit) comp" where
  "forS f [] = retS ()"
| "forS f (x # xs) = thenS (f x) (forS f xs)"

lemmas comp_defs = retS_def throwS_def bindS_def thenS_def readS_def modS_def tryS_def finallyS_def

section \<open>Rules\<close>

lemma bindS_Inr: "m s = (Inr a, s1) \<Longrightarrow> bindS m f s = f a s1"
  by (simp add: bindS_def)

lemma bindS_Inl: "m s = (Inl e, s1) \<Longrightarrow> bindS m f s = (Inl e, s1)"
  by (simp add: bindS_def)

lemma thenS_Inr: "m s = (Inr a, s1) \<Longrightarrow> thenS m n s = n s1"
  by (simp add: thenS_def bindS_def)

lemma thenS_Inl: "m s = (Inl e, s1) \<Longrightarrow> thenS m n s = (Inl e, s1)"
  by (simp add: thenS_def bindS_def)

lemma retS_run [simp]: "retS a s = (Inr a, s)"
  by (simp add: comp_defs fun_eq_iff)

lemma throwS_run [simp]: "throwS e s = (Inl e, s)"
  by (simp add: comp_defs fun_eq_iff)

lemma readS_run [simp]: "readS f s = (Inr (f s), s)"
  by (simp add: comp_defs fun_eq_iff)

lemma modS_run [simp]: "modS g s = (Inr (), g s)"
  by (simp add: comp_defs fun_eq_iff)

lemma bindS_ret [simp]: "bindS (retS a) k = k a"
  by (simp add: comp_defs fun_eq_iff)

lemma bindS_throw [simp]: "bindS (throwS e) k = throwS e"
  by (simp add: comp_defs fun_eq_iff)

lemma bindS_read [simp]: "bindS (readS f) k s = k (f s) s"
  by (simp add: comp_defs fun_eq_iff)

lemma bindS_mod [simp]: "bindS (modS g) k s = k () (g s)"
  by (simp add: comp_defs fun_eq_iff)

lemma thenS_mod [simp]: "thenS (modS g) n s = n (g s)"
  by (simp add: comp_defs fun_eq_iff)

lemma thenS_throw [simp]: "thenS (throwS e) n = throwS e"
  by (simp add: comp_defs fun_eq_iff)

lemma thenS_ret [simp]: "thenS (retS a) n = n"
  by (simp add: comp_defs fun_eq_iff)

lemma bindS_InrE:
  assumes "bindS m f s = (Inr b, s')"
  obtains a s1 where "m s = (Inr a, s1)" "f a s1 = (Inr b, s')"
  using assms by (auto simp: bindS_def split: prod.splits sum.splits)

lemma thenS_InrE:
  assumes "thenS m n s = (Inr b, s')"
  obtains a s1 where "m s = (Inr a, s1)" "n s1 = (Inr b, s')"
  using assms unfolding thenS_def by (rule bindS_InrE)

lemma bindS_InlE:
  assumes "bindS m f s = (Inl e, s')"
  obtains (first) "m s = (Inl e, s')" | (second) a s1 where "m s = (Inr a, s1)" "f a s1 = (Inl e, s')"
  using assms by (auto simp: bindS_def split: prod.splits sum.splits)

section \<open>Preservation\<close>

definition keeps :: "('s \<Rightarrow> bool) \<Rightarrow> ('s, 'e, 'a) comp \<Rightarrow> bool" where
  "keeps P m \<longleftrightarrow> (\<forall>s. P s \<longrightarrow> P (snd (m s)))"

lemma keepsD: "keeps P m \<Longrightarrow> P s \<Longrightarrow> m s = (r, s') \<Longrightarrow> P s'"
  by (auto simp: keeps_def)

lemma keepsI: "(\<And>s r s'. P s \<Longrightarrow> m s = (r, s') \<Longrightarrow> P s') \<Longrightarrow> keeps P m"
  by (metis keeps_def prod.collapse)

lemma keeps_retS [inv_intros]: "keeps P (retS a)"
  by (simp add: keeps_def)

lemma keeps_throwS [inv_intros]: "keeps P (throwS e)"
  by (simp add: keeps_def)

lemma keeps_Pair [inv_intros]: "keeps P (Pair r)"
  by (simp add: keeps_def)

lemma keeps_readS [inv_intros]: "keeps P (readS f)"
  by (simp add: keeps_def)

lemma keeps_modS [inv_intros]: "(\<And>s. P s \<Longrightarrow> P (f s)) \<Longrightarrow> keeps P (modS f)"
  by (simp add: keeps_def)

lemma keeps_bindS [inv_intros]: "keeps P m \<Longrightarrow> (\<And>a. keeps P (f a)) \<Longrightarrow> keeps P (bindS m f)"
  unfolding keeps_def bindS_def by (fastforce split: prod.split sum.split)

lemma keeps_thenS [inv_intros]: "keeps P m \<Longrightarrow> keeps P n \<Longrightarrow> keeps P (thenS m n)"
  unfolding thenS_def by (rule keeps_bindS)

lemma keeps_tryS [inv_intros]: "keeps P m \<Longrightarrow> (\<And>e. keeps P (h e)) \<Longrightarrow> keeps P (tryS m h)"
  unfolding keeps_def tryS_def by (fastforce split: prod.split sum.split)

lemma keeps_finallyS [inv_intros]: "keeps P m \<Longrightarrow> keeps P n \<Longrightarrow> keeps P (finallyS m n)"
  unfolding keeps_def finallyS_def by (fastforce split: prod.split sum.split)

lemma keeps_forS [inv_intros]: "(\<And>x. x \<in> set xs \<Longrightarrow> keeps P (f x)) \<Longrightarrow> keeps P (forS f xs)"
  by (induction xs) (auto intro: keeps_retS keeps_thenS)

lemma keeps_if [inv_intros]: "(b \<Longrightarrow> keeps P m) \<Longrightarrow> (\<not> b \<Longrightarrow> keeps P n) \<Longrightarrow> keeps P (if b then m else n)"
  by simp

lemma keeps_option [inv_intros]:
  "(x = None \<Longrightarrow> keeps P m) \<Longrightarrow> (\<And>a. x = Some a \<Longrightarrow> keeps P (f a)) \<Longrightarrow>
   keeps P (case x of None \<Rightarrow> m | Some a \<Rightarrow> f a)"
  by (cases x) simp_all

lemma keeps_sum [inv_intros]:
  "(\<And>e. x = Inl e \<Longrightarrow> keeps P (g e)) \<Longrightarrow> (\<And>a. x = Inr a \<Longrightarrow> keeps P (f a)) \<Longrightarrow>
   keeps P (case x of Inl e \<Rightarrow> g e | Inr a \<Rightarrow> f a)"
  by (cases x) simp_all

lemma keeps_let [inv_intros]: "keeps P (f x) \<Longrightarrow> keeps P (let y = x in f y)"
  by simp

end
