(* ===== verification/Exec_Adapters.thy ===== *)
theory Exec_Adapters
  imports Dag_Resolver Policy_Engine Result_State
begin

text \<open>
  The ExecuteOrchestrator's data (\<open>domain/models.py\<close>) and adapters: idempotency records
  (\<open>adapters/idempotency.py\<close>), resource locks (\<open>adapters/resource_lock.py\<close>), retries
  (\<open>adapters/retry.py\<close>) and the field lookup of the template resolver
  (\<open>adapters/template_resolver.py\<close>).

  The outside world is the state \<open>xs_ext\<close> with the operations of \<open>exec_env\<close>: the clock, sleeping,
  fresh identifiers, MCP servers, the LLM. Redis and the tables are those of the policy engine's
  state. \<open>xs_trace\<close> records every MCP invocation, for the properties. A stored time
  \<open>str(time.time())\<close> is the decimal text of the microseconds.
\<close>

section \<open>Models\<close>

datatype result_status = R_completed | R_failed | R_skipped

record step_result =
  rs_step :: int
  rs_status :: result_status
  rs_result :: "jobj option"
  rs_error :: "jobj option"
  rs_latency_ms :: int
  rs_retries :: int

definition completed_result :: "int \<Rightarrow> jobj option \<Rightarrow> step_result" where
  "completed_result n r = \<lparr>rs_step = n, rs_status = R_completed, rs_result = r, rs_error = None,
     rs_latency_ms = 0, rs_retries = 0\<rparr>"

record compensation_record =
  cr_step :: int
  cr_tool_id :: string
  cr_operation :: string
  cr_result :: jobj
  cr_compensation_operation :: "string option"
  cr_compensation_args :: "jobj option"

record exec_ctx =
  cx_plan :: plan
  cx_user_id :: string
  cx_trace_id :: string
  cx_step_results :: "(int, step_result) dict"
  cx_compensation_stack :: "compensation_record list"
  cx_spawned_steps :: "plan_step list"
  cx_attestations :: "policy_attestation list"
  cx_plan_revision :: int
  cx_recovery_action_count :: int
  cx_sanitizer_verdicts :: "(int, string) dict"
  cx_sanitizer_degraded :: bool

definition new_ctx :: "plan \<Rightarrow> string \<Rightarrow> string \<Rightarrow> exec_ctx" where
  "new_ctx p user trace = \<lparr>cx_plan = p, cx_user_id = user, cx_trace_id = trace, cx_step_results = [],
     cx_compensation_stack = [], cx_spawned_steps = [], cx_attestations = [], cx_plan_revision = 0,
     cx_recovery_action_count = 0, cx_sanitizer_verdicts = [], cx_sanitizer_degraded = False\<rparr>"

datatype exec_error =
    Approval_token_error string
  | Plan_expired string int
  | Step_execution int string
  | Idempotency_conflict string
  | Lock_timeout string int
  | Mcp_error string string string
  | Spawn_denied reason "violation list"
  | Recovery_exhausted int int
  | Cycle_error nat nat
  | Not_connected string "int option"
  | Gate_required string int jobj "(string \<times> step_result) list"
  | Other_error string string

text \<open>One MCP invocation: the step it runs for, with server, tool and arguments.\<close>

record invocation =
  iv_step :: plan_step
  iv_server :: string
  iv_tool :: string
  iv_args :: jobj

record audit_line =
  au_type :: string
  au_step :: "int option"
  au_ok :: bool

text \<open>What the execution tracker is told.\<close>

datatype tracker_event = Registered string nat | Progress string nat | Finished string bool "string option"

record ('s, 'x) xstate =
  xs_policy :: "'s policy_state"
  xs_locks :: "(string, string) dict"
  xs_ext :: 'x
  xs_ctx :: exec_ctx
  xs_trace :: "invocation list"
  xs_audit :: "audit_line list"
  xs_tracker :: "tracker_event list"

text \<open>The collaborators. An operation of the world may change it; \<open>xe_now\<close> is its clock.\<close>

record ('s, 'x) exec_env =
  xe_redis :: "'s redis option"
  xe_now :: "'x \<Rightarrow> int"
  xe_sleep :: "int \<Rightarrow> 'x \<Rightarrow> 'x"
  xe_fresh :: "'x \<Rightarrow> string \<times> 'x"
  xe_owner :: string
  xe_args_hash :: "jobj \<Rightarrow> string"
  xe_dumps :: "json \<Rightarrow> string"
  xe_loads :: "string \<Rightarrow> json option"
  xe_invoke :: "string \<Rightarrow> string \<Rightarrow> jobj \<Rightarrow> (string, string) dict \<Rightarrow> int \<Rightarrow> 'x \<Rightarrow> (exec_error + jobj) \<times> 'x"

type_synonym ('s, 'x, 'a) exec = "(('s, 'x) xstate, exec_error, 'a) comp"

definition clock :: "('s, 'x, 'z) exec_env_scheme \<Rightarrow> ('s, 'x) xstate \<Rightarrow> int" where
  "clock env st = xe_now env (xs_ext st)"

definition sleepS :: "('s, 'x, 'z) exec_env_scheme \<Rightarrow> int \<Rightarrow> ('s, 'x, unit) exec" where
  "sleepS env d = modS (\<lambda>st. st \<lparr>xs_ext := xe_sleep env d (xs_ext st)\<rparr>)"

text \<open>A Redis command of the adapters: without a client the attribute access raises.\<close>

definition with_redis :: "('s, 'x, 'z) exec_env_scheme \<Rightarrow> ('s redis \<Rightarrow> int \<Rightarrow> 's \<Rightarrow> ('a \<times> 's) option) \<Rightarrow> ('s, 'x, 'a) exec" where
  "with_redis env f st =
     (case xe_redis env of
        None \<Rightarrow> (Inl (Other_error ''AttributeError'' ''NoneType''), st)
      | Some rd \<Rightarrow> (case f rd (clock env st) (pe_redis (xs_policy st)) of
            None \<Rightarrow> (Inl (Other_error ''ConnectionError'' ''redis''), st)
          | Some (a, s1) \<Rightarrow> (Inr a, st \<lparr>xs_policy := (xs_policy st) \<lparr>pe_redis := s1\<rparr>\<rparr>)))"

section \<open>Idempotency\<close>

definition idem_ttl_seconds :: int where "idem_ttl_seconds = 86400"

definition default_timeout_minutes :: int where "default_timeout_minutes = 5"

definition build_key :: "('s, 'x, 'z) exec_env_scheme \<Rightarrow> string \<Rightarrow> string \<Rightarrow> string \<Rightarrow> int \<Rightarrow> string \<Rightarrow> jobj \<Rightarrow> string" where
  "build_key env user integration plan n call args =
     ''idem:'' @ user @ '':'' @ integration @ '':'' @ plan @ '':'' @ show_int n @ '':'' @ call @ '':'' @ xe_args_hash env args"

definition show_time :: "int \<Rightarrow> string" where "show_time t = show_nat (nat t)"

definition put_record :: "('s, 'x, 'z) exec_env_scheme \<Rightarrow> string \<Rightarrow> (string, string) dict \<Rightarrow> ('s, 'x, unit) exec" where
  "put_record env key m = thenS
     (with_redis env (\<lambda>rd t s. map_option (Pair ()) (rd_hset rd t key m s)))
     (with_redis env (\<lambda>rd t s. map_option (Pair ()) (rd_expire rd t key idem_ttl_seconds s)))"

definition set_in_flight :: "('s, 'x, 'z) exec_env_scheme \<Rightarrow> string \<Rightarrow> string \<Rightarrow> ('s, 'x, unit) exec" where
  "set_in_flight env key eid = bindS (readS (clock env)) (\<lambda>t.
     put_record env key [(''state'', ''IN_FLIGHT''), (''execution_id'', eid), (''claimed_at'', show_time t)])"

definition mark_succeeded :: "('s, 'x, 'z) exec_env_scheme \<Rightarrow> string \<Rightarrow> jobj \<Rightarrow> ('s, 'x, unit) exec" where
  "mark_succeeded env key r = bindS (readS (clock env)) (\<lambda>t.
     put_record env key [(''state'', ''SUCCEEDED''), (''result_json'', xe_dumps env (JObj r)), (''completed_at'', show_time t)])"

definition mark_failed :: "('s, 'x, 'z) exec_env_scheme \<Rightarrow> string \<Rightarrow> string \<Rightarrow> ('s, 'x, unit) exec" where
  "mark_failed env key err = bindS (readS (clock env)) (\<lambda>t.
     put_record env key [(''state'', ''FAILED''), (''error'', err), (''failed_at'', show_time t)])"

definition hget :: "(string, string) dict \<Rightarrow> string \<Rightarrow> string \<Rightarrow> string" where
  "hget h k d = (case dict_get h k of None \<Rightarrow> d | Some v \<Rightarrow> v)"

datatype claim_decision = Cached string string | Busy | Take | Retake | Bad_time

text \<open>What \<open>check_and_claim\<close> decides from the record it read, at instant \<open>t\<close>.\<close>

definition decide_claim :: "int \<Rightarrow> int \<Rightarrow> (string, string) dict \<Rightarrow> claim_decision" where
  "decide_claim minutes t h =
     (if h = [] then Take
      else let state = hget h ''state'' [] in
        if state = ''SUCCEEDED'' then Cached (hget h ''result_json'' ''{}'') (hget h ''step'' ''0'')
        else if state = ''IN_FLIGHT''
        then (case parse_nat (hget h ''claimed_at'' ''0'') of
            None \<Rightarrow> Bad_time
          | Some c \<Rightarrow> if t - int c < minutes * 60 * sec then Busy else Take)
        else if state = ''FAILED'' then Retake
        else Take)"

definition check_and_claim :: "('s, 'x, 'z) exec_env_scheme \<Rightarrow> string \<Rightarrow> string \<Rightarrow> int \<Rightarrow> ('s, 'x, step_result option) exec" where
  "check_and_claim env key eid minutes =
     bindS (with_redis env (\<lambda>rd t s. map_option (\<lambda>h. (h, s)) (rd_hgetall rd t key s))) (\<lambda>h.
     bindS (readS (clock env)) (\<lambda>t.
       case decide_claim minutes t h of
         Cached js n \<Rightarrow>
           (case (xe_loads env js, parse_nat n) of
              (Some (JObj r), Some k) \<Rightarrow> retS (Some (completed_result (int k) (Some r)))
            | (Some JNull, Some k) \<Rightarrow> retS (Some (completed_result (int k) None))
            | _ \<Rightarrow> throwS (Other_error ''ValueError'' ''idempotency record''))
       | Busy \<Rightarrow> throwS (Idempotency_conflict key)
       | Bad_time \<Rightarrow> throwS (Other_error ''ValueError'' ''claimed_at'')
       | Take \<Rightarrow> thenS (set_in_flight env key eid) (retS None)
       | Retake \<Rightarrow> thenS (with_redis env (\<lambda>rd t s. rd_del rd t key s))
           (thenS (set_in_flight env key eid) (retS None))))"

section \<open>Resource locks\<close>

definition lock_ttl_seconds :: int where "lock_ttl_seconds = 30"

text \<open>The polling loop: \<open>elapsed\<close> grows by half a second, so a timeout of \<open>n\<close> seconds allows
  \<open>2 * n\<close> attempts.\<close>

primrec acquire_loop :: "('s, 'x, 'z) exec_env_scheme \<Rightarrow> string \<Rightarrow> string \<Rightarrow> int \<Rightarrow> nat \<Rightarrow> ('s, 'x, bool) exec" where
  "acquire_loop env key owner timeout 0 = throwS (Lock_timeout key timeout)"
| "acquire_loop env key owner timeout (Suc n) =
     bindS (with_redis env (\<lambda>rd t s. rd_set rd t key owner (Some lock_ttl_seconds) True s)) (\<lambda>got.
       if got then thenS (modS (\<lambda>st. st \<lparr>xs_locks := dict_set key owner (xs_locks st)\<rparr>)) (retS True)
       else thenS (sleepS env (sec div 2)) (acquire_loop env key owner timeout n))"

definition freshS :: "('s, 'x, 'z) exec_env_scheme \<Rightarrow> ('s, 'x, string) exec" where
  "freshS env st = (let (u, x) = xe_fresh env (xs_ext st) in (Inr u, st \<lparr>xs_ext := x\<rparr>))"

definition acquire :: "('s, 'x, 'z) exec_env_scheme \<Rightarrow> string \<Rightarrow> int \<Rightarrow> ('s, 'x, bool) exec" where
  "acquire env key timeout = bindS (freshS env) (\<lambda>u.
     acquire_loop env key (xe_owner env @ '':'' @ u) timeout (nat (2 * timeout)))"

definition release :: "('s, 'x, 'z) exec_env_scheme \<Rightarrow> string \<Rightarrow> ('s, 'x, unit) exec" where
  "release env key = bindS (readS (\<lambda>st. dict_get (xs_locks st) key)) (\<lambda>owner.
     thenS (modS (\<lambda>st. st \<lparr>xs_locks := AList.delete key (xs_locks st)\<rparr>))
     (case owner of None \<Rightarrow> retS ()
      | Some v \<Rightarrow> bindS (with_redis env (\<lambda>rd t s. map_option (\<lambda>r. (r, s)) (rd_get rd t key s))) (\<lambda>cur.
          if cur = Some v then thenS (with_redis env (\<lambda>rd t s. rd_del rd t key s)) (retS ()) else retS ())))"

section \<open>Retries\<close>

text \<open>\<open>str(exc)\<close> of an MCP error, and whether it names a transient condition.\<close>

definition mcp_text :: "string \<Rightarrow> string \<Rightarrow> string \<Rightarrow> string" where
  "mcp_text server tool why = ''MCP error ('' @ server @ ''/'' @ tool @ ''): '' @ why"

definition retryable_errors :: "string list" where
  "retryable_errors = [''503'', ''504'', ''timeout'', ''connection_reset'']"

definition is_retryable :: "string list \<Rightarrow> string \<Rightarrow> bool" where
  "is_retryable codes msg \<longleftrightarrow> list_ex (\<lambda>c. contains_sub c (lower msg)) codes"

record retry_policy =
  rp_max_retries :: nat
  rp_backoff_base :: int
  rp_retry_on :: "string list"

definition default_retry :: retry_policy where
  "default_retry = \<lparr>rp_max_retries = 3, rp_backoff_base = sec, rp_retry_on = retryable_errors\<rparr>"

text \<open>\<open>retry_loop env p op n k\<close>: attempts \<open>k\<close>, \<open>k + 1\<close>, ... of which \<open>n\<close> are left.\<close>

primrec retry_loop :: "('s, 'x, 'z) exec_env_scheme \<Rightarrow> retry_policy \<Rightarrow> ('s, 'x, jobj) exec \<Rightarrow> nat \<Rightarrow> nat \<Rightarrow> ('s, 'x, jobj) exec" where
  "retry_loop env p oper 0 k = throwS (Other_error ''RuntimeError'' ''Retry exhausted unexpectedly'')"
| "retry_loop env p oper (Suc n) k = tryS oper (\<lambda>e.
     case e of
       Mcp_error server tool why \<Rightarrow>
         if \<not> is_retryable (rp_retry_on p) (mcp_text server tool why) \<or> k = rp_max_retries p then throwS e
         else thenS (sleepS env (rp_backoff_base p * 2 ^ k)) (retry_loop env p oper n (Suc k))
     | _ \<Rightarrow> throwS e)"

definition execute_with_retry :: "('s, 'x, 'z) exec_env_scheme \<Rightarrow> retry_policy \<Rightarrow> ('s, 'x, jobj) exec \<Rightarrow> ('s, 'x, jobj) exec" where
  "execute_with_retry env p oper = retry_loop env p oper (Suc (rp_max_retries p)) 0"

section \<open>Template fields\<close>

definition field_aliases :: "(string \<times> string list) list" where
  "field_aliases =
     [(''resolved_time'', [''recommended_time'', ''start_time'', ''start_datetime'', ''time'']),
      (''recommended_time'', [''resolved_time'', ''start_time'', ''start_datetime'', ''time'']),
      (''start_time'', [''recommended_time'', ''resolved_time'', ''start_datetime'', ''time'']),
      (''start_datetime'', [''recommended_time'', ''resolved_time'', ''start_time'', ''time'']),
      (''end_time'', [''end_datetime'', ''end'']),
      (''end_datetime'', [''end_time'', ''end'']),
      (''conflict'', [''has_conflict'', ''conflicts'']),
      (''has_conflict'', [''conflict'', ''conflicts''])]"

fun first_present :: "jobj \<Rightarrow> string list \<Rightarrow> json option" where
  "first_present d [] = None"
| "first_present d (a # as) = (case dict_get d a of Some v \<Rightarrow> Some v | None \<Rightarrow> first_present d as)"

definition lookup_field :: "jobj \<Rightarrow> string \<Rightarrow> json option" where
  "lookup_field d part = (case dict_get d part of Some v \<Rightarrow> Some v
     | None \<Rightarrow> (case map_of field_aliases part of None \<Rightarrow> None | Some as \<Rightarrow> first_present d as))"

primrec traverse_parts :: "json \<Rightarrow> string list \<Rightarrow> exec_error + json" where
  "traverse_parts cur [] = Inr cur"
| "traverse_parts cur (p # ps) = (case cur of
     JObj d \<Rightarrow> (case lookup_field d p of
         Some v \<Rightarrow> traverse_parts v ps | None \<Rightarrow> Inl (Other_error ''KeyError'' p))
   | _ \<Rightarrow> Inl (Other_error ''KeyError'' p))"

definition traverse_path :: "json \<Rightarrow> string \<Rightarrow> exec_error + json" where
  "traverse_path data path = traverse_parts data (split_on (CHR ''.'') path)"

definition extract_step_field :: "int \<Rightarrow> string \<Rightarrow> (int, step_result) dict \<Rightarrow> exec_error + json" where
  "extract_step_field n path results = (case dict_get results n of
       None \<Rightarrow> Inl (Other_error ''KeyError'' ''not found in results'')
     | Some r \<Rightarrow> (case rs_result r of
           None \<Rightarrow> Inl (Other_error ''KeyError'' ''has no result'')
         | Some d \<Rightarrow> traverse_path (JObj d) path))"

definition extract_preview_field :: "int \<Rightarrow> string \<Rightarrow> jobj option \<Rightarrow> exec_error + json" where
  "extract_preview_field n path preview = (case preview of
       None \<Rightarrow> Inl (Other_error ''KeyError'' ''No preview state available'')
     | Some d \<Rightarrow> (case dict_get d (show_int n) of
           None \<Rightarrow> Inl (Other_error ''KeyError'' ''not in preview state'')
         | Some v \<Rightarrow> traverse_path v path))"

end
