(* ===== verification/Approval_Gate.thy ===== *)
theory Approval_Gate
  imports Policy_Engine
begin

text \<open>
  The ApprovalGate: gate states and consumed tokens in Redis (\<open>adapters/gate_store.py\<close>), token
  signing (\<open>adapters/token_issuer.py\<close>) and the service (\<open>service/approval_service.py\<close>).

  JWT signing and verification (python-jose), the JSON text of a gate payload and the preview
  service are parameters in \<open>approval_env\<close>. Instants are microseconds; the claims \<open>exp\<close> and
  \<open>iat\<close> are whole seconds. The service shares the Redis of the policy engine, which is
  \<open>pe_redis\<close> of the policy state inside \<open>approval_state\<close>.
\<close>

section \<open>Models\<close>

record approval_request =
  ar_plan_id :: string
  ar_user_id :: string
  ar_gate_id :: string
  ar_scopes :: "string list"
  ar_selected_option :: "jobj option"
  ar_trace_id :: string
  ar_policy_matched :: bool
  ar_role :: "string option"
  ar_tool :: "string option"

text \<open>The pattern \<open>^gate-[A-Za-z0-9]+$\<close>: \<open>$\<close> also matches before a final newline.\<close>

definition is_alnum :: "char \<Rightarrow> bool" where
  "is_alnum c \<longleftrightarrow> (let n = of_char c :: nat in
     48 \<le> n \<and> n \<le> 57 \<or> 65 \<le> n \<and> n \<le> 90 \<or> 97 \<le> n \<and> n \<le> 122)"

definition gate_id_ok :: "string \<Rightarrow> bool" where
  "gate_id_ok g \<longleftrightarrow> take 5 g = ''gate-'' \<and>
     (let body = drop 5 g; b = (if body \<noteq> [] \<and> last body = CHR 0x0A then butlast body else body)
      in b \<noteq> [] \<and> list_all is_alnum b)"

definition approval_request_ok :: "approval_request \<Rightarrow> bool" where
  "approval_request_ok q \<longleftrightarrow> length (ar_plan_id q) = 26 \<and> ar_user_id q \<noteq> [] \<and>
     gate_id_ok (ar_gate_id q) \<and> 1 \<le> length (ar_scopes q) \<and> length (ar_scopes q) \<le> 10"

record approval_token =
  at_token :: string
  at_plan_id :: string
  at_user_id :: string
  at_gate_id :: string
  at_scopes :: "string list"
  at_exp :: int
  at_iat :: int
  at_token_id :: string

datatype gate_status = Gate_approved | Gate_pending | Gate_expired

record approval_view =
  av_plan_id :: string
  av_gate_id :: string
  av_status :: gate_status
  av_token_claims :: jobj
  av_preview_state :: json
  av_selected_option :: json
  av_approved_at :: json

datatype approval_error =
    Empty_scopes
  | Token_expired
  | Invalid_signature
  | Plan_id_mismatch
  | Gate_id_mismatch
  | Token_consumed
  | Missing_claim
  | Malformed_gate
  | Secret_missing
  | Secret_too_short nat

datatype jwt_result = Jwt_claims jobj | Jwt_expired | Jwt_invalid

record audit_entry =
  ae_event :: string
  ae_plan :: string
  ae_user :: string
  ae_gate :: string
  ae_scopes :: "string list"
  ae_token_id :: string

record 's approval_env =
  ge_redis :: "'s redis option"
  ge_ttl :: int
  ge_dumps :: "json \<Rightarrow> string option"
  ge_loads :: "string \<Rightarrow> json option"
  ge_repr :: "json \<Rightarrow> string"
  ge_encode :: "jobj \<Rightarrow> string"
  ge_decode :: "int \<Rightarrow> string \<Rightarrow> jwt_result"
  ge_preview :: "(string \<Rightarrow> string \<Rightarrow> jobj option option) option"
  ge_policy :: "'s policy_env option"
  ge_audit :: bool

record 's approval_state =
  aw_policy :: "'s policy_state"
  aw_audit :: "audit_entry list"

section \<open>The gate store\<close>

definition gate_prefix :: "string \<Rightarrow> string" where
  "gate_prefix plan = ''gate:'' @ plan @ '':''"

definition gate_key :: "string \<Rightarrow> string \<Rightarrow> string" where
  "gate_key plan gate = gate_prefix plan @ gate"

definition consumed_key :: "string \<Rightarrow> string" where
  "consumed_key tid = ''consumed:'' @ tid"

definition jopt_obj :: "jobj option \<Rightarrow> json" where
  "jopt_obj x = (case x of None \<Rightarrow> JNull | Some d \<Rightarrow> JObj d)"

text \<open>The stored value; \<open>approved_at\<close> is the instant \<open>datetime.now\<close> gives.\<close>

definition gate_value :: "int \<Rightarrow> string \<Rightarrow> jobj option \<Rightarrow> jobj option \<Rightarrow> jobj \<Rightarrow> string \<Rightarrow> json" where
  "gate_value now tid prev opt claims jwt = JObj
     [(''status'', JStr ''approved''), (''token_id'', JStr tid), (''preview_state'', jopt_obj prev),
      (''selected_option'', jopt_obj opt), (''token_claims'', JObj claims), (''jwt_token'', JStr jwt),
      (''approved_at'', JInt now)]"

definition store_gate :: "'s approval_env \<Rightarrow> int \<Rightarrow> string \<Rightarrow> string \<Rightarrow> string \<Rightarrow> jobj option \<Rightarrow> jobj option \<Rightarrow>
    jobj \<Rightarrow> string \<Rightarrow> int \<Rightarrow> 's \<Rightarrow> bool \<times> 's" where
  "store_gate env now plan gate tid prev opt claims jwt ttl s =
     (case ge_redis env of None \<Rightarrow> (False, s)
      | Some rd \<Rightarrow> (case ge_dumps env (gate_value now tid prev opt claims jwt) of None \<Rightarrow> (False, s)
        | Some payload \<Rightarrow> (case rd_set rd now (gate_key plan gate) payload (Some ttl) False s of
              None \<Rightarrow> (False, s) | Some (_, s1) \<Rightarrow> (True, s1))))"

definition get_gate :: "'s approval_env \<Rightarrow> int \<Rightarrow> string \<Rightarrow> string \<Rightarrow> 's \<Rightarrow> json option" where
  "get_gate env now plan gate s =
     (case ge_redis env of None \<Rightarrow> None
      | Some rd \<Rightarrow> (case rd_get rd now (gate_key plan gate) s of
            Some (Some raw) \<Rightarrow> ge_loads env raw | _ \<Rightarrow> None))"

text \<open>\<open>gate_data.get("status", "pending")\<close>; a payload that is no object raises.\<close>

definition gate_status_of :: "json \<Rightarrow> approval_error + json" where
  "gate_status_of j = (case j of JObj d \<Rightarrow> Inr (jget d ''status'' (JStr ''pending'')) | _ \<Rightarrow> Inl Malformed_gate)"

primrec get_all_gates_from :: "'s approval_env \<Rightarrow> int \<Rightarrow> string \<Rightarrow> 's \<Rightarrow> string list \<Rightarrow> (string, json) dict \<Rightarrow>
    approval_error + (string, json) dict" where
  "get_all_gates_from env now plan s [] acc = Inr acc"
| "get_all_gates_from env now plan s (g # gs) acc =
     (case get_gate env now plan g s of
        None \<Rightarrow> get_all_gates_from env now plan s gs acc
      | Some JNull \<Rightarrow> get_all_gates_from env now plan s gs acc
      | Some j \<Rightarrow> bind_res (gate_status_of j) (\<lambda>st. get_all_gates_from env now plan s gs (dict_set g st acc)))"

definition get_all_gates :: "'s approval_env \<Rightarrow> int \<Rightarrow> string \<Rightarrow> string list \<Rightarrow> 's \<Rightarrow> approval_error + (string, json) dict" where
  "get_all_gates env now plan gates s =
     (if ge_redis env = None then Inr [] else get_all_gates_from env now plan s gates [])"

text \<open>The loop over the keys found: \<open>None\<close> is an exception, which the caller turns into \<open>{}\<close>.\<close>

primrec scan_gates :: "'s redis \<Rightarrow> (string \<Rightarrow> json option) \<Rightarrow> int \<Rightarrow> nat \<Rightarrow> 's \<Rightarrow> string list \<Rightarrow> (string, json) dict \<Rightarrow>
    (string, json) dict option" where
  "scan_gates rd loads now n s [] acc = Some acc"
| "scan_gates rd loads now n s (k # ks) acc =
     (case rd_get rd now k s of
        None \<Rightarrow> None
      | Some None \<Rightarrow> scan_gates rd loads now n s ks acc
      | Some (Some raw) \<Rightarrow> (case loads raw of
            Some (JObj d) \<Rightarrow> scan_gates rd loads now n s ks (dict_set (drop n k) (jget d ''status'' (JStr ''pending'')) acc)
          | _ \<Rightarrow> None))"

definition get_all_gates_by_prefix :: "'s approval_env \<Rightarrow> int \<Rightarrow> string \<Rightarrow> 's \<Rightarrow> (string, json) dict" where
  "get_all_gates_by_prefix env now plan s =
     (case ge_redis env of None \<Rightarrow> []
      | Some rd \<Rightarrow> (case rd_keys rd now (gate_prefix plan) s of None \<Rightarrow> []
        | Some ks \<Rightarrow> (case scan_gates rd (ge_loads env) now (length (gate_prefix plan)) s ks [] of
              None \<Rightarrow> [] | Some r \<Rightarrow> r)))"

definition mark_consumed :: "'s redis option \<Rightarrow> int \<Rightarrow> string \<Rightarrow> int \<Rightarrow> 's \<Rightarrow> bool \<times> 's" where
  "mark_consumed ro now tid ttl s =
     (case ro of None \<Rightarrow> (True, s)
      | Some rd \<Rightarrow> (case rd_set rd now (consumed_key tid) ''1'' (Some ttl) True s of
            None \<Rightarrow> (True, s) | Some (b, s1) \<Rightarrow> (b, s1)))"

definition is_consumed :: "'s redis option \<Rightarrow> int \<Rightarrow> string \<Rightarrow> 's \<Rightarrow> bool" where
  "is_consumed ro now tid s =
     (case ro of None \<Rightarrow> False
      | Some rd \<Rightarrow> (case rd_get rd now (consumed_key tid) s of Some (Some _) \<Rightarrow> True | _ \<Rightarrow> False))"

section \<open>Tokens\<close>

definition sign :: "'s approval_env \<Rightarrow> jobj \<Rightarrow> string" where
  "sign env claims = ge_encode env claims"

definition verify :: "'s approval_env \<Rightarrow> int \<Rightarrow> string \<Rightarrow> approval_error + jobj" where
  "verify env now token = (case ge_decode env now token of
       Jwt_claims c \<Rightarrow> Inr c | Jwt_expired \<Rightarrow> Inl Token_expired | Jwt_invalid \<Rightarrow> Inl Invalid_signature)"

section \<open>Approving\<close>

definition token_claims :: "approval_request \<Rightarrow> int \<Rightarrow> int \<Rightarrow> string \<Rightarrow> jobj" where
  "token_claims q now ttl tid =
     [(''plan_id'', JStr (ar_plan_id q)), (''user_id'', JStr (ar_user_id q)),
      (''gate_id'', JStr (ar_gate_id q)), (''scopes'', JArr (map JStr (ar_scopes q))),
      (''exp'', JInt ((now + ttl * sec) div sec)), (''iat'', JInt (now div sec)), (''token_id'', JStr tid)]"

text \<open>\<open>_build_token_from_stored\<close>: the claims are read with \<open>.get\<close>; a stored value of another type
  than the store writes raises in Pydantic or in \<open>fromtimestamp\<close>.\<close>

definition build_token_from_stored :: "jobj \<Rightarrow> approval_request \<Rightarrow> approval_error + approval_token" where
  "build_token_from_stored d q =
     (case (jget d ''token_claims'' (JObj []), jget d ''jwt_token'' (JStr ''''), jget d ''token_id'' (JStr '''')) of
        (JObj c, JStr jwt, JStr tid) \<Rightarrow>
          (case (jget c ''exp'' (JInt 0), jget c ''iat'' (JInt 0)) of
             (JInt e, JInt i) \<Rightarrow> Inr \<lparr>at_token = jwt, at_plan_id = ar_plan_id q, at_user_id = ar_user_id q,
                at_gate_id = ar_gate_id q, at_scopes = ar_scopes q, at_exp = e * sec, at_iat = i * sec,
                at_token_id = tid\<rparr>
           | _ \<Rightarrow> Inl Malformed_gate)
      | _ \<Rightarrow> Inl Malformed_gate)"

definition bound_preview :: "'s approval_env \<Rightarrow> approval_request \<Rightarrow> jobj option" where
  "bound_preview env q = (case ge_preview env of None \<Rightarrow> None
     | Some f \<Rightarrow> (case f (ar_plan_id q) (ar_user_id q) of Some (Some st) \<Rightarrow> Some st | _ \<Rightarrow> None))"

definition learn_step :: "'s approval_env \<Rightarrow> int \<Rightarrow> approval_request \<Rightarrow> 's policy_state \<Rightarrow> 's policy_state" where
  "learn_step env now q ps =
     (case (ar_policy_matched q, ar_role q, ar_tool q, ge_policy env) of
        (False, Some rl, Some tool, Some penv) \<Rightarrow>
          if rl \<noteq> [] \<and> tool \<noteq> [] then snd (learn_from_approval penv now rl tool 3 8192 ps) else ps
      | _ \<Rightarrow> ps)"

definition emit_audit :: "'s approval_env \<Rightarrow> audit_entry \<Rightarrow> 's approval_state \<Rightarrow> 's approval_state" where
  "emit_audit env e w = (if ge_audit env then w \<lparr>aw_audit := aw_audit w @ [e]\<rparr> else w)"

definition issue_token :: "'s approval_env \<Rightarrow> int \<Rightarrow> string \<Rightarrow> approval_request \<Rightarrow> 's approval_state \<Rightarrow>
    approval_token \<times> 's approval_state" where
  "issue_token env now tid q w =
     (let ttl = ge_ttl env; claims = token_claims q now ttl tid; jwt = sign env claims;
          stored = store_gate env now (ar_plan_id q) (ar_gate_id q) tid (bound_preview env q)
            (ar_selected_option q) claims jwt ttl (pe_redis (aw_policy w));
          ps = learn_step env now q ((aw_policy w) \<lparr>pe_redis := snd stored\<rparr>);
          tok = \<lparr>at_token = jwt, at_plan_id = ar_plan_id q, at_user_id = ar_user_id q,
            at_gate_id = ar_gate_id q, at_scopes = ar_scopes q, at_exp = now + ttl * sec, at_iat = now,
            at_token_id = tid\<rparr>;
          entry = \<lparr>ae_event = ''approval_granted'', ae_plan = ar_plan_id q, ae_user = ar_user_id q,
            ae_gate = ar_gate_id q, ae_scopes = ar_scopes q, ae_token_id = tid\<rparr>
      in (tok, emit_audit env entry (w \<lparr>aw_policy := ps\<rparr>)))"

definition approve :: "'s approval_env \<Rightarrow> int \<Rightarrow> string \<Rightarrow> approval_request \<Rightarrow> 's approval_state \<Rightarrow>
    (approval_error + approval_token) \<times> 's approval_state" where
  "approve env now tid q w =
     (if ar_scopes q = [] then (Inl Empty_scopes, w)
      else case get_gate env now (ar_plan_id q) (ar_gate_id q) (pe_redis (aw_policy w)) of
        Some (JObj d) \<Rightarrow>
          if d \<noteq> [] \<and> jget d ''status'' JNull = JStr ''approved''
          then (build_token_from_stored d q, w)
          else map_prod Inr id (issue_token env now tid q w)
      | Some j \<Rightarrow> if truthy j then (Inl Malformed_gate, w) else map_prod Inr id (issue_token env now tid q w)
      | None \<Rightarrow> map_prod Inr id (issue_token env now tid q w))"

section \<open>Validating\<close>

text \<open>Steps 1 to 3 of \<open>validate_token\<close>, then the token id that steps 4 and 5 look up.\<close>

definition check_claims :: "'s approval_env \<Rightarrow> int \<Rightarrow> string \<Rightarrow> string \<Rightarrow> string option \<Rightarrow> approval_error + (jobj \<times> string)" where
  "check_claims env now token plan gate =
     bind_res (verify env now token) (\<lambda>c.
       case dict_get c ''plan_id'' of
         None \<Rightarrow> Inl Missing_claim
       | Some p \<Rightarrow>
           if p \<noteq> JStr plan then Inl Plan_id_mismatch
           else if gate \<noteq> None \<and> Some (jget c ''gate_id'' JNull) \<noteq> map_option JStr gate then Inl Gate_id_mismatch
           else (case dict_get c ''token_id'' of
               None \<Rightarrow> Inl Missing_claim
             | Some t \<Rightarrow> Inr (c, fstring (ge_repr env) t)))"

text \<open>The call runs its three awaits at instants \<open>t0\<close>, \<open>t1\<close> and \<open>t2\<close>.\<close>

definition validate_token :: "'s approval_env \<Rightarrow> int \<Rightarrow> int \<Rightarrow> int \<Rightarrow> string \<Rightarrow> string \<Rightarrow> string option \<Rightarrow> 's \<Rightarrow>
    (approval_error + jobj) \<times> 's" where
  "validate_token env t0 t1 t2 token plan gate s =
     (case check_claims env t0 token plan gate of
        Inl e \<Rightarrow> (Inl e, s)
      | Inr (c, tid) \<Rightarrow>
          if is_consumed (ge_redis env) t1 tid s then (Inl Token_consumed, s)
          else (case mark_consumed (ge_redis env) t2 tid (ge_ttl env) s of
              (True, s1) \<Rightarrow> (Inr c, s1)
            | (False, s1) \<Rightarrow> (Inl Token_consumed, s1)))"

section \<open>Queries and construction\<close>

definition get_gate_status :: "'s approval_env \<Rightarrow> int \<Rightarrow> string \<Rightarrow> 's \<Rightarrow> (string, json) dict" where
  "get_gate_status env now plan s = get_all_gates_by_prefix env now plan s"

definition parse_gate_status :: "json \<Rightarrow> gate_status option" where
  "parse_gate_status j =
     (if j = JStr ''approved'' then Some Gate_approved else if j = JStr ''pending'' then Some Gate_pending
      else if j = JStr ''expired'' then Some Gate_expired else None)"

definition get_approval_state :: "'s approval_env \<Rightarrow> int \<Rightarrow> string \<Rightarrow> string \<Rightarrow> 's \<Rightarrow> approval_error + approval_view option" where
  "get_approval_state env now plan gate s =
     (case get_gate env now plan gate s of
        None \<Rightarrow> Inr None
      | Some JNull \<Rightarrow> Inr None
      | Some (JObj d) \<Rightarrow>
          (case (parse_gate_status (jget d ''status'' (JStr ''pending'')), jget d ''token_claims'' (JObj [])) of
             (Some st, JObj c) \<Rightarrow>
               if length plan = 26
               then Inr (Some \<lparr>av_plan_id = plan, av_gate_id = gate, av_status = st, av_token_claims = c,
                  av_preview_state = jget d ''preview_state'' JNull,
                  av_selected_option = jget d ''selected_option'' JNull,
                  av_approved_at = jget d ''approved_at'' (JStr '''')\<rparr>)
               else Inl Malformed_gate
           | _ \<Rightarrow> Inl Malformed_gate)
      | Some _ \<Rightarrow> Inl Malformed_gate)"

text \<open>The secret comes from the environment, or from the argument when that is unset or empty.\<close>

definition check_secret :: "string \<Rightarrow> string \<Rightarrow> approval_error + string" where
  "check_secret env_secret jwt_secret =
     (let secret = (if env_secret = [] then jwt_secret else env_secret) in
      if secret = [] then Inl Secret_missing
      else if length secret < 16 then Inl (Secret_too_short (length secret)) else Inr secret)"

section \<open>Keys\<close>

lemma keys_apart [simp]:
  "consumed_key t \<noteq> gate_key p g" "gate_key p g \<noteq> consumed_key t"
  "policy_cache_key pid v \<noteq> gate_key p g" "gate_key p g \<noteq> policy_cache_key pid v"
  "policy_cache_key pid v \<noteq> consumed_key t" "consumed_key t \<noteq> policy_cache_key pid v"
  by (simp_all add: consumed_key_def gate_key_def gate_prefix_def policy_cache_key_def)

section \<open>Single use\<close>

text \<open>
  Any number of concurrent \<open>validate_token\<close> calls for one token, interleaved: every call first
  looks the token up, later marks it. Time passes, and other clients change Redis without touching
  the token's key (\<open>quiet\<close>).
\<close>

datatype vphase = Waiting | Checked | Accepted int | Refused

record 's vsys =
  vs_now :: int
  vs_store :: 's
  vs_phase :: "nat \<Rightarrow> vphase"

inductive vstep ::
  "(int \<Rightarrow> 's \<Rightarrow> bool) \<Rightarrow> (int \<Rightarrow> 's \<Rightarrow> bool \<times> 's) \<Rightarrow> (int \<Rightarrow> 's \<Rightarrow> 's \<Rightarrow> bool) \<Rightarrow> 's vsys \<Rightarrow> 's vsys \<Rightarrow> bool"
  for check mark quiet where
  tick: "0 \<le> d \<Longrightarrow> vstep check mark quiet c (c \<lparr>vs_now := vs_now c + d\<rparr>)"
| other: "quiet (vs_now c) (vs_store c) s' \<Longrightarrow> vstep check mark quiet c (c \<lparr>vs_store := s'\<rparr>)"
| look: "vs_phase c i = Waiting \<Longrightarrow>
    vstep check mark quiet c
      (c \<lparr>vs_phase := (vs_phase c)(i := if check (vs_now c) (vs_store c) then Refused else Checked)\<rparr>)"
| claim: "vs_phase c i = Checked \<Longrightarrow> mark (vs_now c) (vs_store c) = (b, s') \<Longrightarrow>
    vstep check mark quiet c
      (c \<lparr>vs_store := s', vs_phase := (vs_phase c)(i := if b then Accepted (vs_now c) else Refused)\<rparr>)"

inductive_cases vstepE: "vstep check mark quiet c c'"

definition vstart :: "'s vsys \<Rightarrow> bool" where
  "vstart c \<longleftrightarrow> (\<forall>i. vs_phase c i = Waiting)"

text \<open>What the validators need of the ledger of used tokens.\<close>

locale single_use_ledger =
  fixes seen :: "int \<Rightarrow> 's \<Rightarrow> bool"
    and mark :: "int \<Rightarrow> 's \<Rightarrow> bool \<times> 's"
    and quiet :: "int \<Rightarrow> 's \<Rightarrow> 's \<Rightarrow> bool"
    and hold :: int
  assumes mark_fresh: "mark t s = (True, s') \<Longrightarrow> \<not> seen t s"
    and mark_holds: "mark t s = (True, s') \<Longrightarrow> t \<le> t' \<Longrightarrow> t' < t + hold \<Longrightarrow> seen t' s'"
    and mark_keeps: "mark t s = (b, s') \<Longrightarrow> t \<le> t' \<Longrightarrow> seen t' s \<Longrightarrow> seen t' s'"
    and quiet_keeps: "quiet t s s' \<Longrightarrow> t \<le> t' \<Longrightarrow> seen t' s \<Longrightarrow> seen t' s'"
begin

definition ledger_inv :: "'s vsys \<Rightarrow> bool" where
  "ledger_inv c \<longleftrightarrow>
     (\<forall>i a. vs_phase c i = Accepted a \<longrightarrow> a \<le> vs_now c \<and>
        (\<forall>t. vs_now c \<le> t \<and> t < a + hold \<longrightarrow> seen t (vs_store c))) \<and>
     (\<forall>i j a b. vs_phase c i = Accepted a \<longrightarrow> vs_phase c j = Accepted b \<longrightarrow> i \<noteq> j \<longrightarrow>
        a + hold \<le> b \<or> b + hold \<le> a)"

lemma ledger_inv_start: "vstart c \<Longrightarrow> ledger_inv c"
  by (simp add: ledger_inv_def vstart_def)

lemma ledger_inv_acceptedD:
  "ledger_inv c \<Longrightarrow> vs_phase c i = Accepted a \<Longrightarrow>
     a \<le> vs_now c \<and> (\<forall>t. vs_now c \<le> t \<and> t < a + hold \<longrightarrow> seen t (vs_store c))"
  by (simp add: ledger_inv_def)

lemma ledger_inv_claim:
  assumes inv: "ledger_inv c" and m: "mark (vs_now c) (vs_store c) = (b, s')"
    and ph: "\<not> b \<Longrightarrow> \<forall>a. p \<noteq> Accepted a" "b \<Longrightarrow> p = Accepted (vs_now c)"
  shows "ledger_inv (c \<lparr>vs_store := s', vs_phase := (vs_phase c)(i := p)\<rparr>)"
proof -
  have late: "a + hold \<le> vs_now c" if "b" "vs_phase c j = Accepted a" for j a
  proof (rule ccontr)
    assume "\<not> a + hold \<le> vs_now c"
    then have "seen (vs_now c) (vs_store c)" using ledger_inv_acceptedD [OF inv that(2)] by simp
    with mark_fresh m that(1) show False by auto
  qed
  have keeps: "seen t s'" if "vs_now c \<le> t" "seen t (vs_store c)" for t
    using mark_keeps [OF m] that by blast
  have holds: "seen t s'" if "b" "vs_now c \<le> t" "t < vs_now c + hold" for t
    using mark_holds m that by auto
  have old: "a \<le> vs_now c \<and> (\<forall>t. vs_now c \<le> t \<and> t < a + hold \<longrightarrow> seen t s')"
    if "((vs_phase c)(i := p)) j = Accepted a" for j a
    using that ledger_inv_acceptedD [OF inv] keeps holds ph by (cases b) (auto split: if_splits)
  have apart: "a + hold \<le> a' \<or> a' + hold \<le> a"
    if "((vs_phase c)(i := p)) j = Accepted a" "((vs_phase c)(i := p)) k = Accepted a'" "j \<noteq> k" for j k a a'
    using that late ph inv unfolding ledger_inv_def by (cases b) (auto split: if_splits)
  show ?thesis using old apart by (simp add: ledger_inv_def)
qed

lemma ledger_inv_step: "vstep check mark quiet c c' \<Longrightarrow> ledger_inv c \<Longrightarrow> ledger_inv c'"
proof (induction rule: vstep.induct)
  case (tick d c)
  then show ?case by (fastforce simp: ledger_inv_def)
next
  case (other c s')
  then show ?case using quiet_keeps [OF other(1)] by (simp add: ledger_inv_def)
next
  case (look c i)
  then show ?case by (simp add: ledger_inv_def)
next
  case (claim c i b s')
  then show ?case by (intro ledger_inv_claim) auto
qed

lemma accepted_apart:
  assumes "(vstep check mark quiet)\<^sup>*\<^sup>* c c'" and "vstart c"
    and "vs_phase c' i = Accepted a" and "vs_phase c' j = Accepted b" and "i \<noteq> j"
  shows "a + hold \<le> b \<or> b + hold \<le> a"
proof -
  have "ledger_inv c'"
    using assms(1) by (induction rule: rtranclp_induct) (auto intro: ledger_inv_start assms(2) ledger_inv_step)
  with assms(3-5) show ?thesis unfolding ledger_inv_def by blast
qed

end

text \<open>The gate store provides such a ledger whenever Redis answers the \<open>SET NX\<close>.\<close>

definition key_quiet :: "('s \<Rightarrow> int \<Rightarrow> string \<Rightarrow> rval option) \<Rightarrow> string \<Rightarrow> int \<Rightarrow> 's \<Rightarrow> 's \<Rightarrow> bool" where
  "key_quiet lk k t s s' \<longleftrightarrow> (\<forall>t'. t \<le> t' \<longrightarrow> lk s' t' k = lk s t' k)"

definition nx_answers :: "'s redis \<Rightarrow> string \<Rightarrow> int \<Rightarrow> bool" where
  "nx_answers rd k ttl \<longleftrightarrow> (\<forall>t s. rd_set rd t k ''1'' (Some ttl) True s \<noteq> None)"

locale gate_ledger = redis_store rd lk
  for rd :: "'s redis" and lk :: "'s \<Rightarrow> int \<Rightarrow> string \<Rightarrow> rval option" +
  fixes tid :: string and ttl :: int
  assumes answers: "nx_answers rd (consumed_key tid) ttl"
begin

lemma mark_consumed_set:
  "mark_consumed (Some rd) t tid ttl s = (b, s') \<Longrightarrow>
   rd_set rd t (consumed_key tid) ''1'' (Some ttl) True s = Some (b, s')"
  using answers [unfolded nx_answers_def, rule_format, of t s]
  by (cases "rd_set rd t (consumed_key tid) ''1'' (Some ttl) True s") (auto simp: mark_consumed_def)

end

sublocale gate_ledger \<subseteq> single_use_ledger "\<lambda>t s. lk s t (consumed_key tid) \<noteq> None"
  "\<lambda>t s. mark_consumed (Some rd) t tid ttl s" "key_quiet lk (consumed_key tid)" "ttl * sec"
proof (unfold_locales, goal_cases)
  case (1 t s s')
  show ?case using set_nx_fresh [OF mark_consumed_set [OF 1]] by simp
next
  case (2 t s s' t')
  show ?case using set_own [OF mark_consumed_set [OF 2(1)] 2(2)] 2(3) by (simp add: alive_def)
next
  case (3 t s b s' t')
  then show ?case
    using set_law [OF mark_consumed_set [OF 3(1)]] ageing_law [OF 3(2)] by (auto simp: alive_def)
next
  case (4 t s s' t')
  then show ?case by (simp add: key_quiet_def)
qed

context gate_ledger begin

lemmas validations_apart = accepted_apart

end

interpretation mem_gates: gate_ledger mem_redis mem_lookup tid ttl for tid ttl
  by unfold_locales (auto simp: nx_answers_def mem_redis_def)

text \<open>C32. A token is used at most once per lifetime. However many \<open>validate_token\<close> calls run
  concurrently, and however their two Redis commands interleave with each other and with other
  clients, two of them that accept the same token accept it at least a full token lifetime apart,
  as long as Redis answers.\<close>

theorem concurrent_single_use:
  assumes "redis_store rd lk" and "nx_answers rd (consumed_key tid) ttl"
    and "(vstep (\<lambda>t. is_consumed (Some rd) t tid) (\<lambda>t. mark_consumed (Some rd) t tid ttl)
            (key_quiet lk (consumed_key tid)))\<^sup>*\<^sup>* c c'"
    and "vstart c" and "vs_phase c' i = Accepted a" and "vs_phase c' j = Accepted b" and "i \<noteq> j"
  shows "a + ttl * sec \<le> b \<or> b + ttl * sec \<le> a"
proof -
  have "gate_ledger rd lk tid ttl"
    using assms(1,2) by (simp add: gate_ledger_def gate_ledger_axioms_def)
  from gate_ledger.validations_apart [OF this assms(3-7)] show ?thesis .
qed

definition two_waiting :: "mem vsys" where
  "two_waiting = \<lparr>vs_now = 0, vs_store = [], vs_phase = \<lambda>_. Waiting\<rparr>"

definition one_accepted :: "mem vsys" where
  "one_accepted = \<lparr>vs_now = 0, vs_store = [(consumed_key ''T'', (RStr ''1'', Some (900 * sec)))],
     vs_phase = (\<lambda>_. Waiting)(0 := Checked, 1 := Checked, 0 := Accepted 0)\<rparr>"

lemma race_reaches:
  "(vstep (\<lambda>t. is_consumed (Some mem_redis) t ''T'') (\<lambda>t. mark_consumed (Some mem_redis) t ''T'' 900)
      (key_quiet mem_lookup (consumed_key ''T'')))\<^sup>*\<^sup>* two_waiting one_accepted"
  (is "?V\<^sup>*\<^sup>* _ _")
proof -
  let ?c1 = "two_waiting \<lparr>vs_phase := (\<lambda>_. Waiting)(0 := Checked)\<rparr>"
  let ?c2 = "two_waiting \<lparr>vs_phase := (\<lambda>_. Waiting)(0 := Checked, 1 := Checked)\<rparr>"
  have fresh: "\<not> is_consumed (Some mem_redis) 0 ''T'' []"
    by (simp add: is_consumed_def mem_redis_def mem_lookup_def)
  have s1: "?V two_waiting ?c1"
    using vstep.look [of two_waiting 0 "\<lambda>t. is_consumed (Some mem_redis) t ''T''"] fresh
    by (simp add: two_waiting_def)
  have s2: "?V ?c1 ?c2"
    using vstep.look [of ?c1 1 "\<lambda>t. is_consumed (Some mem_redis) t ''T''"] fresh
    by (simp add: two_waiting_def)
  have m: "mark_consumed (Some mem_redis) (vs_now ?c2) ''T'' 900 (vs_store ?c2) =
      (True, [(consumed_key ''T'', (RStr ''1'', Some (900 * sec)))])"
    by (simp add: mark_consumed_def mem_redis_def mem_lookup_def two_waiting_def)
  have p: "vs_phase ?c2 0 = Checked" by simp
  have s3: "?V ?c2 one_accepted"
    using vstep.claim [OF p, of "\<lambda>t. mark_consumed (Some mem_redis) t ''T'' 900", OF m]
    by (simp add: one_accepted_def two_waiting_def)
  from s1 s2 s3 show ?thesis by (meson converse_rtranclp_into_rtranclp rtranclp.rtrancl_refl)
qed

theorem concurrent_single_use_witness:
  "\<exists>c'. (vstep (\<lambda>t. is_consumed (Some mem_redis) t ''T'') (\<lambda>t. mark_consumed (Some mem_redis) t ''T'' 900)
      (key_quiet mem_lookup (consumed_key ''T'')))\<^sup>*\<^sup>* two_waiting c' \<and> vs_phase c' 0 = Accepted 0 \<and>
     vs_phase c' 1 \<noteq> Accepted 0"
proof -
  have start: "vstart two_waiting" by (simp add: vstart_def two_waiting_def)
  have a0: "vs_phase one_accepted 0 = Accepted 0" by (simp add: one_accepted_def)
  have "\<not> vs_phase one_accepted 1 = Accepted 0"
    using concurrent_single_use [OF mem_store.redis_store_axioms mem_gates.answers race_reaches start a0, of 1 0]
    by (auto simp: sec_def)
  with race_reaches a0 show ?thesis by blast
qed

section \<open>Issued tokens\<close>

definition jwt_roundtrip :: "'s approval_env \<Rightarrow> jobj \<Rightarrow> bool" where
  "jwt_roundtrip env c \<longleftrightarrow> (\<forall>now e. dict_get c ''exp'' = Some (JInt e) \<longrightarrow>
     ge_decode env now (ge_encode env c) = (if e < now div sec then Jwt_expired else Jwt_claims c))"

lemma token_claims_get [simp]:
  "dict_get (token_claims q now ttl tid) ''plan_id'' = Some (JStr (ar_plan_id q))"
  "dict_get (token_claims q now ttl tid) ''gate_id'' = Some (JStr (ar_gate_id q))"
  "dict_get (token_claims q now ttl tid) ''token_id'' = Some (JStr tid)"
  "dict_get (token_claims q now ttl tid) ''exp'' = Some (JInt ((now + ttl * sec) div sec))"
  by (simp_all add: token_claims_def)

lemma issue_token_fields [simp]:
  "at_token (fst (issue_token env now tid q w)) = ge_encode env (token_claims q now (ge_ttl env) tid)"
  "at_token_id (fst (issue_token env now tid q w)) = tid"
  by (simp_all add: issue_token_def Let_def sign_def)

lemma approve_fresh:
  "ar_scopes q \<noteq> [] \<Longrightarrow> get_gate env now (ar_plan_id q) (ar_gate_id q) (pe_redis (aw_policy w)) = None \<Longrightarrow>
   approve env now tid q w = map_prod Inr id (issue_token env now tid q w)"
  by (simp add: approve_def)

lemma check_own_claims:
  assumes "jwt_roundtrip env (token_claims q now ttl tid)" and "gate = None \<or> gate = Some (ar_gate_id q)"
  shows "check_claims env t (ge_encode env (token_claims q now ttl tid)) (ar_plan_id q) gate =
     (if (now + ttl * sec) div sec < t div sec then Inl Token_expired
      else Inr (token_claims q now ttl tid, tid))"
proof -
  have "ge_decode env t (ge_encode env (token_claims q now ttl tid)) =
      (if (now + ttl * sec) div sec < t div sec then Jwt_expired else Jwt_claims (token_claims q now ttl tid))"
    using assms(1) by (simp add: jwt_roundtrip_def)
  then show ?thesis using assms(2) by (auto simp: check_claims_def verify_def jget_def)
qed

lemma consumed_seen:
  assumes "redis_store rd lk" and "lk s t (consumed_key tid) \<noteq> None" and "rd_get rd t (consumed_key tid) s \<noteq> None"
  shows "is_consumed (Some rd) t tid s"
proof -
  obtain r where r: "rd_get rd t (consumed_key tid) s = Some r" using assms(3) by auto
  with redis_store.get_law [OF assms(1) r] assms(2) show ?thesis
    by (auto simp: is_consumed_def split: option.splits)
qed

lemma not_consumed:
  assumes "redis_store rd lk" and "lk s t (consumed_key tid) = None"
  shows "\<not> is_consumed (Some rd) t tid s"
  using redis_store.get_missing [OF assms] by (auto simp: is_consumed_def)

text \<open>C33. An issued token works, once. The token \<open>approve\<close> returns for a fresh gate passes
  \<open>validate_token\<close> for its plan and gate, until it expires, and yields the claims of the request;
  every later validation within the lifetime that follows is refused, as consumed or as expired. Assumed: Redis keeps its
  laws and answers the commands on the consumed marker (when it does not, the code accepts a token again), the JWT
  library decodes what it encoded, and the gate has no token yet.\<close>

theorem issued_token_valid_once:
  assumes "approve env now tid q w = (Inr tok, w')"
    and "get_gate env now (ar_plan_id q) (ar_gate_id q) (pe_redis (aw_policy w)) = None"
    and "jwt_roundtrip env (token_claims q now (ge_ttl env) tid)"
    and "redis_store rd lk" and "ge_redis env = Some rd" and "nx_answers rd (consumed_key tid) (ge_ttl env)"
    and "t0 div sec \<le> (now + ge_ttl env * sec) div sec" and "t1 \<le> t2"
    and "lk s t1 (consumed_key tid) = None"
    and "gate = None \<or> gate = Some (ar_gate_id q)"
  shows "\<exists>s1. validate_token env t0 t1 t2 (at_token tok) (ar_plan_id q) gate s =
       (Inr (token_claims q now (ge_ttl env) tid), s1) \<and>
     (\<forall>u0 u1 u2. t2 \<le> u1 \<longrightarrow> u1 < t2 + ge_ttl env * sec \<longrightarrow> rd_get rd u1 (consumed_key tid) s1 \<noteq> None \<longrightarrow>
        fst (validate_token env u0 u1 u2 (at_token tok) (ar_plan_id q) gate s1) \<in> {Inl Token_consumed, Inl Token_expired})"
proof -
  have "ar_scopes q \<noteq> []" using assms(1) by (auto simp: approve_def split: if_splits)
  then have tok: "at_token tok = ge_encode env (token_claims q now (ge_ttl env) tid)"
    using approve_fresh [OF _ assms(2), of tid] assms(1) issue_token_fields(1) [of env now tid q w]
    by (cases "issue_token env now tid q w") simp
  note own = check_own_claims [OF assms(3,10), folded tok]
  obtain b s1 where set: "rd_set rd t2 (consumed_key tid) ''1'' (Some (ge_ttl env)) True s = Some (b, s1)"
    using assms(6) unfolding nx_answers_def by fast
  have b: "b"
    using redis_store.set_law [OF assms(4) set] redis_store.gone_stays [OF assms(4,8,9)] by simp
  have first: "validate_token env t0 t1 t2 (at_token tok) (ar_plan_id q) gate s =
      (Inr (token_claims q now (ge_ttl env) tid), s1)"
    using own [of t0] assms(5,7) not_consumed [OF assms(4,9)] set b
    by (simp add: validate_token_def mark_consumed_def)
  have later: "fst (validate_token env u0 u1 u2 (at_token tok) (ar_plan_id q) gate s1) \<in> {Inl Token_consumed, Inl Token_expired}"
    if u: "t2 \<le> u1" "u1 < t2 + ge_ttl env * sec" "rd_get rd u1 (consumed_key tid) s1 \<noteq> None" for u0 u1 u2
  proof -
    have "lk s1 u1 (consumed_key tid) = Some (RStr ''1'')"
      using redis_store.set_own [OF assms(4) set [unfolded eqTrueI [OF b]] u(1)] u(2) by (simp add: alive_def)
    then have "is_consumed (Some rd) u1 tid s1" using consumed_seen [OF assms(4) _ u(3)] by simp
    then show ?thesis using own [of u0] assms(5) by (simp add: validate_token_def)
  qed
  from first later show ?thesis by blast
qed

text \<open>An environment on the in-memory Redis, in which the one token \<open>''jwt''\<close> of half past zero
  seconds is known.\<close>

definition gate_request :: approval_request where
  "gate_request = \<lparr>ar_plan_id = replicate 26 CHR ''P'', ar_user_id = ''u'', ar_gate_id = ''gate-A'',
     ar_scopes = [''calendar''], ar_selected_option = None, ar_trace_id = [], ar_policy_matched = True,
     ar_role = None, ar_tool = None\<rparr>"

definition gate_claims :: jobj where
  "gate_claims = token_claims gate_request 500000 900 ''T''"

definition gate_env :: "mem approval_env" where
  "gate_env = \<lparr>ge_redis = Some mem_redis, ge_ttl = 900, ge_dumps = (\<lambda>_. Some ''gate''),
     ge_loads = (\<lambda>_. Some (gate_value 500000 ''T'' None None gate_claims ''jwt'')), ge_repr = (\<lambda>_. []),
     ge_encode = (\<lambda>_. ''jwt''),
     ge_decode = (\<lambda>now _. if 900 < now div sec then Jwt_expired else Jwt_claims gate_claims),
     ge_preview = None, ge_policy = None, ge_audit = False\<rparr>"

definition gate_world :: "mem approval_state" where
  "gate_world = \<lparr>aw_policy = empty_state, aw_audit = []\<rparr>"

lemma gate_env_simps [simp]:
  "ge_redis gate_env = Some mem_redis" "ge_ttl gate_env = 900" "ge_encode gate_env c = ''jwt''"
  "ge_decode gate_env now x = (if 900 < now div sec then Jwt_expired else Jwt_claims gate_claims)"
  "ge_preview gate_env = None" "ge_policy gate_env = None" "ge_audit gate_env = False"
  "ge_dumps gate_env j = Some ''gate''"
  "ge_loads gate_env x = Some (gate_value 500000 ''T'' None None gate_claims ''jwt'')"
  by (simp_all add: gate_env_def)

lemma gate_jwt: "jwt_roundtrip gate_env (token_claims gate_request 500000 900 ''T'')"
  by (auto simp: jwt_roundtrip_def gate_claims_def sec_def)

lemma gate_approves:
  "\<exists>tok w'. approve gate_env 500000 ''T'' gate_request gate_world = (Inr tok, w')"
  "get_gate gate_env 500000 (ar_plan_id gate_request) (ar_gate_id gate_request) (pe_redis (aw_policy gate_world)) = None"
proof -
  show g: "get_gate gate_env 500000 (ar_plan_id gate_request) (ar_gate_id gate_request) (pe_redis (aw_policy gate_world)) = None"
    by (simp add: get_gate_def gate_world_def empty_state_def mem_redis_def mem_lookup_def)
  have "ar_scopes gate_request \<noteq> []" by (simp add: gate_request_def)
  from approve_fresh [OF this g, of "''T''"]
  show "\<exists>tok w'. approve gate_env 500000 ''T'' gate_request gate_world = (Inr tok, w')"
    by (cases "issue_token gate_env 500000 ''T'' gate_request gate_world") simp
qed

theorem issued_token_valid_once_witness:
  "\<exists>tok w' s1. approve gate_env 500000 ''T'' gate_request gate_world = (Inr tok, w') \<and>
     validate_token gate_env 600000 600000 600000 (at_token tok) (ar_plan_id gate_request) None [] =
       (Inr gate_claims, s1)"
proof -
  obtain tok w' where a: "approve gate_env 500000 ''T'' gate_request gate_world = (Inr tok, w')"
    using gate_approves(1) by blast
  have "nx_answers mem_redis (consumed_key ''T'') (ge_ttl gate_env)" using mem_gates.answers by simp
  moreover have "jwt_roundtrip gate_env (token_claims gate_request 500000 (ge_ttl gate_env) ''T'')"
    using gate_jwt by simp
  ultimately show ?thesis
    using issued_token_valid_once [OF a gate_approves(2) _ mem_store.redis_store_axioms, of 600000 600000 600000 "[]" None] a
    by (auto simp: sec_def mem_lookup_def gate_claims_def)
qed

text \<open>Single use lapses at the edge of the lifetime: the marker of a used token lives for the
  token lifetime from its use, while the token itself stays valid through the second in which it
  expires. A token issued at 0.5 s with a lifetime of 900 s and used at 0.6 s is accepted again at
  900.7 s, with Redis answering throughout.\<close>

theorem replay_after_marker_expires:
  "\<exists>s1 s2. validate_token gate_env 600000 600000 600000 ''jwt'' (ar_plan_id gate_request) None [] = (Inr gate_claims, s1) \<and>
     validate_token gate_env 900700000 900700000 900700000 ''jwt'' (ar_plan_id gate_request) None s1 = (Inr gate_claims, s2)"
proof -
  have chk: "check_claims gate_env t ''jwt'' (ar_plan_id gate_request) None = Inr (gate_claims, ''T'')"
    if "t div sec \<le> 900" for t
    using check_own_claims [OF gate_jwt, of None t] that by (simp add: gate_claims_def sec_def)
  show ?thesis
    using chk [of 600000] chk [of 900700000]
    by (simp add: validate_token_def is_consumed_def mark_consumed_def mem_redis_def sec_def)
      (simp add: mem_lookup_def)
qed

section \<open>Approving again\<close>

lemma learn_step_keeps:
  assumes "redis_store rd lk" and "\<And>penv. ge_policy env = Some penv \<Longrightarrow> pv_redis penv = Some rd \<or> pv_redis penv = None"
    and "now \<le> t"
  shows "lk (pe_redis (learn_step env now q ps)) t (gate_key p g) = lk (pe_redis ps) t (gate_key p g)"
proof -
  have inval: "lk (pe_redis (cache_invalidate penv now pid v s)) t (gate_key p g) = lk (pe_redis s) t (gate_key p g)"
    if "pv_redis penv = Some rd \<or> pv_redis penv = None" for penv :: "'a policy_env" and pid v s
    using that redis_store.del_law [OF assms(1)] assms(3)
    by (fastforce simp: cache_invalidate_def split: option.splits)
  have store: "pe_redis (snd (store_policy now r s)) = pe_redis s" for r and s :: "'a policy_state"
    by (simp add: store_policy_def Let_def)
  have create: "lk (pe_redis (snd (create_policy penv now r s))) t (gate_key p g) = lk (pe_redis s) t (gate_key p g)"
    if "pv_redis penv = Some rd \<or> pv_redis penv = None" for penv :: "'a policy_env" and r s
    using inval [OF that] store [of "db_of_rule r" s]
    by (cases "store_policy now (db_of_rule r) s"; cases "fst (store_policy now (db_of_rule r) s)")
      (simp_all add: create_policy_def)
  show ?thesis
    using create assms(2)
    by (auto simp: learn_step_def learn_from_approval_def split: option.splits bool.splits)
qed

lemma build_own_gate:
  "build_token_from_stored
     [(''status'', JStr ''approved''), (''token_id'', JStr tid), (''preview_state'', pv),
      (''selected_option'', so), (''token_claims'', JObj (token_claims q now ttl tid)),
      (''jwt_token'', JStr jwt), (''approved_at'', ap)] q2 =
   Inr \<lparr>at_token = jwt, at_plan_id = ar_plan_id q2, at_user_id = ar_user_id q2, at_gate_id = ar_gate_id q2,
     at_scopes = ar_scopes q2, at_exp = (now + ttl * sec) div sec * sec, at_iat = now div sec * sec,
     at_token_id = tid\<rparr>"
  by (simp add: build_token_from_stored_def jget_def token_claims_def)

text \<open>Approving an approved gate again returns the token issued first and changes nothing, while
  the gate is stored and Redis answers. The envelope repeats the new request, though: its user and
  scopes are those of the second request, while the signed token still carries the first ones.\<close>

theorem reapproval_idempotent:
  fixes env :: "'s approval_env"
  assumes "approve env now tid q w = (Inr tok, w')"
    and "get_gate env now (ar_plan_id q) (ar_gate_id q) (pe_redis (aw_policy w)) = None"
    and "redis_store rd lk" and "ge_redis env = Some rd"
    and "\<And>penv. ge_policy env = Some penv \<Longrightarrow> pv_redis penv = Some rd \<or> pv_redis penv = None"
    and "v = gate_value now tid (bound_preview env q) (ar_selected_option q)
           (token_claims q now (ge_ttl env) tid) (ge_encode env (token_claims q now (ge_ttl env) tid))"
    and "ge_dumps env v = Some x" and "ge_loads env x = Some v"
    and "rd_set rd now (gate_key (ar_plan_id q) (ar_gate_id q)) x (Some (ge_ttl env)) False
           (pe_redis (aw_policy w)) = Some (True, s1)"
    and "now \<le> t" and "t < now + ge_ttl env * sec"
    and "rd_get rd t (gate_key (ar_plan_id q) (ar_gate_id q)) (pe_redis (aw_policy w')) \<noteq> None"
    and "ar_plan_id q2 = ar_plan_id q" and "ar_gate_id q2 = ar_gate_id q" and "ar_scopes q2 \<noteq> []"
  shows "\<exists>tok2. approve env t tid2 q2 w' = (Inr tok2, w') \<and> at_token tok2 = at_token tok \<and>
     at_token_id tok2 = tid \<and> at_scopes tok2 = ar_scopes q2 \<and> at_user_id tok2 = ar_user_id q2"
proof -
  let ?key = "gate_key (ar_plan_id q) (ar_gate_id q)"
  have "ar_scopes q \<noteq> []" using assms(1) by (auto simp: approve_def split: if_splits)
  then have iss: "issue_token env now tid q w = (tok, w')"
    using approve_fresh [OF _ assms(2), of tid] assms(1) by (cases "issue_token env now tid q w") simp
  have red: "pe_redis (aw_policy w') = pe_redis (learn_step env now q ((aw_policy w) \<lparr>pe_redis := s1\<rparr>))"
    using iss assms(4,6,7,9) by (auto simp: issue_token_def Let_def store_gate_def sign_def emit_audit_def)
  have "lk s1 t ?key = Some (RStr x)"
    using redis_store.set_own [OF assms(3,9,10)] assms(11) by (simp add: alive_def)
  then have "lk (pe_redis (aw_policy w')) t ?key = Some (RStr x)"
    using learn_step_keeps [OF assms(3,5,10)] red by simp
  then have "get_gate env t (ar_plan_id q2) (ar_gate_id q2) (pe_redis (aw_policy w')) = Some v"
    using redis_store.get_present [OF assms(3)] assms(4,8,12,13,14) by (fastforce simp: get_gate_def)
  moreover have "at_token tok = ge_encode env (token_claims q now (ge_ttl env) tid)"
    using issue_token_fields(1) [of env now tid q w] iss by simp
  ultimately show ?thesis
    using assms(6,15) by (simp add: approve_def gate_value_def jget_def build_own_gate)
qed

theorem reapproval_idempotent_witness:
  "\<exists>tok w' tok2. approve gate_env 500000 ''T'' gate_request gate_world = (Inr tok, w') \<and>
     approve gate_env 600000 ''U'' (gate_request \<lparr>ar_scopes := [''mail'']\<rparr>) w' = (Inr tok2, w') \<and>
     at_token tok2 = at_token tok \<and> at_scopes tok2 = [''mail'']"
proof -
  obtain tok w' where a: "approve gate_env 500000 ''T'' gate_request gate_world = (Inr tok, w')"
    using gate_approves(1) by blast
  let ?s1 = "[(gate_key (ar_plan_id gate_request) (ar_gate_id gate_request), RStr ''gate'', Some (500000 + 900 * sec))]"
  have v: "gate_value 500000 ''T'' None None gate_claims ''jwt'' = gate_value 500000 ''T'' (bound_preview gate_env gate_request)
      (ar_selected_option gate_request) (token_claims gate_request 500000 (ge_ttl gate_env) ''T'')
      (ge_encode gate_env (token_claims gate_request 500000 (ge_ttl gate_env) ''T''))"
    by (simp add: bound_preview_def gate_request_def gate_claims_def)
  have set: "rd_set mem_redis 500000 (gate_key (ar_plan_id gate_request) (ar_gate_id gate_request)) ''gate''
      (Some (ge_ttl gate_env)) False (pe_redis (aw_policy gate_world)) = Some (True, ?s1)"
    by (simp add: mem_redis_def gate_world_def empty_state_def)
  have w': "pe_redis (aw_policy w') = ?s1"
  proof -
    have "ar_scopes gate_request \<noteq> []" by (simp add: gate_request_def)
    from approve_fresh [OF this gate_approves(2), of "''T''"] a
    have "w' = snd (issue_token gate_env 500000 ''T'' gate_request gate_world)"
      by (cases "issue_token gate_env 500000 ''T'' gate_request gate_world") simp
    then show ?thesis
      by (simp add: issue_token_def Let_def store_gate_def emit_audit_def learn_step_def mem_redis_def
          gate_world_def empty_state_def split: option.split bool.split)
  qed
  have rd: "rd_get mem_redis 600000 (gate_key (ar_plan_id gate_request) (ar_gate_id gate_request)) (pe_redis (aw_policy w')) \<noteq> None"
    by (simp add: w' mem_redis_def mem_lookup_def sec_def)
  have "\<exists>tok2. approve gate_env 600000 ''U'' (gate_request \<lparr>ar_scopes := [''mail'']\<rparr>) w' = (Inr tok2, w') \<and>
      at_token tok2 = at_token tok \<and> at_token_id tok2 = ''T'' \<and>
      at_scopes tok2 = ar_scopes (gate_request \<lparr>ar_scopes := [''mail'']\<rparr>) \<and>
      at_user_id tok2 = ar_user_id (gate_request \<lparr>ar_scopes := [''mail'']\<rparr>)"
    by (rule reapproval_idempotent [OF a gate_approves(2) mem_store.redis_store_axioms _ _ v _ _ set _ _ rd])
      (simp_all add: sec_def)
  with a show ?thesis by auto
qed

end
