(* ===== verification/Plan_Validator.thy ===== *)
theory Plan_Validator
  imports Dag_Resolver Py_Strings
begin

text \<open>
  \<open>Planner/adapters/plan_validator.py\<close>: the three validation layers a generated plan passes
  before it is used. Layer 1 parses the text (\<open>json.loads\<close> is the parameter \<open>loads\<close>), layer 2
  validates the schema (\<open>Plan.model_validate\<close>, Pydantic, is the parameter \<open>model_validate\<close>) and
  the dependency structure, layer 3 the business rules in the order of the source. The sizes
  \<open>sys.getsizeof(json.dumps(args))\<close> and \<open>len(plan.model_dump_json())\<close> are the parameters
  \<open>args_size\<close> and \<open>plan_size\<close>. Rule A only logs and is not a branch of the model.

  The two graph walks of rule F (the \<open>while queue\<close> loops) are instances of one breadth-first
  search \<open>bfs\<close>, whose correctness is a statement about reachability.
\<close>

section \<open>Breadth-first search\<close>

text \<open>
  \<open>bfs adj hit visited queue\<close>: pop the front; skip a visited node; mark it; report it if it is a
  hit; otherwise append its successors. A node that is no key of \<open>adj\<close> has none.
\<close>

definition succs :: "(int, int list) dict \<Rightarrow> int \<Rightarrow> int list" where
  "succs adj x = (case dict_get adj x of None \<Rightarrow> [] | Some ys \<Rightarrow> ys)"

definition adj_nodes :: "(int, int list) dict \<Rightarrow> int set" where
  "adj_nodes adj = (\<Union>p\<in>set adj. set (snd p))"

lemma finite_adj_nodes [simp]: "finite (adj_nodes adj)"
  by (simp add: adj_nodes_def)

lemma succs_subset: "set (succs adj x) \<subseteq> adj_nodes adj"
proof (cases "dict_get adj x")
  case (Some ys)
  then have "(x, ys) \<in> set adj" by (rule map_of_SomeD)
  then have "set ys \<subseteq> adj_nodes adj" unfolding adj_nodes_def by (metis UN_upper snd_conv)
  with Some show ?thesis by (simp add: succs_def)
qed (simp add: succs_def)

lemma bfs_measure:
  assumes "x \<notin> vis"
  shows "card (set (q @ succs adj x) \<union> adj_nodes adj - insert x vis)
       < card (set (x # q) \<union> adj_nodes adj - vis)"
proof (rule psubset_card_mono)
  have "set (q @ succs adj x) \<union> adj_nodes adj - insert x vis \<subseteq> set (x # q) \<union> adj_nodes adj - vis"
    using succs_subset [of adj x] by auto
  moreover have "x \<in> set (x # q) \<union> adj_nodes adj - vis" using assms by simp
  ultimately show "set (q @ succs adj x) \<union> adj_nodes adj - insert x vis
      \<subset> set (x # q) \<union> adj_nodes adj - vis" by blast
qed simp

function bfs :: "(int, int list) dict \<Rightarrow> (int \<Rightarrow> bool) \<Rightarrow> int set \<Rightarrow> int list \<Rightarrow> int option" where
  "bfs adj hit vis [] = None"
| "bfs adj hit vis (x # q) =
     (if x \<in> vis then bfs adj hit vis q
      else if hit x then Some x
      else bfs adj hit (insert x vis) (q @ succs adj x))"
  by pat_completeness auto

termination
proof (relation "measures [\<lambda>(adj, hit, vis, q). card ((set q \<union> adj_nodes adj) - vis),
    \<lambda>(adj, hit, vis, q). length q]", goal_cases)
  case 1
  show ?case by simp
next
  case (2 adj hit vis x q)
  then have "set (x # q) \<union> adj_nodes adj - vis = set q \<union> adj_nodes adj - vis" by auto
  then show ?case by (simp only: in_measures prod.case) simp
next
  case (3 adj hit vis x q)
  from bfs_measure [OF 3(1), of q adj] show ?case by (simp only: in_measures prod.case) simp
qed

definition adj_rel :: "(int, int list) dict \<Rightarrow> (int \<times> int) set" where
  "adj_rel adj = {(x, y). y \<in> set (succs adj x)}"

lemma bfs_Some:
  "bfs adj hit vis q = Some x \<Longrightarrow> hit x \<and> (\<exists>y\<in>set q. (y, x) \<in> (adj_rel adj)\<^sup>*)"
proof (induction adj hit vis q rule: bfs.induct)
  case (2 adj hit vis z q)
  show ?case
  proof (cases "z \<in> vis \<or> hit z")
    case True
    with 2 show ?thesis by (auto split: if_splits)
  next
    case False
    with 2 obtain y where "hit x" and y: "y \<in> set (q @ succs adj z)" "(y, x) \<in> (adj_rel adj)\<^sup>*"
      by auto
    then show ?thesis
      by (auto simp: adj_rel_def intro: converse_rtrancl_into_rtrancl)
  qed
qed simp

lemma bfs_None:
  assumes "bfs adj hit vis q = None"
    and "\<forall>v\<in>vis. set (succs adj v) \<subseteq> vis \<union> set q"
  shows "\<exists>V. vis \<union> set q \<subseteq> V \<and> (\<forall>v\<in>V. set (succs adj v) \<subseteq> V) \<and> (\<forall>v\<in>V - vis. \<not> hit v)"
  using assms
proof (induction adj hit vis q rule: bfs.induct)
  case (1 adj hit vis)
  then show ?case by auto
next
  case (2 adj hit vis x q)
  show ?case
  proof (cases "x \<in> vis")
    case True
    with 2 show ?thesis by (auto simp: insert_absorb)
  next
    case False
    with "2.prems" have nh: "\<not> hit x" and rest: "bfs adj hit (insert x vis) (q @ succs adj x) = None"
      by (auto split: if_splits)
    have "\<forall>v\<in>insert x vis. set (succs adj v) \<subseteq> insert x vis \<union> set (q @ succs adj x)"
      using "2.prems"(2) by auto
    from "2.IH"(2) [OF False nh rest this] obtain V where
      "insert x vis \<union> set (q @ succs adj x) \<subseteq> V" "\<forall>v\<in>V. set (succs adj v) \<subseteq> V"
      "\<forall>v\<in>V - insert x vis. \<not> hit v" by blast
    with nh show ?thesis by (intro exI [of _ V]) auto
  qed
qed

lemma bfs_None_iff:
  "bfs adj hit {} q = None \<longleftrightarrow> (\<forall>y\<in>set q. \<forall>x. (y, x) \<in> (adj_rel adj)\<^sup>* \<longrightarrow> \<not> hit x)"
proof
  assume "bfs adj hit {} q = None"
  from bfs_None [OF this] obtain V where V: "set q \<subseteq> V" "\<forall>v\<in>V. set (succs adj v) \<subseteq> V"
    "\<forall>v\<in>V. \<not> hit v" by auto
  have "x \<in> V" if "(y, x) \<in> (adj_rel adj)\<^sup>*" "y \<in> set q" for x y
    using that by (induction rule: rtrancl_induct) (use V in \<open>auto simp: adj_rel_def\<close>)
  with V(3) show "\<forall>y\<in>set q. \<forall>x. (y, x) \<in> (adj_rel adj)\<^sup>* \<longrightarrow> \<not> hit x" by blast
next
  assume none: "\<forall>y\<in>set q. \<forall>x. (y, x) \<in> (adj_rel adj)\<^sup>* \<longrightarrow> \<not> hit x"
  show "bfs adj hit {} q = None"
  proof (cases "bfs adj hit {} q")
    case (Some x)
    with none bfs_Some [OF Some] show ?thesis by blast
  qed simp
qed

section \<open>Errors and layers\<close>

datatype layer = Json_parse | Schema | Business_rules

datatype (plugins only: code size) validation_error =
    Invalid_json
  | Not_an_object
  | Schema_invalid
  | Duplicate_steps
  | Self_dependency int
  | Forward_dependency int int
  | Missing_dependency int int
  | Too_many_steps nat
  | Too_many_parallel nat
  | Not_dry_run "int list"
  | Booker_without_gate "int list"
  | Reasoner_without_policy "int list"
  | Reasoning_without_config "int list"
  | Policy_check_without_ref "int list"
  | Spawn_limit int int
  | Context_not_earlier int int
  | Context_missing int int
  | Recursive_spawn int
  | Plugin_not_listed int string
  | Spawned_booker_without_gate "int list"
  | Tier1_without_schema int
  | Tier1_unknown_schema int string
  | Unsanitized_api int int
  | Sanitizer_spawns int
  | Sanitizer_trust int
  | Tier1_spawns int
  | Args_too_large int
  | Plan_too_large

fun error_layer :: "validation_error \<Rightarrow> layer" where
  "error_layer Invalid_json = Json_parse"
| "error_layer Not_an_object = Json_parse"
| "error_layer Schema_invalid = Schema"
| "error_layer Duplicate_steps = Schema"
| "error_layer (Self_dependency _) = Schema"
| "error_layer (Forward_dependency _ _) = Schema"
| "error_layer (Missing_dependency _ _) = Schema"
| "error_layer _ = Business_rules"

definition max_steps :: nat where "max_steps = 100"
definition max_parallel_steps :: nat where "max_parallel_steps = 10"
definition max_step_args_size :: nat where "max_step_args_size = 10240"
definition max_plan_size :: nat where "max_plan_size = 102400"

definition schema_registry :: "string list" where
  "schema_registry = [''slot_proposal_v1'', ''free_slots_v1'', ''flight_recommendation_v1'',
     ''email_summary_v1'', ''freebusy_sanitized_v1'']"

section \<open>Layers 1 and 2\<close>

definition fence :: string where "fence = ''```''"

definition validate_json :: "(string \<Rightarrow> json option) \<Rightarrow> string \<Rightarrow> validation_error + jobj" where
  "validate_json loads raw =
     (let cleaned = strip raw;
          cleaned = (if starts_with fence cleaned
                     then strip (rsplit_once_first fence (split_once_last [CHR 0x0A] cleaned))
                     else cleaned)
      in case loads cleaned of
           None \<Rightarrow> Inl Invalid_json
         | Some (JObj d) \<Rightarrow> Inr d
         | Some _ \<Rightarrow> Inl Not_an_object)"

definition set_default :: "string \<Rightarrow> json \<Rightarrow> jobj \<Rightarrow> jobj" where
  "set_default k v d = (if dict_get d k = None then dict_set k v d else d)"

definition inject_placeholders :: "jobj \<Rightarrow> jobj" where
  "inject_placeholders d =
     set_default ''meta''
       (JObj [(''created_at'', JStr ''1970-01-01T00:00:00Z''),
              (''canonical_hash'', JStr (replicate 64 (CHR ''0'')))])
     (set_default ''intent''
       (JObj [(''intent'', JStr ''placeholder''), (''entities'', JObj []),
              (''constraints'', JObj []), (''tz'', JStr ''UTC''),
              (''user_id'', JStr ''placeholder''), (''session_id'', JStr ''placeholder'')])
     (set_default ''plan_id'' (JStr (replicate 26 (CHR ''0''))) d))"

definition step_structure_error :: "int set \<Rightarrow> plan_step \<Rightarrow> validation_error option" where
  "step_structure_error ids s =
     (if ps_step s \<in> set (ps_after s) then Some (Self_dependency (ps_step s))
      else first_error (\<lambda>dep.
        if dep \<ge> ps_step s then Some (Forward_dependency (ps_step s) dep)
        else if dep \<notin> ids then Some (Missing_dependency (ps_step s) dep)
        else None) (ps_after s))"

definition structure_error :: "plan_step list \<Rightarrow> validation_error option" where
  "structure_error g =
     (if \<not> distinct (step_ids g) then Some Duplicate_steps
      else first_error (step_structure_error (set (step_ids g))) g)"

definition validate_schema :: "(jobj \<Rightarrow> plan option) \<Rightarrow> jobj \<Rightarrow> validation_error + plan" where
  "validate_schema model_validate d =
     (case model_validate (inject_placeholders d) of
        None \<Rightarrow> Inl Schema_invalid
      | Some p \<Rightarrow> (case structure_error (pl_graph p) of Some e \<Rightarrow> Inl e | None \<Rightarrow> Inr p))"

section \<open>Layer 3: the business rules\<close>

definition step_numbers_where :: "(plan_step \<Rightarrow> bool) \<Rightarrow> plan_step list \<Rightarrow> int list" where
  "step_numbers_where P g = map ps_step (filter P g)"

definition reject_where ::
  "(plan_step \<Rightarrow> bool) \<Rightarrow> (int list \<Rightarrow> validation_error) \<Rightarrow> plan_step list \<Rightarrow> validation_error option"
where
  "reject_where P e g =
     (let bad = step_numbers_where P g in if bad \<noteq> [] then Some (e bad) else None)"

lemma reject_where_None [simp, result_simps]:
  "reject_where P e g = None \<longleftrightarrow> (\<forall>s\<in>set g. \<not> P s)"
  by (auto simp: reject_where_def step_numbers_where_def Let_def filter_empty_conv)

text \<open>\<open>Counter(tuple(sorted(s.after)) for s in graph)\<close>: the size of the largest class.\<close>

definition same_after :: "plan_step list \<Rightarrow> plan_step \<Rightarrow> nat" where
  "same_after g s = length (filter (\<lambda>t. sort (ps_after t) = sort (ps_after s)) g)"

definition max_parallel :: "plan_step list \<Rightarrow> nat" where
  "max_parallel g = foldr max (map (same_after g) g) 0"

definition spawn_limit_error :: "plan_step \<Rightarrow> validation_error option" where
  "spawn_limit_error s =
     (case ps_max_spawned_steps s of
        Some n \<Rightarrow> if ps_can_spawn s \<and> n > 10 then Some (Spawn_limit (ps_step s) n) else None
      | None \<Rightarrow> None)"

definition context_error :: "int set \<Rightarrow> plan_step \<Rightarrow> validation_error option" where
  "context_error ids s = first_error (\<lambda>ref.
     if ref \<ge> ps_step s then Some (Context_not_earlier (ps_step s) ref)
     else if ref \<notin> ids then Some (Context_missing (ps_step s) ref)
     else None) (ps_context_from s)"

definition rule_b :: "plan_step \<Rightarrow> validation_error option" where
  "rule_b s = (if ps_spawned_by s \<noteq> None \<and> ps_can_spawn s
     then Some (Recursive_spawn (ps_step s)) else None)"

definition rule_c :: "string list \<Rightarrow> plan_step \<Rightarrow> validation_error option" where
  "rule_c plugins s =
     (if ps_can_spawn s \<and> ps_type s = Api \<and> ps_uses s \<notin> set plugins
      then Some (Plugin_not_listed (ps_step s) (ps_uses s)) else None)"

definition rule_e :: "plan_step \<Rightarrow> validation_error option" where
  "rule_e s =
     (case ps_reasoning_config s of
        Some c \<Rightarrow>
          if ps_type s = Llm_reasoning \<and> ps_trust_level s = Some Untrusted_input then
            (case rc_output_schema_ref c of
               None \<Rightarrow> Some (Tier1_without_schema (ps_step s))
             | Some r \<Rightarrow> if r \<notin> set schema_registry
                 then Some (Tier1_unknown_schema (ps_step s) r) else None)
          else None
      | None \<Rightarrow> None)"

text \<open>
  Rule F. \<open>context_graph\<close> is every step's \<open>context_from\<close>; \<open>walk_graph\<close> the same without the
  references of sanitizer steps, which the outer walk does not follow.
\<close>

definition context_graph :: "plan_step list \<Rightarrow> (int, int list) dict" where
  "context_graph g = map (\<lambda>(n, s). (n, ps_context_from s)) (step_map g)"

definition walk_graph :: "plan_step list \<Rightarrow> (int, int list) dict" where
  "walk_graph g = map (\<lambda>(n, s). (n, if ps_type s = Sanitizer then [] else ps_context_from s))
     (step_map g)"

definition sanitizer_covers :: "plan_step list \<Rightarrow> int \<Rightarrow> plan_step \<Rightarrow> bool" where
  "sanitizer_covers g a s \<longleftrightarrow> ps_type s = Sanitizer \<and>
     (a \<in> set (ps_context_from s) \<or>
      bfs (context_graph g) (\<lambda>d. d = a) {} (ps_context_from s) \<noteq> None)"

definition has_intervening_sanitizer :: "plan_step list \<Rightarrow> int \<Rightarrow> plan_step \<Rightarrow> bool" where
  "has_intervening_sanitizer g a r = list_ex (\<lambda>ref.
     case dict_get (step_map g) ref of None \<Rightarrow> False | Some s \<Rightarrow> sanitizer_covers g a s)
     (ps_context_from r)"

definition unsanitized_hit :: "plan_step list \<Rightarrow> plan_step \<Rightarrow> int \<Rightarrow> bool" where
  "unsanitized_hit g r ref =
     (case dict_get (step_map g) ref of
        None \<Rightarrow> False
      | Some s \<Rightarrow> ps_type s = Api \<and> \<not> has_intervening_sanitizer g ref r)"

definition rule_f :: "plan_step list \<Rightarrow> plan_step \<Rightarrow> validation_error option" where
  "rule_f g r =
     (if ps_type r \<noteq> Llm_reasoning then None
      else map_option (Unsanitized_api (ps_step r))
        (bfs (walk_graph g) (unsanitized_hit g r) {} (ps_context_from r)))"

definition rule_g :: "plan_step \<Rightarrow> validation_error option" where
  "rule_g s =
     (if ps_type s \<noteq> Sanitizer then None
      else if ps_can_spawn s then Some (Sanitizer_spawns (ps_step s))
      else if ps_trust_level s \<noteq> None then Some (Sanitizer_trust (ps_step s))
      else None)"

definition rule_h :: "plan_step \<Rightarrow> validation_error option" where
  "rule_h s = (if ps_type s = Llm_reasoning \<and> ps_trust_level s = Some Untrusted_input \<and> ps_can_spawn s
     then Some (Tier1_spawns (ps_step s)) else None)"

definition business_checks ::
  "(jobj \<Rightarrow> nat) \<Rightarrow> (plan \<Rightarrow> nat) \<Rightarrow> plan \<Rightarrow> validation_error option list" where
  "business_checks args_size plan_size p =
     (let g = pl_graph p; ids = set (step_ids g) in
      [check_that (length g \<le> max_steps) (Too_many_steps (length g)),
       check_that (max_parallel g \<le> max_parallel_steps) (Too_many_parallel (max_parallel g)),
       reject_where (\<lambda>s. \<not> ps_dry_run s) Not_dry_run g,
       reject_where (\<lambda>s. ps_role s = Booker \<and> ps_gate_id s = None) Booker_without_gate g,
       reject_where (\<lambda>s. ps_role s = Reasoner \<and> ps_type s = Llm_reasoning \<and> ps_policy_ref s = None)
         Reasoner_without_policy g,
       reject_where (\<lambda>s. ps_type s = Llm_reasoning \<and> ps_reasoning_config s = None)
         Reasoning_without_config g,
       reject_where (\<lambda>s. ps_type s = Policy_check \<and> ps_policy_ref s = None)
         Policy_check_without_ref g,
       first_error spawn_limit_error g,
       first_error (context_error ids) g,
       first_error rule_b g,
       first_error (rule_c (pl_plugins p)) g,
       reject_where (\<lambda>s. ps_spawned_by s \<noteq> None \<and> ps_role s = Booker \<and> ps_gate_id s = None)
         Spawned_booker_without_gate g,
       first_error rule_e g,
       first_error (rule_f g) g,
       first_error rule_g g,
       first_error rule_h g,
       first_error (\<lambda>s. check_that (args_size (ps_args s) \<le> max_step_args_size)
         (Args_too_large (ps_step s))) g,
       check_that (plan_size p \<le> max_plan_size) Plan_too_large])"

definition business_error ::
  "(jobj \<Rightarrow> nat) \<Rightarrow> (plan \<Rightarrow> nat) \<Rightarrow> plan \<Rightarrow> validation_error option" where
  "business_error args_size plan_size p = seq_checks (business_checks args_size plan_size p)"

definition validate ::
  "(string \<Rightarrow> json option) \<Rightarrow> (jobj \<Rightarrow> plan option) \<Rightarrow> (jobj \<Rightarrow> nat) \<Rightarrow> (plan \<Rightarrow> nat) \<Rightarrow>
   string \<Rightarrow> validation_error + plan" where
  "validate loads model_validate args_size plan_size raw =
     bind_res (validate_json loads raw) (\<lambda>d.
     bind_res (validate_schema model_validate d) (\<lambda>p.
     case business_error args_size plan_size p of Some e \<Rightarrow> Inl e | None \<Rightarrow> Inr p))"

section \<open>What acceptance means\<close>

lemma structure_error_None:
  assumes "structure_error g = None"
  shows "distinct (step_ids g)"
    and "s \<in> set g \<Longrightarrow> d \<in> set (ps_after s) \<Longrightarrow> d < ps_step s \<and> d \<in> ps_step ` set g"
  using assms
  by (auto simp: structure_error_def step_structure_error_def result_simps step_ids_def
      split: if_splits) force+

lemma acyclic_less: "acyclic {(x :: int, y). x < y}"
proof -
  have "(x, y) \<in> {(x :: int, y). x < y}\<^sup>+ \<Longrightarrow> x < y" for x y
    by (induction rule: trancl_induct) auto
  then show ?thesis by (fastforce simp: acyclic_def)
qed

lemma structure_acyclic:
  assumes "structure_error g = None"
  shows "acyclic (set (edges g))"
proof (rule acyclic_subset [OF acyclic_less])
  show "set (edges g) \<subseteq> {(x, y). x < y}"
    using structure_error_None(2) [OF assms] by (auto simp: edges_iff)
qed

lemma business_accepts:
  assumes "business_error asz psz p = None"
  shows "length (pl_graph p) \<le> max_steps" "max_parallel (pl_graph p) \<le> max_parallel_steps"
    "\<forall>s\<in>set (pl_graph p). ps_dry_run s"
    "\<forall>s\<in>set (pl_graph p). ps_role s = Booker \<longrightarrow> ps_gate_id s \<noteq> None"
    "\<forall>s\<in>set (pl_graph p). ps_role s = Reasoner \<longrightarrow> ps_type s = Llm_reasoning \<longrightarrow>
       ps_policy_ref s \<noteq> None"
    "\<forall>s\<in>set (pl_graph p). ps_type s = Llm_reasoning \<longrightarrow> ps_reasoning_config s \<noteq> None"
    "\<forall>s\<in>set (pl_graph p). ps_type s = Policy_check \<longrightarrow> ps_policy_ref s \<noteq> None"
    "first_error (context_error (set (step_ids (pl_graph p)))) (pl_graph p) = None"
    "first_error rule_b (pl_graph p) = None"
    "first_error (rule_c (pl_plugins p)) (pl_graph p) = None"
    "first_error rule_e (pl_graph p) = None"
    "first_error (rule_f (pl_graph p)) (pl_graph p) = None"
    "first_error rule_g (pl_graph p) = None"
    "first_error rule_h (pl_graph p) = None"
  using assms unfolding business_error_def seq_checks_None_iff business_checks_def Let_def
  by simp_all

lemma business_rules_step:
  assumes "business_error asz psz p = None" and "s \<in> set (pl_graph p)"
  shows "rule_b s = None" "rule_c (pl_plugins p) s = None" "rule_e s = None" "rule_g s = None"
    "rule_h s = None" "rule_f (pl_graph p) s = None"
    "context_error (set (step_ids (pl_graph p))) s = None"
  using business_accepts(8-14) [OF assms(1)] assms(2) by (simp_all add: first_error_None_iff)

lemma validate_Inr:
  assumes "validate loads mv asz psz raw = Inr p"
  obtains d where "validate_json loads raw = Inr d" "mv (inject_placeholders d) = Some p"
    "structure_error (pl_graph p) = None" "business_error asz psz p = None"
proof -
  from assms obtain d where d: "validate_json loads raw = Inr d"
    and p: "validate_schema mv d = Inr p" and b: "business_error asz psz p = None"
    by (auto simp: validate_def bind_res_Inr_iff split: option.splits)
  from p have "mv (inject_placeholders d) = Some p" "structure_error (pl_graph p) = None"
    by (auto simp: validate_schema_def split: option.splits)
  with d b that show thesis by blast
qed

section \<open>Rule F as reachability\<close>

lemma dict_get_context_graph:
  "dict_get (context_graph g) n = map_option ps_context_from (dict_get (step_map g) n)"
proof -
  have "dict_get (map (\<lambda>(n, s). (n, ps_context_from s)) m) n
      = map_option ps_context_from (dict_get m n)" for m
    by (induction m) auto
  then show ?thesis by (simp add: context_graph_def)
qed

definition feeds :: "plan_step list \<Rightarrow> int \<Rightarrow> int \<Rightarrow> bool" where
  "feeds g x a \<longleftrightarrow> (x, a) \<in> (adj_rel (context_graph g))\<^sup>*"

definition feeds_unsanitized :: "plan_step list \<Rightarrow> int \<Rightarrow> int \<Rightarrow> bool" where
  "feeds_unsanitized g x a \<longleftrightarrow> (x, a) \<in> (adj_rel (walk_graph g))\<^sup>*"

lemma sanitizer_covers_iff:
  "sanitizer_covers g a s \<longleftrightarrow>
     ps_type s = Sanitizer \<and> (\<exists>x\<in>set (ps_context_from s). feeds g x a)"
proof -
  have "bfs (context_graph g) (\<lambda>d. d = a) {} (ps_context_from s) \<noteq> None \<longleftrightarrow>
      (\<exists>x\<in>set (ps_context_from s). feeds g x a)"
    unfolding bfs_None_iff feeds_def by blast
  moreover have "a \<in> set (ps_context_from s) \<Longrightarrow> \<exists>x\<in>set (ps_context_from s). feeds g x a"
    unfolding feeds_def by blast
  ultimately show ?thesis unfolding sanitizer_covers_def by blast
qed

lemma has_intervening_sanitizer_iff:
  "has_intervening_sanitizer g a r \<longleftrightarrow>
     (\<exists>n\<in>set (ps_context_from r). \<exists>s. dict_get (step_map g) n = Some s \<and> sanitizer_covers g a s)"
  by (auto simp: has_intervening_sanitizer_def list_ex_iff split: option.splits)

lemma rule_f_None_iff:
  assumes "ps_type r = Llm_reasoning"
  shows "rule_f g r = None \<longleftrightarrow>
     (\<forall>n\<in>set (ps_context_from r). \<forall>a s. feeds_unsanitized g n a \<longrightarrow>
        dict_get (step_map g) a = Some s \<longrightarrow> ps_type s = Api \<longrightarrow>
        has_intervening_sanitizer g a r)"
  using assms
  by (auto simp: rule_f_def bfs_None_iff feeds_unsanitized_def unsanitized_hit_def
      split: option.splits)

text \<open>C20. Whatever the validator returns can be scheduled: its dependencies form no cycle, so the
  resolver finds execution levels for it. The hypothesis is Pydantic's contract: a value that
  \<open>model_validate\<close> returns satisfies the declared field constraints.\<close>

theorem validated_plan_resolves:
  assumes "validate loads mv asz psz raw = Inr p"
    and "\<And>d q. mv d = Some q \<Longrightarrow> plan_ok q"
  shows "\<exists>lv. resolve (pl_graph p) = Some (Inr lv)"
proof -
  obtain d where d: "mv (inject_placeholders d) = Some p" "structure_error (pl_graph p) = None"
    using assms(1) by (rule validate_Inr)
  have "pl_graph p \<noteq> []" using plan_ok_graph [OF assms(2) [OF d(1)]] by simp
  then show ?thesis
    using resolve_iff_acyclic structure_error_None(1) [OF d(2)] structure_acyclic [OF d(2)]
    by blast
qed

text \<open>What the code's rule F accepts (the specification asks for a sanitizer on every path, which is more): every API step that reaches the reasoner through a chain
  of \<open>context_from\<close> references with no sanitizer on it must also feed a sanitizer that the
  reasoner references directly.\<close>

theorem rule_f_exact:
  assumes "ps_type r = Llm_reasoning"
  shows "rule_f g r = None \<longleftrightarrow>
     (\<forall>n\<in>set (ps_context_from r). \<forall>a s. feeds_unsanitized g n a \<longrightarrow>
        dict_get (step_map g) a = Some s \<longrightarrow> ps_type s = Api \<longrightarrow>
        (\<exists>m\<in>set (ps_context_from r). \<exists>t. dict_get (step_map g) m = Some t \<and>
           ps_type t = Sanitizer \<and> (\<exists>x\<in>set (ps_context_from t). feeds g x a)))"
  unfolding rule_f_None_iff [OF assms] has_intervening_sanitizer_iff sanitizer_covers_iff ..

text \<open>A small accepted plan: fetch, sanitize, reason over the sanitized payload, book behind a
  gate. \<open>raw_api_plan\<close> is the same plan, but its reasoner also references the raw fetch.\<close>

definition sample_config :: reasoning_config where
  "sample_config = \<lparr>rc_model = ''m'', rc_temperature = 0, rc_max_tokens = 2048,
     rc_system_prompt_ref = ''reasoner.x'', rc_output_schema_ref = None\<rparr>"

definition sample_reasoner :: "int list \<Rightarrow> plan_step" where
  "sample_reasoner refs = (new_plan_step 3 Interactive Reasoner ''reason'' ''run'')
     \<lparr>ps_type := Llm_reasoning, ps_trust_level := Some Trusted, ps_after := [2],
      ps_context_from := refs, ps_policy_ref := Some ''p'', ps_reasoning_config := Some sample_config\<rparr>"

definition sample_graph :: "int list \<Rightarrow> plan_step list" where
  "sample_graph refs =
     [new_plan_step 1 Interactive Fetcher ''CAL_LIST'' ''list'',
      (new_plan_step 2 Interactive Guard ''trust_filter.scan'' ''scan'')
        \<lparr>ps_type := Sanitizer, ps_after := [1], ps_context_from := [1]\<rparr>,
      sample_reasoner refs,
      (new_plan_step 4 Interactive Booker ''CAL_CREATE'' ''create'')
        \<lparr>ps_after := [3], ps_gate_id := Some ''gate-A''\<rparr>]"

definition sample_intent :: intent where
  "sample_intent = \<lparr>in_intent = ''schedule'', in_entities = [], in_constraints = [], in_tz = ''UTC'',
     in_user_id = ''u'', in_context_budget = None, in_session_id = None, in_trace_id = None,
     in_sub_intents = [], in_tool_overrides = []\<rparr>"

definition plan_of :: "plan_step list \<Rightarrow> plan" where
  "plan_of g = \<lparr>pl_plan_id = replicate 26 (CHR ''0''), pl_intent = sample_intent, pl_trace_id = None,
     pl_graph = g, pl_constraints = default_constraints, pl_plugins = [],
     pl_meta = \<lparr>pm_created_at = ''1970-01-01T00:00:00Z'', pm_author = ''planner@system'',
       pm_version = ''v2.0.0'', pm_canonical_hash = []\<rparr>, pl_plan_revision = 0\<rparr>"

lemmas rule_defs = spawn_limit_error_def context_error_def rule_b_def rule_c_def rule_e_def
  rule_f_def rule_g_def rule_h_def unsanitized_hit_def has_intervening_sanitizer_def
  sanitizer_covers_def succs_def walk_graph_def context_graph_def

lemmas sample_defs = plan_of_def sample_graph_def sample_reasoner_def new_plan_step_def
  sample_config_def

lemma sample_structure: "structure_error (sample_graph refs) = None"
  by (simp add: structure_error_def step_structure_error_def step_ids_def sample_defs)

lemma sample_rule_f:
  "first_error (rule_f (sample_graph [2])) (sample_graph [2]) = None"
  "first_error (rule_f (sample_graph [2, 1])) (sample_graph [2, 1]) = None"
  by (simp_all add: rule_defs step_map_def sample_defs)

lemma sample_business:
  assumes "refs = [2] \<or> refs = [2, 1]"
  shows "business_error (\<lambda>_. 0) (\<lambda>_. 0) (plan_of (sample_graph refs)) = None"
proof -
  let ?g = "sample_graph refs"
  have "max_parallel ?g \<le> max_parallel_steps" "length ?g \<le> max_steps"
    by (simp_all add: sample_defs max_parallel_def same_after_def max_parallel_steps_def max_steps_def)
  moreover have "first_error (context_error (set (step_ids ?g))) ?g = None"
    using assms by (auto simp: first_error_None_iff context_error_def sample_defs step_ids_def)
  moreover have "first_error (rule_f ?g) ?g = None" using assms sample_rule_f by auto
  moreover have "\<forall>s\<in>set ?g. spawn_limit_error s = None \<and> rule_b s = None \<and> rule_c [] s = None \<and>
      rule_e s = None \<and> rule_g s = None \<and> rule_h s = None"
    by (simp add: sample_defs rule_defs)
  moreover have "\<forall>s\<in>set ?g. ps_dry_run s \<and> (ps_role s = Booker \<longrightarrow> ps_gate_id s \<noteq> None) \<and>
      (ps_type s = Llm_reasoning \<longrightarrow> ps_policy_ref s \<noteq> None \<and> ps_reasoning_config s \<noteq> None) \<and>
      ps_type s \<noteq> Policy_check"
    by (simp add: sample_defs)
  ultimately show ?thesis
    unfolding business_error_def seq_checks_None_iff business_checks_def Let_def
    by (simp add: first_error_None_iff plan_of_def max_step_args_size_def max_plan_size_def)
qed

lemma sample_plan_ok: "plan_ok (plan_of (sample_graph refs))"
  by (simp add: plan_ok_def plan_step_ok_def sample_defs intent_ok_def sample_intent_def
      plan_constraints_ok_def default_constraints_def reasoning_config_ok_def)

lemma sample_validate:
  assumes "refs = [2] \<or> refs = [2, 1]"
  shows "validate (\<lambda>_. Some (JObj [])) (\<lambda>_. Some (plan_of (sample_graph refs))) (\<lambda>_. 0) (\<lambda>_. 0) raw
     = Inr (plan_of (sample_graph refs))"
proof -
  have "pl_graph (plan_of (sample_graph refs)) = sample_graph refs" by (simp add: plan_of_def)
  then show ?thesis
    using sample_business [OF assms] sample_structure [of refs]
    by (simp add: validate_def validate_json_def validate_schema_def Let_def)
qed

theorem validated_plan_resolves_witness:
  "validate (\<lambda>_. Some (JObj [])) (\<lambda>_. Some (plan_of (sample_graph [2]))) (\<lambda>_. 0) (\<lambda>_. 0) ''{}''
     = Inr (plan_of (sample_graph [2])) \<and>
   (\<exists>lv. resolve (pl_graph (plan_of (sample_graph [2]))) = Some (Inr lv))"
proof -
  have v: "validate (\<lambda>_. Some (JObj [])) (\<lambda>_. Some (plan_of (sample_graph [2]))) (\<lambda>_. 0) (\<lambda>_. 0) ''{}''
     = Inr (plan_of (sample_graph [2]))"
    by (rule sample_validate) simp
  then show ?thesis using validated_plan_resolves [OF v] sample_plan_ok by auto
qed

theorem rule_f_exact_witness:
  "ps_type (sample_reasoner [2, 1]) = Llm_reasoning \<and>
   rule_f (sample_graph [2, 1]) (sample_reasoner [2, 1]) = None \<and>
   feeds_unsanitized (sample_graph [2, 1]) 1 1 \<and>
   (\<exists>m\<in>set (ps_context_from (sample_reasoner [2, 1])). \<exists>t.
      dict_get (step_map (sample_graph [2, 1])) m = Some t \<and> ps_type t = Sanitizer \<and>
      (\<exists>x\<in>set (ps_context_from t). feeds (sample_graph [2, 1]) x 1))"
proof -
  have ty: "ps_type (sample_reasoner [2, 1]) = Llm_reasoning" by (simp add: sample_reasoner_def)
  have f: "rule_f (sample_graph [2, 1]) (sample_reasoner [2, 1]) = None"
    using sample_rule_f(2) [unfolded first_error_None_iff] by (simp add: sample_graph_def)
  obtain s where one: "dict_get (step_map (sample_graph [2, 1])) 1 = Some s" "ps_type s = Api"
    by (simp add: step_map_def sample_defs)
  have walk: "feeds_unsanitized (sample_graph [2, 1]) 1 1" by (simp add: feeds_unsanitized_def)
  have ref: "1 \<in> set (ps_context_from (sample_reasoner [2, 1]))" by (simp add: sample_reasoner_def)
  from rule_f_exact [OF ty, THEN iffD1, OF f, rule_format, OF ref walk one] ty f walk
  show ?thesis by blast
qed

text \<open>Rule F does not keep raw API output away from a reasoner: a plan whose trusted (Tier 2)
  reasoner references the API step itself, beside a sanitizer of it, passes all three layers.\<close>

theorem raw_api_reference_accepted:
  "validate (\<lambda>_. Some (JObj [])) (\<lambda>_. Some (plan_of (sample_graph [2, 1]))) (\<lambda>_. 0) (\<lambda>_. 0) raw
     = Inr (plan_of (sample_graph [2, 1])) \<and>
   (\<exists>r\<in>set (sample_graph [2, 1]). ps_type r = Llm_reasoning \<and> ps_trust_level r = Some Trusted \<and>
      (\<exists>a\<in>set (sample_graph [2, 1]). ps_type a = Api \<and> ps_step a \<in> set (ps_context_from r)))"
proof
  show "validate (\<lambda>_. Some (JObj [])) (\<lambda>_. Some (plan_of (sample_graph [2, 1]))) (\<lambda>_. 0) (\<lambda>_. 0) raw
      = Inr (plan_of (sample_graph [2, 1]))"
    by (rule sample_validate) simp
qed (simp add: sample_defs)

text \<open>What an accepted plan guarantees of each step: preview mode on, a gate on every Booker, no
  spawning from spawned steps, sanitizers or Tier 1 reasoners, a registered output schema on a
  Tier 1 reasoner, and context taken from earlier steps of the plan only.\<close>

theorem accepted_step_safe:
  assumes "validate loads mv asz psz raw = Inr p" and "s \<in> set (pl_graph p)"
  shows "ps_dry_run s \<and>
     (ps_role s = Booker \<longrightarrow> ps_gate_id s \<noteq> None) \<and>
     (ps_can_spawn s \<longrightarrow> ps_spawned_by s = None \<and> ps_type s \<noteq> Sanitizer \<and>
        (ps_type s = Api \<longrightarrow> ps_uses s \<in> set (pl_plugins p)) \<and>
        \<not> (ps_type s = Llm_reasoning \<and> ps_trust_level s = Some Untrusted_input)) \<and>
     (ps_type s = Llm_reasoning \<and> ps_trust_level s = Some Untrusted_input \<longrightarrow>
        (\<exists>c r. ps_reasoning_config s = Some c \<and> rc_output_schema_ref c = Some r \<and>
           r \<in> set schema_registry)) \<and>
     (\<forall>ref\<in>set (ps_context_from s). ref < ps_step s \<and> ref \<in> ps_step ` set (pl_graph p))"
proof -
  obtain d where b: "business_error asz psz p = None"
    using assms(1) by (rule validate_Inr)
  note acc = business_accepts [OF b]
  note rules = business_rules_step [OF b assms(2)]
  have "\<forall>ref\<in>set (ps_context_from s). ref < ps_step s \<and> ref \<in> ps_step ` set (pl_graph p)"
    using rules(7) by (auto simp: context_error_def first_error_None_iff step_ids_def split: if_splits)
  moreover have "\<exists>c r. ps_reasoning_config s = Some c \<and> rc_output_schema_ref c = Some r \<and>
      r \<in> set schema_registry"
    if tier1: "ps_type s = Llm_reasoning \<and> ps_trust_level s = Some Untrusted_input"
  proof -
    obtain c where "ps_reasoning_config s = Some c" using acc(6) assms(2) tier1 by auto
    with rules(3) tier1 show ?thesis by (auto simp: rule_e_def split: option.splits if_splits)
  qed
  moreover have "ps_spawned_by s = None \<and> ps_type s \<noteq> Sanitizer \<and>
      (ps_type s = Api \<longrightarrow> ps_uses s \<in> set (pl_plugins p)) \<and>
      \<not> (ps_type s = Llm_reasoning \<and> ps_trust_level s = Some Untrusted_input)" if "ps_can_spawn s"
    using that rules by (auto simp: rule_b_def rule_c_def rule_g_def rule_h_def split: if_splits)
  ultimately show ?thesis using acc(3,4) assms(2) by blast
qed

definition sample_booker :: plan_step where
  "sample_booker = (new_plan_step 4 Interactive Booker ''CAL_CREATE'' ''create'')
     \<lparr>ps_after := [3], ps_gate_id := Some ''gate-A''\<rparr>"

theorem accepted_step_safe_witness:
  "sample_booker \<in> set (pl_graph (plan_of (sample_graph [2]))) \<and>
   ps_role sample_booker = Booker \<and> ps_dry_run sample_booker \<and> ps_gate_id sample_booker \<noteq> None"
proof -
  have v: "validate (\<lambda>_. Some (JObj [])) (\<lambda>_. Some (plan_of (sample_graph [2]))) (\<lambda>_. 0) (\<lambda>_. 0) []
     = Inr (plan_of (sample_graph [2]))"
    by (rule sample_validate) simp
  have m: "sample_booker \<in> set (pl_graph (plan_of (sample_graph [2])))"
    by (simp add: plan_of_def sample_graph_def sample_booker_def)
  have r: "ps_role sample_booker = Booker" by (simp add: sample_booker_def new_plan_step_def)
  from accepted_step_safe [OF v m] m r show ?thesis by blast
qed

definition raises_in :: "layer \<Rightarrow> validation_error option \<Rightarrow> bool" where
  "raises_in l c \<longleftrightarrow> (\<forall>e. c = Some e \<longrightarrow> error_layer e = l)"

lemma raises_in_check: "error_layer e = l \<Longrightarrow> raises_in l (check_that ok e)"
  by (simp add: raises_in_def)

lemma raises_in_reject: "(\<And>ns. error_layer (e ns) = l) \<Longrightarrow> raises_in l (reject_where P e g)"
  by (auto simp: raises_in_def reject_where_def Let_def)

lemma raises_in_first: "(\<And>s. raises_in l (f s)) \<Longrightarrow> raises_in l (first_error f g)"
  by (auto simp: raises_in_def dest!: first_error_SomeD)

lemma raises_in_rules:
  "raises_in Business_rules (spawn_limit_error s)" "raises_in Business_rules (rule_b s)"
  "raises_in Business_rules (rule_c ps s)" "raises_in Business_rules (rule_e s)"
  "raises_in Business_rules (rule_f g s)" "raises_in Business_rules (rule_g s)"
  "raises_in Business_rules (rule_h s)"
  by (auto simp: raises_in_def spawn_limit_error_def rule_b_def rule_c_def rule_e_def rule_f_def
      rule_g_def rule_h_def split: option.splits if_splits)

lemma raises_in_context: "raises_in Business_rules (context_error ids s)"
  unfolding context_error_def by (rule raises_in_first) (simp add: raises_in_def)

lemma business_layer: "list_all (raises_in Business_rules) (business_checks asz psz p)"
  by (simp add: business_checks_def Let_def raises_in_check raises_in_reject raises_in_first
      raises_in_rules raises_in_context)

text \<open>Which layer reports: an error of a later layer is raised only when every earlier layer has
  passed, so a plan is never rejected by a business rule before its schema holds.\<close>

theorem error_layers_ordered:
  assumes "validate loads mv asz psz raw = Inl e"
  shows "case error_layer e of
       Json_parse \<Rightarrow> validate_json loads raw = Inl e
     | Schema \<Rightarrow> (\<exists>d. validate_json loads raw = Inr d \<and> validate_schema mv d = Inl e)
     | Business_rules \<Rightarrow> (\<exists>d p. validate_json loads raw = Inr d \<and> validate_schema mv d = Inr p \<and>
         business_error asz psz p = Some e)"
proof -
  have json: "error_layer e = Json_parse" if "validate_json loads raw = Inl e"
    using that by (auto simp: validate_json_def Let_def split: option.splits json.splits)
  have struct: "error_layer e = Schema" if "structure_error g = Some e" for g
    using that by (auto simp: structure_error_def step_structure_error_def split: if_splits
        dest!: first_error_SomeD)
  have schema: "error_layer e = Schema" if "validate_schema mv d = Inl e" for d
    using that struct by (auto simp: validate_schema_def split: option.splits)
  have business: "error_layer e = Business_rules" if "business_error asz psz p = Some e" for p
  proof -
    from that have "Some e \<in> set (business_checks asz psz p)"
      unfolding business_error_def by (rule seq_checks_SomeD)
    with business_layer [of asz psz p] show ?thesis by (auto simp: list_all_iff raises_in_def)
  qed
  from assms consider "validate_json loads raw = Inl e"
    | d where "validate_json loads raw = Inr d" "validate_schema mv d = Inl e"
    | d p where "validate_json loads raw = Inr d" "validate_schema mv d = Inr p"
        "business_error asz psz p = Some e"
    by (auto simp: validate_def bind_res_Inl_iff split: option.splits)
  then show ?thesis by cases (simp_all add: json schema business)
qed

theorem error_layers_ordered_witness:
  "validate (\<lambda>_. None) (\<lambda>_. None) (\<lambda>_. 0) (\<lambda>_. 0) ''x'' = Inl Invalid_json \<and>
   validate_json (\<lambda>_. None) ''x'' = Inl Invalid_json"
proof -
  have "validate (\<lambda>_. None) (\<lambda>_. None) (\<lambda>_. 0) (\<lambda>_. 0) ''x'' = Inl Invalid_json"
    by (simp add: validate_def validate_json_def Let_def)
  with error_layers_ordered [OF this] show ?thesis by simp
qed

end
