(* ===== verification/Py_Regex.thy ===== *)
theory Py_Regex
  imports Py_Strings
begin

text \<open>
  The part of Python's \<open>re\<close> the sources use. A cursor is a position in the text: the characters
  before it (last first) and those after. \<open>re_run\<close> lists the positions a pattern can reach, in the
  order in which the backtracking matcher tries them, so the first one is the match Python
  reports. Sets of characters are ranges of code points; a code point above 255 is in no string
  of this development. A repetition stops when its body matches the empty text.
\<close>

type_synonym cursor = "string \<times> string"

datatype regex =
    Literal char
  | Chars bool "(int \<times> int) list"
  | Eps
  | Seq regex regex
  | Alt regex regex
  | Star bool regex
  | Times nat regex
  | Line_start bool
  | Line_end
  | Word_edge
  | Not_ahead regex

text \<open>\<open>Chars neg rs\<close> is \<open>[...]\<close> or \<open>[^...]\<close>, \<open>Star greedy r\<close> is \<open>r*\<close> or \<open>r*?\<close>, \<open>Times n r\<close> is
  \<open>r{n}\<close>, \<open>Line_start multiline\<close> is \<open>^\<close>, \<open>Line_end\<close> is \<open>$\<close> without \<open>MULTILINE\<close>,
  \<open>Word_edge\<close> is \<open>\b\<close> and \<open>Not_ahead r\<close> is \<open>(?!r)\<close>.\<close>

definition in_ranges :: "(int \<times> int) list \<Rightarrow> char \<Rightarrow> bool" where
  "in_ranges rs c \<longleftrightarrow> list_ex (\<lambda>(a, b). a \<le> of_char c \<and> of_char c \<le> b) rs"

text \<open>With \<open>IGNORECASE\<close> a character is in a set when it, its lower or its upper case is.\<close>

definition char_matches :: "bool \<Rightarrow> bool \<Rightarrow> (int \<times> int) list \<Rightarrow> char \<Rightarrow> bool" where
  "char_matches ic neg rs c \<longleftrightarrow>
     (neg \<noteq> (in_ranges rs c \<or> ic \<and> (in_ranges rs (lower_char c) \<or> in_ranges rs (upper_char c))))"

definition word_ranges :: "(int \<times> int) list" where
  "word_ranges = [(48, 57), (65, 90), (95, 95), (97, 122), (170, 170), (178, 179), (181, 181), (185, 186),
     (188, 190), (192, 214), (216, 246), (248, 255)]"

definition word_at :: "string \<Rightarrow> bool" where
  "word_at s \<longleftrightarrow> (case s of [] \<Rightarrow> False | c # _ \<Rightarrow> in_ranges word_ranges c)"

primrec repeat_from :: "bool \<Rightarrow> (cursor \<Rightarrow> cursor list) \<Rightarrow> nat \<Rightarrow> cursor \<Rightarrow> cursor list" where
  "repeat_from g f 0 x = [x]"
| "repeat_from g f (Suc n) x =
     (let more = concat (map (repeat_from g f n) (filter (\<lambda>y. length (snd y) < length (snd x)) (f x)))
      in if g then more @ [x] else x # more)"

primrec times_from :: "(cursor \<Rightarrow> cursor list) \<Rightarrow> nat \<Rightarrow> cursor list \<Rightarrow> cursor list" where
  "times_from f 0 xs = xs"
| "times_from f (Suc n) xs = (if xs = [] then [] else times_from f n (concat (map f xs)))"

primrec re_run :: "bool \<Rightarrow> regex \<Rightarrow> cursor \<Rightarrow> cursor list" where
  "re_run ic (Literal d) x = (case snd x of [] \<Rightarrow> []
     | c # cs \<Rightarrow> if c = d \<or> ic \<and> (lower_char c = d \<or> upper_char c = d) then [(c # fst x, cs)] else [])"
| "re_run ic (Chars neg rs) x = (case snd x of [] \<Rightarrow> []
     | c # cs \<Rightarrow> if char_matches ic neg rs c then [(c # fst x, cs)] else [])"
| "re_run ic Eps x = [x]"
| "re_run ic (Seq r s) x = concat (map (re_run ic s) (re_run ic r x))"
| "re_run ic (Alt r s) x = re_run ic r x @ re_run ic s x"
| "re_run ic (Star g r) x = repeat_from g (re_run ic r) (length (snd x)) x"
| "re_run ic (Times n r) x = times_from (re_run ic r) n [x]"
| "re_run ic (Line_start m) x = (if fst x = [] \<or> m \<and> hd (fst x) = CHR 0x0A then [x] else [])"
| "re_run ic Line_end x = (if snd x = [] \<or> snd x = [CHR 0x0A] then [x] else [])"
| "re_run ic Word_edge x = (if word_at (fst x) \<noteq> word_at (snd x) then [x] else [])"
| "re_run ic (Not_ahead r) x = (if re_run ic r x = [] then [x] else [])"

section \<open>\<open>match\<close> and \<open>search\<close>\<close>

definition match_at :: "bool \<Rightarrow> regex \<Rightarrow> string \<Rightarrow> string \<Rightarrow> string option" where
  "match_at ic r pre rest = (case re_run ic r (pre, rest) of [] \<Rightarrow> None
     | (b, s) # _ \<Rightarrow> Some (take (length rest - length s) rest))"

definition re_match :: "bool \<Rightarrow> regex \<Rightarrow> string \<Rightarrow> string option" where
  "re_match ic r s = match_at ic r [] s"

fun search_from :: "bool \<Rightarrow> regex \<Rightarrow> string \<Rightarrow> string \<Rightarrow> string option" where
  "search_from ic r pre [] = match_at ic r pre []"
| "search_from ic r pre (c # cs) = (case match_at ic r pre (c # cs) of Some m \<Rightarrow> Some m
     | None \<Rightarrow> search_from ic r (c # pre) cs)"

definition re_search :: "bool \<Rightarrow> regex \<Rightarrow> string \<Rightarrow> string option" where
  "re_search ic r s = search_from ic r [] s"

section \<open>Patterns\<close>

definition lit :: "string \<Rightarrow> regex" where
  "lit s = foldr (\<lambda>c r. Seq (Literal c) r) s Eps"

definition seqs :: "regex list \<Rightarrow> regex" where
  "seqs rs = foldr Seq rs Eps"

fun alts :: "regex list \<Rightarrow> regex" where
  "alts [] = Chars False []"
| "alts [r] = r"
| "alts (r # s # rs) = Alt r (alts (s # rs))"

definition lits :: "string list \<Rightarrow> regex" where
  "lits ws = alts (map lit ws)"

definition opt :: "regex \<Rightarrow> regex" where
  "opt r = Alt r Eps"

definition plus_of :: "regex \<Rightarrow> regex" where
  "plus_of r = Seq r (Star True r)"

definition at_least :: "nat \<Rightarrow> regex \<Rightarrow> regex" where
  "at_least n r = Seq (Times n r) (Star True r)"

text \<open>\<open>\d\<close>, \<open>\s\<close>, \<open>\w\<close>, \<open>.\<close> without and with \<open>DOTALL\<close>.\<close>

definition digit_re :: regex where "digit_re = Chars False [(48, 57)]"

definition space_ranges :: "(int \<times> int) list" where
  "space_ranges = [(9, 13), (28, 32), (133, 133), (160, 160)]"

definition space_re :: regex where "space_re = Chars False space_ranges"

definition word_re :: regex where "word_re = Chars False word_ranges"

definition any_re :: regex where "any_re = Chars True [(10, 10)]"

definition all_re :: regex where "all_re = Chars True []"

end
