(* ===== verification/Execute_Service.thy ===== *)
theory Execute_Service
  imports Exec_Adapters Approval_Gate Plan_Validator Py_Regex
begin

text \<open>
  The execution engine (\<open>components/ExecuteOrchestrator/service/execute_service.py\<close>): plan
  execution level by level, step dispatch with gates, idempotency, locks and retries, spawning
  under the policy engine, failure recovery, compensation and the outcome.

  \<open>service_env\<close> adds to the adapters' environment the other collaborators, as parameters: the
  template resolver, the tool catalog, the credential vault, the LLM, the trust filter, JWT
  decoding, ISO timestamps, the summary of a step result for the LLM, Pydantic's dumps and schema
  checks, and the plan writer. The policy engine is the model of \<open>Policy_Engine\<close>. The steps of a
  level, which \<open>asyncio.gather\<close> runs concurrently, run in list order here.
\<close>

section \<open>Environment and request\<close>

record sanitized =
  sz_verdict :: string
  sz_degraded :: bool
  sz_dump :: jobj

text \<open>The filter's exceptions: \<open>LoadBearingFlaggedError\<close> with its field, the other
  \<open>TrustFilterError\<close>s, and any other exception.\<close>

datatype filter_failure = Load_bearing string string | Filter_error string | Filter_crash exec_error

datatype persist_status = Persisted string | Persist_failed

record ('s, 'x) service_env = "('s, 'x) exec_env" +
  sv_retry :: retry_policy
  sv_resolve :: "jobj \<Rightarrow> (int, step_result) dict \<Rightarrow> jobj option \<Rightarrow> exec_error + jobj"
  sv_tool :: "string \<Rightarrow> string \<Rightarrow> (string \<times> string) option"
  sv_vault :: "string \<Rightarrow> string \<Rightarrow> 'x \<Rightarrow> (exec_error + string) \<times> 'x"
  sv_llm :: "reasoning_config option \<Rightarrow> json list \<Rightarrow> string \<Rightarrow> 'x \<Rightarrow> (exec_error + jobj) \<times> 'x"
  sv_filter :: "(json \<Rightarrow> json \<Rightarrow> json \<Rightarrow> int \<Rightarrow> 'x \<Rightarrow> (filter_failure + sanitized) \<times> 'x) option"
  sv_policy :: "'s policy_env"
  sv_decode :: "int \<Rightarrow> string \<Rightarrow> jwt_result"
  sv_parse_iso :: "string \<Rightarrow> int option"
  sv_summarize :: "jobj option \<Rightarrow> json"
  sv_wrap_prompt :: "string \<Rightarrow> string \<Rightarrow> string"
  sv_dump_decision :: "policy_decision \<Rightarrow> jobj"
  sv_schema_ok :: "string \<Rightarrow> jobj \<Rightarrow> bool"
  sv_reason_text :: "reason \<Rightarrow> string"
  sv_persist :: "string \<Rightarrow> bool \<Rightarrow> 'x \<Rightarrow> persist_status \<times> 'x"
  sv_tracked :: bool
  sv_audited :: bool

record exec_request =
  ex_plan :: plan
  ex_token :: string
  ex_user_id :: string
  ex_trace_id :: string
  ex_preview_state :: "jobj option"
  ex_credentials :: "(string, string) dict"

abbreviation step_results :: "('s, 'x) xstate \<Rightarrow> (int, step_result) dict" where
  "step_results st \<equiv> cx_step_results (xs_ctx st)"

section \<open>Errors\<close>

text \<open>\<open>str(exc)\<close>, \<open>type(exc).__name__\<close> and \<open>_classify_error\<close>.\<close>

fun error_text :: "(reason \<Rightarrow> string) \<Rightarrow> exec_error \<Rightarrow> string" where
  "error_text rt (Approval_token_error r) = ''Approval token error: '' @ r"
| "error_text rt (Plan_expired p n) = ''Plan '' @ p @ '' expired (TTL '' @ show_int n @ ''s)''"
| "error_text rt (Step_execution n r) = ''Step '' @ show_int n @ '' failed: '' @ r"
| "error_text rt (Idempotency_conflict k) = ''Idempotency conflict: '' @ k"
| "error_text rt (Lock_timeout k n) = ''Lock timeout ('' @ show_int n @ ''s): '' @ k"
| "error_text rt (Mcp_error server tool why) = mcp_text server tool why"
| "error_text rt (Spawn_denied r vs) = ''Spawn denied: '' @ rt r"
| "error_text rt (Recovery_exhausted n a) = ''Recovery exhausted for step '' @ show_int n @ '' after '' @ show_int a @ '' attempts''"
| "error_text rt (Cycle_error p n) = ''Cycle detected: Processed '' @ show_nat p @ ''/'' @ show_nat n @ '' steps''"
| "error_text rt (Not_connected p n) = p @ '' not connected on Composio''"
| "error_text rt (Gate_required g n c ps) = ''Approval required for gate '' @ g @ '' at step '' @ show_int n"
| "error_text rt (Other_error c m) = m"

fun error_class :: "exec_error \<Rightarrow> string" where
  "error_class (Approval_token_error r) = ''ApprovalTokenError''"
| "error_class (Plan_expired p n) = ''PlanExpiredError''"
| "error_class (Step_execution n r) = ''StepExecutionError''"
| "error_class (Idempotency_conflict k) = ''IdempotencyConflict''"
| "error_class (Lock_timeout k n) = ''ResourceLockTimeout''"
| "error_class (Mcp_error server tool why) = ''MCPInvocationError''"
| "error_class (Spawn_denied r vs) = ''SpawnDeniedError''"
| "error_class (Recovery_exhausted n a) = ''RecoveryExhaustedError''"
| "error_class (Cycle_error p n) = ''CycleDetectedError''"
| "error_class (Not_connected p n) = ''IntegrationNotConnectedError''"
| "error_class (Gate_required g n c ps) = ''GateApprovalRequired''"
| "error_class (Other_error c m) = c"

fun classify_error :: "exec_error \<Rightarrow> string" where
  "classify_error (Approval_token_error r) = ''token_expired''"
| "classify_error (Plan_expired p n) = ''plan_expired''"
| "classify_error (Cycle_error p n) = ''cycle_detected''"
| "classify_error (Step_execution n r) = ''step_failure''"
| "classify_error (Recovery_exhausted n a) = ''recovery_exhausted''"
| "classify_error (Mcp_error server tool why) = ''mcp_error''"
| "classify_error (Spawn_denied r vs) = ''spawn_denied''"
| "classify_error (Gate_required g n c ps) = ''gate_approval_required''"
| "classify_error (Not_connected p n) = ''integration_not_connected''"
| "classify_error _ = ''internal_error''"

text \<open>\<open>getattr(error, "step", None)\<close>.\<close>

fun error_step :: "exec_error \<Rightarrow> int option" where
  "error_step (Step_execution n r) = Some n"
| "error_step (Recovery_exhausted n a) = Some n"
| "error_step (Not_connected p n) = n"
| "error_step (Gate_required g n c ps) = Some n"
| "error_step _ = None"

text \<open>The patterns of a missing integration, searched without regard to case.\<close>

definition not_connected_regex :: regex where
  "not_connected_regex =
     (let gap = Star True any_re in alts
      [seqs [lit ''no connected'', Word_edge, gap, Word_edge, lit ''account''],
       lit ''not connected'',
       lit ''not authenticated'',
       seqs [lit ''account'', gap, lit ''not'', gap, lit ''found''],
       seqs [lit ''entity'', gap, lit ''not'', gap, lit ''found''],
       seqs [lit ''connection'', gap, lit ''not'', gap, lit ''found''],
       seqs [lit ''authentication'', gap, lit ''required''],
       seqs [lit ''auth'', gap, lit ''error'', gap, lit ''account''],
       lit ''no active connection''])"

definition says_not_connected :: "string \<Rightarrow> bool" where
  "says_not_connected msg \<longleftrightarrow> re_search True not_connected_regex msg \<noteq> None"

definition capitalize :: "string \<Rightarrow> string" where
  "capitalize s = (case s of [] \<Rightarrow> [] | c # cs \<Rightarrow> upper [c] @ lower cs)"

definition check_integration_not_connected :: "(reason \<Rightarrow> string) \<Rightarrow> exec_error \<Rightarrow> plan_step \<Rightarrow> exec_error option" where
  "check_integration_not_connected rt e s =
     (if says_not_connected (error_text rt e)
      then let tool = (case e of Mcp_error _ t _ \<Rightarrow> if t = [] then ps_uses s else t | _ \<Rightarrow> ps_uses s) in
        Some (Not_connected (if tool = [] then ''Integration'' else capitalize (hd (split_on (CHR ''_'') tool)))
          (Some (ps_step s)))
      else None)"

section \<open>Effects\<close>

definition ctxS :: "(exec_ctx \<Rightarrow> exec_ctx) \<Rightarrow> ('s, 'x, unit) exec" where
  "ctxS f = modS (\<lambda>st. st \<lparr>xs_ctx := f (xs_ctx st)\<rparr>)"

definition put_result :: "int \<Rightarrow> step_result \<Rightarrow> ('s, 'x, unit) exec" where
  "put_result n r = ctxS (\<lambda>c. c \<lparr>cx_step_results := dict_set n r (cx_step_results c)\<rparr>)"

definition auditS :: "('s, 'x) service_env \<Rightarrow> string \<Rightarrow> int option \<Rightarrow> bool \<Rightarrow> ('s, 'x, unit) exec" where
  "auditS env ty n ok = modS (\<lambda>st. if sv_audited env
     then st \<lparr>xs_audit := xs_audit st @ [\<lparr>au_type = ty, au_step = n, au_ok = ok\<rparr>]\<rparr> else st)"

definition trackS :: "('s, 'x) service_env \<Rightarrow> tracker_event \<Rightarrow> ('s, 'x, unit) exec" where
  "trackS env e = modS (\<lambda>st. if sv_tracked env then st \<lparr>xs_tracker := xs_tracker st @ [e]\<rparr> else st)"

definition extS :: "('x \<Rightarrow> (exec_error + 'a) \<times> 'x) \<Rightarrow> ('s, 'x, 'a) exec" where
  "extS f st = (let (r, x) = f (xs_ext st) in (r, st \<lparr>xs_ext := x\<rparr>))"

definition resS :: "exec_error + 'a \<Rightarrow> ('s, 'x, 'a) exec" where
  "resS r st = (r, st)"

section \<open>Before execution\<close>

definition validate_approval_token :: "('s, 'x) service_env \<Rightarrow> int \<Rightarrow> string \<Rightarrow> plan \<Rightarrow> exec_error option" where
  "validate_approval_token env now token p =
     (case sv_decode env now token of
        Jwt_claims c \<Rightarrow> check_that (jget c ''plan_id'' JNull = JStr (pl_plan_id p)) (Approval_token_error ''plan_id mismatch'')
      | Jwt_expired \<Rightarrow> Some (Approval_token_error ''Signature has expired.'')
      | Jwt_invalid \<Rightarrow> Some (Approval_token_error ''Signature verification failed.''))"

definition check_plan_ttl :: "('s, 'x) service_env \<Rightarrow> int \<Rightarrow> plan \<Rightarrow> exec_error option" where
  "check_plan_ttl env now p =
     (case sv_parse_iso env (pm_created_at (pl_meta p)) of
        None \<Rightarrow> None
      | Some created \<Rightarrow> check_that (now - created \<le> pc_ttl_s (pl_constraints p) * sec)
          (Plan_expired (pl_plan_id p) (pc_ttl_s (pl_constraints p))))"

section \<open>Gates and skipped steps\<close>

text \<open>\<open>request.preview_state.get(k) if request.preview_state else None\<close>.\<close>

definition preview_get :: "exec_request \<Rightarrow> string \<Rightarrow> json" where
  "preview_get req k = (case ex_preview_state req of None \<Rightarrow> JNull | Some d \<Rightarrow> jget d k JNull)"

definition completed_key :: "int \<Rightarrow> string" where
  "completed_key n = ''completed_step_'' @ show_int n"

definition as_result :: "json \<Rightarrow> (exec_error + jobj option)" where
  "as_result j = (case j of JObj d \<Rightarrow> Inr (Some d) | JNull \<Rightarrow> Inr None
     | _ \<Rightarrow> Inl (Other_error ''ValidationError'' ''result''))"

definition should_skip :: "exec_request \<Rightarrow> plan_step \<Rightarrow> ('s, 'x, bool) exec" where
  "should_skip req s =
     (if ps_execute_mode s = Some Preview_only
      then bindS (resS (as_result (preview_get req (show_int (ps_step s))))) (\<lambda>r.
        thenS (put_result (ps_step s) (completed_result (ps_step s) r \<lparr>rs_status := R_skipped\<rparr>)) (retS True))
      else (case ex_preview_state req of
          None \<Rightarrow> retS False
        | Some d \<Rightarrow> (case dict_get d (completed_key (ps_step s)) of
            None \<Rightarrow> retS False
          | Some v \<Rightarrow> bindS (resS (as_result v)) (\<lambda>r.
              thenS (put_result (ps_step s) (completed_result (ps_step s) r)) (retS True)))))"

text \<open>The gate a step waits for, when it has one that the request does not approve.\<close>

definition closed_gate :: "exec_request \<Rightarrow> plan_step \<Rightarrow> string option" where
  "closed_gate req s = (case ps_gate_id s of
       None \<Rightarrow> None
     | Some g \<Rightarrow> if g \<noteq> [] \<and> \<not> truthy (preview_get req g) then Some g else None)"

definition partial_results :: "exec_ctx \<Rightarrow> (string \<times> step_result) list" where
  "partial_results c = map (\<lambda>(n, r). (''step_'' @ show_int n, r)) (cx_step_results c)"

definition gate_error :: "('s, 'x) service_env \<Rightarrow> exec_request \<Rightarrow> plan_step \<Rightarrow> string \<Rightarrow> exec_ctx \<Rightarrow> exec_error" where
  "gate_error env req s g c =
     (let shown = (case sv_resolve env (ps_args s) (cx_step_results c) (ex_preview_state req) of
            Inr a \<Rightarrow> a | Inl _ \<Rightarrow> ps_args s)
      in Gate_required g (ps_step s)
           [(''role'', JStr (role_name (ps_role s))), (''uses'', JStr (ps_uses s)), (''args'', JObj shown)]
           (partial_results c))"

section \<open>API steps\<close>

definition is_virtual :: "string \<Rightarrow> bool" where
  "is_virtual uses \<longleftrightarrow> starts_with ''system.'' uses \<or> starts_with ''system_'' uses"

definition skipped_fields :: "string list" where
  "skipped_fields = [''content'', ''_raw_content'', ''spawn_requests'', ''_note'', ''_truncated'', ''_summary'']"

definition copy_fields :: "jobj \<Rightarrow> jobj \<Rightarrow> jobj" where
  "copy_fields up acc = fold (\<lambda>(k, v) d. if k \<in> set skipped_fields then d else dict_set k v d) up acc"

definition context_refs :: "plan_step \<Rightarrow> (int, step_result) dict \<Rightarrow> int list" where
  "context_refs s results = (if ps_context_from s \<noteq> [] then ps_context_from s else sort (dict_keys results))"

definition upstream_fields :: "(int, step_result) dict \<Rightarrow> int list \<Rightarrow> jobj \<Rightarrow> jobj" where
  "upstream_fields results refs acc = fold (\<lambda>n d.
     case dict_get results n of
       None \<Rightarrow> d
     | Some r \<Rightarrow> (case rs_result r of None \<Rightarrow> d | Some up \<Rightarrow> copy_fields up d)) refs acc"

text \<open>\<open>len(choice) > 10 and "T" in choice\<close>; other values have no \<open>len\<close>.\<close>

fun names_a_time :: "json \<Rightarrow> exec_error + bool" where
  "names_a_time (JStr x) = Inr (10 < length x \<and> CHR ''T'' \<in> set x)"
| "names_a_time (JArr xs) = Inr (10 < length xs \<and> JStr ''T'' \<in> set xs)"
| "names_a_time (JObj d) = Inr (10 < length d \<and> dict_get d ''T'' \<noteq> None)"
| "names_a_time _ = Inl (Other_error ''TypeError'' ''object has no len()'')"

definition gate_only_result :: "exec_request \<Rightarrow> plan_step \<Rightarrow> (int, step_result) dict \<Rightarrow> exec_error + jobj" where
  "gate_only_result req s results =
     (let choice = (case ps_gate_id s of None \<Rightarrow> JNull | Some g \<Rightarrow> if g = [] then JNull else preview_get req g);
          r0 = [(''approved'', JBool True), (''choice'', choice), (''step'', JInt (ps_step s))];
          r1 = upstream_fields results (context_refs s results) r0
      in if \<not> truthy choice then Inr r1
         else bind_res (names_a_time choice) (\<lambda>b.
           Inr (if b then dict_set ''recommended_time'' choice r1 else r1)))"

definition lock_key_of :: "exec_request \<Rightarrow> plan_step \<Rightarrow> string" where
  "lock_key_of req s = ''lock:resource:'' @ ex_user_id req @ '':'' @ ps_uses s @ '':'' @ ps_call s"

definition invokeS :: "('s, 'x) service_env \<Rightarrow> plan_step \<Rightarrow> string \<Rightarrow> string \<Rightarrow> jobj \<Rightarrow> (string, string) dict \<Rightarrow> ('s, 'x, jobj) exec" where
  "invokeS env s server tool args creds =
     thenS (modS (\<lambda>st. st \<lparr>xs_trace := xs_trace st @ [\<lparr>iv_step = s, iv_server = server, iv_tool = tool, iv_args = args\<rparr>]\<rparr>))
       (extS (xe_invoke env server tool args creds (ps_timeout_s s)))"

text \<open>Steps 4 to 8, inside the \<open>try\<close>.\<close>

definition dispatch_api :: "('s, 'x) service_env \<Rightarrow> exec_request \<Rightarrow> plan_step \<Rightarrow> (string \<times> string) option \<Rightarrow> jobj \<Rightarrow>
    string option \<Rightarrow> ('s, 'x, jobj) exec" where
  "dispatch_api env req s tool args idem =
     bindS (case dict_get (ex_credentials req) (ps_uses s) of
         None \<Rightarrow> retS None
       | Some cid \<Rightarrow> if cid = [] then retS None
           else bindS (extS (sv_vault env cid (ex_user_id req))) (\<lambda>p. retS (Some p))) (\<lambda>cred.
     bindS (readS (\<lambda>st. cx_user_id (xs_ctx st))) (\<lambda>user.
     let creds = [(''user_id'', user)] @ (case cred of None \<Rightarrow> [] | Some p \<Rightarrow> if p = [] then [] else [(''token'', p)]);
         name = (case tool of None \<Rightarrow> ps_uses s | Some (n, _) \<Rightarrow> n);
         server = (case tool of None \<Rightarrow> ps_uses s | Some (_, v) \<Rightarrow> v)
     in bindS (execute_with_retry env (sv_retry env) (invokeS env s server name args creds)) (\<lambda>r.
        thenS (case idem of None \<Rightarrow> retS () | Some k \<Rightarrow> mark_succeeded env k r) (retS r))))"

definition guarded_dispatch :: "('s, 'x) service_env \<Rightarrow> exec_request \<Rightarrow> plan_step \<Rightarrow> (string \<times> string) option \<Rightarrow> jobj \<Rightarrow>
    string option \<Rightarrow> string option \<Rightarrow> ('s, 'x, jobj) exec" where
  "guarded_dispatch env req s tool args idem lock =
     finallyS
       (tryS (dispatch_api env req s tool args idem)
          (\<lambda>e. thenS (case idem of None \<Rightarrow> retS () | Some k \<Rightarrow> mark_failed env k ''execution_failed'') (throwS e)))
       (case lock of None \<Rightarrow> retS () | Some k \<Rightarrow> release env k)"

text \<open>\<open>if cached and cached.result\<close>: an empty result does not count.\<close>

definition usable_cached :: "step_result option \<Rightarrow> jobj option" where
  "usable_cached c = (case c of None \<Rightarrow> None
     | Some r \<Rightarrow> (case rs_result r of None \<Rightarrow> None | Some d \<Rightarrow> if d = [] then None else Some d))"

definition execute_api_step :: "('s, 'x) service_env \<Rightarrow> exec_request \<Rightarrow> plan_step \<Rightarrow> ('s, 'x, jobj) exec" where
  "execute_api_step env req s =
     (let tool = sv_tool env (ps_uses s) (ps_call s) in
      if tool = None \<and> (ps_role s = Resolver \<or> is_virtual (ps_uses s))
      then bindS (readS step_results) (\<lambda>rs. resS (gate_only_result req s rs))
      else bindS (readS step_results) (\<lambda>rs.
        bindS (resS (sv_resolve env (ps_args s) rs (ex_preview_state req))) (\<lambda>args0.
        let args = AList.delete ''dry_run'' args0 in
        if ps_role s \<noteq> Booker then guarded_dispatch env req s tool args None None
        else bindS (readS (\<lambda>st. pl_plan_id (cx_plan (xs_ctx st)))) (\<lambda>pid.
          let key = build_key env (ex_user_id req) (ps_uses s) pid (ps_step s) (ps_call s) args in
          bindS (check_and_claim env key (ex_trace_id req) default_timeout_minutes) (\<lambda>cached.
            case usable_cached cached of
              Some r \<Rightarrow> retS r
            | None \<Rightarrow> thenS (acquire env (lock_key_of req s) lock_ttl_seconds)
                (guarded_dispatch env req s tool args (Some key) (Some (lock_key_of req s))))))))"

section \<open>Policy checks and sanitizers\<close>

definition policyS :: "('s, 'x) service_env \<Rightarrow> spawn_request \<Rightarrow> ('s, 'x, policy_decision) exec" where
  "policyS env q st =
     (if \<not> spawn_request_ok q then (Inl (Other_error ''ValidationError'' ''SpawnRequest''), st)
      else case evaluate_spawn (sv_policy env) (clock env st) q (xs_policy st) of
        (Inl e, ps) \<Rightarrow> (Inl (Other_error ''PolicyError'' ''policy''), st \<lparr>xs_policy := ps\<rparr>)
      | (Inr d, ps) \<Rightarrow> (Inr d, st \<lparr>xs_policy := ps\<rparr>))"

definition total_steps :: "exec_ctx \<Rightarrow> nat" where
  "total_steps c = length (pl_graph (cx_plan c)) + length (cx_spawned_steps c)"

definition execute_policy_check :: "('s, 'x) service_env \<Rightarrow> plan_step \<Rightarrow> ('s, 'x, jobj) exec" where
  "execute_policy_check env s = bindS (readS xs_ctx) (\<lambda>c.
     bindS (policyS env \<lparr>sr_plan_id = pl_plan_id (cx_plan c), sr_plan_revision = max (cx_plan_revision c) 1,
        sr_spawning_step = ps_step s, sr_proposed_steps = [step_dump s],
        sr_current_step_count = int (total_steps c), sr_plan_plugins = pl_plugins (cx_plan c),
        sr_policy_ref = ps_policy_ref s, sr_ancestor_verdicts = [], sr_scanner_degraded = False\<rparr>)
       (\<lambda>d. retS (sv_dump_decision env d)))"

fun resolve_sanitizer_input :: "(int, step_result) dict \<Rightarrow> int list \<Rightarrow> json" where
  "resolve_sanitizer_input rs [] = JNull"
| "resolve_sanitizer_input rs (n # ns) = (case dict_get rs n of
     None \<Rightarrow> resolve_sanitizer_input rs ns
   | Some r \<Rightarrow> (case rs_result r of None \<Rightarrow> resolve_sanitizer_input rs ns | Some d \<Rightarrow> JObj d))"

definition execute_sanitizer_step :: "('s, 'x) service_env \<Rightarrow> plan_step \<Rightarrow> ('s, 'x, jobj) exec" where
  "execute_sanitizer_step env s =
     (case sv_filter env of
        None \<Rightarrow> throwS (Step_execution (ps_step s) ''FilterService not configured'')
      | Some scan \<Rightarrow> bindS (readS step_results) (\<lambda>rs.
          bindS (extS (\<lambda>x. case scan (resolve_sanitizer_input rs (ps_context_from s))
                   (jget (ps_args s) ''load_bearing_fields'' (JArr []))
                   (jget (ps_args s) ''strict_mode'' (JBool False)) (ps_step s) x of
                 (Inl f, x1) \<Rightarrow> (Inr (Inl f), x1) | (Inr z, x1) \<Rightarrow> (Inr (Inr z), x1))) (\<lambda>r.
            case r of
              Inl (Load_bearing ty field) \<Rightarrow> retS [(''_error'', JBool True), (''error_type'', JStr ty), (''flagged_field'', JStr field)]
            | Inl (Filter_error ty) \<Rightarrow> retS [(''_error'', JBool True), (''error_type'', JStr ty)]
            | Inl (Filter_crash e) \<Rightarrow> throwS e
            | Inr z \<Rightarrow> thenS (ctxS (\<lambda>c. c \<lparr>cx_sanitizer_verdicts := dict_set (ps_step s) (sz_verdict z) (cx_sanitizer_verdicts c),
                    cx_sanitizer_degraded := cx_sanitizer_degraded c \<or> sz_degraded z\<rparr>)) (retS (sz_dump z)))))"

section \<open>Spawning\<close>

definition all_roles :: "role list" where
  "all_roles = [Fetcher, Analyzer, Watcher, Resolver, Booker, Notifier, Reasoner, Guard]"

definition all_types :: "step_type list" where
  "all_types = [Api, Llm_reasoning, Policy_check, Sanitizer]"

definition parse_role :: "json \<Rightarrow> role option" where
  "parse_role j = find (\<lambda>r. j = JStr (role_name r)) all_roles"

definition parse_type :: "json \<Rightarrow> step_type option" where
  "parse_type j = find (\<lambda>t. j = JStr (step_type_name t)) all_types"

text \<open>The spawned \<open>PlanStep\<close>: a missing key raises \<open>KeyError\<close>, a bad value \<open>ValidationError\<close>.\<close>

definition build_spawned :: "jobj \<Rightarrow> int \<Rightarrow> int \<Rightarrow> exec_error + plan_step" where
  "build_spawned q parent n =
     (case (dict_get q ''role'', dict_get q ''uses'', dict_get q ''call'') of
        (Some r, Some (JStr u), Some (JStr c)) \<Rightarrow>
          (case (parse_role r, parse_type (jget q ''step_type'' (JStr ''api'')), jget q ''args'' (JObj [])) of
             (Some r, Some ty, JObj args) \<Rightarrow>
               if u = [] \<or> c = [] \<or> n < 1 then Inl (Other_error ''ValidationError'' ''PlanStep'')
               else Inr ((new_plan_step n Interactive r u c)
                 \<lparr>ps_type := ty, ps_args := args, ps_spawned_by := Some parent, ps_can_spawn := False, ps_after := [parent]\<rparr>)
           | _ \<Rightarrow> Inl (Other_error ''ValidationError'' ''PlanStep''))
      | (Some _, Some _, Some _) \<Rightarrow> Inl (Other_error ''ValidationError'' ''PlanStep'')
      | _ \<Rightarrow> Inl (Other_error ''KeyError'' ''spawn request''))"

text \<open>The policy named in the decision's reason: the text between the first two quotes.\<close>

definition attested_policy_id :: "reason \<Rightarrow> string" where
  "attested_policy_id r = (case r of Approved_by pid v \<Rightarrow> hd (split_on (CHR 39) pid) | _ \<Rightarrow> ''unknown'')"

definition exec_attestation :: "string \<Rightarrow> int \<Rightarrow> exec_ctx \<Rightarrow> plan_step \<Rightarrow> plan_step \<Rightarrow> policy_decision \<Rightarrow> policy_attestation" where
  "exec_attestation aid now c parent spawned d =
     \<lparr>pa_attestation_id = aid, pa_plan_id = pl_plan_id (cx_plan c), pa_plan_revision = cx_plan_revision c,
      pa_spawned_by_step = ps_step parent, pa_new_steps = [step_dump spawned],
      pa_policy_id = attested_policy_id (pd_reason d),
      pa_policy_version = max (pc_policy_version (pl_constraints (cx_plan c))) 1,
      pa_decision = d, pa_attested_at = now\<rparr>"

definition spawn_gate :: "plan_step \<Rightarrow> plan_step" where
  "spawn_gate s = (if ps_role s = Booker then s \<lparr>ps_gate_id := Some (''gate-spawn-'' @ show_int (ps_step s))\<rparr> else s)"

definition spawn_request_for :: "exec_ctx \<Rightarrow> plan_step \<Rightarrow> plan_step \<Rightarrow> spawn_request" where
  "spawn_request_for c parent spawned =
     \<lparr>sr_plan_id = pl_plan_id (cx_plan c), sr_plan_revision = max (cx_plan_revision c) 1,
      sr_spawning_step = ps_step parent, sr_proposed_steps = [step_dump spawned],
      sr_current_step_count = int (total_steps c) + 1, sr_plan_plugins = pl_plugins (cx_plan c),
      sr_policy_ref = ps_policy_ref parent, sr_ancestor_verdicts = [], sr_scanner_degraded = False\<rparr>"

definition spawned_number :: "exec_ctx \<Rightarrow> int" where
  "spawned_number c = Max (ps_step ` set (pl_graph (cx_plan c))) + int (length (cx_spawned_steps c)) + 1"

definition spawn_limit :: "plan_step \<Rightarrow> int" where
  "spawn_limit parent = (case ps_max_spawned_steps parent of None \<Rightarrow> 3 | Some n \<Rightarrow> if n = 0 then 3 else n)"

definition spawned_by_count :: "exec_ctx \<Rightarrow> plan_step \<Rightarrow> nat" where
  "spawned_by_count c parent = length (filter (\<lambda>s. ps_spawned_by s = Some (ps_step parent)) (cx_spawned_steps c))"

definition record_spawn :: "string \<Rightarrow> int \<Rightarrow> plan_step \<Rightarrow> plan_step \<Rightarrow> policy_decision \<Rightarrow> exec_ctx \<Rightarrow> exec_ctx" where
  "record_spawn aid now parent spawned d c0 =
     (let c = c0 \<lparr>cx_plan_revision := cx_plan_revision c0 + 1\<rparr>
      in c \<lparr>cx_attestations := cx_attestations c @ [exec_attestation aid now c parent spawned d],
            cx_spawned_steps := cx_spawned_steps c @ [spawned]\<rparr>)"

text \<open>\<open>_handle_spawn\<close>: what happens before the policy is asked (the two limits and the new step), and the whole;
  \<open>run\<close> executes the spawned step.\<close>

definition spawn_begin :: "plan_step \<Rightarrow> jobj \<Rightarrow> exec_ctx \<Rightarrow> exec_error + plan_step" where
  "spawn_begin parent q c =
     (if spawn_limit parent \<le> int (spawned_by_count c parent) then Inl (Spawn_denied Spawn_limit_exceeded [])
      else if 100 \<le> total_steps c then Inl (Spawn_denied Plan_limit_exceeded [])
      else bind_res (build_spawned q (ps_step parent) (spawned_number c)) (\<lambda>s. Inr (spawn_gate s)))"

definition handle_spawn :: "(plan_step \<Rightarrow> ('s, 'x, step_result) exec) \<Rightarrow> ('s, 'x) service_env \<Rightarrow> plan_step \<Rightarrow> jobj \<Rightarrow>
    ('s, 'x, unit) exec" where
  "handle_spawn run env parent q = bindS (readS xs_ctx) (\<lambda>c.
     bindS (resS (spawn_begin parent q c)) (\<lambda>spawned.
       bindS (policyS env (spawn_request_for c parent spawned)) (\<lambda>d.
         if \<not> pd_allowed d
         then thenS (auditS env ''policy_denial'' (Some (ps_step parent)) False)
                (throwS (Spawn_denied (pd_reason d) (pd_violations d)))
         else bindS (freshS env) (\<lambda>aid. bindS (readS (clock env)) (\<lambda>now.
           thenS (ctxS (record_spawn aid now parent spawned d))
           (thenS (auditS env ''policy_attestation'' (Some (ps_step parent)) True)
           (if \<not> pd_requires_approval d \<and> ps_gate_id spawned = None
            then bindS (run spawned) (\<lambda>r. put_result (ps_step spawned) r)
            else retS ())))))))"

section \<open>Reasoning steps\<close>

text \<open>The outermost braces of a text: the prefix up to the brace that closes the first one.\<close>

fun closing_prefix :: "nat \<Rightarrow> string \<Rightarrow> string option" where
  "closing_prefix d [] = None"
| "closing_prefix d (c # cs) =
     (if c = CHR ''{'' then map_option ((#) c) (closing_prefix (d + 1) cs)
      else if c = CHR ''}'' then (if d = 1 then Some [c] else map_option ((#) c) (closing_prefix (d - 1) cs))
      else map_option ((#) c) (closing_prefix d cs))"

definition load_object :: "(string \<Rightarrow> json option) \<Rightarrow> string \<Rightarrow> jobj option" where
  "load_object loads x = (case loads x of Some (JObj d) \<Rightarrow> Some d | _ \<Rightarrow> None)"

fun split_fences :: "string \<Rightarrow> string \<Rightarrow> string list" where
  "split_fences acc [] = [rev acc]"
| "split_fences acc (c # cs) =
     (if take 3 (c # cs) = ''```'' then rev acc # split_fences [] (drop 2 cs) else split_fences (c # acc) cs)"

definition fence_candidate :: "string \<Rightarrow> string" where
  "fence_candidate part = (let x = strip part in if starts_with ''json'' x then strip (drop 4 x) else x)"

fun first_object :: "(string \<Rightarrow> json option) \<Rightarrow> string list \<Rightarrow> jobj option" where
  "first_object loads [] = None"
| "first_object loads (p # ps) =
     (let x = fence_candidate p in
      case (if starts_with ''{'' x then load_object loads x else None) of
        Some d \<Rightarrow> Some d | None \<Rightarrow> first_object loads ps)"

definition extract_json_from_content :: "(string \<Rightarrow> json option) \<Rightarrow> string \<Rightarrow> jobj option" where
  "extract_json_from_content loads content =
     (let cleaned = strip content in
      case load_object loads cleaned of Some d \<Rightarrow> Some d
      | None \<Rightarrow> (case (if contains_sub ''```'' cleaned then first_object loads (split_fences [] cleaned) else None) of
          Some d \<Rightarrow> Some d
        | None \<Rightarrow> (case find_sub ''{'' cleaned of None \<Rightarrow> None
          | Some i \<Rightarrow> (case closing_prefix 0 (drop i cleaned) of None \<Rightarrow> None
              | Some x \<Rightarrow> load_object loads x))))"

text \<open>The intent's date and time as a recommended time. The time is padded when its \<open>len\<close> is at
  most 5; a value without \<open>len\<close>, or a short one that is no text, raises.\<close>

fun time_text :: "(json \<Rightarrow> string) \<Rightarrow> json \<Rightarrow> exec_error + string" where
  "time_text rep (JStr t) = Inr (if length t \<le> 5 \<and> count_list t (CHR '':'') < 2 then t @ '':00'' else t)"
| "time_text rep (JArr xs) = (if length xs \<le> 5 \<and> count_list xs (JStr '':'') < 2
     then Inl (Other_error ''TypeError'' ''time'') else Inr (rep (JArr xs)))"
| "time_text rep (JObj d) = (if length d \<le> 5 then Inl (Other_error ''AttributeError'' ''time'') else Inr (rep (JObj d)))"
| "time_text rep j = Inl (Other_error ''TypeError'' ''time'')"

definition build_reasoner_fallback :: "(json \<Rightarrow> string) \<Rightarrow> intent \<Rightarrow> exec_error + jobj option" where
  "build_reasoner_fallback rep it =
     (let es = in_entities it; date = jget es ''date'' (JStr '''');
          time = jget es ''time'' (jget es ''start_time'' (JStr '''')) in
      if es = [] \<or> \<not> truthy date then Inr None
      else bind_res (if truthy time then time_text rep time else Inr ''09:00:00'') (\<lambda>t.
        Inr (Some [(''recommended_time'', JStr (fstring rep date @ ''T'' @ t)), (''has_conflict'', JBool False),
          (''conflicts'', JArr []), (''reason'', JStr ''Using requested time (Reasoner analysis unavailable)'')])))"

definition dict_merge :: "jobj \<Rightarrow> jobj \<Rightarrow> jobj" where
  "dict_merge d new = fold (\<lambda>(k, v). dict_set k v) new d"

definition add_missing :: "jobj \<Rightarrow> jobj \<Rightarrow> jobj" where
  "add_missing d new = fold (\<lambda>(k, v) acc. if dict_get acc k = None then dict_set k v acc else acc) new d"

text \<open>What the loop over the spawn requests visits: a dictionary gives its keys, a text its characters. A request that is
  no dictionary fails when its turn comes.\<close>

definition spawn_requests :: "jobj \<Rightarrow> exec_error + json list" where
  "spawn_requests resp = (case jget resp ''spawn_requests'' (JArr []) of
       JArr js \<Rightarrow> Inr js
     | JObj d \<Rightarrow> Inr (map (JStr \<circ> fst) d)
     | JStr x \<Rightarrow> Inr (map (\<lambda>c. JStr [c]) x)
     | _ \<Rightarrow> Inl (Other_error ''TypeError'' ''spawn_requests''))"

definition spawn_item :: "(plan_step \<Rightarrow> ('s, 'x, step_result) exec) \<Rightarrow> ('s, 'x) service_env \<Rightarrow> plan_step \<Rightarrow> json \<Rightarrow>
    ('s, 'x, unit) exec" where
  "spawn_item run env parent j = (case j of
       JObj q \<Rightarrow> handle_spawn run env parent q
     | _ \<Rightarrow> throwS (Other_error ''AttributeError'' ''get''))"

definition parse_content :: "('s, 'x) service_env \<Rightarrow> jobj \<Rightarrow> exec_error + jobj" where
  "parse_content env resp = (case jget resp ''content'' (JStr '''') of
       JStr x \<Rightarrow> if x = [] then Inr resp
         else (case extract_json_from_content (xe_loads env) x of
             None \<Rightarrow> Inr resp
           | Some d \<Rightarrow> Inr (dict_merge (dict_set ''_raw_content'' (JStr x) resp) d))
     | j \<Rightarrow> if truthy j then Inl (Other_error ''AttributeError'' ''content'') else Inr resp)"

definition tier1_schema :: "string \<Rightarrow> plan_step \<Rightarrow> string option" where
  "tier1_schema trust s = (if trust \<noteq> ''untrusted_input'' then None
     else case ps_reasoning_config s of None \<Rightarrow> None
       | Some c \<Rightarrow> (case rc_output_schema_ref c of None \<Rightarrow> None | Some r \<Rightarrow> if r = [] then None else Some r))"

text \<open>Step 6 reads the content again, after the parsed fields were merged over it.\<close>

definition check_schema :: "('s, 'x) service_env \<Rightarrow> plan_step \<Rightarrow> string \<Rightarrow> jobj \<Rightarrow> exec_error + jobj" where
  "check_schema env s ref resp =
     (if ref \<notin> set schema_registry then Inr resp
      else case jget resp ''content'' (JStr '''') of
        JStr x \<Rightarrow> (case extract_json_from_content (xe_loads env) x of
            None \<Rightarrow> Inl (Step_execution (ps_step s) (''Tier 1 schema validation failed: could not extract JSON for schema '' @ ref))
          | Some d \<Rightarrow> if sv_schema_ok env ref d then Inr resp
              else Inl (Step_execution (ps_step s) (''Tier 1 schema validation failed for '' @ ref)))
      | _ \<Rightarrow> Inl (Other_error ''AttributeError'' ''content''))"

definition intent_entry :: "intent \<Rightarrow> json" where
  "intent_entry it = JObj [(''step'', JStr ''intent''),
     (''result'', JObj [(''intent'', JStr (in_intent it)), (''entities'', JObj (in_entities it)), (''tz'', JStr (in_tz it))])]"

definition reasoning_context :: "('s, 'x) service_env \<Rightarrow> plan_step \<Rightarrow> exec_ctx \<Rightarrow> json list" where
  "reasoning_context env s c =
     concat (map (\<lambda>n. case dict_get (cx_step_results c) n of None \<Rightarrow> []
         | Some r \<Rightarrow> [JObj [(''step'', JInt n), (''result'', sv_summarize env (rs_result r))]])
       (context_refs s (cx_step_results c))) @ [intent_entry (pl_intent (cx_plan c))]"

definition wrapped_config :: "('s, 'x) service_env \<Rightarrow> plan_step \<Rightarrow> exec_ctx \<Rightarrow> reasoning_config option" where
  "wrapped_config env s c = map_option (\<lambda>rc. rc
     \<lparr>rc_system_prompt_ref := sv_wrap_prompt env (in_intent (pl_intent (cx_plan c))) (rc_system_prompt_ref rc),
      rc_max_tokens := max (rc_max_tokens rc) 1024\<rparr>) (ps_reasoning_config s)"

definition trust_of :: "plan_step \<Rightarrow> string" where
  "trust_of s = (case ps_trust_level s of None \<Rightarrow> ''untrusted_input'' | Some t \<Rightarrow> trust_level_name t)"

definition execute_reasoning_step :: "(plan_step \<Rightarrow> ('s, 'x, step_result) exec) \<Rightarrow> ('s, 'x) service_env \<Rightarrow> plan_step \<Rightarrow>
    ('s, 'x, jobj) exec" where
  "execute_reasoning_step run env s = bindS (readS xs_ctx) (\<lambda>c.
     bindS (extS (sv_llm env (wrapped_config env s c) (reasoning_context env s c) (trust_of s))) (\<lambda>resp.
     thenS (if trust_of s = ''trusted'' \<and> ps_can_spawn s
            then bindS (resS (spawn_requests resp)) (forS (spawn_item run env s)) else retS ())
     (bindS (resS (parse_content env resp)) (\<lambda>resp1.
       case tier1_schema (trust_of s) s of
         Some ref \<Rightarrow> resS (check_schema env s ref resp1)
       | None \<Rightarrow>
           if dict_get resp1 ''recommended_time'' \<noteq> None then retS resp1
           else bindS (resS (build_reasoner_fallback (pv_repr (sv_policy env)) (pl_intent (cx_plan c)))) (\<lambda>fb.
             retS (case fb of None \<Rightarrow> resp1 | Some d \<Rightarrow> add_missing resp1 d))))))"

section \<open>Step dispatch\<close>

definition run_step :: "(plan_step \<Rightarrow> ('s, 'x, step_result) exec) \<Rightarrow> ('s, 'x) service_env \<Rightarrow> exec_request \<Rightarrow> plan_step \<Rightarrow>
    ('s, 'x, step_result) exec" where
  "run_step run env req s =
     (case closed_gate req s of
        Some g \<Rightarrow> bindS (readS xs_ctx) (\<lambda>c. throwS (gate_error env req s g c))
      | None \<Rightarrow> bindS (readS (clock env)) (\<lambda>t0.
          bindS (case ps_type s of
              Api \<Rightarrow> execute_api_step env req s
            | Llm_reasoning \<Rightarrow> execute_reasoning_step run env s
            | Policy_check \<Rightarrow> execute_policy_check env s
            | Sanitizer \<Rightarrow> execute_sanitizer_step env s) (\<lambda>r.
          bindS (readS (clock env)) (\<lambda>t1.
            thenS (auditS env ''step_completed'' (Some (ps_step s)) True)
              (retS (completed_result (ps_step s) (Some r) \<lparr>rs_latency_ms := (t1 - t0) div 1000\<rparr>))))))"

text \<open>\<open>_execute_step\<close> calls itself for a spawned step, which never spawns (\<open>can_spawn=False\<close>), so
  one level of recursion is all there is: the innermost \<open>run\<close> is not reached.\<close>

definition no_run :: "plan_step \<Rightarrow> ('s, 'x, step_result) exec" where
  "no_run s = throwS (Other_error ''RecursionError'' ''spawned step spawned'')"

definition execute_step :: "('s, 'x) service_env \<Rightarrow> exec_request \<Rightarrow> plan_step \<Rightarrow> ('s, 'x, step_result) exec" where
  "execute_step env req s = run_step (run_step no_run env req) env req s"

section \<open>Failures\<close>

definition find_recovery_reasoner :: "plan_step list \<Rightarrow> plan_step option" where
  "find_recovery_reasoner g = find (\<lambda>s. ps_role s = Reasoner \<and> ps_can_spawn s) g"

definition max_recovery_actions :: int where "max_recovery_actions = 5"

text \<open>\<open>_run_compensation\<close>: newest first; a record without an operation is passed over and a
  failing one is logged. The step recorded with the invocation is the one it undoes.\<close>

definition compensate_one :: "('s, 'x) service_env \<Rightarrow> compensation_record \<Rightarrow> ('s, 'x, unit) exec" where
  "compensate_one env r = (case cr_compensation_operation r of
       None \<Rightarrow> retS ()
     | Some c \<Rightarrow> tryS (bindS (invokeS env ((new_plan_step (cr_step r) Interactive Booker (cr_tool_id r) c) \<lparr>ps_timeout_s := 30\<rparr>)
           (cr_tool_id r) c (case cr_compensation_args r of None \<Rightarrow> [] | Some a \<Rightarrow> a) []) (\<lambda>_. retS ()))
         (\<lambda>_. retS ()))"

definition run_compensation :: "('s, 'x) service_env \<Rightarrow> ('s, 'x, unit) exec" where
  "run_compensation env = bindS (readS (\<lambda>st. cx_compensation_stack (xs_ctx st))) (\<lambda>rs.
     forS (compensate_one env) (rev rs))"

definition failed_result :: "('s, 'x) service_env \<Rightarrow> plan_step \<Rightarrow> exec_error \<Rightarrow> step_result" where
  "failed_result env s e = \<lparr>rs_step = ps_step s, rs_status = R_failed, rs_result = None,
     rs_error = Some [(''failed_step'', JInt (ps_step s)), (''error_type'', JStr (error_class e)),
       (''error_details'', JStr (error_text (sv_reason_text env) e)),
       (''step_role'', JStr (role_name (ps_role s))), (''step_tool'', JStr (ps_uses s))],
     rs_latency_ms = 0, rs_retries = 0\<rparr>"

definition handle_step_failure :: "('s, 'x) service_env \<Rightarrow> exec_request \<Rightarrow> plan_step \<Rightarrow> exec_error \<Rightarrow> ('s, 'x, unit) exec" where
  "handle_step_failure env req s e =
     thenS (auditS env ''step_failed'' (Some (ps_step s)) False)
     (case check_integration_not_connected (sv_reason_text env) e s of
        Some e' \<Rightarrow> throwS e'
      | None \<Rightarrow> bindS (readS xs_ctx) (\<lambda>c.
          let msg = error_text (sv_reason_text env) e in
          case find_recovery_reasoner (pl_graph (cx_plan c)) of
            None \<Rightarrow> thenS (run_compensation env) (throwS (Step_execution (ps_step s) msg))
          | Some reasoner \<Rightarrow>
              if max_recovery_actions \<le> cx_recovery_action_count c
              then thenS (run_compensation env) (throwS (Recovery_exhausted (ps_step s) (cx_recovery_action_count c)))
              else thenS (put_result (ps_step s) (failed_result env s e))
                (thenS (ctxS (\<lambda>c. c \<lparr>cx_recovery_action_count := cx_recovery_action_count c + 1\<rparr>))
                (tryS (bindS (execute_step env req reasoner) (\<lambda>_. retS ()))
                  (\<lambda>_. thenS (run_compensation env) (throwS (Step_execution (ps_step s) msg)))))))"

section \<open>Levels\<close>

text \<open>The list comprehension over the level: the steps that are not skipped.\<close>

primrec executable_steps :: "exec_request \<Rightarrow> plan_step list \<Rightarrow> ('s, 'x, plan_step list) exec" where
  "executable_steps req [] = retS []"
| "executable_steps req (s # ss) = bindS (should_skip req s) (\<lambda>b.
     bindS (executable_steps req ss) (\<lambda>es. retS (if b then es else s # es)))"

text \<open>\<open>asyncio.gather(..., return_exceptions=True)\<close>.\<close>

primrec gather :: "('a \<Rightarrow> ('s, 'x, 'b) exec) \<Rightarrow> 'a list \<Rightarrow> ('s, 'x, ('a \<times> (exec_error + 'b)) list) exec" where
  "gather f [] = retS []"
| "gather f (x # xs) = (\<lambda>st. case f x st of (r, st1) \<Rightarrow>
     bindS (gather f xs) (\<lambda>rs. retS ((x, r) # rs)) st1)"

definition settle :: "('s, 'x) service_env \<Rightarrow> exec_request \<Rightarrow> plan_step \<times> (exec_error + step_result) \<Rightarrow> ('s, 'x, unit) exec" where
  "settle env req p = (case snd p of
       Inr r \<Rightarrow> put_result (ps_step (fst p)) r
     | Inl (Gate_required g n c ps) \<Rightarrow> throwS (Gate_required g n c ps)
     | Inl e \<Rightarrow> handle_step_failure env req (fst p) e)"

text \<open>\<open>asyncio.gather\<close> runs the steps of a level concurrently; here they run in the order of the list, each after the effects of
  the earlier ones. For what may depend on the order, the steps they spawn, \<open>Spawn_Race\<close> has every interleaving.\<close>

definition execute_level :: "('s, 'x) service_env \<Rightarrow> exec_request \<Rightarrow> plan_step list \<Rightarrow> ('s, 'x, unit) exec" where
  "execute_level env req level = bindS (executable_steps req level) (\<lambda>es.
     bindS (gather (execute_step env req) es) (forS (settle env req)))"

section \<open>The outcome\<close>

record plan_outcome =
  oc_success :: bool
  oc_error_type :: "string option"
  oc_error_message :: "string option"
  oc_execution_start :: int
  oc_execution_end :: int
  oc_total_steps :: nat
  oc_failed_step :: "int option"
  oc_context_data :: "(string, jobj) dict option"
  oc_final_graph :: "plan_step list option"
  oc_plan_revision :: int
  oc_policy_attestations :: "policy_attestation list"
  oc_persist_status :: "string option"

definition status_name :: "result_status \<Rightarrow> string" where
  "status_name r = (case r of R_completed \<Rightarrow> ''completed'' | R_failed \<Rightarrow> ''failed'' | R_skipped \<Rightarrow> ''skipped'')"

definition all_steps :: "exec_ctx \<Rightarrow> (int, plan_step) dict" where
  "all_steps c = fold (\<lambda>s. dict_set (ps_step s) s) (pl_graph (cx_plan c) @ cx_spawned_steps c) []"

definition context_entry :: "exec_ctx \<Rightarrow> int \<Rightarrow> step_result \<Rightarrow> jobj" where
  "context_entry c n r =
     [(''status'', JStr (status_name (rs_status r))), (''latency_ms'', JInt (rs_latency_ms r))] @
     (case dict_get (all_steps c) n of None \<Rightarrow> []
      | Some s \<Rightarrow> [(''role'', JStr (role_name (ps_role s))), (''uses'', JStr (ps_uses s))] @
          (case rs_result r of None \<Rightarrow> []
           | Some d \<Rightarrow> if ps_role s \<in> {Reasoner, Analyzer} \<or> starts_with ''system.'' (ps_uses s)
               then [(''result'', JObj d)] else []))"

definition build_outcome :: "int \<Rightarrow> int \<Rightarrow> exec_ctx \<Rightarrow> plan_outcome" where
  "build_outcome started ended c =
     \<lparr>oc_success = True, oc_error_type = None, oc_error_message = None, oc_execution_start = started,
      oc_execution_end = ended, oc_total_steps = total_steps c, oc_failed_step = None,
      oc_context_data = Some (map (\<lambda>(n, r). (''step_'' @ show_int n, context_entry c n r)) (cx_step_results c)),
      oc_final_graph = (if cx_spawned_steps c = [] then None else Some (pl_graph (cx_plan c) @ cx_spawned_steps c)),
      oc_plan_revision = cx_plan_revision c, oc_policy_attestations = cx_attestations c, oc_persist_status = None\<rparr>"

definition build_error_outcome :: "('s, 'x) service_env \<Rightarrow> exec_error \<Rightarrow> int \<Rightarrow> int \<Rightarrow> exec_ctx \<Rightarrow> plan_outcome" where
  "build_error_outcome env e started ended c =
     \<lparr>oc_success = False, oc_error_type = Some (classify_error e),
      oc_error_message = Some (error_text (sv_reason_text env) e), oc_execution_start = started,
      oc_execution_end = ended, oc_total_steps = total_steps c, oc_failed_step = error_step e,
      oc_context_data = None, oc_final_graph = None, oc_plan_revision = cx_plan_revision c,
      oc_policy_attestations = cx_attestations c, oc_persist_status = None\<rparr>"

definition persist_outcome :: "('s, 'x) service_env \<Rightarrow> exec_request \<Rightarrow> plan_outcome \<Rightarrow> ('s, 'x, plan_outcome) exec" where
  "persist_outcome env req out st =
     (let (r, x) = sv_persist env (pl_plan_id (ex_plan req)) (oc_success out) (xs_ext st) in
      (Inr (out \<lparr>oc_persist_status := Some (case r of Persisted t \<Rightarrow> t | Persist_failed \<Rightarrow> ''error'')\<rparr>),
       st \<lparr>xs_ext := x\<rparr>))"

section \<open>Executing a plan\<close>

primrec run_levels :: "('s, 'x) service_env \<Rightarrow> exec_request \<Rightarrow> plan_step list list \<Rightarrow> nat \<Rightarrow> ('s, 'x, unit) exec" where
  "run_levels env req [] n = retS ()"
| "run_levels env req (l # ls) n = thenS (execute_level env req l)
     (thenS (trackS env (Progress (pl_plan_id (ex_plan req)) (n + length l))) (run_levels env req ls (n + length l)))"

definition check_request :: "('s, 'x) service_env \<Rightarrow> exec_request \<Rightarrow> ('s, 'x, unit) exec" where
  "check_request env req = bindS (readS (clock env)) (\<lambda>t.
     case validate_approval_token env t (ex_token req) (ex_plan req) of Some e \<Rightarrow> throwS e
     | None \<Rightarrow> bindS (readS (clock env)) (\<lambda>t1.
         case check_plan_ttl env t1 (ex_plan req) of Some e \<Rightarrow> throwS e | None \<Rightarrow> retS ()))"

definition resolve_levels :: "plan_step list \<Rightarrow> exec_error + plan_step list list" where
  "resolve_levels g = (case resolve g of
       Some (Inr ls) \<Rightarrow> Inr ls
     | Some (Inl (Cycle_detected p n)) \<Rightarrow> Inl (Cycle_error p n)
     | _ \<Rightarrow> Inl (Other_error ''ValueError'' ''Plan graph must contain at least one step''))"

definition run_phases :: "('s, 'x) service_env \<Rightarrow> exec_request \<Rightarrow> ('s, 'x, unit) exec" where
  "run_phases env req = thenS (check_request env req)
     (bindS (resS (resolve_levels (pl_graph (ex_plan req)))) (\<lambda>ls. run_levels env req ls 0))"

definition start_execution :: "('s, 'x) service_env \<Rightarrow> exec_request \<Rightarrow> ('s, 'x, unit) exec" where
  "start_execution env req =
     thenS (ctxS (\<lambda>_. new_ctx (ex_plan req) (ex_user_id req) (ex_trace_id req)))
     (thenS (auditS env ''execution_started'' None True)
     (trackS env (Registered (pl_plan_id (ex_plan req)) (length (pl_graph (ex_plan req))))))"

definition finish_execution :: "('s, 'x) service_env \<Rightarrow> exec_request \<Rightarrow> plan_outcome \<Rightarrow> ('s, 'x, plan_outcome) exec" where
  "finish_execution env req out =
     thenS (auditS env (if oc_success out then ''execution_completed'' else ''execution_failed'') None (oc_success out))
     (bindS (persist_outcome env req out) (\<lambda>out1.
       thenS (trackS env (Finished (pl_plan_id (ex_plan req)) (oc_success out)
           (if oc_success out then None else oc_error_type out))) (retS out1)))"

definition execute_plan :: "('s, 'x) service_env \<Rightarrow> exec_request \<Rightarrow> ('s, 'x, plan_outcome) exec" where
  "execute_plan env req = bindS (readS (clock env)) (\<lambda>started. thenS (start_execution env req) (\<lambda>st.
     case run_phases env req st of
       (Inl (Gate_required g n c ps), st1) \<Rightarrow> (Inl (Gate_required g n c ps), st1)
     | (Inl e, st1) \<Rightarrow> finish_execution env req (build_error_outcome env e started (clock env st1) (xs_ctx st1)) st1
     | (Inr _, st1) \<Rightarrow> finish_execution env req (build_outcome started (clock env st1) (xs_ctx st1)) st1))"

section \<open>What every run preserves\<close>

text \<open>
  \<open>calm P\<close>: \<open>P\<close> looks only at the execution context and the trace of invocations, so whatever
  touches neither keeps it.
\<close>

definition calm :: "(('s, 'x) xstate \<Rightarrow> bool) \<Rightarrow> bool" where
  "calm P \<longleftrightarrow> (\<forall>st st'. xs_ctx st' = xs_ctx st \<longrightarrow> xs_trace st' = xs_trace st \<longrightarrow> P st \<longrightarrow> P st')"

lemma calmI: "(\<And>st st'. xs_ctx st' = xs_ctx st \<Longrightarrow> xs_trace st' = xs_trace st \<Longrightarrow> P st \<Longrightarrow> P st') \<Longrightarrow> calm P"
  by (auto simp: calm_def)

lemma keeps_calm:
  assumes "calm P" and "\<And>st. xs_ctx (snd (m st)) = xs_ctx st" and "\<And>st. xs_trace (snd (m st)) = xs_trace st"
  shows "keeps P m"
  using assms unfolding keeps_def calm_def by blast

lemma with_redis_calm [simp]:
  "xs_ctx (snd (with_redis env f st)) = xs_ctx st" "xs_trace (snd (with_redis env f st)) = xs_trace st"
  by (simp_all add: with_redis_def split: option.split prod.split)

lemma keeps_quiet:
  assumes "calm P"
  shows "keeps P (with_redis env f)" "keeps P (sleepS env d)" "keeps P (freshS env)" "keeps P (extS g)"
    "keeps P (resS r)" "keeps P (policyS env' q)" "keeps P (auditS env' ty n b)" "keeps P (trackS env' e)"
    "keeps P (persist_outcome env' req out)"
    "keeps P (modS (\<lambda>st. st \<lparr>xs_locks := h (xs_locks st)\<rparr>))"
  by (rule keeps_calm [OF assms];
      simp add: sleepS_def freshS_def extS_def resS_def policyS_def auditS_def trackS_def persist_outcome_def
        Let_def split: prod.split option.split sum.split)+

lemma keeps_adapters:
  assumes "calm P"
  shows "keeps P (put_record env k m)" "keeps P (set_in_flight env k e)" "keeps P (mark_succeeded env k r)"
    "keeps P (mark_failed env k x)" "keeps P (check_and_claim env k e n)" "keeps P (release env k)"
  by (auto simp: put_record_def set_in_flight_def mark_succeeded_def mark_failed_def check_and_claim_def release_def
      intro!: inv_intros keeps_quiet [OF assms] split: claim_decision.split option.split json.split)

lemma keeps_acquire:
  assumes "calm P"
  shows "keeps P (acquire env k t)"
proof -
  have "keeps P (acquire_loop env k ow t n)" for ow n
    by (induction n) (auto intro!: inv_intros keeps_quiet [OF assms])
  then show ?thesis by (auto simp: acquire_def intro!: inv_intros keeps_quiet [OF assms])
qed

lemma keeps_retry:
  assumes "calm P" and "keeps P oper"
  shows "keeps P (execute_with_retry env p oper)"
proof -
  have "keeps P (retry_loop env p oper n k)" for n k
    by (induction n arbitrary: k)
      (auto intro!: inv_intros keeps_quiet [OF assms(1)] assms(2) split: exec_error.split)
  then show ?thesis unfolding execute_with_retry_def .
qed

end
