(* ===== verification/Execute_Safety.thy ===== *)
theory Execute_Safety
  imports Execute_Service
begin

text \<open>
  What every execution preserves, whatever the model, the tools, the policy engine and the network
  answer: the gate discipline of the invocations (\<open>run_inv\<close>) and the settling of levels (\<open>settled\<close>).
  Each invariant is carried from the operations
  of the state monad to \<open>execute_plan\<close> by the introduction rules of \<open>keeps\<close>.
\<close>

section \<open>The trace of a run\<close>

text \<open>What holds of every invocation recorded after the first \<open>k0\<close>: the gate of its step is open, and the step belongs to
  the plan or was spawned, in which case a Booker has a gate.\<close>

definition allowed_step :: "exec_request \<Rightarrow> plan_step \<Rightarrow> bool" where
  "allowed_step req s \<longleftrightarrow> s \<in> set (pl_graph (ex_plan req)) \<or>
     (ps_spawned_by s \<noteq> None \<and> \<not> ps_can_spawn s \<and> (ps_role s = Booker \<longrightarrow> ps_gate_id s \<noteq> None))"

definition run_inv :: "exec_request \<Rightarrow> nat \<Rightarrow> ('s, 'x) xstate \<Rightarrow> bool" where
  "run_inv req k0 st \<longleftrightarrow> cx_plan (xs_ctx st) = ex_plan req \<and> cx_compensation_stack (xs_ctx st) = [] \<and>
     (\<forall>iv\<in>set (drop k0 (xs_trace st)). closed_gate req (iv_step iv) = None \<and> allowed_step req (iv_step iv))"

lemma run_inv_calm [intro]: "calm (run_inv req k0)"
  by (rule calmI) (simp add: run_inv_def)

lemmas run_inv_quiet [inv_intros] = keeps_quiet [OF run_inv_calm] keeps_adapters [OF run_inv_calm]
  keeps_acquire [OF run_inv_calm] keeps_retry [OF run_inv_calm]

lemma run_inv_ctxS [inv_intros]:
  "(\<And>c. cx_plan (f c) = cx_plan c \<and> cx_compensation_stack (f c) = cx_compensation_stack c) \<Longrightarrow>
   keeps (run_inv req k0) (ctxS f)"
  unfolding ctxS_def by (rule keeps_modS) (simp add: run_inv_def)

lemma run_inv_put_result [inv_intros]: "keeps (run_inv req k0) (put_result n r)"
  unfolding put_result_def by (rule run_inv_ctxS) simp

lemma run_inv_should_skip [inv_intros]: "keeps (run_inv req k0) (should_skip req' s)"
  unfolding should_skip_def by (intro inv_intros)

lemma run_inv_invoke [inv_intros]:
  "closed_gate req s = None \<Longrightarrow> allowed_step req s \<Longrightarrow> keeps (run_inv req k0) (invokeS env s server tool args creds)"
  unfolding invokeS_def
  by (intro inv_intros) (auto simp: run_inv_def dest: in_set_dropD)

lemma run_inv_dispatch [inv_intros]:
  assumes "closed_gate req s = None" and "allowed_step req s"
  shows "keeps (run_inv req k0) (dispatch_api env req s tool args idem)"
  unfolding dispatch_api_def Let_def by (intro inv_intros assms)

lemma run_inv_api [inv_intros]:
  assumes "closed_gate req s = None" and "allowed_step req s"
  shows "keeps (run_inv req k0) (execute_api_step env req s)"
  unfolding execute_api_step_def guarded_dispatch_def Let_def by (intro inv_intros assms)

lemma run_inv_policy_check [inv_intros]: "keeps (run_inv req k0) (execute_policy_check env s)"
  unfolding execute_policy_check_def by (intro inv_intros)

lemma run_inv_sanitizer [inv_intros]: "keeps (run_inv req k0) (execute_sanitizer_step env s)"
  unfolding execute_sanitizer_step_def
  by (intro inv_intros) (auto intro!: inv_intros split: sum.split filter_failure.split)

lemma build_spawned_Inr:
  "build_spawned q parent n = Inr s \<Longrightarrow>
     ps_spawned_by s = Some parent \<and> \<not> ps_can_spawn s \<and> ps_step s = n \<and> ps_gate_id s = None"
  by (auto simp: build_spawned_def new_plan_step_def split: option.splits json.splits if_splits)

lemma spawn_gate_simps [simp]:
  "ps_spawned_by (spawn_gate s) = ps_spawned_by s" "ps_can_spawn (spawn_gate s) = ps_can_spawn s"
  "ps_step (spawn_gate s) = ps_step s" "ps_role (spawn_gate s) = ps_role s"
  "ps_role s = Booker \<Longrightarrow> ps_gate_id (spawn_gate s) \<noteq> None"
  by (simp_all add: spawn_gate_def)

lemma spawned_allowed:
  "build_spawned q parent n = Inr s \<Longrightarrow> allowed_step req (spawn_gate s)"
  using build_spawned_Inr [of q parent n s] by (simp add: allowed_step_def)

lemma spawn_begin_Inr:
  "spawn_begin parent q c = Inr s \<Longrightarrow> int (spawned_by_count c parent) < spawn_limit parent \<and> total_steps c < 100 \<and>
     (\<exists>s0. build_spawned q (ps_step parent) (spawned_number c) = Inr s0 \<and> s = spawn_gate s0)"
  by (auto simp: spawn_begin_def bind_res_Inr_iff split: if_splits)

lemma begun_allowed: "spawn_begin parent q c = Inr s \<Longrightarrow> allowed_step req s"
  using spawn_begin_Inr spawned_allowed by blast

lemma run_inv_record [inv_intros]: "keeps (run_inv req k0) (ctxS (record_spawn aid now parent s d))"
  by (rule run_inv_ctxS) (simp add: record_spawn_def Let_def)

lemma keeps_resS_bind:
  "(\<And>a. r = Inr a \<Longrightarrow> keeps P (f a)) \<Longrightarrow> keeps P (bindS (resS r) f)"
  by (cases r) (auto simp: keeps_def bindS_def resS_def)

lemma run_inv_spawn [inv_intros]:
  assumes "\<And>s. allowed_step req s \<Longrightarrow> keeps (run_inv req k0) (run s)"
  shows "keeps (run_inv req k0) (handle_spawn run env parent q)"
  unfolding handle_spawn_def Let_def
  by (intro inv_intros keeps_resS_bind assms begun_allowed) assumption+

lemma run_inv_item [inv_intros]:
  assumes "\<And>s. allowed_step req s \<Longrightarrow> keeps (run_inv req k0) (run s)"
  shows "keeps (run_inv req k0) (spawn_item run env parent j)"
  unfolding spawn_item_def by (cases j) (auto intro!: inv_intros assms)

lemma run_inv_reasoning [inv_intros]:
  assumes "\<And>s. allowed_step req s \<Longrightarrow> keeps (run_inv req k0) (run s)"
  shows "keeps (run_inv req k0) (execute_reasoning_step run env s)"
  unfolding execute_reasoning_step_def by (intro inv_intros assms)

lemma run_inv_run_step:
  assumes "\<And>s. allowed_step req s \<Longrightarrow> keeps (run_inv req k0) (run s)" and "allowed_step req s"
  shows "keeps (run_inv req k0) (run_step run env req s)"
  unfolding run_step_def
  by (intro inv_intros assms) (cases "ps_type s"; auto intro!: inv_intros assms)

lemma run_inv_step [inv_intros]:
  assumes "allowed_step req s"
  shows "keeps (run_inv req k0) (execute_step env req s)"
  unfolding execute_step_def
  by (intro run_inv_run_step assms) (auto simp: no_run_def intro: inv_intros)

lemma run_inv_compensation [inv_intros]: "keeps (run_inv req k0) (run_compensation env)"
  by (auto simp: keeps_def run_compensation_def run_inv_def bindS_def readS_def)

lemma reasoner_allowed:
  "cx_plan c = ex_plan req \<Longrightarrow> find_recovery_reasoner (pl_graph (cx_plan c)) = Some s \<Longrightarrow> allowed_step req s"
  by (auto simp: find_recovery_reasoner_def allowed_step_def find_Some_iff)

text \<open>Reading the context under the invariant gives the plan of the request.\<close>

lemma run_inv_read_ctx:
  assumes "\<And>c. cx_plan c = ex_plan req \<Longrightarrow> keeps (run_inv req k0) (f c)"
  shows "keeps (run_inv req k0) (bindS (readS xs_ctx) f)"
  using assms by (auto simp: keeps_def run_inv_def)

lemma run_inv_failure [inv_intros]: "keeps (run_inv req k0) (handle_step_failure env req s e)"
  unfolding handle_step_failure_def Let_def
  by (intro inv_intros run_inv_read_ctx; (rule reasoner_allowed; assumption)?) simp_all
lemma executable_subset:
  "executable_steps req ss st = (Inr es, st') \<Longrightarrow> set es \<subseteq> set ss"
  by (induction ss arbitrary: es st st') (fastforce elim!: bindS_InrE split: if_splits)+

lemma run_inv_executable [inv_intros]: "keeps (run_inv req k0) (executable_steps req' ss)"
  by (induction ss) (auto intro!: inv_intros)

lemma run_inv_gather:
  assumes "\<And>s. s \<in> set ss \<Longrightarrow> keeps P (f s)"
  shows "keeps P (gather f ss)"
  using assms
proof (induction ss)
  case (Cons s ss)
  have "keeps P (bindS (gather f ss) (\<lambda>rs. retS ((s, r) # rs)))" for r
    using Cons by (intro inv_intros) simp
  moreover have "keeps P (f s)" using Cons by simp
  ultimately show ?case by (auto simp: keeps_def split: prod.split)
qed (auto intro: inv_intros)

lemma run_inv_settle [inv_intros]: "keeps (run_inv req k0) (settle env req p)"
  unfolding settle_def by (intro inv_intros) (auto intro!: inv_intros split: exec_error.split)

lemma keeps_bindS_result:
  assumes "keeps P m" and "\<And>a st st'. m st = (Inr a, st') \<Longrightarrow> keeps P (f a)"
  shows "keeps P (bindS m f)"
  using assms unfolding keeps_def bindS_def by (fastforce split: prod.splits sum.splits)

lemma run_inv_level [inv_intros]:
  assumes "set level \<subseteq> set (pl_graph (ex_plan req))"
  shows "keeps (run_inv req k0) (execute_level env req level)"
  unfolding execute_level_def
proof (rule keeps_bindS_result)
  fix es and st st' :: "('a, 'b) xstate"
  assume "executable_steps req level st = (Inr es, st')"
  then have "set es \<subseteq> set (pl_graph (ex_plan req))" using executable_subset assms by blast
  then show "keeps (run_inv req k0) (bindS (gather (execute_step env req) es) (forS (settle env req)))"
    by (intro inv_intros run_inv_gather run_inv_step) (auto simp: allowed_step_def)
qed (intro inv_intros)

lemma run_inv_levels:
  assumes "\<Union>(set ` set ls) \<subseteq> set (pl_graph (ex_plan req))"
  shows "keeps (run_inv req k0) (run_levels env req ls n)"
  using assms by (induction ls arbitrary: n) (auto intro!: inv_intros)

lemma resolve_levels_graph:
  assumes "resolve_levels g = Inr ls"
  shows "set (concat ls) = set g"
proof -
  have "resolve g = Some (Inr ls)"
    using assms by (auto simp: resolve_levels_def split: option.splits sum.splits dag_error.splits)
  then show ?thesis using resolve_cover mset_eq_setD by metis
qed

lemma run_inv_phases [inv_intros]: "keeps (run_inv req k0) (run_phases env req)"
  unfolding run_phases_def check_request_def
  by (intro inv_intros keeps_resS_bind run_inv_levels) (use resolve_levels_graph in fastforce)

lemma execute_plan_phases:
  assumes "execute_plan env req st = (r, st')"
  obtains st0 q st1 where "run_phases env req st0 = (q, st1)" "xs_ctx st0 = new_ctx (ex_plan req) (ex_user_id req) (ex_trace_id req)"
    "xs_trace st0 = xs_trace st" "xs_ctx st' = xs_ctx st1" "xs_trace st' = xs_trace st1" "xs_policy st0 = xs_policy st"
    "\<And>out. r = Inr out \<Longrightarrow> (\<exists>a. q = Inr a \<and> oc_success out \<and> oc_total_steps out = total_steps (xs_ctx st1) \<and>
        oc_policy_attestations out = cx_attestations (xs_ctx st1)) \<or> (\<exists>e. q = Inl e \<and> \<not> oc_success out \<and>
        oc_error_type out = Some (classify_error e))"
    "\<And>e. r = Inl e \<Longrightarrow> q = Inl e \<and> (\<exists>g n c ps. e = Gate_required g n c ps)"
proof -
  obtain st0 where s0: "start_execution env req st = (Inr (), st0)"
    by (simp add: start_execution_def ctxS_def auditS_def trackS_def thenS_def)
  have st0: "xs_ctx st0 = new_ctx (ex_plan req) (ex_user_id req) (ex_trace_id req)" "xs_trace st0 = xs_trace st"
    "xs_policy st0 = xs_policy st"
    using s0 by (auto simp: start_execution_def ctxS_def auditS_def trackS_def thenS_def)
  obtain q st1 where q: "run_phases env req st0 = (q, st1)" by (rule prod.exhaust)
  have fin: "xs_ctx (snd (finish_execution env req out st1)) = xs_ctx st1 \<and> xs_trace (snd (finish_execution env req out st1)) = xs_trace st1 \<and>
     (\<exists>ps. fst (finish_execution env req out st1) = Inr (out \<lparr>oc_persist_status := ps\<rparr>))" for out
  proof -
    obtain y x where "sv_persist env (pl_plan_id (ex_plan req)) (oc_success out) (xs_ext st1) = (y, x)"
      by (rule prod.exhaust)
    then show ?thesis
      by (cases "oc_success out") (auto simp: finish_execution_def auditS_def trackS_def persist_outcome_def thenS_def bindS_def)
  qed
  have run: "execute_plan env req st = (case q of
       Inl (Gate_required g n c ps) \<Rightarrow> (Inl (Gate_required g n c ps), st1)
     | Inl e \<Rightarrow> finish_execution env req (build_error_outcome env e (clock env st) (clock env st1) (xs_ctx st1)) st1
     | Inr _ \<Rightarrow> finish_execution env req (build_outcome (clock env st) (clock env st1) (xs_ctx st1)) st1)"
    using s0 q by (simp add: execute_plan_def thenS_def bindS_def split: sum.split exec_error.split)
  show thesis
  proof (cases q)
    case (Inr a)
    with run assms fin [of "build_outcome (clock env st) (clock env st1) (xs_ctx st1)"]
    have "(r, st') = finish_execution env req (build_outcome (clock env st) (clock env st1) (xs_ctx st1)) st1" by simp
    with fin [of "build_outcome (clock env st) (clock env st1) (xs_ctx st1)"] q st0 Inr that
    show thesis by (auto simp: build_outcome_def dest!: sym [of "(r, st')"])
  next
    case (Inl e)
    show thesis
    proof (cases "\<exists>g n c ps. e = Gate_required g n c ps")
      case True
      with run assms Inl have "r = Inl e" "st' = st1" by auto
      with q st0 Inl True that show thesis by auto
    next
      case False
      with run assms Inl have "(r, st') = finish_execution env req (build_error_outcome env e (clock env st) (clock env st1) (xs_ctx st1)) st1"
        by (auto split: exec_error.splits)
      with fin [of "build_error_outcome env e (clock env st) (clock env st1) (xs_ctx st1)"] q st0 Inl False that
      show thesis by (auto simp: build_error_outcome_def dest!: sym [of "(r, st')"])
    qed
  qed
qed
section \<open>Settled steps\<close>

definition settled :: "int \<Rightarrow> ('s, 'x) xstate \<Rightarrow> bool" where
  "settled n st \<longleftrightarrow> dict_get (step_results st) n \<noteq> None"

lemma settled_calm [intro]: "calm (settled n)"
  by (rule calmI) (simp add: settled_def)

lemmas settled_quiet [inv_intros] = keeps_quiet [OF settled_calm] keeps_adapters [OF settled_calm]
  keeps_acquire [OF settled_calm] keeps_retry [OF settled_calm]

lemma settled_ctxS:
  "(\<And>c. cx_step_results (f c) = cx_step_results c) \<Longrightarrow> keeps (settled n) (ctxS f)"
  unfolding ctxS_def by (rule keeps_modS) (simp add: settled_def)

lemma settled_put [inv_intros]: "keeps (settled n) (put_result m r)"
  unfolding put_result_def ctxS_def by (rule keeps_modS) (simp add: settled_def)

lemma settled_here: "put_result n r st = (q, st') \<Longrightarrow> settled n st'"
  by (auto simp: put_result_def ctxS_def settled_def)

lemma settled_should_skip [inv_intros]: "keeps (settled n) (should_skip req' s)"
  unfolding should_skip_def by (intro inv_intros)

lemma settled_invoke [inv_intros]: "keeps (settled n) (invokeS env s server tool args creds)"
  unfolding invokeS_def by (intro inv_intros) (auto simp: settled_def)

lemma settled_api [inv_intros]: "keeps (settled n) (execute_api_step env req s)"
  unfolding execute_api_step_def guarded_dispatch_def dispatch_api_def Let_def by (intro inv_intros)

lemma settled_policy_check [inv_intros]: "keeps (settled n) (execute_policy_check env s)"
  unfolding execute_policy_check_def by (intro inv_intros)

lemma settled_sanitizer [inv_intros]: "keeps (settled n) (execute_sanitizer_step env s)"
  unfolding execute_sanitizer_step_def
  by (intro inv_intros) (auto intro!: inv_intros settled_ctxS split: sum.split filter_failure.split)

lemma settled_record [inv_intros]: "keeps (settled n) (ctxS (record_spawn aid now parent s d))"
  by (rule settled_ctxS) (simp add: record_spawn_def Let_def)

lemma settled_spawn [inv_intros]:
  "(\<And>s. keeps (settled n) (run s)) \<Longrightarrow> keeps (settled n) (handle_spawn run env parent q)"
  unfolding handle_spawn_def Let_def by (intro inv_intros)

lemma settled_item [inv_intros]:
  "(\<And>s. keeps (settled n) (run s)) \<Longrightarrow> keeps (settled n) (spawn_item run env parent j)"
  unfolding spawn_item_def by (cases j) (auto intro!: inv_intros)

lemma settled_run_step:
  assumes "\<And>s. keeps (settled n) (run s)"
  shows "keeps (settled n) (run_step run env req s)"
  unfolding run_step_def execute_reasoning_step_def
  by (intro inv_intros) (cases "ps_type s"; auto intro!: inv_intros assms)

lemma settled_step [inv_intros]: "keeps (settled n) (execute_step env req s)"
  unfolding execute_step_def by (intro settled_run_step) (auto simp: no_run_def intro: inv_intros)

lemma settled_compensation [inv_intros]: "keeps (settled n) (run_compensation env)"
  unfolding run_compensation_def compensate_one_def by (intro inv_intros)

lemma settled_failure [inv_intros]: "keeps (settled n) (handle_step_failure env req s e)"
  unfolding handle_step_failure_def Let_def by (intro inv_intros settled_ctxS) simp_all

lemma settled_settle [inv_intros]: "keeps (settled n) (settle env req p)"
  unfolding settle_def by (intro inv_intros) (auto intro!: inv_intros split: exec_error.split)

lemma settled_executable [inv_intros]: "keeps (settled n) (executable_steps req' ss)"
  by (induction ss) (auto intro!: inv_intros)

lemma settled_level [inv_intros]: "keeps (settled n) (execute_level env req level)"
  unfolding execute_level_def by (intro inv_intros run_inv_gather)

lemma settled_levels [inv_intros]: "keeps (settled n) (run_levels env req ls k)"
  by (induction ls arbitrary: k) (auto intro!: inv_intros)

lemma skip_settles: "should_skip req s st = (Inr True, st') \<Longrightarrow> settled (ps_step s) st'"
  by (auto simp: should_skip_def bindS_def thenS_def dest!: settled_here split: if_splits option.splits sum.splits prod.splits)

lemma executable_settles:
  "executable_steps req ss st = (Inr es, st') \<Longrightarrow> s \<in> set ss \<Longrightarrow> s \<in> set es \<or> settled (ps_step s) st'"
proof (induction ss arbitrary: es st)
  case (Cons t ss)
  from Cons.prems(1) obtain b st1 es1 where b: "should_skip req t st = (Inr b, st1)"
    and es1: "executable_steps req ss st1 = (Inr es1, st')" and es: "es = (if b then es1 else t # es1)"
    by (auto elim!: bindS_InrE)
  show ?case
  proof (cases "s = t")
    case False
    with Cons es1 es show ?thesis by (cases b) auto
  next
    case True
    show ?thesis
    proof (cases b)
      case b': True
      with b True have "settled (ps_step s) st1" using skip_settles by auto
      then show ?thesis using keepsD [OF settled_executable _ es1] by blast
    qed (use True es in simp)
  qed
qed simp

lemma gather_covers: "gather f xs st = (Inr rs, st') \<Longrightarrow> map fst rs = xs"
  by (induction xs arbitrary: rs st st') (auto elim!: bindS_InrE split: prod.splits)

lemma failure_settles:
  assumes "handle_step_failure env req s e st = (Inr (), st')"
  shows "settled (ps_step s) st'"
proof -
  let ?count = "ctxS (\<lambda>c. c \<lparr>cx_recovery_action_count := cx_recovery_action_count c + 1\<rparr>)"
  let ?recover = "\<lambda>reasoner. tryS (bindS (execute_step env req reasoner) (\<lambda>_. retS ()))
         (\<lambda>_. thenS (run_compensation env) (throwS (Step_execution (ps_step s) (error_text (sv_reason_text env) e))))"
  obtain reasoner st1 st2 st3 where put: "put_result (ps_step s) (failed_result env s e) st1 = (Inr (), st2)"
    and count: "?count st2 = (Inr (), st3)" and rec: "?recover reasoner st3 = (Inr (), st')"
    using assms by (auto simp: handle_step_failure_def Let_def elim!: thenS_InrE bindS_InrE split: option.splits if_splits)
  have k: "keeps (settled (ps_step s)) ?count" "keeps (settled (ps_step s)) (?recover reasoner)"
    by (intro inv_intros settled_ctxS; simp)+
  show ?thesis using keepsD [OF k(2) keepsD [OF k(1) settled_here [OF put] count] rec] .
qed

lemma settle_settles: "settle env req p st = (Inr (), st') \<Longrightarrow> settled (ps_step (fst p)) st'"
  by (auto simp: settle_def dest: settled_here failure_settles split: sum.splits exec_error.splits)

lemma for_settles:
  "forS (settle env req) ps st = (Inr (), st') \<Longrightarrow> p \<in> set ps \<Longrightarrow> settled (ps_step (fst p)) st'"
proof (induction ps arbitrary: st)
  case (Cons q ps)
  from Cons.prems(1) obtain st1 where q: "settle env req q st = (Inr (), st1)"
    and rest: "forS (settle env req) ps st1 = (Inr (), st')" by (auto elim!: thenS_InrE)
  have k: "keeps (settled (ps_step (fst p))) (forS (settle env req) ps)" by (intro inv_intros)
  show ?case using Cons.IH [OF rest] Cons.prems(2) settle_settles [OF q] keepsD [OF k _ rest] by auto
qed simp

lemma level_settles:
  assumes "execute_level env req level st = (Inr (), st')" and "s \<in> set level"
  shows "settled (ps_step s) st'"
proof -
  obtain es st1 rs st2 where es: "executable_steps req level st = (Inr es, st1)"
    and g: "gather (execute_step env req) es st1 = (Inr rs, st2)" and f: "forS (settle env req) rs st2 = (Inr (), st')"
    using assms(1) by (auto simp: execute_level_def elim!: bindS_InrE)
  have k: "keeps (settled (ps_step s)) (gather (execute_step env req) es)"
    "keeps (settled (ps_step s)) (forS (settle env req) rs)" by (intro run_inv_gather inv_intros)+
  from executable_settles [OF es assms(2)] show ?thesis
  proof
    assume "s \<in> set es"
    then obtain p where "p \<in> set rs" "fst p = s" using gather_covers [OF g] by (metis imageE list.set_map)
    with for_settles [OF f] show ?thesis by blast
  next
    assume "settled (ps_step s) st1"
    then show ?thesis using keepsD [OF k(1) _ g] keepsD [OF k(2) _ f] by blast
  qed
qed

lemma levels_settle:
  "run_levels env req ls n st = (Inr (), st') \<Longrightarrow> s \<in> \<Union>(set ` set ls) \<Longrightarrow> settled (ps_step s) st'"
proof (induction ls arbitrary: n st)
  case (Cons l ls)
  from Cons.prems(1) obtain st1 st2 where l: "execute_level env req l st = (Inr (), st1)"
    and t: "trackS env (Progress (pl_plan_id (ex_plan req)) (n + length l)) st1 = (Inr (), st2)"
    and rest: "run_levels env req ls (n + length l) st2 = (Inr (), st')" by (auto elim!: thenS_InrE)
  have k: "keeps (settled (ps_step s)) (trackS env e)" "keeps (settled (ps_step s)) (run_levels env req ls m)" for e m
    by (intro inv_intros)+
  show ?case
    using Cons.IH [OF rest] Cons.prems(2) level_settles [OF l] keepsD [OF k(1) _ t] keepsD [OF k(2) _ rest] by auto
qed simp

lemma phases_settle:
  assumes "run_phases env req st = (Inr (), st')" and "s \<in> set (pl_graph (ex_plan req))"
  shows "settled (ps_step s) st'"
proof -
  obtain ls st1 where "resolve_levels (pl_graph (ex_plan req)) = Inr ls" "run_levels env req ls 0 st1 = (Inr (), st')"
    using assms(1) by (auto simp: run_phases_def resS_def elim!: thenS_InrE bindS_InrE)
  then show ?thesis using levels_settle resolve_levels_graph assms(2) by (metis set_concat)
qed
section \<open>Properties of a run\<close>

lemma invocations_gated:
  assumes "execute_plan env req st = (r, st')"
    and "\<forall>iv\<in>set (drop k0 (xs_trace st)). closed_gate req (iv_step iv) = None \<and> allowed_step req (iv_step iv)"
  shows "\<forall>iv\<in>set (drop k0 (xs_trace st')). closed_gate req (iv_step iv) = None \<and> allowed_step req (iv_step iv)"
  using assms(1)
proof (rule execute_plan_phases)
  fix st0 q st1
  assume run: "run_phases env req st0 = (q, st1)" and
    s0: "xs_ctx st0 = new_ctx (ex_plan req) (ex_user_id req) (ex_trace_id req)" "xs_trace st0 = xs_trace st"
    and s1: "xs_trace st' = xs_trace st1"
  have "run_inv req k0 st0" using s0 assms(2) by (simp add: run_inv_def new_ctx_def)
  then have "run_inv req k0 st1" using keepsD [OF run_inv_phases _ run] by blast
  then show ?thesis using s1 by (simp add: run_inv_def)
qed

text \<open>C1. No tool runs behind a closed gate. Whatever the model, the tools and the policy engine
  answer, every MCP invocation of an execution, recovery included, is made for a step whose gate,
  if it has one, the request approves; the step belongs to the plan, or it was spawned from it, and
  a spawned Booker has a gate.\<close>

theorem every_invocation_approved:
  assumes "execute_plan env req st = (r, st')" and "iv \<in> set (drop (length (xs_trace st)) (xs_trace st'))"
  shows "closed_gate req (iv_step iv) = None \<and>
    (iv_step iv \<in> set (pl_graph (ex_plan req)) \<or>
     ps_spawned_by (iv_step iv) \<noteq> None \<and> (ps_role (iv_step iv) = Booker \<longrightarrow> ps_gate_id (iv_step iv) \<noteq> None))"
  using invocations_gated [OF assms(1), of "length (xs_trace st)"] assms(2) by (auto simp: allowed_step_def)

text \<open>C3. A successful outcome accounts for every step of the plan: each has a recorded result
  (completed, skipped, or failed with the Reasoner's recovery), and the outcome counts the plan's
  and the spawned steps.\<close>

theorem success_settles_every_step:
  assumes "execute_plan env req st = (Inr out, st')" and "oc_success out"
  shows "(\<forall>s\<in>set (pl_graph (ex_plan req)). dict_get (step_results st') (ps_step s) \<noteq> None) \<and>
    oc_total_steps out = total_steps (xs_ctx st')"
  using assms(1)
proof (rule execute_plan_phases)
  fix st0 q st1
  assume run: "run_phases env req st0 = (q, st1)" and ctx: "xs_ctx st' = xs_ctx st1"
    and out: "\<And>out'. Inr out = (Inr out' :: exec_error + plan_outcome) \<Longrightarrow> (\<exists>a. q = Inr a \<and> oc_success out' \<and> oc_total_steps out' = total_steps (xs_ctx st1) \<and>
        oc_policy_attestations out' = cx_attestations (xs_ctx st1)) \<or> (\<exists>e. q = Inl e \<and> \<not> oc_success out' \<and>
        oc_error_type out' = Some (classify_error e))"
  from out [OF refl] assms(2) have q: "q = Inr ()" and total: "oc_total_steps out = total_steps (xs_ctx st1)" by auto
  have "dict_get (step_results st') (ps_step s) \<noteq> None" if "s \<in> set (pl_graph (ex_plan req))" for s
    using phases_settle [OF run [unfolded q] that] ctx by (simp add: settled_def)
  with total ctx show ?thesis by simp
qed

text \<open>Compensation is dead code: nothing ever pushes a record on the compensation stack, so it is
  empty at the end of every execution, and a failing plan undoes none of its completed Bookers.\<close>

theorem compensation_stack_stays_empty:
  "cx_compensation_stack (xs_ctx (snd (execute_plan env req st))) = []"
proof -
  obtain r st' where e: "execute_plan env req st = (r, st')" by (rule prod.exhaust)
  then show ?thesis
  proof (rule execute_plan_phases)
    fix st0 q st1
    assume run: "run_phases env req st0 = (q, st1)" and
      s0: "xs_ctx st0 = new_ctx (ex_plan req) (ex_user_id req) (ex_trace_id req)"
      and s1: "xs_ctx st' = xs_ctx st1"
    have "run_inv req (length (xs_trace st0)) st0" using s0 by (simp add: run_inv_def new_ctx_def)
    then have "run_inv req (length (xs_trace st0)) st1" using keepsD [OF run_inv_phases _ run] by blast
    then show ?thesis using s1 e by (simp add: run_inv_def)
  qed
qed

section \<open>A run\<close>

text \<open>A world whose clock stands still, whose tools answer \<open>{"id": 1}\<close>, with the in-memory Redis.\<close>

definition run_env :: "(mem, int) service_env" where
  "run_env = \<lparr>xe_redis = Some mem_redis, xe_now = id, xe_sleep = (\<lambda>d t. t + d), xe_fresh = (\<lambda>t. (''f'', t)), xe_owner = ''o'',
     xe_args_hash = (\<lambda>_. ''h''), xe_dumps = (\<lambda>_. ''js''), xe_loads = (\<lambda>_. Some (JObj [(''id'', JInt 1)])),
     xe_invoke = (\<lambda>_ _ _ _ _ t. (Inr [(''id'', JInt 1)], t)),
     sv_retry = default_retry, sv_resolve = (\<lambda>a _ _. Inr a), sv_tool = (\<lambda>_ _. None), sv_vault = (\<lambda>_ _ t. (Inr '''', t)),
     sv_llm = (\<lambda>_ _ _ t. (Inr [], t)), sv_filter = None, sv_policy = demo_env,
     sv_decode = (\<lambda>_ _. Jwt_claims [(''plan_id'', JStr (replicate 26 CHR ''0''))]), sv_parse_iso = (\<lambda>_. None),
     sv_summarize = (\<lambda>_. JNull), sv_wrap_prompt = (\<lambda>_ x. x), sv_dump_decision = (\<lambda>_. []),
     sv_schema_ok = (\<lambda>_ _. True), sv_reason_text = (\<lambda>_. []), sv_persist = (\<lambda>_ _ t. (Persisted ''ok'', t)),
     sv_tracked = True, sv_audited = False\<rparr>"

definition fetch_step :: plan_step where
  "fetch_step = new_plan_step 1 Interactive Fetcher ''CAL_LIST'' ''list''"

definition book_step :: plan_step where
  "book_step = (new_plan_step 2 Interactive Booker ''CAL_CREATE'' ''create'') \<lparr>ps_after := [1], ps_gate_id := Some ''gate-A''\<rparr>"

definition run_request :: "plan_step list \<Rightarrow> jobj option \<Rightarrow> exec_request" where
  "run_request g prev = \<lparr>ex_plan = (plan_of g) \<lparr>pl_plan_id := replicate 26 CHR ''0''\<rparr>, ex_token = ''t'', ex_user_id = ''u'',
     ex_trace_id = ''tr'', ex_preview_state = prev, ex_credentials = []\<rparr>"

definition run_state :: "(mem, int) xstate" where
  "run_state = \<lparr>xs_policy = empty_state, xs_locks = [], xs_ext = 0,
     xs_ctx = new_ctx (plan_of []) '''' '''', xs_trace = [], xs_audit = [], xs_tracker = []\<rparr>"

lemma one_step_levels: "resolve_levels [fetch_step] = Inr [[fetch_step]]"
  by code_simp

lemma run_env_simps [simp]:
  "xe_redis run_env = Some mem_redis" "xe_now run_env = id" "xe_fresh run_env = (\<lambda>t. (''f'', t))" "xe_owner run_env = ''o''"
  "xe_args_hash run_env = (\<lambda>_. ''h'')" "xe_dumps run_env = (\<lambda>_. ''js'')"
  "xe_loads run_env = (\<lambda>_. Some (JObj [(''id'', JInt 1)]))" "xe_invoke run_env = (\<lambda>_ _ _ _ _ t. (Inr [(''id'', JInt 1)], t))"
  "sv_retry run_env = default_retry" "sv_resolve run_env = (\<lambda>a _ _. Inr a)" "sv_tool run_env = (\<lambda>_ _. None)"
  "sv_decode run_env = (\<lambda>_ _. Jwt_claims [(''plan_id'', JStr (replicate 26 CHR ''0''))])" "sv_parse_iso run_env = (\<lambda>_. None)"
  "sv_persist run_env = (\<lambda>_ _ t. (Persisted ''ok'', t))" "sv_tracked run_env" "\<not> sv_audited run_env"
  by (simp_all add: run_env_def)

lemma run_request_simps [simp]:
  "pl_graph (ex_plan (run_request g p)) = g" "pl_plan_id (ex_plan (run_request g p)) = replicate 26 CHR ''0''"
  "ex_preview_state (run_request g p) = p" "ex_credentials (run_request g p) = []"
  by (simp_all add: run_request_def plan_of_def)

lemma fetch_step_simps [simp]:
  "ps_type fetch_step = Api" "ps_role fetch_step = Fetcher" "ps_gate_id fetch_step = None"
  "ps_uses fetch_step = ''CAL_LIST''" "ps_execute_mode fetch_step = None" "ps_args fetch_step = []" "ps_step fetch_step = 1"
  by (simp_all add: fetch_step_def new_plan_step_def)

lemma retry_first_success:
  "oper st = (Inr r, st') \<Longrightarrow> execute_with_retry env p oper st = (Inr r, st')"
  by (simp add: execute_with_retry_def tryS_def)

lemma fetch_dispatch:
  assumes "ex_credentials req = []"
  shows "guarded_dispatch run_env req fetch_step None [] None None st = (Inr [(''id'', JInt 1)],
     st \<lparr>xs_trace := xs_trace st @ [\<lparr>iv_step = fetch_step, iv_server = ''CAL_LIST'', iv_tool = ''CAL_LIST'', iv_args = []\<rparr>]\<rparr>)"
proof -
  have "execute_with_retry run_env default_retry
      (invokeS run_env fetch_step ''CAL_LIST'' ''CAL_LIST'' [] [(''user_id'', cx_user_id (xs_ctx st))]) st = (Inr [(''id'', JInt 1)],
     st \<lparr>xs_trace := xs_trace st @ [\<lparr>iv_step = fetch_step, iv_server = ''CAL_LIST'', iv_tool = ''CAL_LIST'', iv_args = []\<rparr>]\<rparr>)"
    by (rule retry_first_success) (simp add: invokeS_def extS_def)
  then show ?thesis
    using assms by (simp add: guarded_dispatch_def dispatch_api_def Let_def finallyS_def tryS_def bindS_def)
qed

lemma fetch_runs:
  assumes "ex_preview_state req = None" and "ex_credentials req = []"
  shows "\<exists>st' r. execute_step run_env req fetch_step st = (Inr r, st') \<and>
     xs_ctx st' = xs_ctx st \<and> map iv_step (xs_trace st') = map iv_step (xs_trace st) @ [fetch_step]"
proof -
  have "execute_api_step run_env req fetch_step st = guarded_dispatch run_env req fetch_step None [] None None st"
    by (simp add: execute_api_step_def is_virtual_def starts_with_def resS_def bindS_def)
  with fetch_dispatch [OF assms(2), of st] show ?thesis
    by (simp add: execute_step_def run_step_def closed_gate_def bindS_Inr auditS_def)
qed

lemma one_step_level:
  "\<exists>st'. execute_level run_env (run_request [fetch_step] None) [fetch_step] st = (Inr (), st') \<and>
     map iv_step (xs_trace st') = map iv_step (xs_trace st) @ [fetch_step]"
proof -
  obtain st' r where r: "execute_step run_env (run_request [fetch_step] None) fetch_step st = (Inr r, st')"
    and t: "map iv_step (xs_trace st') = map iv_step (xs_trace st) @ [fetch_step]"
    using fetch_runs [of "run_request [fetch_step] None" st] by auto
  show ?thesis
    using r t by (simp add: execute_level_def should_skip_def settle_def put_result_def ctxS_def bindS_Inr thenS_Inr)
qed

lemma one_step_phases:
  assumes t: "xs_trace st = []"
  obtains st' where "run_phases run_env (run_request [fetch_step] None) st = (Inr (), st')"
    "map iv_step (xs_trace st') = [fetch_step]"
proof -
  let ?req = "run_request [fetch_step] None"
  obtain st1 where l: "execute_level run_env ?req [fetch_step] st = (Inr (), st1)" "map iv_step (xs_trace st1) = [fetch_step]"
    using one_step_level [of st] t by auto
  have c: "check_request run_env ?req st = (Inr (), st)"
    by (simp add: check_request_def validate_approval_token_def check_plan_ttl_def jget_def check_that_def)
  have "run_levels run_env ?req [[fetch_step]] 0 st = (Inr (), st1 \<lparr>xs_tracker := xs_tracker st1 @ [Progress (replicate 26 CHR ''0'') 1]\<rparr>)"
    using l(1) by (simp add: thenS_Inr trackS_def)
  then have "run_phases run_env ?req st = (Inr (), st1 \<lparr>xs_tracker := xs_tracker st1 @ [Progress (replicate 26 CHR ''0'') 1]\<rparr>)"
    using c by (simp add: run_phases_def thenS_Inr resS_def one_step_levels bindS_def)
  with l(2) show ?thesis using that by simp
qed

lemma run_start:
  obtains st0 where "start_execution run_env req run_state = (Inr (), st0)" "xs_trace st0 = []"
  by (simp add: start_execution_def ctxS_def modS_def auditS_def trackS_def thenS_def retS_def run_state_def)

lemma run_finish:
  obtains out' st' where "finish_execution run_env req out st = (Inr out', st')" "oc_success out' = oc_success out"
    "xs_trace st' = xs_trace st"
  by (simp add: finish_execution_def auditS_def trackS_def modS_def retS_def persist_outcome_def thenS_def bindS_def)

lemma one_step_run:
  obtains out st' where "execute_plan run_env (run_request [fetch_step] None) run_state = (Inr out, st')" "oc_success out"
    "map iv_step (xs_trace st') = [fetch_step]"
proof -
  let ?req = "run_request [fetch_step] None"
  obtain st0 where s0: "start_execution run_env ?req run_state = (Inr (), st0)" "xs_trace st0 = []"
    by (rule run_start)
  obtain st1 where s1: "run_phases run_env ?req st0 = (Inr (), st1)" "map iv_step (xs_trace st1) = [fetch_step]"
    by (rule one_step_phases [OF s0(2)])
  let ?out = "build_outcome (clock run_env run_state) (clock run_env st1) (xs_ctx st1)"
  obtain out' st' where f: "finish_execution run_env ?req ?out st1 = (Inr out', st')"
    and o: "oc_success out' = oc_success ?out" "xs_trace st' = xs_trace st1" by (rule run_finish)
  have "execute_plan run_env ?req run_state = (Inr out', st')"
    using f s0(1) s1(1) by (simp add: execute_plan_def bindS_def readS_def thenS_def)
  moreover have "oc_success out'" unfolding o(1) by (simp add: build_outcome_def)
  ultimately show ?thesis using that o(2) s1(2) by simp
qed

theorem every_invocation_approved_witness:
  "\<exists>iv out st'. execute_plan run_env (run_request [fetch_step] None) run_state = (Inr out, st') \<and> iv \<in> set (xs_trace st') \<and>
     closed_gate (run_request [fetch_step] None) (iv_step iv) = None"
proof -
  obtain out st' where e: "execute_plan run_env (run_request [fetch_step] None) run_state = (Inr out, st')"
    and "map iv_step (xs_trace st') = [fetch_step]" by (rule one_step_run)
  then obtain iv where iv: "iv \<in> set (drop (length (xs_trace run_state)) (xs_trace st'))" by (auto simp: run_state_def)
  from every_invocation_approved [OF e iv] e in_set_dropD [OF iv] show ?thesis by blast
qed

theorem success_settles_every_step_witness:
  "\<exists>out st'. execute_plan run_env (run_request [fetch_step] None) run_state = (Inr out, st') \<and>
     dict_get (step_results st') 1 \<noteq> None"
proof -
  obtain out st' where e: "execute_plan run_env (run_request [fetch_step] None) run_state = (Inr out, st')" "oc_success out"
    by (rule one_step_run)
  from success_settles_every_step [OF e] e(1) show ?thesis by auto
qed

end
