(* ===== verification/Trust_Rules.thy ===== *)
theory Trust_Rules
  imports Py_Regex Plan_Schema
begin

text \<open>
  The S1 stage of the TrustFilter: the shipped rule pack (\<open>domain/regex_rules.py\<close>) and the scanner
  that runs it on one string (\<open>adapters/regex_scanner.py\<close>). Every pattern of the pack is written
  out as a \<open>regex\<close>; a rule whose code points lie above 255 is in the pack but matches no string of
  this development. A confidence is an exact rational.
\<close>

datatype severity = Low | Med | High

record rule =
  ru_id :: string
  ru_pattern :: regex
  ru_ignorecase :: bool
  ru_severity :: severity

record rule_hit =
  rh_field_path :: string
  rh_rule_id :: string
  rh_severity :: severity
  rh_matched :: string

section \<open>The rule pack\<close>

definition high_rule :: "string \<Rightarrow> regex \<Rightarrow> rule" where
  "high_rule n r = \<lparr>ru_id = n, ru_pattern = r, ru_ignorecase = True, ru_severity = High\<rparr>"

definition case_rule :: "string \<Rightarrow> severity \<Rightarrow> regex \<Rightarrow> rule" where
  "case_rule n s r = \<lparr>ru_id = n, ru_pattern = r, ru_ignorecase = False, ru_severity = s\<rparr>"

abbreviation spaces :: regex where "spaces \<equiv> plus_of space_re"

abbreviation maybe_spaces :: regex where "maybe_spaces \<equiv> Star True space_re"

definition role_rules :: "rule list" where
  "role_rules =
    [high_rule ''ignore_previous_instructions'' (seqs [lit ''ignore'', spaces, opt (Seq (lit ''all'') spaces),
       lits [''previous'', ''prior'', ''above''], spaces, lits [''instructions'', ''prompts'', ''rules'', ''directives'']]),
     high_rule ''you_are_now_x'' (seqs [lit ''you'', spaces, lit ''are'', spaces, lit ''now'', spaces,
       lits [''a'', ''an'', ''the''], spaces, plus_of word_re]),
     high_rule ''new_system_prompt'' (seqs [lits [''new'', ''updated'', ''revised''], spaces, lit ''system'', spaces, lit ''prompt'']),
     high_rule ''disregard_instructions'' (seqs [lit ''disregard'', spaces, opt (Seq (lit ''all'') spaces),
       lits [''previous'', ''prior'', ''your''], spaces, lits [''instructions'', ''rules'', ''guidelines'']]),
     high_rule ''forget_instructions'' (seqs [lit ''forget'', spaces, opt (Seq (lit ''all'') spaces),
       lits [''previous'', ''prior'', ''your''], spaces, lits [''instructions'', ''rules'', ''context'']])]"

definition delimiter_rules :: "rule list" where
  "delimiter_rules =
    [high_rule ''instructions_tag'' (alts (map (\<lambda>w. seqs [Literal (CHR ''<''), opt (Literal (CHR ''/'')), lit w])
       [''instructions>'', ''system>'', ''prompt>''])),
     high_rule ''system_colon_prefix'' (seqs [Line_start True, lit ''system'', maybe_spaces, Literal (CHR '':'')]),
     high_rule ''system_colon_midline'' (seqs [Word_edge, lit ''system'', maybe_spaces, Literal (CHR '':''), maybe_spaces,
       lits [''new'', ''override'', ''you'', ''ignore'', ''directive'', ''role'', ''switch'', ''unrestricted'']]),
     high_rule ''new_role_assignment'' (seqs [lit ''new'', spaces, lits [''role'', ''directive'', ''assignment'', ''mode'']]),
     high_rule ''jailbreak_phrases'' (alts [lit ''jailbreak'', lit ''jailbroken'',
       seqs [lit ''unrestricted'', spaces, lits [''mode'', ''ai'']],
       seqs [lit ''no'', spaces, lit ''safety'', spaces, lit ''guidelines'']]),
     high_rule ''assistant_colon_prefix'' (seqs [Line_start True, lit ''assistant'', maybe_spaces, Literal (CHR '':'')])]"

definition tool_call_rules :: "rule list" where
  "tool_call_rules =
    [high_rule ''fake_tool_use_xml'' (lits [''<tool_use>'', ''<function_call>'', ''<tool_call>'']),
     case_rule ''fake_function_call_json'' High (seqs [Literal (CHR 0x22), lit ''function_call'', Literal (CHR 0x22), maybe_spaces,
       Literal (CHR '':''), maybe_spaces, Literal (CHR ''{'')])]"

definition codes :: "int list \<Rightarrow> regex" where
  "codes ns = Chars False (map (\<lambda>n. (n, n)) ns)"

definition medium_rules :: "rule list" where
  "medium_rules =
    [case_rule ''zero_width_space'' Med (codes [0x200B]),
     case_rule ''zero_width_joiner'' Med (codes [0x200D]),
     case_rule ''byte_order_mark'' Med (codes [0xFEFF]),
     case_rule ''rtl_override'' Med (codes [0x202E, 0x202D, 0x200F, 0x200E]),
     case_rule ''cyrillic_lookalike_a_e_o'' Med (codes [0x430, 0x435, 0x43E]),
     case_rule ''base64_blob_gt_256b'' Med
       (at_least 256 (Chars False [(65, 90), (97, 122), (48, 57), (43, 43), (47, 47), (61, 61)])),
     case_rule ''hex_blob_gt_256b'' Med (Seq (opt (lit ''0x'')) (at_least 512 (Chars False [(48, 57), (97, 102), (65, 70)])))]"

definition http :: regex where
  "http = seqs [lit ''http'', opt (Literal (CHR ''s'')), lit ''://'']"

definition low_rules :: "rule list" where
  "low_rules =
    [case_rule ''md_link_density_gt_10pct'' Low
       (let some_text = Star False all_re in
        at_least 5 (seqs [Literal (CHR ''[''), some_text, lit ''](''  , http, some_text, Literal (CHR '')''), some_text])),
     case_rule ''suspicious_url_in_description'' Low
       (seqs [http, Not_ahead (seqs [opt (lit ''www.''), lits [''google'', ''microsoft'', ''apple'', ''zoom'', ''teams''],
          Literal (CHR ''.''), word_re]), at_least 30 (Chars True space_ranges)])]"

definition default_rules :: "rule list" where
  "default_rules = role_rules @ delimiter_rules @ tool_call_rules @ medium_rules @ low_rules"

section \<open>The scanner\<close>

definition scan_string :: "rule list \<Rightarrow> string \<Rightarrow> string \<Rightarrow> rule_hit list" where
  "scan_string rules value path = List.map_filter (\<lambda>ru.
     map_option (\<lambda>m. \<lparr>rh_field_path = path, rh_rule_id = ru_id ru, rh_severity = ru_severity ru, rh_matched = take 200 m\<rparr>)
       (re_search (ru_ignorecase ru) (ru_pattern ru) value)) rules"

definition count_severity :: "severity \<Rightarrow> rule_hit list \<Rightarrow> nat" where
  "count_severity s hits = length (filter (\<lambda>h. rh_severity h = s) hits)"

definition aggregate :: "rule_hit list \<Rightarrow> verdict \<times> rat" where
  "aggregate hits =
     (if hits = [] then (Clean, 99 / 100)
      else if 0 < count_severity High hits then (Injection, 95 / 100)
      else if 2 \<le> count_severity Med hits then (Injection, 85 / 100)
      else if count_severity Med hits = 1 then (Suspicious, 60 / 100)
      else (Clean, 70 / 100))"

lemma scan_string_path: "h \<in> set (scan_string rules v p) \<Longrightarrow> rh_field_path h = p"
  by (auto simp: scan_string_def List.map_filter_def)

text \<open>A field is flagged when a rule of at least medium severity matches it.\<close>

definition flagged :: "rule list \<Rightarrow> string \<Rightarrow> bool" where
  "flagged rules v \<longleftrightarrow> list_ex (\<lambda>ru. ru_severity ru \<noteq> Low \<and> re_search (ru_ignorecase ru) (ru_pattern ru) v \<noteq> None) rules"

lemma flagged_iff_hit: "flagged rules v \<longleftrightarrow> (\<exists>h\<in>set (scan_string rules v p). rh_severity h \<noteq> Low)"
  by (force simp: flagged_def scan_string_def List.map_filter_def list_ex_iff)

lemma count_severity_0 [simp]: "count_severity s hits = 0 \<longleftrightarrow> (\<forall>h\<in>set hits. rh_severity h \<noteq> s)"
  by (simp add: count_severity_def filter_empty_conv)

lemma aggregate_clean_iff: "fst (aggregate hits) = Clean \<longleftrightarrow> (\<forall>h\<in>set hits. rh_severity h = Low)"
proof -
  have low: "rh_severity h = Low \<longleftrightarrow> rh_severity h \<noteq> High \<and> rh_severity h \<noteq> Med" for h
    by (cases "rh_severity h") simp_all
  have "count_severity Med hits = 0 \<or> count_severity Med hits = 1 \<or> 2 \<le> count_severity Med hits" by linarith
  then have "fst (aggregate hits) = Clean \<longleftrightarrow> hits = [] \<or> count_severity High hits = 0 \<and> count_severity Med hits = 0"
    unfolding aggregate_def by (elim disjE) (simp_all del: count_severity_0)
  also have "\<dots> \<longleftrightarrow> (\<forall>h\<in>set hits. rh_severity h = Low)"
    by (auto simp: low)
  finally show ?thesis .
qed

end
