(* ===== verification/Json_Path.thy ===== *)
theory Json_Path
  imports Py_Strings
begin

text \<open>
  The dotted paths of the TrustFilter's tree walker (\<open>domain/tree_walker.py\<close>): \<open>tokenize_path\<close>
  splits a path into tokens, \<open>navigate\<close> goes one level down and \<open>set_at_path\<close> replaces a value.
  A position is a list of tokens; \<open>path_of\<close> is the text the walker builds for it. The lemmas show
  that tokenizing that text gives the position back and that replacing a leaf changes this leaf only.
\<close>

datatype token = Name string | Index int

section \<open>\<open>int(s)\<close> of a text\<close>

definition py_digits :: "string \<Rightarrow> nat option" where
  "py_digits s = (if list_all (\<lambda>p. p \<noteq> [] \<and> list_all is_digit p) (split_on (CHR ''_'') s)
     then Some (read_nat (filter (\<lambda>c. c \<noteq> CHR ''_'') s)) else None)"

definition py_int :: "string \<Rightarrow> int option" where
  "py_int s = (case strip s of
       CHR ''-'' # t \<Rightarrow> map_option (\<lambda>n. - int n) (py_digits t)
     | CHR ''+'' # t \<Rightarrow> map_option int (py_digits t)
     | t \<Rightarrow> map_option int (py_digits t))"

lemma py_int_show_nat: "py_int (show_nat n) = Some (int n)"
proof -
  let ?s = "show_nat n"
  have d: "list_all is_digit ?s" "?s \<noteq> []" by (fact show_nat_digits)+
  have char: "is_digit c \<Longrightarrow> \<not> is_space c \<and> c \<noteq> CHR ''-'' \<and> c \<noteq> CHR ''+'' \<and> c \<noteq> CHR ''_''" for c
    by (auto simp: is_digit_def is_space_def)
  have "dropWhile is_space t = t" if "list_all is_digit t" for t
    using that char by (cases t) auto
  then have s: "strip ?s = ?s" using d(1) by (simp add: strip_def lstrip_def rstrip_def list_all_rev)
  have "CHR ''_'' \<notin> set ?s" using d(1) char by (auto simp: list_all_iff)
  moreover then have "filter (\<lambda>c. c \<noteq> CHR ''_'') ?s = ?s" by (auto intro: filter_True)
  ultimately have "py_digits ?s = Some n" using d by (simp add: py_digits_def split_on_id read_show_nat)
  then show ?thesis
    using d char s by (cases ?s) (auto simp: py_int_def split: char.split bool.split)
qed

section \<open>Tokens\<close>

text \<open>One part of a path: \<open>field[idx\<close>, the closing brackets being gone; \<open>None\<close> for the
  \<open>ValueError\<close> of \<open>int\<close>.\<close>

definition part_tokens :: "string \<Rightarrow> token list option" where
  "part_tokens p =
     (if p = [] then Some []
      else if CHR ''['' \<in> set p then
        (let f = takeWhile (\<lambda>c. c \<noteq> CHR ''['') p; i = drop (Suc (length f)) p in
         map_option (\<lambda>n. (if f = [] then [] else [Name f]) @ [Index n]) (py_int i))
      else Some [Name p])"

primrec parts_tokens :: "string list \<Rightarrow> token list option" where
  "parts_tokens [] = Some []"
| "parts_tokens (p # ps) = (case part_tokens p of None \<Rightarrow> None
     | Some ts \<Rightarrow> map_option (\<lambda>us. ts @ us) (parts_tokens ps))"

definition tokenize_path :: "string \<Rightarrow> token list option" where
  "tokenize_path path = parts_tokens (split_on (CHR ''.'') (filter (\<lambda>c. c \<noteq> CHR '']'') path))"

text \<open>The path of a child, and of a position.\<close>

fun child_path :: "string \<Rightarrow> token \<Rightarrow> string" where
  "child_path path (Name k) = (if path = [] then k else path @ ''.'' @ k)"
| "child_path path (Index i) = path @ ''['' @ show_int i @ '']''"

definition path_of :: "token list \<Rightarrow> string" where
  "path_of pos = foldl child_path [] pos"

text \<open>A key is plain when it is not empty and has none of the path's own characters. A position is
  regular when its names are plain and no index follows an index.\<close>

definition plain_key :: "string \<Rightarrow> bool" where
  "plain_key k \<longleftrightarrow> k \<noteq> [] \<and> CHR ''.'' \<notin> set k \<and> CHR ''['' \<notin> set k \<and> CHR '']'' \<notin> set k"

fun token_ok :: "token \<Rightarrow> bool" where
  "token_ok (Name k) = plain_key k"
| "token_ok (Index i) = (0 \<le> i)"

fun regular :: "token list \<Rightarrow> bool" where
  "regular (Index i # Index j # ts) = False"
| "regular (t # ts) = (token_ok t \<and> regular ts)"
| "regular [] = True"

lemma regular_Cons: "regular (t # ts) \<Longrightarrow> token_ok t \<and> regular ts"
  by (cases t; cases ts; cases "hd ts") auto

lemma regular_append_left: "regular (ts @ us) \<Longrightarrow> regular ts"
  by (induction ts rule: regular.induct) (auto dest: regular_Cons)

lemma regular_append_right: "regular (ts @ us) \<Longrightarrow> regular us"
  by (induction ts) (auto dest: regular_Cons)

lemma regular_Index_last: "regular (ts @ [t, Index i]) \<Longrightarrow> \<exists>k. t = Name k \<and> plain_key k"
  by (drule regular_append_right) (cases t; auto)

lemma parts_tokens_append:
  "parts_tokens (ps @ qs) = (case parts_tokens ps of None \<Rightarrow> None
     | Some ts \<Rightarrow> map_option (\<lambda>us. ts @ us) (parts_tokens qs))"
  by (cases "parts_tokens qs"; induction ps) (auto split: option.splits)

lemma split_on_snoc: "c \<notin> set t \<Longrightarrow> split_on c (s @ c # t) = split_on c s @ [t]"
  by (induction s) (auto simp: split_on_id split: list.splits)

lemma split_on_last: "c \<notin> set t \<Longrightarrow> split_on c (s @ t) = butlast (split_on c s) @ [last (split_on c s) @ t]"
  by (induction s) (auto simp: split_on_id split: list.splits)


definition segments :: "string \<Rightarrow> string list" where
  "segments path = split_on (CHR ''.'') (filter (\<lambda>c. c \<noteq> CHR '']'') path)"

lemma filter_plain [simp]: "plain_key k \<Longrightarrow> filter (\<lambda>c. c \<noteq> CHR '']'') k = k"
  by (auto simp: plain_key_def intro: filter_True)

lemma path_of_Nil [simp]: "path_of [] = []"
  by (simp add: path_of_def)

lemma path_of_snoc [simp]: "path_of (ts @ [t]) = child_path (path_of ts) t"
  by (simp add: path_of_def)

lemma child_path_nonempty: "token_ok t \<Longrightarrow> child_path path t \<noteq> []"
  by (cases t) (auto simp: plain_key_def)

lemma path_of_eq_Nil: "regular ts \<Longrightarrow> path_of ts = [] \<longleftrightarrow> ts = []"
  by (cases ts rule: rev_cases) (auto dest!: regular_append_right regular_Cons simp: child_path_nonempty)

text \<open>Adding a name adds a segment; an index behind a name extends the last one.\<close>

lemma segments_Name:
  assumes "plain_key k"
  shows "segments (child_path path (Name k)) = (if path = [] then [k] else segments path @ [k])"
  using assms by (auto simp: segments_def split_on_snoc split_on_id plain_key_def)

lemma segments_Index:
  assumes "0 \<le> i"
  shows "segments (child_path path (Index i)) =
    butlast (segments path) @ [last (segments path) @ CHR ''['' # show_nat (nat i)]"
proof -
  have d: "c \<noteq> CHR '']'' \<and> c \<noteq> CHR ''.''" if "c \<in> set (show_nat n)" for c n
    using that show_nat_digits(1) [of n] by (auto simp: list_all_iff is_digit_def)
  then have "filter (\<lambda>c. c \<noteq> CHR '']'') (show_nat n) = show_nat n" for n
    by (auto intro: filter_True)
  then have "segments (child_path path (Index i)) =
      split_on (CHR ''.'') (filter (\<lambda>c. c \<noteq> CHR '']'') path @ CHR ''['' # show_nat (nat i))"
    using assms by (simp add: segments_def show_int_def)
  also have "\<dots> = butlast (segments path) @ [last (segments path) @ CHR ''['' # show_nat (nat i)]"
    unfolding segments_def using d by (intro split_on_last) auto
  finally show ?thesis .
qed

lemma part_tokens_plain: "plain_key k \<Longrightarrow> part_tokens k = Some [Name k]"
  by (simp add: part_tokens_def plain_key_def)

lemma part_tokens_Index: "part_tokens (CHR ''['' # show_nat n) = Some [Index (int n)]"
  by (simp add: part_tokens_def py_int_show_nat)

lemma part_tokens_Name_Index:
  assumes "plain_key k"
  shows "part_tokens (k @ CHR ''['' # show_nat n) = Some [Name k, Index (int n)]"
proof -
  have "takeWhile (\<lambda>c. c \<noteq> CHR ''['') (k @ CHR ''['' # show_nat n) = k"
    using assms by (subst takeWhile_append2) (auto simp: plain_key_def)
  then show ?thesis using assms by (simp add: part_tokens_def Let_def py_int_show_nat plain_key_def)
qed

lemma parts_tokens_snoc:
  "parts_tokens ps = Some ts \<Longrightarrow> part_tokens p = Some us \<Longrightarrow> parts_tokens (ps @ [p]) = Some (ts @ us)"
  by (simp add: parts_tokens_append)

text \<open>The text of a regular position reads back as the position.\<close>

lemma tokenize_path_of:
  "regular pos \<Longrightarrow> tokenize_path (path_of pos) = Some pos"
proof (induction pos rule: length_induct)
  case (1 pos)
  have tok: "tokenize_path p = parts_tokens (segments p)" for p by (simp add: tokenize_path_def segments_def)
  have rest: "tokenize_path (path_of ts) = Some ts" if "length ts < length pos" "regular ts" for ts
    using 1 that by blast
  show ?case
  proof (cases pos rule: rev_cases)
    case Nil
    then show ?thesis by (simp add: tok segments_def part_tokens_def)
  next
    case (snoc ts t)
    have r: "regular ts" "token_ok t"
      using 1(2) snoc regular_append_left regular_append_right regular_Cons by blast+
    note ts = rest [OF _ r(1), unfolded tok]
    show ?thesis
    proof (cases t)
      case (Name k)
      have "parts_tokens (segments (path_of ts) @ [k]) = Some (ts @ [Name k])"
        using ts snoc r Name by (intro parts_tokens_snoc) (simp_all add: part_tokens_plain)
      then show ?thesis
        using r Name snoc path_of_eq_Nil [OF r(1)] by (auto simp: tok segments_Name part_tokens_plain simp del: child_path.simps)
    next
      case (Index i)
      show ?thesis
      proof (cases ts rule: rev_cases)
        case Nil
        have "segments (path_of [Index i]) = [CHR ''['' # show_nat (nat i)]"
          using segments_Index [of i "[]"] r(2) Index by (simp add: path_of_def segments_def)
        with Nil show ?thesis
          using snoc Index r(2) by (simp add: tok part_tokens_Index)
      next
        case (snoc us u)
        then obtain k where u: "u = Name k" "plain_key k"
          using 1(2) \<open>pos = ts @ [t]\<close> Index regular_Index_last by fastforce
        have "regular us" using r(1) snoc regular_append_left by blast
        then have us: "parts_tokens (segments (path_of us)) = Some us"
          using rest [of us, unfolded tok] snoc \<open>pos = ts @ [t]\<close> by simp
        have p: "path_of pos = child_path (child_path (path_of us) (Name k)) (Index i)"
          using snoc u(1) Index \<open>pos = ts @ [t]\<close> by (simp add: path_of_def)
        have seg: "segments (path_of pos) = (if us = [] then [] else segments (path_of us)) @ [k @ CHR ''['' # show_nat (nat i)]"
          unfolding p using u(2) r(2) Index path_of_eq_Nil [OF \<open>regular us\<close>]
          by (auto simp: segments_Index segments_Name simp del: child_path.simps)
        have "parts_tokens ((if us = [] then [] else segments (path_of us)) @ [k @ CHR ''['' # show_nat (nat i)]) =
            Some (us @ [Name k, Index i])"
          using us u(2) r(2) Index by (intro parts_tokens_snoc) (auto simp: part_tokens_Name_Index)
        then show ?thesis using seg tok snoc u \<open>pos = ts @ [t]\<close> Index by simp
      qed
    qed
  qed
qed

lemma path_of_inject: "regular p \<Longrightarrow> regular q \<Longrightarrow> path_of p = path_of q \<longleftrightarrow> p = q"
  by (metis option.inject tokenize_path_of)

section \<open>Navigation\<close>

text \<open>\<open>_navigate\<close>: a missing key, an index out of range and a null member are the same \<open>None\<close>.\<close>

fun navigate :: "token \<Rightarrow> json \<Rightarrow> json option" where
  "navigate (Index i) (JArr xs) = (if 0 \<le> i \<and> i < int (length xs) then Some (xs ! nat i) else None)"
| "navigate (Name k) (JObj d) = dict_get d k"
| "navigate t j = None"

text \<open>The assignment \<open>current[last] = value\<close>, which replaces only what is there.\<close>

fun put_child :: "token \<Rightarrow> json \<Rightarrow> json \<Rightarrow> json" where
  "put_child (Index i) v (JArr xs) = (if 0 \<le> i \<and> i < int (length xs) then JArr (xs[nat i := v]) else JArr xs)"
| "put_child (Name k) v (JObj d) = (if dict_get d k \<noteq> None then JObj (dict_set k v d) else JObj d)"
| "put_child t v j = j"

text \<open>\<open>_set_at_path\<close> on the tokens of a path; the objects on the way are updated in place.\<close>

fun set_at :: "token list \<Rightarrow> json \<Rightarrow> json \<Rightarrow> json" where
  "set_at [] v j = j"
| "set_at [t] v j = put_child t v j"
| "set_at (t # u # ts) v j = (case navigate t j of None \<Rightarrow> j | Some c \<Rightarrow> put_child t (set_at (u # ts) v c) j)"

primrec get_at :: "token list \<Rightarrow> json \<Rightarrow> json option" where
  "get_at [] j = Some j"
| "get_at (t # ts) j = (case navigate t j of None \<Rightarrow> None | Some c \<Rightarrow> get_at ts c)"

fun scalar :: "json \<Rightarrow> bool" where
  "scalar (JArr xs) = False"
| "scalar (JObj d) = False"
| "scalar j = True"

lemma navigate_put_same: "navigate t j \<noteq> None \<Longrightarrow> navigate t (put_child t v j) = Some v"
  by (cases "(t, j)" rule: navigate.cases) (auto split: if_splits)

lemma navigate_put_other: "t \<noteq> u \<Longrightarrow> navigate u (put_child t v j) = navigate u j"
  by (cases j; cases t; cases u) (auto simp: nth_list_update)

lemma navigate_scalar: "scalar j \<Longrightarrow> navigate t j = None"
  by (cases j; cases t) auto

lemma get_at_scalar: "scalar j \<Longrightarrow> get_at q j = Some c \<Longrightarrow> q = [] \<and> c = j"
  by (cases q) (auto simp: navigate_scalar)

text \<open>Replacing the leaf at one position changes what is read at this position and at no other leaf.\<close>

lemma get_set_leaf:
  assumes "get_at p j = Some c" and "scalar c" and "p \<noteq> []" and "scalar v"
    and "get_at q j = Some e" and "scalar e"
  shows "get_at q (set_at p v j) = Some (if q = p then v else e)"
  using assms
proof (induction p v j arbitrary: q rule: set_at.induct)
  case (2 t v j)
  then obtain n where n: "navigate t j = Some n" "scalar n" by (auto split: option.splits)
  show ?case
  proof (cases q)
    case Nil
    with 2 n show ?thesis using navigate_scalar by fastforce
  next
    case (Cons u us)
    show ?thesis
    proof (cases "u = t")
      case True
      with 2(5) Cons n have "us = []" by (auto dest: get_at_scalar)
      with True Cons n show ?thesis by (simp add: navigate_put_same)
    next
      case False
      with Cons 2(5) show ?thesis by (simp add: navigate_put_other)
    qed
  qed
next
  case (3 t u ts v j)
  then obtain n where n: "navigate t j = Some n" "get_at (u # ts) n = Some c" by (auto split: option.splits)
  show ?case
  proof (cases q)
    case Nil
    with 3 n show ?thesis using navigate_scalar by fastforce
  next
    case (Cons w ws)
    show ?thesis
    proof (cases "w = t")
      case True
      with 3(6) Cons n have "get_at ws n = Some e" by simp
      with 3(1) [OF n(1) n(2) 3(3) _ 3(5) _ 3(7)] have "get_at ws (set_at (u # ts) v n) = Some (if ws = u # ts then v else e)"
        by simp
      with True Cons n show ?thesis by (simp add: navigate_put_same)
    next
      case False
      with Cons 3(6) n show ?thesis by (simp add: navigate_put_other)
    qed
  qed
qed simp

section \<open>Values with plain keys\<close>

text \<open>The objects are dictionaries with plain keys and no list is directly in a list.\<close>

primrec plain :: "json \<Rightarrow> bool" where
  "plain JNull = True"
| "plain (JBool b) = True"
| "plain (JInt i) = True"
| "plain (JFloat q) = True"
| "plain (JStr s) = True"
| "plain (JArr xs) = (list_all id (map plain xs) \<and> list_all (\<lambda>x. \<forall>ys. x \<noteq> JArr ys) xs)"
| "plain (JObj d) = (distinct (map fst d) \<and> list_all plain_key (map fst d) \<and> list_all snd (map (map_prod id plain) d))"

lemma plain_JArr: "plain (JArr xs) \<longleftrightarrow> list_all plain xs \<and> list_all (\<lambda>x. \<forall>ys. x \<noteq> JArr ys) xs"
  by (simp add: list.pred_map)

lemma plain_JObj:
  "plain (JObj d) \<longleftrightarrow> distinct (map fst d) \<and> list_all plain_key (map fst d) \<and> list_all (\<lambda>e. plain (snd e)) d"
  by (simp add: list.pred_map comp_def)

declare plain.simps(6,7) [simp del]
declare plain_JArr [simp] plain_JObj [simp]

lemma plain_navigate: "plain j \<Longrightarrow> navigate t j = Some c \<Longrightarrow> plain c \<and> token_ok t"
proof (cases "(t, j)" rule: navigate.cases)
  case (2 k d)
  assume "plain j" "navigate t j = Some c"
  with 2 have "(k, c) \<in> set d" "list_all (\<lambda>e. plain (snd e)) d" "list_all plain_key (map fst d)"
    by (auto dest: map_of_SomeD)
  with 2 show ?thesis by (auto simp: list_all_iff)
qed (auto simp: list_all_iff split: if_splits)

lemma plain_get_regular: "plain j \<Longrightarrow> get_at pos j = Some c \<Longrightarrow> regular pos \<and> plain c"
proof (induction pos arbitrary: j)
  case (Cons t ts)
  then obtain n where n: "navigate t j = Some n" "get_at ts n = Some c" by (auto split: option.splits)
  have p: "plain n" "token_ok t" using plain_navigate Cons n by blast+
  then have r: "regular ts" "plain c" using Cons n by blast+
  show ?case
  proof (cases "\<exists>i k us. t = Index i \<and> ts = Index k # us")
    case True
    then obtain xs where "j = JArr xs" "n \<in> set xs" using n(1) by (cases j) (auto split: if_splits)
    moreover have "\<exists>ys. n = JArr ys" using True n(2) by (cases n) auto
    ultimately show ?thesis using Cons(2) by (auto simp: list_all_iff)
  next
    case False
    then show ?thesis using p r by (cases t; cases ts; cases "hd ts") auto
  qed
qed simp

end
