(* ===== verification/Trust_Walker.thy ===== *)
theory Trust_Walker
  imports Json_Path Py_Regex "HOL-Library.List_Lexorder" "HOL-Library.Char_ord"
begin

text \<open>
  The TrustFilter's tree walker (\<open>domain/tree_walker.py\<close>): which string fields of a payload are
  scanned, under which path, and the redaction of a set of paths. A generator that raises is
  \<open>Inl\<close>; what it yielded before is discarded by its only caller.
\<close>

datatype filter_error =
    Load_bearing_flagged string string
  | Payload_too_large nat
  | Depth_exceeded nat
  | Malformed_input
  | Filter_raises string

definition max_depth :: nat where "max_depth = 32"

definition always_scan :: "string list" where
  "always_scan = [''description'', ''notes'', ''body'', ''comment'', ''memo'', ''content'', ''text'']"

definition structured_suffixes :: "string list" where
  "structured_suffixes = [''_id'', ''_at'', ''_url'', ''_uri'']"

definition structured_exact :: "string list" where
  "structured_exact = [''id'', ''email'', ''url'', ''uri'', ''uuid'', ''timezone'', ''timestamp'', ''tz'', ''href'']"

definition redacted_marker :: string where
  "redacted_marker = ''[redacted: injection]''"

section \<open>Structured values\<close>

definition hex_re :: regex where "hex_re = Chars False [(48, 57), (97, 102), (65, 70)]"

definition iso_date_re :: regex where
  "iso_date_re =
     (let two = Times 2 digit_re; minus = Literal (CHR ''-''); colon = Literal (CHR '':'') in
      seqs [Line_start False, Times 4 digit_re, minus, two, minus, two,
        opt (seqs [Literal (CHR ''T''), two, colon, two, opt (Seq colon two), opt (Seq (Literal (CHR ''.'')) (plus_of digit_re)),
          opt (Alt (Literal (CHR ''Z'')) (seqs [alts [Literal (CHR ''+''), minus], two, opt colon, two]))]), Line_end])"

definition uuid_re :: regex where
  "uuid_re =
     (let minus = Literal (CHR ''-'') in
      seqs [Line_start False, Times 8 hex_re, minus, Times 4 hex_re, minus, Times 4 hex_re, minus, Times 4 hex_re, minus,
        Times 12 hex_re, Line_end])"

definition email_re :: regex where
  "email_re =
     (let alnum = [(97, 122), (65, 90), (48, 57)] in
      seqs [Line_start False, plus_of (Chars False (alnum @ [(95, 95), (46, 46), (43, 43), (45, 45)])), Literal (CHR ''@''),
        plus_of (Chars False (alnum @ [(45, 45)])), Literal (CHR ''.''),
        plus_of (Chars False (alnum @ [(45, 45), (46, 46)])), Line_end])"

definition url_re :: regex where
  "url_re = seqs [Line_start False, lit ''http'', opt (Literal (CHR ''s'')), lit ''://'', plus_of (Chars True space_ranges), Line_end]"

text \<open>The texts \<open>float(s)\<close> accepts, without regard to case.\<close>

definition float_re :: regex where
  "float_re =
     (let digits = Seq digit_re (Star True (Seq (opt (Literal (CHR ''_''))) digit_re));
          sign = opt (alts [Literal (CHR ''+''), Literal (CHR ''-'')]) in
      seqs [Line_start False, sign,
        alts [seqs [alts [seqs [digits, opt (Seq (Literal (CHR ''.'')) (opt digits))], Seq (Literal (CHR ''.'')) digits],
                    opt (seqs [Literal (CHR ''e''), sign, digits])],
              lits [''infinity'', ''inf'', ''nan'']], Line_end])"

definition is_structured_value :: "string \<Rightarrow> bool" where
  "is_structured_value value =
     (let s = strip value in
      if s = [] \<or> 256 < length s then False
      else re_match True float_re s \<noteq> None \<or> re_match False iso_date_re s \<noteq> None \<or> re_match False uuid_re s \<noteq> None \<or>
        re_match False email_re s \<noteq> None \<or> length s < 200 \<and> re_match False url_re s \<noteq> None)"

definition is_structured_name :: "string \<Rightarrow> bool" where
  "is_structured_name n =
     (let l = lower n in l \<in> set structured_exact \<or> list_ex (\<lambda>x. ends_with x l) structured_suffixes)"

text \<open>The leaf name of a path: the last part, up to its first bracket.\<close>

definition leaf_name :: "string \<Rightarrow> string" where
  "leaf_name path = takeWhile (\<lambda>c. c \<noteq> CHR ''['') (last (split_on (CHR ''.'') (filter (\<lambda>c. c \<noteq> CHR '']'') path)))"

definition should_scan :: "string \<Rightarrow> string \<Rightarrow> bool" where
  "should_scan key value =
     (let n = leaf_name key in
      if lower n \<in> set always_scan then True
      else if is_structured_name n then False
      else \<not> is_structured_value value)"

section \<open>The walk\<close>

type_synonym field = "string \<times> string"

text \<open>\<open>walk depth path payload\<close> yields the fields of a payload, \<open>walk_dict\<close> those of the entries of an
  object, \<open>walk_list\<close> those of the items of a list from an index on.\<close>

fun walk :: "nat \<Rightarrow> string \<Rightarrow> json \<Rightarrow> filter_error + field list" and
  walk_dict :: "nat \<Rightarrow> string \<Rightarrow> (string \<times> json) list \<Rightarrow> filter_error + field list" and
  walk_list :: "nat \<Rightarrow> string \<Rightarrow> nat \<Rightarrow> json list \<Rightarrow> filter_error + field list" where
  "walk n path j =
     (if max_depth < n then Inl (Depth_exceeded n)
      else case j of
        JObj d \<Rightarrow> walk_dict n path d
      | JArr xs \<Rightarrow> walk_list n path 0 xs
      | JStr s \<Rightarrow> Inr (if path \<noteq> [] \<and> should_scan path s then [(path, s)] else [])
      | _ \<Rightarrow> Inr [])"
| "walk_dict n path [] = Inr []"
| "walk_dict n path ((k, v) # d) =
     bind_res
       (case v of
          JStr s \<Rightarrow> Inr (if should_scan k s then [(child_path path (Name k), s)] else [])
        | JObj e \<Rightarrow> walk (Suc n) (child_path path (Name k)) v
        | JArr xs \<Rightarrow> walk (Suc n) (child_path path (Name k)) v
        | _ \<Rightarrow> Inr [])
       (\<lambda>a. bind_res (walk_dict n path d) (\<lambda>b. Inr (a @ b)))"
| "walk_list n path i [] = Inr []"
| "walk_list n path i (x # xs) =
     bind_res (walk (Suc n) (child_path path (Index (int i))) x)
       (\<lambda>a. bind_res (walk_list n path (Suc i) xs) (\<lambda>b. Inr (a @ b)))"

declare walk.simps [simp del]

section \<open>Redaction\<close>

text \<open>\<open>_set_at_path\<close>: an index that is no number is a \<open>ValueError\<close>, a path without a token an
  \<open>IndexError\<close>.\<close>

definition set_at_path :: "json \<Rightarrow> string \<Rightarrow> filter_error + json" where
  "set_at_path j path = (case tokenize_path path of
       None \<Rightarrow> Inl (Filter_raises ''ValueError'')
     | Some [] \<Rightarrow> Inl (Filter_raises ''IndexError'')
     | Some (t # ts) \<Rightarrow> Inr (set_at (t # ts) (JStr redacted_marker) j))"

primrec strip_paths :: "string list \<Rightarrow> json \<Rightarrow> filter_error + json" where
  "strip_paths [] j = Inr j"
| "strip_paths (p # ps) j = bind_res (set_at_path j p) (strip_paths ps)"

text \<open>A set of paths is a list without repetitions, redacted in the order of \<open>sorted\<close>.\<close>

definition apply_strips :: "json \<Rightarrow> string list \<Rightarrow> filter_error + json" where
  "apply_strips j paths = strip_paths (sort (remdups paths)) j"

section \<open>What the walk yields\<close>

lemma walk_sound:
  "walk n path j = Inr xs \<Longrightarrow> plain j \<Longrightarrow> (p, s) \<in> set xs \<Longrightarrow>
     \<exists>pos. p = foldl child_path path pos \<and> get_at pos j = Some (JStr s)"
  "walk_dict n path d = Inr xs \<Longrightarrow> list_all (\<lambda>e. plain (snd e)) d \<Longrightarrow> (p, s) \<in> set xs \<Longrightarrow>
     \<exists>k v pos. (k, v) \<in> set d \<and> p = foldl child_path path (Name k # pos) \<and> get_at pos v = Some (JStr s)"
  "walk_list n path i js = Inr xs \<Longrightarrow> list_all plain js \<Longrightarrow> (p, s) \<in> set xs \<Longrightarrow>
     \<exists>m pos. m < length js \<and> p = foldl child_path path (Index (int (i + m)) # pos) \<and> get_at pos (js ! m) = Some (JStr s)"
proof (induction n path j and n path d and n path i js arbitrary: xs and xs and xs
    rule: walk_walk_dict_walk_list.induct)
  case (1 n path j)
  note w = 1(3) [unfolded walk.simps [of n path j]]
  have n: "\<not> max_depth < n" using w by (auto split: if_splits)
  show ?case
  proof (cases j)
    case (JStr t)
    with w n 1(5) show ?thesis by (auto split: if_splits intro: exI [of _ "[]"])
  next
    case (JArr js)
    with w n have "walk_list n path 0 js = Inr xs" by simp
    from 1(1) [OF n JArr this _ 1(5)] 1(4) JArr obtain m pos where
      "m < length js" "p = foldl child_path path (Index (int m) # pos)" "get_at pos (js ! m) = Some (JStr s)" by auto
    then show ?thesis using JArr by (intro exI [of _ "Index (int m) # pos"]) simp
  next
    case (JObj d)
    with w n have "walk_dict n path d = Inr xs" by simp
    from 1(2) [OF n JObj this _ 1(5)] 1(4) JObj obtain k v pos where
      "(k, v) \<in> set d" "p = foldl child_path path (Name k # pos)" "get_at pos v = Some (JStr s)" by auto
    then show ?thesis using JObj 1(4) by (intro exI [of _ "Name k # pos"]) simp
  qed (use w n 1(5) in auto)
next
  case (3 n path k v d)
  from 3(4) obtain a b where a: "(case v of JStr s \<Rightarrow> Inr (if should_scan k s then [(child_path path (Name k), s)] else [])
      | JObj e \<Rightarrow> walk (Suc n) (child_path path (Name k)) v | JArr xs \<Rightarrow> walk (Suc n) (child_path path (Name k)) v | _ \<Rightarrow> Inr []) = Inr a"
    and b: "walk_dict n path d = Inr b" and xs: "xs = a @ b"
    by (auto simp: result_simps)
  show ?case
  proof (cases "(p, s) \<in> set a")
    case True
    have "\<exists>pos. p = foldl child_path (child_path path (Name k)) pos \<and> get_at pos v = Some (JStr s)"
    proof (cases v)
      case (JStr t)
      with a True show ?thesis by (auto split: if_splits intro: exI [of _ "[]"])
    qed (use 3 a True in auto)
    then show ?thesis by force
  next
    case False
    with 3(3) [OF b] a 3(5,6) xs show ?thesis by fastforce
  qed
next
  case (5 n path i x js)
  from 5(3) obtain a b where a: "walk (Suc n) (child_path path (Index (int i))) x = Inr a"
    and b: "walk_list n path (Suc i) js = Inr b" and xs: "xs = a @ b"
    by (auto simp: result_simps)
  show ?case
  proof (cases "(p, s) \<in> set a")
    case True
    with 5(1) [OF a] 5(4) show ?thesis by (intro exI [of _ 0]) auto
  next
    case False
    with 5(2) [OF b] 5(4,5) xs obtain m pos where
      "m < length js" "p = foldl child_path path (Index (int (Suc i + m)) # pos)" "get_at pos (js ! m) = Some (JStr s)" by auto
    then show ?thesis by (intro exI [of _ "Suc m"]) auto
  qed
qed auto

section \<open>Redacted copies\<close>

text \<open>\<open>redacts j j'\<close>: \<open>j'\<close> has the shape of \<open>j\<close>, and some of its texts are the marker.\<close>

inductive redacts :: "json \<Rightarrow> json \<Rightarrow> bool" where
  same: "redacts j j"
| marked: "redacts (JStr s) (JStr redacted_marker)"
| items: "list_all2 redacts xs ys \<Longrightarrow> redacts (JArr xs) (JArr ys)"
| entries: "list_all2 (\<lambda>x y. fst x = fst y \<and> redacts (snd x) (snd y)) d e \<Longrightarrow> redacts (JObj d) (JObj e)"

lemma redacts_list_refl [simp]: "list_all2 redacts xs xs"
  "list_all2 (\<lambda>x y. fst x = fst y \<and> redacts (snd x) (snd y)) d d"
  by (auto simp: list_all2_conv_all_nth intro: redacts.same)

lemma walk_redacts_list:
  assumes "list_all2 (\<lambda>x y. \<forall>n path xs. walk n path x = Inr xs \<longrightarrow>
     (\<exists>ys. walk n path y = Inr ys \<and> (\<forall>f\<in>set ys. snd f = redacted_marker \<or> f \<in> set xs))) js ks"
  shows "walk_list n path i js = Inr xs \<Longrightarrow>
    \<exists>ys. walk_list n path i ks = Inr ys \<and> (\<forall>f\<in>set ys. snd f = redacted_marker \<or> f \<in> set xs)"
  using assms
proof (induction arbitrary: i xs rule: list_all2_induct)
  case (Cons x js y ks)
  from Cons(4) obtain a b where a: "walk (Suc n) (child_path path (Index (int i))) x = Inr a"
    "walk_list n path (Suc i) js = Inr b" "xs = a @ b" by (auto simp: result_simps)
  from Cons(1) a(1) obtain a' where a': "walk (Suc n) (child_path path (Index (int i))) y = Inr a'"
    "\<forall>f\<in>set a'. snd f = redacted_marker \<or> f \<in> set a" by blast
  from Cons(3) [OF a(2)] obtain b' where b': "walk_list n path (Suc i) ks = Inr b'"
    "\<forall>f\<in>set b'. snd f = redacted_marker \<or> f \<in> set b" by blast
  from a' b' a(3) show ?case by auto
qed simp

definition walk_member :: "nat \<Rightarrow> string \<Rightarrow> string \<Rightarrow> json \<Rightarrow> filter_error + field list" where
  "walk_member n path k v = (case v of
          JStr s \<Rightarrow> Inr (if should_scan k s then [(child_path path (Name k), s)] else [])
        | JObj e \<Rightarrow> walk (Suc n) (child_path path (Name k)) v
        | JArr xs \<Rightarrow> walk (Suc n) (child_path path (Name k)) v
        | _ \<Rightarrow> Inr [])"

lemma walk_dict_Cons:
  "walk_dict n path ((k, v) # d) = bind_res (walk_member n path k v) (\<lambda>a. bind_res (walk_dict n path d) (\<lambda>b. Inr (a @ b)))"
  by (simp add: walk_member_def)

lemma walk_redacts_dict:
  assumes "list_all2 (\<lambda>x y. fst x = fst y \<and> (\<forall>n path k xs. walk_member n path k (snd x) = Inr xs \<longrightarrow>
     (\<exists>ys. walk_member n path k (snd y) = Inr ys \<and> (\<forall>f\<in>set ys. snd f = redacted_marker \<or> f \<in> set xs)))) d e"
  shows "walk_dict n path d = Inr xs \<Longrightarrow>
    \<exists>ys. walk_dict n path e = Inr ys \<and> (\<forall>f\<in>set ys. snd f = redacted_marker \<or> f \<in> set xs)"
  using assms
proof (induction arbitrary: xs rule: list_all2_induct)
  case (Cons x d y e)
  obtain k v w where k: "x = (k, v)" "y = (k, w)" using Cons(1) by (cases x; cases y) auto
  from Cons(4) k obtain a b where a: "walk_member n path k v = Inr a" "walk_dict n path d = Inr b" "xs = a @ b"
    by (auto simp: walk_dict_Cons result_simps simp del: walk_dict.simps)
  from Cons(1) a(1) k obtain a' where a': "walk_member n path k w = Inr a'"
    "\<forall>f\<in>set a'. snd f = redacted_marker \<or> f \<in> set a" by fastforce
  from Cons(3) [OF a(2)] obtain b' where b': "walk_dict n path e = Inr b'"
    "\<forall>f\<in>set b'. snd f = redacted_marker \<or> f \<in> set b" by blast
  from a' b' a(3) k show ?case by (auto simp: walk_dict_Cons simp del: walk_dict.simps)
qed simp

lemma walk_redacts:
  assumes "redacts j j'"
  shows "(\<forall>n path xs. walk n path j = Inr xs \<longrightarrow>
      (\<exists>ys. walk n path j' = Inr ys \<and> (\<forall>f\<in>set ys. snd f = redacted_marker \<or> f \<in> set xs))) \<and>
    (\<forall>n path k xs. walk_member n path k j = Inr xs \<longrightarrow>
      (\<exists>ys. walk_member n path k j' = Inr ys \<and> (\<forall>f\<in>set ys. snd f = redacted_marker \<or> f \<in> set xs)))"
  using assms
proof induction
  case (marked s)
  then show ?case by (auto simp: walk.simps walk_member_def)
next
  case (items xs ys)
  from items have l: "list_all2 (\<lambda>x y. \<forall>n path xs. walk n path x = Inr xs \<longrightarrow>
     (\<exists>ys. walk n path y = Inr ys \<and> (\<forall>f\<in>set ys. snd f = redacted_marker \<or> f \<in> set xs))) xs ys"
    by (rule list_all2_mono) blast
  have "\<exists>zs. walk n path (JArr ys) = Inr zs \<and> (\<forall>f\<in>set zs. snd f = redacted_marker \<or> f \<in> set us)"
    if "walk n path (JArr xs) = Inr us" for n path us
    using that walk_redacts_list [OF l] by (auto simp: walk.simps split: if_splits)
  then show ?case by (auto simp: walk_member_def)
next
  case (entries d e)
  from entries have l: "list_all2 (\<lambda>x y. fst x = fst y \<and> (\<forall>n path k xs. walk_member n path k (snd x) = Inr xs \<longrightarrow>
     (\<exists>ys. walk_member n path k (snd y) = Inr ys \<and> (\<forall>f\<in>set ys. snd f = redacted_marker \<or> f \<in> set xs)))) d e"
    by (rule list_all2_mono) blast
  have "\<exists>zs. walk n path (JObj e) = Inr zs \<and> (\<forall>f\<in>set zs. snd f = redacted_marker \<or> f \<in> set us)"
    if "walk n path (JObj d) = Inr us" for n path us
    using that walk_redacts_dict [OF l] by (auto simp: walk.simps split: if_splits)
  then show ?case by (auto simp: walk_member_def)
qed auto

lemma redacts_trans: "redacts j k \<Longrightarrow> redacts k l \<Longrightarrow> redacts j l"
proof (induction arbitrary: l rule: redacts.induct)
  case (marked s)
  then show ?case by (cases rule: redacts.cases) (auto intro: redacts.marked)
next
  case (items xs ys)
  from items(2) show ?case
  proof cases
    case (items zs)
    have "list_all2 redacts xs zs"
      using \<open>list_all2 _ xs ys\<close> items by (auto simp: list_all2_conv_all_nth)
    with items show ?thesis by (auto intro: redacts.items)
  qed (use items(1) in \<open>auto intro!: redacts.items elim: list_all2_mono\<close>)
next
  case (entries d e)
  from entries(2) show ?case
  proof cases
    case (entries f)
    have "list_all2 (\<lambda>x y. fst x = fst y \<and> redacts (snd x) (snd y)) d f"
      using \<open>list_all2 _ d e\<close> entries by (fastforce simp: list_all2_conv_all_nth)
    with entries show ?thesis by (auto intro: redacts.entries)
  qed (use entries(1) in \<open>auto intro!: redacts.entries elim: list_all2_mono\<close>)
qed

lemma redacts_JArr: "redacts j (JArr ys) \<Longrightarrow> \<exists>xs. j = JArr xs"
  by (cases rule: redacts.cases) auto

lemma redacts_plain: "redacts j k \<Longrightarrow> plain j \<Longrightarrow> plain k"
proof (induction rule: redacts.induct)
  case (items xs ys)
  then have "list_all plain ys" by (auto simp: list_all2_conv_all_nth list_all_length)
  moreover have "\<forall>zs. y \<noteq> JArr zs" if "y \<in> set ys" for y
  proof -
    from that obtain i where i: "i < length ys" "y = ys ! i" by (auto simp: in_set_conv_nth)
    with items(1) obtain x where "x \<in> set xs" "redacts x y"
      by (metis (no_types, lifting) list_all2_conv_all_nth nth_mem)
    then show ?thesis using items(2) redacts_JArr by (fastforce simp: list_all_iff)
  qed
  ultimately show ?case by (simp add: list_all_iff)
next
  case (entries d e)
  then have "map fst e = map fst d" by (auto simp: list_all2_conv_all_nth intro: nth_equalityI)
  moreover have "list_all (\<lambda>x. plain (snd x)) e"
    using entries by (auto simp: list_all2_conv_all_nth list_all_length)
  ultimately show ?case using entries(2) by simp
qed auto

lemma redacts_update:
  "dict_get d k = Some n \<Longrightarrow> redacts n m \<Longrightarrow>
   list_all2 (\<lambda>x y. fst x = fst y \<and> redacts (snd x) (snd y)) d (dict_set k m d)"
  by (induction d) (auto split: if_splits intro: redacts.same)

lemma redacts_put: "navigate t j = Some n \<Longrightarrow> redacts n m \<Longrightarrow> redacts j (put_child t m j)"
proof (cases "(t, j)" rule: navigate.cases)
  case (1 i xs)
  assume "navigate t j = Some n" "redacts n m"
  with 1 show ?thesis
    by (auto split: if_splits intro!: redacts.items list_all2_all_nthI simp: nth_list_update intro: redacts.same)
next
  case (2 k d)
  assume "navigate t j = Some n" "redacts n m"
  with 2 show ?thesis by (auto intro!: redacts.entries redacts_update)
qed auto

lemma redacts_set_at: "get_at p j = Some (JStr s) \<Longrightarrow> redacts j (set_at p (JStr redacted_marker) j)"
proof (induction p "JStr redacted_marker" j rule: set_at.induct)
  case (2 t j)
  then show ?case by (auto split: option.splits intro: redacts_put redacts.marked)
next
  case (3 t u ts j)
  then show ?case by (auto split: option.splits intro: redacts_put)
qed (auto intro: redacts.same)

section \<open>Stripping a set of fields\<close>

text \<open>Every path to strip is that of a text of the payload.\<close>

definition text_paths :: "json \<Rightarrow> string list \<Rightarrow> bool" where
  "text_paths j ps \<longleftrightarrow> (\<forall>p\<in>set ps. \<exists>q s. p = path_of q \<and> regular q \<and> q \<noteq> [] \<and> get_at q j = Some (JStr s))"

definition stripped_as :: "json \<Rightarrow> string set \<Rightarrow> json \<Rightarrow> bool" where
  "stripped_as j P j' \<longleftrightarrow> redacts j j' \<and> (\<forall>q c. regular q \<and> get_at q j = Some c \<and> scalar c \<longrightarrow>
     get_at q j' = Some (if path_of q \<in> P then JStr redacted_marker else c))"

lemma stripped_as_step:
  assumes "stripped_as j P j'" and "regular q" and "q \<noteq> []" and "get_at q j = Some (JStr s)"
  shows "\<exists>j''. set_at_path j' (path_of q) = Inr j'' \<and> stripped_as j (insert (path_of q) P) j''"
proof -
  let ?j = "set_at q (JStr redacted_marker) j'"
  have s: "set_at_path j' (path_of q) = Inr ?j"
    using assms(2,3) by (simp add: set_at_path_def tokenize_path_of split: list.split)
  obtain u where u: "get_at q j' = Some (JStr u)"
    using assms(1,2,4) unfolding stripped_as_def by (metis scalar.simps(7))
  have r: "redacts j ?j" using assms(1) redacts_set_at [OF u] redacts_trans by (auto simp: stripped_as_def)
  have "get_at q' ?j = Some (if path_of q' \<in> insert (path_of q) P then JStr redacted_marker else c)"
    if q': "regular q'" "get_at q' j = Some c" "scalar c" for q' c
  proof -
    have "get_at q' j' = Some (if path_of q' \<in> P then JStr redacted_marker else c)"
      using assms(1) q' by (simp add: stripped_as_def)
    from get_set_leaf [OF u _ assms(3) _ this, of "JStr redacted_marker"] q'(3)
    show ?thesis using path_of_inject [OF assms(2) q'(1)] by auto
  qed
  with s r show ?thesis by (auto simp: stripped_as_def)
qed

lemma strip_paths_stripped:
  "stripped_as j P j' \<Longrightarrow> text_paths j ps \<Longrightarrow> \<exists>j''. strip_paths ps j' = Inr j'' \<and> stripped_as j (P \<union> set ps) j''"
proof (induction ps arbitrary: P j')
  case (Cons p ps)
  then obtain q s where q: "p = path_of q" "regular q" "q \<noteq> []" "get_at q j = Some (JStr s)"
    by (auto simp: text_paths_def)
  from stripped_as_step [OF Cons(2) q(2-4)] q(1) obtain j'' where
    j: "set_at_path j' p = Inr j''" "stripped_as j (insert p P) j''" by blast
  from Cons(1) [OF j(2)] Cons(3) j(1) show ?case by (simp add: text_paths_def)
qed simp

lemma apply_strips_correct:
  assumes "text_paths j ps"
  shows "\<exists>j'. apply_strips j ps = Inr j' \<and> stripped_as j (set ps) j'"
proof -
  have "stripped_as j {} j" by (simp add: stripped_as_def redacts.same)
  moreover have "text_paths j (sort (remdups ps))" using assms by (simp add: text_paths_def)
  ultimately show ?thesis using strip_paths_stripped by (fastforce simp: apply_strips_def)
qed

end
