(* ===== verification/Trust_Filter.thy ===== *)
theory Trust_Filter
  imports Trust_Rules Trust_Walker
begin

text \<open>
  The TrustFilter's pipeline (\<open>service/filter_service.py\<close>): S1 scans the string fields of a payload,
  S2 asks a judge model (\<open>adapters/haiku_judge.py\<close>), the more paranoid verdict wins and S3 redacts
  the flagged fields. The judge, the JSON text of a value and its parsing are the parameters of
  \<open>filter_env\<close>. Logging is left out.
\<close>

datatype judge_reply = Reply string | Timed_out | Api_error string

record s2_result =
  s2_verdict :: verdict
  s2_confidence :: rat

text \<open>\<open>fe_dumps\<close> is \<open>json.dumps\<close> (\<open>None\<close> for what it raises), \<open>fe_read_float\<close> is \<open>float\<close> of a text,
  with infinity and nan as 1 and the negative infinity as 0, the values clamping gives them, and
  \<open>fe_choose\<close> is the element a \<open>set\<close> yields first.\<close>

record 'x filter_env =
  fe_rules :: "rule list"
  fe_dumps :: "json \<Rightarrow> string option"
  fe_str :: "json \<Rightarrow> string"
  fe_loads :: "string \<Rightarrow> json option"
  fe_read_float :: "string \<Rightarrow> rat option"
  fe_judge :: "string \<Rightarrow> 'x \<Rightarrow> judge_reply \<times> 'x"
  fe_choose :: "string list \<Rightarrow> string"
  fe_stamp :: "'x \<Rightarrow> string"

record sanitized_payload =
  sp_original_shape :: json
  sp_stripped_fields :: "string list"
  sp_verdict :: verdict
  sp_confidence :: rat
  sp_degraded :: bool
  sp_version :: string
  sp_scanned_at :: string

section \<open>The judge\<close>

definition newline :: string where "newline = [CHR 0x0A]"

definition dumps_text :: "'x filter_env \<Rightarrow> json \<Rightarrow> string" where
  "dumps_text env j = (case fe_dumps env j of Some t \<Rightarrow> t | None \<Rightarrow> fe_str env j)"

definition user_message :: "'x filter_env \<Rightarrow> string \<Rightarrow> string list \<Rightarrow> string" where
  "user_message env payload_text rule_ids =
     (let block = dumps_text env (JObj [(''data_to_classify'', JStr (take 16000 payload_text))]);
          parts = [''Classify the following data. The data is inside the JSON field 'data_to_classify'.'', [],
            ''```json'', block, ''```''] in
      join_with newline (if rule_ids = [] then parts else parts @ [[],
        ''S1 scanner already flagged these rules: '' @ join_with '', '' rule_ids]))"

definition parse_verdict :: "json \<Rightarrow> verdict" where
  "parse_verdict j = (if j = JStr ''clean'' then Clean else if j = JStr ''injection'' then Injection else Suspicious)"

fun to_float :: "'x filter_env \<Rightarrow> json \<Rightarrow> filter_error + rat" where
  "to_float env (JBool b) = Inr (if b then 1 else 0)"
| "to_float env (JInt i) = Inr (of_int i)"
| "to_float env (JFloat q) = Inr q"
| "to_float env (JStr s) = (case fe_read_float env s of Some q \<Rightarrow> Inr q | None \<Rightarrow> Inl (Filter_raises ''ValueError''))"
| "to_float env _ = Inl (Filter_raises ''TypeError'')"

definition clamp :: "rat \<Rightarrow> rat" where
  "clamp q = max 0 (min 1 q)"

definition parse_response :: "'x filter_env \<Rightarrow> string \<Rightarrow> filter_error + s2_result" where
  "parse_response env response_text = (case fe_loads env (strip response_text) of
       None \<Rightarrow> Inr \<lparr>s2_verdict = Suspicious, s2_confidence = 1 / 2\<rparr>
     | Some (JObj d) \<Rightarrow> bind_res (to_float env (jget d ''confidence'' (JFloat (1 / 2)))) (\<lambda>q.
         Inr \<lparr>s2_verdict = parse_verdict (jget d ''verdict'' (JStr ''suspicious'')), s2_confidence = clamp q\<rparr>)
     | Some _ \<Rightarrow> Inl (Filter_raises ''AttributeError''))"

text \<open>\<open>classify\<close>: \<open>None\<close> for \<open>HaikuUnreachableError\<close>.\<close>

definition classify :: "'x filter_env \<Rightarrow> string \<Rightarrow> string list \<Rightarrow> 'x \<Rightarrow> (filter_error + s2_result option) \<times> 'x" where
  "classify env payload_text rule_ids x =
     (case fe_judge env (user_message env payload_text rule_ids) x of
        (Reply t, x') \<Rightarrow> (bind_res (parse_response env t) (\<lambda>r. Inr (Some r)), x')
      | (_, x') \<Rightarrow> (Inr None, x'))"

section \<open>The pipeline\<close>

definition max_payload_bytes :: nat where "max_payload_bytes = 1048576"

definition utf8_length :: "string \<Rightarrow> nat" where
  "utf8_length s = sum_list (map (\<lambda>c. if (of_char c :: int) < 128 then 1 else 2) s)"

definition check_payload_limits :: "'x filter_env \<Rightarrow> json \<Rightarrow> filter_error option" where
  "check_payload_limits env payload = (case fe_dumps env payload of None \<Rightarrow> Some Malformed_input
     | Some t \<Rightarrow> check_that (utf8_length t \<le> max_payload_bytes) (Payload_too_large (utf8_length t)))"

definition field_hits :: "rule list \<Rightarrow> field list \<Rightarrow> rule_hit list" where
  "field_hits rules fs = concat (map (\<lambda>(p, v). scan_string rules v p) fs)"

definition run_s1 :: "rule list \<Rightarrow> json \<Rightarrow> filter_error + rule_hit list" where
  "run_s1 rules payload = bind_res (walk 0 [] payload) (\<lambda>fs. Inr (field_hits rules fs))"

text \<open>\<open>_run_s2\<close>: the judge's result, \<open>None\<close> when it is unreachable, which is the degraded mode.\<close>

definition serialize_for_judge :: "'x filter_env \<Rightarrow> json \<Rightarrow> string" where
  "serialize_for_judge env payload = take 16000 (dumps_text env payload)"

definition run_s2 :: "'x filter_env \<Rightarrow> json \<Rightarrow> rule_hit list \<Rightarrow> 'x \<Rightarrow> (filter_error + s2_result option) \<times> 'x" where
  "run_s2 env payload hits x = classify env (serialize_for_judge env payload) (map rh_rule_id hits) x"

fun paranoia :: "verdict \<Rightarrow> nat" where
  "paranoia Clean = 0"
| "paranoia Suspicious = 1"
| "paranoia Injection = 2"

definition combine_verdicts :: "rule_hit list \<Rightarrow> s2_result option \<Rightarrow> verdict \<times> rat" where
  "combine_verdicts hits s2 = (case s2 of None \<Rightarrow> aggregate hits
     | Some r \<Rightarrow> (let (v, q) = aggregate hits in
         if paranoia v < paranoia (s2_verdict r) then (s2_verdict r, s2_confidence r)
         else if paranoia (s2_verdict r) < paranoia v then (v, q)
         else (v, (q + s2_confidence r) / 2)))"

definition flagged_paths :: "rule_hit list \<Rightarrow> string list" where
  "flagged_paths hits = remdups (map rh_field_path (filter (\<lambda>h. rh_severity h \<noteq> Low) hits))"

definition first_rule :: "rule_hit list \<Rightarrow> string \<Rightarrow> string" where
  "first_rule hits p = (case find (\<lambda>h. rh_field_path h = p) hits of Some h \<Rightarrow> rh_rule_id h | None \<Rightarrow> ''unknown'')"

definition select_fields_to_strip ::
    "'x filter_env \<Rightarrow> rule_hit list \<Rightarrow> verdict \<Rightarrow> string list \<Rightarrow> bool \<Rightarrow> filter_error + string list" where
  "select_fields_to_strip env hits v load_bearing strict =
     (if v = Clean \<or> v = Suspicious \<and> \<not> strict then Inr []
      else let bad = filter (\<lambda>p. p \<in> set load_bearing) (flagged_paths hits) in
        if bad = [] then Inr (flagged_paths hits)
        else Inl (Load_bearing_flagged (fe_choose env bad) (first_rule hits (fe_choose env bad))))"

definition scanner_version :: string where "scanner_version = ''trust_filter@0.1.0''"

definition build_payload ::
    "'x filter_env \<Rightarrow> json \<Rightarrow> string list \<Rightarrow> verdict \<times> rat \<Rightarrow> bool \<Rightarrow> 'x \<Rightarrow> filter_error + sanitized_payload" where
  "build_payload env payload stripped vq degraded x =
     bind_res (apply_strips payload stripped) (\<lambda>shape.
       Inr \<lparr>sp_original_shape = shape, sp_stripped_fields = sort (remdups stripped), sp_verdict = fst vq,
         sp_confidence = snd vq, sp_degraded = degraded, sp_version = scanner_version, sp_scanned_at = fe_stamp env x\<rparr>)"

definition scan :: "'x filter_env \<Rightarrow> json \<Rightarrow> string list \<Rightarrow> bool \<Rightarrow> 'x \<Rightarrow> (filter_error + sanitized_payload) \<times> 'x" where
  "scan env payload load_bearing strict x =
     (case check_payload_limits env payload of Some e \<Rightarrow> (Inl e, x)
      | None \<Rightarrow> (case run_s1 (fe_rules env) payload of Inl e \<Rightarrow> (Inl e, x)
      | Inr hits \<Rightarrow>
          if hits = [] then (build_payload env payload [] (Clean, 99 / 100) False x, x)
          else (case run_s2 env payload hits x of
              (Inl e, x') \<Rightarrow> (Inl e, x')
            | (Inr s2, x') \<Rightarrow>
                (let vq = combine_verdicts hits s2 in
                 (bind_res (select_fields_to_strip env hits (fst vq) load_bearing strict) (\<lambda>stripped.
                    build_payload env payload stripped vq (s2 = None) x'), x')))))"

section \<open>Lemmas\<close>


lemma in_flagged_paths: "p \<in> set (flagged_paths hits) \<longleftrightarrow> (\<exists>h\<in>set hits. rh_field_path h = p \<and> rh_severity h \<noteq> Low)"
  by (auto simp: flagged_paths_def)

lemma field_hits_paths: "h \<in> set (field_hits rules fs) \<Longrightarrow> \<exists>v. (rh_field_path h, v) \<in> set fs"
  by (auto simp: field_hits_def dest: scan_string_path)

lemma flagged_field: "(p, v) \<in> set fs \<Longrightarrow> flagged rules v \<Longrightarrow> p \<in> set (flagged_paths (field_hits rules fs))"
  using flagged_iff_hit [of rules v p] scan_string_path by (fastforce simp: in_flagged_paths field_hits_def)

text \<open>The fields of a plain payload stand at regular positions.\<close>

lemma walk_text_paths:
  assumes "walk 0 [] payload = Inr fs" and "plain payload" and "(p, v) \<in> set fs"
  obtains q where "p = path_of q" "regular q" "q \<noteq> []" "get_at q payload = Some (JStr v)"
proof -
  obtain q where q: "p = path_of q" "get_at q payload = Some (JStr v)"
    using walk_sound(1) [OF assms] by (auto simp: path_of_def)
  have "q \<noteq> []"
  proof
    assume "q = []"
    with q assms(1,3) show False by (auto simp: walk.simps split: if_splits)
  qed
  with q plain_get_regular [OF assms(2) q(2)] show ?thesis using that by blast
qed

lemma flagged_text_paths:
  assumes "walk 0 [] payload = Inr fs" and "plain payload"
  shows "text_paths payload (flagged_paths (field_hits rules fs))"
proof -
  have "\<exists>q s. p = path_of q \<and> regular q \<and> q \<noteq> [] \<and> get_at q payload = Some (JStr s)"
    if "p \<in> set (flagged_paths (field_hits rules fs))" for p
  proof -
    from that obtain v where "(p, v) \<in> set fs" using field_hits_paths by (fastforce simp: in_flagged_paths)
    from walk_text_paths [OF assms this] show ?thesis by metis
  qed
  then show ?thesis by (simp add: text_paths_def)
qed

lemma text_paths_Nil [simp]: "text_paths j []"
  by (simp add: text_paths_def)

text \<open>The result of a scan: its fields, the combined verdict and the redacted shape.\<close>

lemma scan_result:
  assumes "scan env payload lb strict x = (Inr out, x')" and "plain payload"
  obtains fs s2 where "walk 0 [] payload = Inr fs"
    "sp_stripped_fields out = (if sp_verdict out = Clean \<or> sp_verdict out = Suspicious \<and> \<not> strict then []
       else sort (flagged_paths (field_hits (fe_rules env) fs)))"
    "(field_hits (fe_rules env) fs = [] \<and> sp_verdict out = Clean \<and> \<not> sp_degraded out) \<or>
     (field_hits (fe_rules env) fs \<noteq> [] \<and> run_s2 env payload (field_hits (fe_rules env) fs) x = (Inr s2, x') \<and>
      sp_verdict out = fst (combine_verdicts (field_hits (fe_rules env) fs) s2) \<and> sp_degraded out = (s2 = None))"
    "stripped_as payload (set (sp_stripped_fields out)) (sp_original_shape out)"
    "\<forall>p\<in>set (sp_stripped_fields out). p \<notin> set lb"
proof -
  obtain fs where w: "walk 0 [] payload = Inr fs"
    using assms(1) by (cases "walk 0 [] payload") (auto simp: scan_def run_s1_def split: option.splits)
  let ?hits = "field_hits (fe_rules env) fs"
  have built: "stripped_as payload (set ps) (sp_original_shape out) \<and> sp_stripped_fields out = sort (remdups ps) \<and>
      sp_verdict out = fst vq \<and> sp_degraded out = dg"
    if "build_payload env payload ps vq dg y = Inr out" "text_paths payload ps" for ps vq dg y
    using that apply_strips_correct [OF that(2)] by (auto simp: build_payload_def)
  show ?thesis
  proof (cases "?hits = []")
    case True
    with assms(1) w have "build_payload env payload [] (Clean, 99 / 100) False x = Inr out"
      by (auto simp: scan_def run_s1_def split: option.splits)
    from built [OF this] True w that show ?thesis by simp
  next
    case False
    with assms(1) w obtain s2 where s2: "run_s2 env payload ?hits x = (Inr s2, x')"
      and b: "bind_res (select_fields_to_strip env ?hits (fst (combine_verdicts ?hits s2)) lb strict) (\<lambda>stripped.
         build_payload env payload stripped (combine_verdicts ?hits s2) (s2 = None) x') = Inr out"
      by (auto simp: scan_def run_s1_def Let_def split: option.splits prod.splits sum.splits)
    from b obtain ps where ps: "select_fields_to_strip env ?hits (fst (combine_verdicts ?hits s2)) lb strict = Inr ps"
      and o: "build_payload env payload ps (combine_verdicts ?hits s2) (s2 = None) x' = Inr out"
      by (auto simp: result_simps)
    let ?v = "fst (combine_verdicts ?hits s2)"
    have sel: "ps = (if ?v = Clean \<or> ?v = Suspicious \<and> \<not> strict then [] else flagged_paths ?hits)"
      "\<forall>p\<in>set ps. p \<notin> set lb"
      using ps by (auto simp: select_fields_to_strip_def Let_def filter_empty_conv split: if_splits)
    have "text_paths payload ps" using sel(1) flagged_text_paths [OF w assms(2)] by simp
    note out = built [OF o this]
    have "remdups ps = ps" using sel(1) by (simp add: flagged_paths_def)
    with out have v: "sp_verdict out = ?v" "sp_stripped_fields out = sort ps" "sp_degraded out = (s2 = None)"
      "stripped_as payload (set ps) (sp_original_shape out)" by simp_all
    show ?thesis
      by (rule that [OF w, of s2]) (use v False s2 sel in auto)
  qed
qed

lemma marker_not_flagged: "\<not> flagged default_rules redacted_marker"
  by code_simp

lemma stripped_leaf:
  "stripped_as j P j' \<Longrightarrow> regular q \<Longrightarrow> get_at q j = Some c \<Longrightarrow> scalar c \<Longrightarrow>
     get_at q j' = Some (if path_of q \<in> P then JStr redacted_marker else c)"
  by (simp add: stripped_as_def)

text \<open>The names of a tokenized path have no dot, so a redaction never reaches a key that has one.\<close>

lemma part_tokens_no_dot: "part_tokens p = Some ts \<Longrightarrow> CHR ''.'' \<notin> set p \<Longrightarrow> Name k \<in> set ts \<Longrightarrow> CHR ''.'' \<notin> set k"
  by (auto simp: part_tokens_def Let_def split: if_splits dest: set_takeWhileD)

lemma tokenize_no_dot: "tokenize_path p = Some ts \<Longrightarrow> Name k \<in> set ts \<Longrightarrow> CHR ''.'' \<notin> set k"
proof -
  have "parts_tokens ps = Some ts \<Longrightarrow> \<forall>p\<in>set ps. CHR ''.'' \<notin> set p \<Longrightarrow> Name k \<in> set ts \<Longrightarrow> CHR ''.'' \<notin> set k" for ps ts
  proof (induction ps arbitrary: ts)
    case (Cons p ps)
    then show ?case using part_tokens_no_dot by (fastforce split: option.splits)
  qed simp
  then show "tokenize_path p = Some ts \<Longrightarrow> Name k \<in> set ts \<Longrightarrow> CHR ''.'' \<notin> set k"
    using split_on_no_sep unfolding tokenize_path_def by metis
qed

lemma put_child_keeps_key:
  "t \<noteq> Name k \<Longrightarrow> dict_get e k = Some v \<Longrightarrow> \<exists>e'. put_child t c (JObj e) = JObj e' \<and> dict_get e' k = Some v"
  by (cases t) auto

lemma set_at_path_keeps_dotted:
  assumes "CHR ''.'' \<in> set k" and "\<exists>e. j = JObj e \<and> dict_get e k = Some v" and "set_at_path j p = Inr j'"
  shows "\<exists>e. j' = JObj e \<and> dict_get e k = Some v"
proof -
  from assms(3) obtain t ts where t: "tokenize_path p = Some (t # ts)" "j' = set_at (t # ts) (JStr redacted_marker) j"
    by (auto simp: set_at_path_def split: option.splits list.splits)
  have "t \<noteq> Name k" using tokenize_no_dot [OF t(1), of k] assms(1) by auto
  with assms(2) t(2) put_child_keeps_key show ?thesis by (cases ts) (auto split: option.splits)
qed

text \<open>Walking the sanitized payload again finds nothing flagged.\<close>

lemma nothing_flagged_left:
  assumes "scan env payload load_bearing strict x = (Inr out, x')" and "plain payload"
    and "fe_rules env = default_rules" and "sp_verdict out = Injection"
  shows "\<exists>fs. walk 0 [] (sp_original_shape out) = Inr fs \<and> (\<forall>(p, v)\<in>set fs. \<not> flagged default_rules v)"
proof -
  obtain fs s2 where w: "walk 0 [] payload = Inr fs"
    and p: "sp_stripped_fields out = (if sp_verdict out = Clean \<or> sp_verdict out = Suspicious \<and> \<not> strict then []
       else sort (flagged_paths (field_hits (fe_rules env) fs)))"
    and st: "stripped_as payload (set (sp_stripped_fields out)) (sp_original_shape out)"
    by (rule scan_result [OF assms(1,2)])
  have paths: "set (sp_stripped_fields out) = set (flagged_paths (field_hits default_rules fs))"
    using p assms(3,4) by simp
  have r: "redacts payload (sp_original_shape out)" using st by (simp add: stripped_as_def)
  then have plain: "plain (sp_original_shape out)" using assms(2) redacts_plain by blast
  obtain gs where gs: "walk 0 [] (sp_original_shape out) = Inr gs"
    "\<forall>f\<in>set gs. snd f = redacted_marker \<or> f \<in> set fs" using walk_redacts [OF r] w by blast
  have "\<not> flagged default_rules v" if f: "(q, v) \<in> set gs" for q v
  proof
    assume fl: "flagged default_rules v"
    with marker_not_flagged gs(2) f have "(q, v) \<in> set fs" "v \<noteq> redacted_marker" by force+
    with fl have "q \<in> set (sp_stripped_fields out)" using flagged_field paths by blast
    moreover obtain pos where pos: "q = path_of pos" "regular pos" "get_at pos payload = Some (JStr v)"
      using walk_text_paths [OF w assms(2) \<open>(q, v) \<in> set fs\<close>] by metis
    moreover obtain pos' where pos': "q = path_of pos'" "regular pos'" "get_at pos' (sp_original_shape out) = Some (JStr v)"
      using walk_text_paths [OF gs(1) plain f] by metis
    ultimately have "get_at pos (sp_original_shape out) = Some (JStr redacted_marker)"
      using stripped_leaf [OF st] by simp
    with pos pos' \<open>v \<noteq> redacted_marker\<close> path_of_inject show False by fastforce
  qed
  then show ?thesis using gs(1) by blast
qed

section \<open>Properties\<close>


text \<open>The judge can raise the verdict and never lower it: with a judge's answer the verdict is the
  more paranoid of the two stages, without one it is S1's and the result is marked degraded; a load-bearing
  field is never redacted.\<close>

theorem verdict_never_lowered:
  assumes "scan env payload load_bearing strict x = (Inr out, x')" and "plain payload"
  shows "\<exists>hits s2. run_s1 (fe_rules env) payload = Inr hits \<and>
    paranoia (sp_verdict out) = max (paranoia (fst (aggregate hits))) (case s2 of None \<Rightarrow> 0 | Some r \<Rightarrow> paranoia (s2_verdict r)) \<and>
    (hits \<noteq> [] \<longrightarrow> run_s2 env payload hits x = (Inr s2, x') \<and> (sp_degraded out \<longleftrightarrow> s2 = None)) \<and>
    (\<forall>q c. path_of q \<in> set load_bearing \<and> get_at q payload = Some c \<and> scalar c \<longrightarrow>
       get_at q (sp_original_shape out) = Some c)"
proof -
  obtain fs s2 where w: "walk 0 [] payload = Inr fs" and
    v: "(field_hits (fe_rules env) fs = [] \<and> sp_verdict out = Clean \<and> \<not> sp_degraded out) \<or>
     (field_hits (fe_rules env) fs \<noteq> [] \<and> run_s2 env payload (field_hits (fe_rules env) fs) x = (Inr s2, x') \<and>
      sp_verdict out = fst (combine_verdicts (field_hits (fe_rules env) fs) s2) \<and> sp_degraded out = (s2 = None))"
    and st: "stripped_as payload (set (sp_stripped_fields out)) (sp_original_shape out)"
    and lb: "\<forall>p\<in>set (sp_stripped_fields out). p \<notin> set load_bearing"
    by (rule scan_result [OF assms])
  let ?hits = "field_hits (fe_rules env) fs"
  have keep: "get_at q (sp_original_shape out) = Some c"
    if "path_of q \<in> set load_bearing" "get_at q payload = Some c" "scalar c" for q c
    using st lb that plain_get_regular [OF assms(2) that(2)] by (auto simp: stripped_as_def)
  have s1: "run_s1 (fe_rules env) payload = Inr ?hits" using w by (simp add: run_s1_def)
  show ?thesis
  proof (cases "?hits = []")
    case True
    then show ?thesis using s1 v keep by (intro exI [of _ "[]"] exI [of _ None]) (simp add: aggregate_def)
  next
    case False
    with v have "paranoia (sp_verdict out) =
        max (paranoia (fst (aggregate ?hits))) (case s2 of None \<Rightarrow> 0 | Some r \<Rightarrow> paranoia (s2_verdict r))"
      by (auto simp: combine_verdicts_def max_def split: option.splits prod.splits)
    with False v s1 keep show ?thesis by (intro exI [of _ ?hits] exI [of _ s2]) auto
  qed
qed

text \<open>The path the walker writes for a position of a payload with plain keys reads back as this
  position, so a redaction reaches the field it is meant for.\<close>

theorem path_roundtrip:
  assumes "plain payload" and "get_at pos payload = Some c"
  shows "tokenize_path (path_of pos) = Some pos"
  using plain_get_regular [OF assms] tokenize_path_of by blast
section \<open>Payloads\<close>

definition demo_filter :: "'x filter_env" where
  "demo_filter = \<lparr>fe_rules = default_rules, fe_dumps = (\<lambda>_. Some ''{}''), fe_str = (\<lambda>_. ''{}''), fe_loads = (\<lambda>_. None),
     fe_read_float = (\<lambda>_. None), fe_judge = (\<lambda>_ x. (Timed_out, x)), fe_choose = hd, fe_stamp = (\<lambda>_. ''now'')\<rparr>"

definition attack :: string where
  "attack = ''jailbreak''"

definition mail :: "string \<Rightarrow> json" where
  "mail k = JObj [(k, JStr attack)]"

lemma attack_hits:
  "map (\<lambda>h. (rh_rule_id h, rh_severity h)) (scan_string default_rules attack p) = [(''jailbreak_phrases'', High)]"
  by code_simp

lemma attack_hit:
  obtains h where "scan_string default_rules attack p = [h]" "rh_severity h = High" "rh_field_path h = p"
  using attack_hits [of p] scan_string_path [of _ default_rules attack p] by (auto simp: map_eq_Cons_conv)

lemma mail_walk: "walk 0 [] (mail ''body'') = Inr [(''body'', attack)]" "walk 0 [] (mail ''x.body'') = Inr [(''x.body'', attack)]"
  by code_simp+

lemma mail_strip: "set_at_path (mail ''body'') ''body'' = Inr (JObj [(''body'', JStr redacted_marker)])"
  "set_at_path (mail ''x.body'') ''x.body'' = Inr (mail ''x.body'')"
  by code_simp+

lemma demo_limits: "check_payload_limits demo_filter j = None"
  by (simp add: check_payload_limits_def demo_filter_def utf8_length_def max_payload_bytes_def)

lemma mail_scan:
  assumes "walk 0 [] (mail k) = Inr [(k, attack)]" and "set_at_path (mail k) k = Inr j"
  shows "scan demo_filter (mail k) [] False x = (Inr \<lparr>sp_original_shape = j, sp_stripped_fields = [k], sp_verdict = Injection,
    sp_confidence = 95 / 100, sp_degraded = True, sp_version = scanner_version, sp_scanned_at = ''now''\<rparr>, x)"
proof -
  obtain h where h: "scan_string default_rules attack k = [h]" "rh_severity h = High" "rh_field_path h = k" by (rule attack_hit)
  have "run_s1 default_rules (mail k) = Inr [h]" using assms(1) h(1) by (simp add: run_s1_def field_hits_def)
  moreover have "aggregate [h] = (Injection, 95 / 100)" using h(2) by (simp add: aggregate_def count_severity_def)
  ultimately show ?thesis
    using h assms(2) by (simp add: scan_def demo_limits [unfolded demo_filter_def] demo_filter_def run_s2_def classify_def combine_verdicts_def select_fields_to_strip_def
        flagged_paths_def build_payload_def apply_strips_def)
qed

lemma mail_plain: "plain (mail ''body'')"
  by (simp add: mail_def plain_key_def)

text \<open>A text under a key that contains a dot is never redacted: whatever the verdict, the path of
  such a member is read back as a path of several names, and the sanitized payload still holds the text.\<close>

theorem dotted_key_never_redacted:
  assumes "dict_get d k = Some (JStr s)" and "CHR ''.'' \<in> set k"
    and "scan env (JObj d) load_bearing strict x = (Inr out, x')"
  shows "\<exists>e. sp_original_shape out = JObj e \<and> dict_get e k = Some (JStr s)"
proof -
  let ?keeps = "\<lambda>j. \<exists>e. j = JObj e \<and> dict_get e k = Some (JStr s)"
  obtain ps where "apply_strips (JObj d) ps = Inr (sp_original_shape out)"
    using assms(3) by (auto simp: scan_def build_payload_def result_simps Let_def split: option.splits sum.splits if_splits prod.splits)
  then have "strip_paths (sort (remdups ps)) (JObj d) = Inr (sp_original_shape out)" by (simp add: apply_strips_def)
  moreover have "?keeps j \<Longrightarrow> strip_paths qs j = Inr j' \<Longrightarrow> ?keeps j'" for qs j j'
  proof (induction qs arbitrary: j)
    case (Cons q qs)
    from Cons(3) obtain j1 where j1: "set_at_path j q = Inr j1" "strip_paths qs j1 = Inr j'" by (auto simp: result_simps)
    have "?keeps j1" using set_at_path_keeps_dotted [OF assms(2) Cons(2) j1(1)] .
    with Cons(1) j1(2) show ?case by blast
  qed simp
  ultimately show ?thesis using assms(1) by blast
qed

theorem dotted_key_never_redacted_witness:
  "\<exists>out e. scan demo_filter (mail ''x.body'') [] False () = (Inr out, ()) \<and> sp_verdict out = Injection \<and>
     sp_original_shape out = JObj e \<and> dict_get e ''x.body'' = Some (JStr attack)"
proof -
  obtain out where out: "scan demo_filter (mail ''x.body'') [] False () = (Inr out, ())" "sp_verdict out = Injection"
    using mail_scan [OF mail_walk(2) mail_strip(2), of "()"] by auto
  have "scan demo_filter (JObj [(''x.body'', JStr attack)]) [] False () = (Inr out, ())" using out(1) by (simp add: mail_def)
  from dotted_key_never_redacted [OF _ _ this] out show ?thesis by fastforce
qed


theorem verdict_never_lowered_witness:
  "\<exists>out hits. scan demo_filter (mail ''body'') [] False () = (Inr out, ()) \<and> run_s1 default_rules (mail ''body'') = Inr hits"
proof -
  obtain out where out: "scan demo_filter (mail ''body'') [] False () = (Inr out, ())"
    using mail_scan [OF mail_walk(1) mail_strip(1), of "()"] by auto
  from verdict_never_lowered [OF out mail_plain] out show ?thesis by (auto simp: demo_filter_def)
qed

theorem path_roundtrip_witness:
  "get_at [Name ''body''] (mail ''body'') = Some (JStr attack) \<and> tokenize_path (path_of [Name ''body'']) = Some [Name ''body'']"
  using path_roundtrip [OF mail_plain, of "[Name ''body'']"] by (simp add: mail_def)

text \<open>A payload that is a text is never scanned: no field, no judge, a clean verdict. A list directly in a
  list has paths that cannot be read back, and redacting one raises a \<open>ValueError\<close>.\<close>

lemma text_payload_unscanned:
  "scan env (JStr s) load_bearing strict x = (Inr out, x') \<Longrightarrow>
     sp_verdict out = Clean \<and> sp_original_shape out = JStr s \<and> x' = x"
  by (auto simp: scan_def run_s1_def walk.simps max_depth_def field_hits_def build_payload_def apply_strips_def
      split: option.splits)

lemma nested_list_raises: "tokenize_path ''[0][0]'' = None" "set_at_path (JArr [JArr [JStr s]]) ''[0][0]'' = Inl (Filter_raises ''ValueError'')"
  by code_simp+

end
