(* ===== verification/Trust_Step.thy ===== *)
theory Trust_Step
  imports Execute_Safety Trust_Filter
begin

text \<open>
  The TrustFilter as the ExecuteOrchestrator's filter service: the arguments a sanitizer step passes
  from its \<open>args\<close> become those of \<open>FilterService.scan\<close> (a set of paths, a strict flag, with the
  coercions of \<open>ScanContext\<close>), and its result becomes the step's result.
\<close>

section \<open>Arguments\<close>

text \<open>\<open>set(load_bearing_fields or [])\<close> as a set of texts: \<open>Inl\<close> the class of what is raised.\<close>

fun load_bearing_set :: "json \<Rightarrow> string + string list" where
  "load_bearing_set (JArr xs) =
     (if list_ex (\<lambda>j. \<not> scalar j) xs then Inl ''TypeError''
      else if list_all (\<lambda>j. \<exists>s. j = JStr s) xs then Inr (map (\<lambda>j. case j of JStr s \<Rightarrow> s | _ \<Rightarrow> []) xs)
      else Inl ''ValidationError'')"
| "load_bearing_set (JObj d) = Inr (dict_keys d)"
| "load_bearing_set (JStr s) = Inr (map (\<lambda>c. [c]) s)"
| "load_bearing_set j = (if truthy j then Inl ''TypeError'' else Inr [])"

definition true_words :: "string list" where
  "true_words = [''true'', ''t'', ''yes'', ''y'', ''on'', ''1'']"

definition false_words :: "string list" where
  "false_words = [''false'', ''f'', ''no'', ''n'', ''off'', ''0'']"

text \<open>Whether \<open>ScanContext\<close> accepts a value as \<open>strict_mode\<close>. The pipeline itself uses the raw
  value's truthiness.\<close>

fun is_lax_bool :: "json \<Rightarrow> bool" where
  "is_lax_bool (JBool b) = True"
| "is_lax_bool (JInt i) = (i = 0 \<or> i = 1)"
| "is_lax_bool (JFloat q) = (q = 0 \<or> q = 1)"
| "is_lax_bool (JStr s) = (lower s \<in> set (true_words @ false_words))"
| "is_lax_bool j = False"

section \<open>The service\<close>

definition payload_dump :: "sanitized_payload \<Rightarrow> jobj" where
  "payload_dump p =
     [(''original_shape'', sp_original_shape p), (''stripped_fields'', JArr (map JStr (sp_stripped_fields p))),
      (''trust_verdict'', JStr (verdict_name (sp_verdict p))), (''confidence'', JFloat (sp_confidence p)),
      (''scanner_degraded'', JBool (sp_degraded p)), (''scanner_version'', JStr (sp_version p)),
      (''scanned_at'', JStr (sp_scanned_at p))]"

fun as_failure :: "filter_error \<Rightarrow> filter_failure" where
  "as_failure (Load_bearing_flagged p r) = Load_bearing ''load_bearing_field_flagged'' p"
| "as_failure (Payload_too_large n) = Filter_error ''payload_too_large''"
| "as_failure (Depth_exceeded n) = Filter_error ''payload_depth_exceeded''"
| "as_failure Malformed_input = Filter_error ''malformed_input''"
| "as_failure (Filter_raises c) = Filter_crash (Other_error c ''TrustFilter'')"

definition filter_service ::
    "'x filter_env \<Rightarrow> json \<Rightarrow> json \<Rightarrow> json \<Rightarrow> int \<Rightarrow> 'x \<Rightarrow> (filter_failure + sanitized) \<times> 'x" where
  "filter_service fe payload load_bearing strict n x =
     (case load_bearing_set load_bearing of
        Inl c \<Rightarrow> (Inl (Filter_crash (Other_error c ''ScanContext'')), x)
      | Inr lb \<Rightarrow>
          if \<not> is_lax_bool strict then (Inl (Filter_crash (Other_error ''ValidationError'' ''ScanContext'')), x)
          else (case scan fe payload lb (truthy strict) x of
              (Inl e, x') \<Rightarrow> (Inl (as_failure e), x')
            | (Inr p, x') \<Rightarrow> (Inr \<lparr>sz_verdict = verdict_name (sp_verdict p), sz_degraded = sp_degraded p,
                 sz_dump = payload_dump p\<rparr>, x')))"

lemma filter_service_result:
  assumes "filter_service fe payload lb strict n x = (Inr z, x')"
  obtains ls p where "scan fe payload ls (truthy strict) x = (Inr p, x')" "sz_verdict z = verdict_name (sp_verdict p)"
    "sz_dump z = payload_dump p" "sz_degraded z = sp_degraded p"
  using assms by (auto simp: filter_service_def split: sum.splits if_splits prod.splits)

section \<open>The sanitizer step\<close>

lemma verdict_name_inject [simp]: "verdict_name u = verdict_name v \<longleftrightarrow> u = v"
  by (cases u; cases v) simp_all

lemma sanitizer_step_result:
  assumes "execute_sanitizer_step env s st = (Inr r, st')" and "sv_filter env = Some (filter_service fe)"
  shows "dict_get r ''_error'' = Some (JBool True) \<and> xs_ctx st' = xs_ctx st \<or>
    (\<exists>ls p x. scan fe (resolve_sanitizer_input (step_results st) (ps_context_from s)) ls
        (truthy (jget (ps_args s) ''strict_mode'' (JBool False))) (xs_ext st) = (Inr p, x) \<and>
      r = payload_dump p \<and>
      dict_get (cx_sanitizer_verdicts (xs_ctx st')) (ps_step s) = Some (verdict_name (sp_verdict p)) \<and>
      (cx_sanitizer_degraded (xs_ctx st') \<longleftrightarrow> cx_sanitizer_degraded (xs_ctx st) \<or> sp_degraded p))"
proof -
  let ?call = "filter_service fe (resolve_sanitizer_input (step_results st) (ps_context_from s))
      (jget (ps_args s) ''load_bearing_fields'' (JArr [])) (jget (ps_args s) ''strict_mode'' (JBool False)) (ps_step s) (xs_ext st)"
  obtain q x where q: "?call = (q, x)" by (cases ?call)
  show ?thesis
  proof (cases q)
    case (Inl f)
    then show ?thesis
      using assms q by (cases f) (auto simp: execute_sanitizer_step_def bindS_def readS_def extS_def retS_def throwS_def)
  next
    case (Inr z)
    with q obtain ls p where p: "scan fe (resolve_sanitizer_input (step_results st) (ps_context_from s)) ls
        (truthy (jget (ps_args s) ''strict_mode'' (JBool False))) (xs_ext st) = (Inr p, x)"
      "sz_verdict z = verdict_name (sp_verdict p)" "sz_dump z = payload_dump p" "sz_degraded z = sp_degraded p"
      using filter_service_result by metis
    have "r = payload_dump p \<and> dict_get (cx_sanitizer_verdicts (xs_ctx st')) (ps_step s) = Some (verdict_name (sp_verdict p)) \<and>
      (cx_sanitizer_degraded (xs_ctx st') \<longleftrightarrow> cx_sanitizer_degraded (xs_ctx st) \<or> sp_degraded p)"
      using assms q Inr p(2-4)
      by (auto simp: execute_sanitizer_step_def bindS_def thenS_def readS_def extS_def retS_def ctxS_def modS_def)
    with p(1) show ?thesis by blast
  qed
qed

text \<open>A sanitizer step that finds an injection records it and hands on a redacted payload: its result
  is an error, or carries the scan's verdict, which the context records for the step; under an injection
  verdict no field of the shape it hands on matches a medium or high rule of the pack.\<close>

theorem sanitizer_step_redacts:
  assumes "execute_sanitizer_step env s st = (Inr r, st')" and "sv_filter env = Some (filter_service fe)"
    and "fe_rules fe = default_rules"
    and "plain (resolve_sanitizer_input (step_results st) (ps_context_from s))"
  shows "dict_get r ''_error'' = Some (JBool True) \<or>
    (\<exists>v shape. dict_get r ''trust_verdict'' = Some (JStr v) \<and> dict_get r ''original_shape'' = Some shape \<and>
      dict_get (cx_sanitizer_verdicts (xs_ctx st')) (ps_step s) = Some v \<and>
      (v = ''injection'' \<longrightarrow> (\<exists>fs. walk 0 [] shape = Inr fs \<and> (\<forall>(p, t)\<in>set fs. \<not> flagged default_rules t))))"
  using sanitizer_step_result [OF assms(1,2)]
proof (elim disjE exE conjE)
  fix ls p x
  assume sc: "scan fe (resolve_sanitizer_input (step_results st) (ps_context_from s)) ls
        (truthy (jget (ps_args s) ''strict_mode'' (JBool False))) (xs_ext st) = (Inr p, x)"
    and r: "r = payload_dump p"
    and v: "dict_get (cx_sanitizer_verdicts (xs_ctx st')) (ps_step s) = Some (verdict_name (sp_verdict p))"
  have "\<exists>fs. walk 0 [] (sp_original_shape p) = Inr fs \<and> (\<forall>(p, t)\<in>set fs. \<not> flagged default_rules t)"
    if "verdict_name (sp_verdict p) = ''injection''"
    using nothing_flagged_left [OF sc assms(4,3)] that by (cases "sp_verdict p") simp_all
  then show ?thesis using v by (simp add: r payload_dump_def)
qed simp

section \<open>A sanitizer step\<close>

definition clean_step :: plan_step where
  "clean_step = (new_plan_step 2 Interactive Analyzer ''system.sanitize'' ''scan'') \<lparr>ps_type := Sanitizer, ps_context_from := [1]\<rparr>"

definition mail_state :: "(mem, int) xstate" where
  "mail_state = run_state \<lparr>xs_ctx := (new_ctx (plan_of []) '''' '''')
     \<lparr>cx_step_results := [(1, completed_result 1 (Some [(''body'', JStr attack)]))]\<rparr>\<rparr>"

definition filter_world :: "(mem, int) service_env" where
  "filter_world = run_env \<lparr>sv_filter := Some (filter_service demo_filter)\<rparr>"

lemma mail_input: "resolve_sanitizer_input (step_results mail_state) (ps_context_from clean_step) = mail ''body''"
  by (simp add: mail_state_def clean_step_def completed_result_def mail_def)

theorem sanitizer_step_redacts_witness:
  "\<exists>r st'. execute_sanitizer_step filter_world clean_step mail_state = (Inr r, st') \<and>
     dict_get r ''trust_verdict'' = Some (JStr ''injection'') \<and>
     (\<exists>shape fs. dict_get r ''original_shape'' = Some shape \<and> walk 0 [] shape = Inr fs \<and>
        (\<forall>(p, t)\<in>set fs. \<not> flagged default_rules t))"
proof -
  let ?args = "ps_args clean_step"
  have args: "jget ?args ''load_bearing_fields'' (JArr []) = JArr []" "jget ?args ''strict_mode'' (JBool False) = JBool False"
    by (simp_all add: clean_step_def new_plan_step_def jget_def)
  obtain p where p: "scan demo_filter (mail ''body'') [] False (xs_ext mail_state) = (Inr p, xs_ext mail_state)" "sp_verdict p = Injection"
    using mail_scan [OF mail_walk(1) mail_strip(1), of "xs_ext mail_state"] by auto
  have f: "sv_filter filter_world = Some (filter_service demo_filter)" by (simp add: filter_world_def)
  obtain st' where e: "execute_sanitizer_step filter_world clean_step mail_state = (Inr (payload_dump p), st')"
    using p(1) by (simp add: execute_sanitizer_step_def f args mail_input filter_service_def bindS_def thenS_def readS_def
        extS_def retS_def ctxS_def modS_def)
  have "dict_get (payload_dump p) ''_error'' = None" "dict_get (payload_dump p) ''trust_verdict'' = Some (JStr ''injection'')"
    using p(2) by (simp_all add: payload_dump_def)
  with sanitizer_step_redacts [OF e f] e mail_plain show ?thesis
    unfolding mail_input by (fastforce simp: demo_filter_def)
qed

end
