(* ===== verification/Execution_Monitor.thy ===== *)
theory Execution_Monitor
  imports Json_Value
begin

text \<open>
  The ExecutionMonitor: the \<open>execution_tracker\<close> table (\<open>adapters/tracker_db.py\<close>), the non-fatal
  tracker API of the executor (\<open>service/tracker_service.py\<close>) and the watchdog that polls the table
  (\<open>service/monitor_service.py\<close>). A row is a \<open>tracker_row\<close>, the table a list in insertion order;
  \<open>order_by\<close> keeps this order among equal keys. Times are instants in microseconds. The watchdog
  and the executor run as separate tasks: \<open>mstep\<close> interleaves their calls.
\<close>

section \<open>The table\<close>

datatype run_status = Running | Completed | Failed | Stuck | Timed

record tracker_row =
  tk_id :: nat
  tk_plan_id :: string
  tk_user_id :: string
  tk_trace_id :: string
  tk_status :: run_status
  tk_total_steps :: int
  tk_completed_steps :: int
  tk_error_type :: "string option"
  tk_error_details :: "jobj option"
  tk_notified :: bool
  tk_started_at :: int
  tk_last_progress_at :: int
  tk_completed_at :: "int option"

datatype failure_type = Is_stuck | Is_timeout

record notification =
  no_plan_id :: string
  no_user_id :: string
  no_trace_id :: string
  no_failure :: failure_type
  no_total_steps :: int
  no_completed_steps :: int

text \<open>\<open>ms_up\<close>: the database answers; \<open>ms_sent\<close>: the notifications handed to the notifier;
  \<open>ms_audit\<close>: the plans and kinds of the audit events.\<close>

record monitor_state =
  ms_rows :: "tracker_row list"
  ms_next :: nat
  ms_up :: bool
  ms_sent :: "notification list"
  ms_audit :: "(string \<times> failure_type) list"

definition record_ok :: "string \<Rightarrow> string \<Rightarrow> string \<Rightarrow> int \<Rightarrow> bool" where
  "record_ok p u t n \<longleftrightarrow> length p = 26 \<and> 1 \<le> length u \<and> length u \<le> 255 \<and> 1 \<le> length t \<and> length t \<le> 255 \<and> 0 \<le> n"

text \<open>Each operation returns \<open>None\<close> for the exception of a database that does not answer, or of a
  value the record model refuses (the transaction is then rolled back).\<close>

definition create_tracker :: "int \<Rightarrow> string \<Rightarrow> string \<Rightarrow> string \<Rightarrow> int \<Rightarrow> monitor_state \<Rightarrow> tracker_row option \<times> monitor_state" where
  "create_tracker now p u t n st =
     (if ms_up st \<and> record_ok p u t n then
        (let r = \<lparr>tk_id = ms_next st, tk_plan_id = p, tk_user_id = u, tk_trace_id = t, tk_status = Running, tk_total_steps = n,
           tk_completed_steps = 0, tk_error_type = None, tk_error_details = None, tk_notified = False, tk_started_at = now,
           tk_last_progress_at = now, tk_completed_at = None\<rparr> in
         (Some r, st \<lparr>ms_rows := ms_rows st @ [r], ms_next := Suc (ms_next st)\<rparr>))
      else (None, st))"

definition running_of :: "string \<Rightarrow> tracker_row \<Rightarrow> bool" where
  "running_of p r \<longleftrightarrow> tk_plan_id r = p \<and> tk_status r = Running"

text \<open>\<open>UPDATE ... WHERE\<close>: every matching row is changed; the result says whether one was.\<close>

definition update_rows :: "(tracker_row \<Rightarrow> bool) \<Rightarrow> (tracker_row \<Rightarrow> tracker_row) \<Rightarrow> monitor_state \<Rightarrow> bool option \<times> monitor_state" where
  "update_rows q f st =
     (if ms_up st then (Some (list_ex q (ms_rows st)), st \<lparr>ms_rows := map (\<lambda>r. if q r then f r else r) (ms_rows st)\<rparr>)
      else (None, st))"

definition update_progress :: "int \<Rightarrow> string \<Rightarrow> int \<Rightarrow> monitor_state \<Rightarrow> bool option \<times> monitor_state" where
  "update_progress now p n = update_rows (running_of p) (\<lambda>r. r \<lparr>tk_completed_steps := n, tk_last_progress_at := now\<rparr>)"

text \<open>The error type fits its column (\<open>String(64)\<close>); a longer one would be refused by the database.\<close>

definition mark_terminal ::
    "int \<Rightarrow> string \<Rightarrow> run_status \<Rightarrow> string option \<Rightarrow> jobj option \<Rightarrow> monitor_state \<Rightarrow> bool option \<times> monitor_state" where
  "mark_terminal now p s et ed = update_rows (running_of p)
     (\<lambda>r. r \<lparr>tk_status := s, tk_error_type := et, tk_error_details := ed, tk_completed_at := Some now\<rparr>)"

definition mark_notified :: "string \<Rightarrow> monitor_state \<Rightarrow> bool option \<times> monitor_state" where
  "mark_notified p = update_rows (\<lambda>r. tk_plan_id r = p) (\<lambda>r. r \<lparr>tk_notified := True\<rparr>)"

definition get_active_executions :: "nat \<Rightarrow> monitor_state \<Rightarrow> tracker_row list option" where
  "get_active_executions limit st =
     (if ms_up st then Some (take limit (sort_key tk_started_at (filter (\<lambda>r. tk_status r = Running) (ms_rows st)))) else None)"

definition get_tracker_by_plan :: "string \<Rightarrow> monitor_state \<Rightarrow> tracker_row option option" where
  "get_tracker_by_plan p st =
     (if ms_up st then Some (case sort_key (\<lambda>r. - tk_started_at r) (filter (\<lambda>r. tk_plan_id r = p) (ms_rows st)) of
        [] \<Rightarrow> None | r # _ \<Rightarrow> Some r) else None)"

section \<open>The tracker service\<close>

text \<open>Every method swallows exceptions.\<close>

definition tracker_register :: "int \<Rightarrow> string \<Rightarrow> string \<Rightarrow> string \<Rightarrow> int \<Rightarrow> monitor_state \<Rightarrow> monitor_state" where
  "tracker_register now p u t n st = snd (create_tracker now p u t n st)"

definition tracker_progress :: "int \<Rightarrow> string \<Rightarrow> int \<Rightarrow> monitor_state \<Rightarrow> monitor_state" where
  "tracker_progress now p n st = snd (update_progress now p n st)"

definition tracker_complete :: "int \<Rightarrow> string \<Rightarrow> bool \<Rightarrow> string option \<Rightarrow> jobj option \<Rightarrow> monitor_state \<Rightarrow> monitor_state" where
  "tracker_complete now p success et ed st =
     snd (mark_terminal now p (if success then Completed else Failed) et ed st)"

section \<open>The watchdog\<close>

record monitor_config =
  mc_stuck_minutes :: int
  mc_max_minutes :: int
  mc_notify_raises :: "notification \<Rightarrow> bool"

definition default_stuck_minutes :: int where "default_stuck_minutes = 5"

definition default_max_minutes :: int where "default_max_minutes = 60"

definition minute :: int where "minute = 60 * 1000000"

definition is_stuck :: "monitor_config \<Rightarrow> tracker_row \<Rightarrow> int \<Rightarrow> bool" where
  "is_stuck mc r now \<longleftrightarrow> mc_stuck_minutes mc * minute < now - tk_last_progress_at r"

definition is_over_time_budget :: "monitor_config \<Rightarrow> tracker_row \<Rightarrow> int \<Rightarrow> bool" where
  "is_over_time_budget mc r now \<longleftrightarrow> mc_max_minutes mc * minute < now - tk_started_at r"

definition verdict_of :: "monitor_config \<Rightarrow> tracker_row \<Rightarrow> int \<Rightarrow> failure_type option" where
  "verdict_of mc r now = (if is_over_time_budget mc r now then Some Is_timeout
     else if is_stuck mc r now then Some Is_stuck else None)"

fun failure_status :: "failure_type \<Rightarrow> run_status" where
  "failure_status Is_stuck = Stuck"
| "failure_status Is_timeout = Timed"

fun failure_error :: "failure_type \<Rightarrow> string" where
  "failure_error Is_stuck = ''infrastructure_stuck''"
| "failure_error Is_timeout = ''time_budget_exceeded''"

fun failure_reason :: "failure_type \<Rightarrow> string" where
  "failure_reason Is_stuck = ''No progress for 5+ minutes''"
| "failure_reason Is_timeout = ''Exceeded 60-minute time budget''"

definition notification_for :: "failure_type \<Rightarrow> tracker_row \<Rightarrow> notification" where
  "notification_for f r = \<lparr>no_plan_id = tk_plan_id r, no_user_id = tk_user_id r, no_trace_id = tk_trace_id r, no_failure = f,
     no_total_steps = tk_total_steps r, no_completed_steps = tk_completed_steps r\<rparr>"

text \<open>\<open>_handle_stuck\<close> and \<open>_handle_timeout\<close> audit and mark the plan; an exception of the database ends the
  poll. Then, unless the record read at the start of the poll says it was notified, they notify; a notifier
  or a database that raises is logged.\<close>

definition audit_and_mark :: "int \<Rightarrow> failure_type \<Rightarrow> tracker_row \<Rightarrow> monitor_state \<Rightarrow> bool option \<times> monitor_state" where
  "audit_and_mark now f r st =
     mark_terminal now (tk_plan_id r) (failure_status f) (Some (failure_error f)) (Some [(''reason'', JStr (failure_reason f))])
       (st \<lparr>ms_audit := ms_audit st @ [(tk_plan_id r, f)]\<rparr>)"

definition notify_user :: "monitor_config \<Rightarrow> failure_type \<Rightarrow> tracker_row \<Rightarrow> monitor_state \<Rightarrow> monitor_state" where
  "notify_user mc f r st =
     (if tk_notified r then st
      else let n = notification_for f r; st1 = st \<lparr>ms_sent := ms_sent st @ [n]\<rparr> in
        if mc_notify_raises mc n then st1 else snd (mark_notified (tk_plan_id r) st1))"

definition handle_failure :: "monitor_config \<Rightarrow> int \<Rightarrow> failure_type \<Rightarrow> tracker_row \<Rightarrow> monitor_state \<Rightarrow> unit option \<times> monitor_state" where
  "handle_failure mc now f r st = (case audit_and_mark now f r st of
       (None, st1) \<Rightarrow> (None, st1) | (Some _, st1) \<Rightarrow> (Some (), notify_user mc f r st1))"

primrec check_records :: "monitor_config \<Rightarrow> int \<Rightarrow> tracker_row list \<Rightarrow> monitor_state \<Rightarrow> unit option \<times> monitor_state" where
  "check_records mc now [] st = (Some (), st)"
| "check_records mc now (r # rs) st = (case verdict_of mc r now of
       None \<Rightarrow> check_records mc now rs st
     | Some f \<Rightarrow> (case handle_failure mc now f r st of
         (None, st1) \<Rightarrow> (None, st1) | (Some _, st1) \<Rightarrow> check_records mc now rs st1))"

definition check_active_executions :: "monitor_config \<Rightarrow> int \<Rightarrow> monitor_state \<Rightarrow> unit option \<times> monitor_state" where
  "check_active_executions mc now st = (case get_active_executions 100 st of
       None \<Rightarrow> (None, st) | Some rs \<Rightarrow> check_records mc now rs st)"

section \<open>Interleaving\<close>

text \<open>The watchdog between two of its database calls: the records of the current poll it has not judged
  yet, with their verdicts, and the one it is about to notify.\<close>

record watch =
  wa_db :: monitor_state
  wa_pending :: "(tracker_row \<times> failure_type) list"
  wa_notify :: "(tracker_row \<times> failure_type) option"

definition due_records :: "monitor_config \<Rightarrow> int \<Rightarrow> tracker_row list \<Rightarrow> (tracker_row \<times> failure_type) list" where
  "due_records mc now rs = List.map_filter (\<lambda>r. map_option (Pair r) (verdict_of mc r now)) rs"

inductive wstep :: "monitor_config \<Rightarrow> watch \<Rightarrow> watch \<Rightarrow> bool" for mc where
  registers: "wstep mc s (s \<lparr>wa_db := tracker_register now p u t n (wa_db s)\<rparr>)"
| progresses: "wstep mc s (s \<lparr>wa_db := tracker_progress now p n (wa_db s)\<rparr>)"
| completes: "wstep mc s (s \<lparr>wa_db := tracker_complete now p success et ed (wa_db s)\<rparr>)"
| switches: "wstep mc s (s \<lparr>wa_db := wa_db s \<lparr>ms_up := up\<rparr>\<rparr>)"
| polls: "wa_pending s = [] \<Longrightarrow> wa_notify s = None \<Longrightarrow> get_active_executions 100 (wa_db s) = Some rs \<Longrightarrow>
    wstep mc s (s \<lparr>wa_pending := due_records mc now rs\<rparr>)"
| marks: "wa_pending s = (r, f) # ds \<Longrightarrow> wa_notify s = None \<Longrightarrow> audit_and_mark now f r (wa_db s) = (b, db) \<Longrightarrow>
    wstep mc s (s \<lparr>wa_db := db, wa_pending := (if b = None then [] else ds),
      wa_notify := (if b = None then None else Some (r, f))\<rparr>)"
| notifies: "wa_notify s = Some (r, f) \<Longrightarrow>
    wstep mc s (s \<lparr>wa_db := notify_user mc f r (wa_db s), wa_notify := None\<rparr>)"

inductive_cases wstepE: "wstep mc s s'"

definition first_watch :: watch where
  "first_watch = \<lparr>wa_db = \<lparr>ms_rows = [], ms_next = 0, ms_up = True, ms_sent = [], ms_audit = []\<rparr>, wa_pending = [], wa_notify = None\<rparr>"

section \<open>What never changes\<close>

text \<open>A row that is no longer running keeps everything but its notification flag.\<close>

definition advances :: "tracker_row \<Rightarrow> tracker_row \<Rightarrow> bool" where
  "advances r r' \<longleftrightarrow> tk_id r' = tk_id r \<and> tk_plan_id r' = tk_plan_id r \<and> tk_started_at r' = tk_started_at r \<and>
     (tk_notified r \<longrightarrow> tk_notified r') \<and> (tk_status r \<noteq> Running \<longrightarrow> r' = r \<lparr>tk_notified := tk_notified r'\<rparr>)"

definition table_advances :: "monitor_state \<Rightarrow> monitor_state \<Rightarrow> bool" where
  "table_advances st st' \<longleftrightarrow> (\<exists>us zs. ms_rows st' = us @ zs \<and> list_all2 advances (ms_rows st) us)"

lemma advances_refl [simp]: "advances r r"
  by (simp add: advances_def)

lemma advances_trans: "advances q r \<Longrightarrow> advances r s \<Longrightarrow> advances q s"
  by (cases q, cases r, cases s) (auto simp: advances_def)

lemma list_advances_refl [simp]: "list_all2 advances rs rs"
  by (simp add: list_all2_refl)

lemma table_advancesI: "ms_rows st' = us @ zs \<Longrightarrow> list_all2 advances (ms_rows st) us \<Longrightarrow> table_advances st st'"
  by (auto simp: table_advances_def)

lemma table_advances_same: "ms_rows st' = ms_rows st \<Longrightarrow> table_advances st st'"
  by (rule table_advancesI [of _ "ms_rows st" "[]"]) simp_all

lemma table_advances_refl [simp]: "table_advances st st"
  by (simp add: table_advances_same)

lemma table_advances_trans:
  assumes "table_advances a b" and "table_advances b c"
  shows "table_advances a c"
proof -
  obtain us zs vs ws where b: "ms_rows b = us @ zs" "list_all2 advances (ms_rows a) us"
    and c: "ms_rows c = vs @ ws" "list_all2 advances (us @ zs) vs"
    using assms by (auto simp: table_advances_def)
  from c(2) obtain v1 v2 where v: "vs = v1 @ v2" "list_all2 advances us v1" by (auto simp: list_all2_append1)
  have "list_all2 advances (ms_rows a) v1" using list_all2_trans [OF advances_trans b(2) v(2)] .
  with c(1) v(1) show ?thesis by (auto simp: table_advances_def)
qed

lemma update_rows_advances:
  assumes "\<And>r. q r \<Longrightarrow> advances r (f r)"
  shows "table_advances st (snd (update_rows q f st))"
proof -
  have "list_all2 advances rs (map (\<lambda>r. if q r then f r else r) rs)" for rs
    using assms by (induction rs) auto
  then show ?thesis
    by (cases "ms_up st") (auto simp: update_rows_def table_advances_same intro: table_advancesI [where zs = "[]"])
qed

lemma mark_terminal_advances: "table_advances st (snd (mark_terminal now p s et ed st))"
  unfolding mark_terminal_def by (rule update_rows_advances) (simp add: running_of_def advances_def)

lemma mark_notified_advances: "table_advances st (snd (mark_notified p st))"
  unfolding mark_notified_def by (rule update_rows_advances) (simp add: advances_def)

lemma tracker_advances:
  "table_advances st (tracker_register now p u t n st)"
  "table_advances st (tracker_progress now p k st)"
  "table_advances st (tracker_complete now p success et ed st)"
proof -
  show "table_advances st (tracker_register now p u t n st)"
    by (auto simp: tracker_register_def create_tracker_def Let_def table_advances_same intro: table_advancesI)
  show "table_advances st (tracker_progress now p k st)"
    unfolding tracker_progress_def update_progress_def
    by (rule update_rows_advances) (simp add: running_of_def advances_def)
  show "table_advances st (tracker_complete now p success et ed st)"
    unfolding tracker_complete_def by (rule mark_terminal_advances)
qed

lemma handling_advances:
  "table_advances st (snd (audit_and_mark now f r st))"
  "table_advances st (notify_user mc f r st)"
proof -
  show "table_advances st (snd (audit_and_mark now f r st))"
    unfolding audit_and_mark_def by (rule table_advances_trans [OF table_advances_same mark_terminal_advances]) simp
  show "table_advances st (notify_user mc f r st)"
    unfolding notify_user_def Let_def
    by (auto intro: table_advances_same table_advances_trans [OF table_advances_same mark_notified_advances])
qed

lemma wstep_advances: "wstep mc s s' \<Longrightarrow> table_advances (wa_db s) (wa_db s')"
proof (erule wstepE)
  fix r f ds now b db
  assume "s' = s\<lparr>wa_db := db, wa_pending := if b = None then [] else ds, wa_notify := if b = None then None else Some (r, f)\<rparr>"
    and "audit_and_mark now f r (wa_db s) = (b, db)"
  then show ?thesis using handling_advances(1) [of "wa_db s" now f r] by simp
qed (auto intro: tracker_advances table_advances_same handling_advances)

lemma wsteps_advance: "(wstep mc)\<^sup>*\<^sup>* s s' \<Longrightarrow> table_advances (wa_db s) (wa_db s')"
  by (induction rule: rtranclp_induct) (auto intro: table_advances_trans wstep_advances)
section \<open>The table's invariant\<close>

definition row_ok :: "tracker_row \<Rightarrow> bool" where
  "row_ok r \<longleftrightarrow> (tk_status r = Running \<longleftrightarrow> tk_completed_at r = None) \<and>
     (tk_status r = Running \<longrightarrow> tk_error_type r = None \<and> tk_error_details r = None) \<and>
     record_ok (tk_plan_id r) (tk_user_id r) (tk_trace_id r) (tk_total_steps r)"

definition table_ok :: "monitor_state \<Rightarrow> bool" where
  "table_ok st \<longleftrightarrow> map tk_id (ms_rows st) = [0..<ms_next st] \<and> (\<forall>r\<in>set (ms_rows st). row_ok r)"

lemma table_ok_update_rows:
  assumes "table_ok st" and "\<And>r. q r \<Longrightarrow> tk_id (f r) = tk_id r" and "\<And>r. q r \<Longrightarrow> row_ok r \<Longrightarrow> row_ok (f r)"
  shows "table_ok (snd (update_rows q f st))"
proof -
  have "map tk_id (map (\<lambda>r. if q r then f r else r) rs) = map tk_id rs" for rs
    using assms(2) by (induction rs) auto
  then show ?thesis using assms(1,3) by (auto simp: update_rows_def table_ok_def simp del: map_map)
qed

lemma table_ok_mark_terminal:
  "table_ok st \<Longrightarrow> s \<noteq> Running \<Longrightarrow> table_ok (snd (mark_terminal now p s et ed st))"
  unfolding mark_terminal_def by (erule table_ok_update_rows) (auto simp: running_of_def row_ok_def)

lemma table_ok_mark_notified: "table_ok st \<Longrightarrow> table_ok (snd (mark_notified p st))"
  unfolding mark_notified_def by (erule table_ok_update_rows) (auto simp: row_ok_def)

lemma table_ok_up [simp]: "table_ok (st \<lparr>ms_up := u\<rparr>) = table_ok st"
  by (simp add: table_ok_def)

lemma table_ok_tracker:
  assumes "table_ok st"
  shows "table_ok (tracker_register now p u t n st)" "table_ok (tracker_progress now p k st)"
    "table_ok (tracker_complete now p success et ed st)"
proof -
  show "table_ok (tracker_register now p u t n st)"
    using assms by (auto simp: tracker_register_def create_tracker_def Let_def table_ok_def row_ok_def)
  show "table_ok (tracker_progress now p k st)"
    unfolding tracker_progress_def update_progress_def using assms
    by (rule table_ok_update_rows) (auto simp: running_of_def row_ok_def)
  show "table_ok (tracker_complete now p success et ed st)"
    unfolding tracker_complete_def using assms by (rule table_ok_mark_terminal) simp
qed

lemma failure_status_terminal [simp]: "failure_status f \<noteq> Running"
  by (cases f) simp_all

lemma table_ok_handling:
  assumes "table_ok st"
  shows "table_ok (snd (audit_and_mark now f r st))" "table_ok (notify_user mc f r st)"
proof -
  have "table_ok (st \<lparr>ms_audit := a\<rparr>)" "table_ok (st \<lparr>ms_sent := ns\<rparr>)" for a ns
    using assms by (simp_all add: table_ok_def)
  then show "table_ok (snd (audit_and_mark now f r st))" "table_ok (notify_user mc f r st)"
    using assms by (auto simp: audit_and_mark_def notify_user_def Let_def intro: table_ok_mark_terminal table_ok_mark_notified)
qed

lemma wstep_table_ok: "wstep mc s s' \<Longrightarrow> table_ok (wa_db s) \<Longrightarrow> table_ok (wa_db s')"
proof (erule wstepE)
  fix r f ds now b db
  assume "table_ok (wa_db s)" and
    "s' = s\<lparr>wa_db := db, wa_pending := if b = None then [] else ds, wa_notify := if b = None then None else Some (r, f)\<rparr>"
    and "audit_and_mark now f r (wa_db s) = (b, db)"
  then show "table_ok (wa_db s')" using table_ok_handling(1) [of "wa_db s" now f r] by simp
qed (auto intro: table_ok_tracker table_ok_handling)

lemma wsteps_table_ok: "(wstep mc)\<^sup>*\<^sup>* first_watch s \<Longrightarrow> table_ok (wa_db s)"
proof (induction rule: rtranclp_induct)
  case base
  show ?case by (simp add: first_watch_def table_ok_def)
qed (rule wstep_table_ok)

text \<open>C16. The end of a run is final. However the executor's calls, database outages and the watchdog's
  polls interleave, the table keeps its invariant (an end time exactly when not running, an error only then,
  one row per id), and a row that is completed, failed, stuck or timed out keeps its status, error, progress
  and end for ever; only its notification flag may still be set.\<close>

theorem terminal_rows_final:
  assumes "(wstep mc)\<^sup>*\<^sup>* first_watch s" and "(wstep mc)\<^sup>*\<^sup>* s s'"
    and "r \<in> set (ms_rows (wa_db s))" and "tk_status r \<noteq> Running"
  shows "table_ok (wa_db s') \<and>
    (\<exists>r'\<in>set (ms_rows (wa_db s')). r' = r \<lparr>tk_notified := tk_notified r'\<rparr> \<and> (tk_notified r \<longrightarrow> tk_notified r') \<and>
       (\<forall>q\<in>set (ms_rows (wa_db s')). tk_id q = tk_id r \<longrightarrow> q = r'))"
proof -
  have ok: "table_ok (wa_db s')" using wsteps_table_ok assms(1,2) by (meson rtranclp_trans)
  obtain us zs where us: "ms_rows (wa_db s') = us @ zs" "list_all2 advances (ms_rows (wa_db s)) us"
    using wsteps_advance [OF assms(2)] by (auto simp: table_advances_def)
  from assms(3) obtain i where i: "i < length (ms_rows (wa_db s))" "r = ms_rows (wa_db s) ! i" by (auto simp: in_set_conv_nth)
  with us(2) have a: "advances r (us ! i)" "i < length us" by (auto simp: list_all2_conv_all_nth)
  then have "us ! i \<in> set (ms_rows (wa_db s'))" using us(1) by auto
  moreover have "us ! i = r \<lparr>tk_notified := tk_notified (us ! i)\<rparr>" "tk_notified r \<longrightarrow> tk_notified (us ! i)"
    using a(1) assms(4) unfolding advances_def by blast+
  moreover have "distinct (map tk_id (ms_rows (wa_db s')))" using ok by (simp add: table_ok_def)
  then have "q = us ! i" if "q \<in> set (ms_rows (wa_db s'))" "tk_id q = tk_id r" for q
    using that a(1) \<open>us ! i \<in> set (ms_rows (wa_db s'))\<close> by (simp add: advances_def distinct_map inj_on_def)
  ultimately show ?thesis using ok by blast
qed
section \<open>A poll\<close>

text \<open>A row after the handling of the overdue plans \<open>ps\<close>.\<close>

definition polled :: "int \<Rightarrow> string set \<Rightarrow> tracker_row \<Rightarrow> tracker_row \<Rightarrow> bool" where
  "polled now ps r r' \<longleftrightarrow> tk_plan_id r' = tk_plan_id r \<and>
     (if tk_status r = Running \<and> tk_plan_id r \<in> ps then tk_status r' \<in> {Stuck, Timed} \<and> tk_completed_at r' = Some now
      else r' = r \<lparr>tk_notified := tk_notified r'\<rparr>)"

lemma polled_refl [simp]: "list_all2 (polled now {}) rs rs"
  by (simp add: list_all2_refl polled_def)

lemma polled_trans: "polled now ps q r \<Longrightarrow> polled now qs r s \<Longrightarrow> polled now (ps \<union> qs) q s"
  by (cases q, cases r, cases s) (auto simp: polled_def split: if_splits)

lemma list_polled_trans:
  "list_all2 (polled now ps) xs ys \<Longrightarrow> list_all2 (polled now qs) ys zs \<Longrightarrow> list_all2 (polled now (ps \<union> qs)) xs zs"
  using polled_trans by (rule list_all2_trans)

lemma handle_failure_polled:
  assumes "ms_up st"
  shows "\<exists>st'. handle_failure mc now f r st = (Some (), st') \<and> ms_up st' \<and>
    list_all2 (polled now {tk_plan_id r}) (ms_rows st) (ms_rows st')"
proof -
  obtain st1 where st1: "audit_and_mark now f r st = (Some (list_ex (running_of (tk_plan_id r)) (ms_rows st)), st1)" "ms_up st1"
    "ms_rows st1 = map (\<lambda>q. if running_of (tk_plan_id r) q then q \<lparr>tk_status := failure_status f, tk_error_type := Some (failure_error f),
       tk_error_details := Some [(''reason'', JStr (failure_reason f))], tk_completed_at := Some now\<rparr> else q) (ms_rows st)"
    using assms by (simp add: audit_and_mark_def mark_terminal_def update_rows_def)
  have m: "list_all2 (polled now {tk_plan_id r}) (ms_rows st) (ms_rows st1)"
    unfolding st1(3) by (induction "ms_rows st") (cases f; auto simp: list_all2_map2 list_all2_same polled_def running_of_def)+
  have "list_all2 (polled now {}) (ms_rows st1) (ms_rows (notify_user mc f r st1)) \<and> ms_up (notify_user mc f r st1)"
    using st1(2) by (auto simp: notify_user_def Let_def mark_notified_def update_rows_def list_all2_map2 list_all2_same polled_def)
  with m list_polled_trans have "list_all2 (polled now {tk_plan_id r}) (ms_rows st) (ms_rows (notify_user mc f r st1))"
    "ms_up (notify_user mc f r st1)" by fastforce+
  with st1(1) show ?thesis by (simp add: handle_failure_def)
qed

lemma check_records_polled:
  "ms_up st \<Longrightarrow> \<exists>st'. check_records mc now rs st = (Some (), st') \<and> ms_up st' \<and>
     list_all2 (polled now {tk_plan_id q | q. q \<in> set rs \<and> verdict_of mc q now \<noteq> None}) (ms_rows st) (ms_rows st')"
proof (induction rs arbitrary: st)
  case (Cons r rs)
  show ?case
  proof (cases "verdict_of mc r now")
    case None
    then have "{tk_plan_id q | q. q \<in> set (r # rs) \<and> verdict_of mc q now \<noteq> None} =
      {tk_plan_id q | q. q \<in> set rs \<and> verdict_of mc q now \<noteq> None}" by auto
    with Cons None show ?thesis by simp
  next
    case (Some f)
    then have s: "{tk_plan_id q | q. q \<in> set (r # rs) \<and> verdict_of mc q now \<noteq> None} =
      {tk_plan_id r} \<union> {tk_plan_id q | q. q \<in> set rs \<and> verdict_of mc q now \<noteq> None}" by auto
    obtain st1 where st1: "handle_failure mc now f r st = (Some (), st1)" "ms_up st1"
      "list_all2 (polled now {tk_plan_id r}) (ms_rows st) (ms_rows st1)"
      using handle_failure_polled [OF Cons(2)] by blast
    from Cons(1) [OF st1(2)] obtain st2 where st2: "check_records mc now rs st1 = (Some (), st2)" "ms_up st2"
      "list_all2 (polled now {tk_plan_id q | q. q \<in> set rs \<and> verdict_of mc q now \<noteq> None}) (ms_rows st1) (ms_rows st2)" by blast
    show ?thesis
      using Some st1 st2 list_polled_trans [OF st1(3) st2(3)] unfolding s by auto
  qed
qed simp

definition oldest_running :: "monitor_state \<Rightarrow> tracker_row list" where
  "oldest_running st = take 100 (sort_key tk_started_at (filter (\<lambda>r. tk_status r = Running) (ms_rows st)))"

text \<open>C35. No overdue run outlives a poll: when the database answers, a poll ends every running row whose plan
  has an overdue row among the hundred oldest running ones, at the time of the poll, and leaves every other row
  as it is but for the notification flag. The plan's other running rows are ended with it, however fresh.\<close>

theorem poll_ends_overdue_runs:
  assumes "ms_up st"
  shows "\<exists>st'. check_active_executions mc now st = (Some (), st') \<and>
    list_all2 (\<lambda>r r'. if tk_status r = Running \<and>
          (\<exists>q\<in>set (oldest_running st). tk_plan_id q = tk_plan_id r \<and> verdict_of mc q now \<noteq> None)
        then tk_status r' \<in> {Stuck, Timed} \<and> tk_completed_at r' = Some now
        else r' = r \<lparr>tk_notified := tk_notified r'\<rparr>) (ms_rows st) (ms_rows st')"
proof -
  obtain st' where st': "check_records mc now (oldest_running st) st = (Some (), st')"
    and p: "list_all2 (polled now {tk_plan_id q | q. q \<in> set (oldest_running st) \<and> verdict_of mc q now \<noteq> None})
      (ms_rows st) (ms_rows st')"
    using check_records_polled [OF assms] by blast
  have "check_active_executions mc now st = (Some (), st')"
    using assms st' by (simp add: check_active_executions_def get_active_executions_def oldest_running_def)
  moreover from p have "list_all2 (\<lambda>r r'. if tk_status r = Running \<and>
          (\<exists>q\<in>set (oldest_running st). tk_plan_id q = tk_plan_id r \<and> verdict_of mc q now \<noteq> None)
        then tk_status r' \<in> {Stuck, Timed} \<and> tk_completed_at r' = Some now
        else r' = r \<lparr>tk_notified := tk_notified r'\<rparr>) (ms_rows st) (ms_rows st')"
    by (rule list_all2_mono) (auto simp: polled_def split: if_splits)
  ultimately show ?thesis by blast
qed

definition two_runs :: monitor_state where
  "two_runs = tracker_register (6 * minute) (replicate 26 CHR ''p'') ''u'' ''t2'' 2
     (tracker_register 0 (replicate 26 CHR ''p'') ''u'' ''t1'' 2 (wa_db first_watch))"

definition default_config :: monitor_config where
  "default_config = \<lparr>mc_stuck_minutes = default_stuck_minutes, mc_max_minutes = default_max_minutes, mc_notify_raises = (\<lambda>_. False)\<rparr>"

lemma two_runs_rows: "map (\<lambda>r. (tk_trace_id r, tk_status r, tk_started_at r)) (ms_rows two_runs) =
   [(''t1'', Running, 0), (''t2'', Running, 6 * minute)]" "ms_up two_runs"
  by code_simp+

text \<open>A second run of a plan, started a second ago, is ended with the stale first one.\<close>

theorem poll_ends_overdue_runs_witness:
  "\<exists>st'. check_active_executions default_config (6 * minute + 1000000) two_runs = (Some (), st') \<and>
     tk_status (ms_rows st' ! 0) \<in> {Stuck, Timed} \<and> tk_status (ms_rows st' ! 1) \<in> {Stuck, Timed}"
proof -
  obtain st' where st': "check_active_executions default_config (6 * minute + 1000000) two_runs = (Some (), st')"
    and p: "list_all2 (\<lambda>r r'. if tk_status r = Running \<and> (\<exists>q\<in>set (oldest_running two_runs). tk_plan_id q = tk_plan_id r \<and>
          verdict_of default_config q (6 * minute + 1000000) \<noteq> None)
        then tk_status r' \<in> {Stuck, Timed} \<and> tk_completed_at r' = Some (6 * minute + 1000000)
        else r' = r \<lparr>tk_notified := tk_notified r'\<rparr>) (ms_rows two_runs) (ms_rows st')"
    using poll_ends_overdue_runs [OF two_runs_rows(2)] by blast
  have "length (ms_rows two_runs) = 2" "\<forall>r\<in>set (ms_rows two_runs). tk_status r = Running \<and>
      (\<exists>q\<in>set (oldest_running two_runs). tk_plan_id q = tk_plan_id r \<and> verdict_of default_config q (6 * minute + 1000000) \<noteq> None)"
    by code_simp+
  with p st' show ?thesis by (auto simp: list_all2_conv_all_nth)
qed

text \<open>One run, one poll, and the executor's last calls between the poll and its handling.\<close>

definition race_id :: string where "race_id = replicate 26 CHR ''p''"

definition race_started :: watch where
  "race_started = first_watch \<lparr>wa_db := tracker_register 0 race_id ''u'' ''t'' 2 (wa_db first_watch)\<rparr>"

definition race_polled :: watch where
  "race_polled = race_started \<lparr>wa_pending := due_records default_config (6 * minute) (ms_rows (wa_db race_started))\<rparr>"

definition race_finished :: watch where
  "race_finished = (let s = race_polled \<lparr>wa_db := tracker_progress (6 * minute) race_id 2 (wa_db race_polled)\<rparr> in
     s \<lparr>wa_db := tracker_complete (6 * minute) race_id True None None (wa_db s)\<rparr>)"

definition race_marked :: watch where
  "race_marked = race_finished \<lparr>wa_db := snd (audit_and_mark (6 * minute) Is_stuck (hd (ms_rows (wa_db race_started))) (wa_db race_finished)),
     wa_pending := [], wa_notify := Some (hd (ms_rows (wa_db race_started)), Is_stuck)\<rparr>"

definition race_over :: watch where
  "race_over = race_marked \<lparr>wa_db := notify_user default_config Is_stuck (hd (ms_rows (wa_db race_started))) (wa_db race_marked),
     wa_notify := None\<rparr>"

lemma race_facts:
  "get_active_executions 100 (wa_db race_started) = Some (ms_rows (wa_db race_started))"
  "wa_pending race_finished = [(hd (ms_rows (wa_db race_started)), Is_stuck)]" "wa_notify race_finished = None"
  "fst (audit_and_mark (6 * minute) Is_stuck (hd (ms_rows (wa_db race_started))) (wa_db race_finished)) = Some False"
  "wa_pending race_started = []" "wa_notify race_started = None"
  "wa_notify race_marked = Some (hd (ms_rows (wa_db race_started)), Is_stuck)"
  by code_simp+

lemma race_reachable: "(wstep default_config)\<^sup>*\<^sup>* first_watch race_over"
proof -
  have "wstep default_config first_watch race_started" unfolding race_started_def by (rule wstep.registers)
  moreover have "wstep default_config race_started race_polled"
    unfolding race_polled_def by (rule wstep.polls) (fact race_facts)+
  moreover have "(wstep default_config)\<^sup>*\<^sup>* race_polled race_finished"
    unfolding race_finished_def Let_def
    by (rule rtranclp_trans [OF r_into_rtranclp r_into_rtranclp], rule wstep.progresses, rule wstep.completes)
  moreover have "wstep default_config race_finished race_marked"
    using wstep.marks [OF race_facts(2,3) prod.collapse [symmetric], where now = "6 * minute"] race_facts(4)
    by (simp add: race_marked_def)
  moreover have "wstep default_config race_marked race_over"
    unfolding race_over_def by (rule wstep.notifies) (fact race_facts)
  ultimately show ?thesis by (meson converse_rtranclp_into_rtranclp rtranclp.rtrancl_into_rtrancl rtranclp_trans)
qed

text \<open>A run that finishes while the watchdog handles its poll is reported as stuck: the watchdog ignores
  that marking the row changed nothing, so the user is told to start a new plan although this one completed.\<close>

theorem completed_run_reported_stuck:
  "\<exists>s. (wstep default_config)\<^sup>*\<^sup>* first_watch s \<and>
     map (\<lambda>r. (tk_status r, tk_completed_steps r)) (ms_rows (wa_db s)) = [(Completed, 2)] \<and>
     map no_failure (ms_sent (wa_db s)) = [Is_stuck]"
proof (intro exI conjI)
  show "(wstep default_config)\<^sup>*\<^sup>* first_watch race_over" by (fact race_reachable)
  show "map (\<lambda>r. (tk_status r, tk_completed_steps r)) (ms_rows (wa_db race_over)) = [(Completed, 2)]" by code_simp
  show "map no_failure (ms_sent (wa_db race_over)) = [Is_stuck]" by code_simp
qed

theorem terminal_rows_final_witness:
  "(wstep default_config)\<^sup>*\<^sup>* first_watch race_over \<and>
     table_ok (wa_db race_over) \<and> (\<exists>r\<in>set (ms_rows (wa_db race_over)). tk_status r = Completed)"
proof -
  have e: "\<exists>r. r \<in> set (ms_rows (wa_db race_over)) \<and> tk_status r = Completed \<and> tk_status r \<noteq> Running"
    by (rule exI [of _ "hd (ms_rows (wa_db race_over))"]) code_simp
  then obtain r where r: "r \<in> set (ms_rows (wa_db race_over))" "tk_status r = Completed" "tk_status r \<noteq> Running" by blast
  from terminal_rows_final [OF race_reachable rtranclp.rtrancl_refl r(1,3)] r race_reachable show ?thesis by blast
qed

end
