(* ===== verification/Monitored_Run.thy ===== *)
theory Monitored_Run
  imports Execute_Safety Execution_Monitor
begin

text \<open>
  The executor under the watchdog: the tracker calls an execution makes, applied to the table of
  the ExecutionMonitor. Only \<open>execute_plan\<close> itself talks to the tracker, so whatever a level does
  leaves the list of tracker calls alone; this is shown for every predicate that looks at nothing else.
\<close>

section \<open>Predicates on the tracker calls\<close>

definition blind :: "(('s, 'x) xstate \<Rightarrow> bool) \<Rightarrow> bool" where
  "blind P \<longleftrightarrow> (\<forall>st st'. xs_tracker st' = xs_tracker st \<longrightarrow> P st \<longrightarrow> P st')"

lemma keeps_blind:
  assumes "blind P" and "\<And>st. xs_tracker (snd (m st)) = xs_tracker st"
  shows "keeps P m"
  using assms unfolding keeps_def blind_def by blast

lemma with_redis_tracker [simp]: "xs_tracker (snd (with_redis env f st)) = xs_tracker st"
  by (simp add: with_redis_def split: option.split prod.split)

lemma blind_quiet:
  assumes "blind P"
  shows "keeps P (with_redis env f)" "keeps P (sleepS env d)" "keeps P (freshS env)" "keeps P (extS g)" "keeps P (resS r)"
    "keeps P (policyS env' q)" "keeps P (auditS env' ty n b)" "keeps P (persist_outcome env' req out)"
    "keeps P (modS (\<lambda>st. st \<lparr>xs_locks := h (xs_locks st)\<rparr>))" "keeps P (ctxS c)" "keeps P (put_result k sr)"
    "keeps P (modS (\<lambda>st. st \<lparr>xs_trace := tr st\<rparr>))"
  by (rule keeps_blind [OF assms];
      simp add: sleepS_def freshS_def extS_def resS_def policyS_def auditS_def persist_outcome_def ctxS_def put_result_def
        Let_def split: prod.split option.split sum.split)+

lemma blind_adapters:
  assumes "blind P"
  shows "keeps P (put_record env k m)" "keeps P (set_in_flight env k e)" "keeps P (mark_succeeded env k r)"
    "keeps P (mark_failed env k x)" "keeps P (check_and_claim env k e n)" "keeps P (release env k)"
  by (auto simp: put_record_def set_in_flight_def mark_succeeded_def mark_failed_def check_and_claim_def release_def
      intro!: inv_intros blind_quiet [OF assms] split: claim_decision.split option.split json.split)

lemma blind_acquire:
  assumes "blind P"
  shows "keeps P (acquire env k t)"
proof -
  have "keeps P (acquire_loop env k ow t n)" for ow n
    by (induction n) (auto intro!: inv_intros blind_quiet [OF assms])
  then show ?thesis by (auto simp: acquire_def intro!: inv_intros blind_quiet [OF assms])
qed

lemma blind_retry:
  assumes "blind P" and "keeps P oper"
  shows "keeps P (execute_with_retry env p oper)"
proof -
  have "keeps P (retry_loop env p oper n k)" for n k
    by (induction n arbitrary: k) (auto intro!: inv_intros blind_quiet [OF assms(1)] assms(2) split: exec_error.split)
  then show ?thesis unfolding execute_with_retry_def .
qed

section \<open>The steps\<close>

lemma blind_invoke: "blind P \<Longrightarrow> keeps P (invokeS env s server tool args creds)"
  unfolding invokeS_def by (intro inv_intros blind_quiet)

lemmas blind_intros = inv_intros blind_quiet blind_adapters blind_acquire blind_retry blind_invoke

lemma blind_should_skip: "blind P \<Longrightarrow> keeps P (should_skip req s)"
  unfolding should_skip_def by (intro blind_intros)

lemma blind_api: "blind P \<Longrightarrow> keeps P (execute_api_step env req s)"
  unfolding execute_api_step_def guarded_dispatch_def dispatch_api_def Let_def by (intro blind_intros)

lemma blind_policy_check: "blind P \<Longrightarrow> keeps P (execute_policy_check env s)"
  unfolding execute_policy_check_def by (intro blind_intros)

lemma blind_sanitizer: "blind P \<Longrightarrow> keeps P (execute_sanitizer_step env s)"
  unfolding execute_sanitizer_step_def
  by (intro blind_intros) (auto intro!: blind_intros split: sum.split filter_failure.split)

lemma blind_spawn: "blind P \<Longrightarrow> (\<And>s. keeps P (run s)) \<Longrightarrow> keeps P (handle_spawn run env parent q)"
  unfolding handle_spawn_def Let_def by (intro blind_intros)

lemma blind_item: "blind P \<Longrightarrow> (\<And>s. keeps P (run s)) \<Longrightarrow> keeps P (spawn_item run env parent j)"
  unfolding spawn_item_def by (cases j) (auto intro!: blind_intros blind_spawn)

lemma blind_reasoning: "blind P \<Longrightarrow> (\<And>s. keeps P (run s)) \<Longrightarrow> keeps P (execute_reasoning_step run env s)"
  unfolding execute_reasoning_step_def by (intro blind_intros blind_item)

lemma blind_run_step:
  assumes "blind P" and "\<And>s. keeps P (run s)"
  shows "keeps P (run_step run env req s)"
  unfolding run_step_def using assms
  by (intro blind_intros) (cases "ps_type s"; auto intro!: blind_intros blind_api blind_reasoning blind_policy_check blind_sanitizer)+

lemma blind_step: "blind P \<Longrightarrow> keeps P (execute_step env req s)"
  unfolding execute_step_def by (intro blind_run_step) (auto simp: no_run_def intro: inv_intros)

lemma blind_compensation: "blind P \<Longrightarrow> keeps P (run_compensation env)"
  unfolding run_compensation_def compensate_one_def
  by (intro blind_intros) (auto intro!: blind_intros split: option.split)

lemma blind_failure: "blind P \<Longrightarrow> keeps P (handle_step_failure env req s e)"
  unfolding handle_step_failure_def Let_def by (intro blind_intros blind_step blind_compensation)

lemma blind_level:
  assumes "blind P"
  shows "keeps P (execute_level env req level)"
proof -
  have "keeps P (executable_steps req ss)" for ss
    using assms by (induction ss) (auto intro!: inv_intros blind_should_skip)
  moreover have "keeps P (settle env req p)" for p
    unfolding settle_def using assms
    by (intro blind_intros) (auto intro!: blind_intros blind_failure split: exec_error.split)
  ultimately show ?thesis
    unfolding execute_level_def using assms by (intro inv_intros run_inv_gather blind_step)
qed

section \<open>A run's tracker calls\<close>

text \<open>Since the calls \<open>T\<close>, the run has only reported progress on its plan.\<close>

definition only_progress :: "exec_request \<Rightarrow> tracker_event list \<Rightarrow> ('s, 'x) xstate \<Rightarrow> bool" where
  "only_progress req T st \<longleftrightarrow>
     (\<exists>es. xs_tracker st = T @ es \<and> (\<forall>e\<in>set es. \<exists>n. e = Progress (pl_plan_id (ex_plan req)) n))"

lemma only_progress_blind: "blind (only_progress req T)"
  by (simp add: blind_def only_progress_def)

lemma only_progress_track: "keeps (only_progress req T) (trackS env (Progress (pl_plan_id (ex_plan req)) n))"
  unfolding trackS_def by (rule keeps_modS) (force simp: only_progress_def)

lemma only_progress_levels: "keeps (only_progress req T) (run_levels env req ls n)"
  by (induction ls arbitrary: n) (auto intro!: inv_intros blind_level only_progress_blind only_progress_track)

lemma only_progress_phases: "keeps (only_progress req T) (run_phases env req)"
  unfolding run_phases_def check_request_def
  by (intro inv_intros blind_quiet only_progress_levels only_progress_blind)

text \<open>The tracker's table after a run's calls, each at its instant; \<open>details\<close> are the error details.\<close>

fun track_event :: "exec_request \<Rightarrow> jobj option \<Rightarrow> int \<times> tracker_event \<Rightarrow> monitor_state \<Rightarrow> monitor_state" where
  "track_event req details (now, Registered p n) db = tracker_register now p (ex_user_id req) (ex_trace_id req) (int n) db"
| "track_event req details (now, Progress p n) db = tracker_progress now p (int n) db"
| "track_event req details (now, Finished p ok et) db = tracker_complete now p ok et (if ok then None else details) db"

definition track_all :: "exec_request \<Rightarrow> jobj option \<Rightarrow> (int \<times> tracker_event) list \<Rightarrow> monitor_state \<Rightarrow> monitor_state" where
  "track_all req details es db = fold (track_event req details) es db"

lemma gated_run_calls:
  assumes "execute_plan env req st = (Inl e, st')" and "sv_tracked env"
  obtains es where "xs_tracker st' = xs_tracker st @ Registered (pl_plan_id (ex_plan req)) (length (pl_graph (ex_plan req))) # es"
    "\<forall>ev\<in>set es. \<exists>n. ev = Progress (pl_plan_id (ex_plan req)) n"
proof -
  obtain st0 where s0: "start_execution env req st = (Inr (), st0)" and
    t0: "xs_tracker st0 = xs_tracker st @ [Registered (pl_plan_id (ex_plan req)) (length (pl_graph (ex_plan req)))]"
    using assms(2) by (simp add: start_execution_def ctxS_def auditS_def trackS_def modS_def thenS_def bindS_def)
  obtain q st1 where q: "run_phases env req st0 = (q, st1)" by (rule prod.exhaust)
  have fin: "\<exists>out'. fst (finish_execution env req out st1) = Inr out'" for out
    by (simp add: finish_execution_def auditS_def trackS_def modS_def retS_def thenS_def bindS_def persist_outcome_def
        split: prod.split)
  have "st' = st1"
  proof (cases "\<exists>g n c ps. q = Inl (Gate_required g n c ps)")
    case True
    with assms(1) s0 q show ?thesis by (auto simp: execute_plan_def thenS_def bindS_def readS_def)
  next
    case False
    with assms(1) s0 q fin obtain out where "finish_execution env req out st1 = (Inl e, st')"
      by (auto simp: execute_plan_def thenS_def bindS_def readS_def split: sum.splits exec_error.splits)
    with fin [of out] show ?thesis by simp
  qed
  moreover have "only_progress req (xs_tracker st0) st0" by (simp add: only_progress_def)
  then have "only_progress req (xs_tracker st0) st1" using keepsD [OF only_progress_phases _ q] by blast
  ultimately show ?thesis using t0 that by (auto simp: only_progress_def)
qed

lemma progress_keeps_running:
  assumes "\<forall>ev\<in>set es. \<exists>t n. ev = (t, Progress p n)"
    and "\<exists>r\<in>set (ms_rows db). running_of p r \<and> tk_trace_id r = t0 \<and> tk_id r = i"
  shows "\<exists>r\<in>set (ms_rows (track_all req details es db)). running_of p r \<and> tk_trace_id r = t0 \<and> tk_id r = i"
  using assms
proof (induction es arbitrary: db)
  case (Cons ev es)
  then obtain t n where ev: "ev = (t, Progress p n)" by auto
  have "\<exists>r\<in>set (ms_rows (track_event req details ev db)). running_of p r \<and> tk_trace_id r = t0 \<and> tk_id r = i"
  proof -
    obtain r where r: "r \<in> set (ms_rows db)" "running_of p r" "tk_trace_id r = t0" "tk_id r = i" using Cons(3) by blast
    let ?f = "\<lambda>r. if running_of p r then r \<lparr>tk_completed_steps := int n, tk_last_progress_at := t\<rparr> else r"
    show ?thesis
    proof (cases "ms_up db")
      case True
      then have "?f r \<in> set (ms_rows (track_event req details ev db))"
        using r(1) unfolding ev by (simp add: tracker_progress_def update_progress_def update_rows_def)
      moreover have "running_of p (?f r) \<and> tk_trace_id (?f r) = t0 \<and> tk_id (?f r) = i" using r by (simp add: running_of_def)
      ultimately show ?thesis by blast
    next
      case False
      then show ?thesis using Cons(3) by (simp add: ev tracker_progress_def update_progress_def update_rows_def)
    qed
  qed
  with Cons show ?case by (simp add: track_all_def)
qed (simp add: track_all_def)

text \<open>A run that stops at a gate stays registered as running: \<open>execute_plan\<close> raises past the call that
  completes the tracker, so its row is still running when the user is asked, and the watchdog of the other
  task reports the plan as stuck once the limit has passed.\<close>

theorem gated_run_left_running:
  assumes "execute_plan env req st = (Inl e, st')" and "sv_tracked env" and "ms_up db"
    and "record_ok (pl_plan_id (ex_plan req)) (ex_user_id req) (ex_trace_id req) 0"
    and "map snd es = drop (length (xs_tracker st)) (xs_tracker st')"
  shows "\<exists>r\<in>set (ms_rows (track_all req details es db)).
    running_of (pl_plan_id (ex_plan req)) r \<and> tk_trace_id r = ex_trace_id req \<and> tk_id r = ms_next db"
proof -
  let ?p = "pl_plan_id (ex_plan req)"
  obtain cs where cs: "xs_tracker st' = xs_tracker st @ Registered ?p (length (pl_graph (ex_plan req))) # cs"
    "\<forall>ev\<in>set cs. \<exists>n. ev = Progress ?p n" by (rule gated_run_calls [OF assms(1,2)])
  with assms(5) obtain t es1 where es: "es = (t, Registered ?p (length (pl_graph (ex_plan req)))) # es1" "map snd es1 = cs"
    by (auto simp: map_eq_Cons_conv)
  let ?db = "track_event req details (t, Registered ?p (length (pl_graph (ex_plan req)))) db"
  have "\<exists>r\<in>set (ms_rows ?db). running_of ?p r \<and> tk_trace_id r = ex_trace_id req \<and> tk_id r = ms_next db"
    using assms(3,4) by (simp add: tracker_register_def create_tracker_def Let_def record_ok_def running_of_def)
  moreover have "\<forall>ev\<in>set es1. \<exists>t n. ev = (t, Progress ?p n)" using cs(2) es(2) by force
  ultimately have "\<exists>r\<in>set (ms_rows (track_all req details es1 ?db)). running_of ?p r \<and> tk_trace_id r = ex_trace_id req \<and> tk_id r = ms_next db"
    by (intro progress_keeps_running)
  then show ?thesis by (simp add: es(1) track_all_def)
qed

section \<open>A gated plan\<close>

definition gate_first :: plan_step where
  "gate_first = (new_plan_step 1 Interactive Fetcher ''CAL_LIST'' ''list'') \<lparr>ps_gate_id := Some ''gate-A''\<rparr>"

definition gated_request :: exec_request where
  "gated_request = (run_request [gate_first] None) \<lparr>ex_user_id := ''u'', ex_trace_id := ''tr''\<rparr>"

lemma gate_levels: "resolve_levels [gate_first] = Inr [[gate_first]]"
  by code_simp

lemma gated_request_simps [simp]:
  "pl_graph (ex_plan gated_request) = [gate_first]" "pl_plan_id (ex_plan gated_request) = replicate 26 CHR ''0''"
  "ex_preview_state gated_request = None" "ex_user_id gated_request = ''u''" "ex_trace_id gated_request = ''tr''"
  by (simp_all add: gated_request_def)

lemma gate_closed: "closed_gate gated_request gate_first = Some ''gate-A''" "ps_execute_mode gate_first = None" "ps_step gate_first = 1"
  by (simp_all add: closed_gate_def preview_get_def gate_first_def new_plan_step_def)

lemma gate_stops: "\<exists>e st'. execute_plan run_env gated_request run_state = (Inl e, st')"
proof -
  obtain st0 where s0: "start_execution run_env gated_request run_state = (Inr (), st0)" by (rule run_start)
  obtain e where e: "execute_step run_env gated_request gate_first st0 = (Inl e, st0)" "\<exists>g n c ps. e = Gate_required g n c ps"
    using gate_closed(1) by (auto simp: execute_step_def run_step_def gate_error_def bindS_def readS_def throwS_def split: sum.split)
  have c: "check_request run_env gated_request st0 = (Inr (), st0)"
    by (simp add: check_request_def validate_approval_token_def check_plan_ttl_def jget_def check_that_def)
  have "execute_level run_env gated_request [gate_first] st0 = (Inl e, st0)"
    using e gate_closed by (auto simp: execute_level_def should_skip_def settle_def bindS_def retS_def throwS_def)
  then have "run_phases run_env gated_request st0 = (Inl e, st0)"
    using c by (simp add: run_phases_def thenS_def bindS_def resS_def gate_levels)
  with s0 e(2) show ?thesis by (auto simp: execute_plan_def thenS_def bindS_def readS_def)
qed

theorem gated_run_left_running_witness:
  "\<exists>e st' r. execute_plan run_env gated_request run_state = (Inl e, st') \<and>
     r \<in> set (ms_rows (track_all gated_request None (map (Pair 7) (drop (length (xs_tracker run_state)) (xs_tracker st'))) (wa_db first_watch))) \<and>
     running_of (replicate 26 CHR ''0'') r"
proof -
  obtain e st' where e: "execute_plan run_env gated_request run_state = (Inl e, st')" using gate_stops by blast
  have "record_ok (pl_plan_id (ex_plan gated_request)) (ex_user_id gated_request) (ex_trace_id gated_request) 0" "sv_tracked run_env"
    "ms_up (wa_db first_watch)" by (simp_all add: record_ok_def first_watch_def)
  from gated_run_left_running [OF e this(2,3,1), of "map (Pair 7) (drop (length (xs_tracker run_state)) (xs_tracker st'))" None] e
  show ?thesis by (auto simp: comp_def)
qed

end
