(* ===== verification/Workflow_Types.thy ===== *)
theory Workflow_Types
  imports Plan_Schema
begin

text \<open>
  The frozen dataclasses of \<open>Planner/adapters/workflow_registry.py\<close>. A step template's role, type
  and trust level are the values \<open>PlanStep\<close> accepts for them; \<open>step_template\<close>, \<open>entity\<close> and
  \<open>model_config\<close> build a value from its required fields, with the declared defaults for the rest.
\<close>

record entity_definition =
  en_name :: string
  en_description :: string
  en_required :: bool
  en_aliases :: "string list"
  en_default_preference_key :: "string option"
  en_tool_param :: "string option"
  en_unit :: string
  en_example :: string

definition entity :: "string \<Rightarrow> string \<Rightarrow> entity_definition" where
  "entity n d = \<lparr>en_name = n, en_description = d, en_required = True, en_aliases = [], en_default_preference_key = None,
     en_tool_param = None, en_unit = [], en_example = []\<rparr>"

record step_template =
  st_step :: int
  st_role :: role
  st_type :: step_type
  st_tool :: string
  st_call :: string
  st_timeout_s :: int
  st_gate_id :: "string option"
  st_context_from :: "int list"
  st_after :: "int list"
  st_can_spawn :: bool
  st_max_spawned_steps :: "int option"
  st_trust_level :: "trust_level option"
  st_policy_ref :: "string option"
  st_reasoning_config :: "reasoning_config option"
  st_args_template :: "jobj option"

definition template :: "int \<Rightarrow> role \<Rightarrow> step_template" where
  "template n r = \<lparr>st_step = n, st_role = r, st_type = Api, st_tool = [], st_call = [], st_timeout_s = 30, st_gate_id = None,
     st_context_from = [], st_after = [], st_can_spawn = False, st_max_spawned_steps = None, st_trust_level = None,
     st_policy_ref = None, st_reasoning_config = None, st_args_template = None\<rparr>"

record workflow =
  wf_intent :: string
  wf_provider :: string
  wf_steps :: "step_template list"
  wf_entities :: "entity_definition list"
  wf_related_actions :: "string list"
  wf_related_providers :: "string list"

text \<open>The \<open>reasoning_config\<close> dictionary of a template, as \<open>PlanStep\<close> reads it.\<close>

definition model_config :: "string \<Rightarrow> rat \<Rightarrow> int \<Rightarrow> string \<Rightarrow> reasoning_config option" where
  "model_config m t n p = Some \<lparr>rc_model = m, rc_temperature = t, rc_max_tokens = n, rc_system_prompt_ref = p,
     rc_output_schema_ref = None\<rparr>"

lemma template_simps [simp]:
  "st_step (template n r) = n" "st_role (template n r) = r" "st_type (template n r) = Api"
  "st_gate_id (template n r) = None" "st_after (template n r) = []" "st_context_from (template n r) = []"
  "st_policy_ref (template n r) = None" "st_reasoning_config (template n r) = None" "st_timeout_s (template n r) = 30"
  by (simp_all add: template_def)

end
