(* ===== verification/Workflow_Data.thy ===== *)
theory Workflow_Data
  imports Workflow_Types
begin

text \<open>
  The registered workflows (\<open>_WORKFLOWS\<close> and \<open>_GENERIC_WORKFLOWS\<close> of
  \<open>Planner/adapters/workflow_registry.py\<close>), one definition per workflow, in the order of the source.
\<close>

section \<open>Workflows of a provider\<close>

definition wf_send_email_gmail :: workflow where
  "wf_send_email_gmail = \<lparr>wf_intent = ''send_email_gmail'', wf_provider = ''gmail'',
     wf_steps =
       [(template 1 Reasoner) \<lparr>st_type := Llm_reasoning, st_tool := ''email_validator'', st_call := ''email_validator'',
            st_timeout_s := 30, st_can_spawn := True, st_max_spawned_steps := Some 3, st_trust_level := Some Trusted,
            st_policy_ref := Some ''policy-email'',
            st_reasoning_config := model_config ''claude-sonnet-4-5-20250929'' 0 1024 ''Validate email content and recipients before sending.''\<rparr>,
        (template 2 Resolver) \<lparr>st_type := Api, st_tool := ''system.confirm'', st_call := ''system.confirm'',
            st_gate_id := Some ''gate-confirm'', st_context_from := [1], st_after := [1]\<rparr>,
        (template 3 Booker) \<lparr>st_type := Api, st_tool := ''GMAIL_SEND_EMAIL'', st_call := ''GMAIL_SEND_EMAIL'', st_timeout_s := 60,
            st_gate_id := Some ''gate-execute'', st_after := [2],
            st_args_template := Some [(''to'', JStr ''{{entities.recipient}}''), (''subject'', JStr ''{{entities.subject}}''), (''body'', JStr ''{{entities.body}}'')]\<rparr>],
     wf_entities =
       [(entity ''recipient'' ''Who to send the email to'')
          \<lparr>en_required := True, en_aliases := [''to'', ''attendee'', ''attendee_email''],
            en_tool_param := Some ''to'', en_unit := ''email address'', en_example := ''alice@company.com''\<rparr>,
        (entity ''subject'' ''Email subject line'')
          \<lparr>en_required := True, en_aliases := [''email_subject''], en_tool_param := Some ''subject'',
            en_example := ''Quick sync on project timeline''\<rparr>,
        (entity ''body'' ''Email body content'')
          \<lparr>en_required := True, en_aliases := [''content'', ''message'', ''email_body''],
            en_tool_param := Some ''body'', en_example := ''Hi, just wanted to follow up on...''\<rparr>],
     wf_related_actions = [''SEND_EMAIL'', ''CREATE_DRAFT''],
     wf_related_providers = [''gmail'']\<rparr>"

definition wf_schedule_meeting_google_calendar :: workflow where
  "wf_schedule_meeting_google_calendar = \<lparr>wf_intent = ''schedule_meeting_google_calendar'', wf_provider = ''googlecalendar'',
     wf_steps =
       [(template 1 Fetcher) \<lparr>st_type := Api, st_tool := ''GOOGLECALENDAR_FIND_EVENT'', st_call := ''GOOGLECALENDAR_FIND_EVENT'',
            st_timeout_s := 30, st_args_template := Some [(''search_term'', JStr ''{{entities.title}}'')]\<rparr>,
        (template 2 Reasoner) \<lparr>st_type := Llm_reasoning, st_tool := ''calendar_conflict_resolver'',
            st_call := ''calendar_conflict_resolver'', st_context_from := [1], st_after := [1], st_can_spawn := True,
            st_max_spawned_steps := Some 3, st_trust_level := Some Trusted,
            st_policy_ref := Some ''policy-scheduling'',
            st_reasoning_config := model_config ''claude-sonnet-4-5-20250929'' 0 1024 ''Analyze calendar events for conflicts and recommend optimal meeting time.''\<rparr>,
        (template 3 Resolver) \<lparr>st_type := Api, st_tool := ''system.confirm'', st_call := ''system.confirm'',
            st_gate_id := Some ''gate-confirm'', st_context_from := [2], st_after := [2]\<rparr>,
        (template 4 Booker) \<lparr>st_type := Api, st_tool := ''GOOGLECALENDAR_CREATE_EVENT'', st_call := ''GOOGLECALENDAR_CREATE_EVENT'',
            st_timeout_s := 60, st_gate_id := Some ''gate-execute'', st_after := [3],
            st_args_template := Some [(''start_datetime'', JStr ''{{step_2.result.recommended_time}}''), (''attendees'', JStr ''{{entities.attendee}}''), (''summary'', JStr ''{{entities.title}}''), (''duration'', JStr ''{{entities.duration}}''), (''timezone'', JStr ''{{entities.timezone}}'')]\<rparr>],
     wf_entities =
       [(entity ''attendee'' ''Who should attend the meeting'')
          \<lparr>en_required := True, en_aliases := [''attendees'', ''participant'', ''with''],
            en_tool_param := Some ''attendees'', en_unit := ''name or email'', en_example := ''alice@company.com''\<rparr>,
        (entity ''date_time'' ''When to schedule the meeting'')
          \<lparr>en_required := True,
            en_aliases := [''start_time'', ''time'', ''when'', ''date'', ''meeting_date'', ''meeting_time'', ''start'', ''schedule_date'', ''start_date''],
            en_tool_param := Some ''start_time'', en_unit := ''date and time'', en_example := ''2026-05-02T14:00''\<rparr>,
        (entity ''title'' ''What the meeting is about'')
          \<lparr>en_required := True,
            en_aliases := [''subject'', ''summary'', ''description'', ''topic'', ''agenda'', ''meeting_title''],
            en_tool_param := Some ''summary'', en_example := ''Weekly sync''\<rparr>,
        (entity ''duration'' ''How long the meeting should be'')
          \<lparr>en_required := False, en_aliases := [''duration_minutes'', ''length'', ''meeting_duration'', ''minutes''],
            en_default_preference_key := Some ''meeting_duration_min'', en_tool_param := Some ''duration'',
            en_unit := ''minutes'', en_example := ''30''\<rparr>,
        (entity ''timezone'' ''Timezone for the meeting'')
          \<lparr>en_required := True, en_aliases := [''tz'', ''time_zone''],
            en_default_preference_key := Some ''timezone'', en_tool_param := Some ''timezone'',
            en_unit := ''IANA timezone'', en_example := ''Asia/Kolkata''\<rparr>],
     wf_related_actions = [''CREATE_EVENT'', ''FIND_EVENT'', ''FIND_FREE_SLOTS'', ''LIST_EVENTS''],
     wf_related_providers = [''googlecalendar'', ''gmail'']\<rparr>"

definition wf_create_event_google_calendar :: workflow where
  "wf_create_event_google_calendar = \<lparr>wf_intent = ''create_event_google_calendar'', wf_provider = ''googlecalendar'',
     wf_steps =
       [(template 1 Fetcher) \<lparr>st_type := Api, st_tool := ''GOOGLECALENDAR_FIND_EVENT'', st_call := ''GOOGLECALENDAR_FIND_EVENT'',
            st_timeout_s := 30, st_args_template := Some [(''search_term'', JStr ''{{entities.title}}'')]\<rparr>,
        (template 2 Reasoner) \<lparr>st_type := Llm_reasoning, st_tool := ''calendar_conflict_resolver'',
            st_call := ''calendar_conflict_resolver'', st_context_from := [1], st_after := [1], st_can_spawn := True,
            st_max_spawned_steps := Some 3, st_trust_level := Some Trusted,
            st_policy_ref := Some ''policy-scheduling'',
            st_reasoning_config := model_config ''claude-sonnet-4-5-20250929'' 0 1024 ''Analyze calendar events for conflicts and recommend optimal event time.''\<rparr>,
        (template 3 Resolver) \<lparr>st_type := Api, st_tool := ''system.confirm'', st_call := ''system.confirm'',
            st_gate_id := Some ''gate-confirm'', st_context_from := [2], st_after := [2]\<rparr>,
        (template 4 Booker) \<lparr>st_type := Api, st_tool := ''GOOGLECALENDAR_CREATE_EVENT'', st_call := ''GOOGLECALENDAR_CREATE_EVENT'',
            st_timeout_s := 60, st_gate_id := Some ''gate-execute'', st_after := [3],
            st_args_template := Some [(''start_datetime'', JStr ''{{step_2.result.recommended_time}}''), (''summary'', JStr ''{{entities.title}}''), (''duration'', JStr ''{{entities.duration}}''), (''timezone'', JStr ''{{entities.timezone}}'')]\<rparr>],
     wf_entities =
       [(entity ''title'' ''Event title'')
          \<lparr>en_required := True, en_aliases := [''name'', ''event_name'', ''summary''],
            en_tool_param := Some ''summary'', en_example := ''Team offsite''\<rparr>,
        (entity ''date_time'' ''When the event takes place'')
          \<lparr>en_required := True,
            en_aliases := [''start_time'', ''time'', ''when'', ''date'', ''event_date'', ''start_date'', ''start''],
            en_tool_param := Some ''start_time'', en_unit := ''date and time'', en_example := ''2026-05-02T15:00''\<rparr>,
        (entity ''duration'' ''How long the event should be'')
          \<lparr>en_required := False, en_aliases := [''duration_minutes'', ''length''],
            en_tool_param := Some ''duration'', en_unit := ''minutes'', en_example := ''60''\<rparr>,
        (entity ''timezone'' ''Timezone for the event'')
          \<lparr>en_required := True, en_aliases := [''tz'', ''time_zone''],
            en_default_preference_key := Some ''timezone'', en_tool_param := Some ''timezone'',
            en_unit := ''IANA timezone'', en_example := ''Asia/Kolkata''\<rparr>],
     wf_related_actions = [''CREATE_EVENT'', ''FIND_EVENT'', ''FIND_FREE_SLOTS''],
     wf_related_providers = [''googlecalendar'']\<rparr>"

definition wf_draft_email_gmail :: workflow where
  "wf_draft_email_gmail = \<lparr>wf_intent = ''draft_email_gmail'', wf_provider = ''gmail'',
     wf_steps =
       [(template 1 Booker) \<lparr>st_type := Api, st_tool := ''GMAIL_CREATE_DRAFT'', st_call := ''GMAIL_CREATE_DRAFT'', st_timeout_s := 60,
            st_gate_id := Some ''gate-execute'',
            st_args_template := Some [(''to'', JStr ''{{entities.recipient}}''), (''subject'', JStr ''{{entities.subject}}''), (''body'', JStr ''{{entities.body}}'')]\<rparr>],
     wf_entities =
       [(entity ''recipient'' ''Who the draft is addressed to'')
          \<lparr>en_required := False, en_aliases := [''to'', ''attendee_email''], en_tool_param := Some ''to'',
            en_unit := ''email address'', en_example := ''bob@example.com''\<rparr>,
        (entity ''subject'' ''Draft email subject line'')
          \<lparr>en_required := True, en_aliases := [''email_subject''], en_tool_param := Some ''subject'',
            en_example := ''Follow up on proposal''\<rparr>,
        (entity ''body'' ''Draft email body content'')
          \<lparr>en_required := True, en_aliases := [''content'', ''message'', ''email_body''],
            en_tool_param := Some ''body'', en_example := ''Hi, I wanted to follow up on...''\<rparr>],
     wf_related_actions = [''CREATE_DRAFT'', ''SEND_EMAIL''],
     wf_related_providers = [''gmail'']\<rparr>"

definition wf_read_email_gmail :: workflow where
  "wf_read_email_gmail = \<lparr>wf_intent = ''read_email_gmail'', wf_provider = ''gmail'',
     wf_steps =
       [(template 1 Fetcher) \<lparr>st_type := Api, st_tool := ''GMAIL_FETCH_EMAILS'', st_call := ''GMAIL_FETCH_EMAILS'', st_timeout_s := 30\<rparr>,
        (template 2 Reasoner) \<lparr>st_type := Llm_reasoning, st_tool := ''email_summarizer'', st_call := ''email_summarizer'',
            st_context_from := [1], st_after := [1], st_policy_ref := Some ''policy-readonly'',
            st_reasoning_config := model_config ''claude-sonnet-4-5-20250929'' 0 1024 ''Summarize the fetched emails for the user.''\<rparr>],
     wf_entities =
       [(entity ''query'' ''Email search query or filter'')
          \<lparr>en_required := False, en_aliases := [''search'', ''filter''], en_tool_param := Some ''query'',
            en_example := ''from:alice subject:invoice''\<rparr>,
        (entity ''limit'' ''Maximum number of emails to fetch'')
          \<lparr>en_required := False, en_aliases := [''max_results'', ''count''], en_tool_param := Some ''max_results'',
            en_unit := ''count'', en_example := ''10''\<rparr>],
     wf_related_actions = [''GET_EMAIL'', ''LIST_EMAILS'', ''FETCH_EMAILS''],
     wf_related_providers = [''gmail'']\<rparr>"

definition wf_list_email_gmail :: workflow where
  "wf_list_email_gmail = \<lparr>wf_intent = ''list_email_gmail'', wf_provider = ''gmail'',
     wf_steps =
       [(template 1 Fetcher) \<lparr>st_type := Api, st_tool := ''GMAIL_FETCH_EMAILS'', st_call := ''GMAIL_FETCH_EMAILS'', st_timeout_s := 30\<rparr>,
        (template 2 Reasoner) \<lparr>st_type := Llm_reasoning, st_tool := ''email_summarizer'', st_call := ''email_summarizer'',
            st_context_from := [1], st_after := [1], st_policy_ref := Some ''policy-readonly'',
            st_reasoning_config := model_config ''claude-sonnet-4-5-20250929'' 0 1024 ''Summarize the email list for the user.''\<rparr>],
     wf_entities =
       [(entity ''query'' ''Email search query or filter'')
          \<lparr>en_required := False, en_aliases := [''search'', ''filter''], en_tool_param := Some ''query'',
            en_example := ''is:unread''\<rparr>,
        (entity ''limit'' ''Maximum number of emails to list'')
          \<lparr>en_required := False, en_aliases := [''max_results'', ''count''], en_tool_param := Some ''maxResults'',
            en_unit := ''count'', en_example := ''10''\<rparr>],
     wf_related_actions = [''LIST_EMAILS'', ''FETCH_EMAILS''],
     wf_related_providers = [''gmail'']\<rparr>"

definition wf_search_email_gmail :: workflow where
  "wf_search_email_gmail = \<lparr>wf_intent = ''search_email_gmail'', wf_provider = ''gmail'',
     wf_steps =
       [(template 1 Fetcher) \<lparr>st_type := Api, st_tool := ''GMAIL_FETCH_EMAILS'', st_call := ''GMAIL_FETCH_EMAILS'', st_timeout_s := 30\<rparr>,
        (template 2 Reasoner) \<lparr>st_type := Llm_reasoning, st_tool := ''email_summarizer'', st_call := ''email_summarizer'',
            st_context_from := [1], st_after := [1], st_policy_ref := Some ''policy-readonly'',
            st_reasoning_config := model_config ''claude-sonnet-4-5-20250929'' 0 1024 ''Summarize the email search results for the user.''\<rparr>],
     wf_entities =
       [(entity ''query'' ''Email search query'')
          \<lparr>en_required := True, en_aliases := [''search'', ''filter'', ''search_query''],
            en_tool_param := Some ''query'', en_example := ''budget report Q4''\<rparr>,
        (entity ''limit'' ''Maximum number of emails to return'')
          \<lparr>en_required := False, en_aliases := [''max_results'', ''count''], en_tool_param := Some ''maxResults'',
            en_unit := ''count'', en_example := ''10''\<rparr>],
     wf_related_actions = [''LIST_EMAILS'', ''FETCH_EMAILS''],
     wf_related_providers = [''gmail'']\<rparr>"

definition wf_list_meetings_google_calendar :: workflow where
  "wf_list_meetings_google_calendar = \<lparr>wf_intent = ''list_meetings_google_calendar'', wf_provider = ''googlecalendar'',
     wf_steps =
       [(template 1 Fetcher) \<lparr>st_type := Api, st_tool := ''GOOGLECALENDAR_LIST_EVENTS'', st_call := ''GOOGLECALENDAR_LIST_EVENTS'',
            st_timeout_s := 30\<rparr>,
        (template 2 Reasoner) \<lparr>st_type := Llm_reasoning, st_tool := ''calendar_summarizer'', st_call := ''calendar_summarizer'',
            st_context_from := [1], st_after := [1], st_policy_ref := Some ''policy-readonly'',
            st_reasoning_config := model_config ''claude-sonnet-4-5-20250929'' 0 1024 ''Summarize the calendar events for the user.''\<rparr>],
     wf_entities =
       [(entity ''date_range'' ''Time range to list meetings for'')
          \<lparr>en_required := False, en_aliases := [''date'', ''when'', ''period'', ''timeframe''],
            en_tool_param := Some ''timeMin'', en_example := ''this week''\<rparr>],
     wf_related_actions = [''FIND_EVENT'', ''LIST_EVENTS'', ''LIST_ALL_CALENDARS''],
     wf_related_providers = [''googlecalendar'']\<rparr>"

definition wf_check_calendar_google_calendar :: workflow where
  "wf_check_calendar_google_calendar = \<lparr>wf_intent = ''check_calendar_google_calendar'', wf_provider = ''googlecalendar'',
     wf_steps =
       [(template 1 Fetcher) \<lparr>st_type := Api, st_tool := ''GOOGLECALENDAR_LIST_EVENTS'', st_call := ''GOOGLECALENDAR_LIST_EVENTS'',
            st_timeout_s := 30\<rparr>,
        (template 2 Reasoner) \<lparr>st_type := Llm_reasoning, st_tool := ''calendar_summarizer'', st_call := ''calendar_summarizer'',
            st_context_from := [1], st_after := [1], st_policy_ref := Some ''policy-readonly'',
            st_reasoning_config := model_config ''claude-sonnet-4-5-20250929'' 0 1024 ''Summarize the calendar availability for the user.''\<rparr>],
     wf_entities =
       [(entity ''date_range'' ''Time range to check availability for'')
          \<lparr>en_required := False, en_aliases := [''date'', ''when'', ''period'', ''timeframe''],
            en_tool_param := Some ''timeMin'', en_example := ''next Monday''\<rparr>],
     wf_related_actions = [''FIND_EVENT'', ''LIST_EVENTS'', ''LIST_ALL_CALENDARS''],
     wf_related_providers = [''googlecalendar'']\<rparr>"

definition wf_create_document_google_docs :: workflow where
  "wf_create_document_google_docs = \<lparr>wf_intent = ''create_document_google_docs'', wf_provider = ''googledocs'',
     wf_steps =
       [(template 1 Booker) \<lparr>st_type := Api, st_tool := ''GOOGLEDOCS_CREATE_DOCUMENT_FROM_TEXT'',
            st_call := ''GOOGLEDOCS_CREATE_DOCUMENT_FROM_TEXT'', st_timeout_s := 60,
            st_gate_id := Some ''gate-execute'',
            st_args_template := Some [(''title'', JStr ''{{entities.title}}''), (''content'', JStr ''{{entities.content}}'')]\<rparr>],
     wf_entities =
       [(entity ''title'' ''Document title'')
          \<lparr>en_required := True, en_tool_param := Some ''title'', en_example := ''Project Proposal''\<rparr>,
        (entity ''content'' ''Document content'')
          \<lparr>en_required := True, en_aliases := [''body'', ''text''], en_tool_param := Some ''content'',
            en_example := ''Introduction to the project...''\<rparr>],
     wf_related_actions = [''CREATE_DOCUMENT'', ''CREATE_DOCUMENT_FROM_TEXT''],
     wf_related_providers = [''googledocs'']\<rparr>"

definition wf_edit_document_google_docs :: workflow where
  "wf_edit_document_google_docs = \<lparr>wf_intent = ''edit_document_google_docs'', wf_provider = ''googledocs'',
     wf_steps =
       [(template 1 Fetcher) \<lparr>st_type := Api, st_tool := ''GOOGLEDOCS_GET_DOCUMENT'', st_call := ''GOOGLEDOCS_GET_DOCUMENT'',
            st_timeout_s := 30, st_args_template := Some [(''document_id'', JStr ''{{entities.document_id}}'')]\<rparr>,
        (template 2 Reasoner) \<lparr>st_type := Llm_reasoning, st_tool := ''document_editor'', st_call := ''document_editor'',
            st_context_from := [1], st_after := [1], st_can_spawn := True, st_max_spawned_steps := Some 3,
            st_trust_level := Some Trusted, st_policy_ref := Some ''policy-docs'',
            st_reasoning_config := model_config ''claude-sonnet-4-5-20250929'' 0 1024 ''Analyze document and determine edits to apply.''\<rparr>,
        (template 3 Resolver) \<lparr>st_type := Api, st_tool := ''system.confirm'', st_call := ''system.confirm'',
            st_gate_id := Some ''gate-confirm'', st_context_from := [2], st_after := [2]\<rparr>,
        (template 4 Booker) \<lparr>st_type := Api, st_tool := ''GOOGLEDOCS_APPEND_TEXT'', st_call := ''GOOGLEDOCS_APPEND_TEXT'',
            st_timeout_s := 60, st_gate_id := Some ''gate-execute'', st_after := [3],
            st_args_template := Some [(''document_id'', JStr ''{{entities.document_id}}''), (''text'', JStr ''{{entities.content}}'')]\<rparr>],
     wf_entities =
       [(entity ''document_id'' ''ID of the document to edit'')
          \<lparr>en_required := True, en_aliases := [''doc_id'', ''file_id''], en_tool_param := Some ''document_id'',
            en_unit := ''document ID'', en_example := ''1BxiMVs0XRA5nFMdKvBdBZjgmUii3vhG7''\<rparr>,
        (entity ''content'' ''Content to add or replace'')
          \<lparr>en_required := True, en_aliases := [''text'', ''body''], en_tool_param := Some ''text'',
            en_example := ''Updated section content...''\<rparr>,
        (entity ''action'' ''Type of edit (append/replace)'')
          \<lparr>en_required := False, en_aliases := [''edit_type''], en_example := ''append''\<rparr>],
     wf_related_actions = [''APPEND_TEXT'', ''GET_DOCUMENT'', ''UPDATE_DOCUMENT''],
     wf_related_providers = [''googledocs'']\<rparr>"

definition wf_upload_file_google_drive :: workflow where
  "wf_upload_file_google_drive = \<lparr>wf_intent = ''upload_file_google_drive'', wf_provider = ''googledrive'',
     wf_steps =
       [(template 1 Booker) \<lparr>st_type := Api, st_tool := ''GOOGLEDRIVE_UPLOAD_FILE'', st_call := ''GOOGLEDRIVE_UPLOAD_FILE'',
            st_timeout_s := 60, st_gate_id := Some ''gate-execute'',
            st_args_template := Some [(''file_path'', JStr ''{{entities.file_path}}''), (''folder'', JStr ''{{entities.folder}}'')]\<rparr>],
     wf_entities =
       [(entity ''file_path'' ''Path to the file to upload'')
          \<lparr>en_required := True, en_aliases := [''path'', ''file''], en_tool_param := Some ''file_path'',
            en_unit := ''file path'', en_example := ''/documents/report.pdf''\<rparr>,
        (entity ''folder'' ''Destination folder'')
          \<lparr>en_required := False, en_aliases := [''destination'', ''folder_id''], en_tool_param := Some ''folder'',
            en_unit := ''folder name or ID'', en_example := ''Shared/Reports''\<rparr>],
     wf_related_actions = [''UPLOAD_FILE''],
     wf_related_providers = [''googledrive'']\<rparr>"

definition wf_download_file_google_drive :: workflow where
  "wf_download_file_google_drive = \<lparr>wf_intent = ''download_file_google_drive'', wf_provider = ''googledrive'',
     wf_steps =
       [(template 1 Fetcher) \<lparr>st_type := Api, st_tool := ''GOOGLEDRIVE_FIND_FILE'', st_call := ''GOOGLEDRIVE_FIND_FILE'',
            st_timeout_s := 30\<rparr>,
        (template 2 Reasoner) \<lparr>st_type := Llm_reasoning, st_tool := ''file_summarizer'', st_call := ''file_summarizer'',
            st_context_from := [1], st_after := [1], st_policy_ref := Some ''policy-readonly'',
            st_reasoning_config := model_config ''claude-sonnet-4-5-20250929'' 0 1024 ''Confirm the correct file was found for download.''\<rparr>],
     wf_entities =
       [(entity ''file_name'' ''Name of the file to download'')
          \<lparr>en_required := True, en_aliases := [''filename'', ''name''], en_tool_param := Some ''file_name'',
            en_example := ''quarterly-report.pdf''\<rparr>,
        (entity ''query'' ''Search query for finding the file'')
          \<lparr>en_required := False, en_tool_param := Some ''query'', en_example := ''quarterly report 2024''\<rparr>],
     wf_related_actions = [''FIND_FILE'', ''DOWNLOAD_FILE''],
     wf_related_providers = [''googledrive'']\<rparr>"

definition wf_search_files_google_drive :: workflow where
  "wf_search_files_google_drive = \<lparr>wf_intent = ''search_files_google_drive'', wf_provider = ''googledrive'',
     wf_steps =
       [(template 1 Fetcher) \<lparr>st_type := Api, st_tool := ''GOOGLEDRIVE_SEARCH_FILE'', st_call := ''GOOGLEDRIVE_SEARCH_FILE'',
            st_timeout_s := 30\<rparr>,
        (template 2 Reasoner) \<lparr>st_type := Llm_reasoning, st_tool := ''file_summarizer'', st_call := ''file_summarizer'',
            st_context_from := [1], st_after := [1], st_policy_ref := Some ''policy-readonly'',
            st_reasoning_config := model_config ''claude-sonnet-4-5-20250929'' 0 1024 ''Summarize the file search results for the user.''\<rparr>],
     wf_entities =
       [(entity ''query'' ''Search query for files'')
          \<lparr>en_required := True, en_aliases := [''search'', ''keyword''], en_tool_param := Some ''query'',
            en_example := ''meeting notes''\<rparr>],
     wf_related_actions = [''SEARCH_FILE'', ''FIND_FILE'', ''LIST_FILES''],
     wf_related_providers = [''googledrive'']\<rparr>"

definition wf_list_files_google_drive :: workflow where
  "wf_list_files_google_drive = \<lparr>wf_intent = ''list_files_google_drive'', wf_provider = ''googledrive'',
     wf_steps =
       [(template 1 Fetcher) \<lparr>st_type := Api, st_tool := ''GOOGLEDRIVE_LIST_FILES'', st_call := ''GOOGLEDRIVE_LIST_FILES'',
            st_timeout_s := 30\<rparr>,
        (template 2 Reasoner) \<lparr>st_type := Llm_reasoning, st_tool := ''file_summarizer'', st_call := ''file_summarizer'',
            st_context_from := [1], st_after := [1], st_policy_ref := Some ''policy-readonly'',
            st_reasoning_config := model_config ''claude-sonnet-4-5-20250929'' 0 1024 ''Summarize the file listing for the user.''\<rparr>],
     wf_entities =
       [(entity ''folder'' ''Folder to list files from'')
          \<lparr>en_required := False, en_aliases := [''directory'', ''folder_id''], en_tool_param := Some ''folder'',
            en_unit := ''folder name or ID'', en_example := ''Shared/Projects''\<rparr>,
        (entity ''limit'' ''Maximum number of files to list'')
          \<lparr>en_required := False, en_tool_param := Some ''max_results'', en_unit := ''count'', en_example := ''20''\<rparr>],
     wf_related_actions = [''LIST_FILES'', ''SEARCH_FILE''],
     wf_related_providers = [''googledrive'']\<rparr>"

definition wf_create_page_notion :: workflow where
  "wf_create_page_notion = \<lparr>wf_intent = ''create_page_notion'', wf_provider = ''notion'',
     wf_steps =
       [(template 1 Fetcher) \<lparr>st_type := Api, st_tool := ''NOTION_SEARCH_NOTION'', st_call := ''NOTION_SEARCH_NOTION'',
            st_timeout_s := 30, st_args_template := Some [(''query'', JStr ''{{entities.title}}'')]\<rparr>,
        (template 2 Reasoner) \<lparr>st_type := Llm_reasoning, st_tool := ''notion_validator'', st_call := ''notion_validator'',
            st_context_from := [1], st_after := [1], st_can_spawn := True, st_max_spawned_steps := Some 3,
            st_trust_level := Some Trusted, st_policy_ref := Some ''policy-notion'',
            st_reasoning_config := model_config ''claude-sonnet-4-5-20250929'' 0 1024 ''Validate Notion page creation parameters.''\<rparr>,
        (template 3 Resolver) \<lparr>st_type := Api, st_tool := ''system.confirm'', st_call := ''system.confirm'',
            st_gate_id := Some ''gate-confirm'', st_context_from := [2], st_after := [2]\<rparr>,
        (template 4 Booker) \<lparr>st_type := Api, st_tool := ''NOTION_CREATE_A_NEW_PAGE'', st_call := ''NOTION_CREATE_A_NEW_PAGE'',
            st_timeout_s := 60, st_gate_id := Some ''gate-execute'', st_after := [3],
            st_args_template := Some [(''title'', JStr ''{{entities.title}}''), (''content'', JStr ''{{entities.content}}''), (''parent'', JStr ''{{entities.parent}}'')]\<rparr>],
     wf_entities =
       [(entity ''title'' ''Page title'')
          \<lparr>en_required := True, en_tool_param := Some ''title'', en_example := ''Sprint Planning Notes''\<rparr>,
        (entity ''content'' ''Page content'')
          \<lparr>en_required := False, en_aliases := [''body'', ''text''], en_tool_param := Some ''content'',
            en_example := ''Key discussion points...''\<rparr>,
        (entity ''parent'' ''Parent page or database ID'')
          \<lparr>en_required := False, en_aliases := [''database'', ''database_id''], en_tool_param := Some ''parent'',
            en_unit := ''page or database ID'', en_example := ''My Workspace''\<rparr>],
     wf_related_actions = [''CREATE_PAGE'', ''CREATE_A_NEW_PAGE''],
     wf_related_providers = [''notion'']\<rparr>"

definition wf_create_task_notion :: workflow where
  "wf_create_task_notion = \<lparr>wf_intent = ''create_task_notion'', wf_provider = ''notion'',
     wf_steps =
       [(template 1 Fetcher) \<lparr>st_type := Api, st_tool := ''NOTION_SEARCH_NOTION'', st_call := ''NOTION_SEARCH_NOTION'',
            st_timeout_s := 30, st_args_template := Some [(''query'', JStr ''{{entities.title}}'')]\<rparr>,
        (template 2 Reasoner) \<lparr>st_type := Llm_reasoning, st_tool := ''notion_validator'', st_call := ''notion_validator'',
            st_context_from := [1], st_after := [1], st_can_spawn := True, st_max_spawned_steps := Some 3,
            st_trust_level := Some Trusted, st_policy_ref := Some ''policy-notion'',
            st_reasoning_config := model_config ''claude-sonnet-4-5-20250929'' 0 1024 ''Validate Notion task creation parameters.''\<rparr>,
        (template 3 Resolver) \<lparr>st_type := Api, st_tool := ''system.confirm'', st_call := ''system.confirm'',
            st_gate_id := Some ''gate-confirm'', st_context_from := [2], st_after := [2]\<rparr>,
        (template 4 Booker) \<lparr>st_type := Api, st_tool := ''NOTION_CREATE_A_NEW_PAGE'', st_call := ''NOTION_CREATE_A_NEW_PAGE'',
            st_timeout_s := 60, st_gate_id := Some ''gate-execute'', st_after := [3],
            st_args_template := Some [(''title'', JStr ''{{entities.title}}''), (''status'', JStr ''{{entities.status}}''), (''due_date'', JStr ''{{entities.due_date}}''), (''assignee'', JStr ''{{entities.assignee}}''), (''parent'', JStr ''{{entities.parent}}'')]\<rparr>],
     wf_entities =
       [(entity ''title'' ''Task name'')
          \<lparr>en_required := True, en_aliases := [''task_name'', ''name''], en_tool_param := Some ''title'',
            en_example := ''Review PR #42''\<rparr>,
        (entity ''status'' ''Task status'')
          \<lparr>en_required := False, en_tool_param := Some ''status'', en_example := ''To Do''\<rparr>,
        (entity ''due_date'' ''Task deadline'')
          \<lparr>en_required := False, en_aliases := [''deadline''], en_tool_param := Some ''due_date'',
            en_example := ''next Friday''\<rparr>,
        (entity ''assignee'' ''Person assigned to the task'')
          \<lparr>en_required := False, en_tool_param := Some ''assignee'', en_unit := ''name or email'',
            en_example := ''Alice''\<rparr>,
        (entity ''parent'' ''Parent database or project'')
          \<lparr>en_required := False, en_aliases := [''database'', ''database_id'', ''project''],
            en_tool_param := Some ''parent'', en_unit := ''database name or ID'', en_example := ''Tasks Board''\<rparr>],
     wf_related_actions = [''CREATE_PAGE'', ''CREATE_A_NEW_PAGE'', ''CREATE_BLOCK''],
     wf_related_providers = [''notion'']\<rparr>"

definition wf_search_notion :: workflow where
  "wf_search_notion = \<lparr>wf_intent = ''search_notion'', wf_provider = ''notion'',
     wf_steps =
       [(template 1 Fetcher) \<lparr>st_type := Api, st_tool := ''NOTION_SEARCH_NOTION'', st_call := ''NOTION_SEARCH_NOTION'',
            st_timeout_s := 30\<rparr>,
        (template 2 Reasoner) \<lparr>st_type := Llm_reasoning, st_tool := ''notion_summarizer'', st_call := ''notion_summarizer'',
            st_context_from := [1], st_after := [1], st_policy_ref := Some ''policy-readonly'',
            st_reasoning_config := model_config ''claude-sonnet-4-5-20250929'' 0 1024 ''Summarize Notion search results for the user.''\<rparr>],
     wf_entities =
       [(entity ''query'' ''Search query'')
          \<lparr>en_required := True, en_aliases := [''search'', ''keyword''], en_tool_param := Some ''query'',
            en_example := ''sprint planning''\<rparr>],
     wf_related_actions = [''SEARCH_NOTION'', ''FETCH_PAGE''],
     wf_related_providers = [''notion'']\<rparr>"

definition wf_list_tasks_notion :: workflow where
  "wf_list_tasks_notion = \<lparr>wf_intent = ''list_tasks_notion'', wf_provider = ''notion'',
     wf_steps =
       [(template 1 Fetcher) \<lparr>st_type := Api, st_tool := ''NOTION_FETCH_DATABASE'', st_call := ''NOTION_FETCH_DATABASE'',
            st_timeout_s := 30\<rparr>,
        (template 2 Reasoner) \<lparr>st_type := Llm_reasoning, st_tool := ''notion_summarizer'', st_call := ''notion_summarizer'',
            st_context_from := [1], st_after := [1], st_policy_ref := Some ''policy-readonly'',
            st_reasoning_config := model_config ''claude-sonnet-4-5-20250929'' 0 1024 ''Summarize the task list from the Notion database.''\<rparr>],
     wf_entities =
       [(entity ''database_id'' ''Notion database to list tasks from'')
          \<lparr>en_required := True, en_aliases := [''database'', ''project''], en_tool_param := Some ''database_id'',
            en_unit := ''database name or ID'', en_example := ''Tasks Board''\<rparr>,
        (entity ''status'' ''Filter by task status'')
          \<lparr>en_required := False, en_aliases := [''filter''], en_tool_param := Some ''status'',
            en_example := ''In Progress''\<rparr>],
     wf_related_actions = [''FETCH_DATABASE'', ''LIST_PAGES'', ''FETCH_PAGE''],
     wf_related_providers = [''notion'']\<rparr>"

definition wf_create_issue_github :: workflow where
  "wf_create_issue_github = \<lparr>wf_intent = ''create_issue_github'', wf_provider = ''github'',
     wf_steps =
       [(template 1 Reasoner) \<lparr>st_type := Llm_reasoning, st_tool := ''github_validator'', st_call := ''github_validator'',
            st_can_spawn := True, st_max_spawned_steps := Some 3, st_trust_level := Some Trusted,
            st_policy_ref := Some ''policy-github'',
            st_reasoning_config := model_config ''claude-sonnet-4-5-20250929'' 0 1024 ''Validate GitHub issue creation parameters.''\<rparr>,
        (template 2 Resolver) \<lparr>st_type := Api, st_tool := ''system.confirm'', st_call := ''system.confirm'',
            st_gate_id := Some ''gate-confirm'', st_context_from := [1], st_after := [1]\<rparr>,
        (template 3 Booker) \<lparr>st_type := Api, st_tool := ''GITHUB_ISSUES_CREATE'', st_call := ''GITHUB_ISSUES_CREATE'',
            st_timeout_s := 60, st_gate_id := Some ''gate-execute'', st_after := [2],
            st_args_template := Some [(''title'', JStr ''{{entities.title}}''), (''body'', JStr ''{{entities.body}}''), (''repo'', JStr ''{{entities.repo}}''), (''labels'', JStr ''{{entities.labels}}''), (''assignees'', JStr ''{{entities.assignees}}'')]\<rparr>],
     wf_entities =
       [(entity ''title'' ''Issue title'')
          \<lparr>en_required := True, en_tool_param := Some ''title'', en_example := ''Fix login button on mobile''\<rparr>,
        (entity ''body'' ''Issue description'')
          \<lparr>en_required := False, en_aliases := [''description'', ''content''], en_tool_param := Some ''body'',
            en_example := ''The login button is not visible on iOS Safari...''\<rparr>,
        (entity ''repo'' ''Repository (owner/name)'')
          \<lparr>en_required := True, en_aliases := [''repository''], en_tool_param := Some ''repo'',
            en_unit := ''owner/repo'', en_example := ''acme/web-app''\<rparr>,
        (entity ''labels'' ''Issue labels'')
          \<lparr>en_required := False, en_tool_param := Some ''labels'', en_example := ''bug, priority:high''\<rparr>,
        (entity ''assignees'' ''Issue assignees'')
          \<lparr>en_required := False, en_tool_param := Some ''assignees'', en_unit := ''GitHub usernames'',
            en_example := ''alice, bob''\<rparr>],
     wf_related_actions = [''CREATE_ISSUE'', ''ISSUES_CREATE''],
     wf_related_providers = [''github'']\<rparr>"

definition wf_list_issues_github :: workflow where
  "wf_list_issues_github = \<lparr>wf_intent = ''list_issues_github'', wf_provider = ''github'',
     wf_steps =
       [(template 1 Fetcher) \<lparr>st_type := Api, st_tool := ''GITHUB_ISSUES_LIST'', st_call := ''GITHUB_ISSUES_LIST'', st_timeout_s := 30\<rparr>,
        (template 2 Reasoner) \<lparr>st_type := Llm_reasoning, st_tool := ''github_summarizer'', st_call := ''github_summarizer'',
            st_context_from := [1], st_after := [1], st_policy_ref := Some ''policy-readonly'',
            st_reasoning_config := model_config ''claude-sonnet-4-5-20250929'' 0 1024 ''Summarize the GitHub issues for the user.''\<rparr>],
     wf_entities =
       [(entity ''repo'' ''Repository (owner/name)'')
          \<lparr>en_required := True, en_aliases := [''repository''], en_tool_param := Some ''repo'',
            en_unit := ''owner/repo'', en_example := ''acme/web-app''\<rparr>,
        (entity ''state'' ''Issue state filter (open/closed)'')
          \<lparr>en_required := False, en_aliases := [''status''], en_tool_param := Some ''state'', en_example := ''open''\<rparr>,
        (entity ''labels'' ''Filter by labels'')
          \<lparr>en_required := False, en_tool_param := Some ''labels'', en_example := ''bug''\<rparr>],
     wf_related_actions = [''ISSUES_LIST'', ''LIST_ISSUES''],
     wf_related_providers = [''github'']\<rparr>"

definition wf_create_pr_github :: workflow where
  "wf_create_pr_github = \<lparr>wf_intent = ''create_pr_github'', wf_provider = ''github'',
     wf_steps =
       [(template 1 Reasoner) \<lparr>st_type := Llm_reasoning, st_tool := ''github_validator'', st_call := ''github_validator'',
            st_can_spawn := True, st_max_spawned_steps := Some 3, st_trust_level := Some Trusted,
            st_policy_ref := Some ''policy-github'',
            st_reasoning_config := model_config ''claude-sonnet-4-5-20250929'' 0 1024 ''Validate GitHub pull request creation parameters.''\<rparr>,
        (template 2 Resolver) \<lparr>st_type := Api, st_tool := ''system.confirm'', st_call := ''system.confirm'',
            st_gate_id := Some ''gate-confirm'', st_context_from := [1], st_after := [1]\<rparr>,
        (template 3 Booker) \<lparr>st_type := Api, st_tool := ''GITHUB_PULLS_CREATE'', st_call := ''GITHUB_PULLS_CREATE'',
            st_timeout_s := 60, st_gate_id := Some ''gate-execute'', st_after := [2],
            st_args_template := Some [(''title'', JStr ''{{entities.title}}''), (''body'', JStr ''{{entities.body}}''), (''repo'', JStr ''{{entities.repo}}''), (''head'', JStr ''{{entities.head}}''), (''base'', JStr ''{{entities.base}}'')]\<rparr>],
     wf_entities =
       [(entity ''title'' ''Pull request title'')
          \<lparr>en_required := True, en_tool_param := Some ''title'', en_example := ''Add user authentication''\<rparr>,
        (entity ''body'' ''Pull request description'')
          \<lparr>en_required := False, en_aliases := [''description''], en_tool_param := Some ''body'',
            en_example := ''Implements OAuth2 login flow...''\<rparr>,
        (entity ''repo'' ''Repository (owner/name)'')
          \<lparr>en_required := True, en_aliases := [''repository''], en_tool_param := Some ''repo'',
            en_unit := ''owner/repo'', en_example := ''acme/web-app''\<rparr>,
        (entity ''head'' ''Source branch'')
          \<lparr>en_required := True, en_aliases := [''branch'', ''source_branch''], en_tool_param := Some ''head'',
            en_unit := ''branch name'', en_example := ''feat/auth''\<rparr>,
        (entity ''base'' ''Target branch'')
          \<lparr>en_required := False, en_aliases := [''target_branch''], en_tool_param := Some ''base'',
            en_unit := ''branch name'', en_example := ''main''\<rparr>],
     wf_related_actions = [''CREATE_PULL_REQUEST'', ''PULLS_CREATE''],
     wf_related_providers = [''github'']\<rparr>"

definition wf_list_prs_github :: workflow where
  "wf_list_prs_github = \<lparr>wf_intent = ''list_prs_github'', wf_provider = ''github'',
     wf_steps =
       [(template 1 Fetcher) \<lparr>st_type := Api, st_tool := ''GITHUB_PULLS_LIST'', st_call := ''GITHUB_PULLS_LIST'', st_timeout_s := 30\<rparr>,
        (template 2 Reasoner) \<lparr>st_type := Llm_reasoning, st_tool := ''github_summarizer'', st_call := ''github_summarizer'',
            st_context_from := [1], st_after := [1], st_policy_ref := Some ''policy-readonly'',
            st_reasoning_config := model_config ''claude-sonnet-4-5-20250929'' 0 1024 ''Summarize the GitHub pull requests for the user.''\<rparr>],
     wf_entities =
       [(entity ''repo'' ''Repository (owner/name)'')
          \<lparr>en_required := True, en_aliases := [''repository''], en_tool_param := Some ''repo'',
            en_unit := ''owner/repo'', en_example := ''acme/web-app''\<rparr>,
        (entity ''state'' ''PR state filter (open/closed)'')
          \<lparr>en_required := False, en_aliases := [''status''], en_tool_param := Some ''state'', en_example := ''open''\<rparr>],
     wf_related_actions = [''PULLS_LIST'', ''LIST_PULL_REQUESTS''],
     wf_related_providers = [''github'']\<rparr>"

definition wf_send_message_slack :: workflow where
  "wf_send_message_slack = \<lparr>wf_intent = ''send_message_slack'', wf_provider = ''slack'',
     wf_steps =
       [(template 1 Reasoner) \<lparr>st_type := Llm_reasoning, st_tool := ''slack_validator'', st_call := ''slack_validator'',
            st_can_spawn := True, st_max_spawned_steps := Some 3, st_trust_level := Some Trusted,
            st_policy_ref := Some ''policy-slack'',
            st_reasoning_config := model_config ''claude-sonnet-4-5-20250929'' 0 1024 ''Validate Slack message content and channel before sending.''\<rparr>,
        (template 2 Resolver) \<lparr>st_type := Api, st_tool := ''system.confirm'', st_call := ''system.confirm'',
            st_gate_id := Some ''gate-confirm'', st_context_from := [1], st_after := [1]\<rparr>,
        (template 3 Booker) \<lparr>st_type := Api, st_tool := ''SLACK_SENDS_A_MESSAGE_TO_A_SLACK_CHANNEL'',
            st_call := ''SLACK_SENDS_A_MESSAGE_TO_A_SLACK_CHANNEL'', st_timeout_s := 60,
            st_gate_id := Some ''gate-execute'', st_after := [2],
            st_args_template := Some [(''channel'', JStr ''{{entities.channel}}''), (''text'', JStr ''{{entities.message}}'')]\<rparr>],
     wf_entities =
       [(entity ''channel'' ''Slack channel to send message to'')
          \<lparr>en_required := True, en_aliases := [''to'', ''channel_name'', ''room''],
            en_tool_param := Some ''channel'', en_unit := ''channel name'', en_example := ''#general''\<rparr>,
        (entity ''message'' ''Message content'')
          \<lparr>en_required := True, en_aliases := [''text'', ''content'', ''body''], en_tool_param := Some ''text'',
            en_example := ''Hey team, standup in 5 min!''\<rparr>],
     wf_related_actions = [''SENDS_A_MESSAGE'', ''CHAT_POST_MESSAGE''],
     wf_related_providers = [''slack'']\<rparr>"

definition wf_search_messages_slack :: workflow where
  "wf_search_messages_slack = \<lparr>wf_intent = ''search_messages_slack'', wf_provider = ''slack'',
     wf_steps =
       [(template 1 Fetcher) \<lparr>st_type := Api, st_tool := ''SLACK_SEARCH_FOR_MESSAGES_IN_SLACK'',
            st_call := ''SLACK_SEARCH_FOR_MESSAGES_IN_SLACK'', st_timeout_s := 30\<rparr>,
        (template 2 Reasoner) \<lparr>st_type := Llm_reasoning, st_tool := ''slack_summarizer'', st_call := ''slack_summarizer'',
            st_context_from := [1], st_after := [1], st_policy_ref := Some ''policy-readonly'',
            st_reasoning_config := model_config ''claude-sonnet-4-5-20250929'' 0 1024 ''Summarize the Slack message search results for the user.''\<rparr>],
     wf_entities =
       [(entity ''query'' ''Search query for messages'')
          \<lparr>en_required := True, en_aliases := [''search'', ''keyword''], en_tool_param := Some ''query'',
            en_example := ''deployment update''\<rparr>,
        (entity ''channel'' ''Limit search to a specific channel'')
          \<lparr>en_required := False, en_aliases := [''in_channel''], en_tool_param := Some ''channel'',
            en_unit := ''channel name'', en_example := ''#engineering''\<rparr>],
     wf_related_actions = [''SEARCH_FOR_MESSAGES''],
     wf_related_providers = [''slack'']\<rparr>"

definition wf_list_channels_slack :: workflow where
  "wf_list_channels_slack = \<lparr>wf_intent = ''list_channels_slack'', wf_provider = ''slack'',
     wf_steps =
       [(template 1 Fetcher) \<lparr>st_type := Api, st_tool := ''SLACK_LIST_ALL_SLACK_TEAM_CHANNELS'',
            st_call := ''SLACK_LIST_ALL_SLACK_TEAM_CHANNELS'', st_timeout_s := 30\<rparr>,
        (template 2 Reasoner) \<lparr>st_type := Llm_reasoning, st_tool := ''slack_summarizer'', st_call := ''slack_summarizer'',
            st_context_from := [1], st_after := [1], st_policy_ref := Some ''policy-readonly'',
            st_reasoning_config := model_config ''claude-sonnet-4-5-20250929'' 0 1024 ''Summarize the Slack channel list for the user.''\<rparr>],
     wf_entities =
       [(entity ''limit'' ''Maximum number of channels to list'')
          \<lparr>en_required := False, en_aliases := [''count'', ''max_results''], en_tool_param := Some ''limit'',
            en_unit := ''count'', en_example := ''25''\<rparr>],
     wf_related_actions = [''LIST_ALL_SLACK_TEAM_CHANNELS''],
     wf_related_providers = [''slack'']\<rparr>"

definition provider_workflows :: "workflow list" where
  "provider_workflows =
     [wf_send_email_gmail, wf_schedule_meeting_google_calendar, wf_create_event_google_calendar, wf_draft_email_gmail,
      wf_read_email_gmail, wf_list_email_gmail, wf_search_email_gmail, wf_list_meetings_google_calendar,
      wf_check_calendar_google_calendar, wf_create_document_google_docs, wf_edit_document_google_docs,
      wf_upload_file_google_drive, wf_download_file_google_drive, wf_search_files_google_drive,
      wf_list_files_google_drive, wf_create_page_notion, wf_create_task_notion, wf_search_notion,
      wf_list_tasks_notion, wf_create_issue_github, wf_list_issues_github, wf_create_pr_github, wf_list_prs_github,
      wf_send_message_slack, wf_search_messages_slack, wf_list_channels_slack]"

section \<open>Generic workflows\<close>

definition wf_send_email :: workflow where
  "wf_send_email = \<lparr>wf_intent = ''send_email'', wf_provider = ''generic'',
     wf_steps =
       [(template 1 Reasoner) \<lparr>st_type := Llm_reasoning, st_tool := ''email_validator'', st_call := ''email_validator'',
            st_can_spawn := True, st_max_spawned_steps := Some 3, st_trust_level := Some Trusted,
            st_policy_ref := Some ''policy-email'',
            st_reasoning_config := model_config ''claude-sonnet-4-5-20250929'' 0 1024 ''Validate email content and recipients before sending.''\<rparr>,
        (template 2 Resolver) \<lparr>st_type := Api, st_tool := ''system.confirm'', st_call := ''system.confirm'',
            st_gate_id := Some ''gate-confirm'', st_context_from := [1], st_after := [1]\<rparr>,
        (template 3 Booker) \<lparr>st_type := Api, st_tool := [], st_call := [], st_timeout_s := 60, st_gate_id := Some ''gate-execute'',
            st_after := [2]\<rparr>],
     wf_entities =
       [(entity ''recipient'' ''Who to send the email to'')
          \<lparr>en_required := True, en_aliases := [''to'', ''attendee'', ''attendee_email''],
            en_unit := ''email address'', en_example := ''alice@company.com''\<rparr>,
        (entity ''subject'' ''Email subject line'')
          \<lparr>en_required := True, en_aliases := [''email_subject''], en_example := ''Quick sync on project timeline''\<rparr>,
        (entity ''body'' ''Email body content'')
          \<lparr>en_required := True, en_aliases := [''content'', ''message'', ''email_body''],
            en_example := ''Hi, just wanted to follow up on...''\<rparr>],
     wf_related_actions = [],
     wf_related_providers = []\<rparr>"

definition wf_list_email :: workflow where
  "wf_list_email = \<lparr>wf_intent = ''list_email'', wf_provider = ''generic'',
     wf_steps =
       [(template 1 Fetcher) \<lparr>st_type := Api, st_tool := [], st_call := [], st_timeout_s := 30\<rparr>,
        (template 2 Reasoner) \<lparr>st_type := Llm_reasoning, st_tool := ''email_summarizer'', st_call := ''email_summarizer'',
            st_context_from := [1], st_after := [1], st_policy_ref := Some ''policy-readonly'',
            st_reasoning_config := model_config ''claude-sonnet-4-5-20250929'' 0 1024 ''Summarize the email list for the user.''\<rparr>],
     wf_entities =
       [(entity ''query'' ''Email search query or filter'')
          \<lparr>en_required := False, en_aliases := [''search'', ''filter''], en_example := ''is:unread''\<rparr>,
        (entity ''limit'' ''Maximum number of emails to list'')
          \<lparr>en_required := False, en_aliases := [''max_results'', ''count''], en_unit := ''count'',
            en_example := ''10''\<rparr>],
     wf_related_actions = [],
     wf_related_providers = []\<rparr>"

definition wf_schedule_meeting :: workflow where
  "wf_schedule_meeting = \<lparr>wf_intent = ''schedule_meeting'', wf_provider = ''generic'',
     wf_steps =
       [(template 1 Fetcher) \<lparr>st_type := Api, st_tool := [], st_call := [], st_timeout_s := 30\<rparr>,
        (template 2 Reasoner) \<lparr>st_type := Llm_reasoning, st_tool := ''calendar_conflict_resolver'',
            st_call := ''calendar_conflict_resolver'', st_context_from := [1], st_after := [1], st_can_spawn := True,
            st_max_spawned_steps := Some 3, st_trust_level := Some Trusted,
            st_policy_ref := Some ''policy-scheduling'',
            st_reasoning_config := model_config ''claude-sonnet-4-5-20250929'' 0 1024 ''Analyze calendar events for conflicts and recommend optimal meeting time.''\<rparr>,
        (template 3 Resolver) \<lparr>st_type := Api, st_tool := ''system.confirm'', st_call := ''system.confirm'',
            st_gate_id := Some ''gate-confirm'', st_context_from := [2], st_after := [2]\<rparr>,
        (template 4 Booker) \<lparr>st_type := Api, st_tool := [], st_call := [], st_timeout_s := 60, st_gate_id := Some ''gate-execute'',
            st_after := [3]\<rparr>],
     wf_entities =
       [(entity ''attendee'' ''Who should attend the meeting'')
          \<lparr>en_required := True, en_aliases := [''attendees'', ''participant'', ''with''],
            en_unit := ''name or email'', en_example := ''alice@company.com''\<rparr>,
        (entity ''date_time'' ''When to schedule the meeting'')
          \<lparr>en_required := True,
            en_aliases := [''start_time'', ''time'', ''when'', ''date'', ''meeting_date'', ''meeting_time'', ''start'', ''schedule_date'', ''start_date''],
            en_unit := ''date and time'', en_example := ''2026-05-02T14:00''\<rparr>,
        (entity ''title'' ''What the meeting is about'')
          \<lparr>en_required := True,
            en_aliases := [''subject'', ''summary'', ''description'', ''topic'', ''agenda'', ''meeting_title''],
            en_example := ''Weekly sync''\<rparr>,
        (entity ''duration'' ''How long the meeting should be'')
          \<lparr>en_required := False, en_aliases := [''duration_minutes'', ''length'', ''meeting_duration'', ''minutes''],
            en_default_preference_key := Some ''meeting_duration_min'', en_unit := ''minutes'', en_example := ''30''\<rparr>,
        (entity ''timezone'' ''Timezone for the meeting'')
          \<lparr>en_required := True, en_aliases := [''tz'', ''time_zone''],
            en_default_preference_key := Some ''timezone'', en_unit := ''IANA timezone'',
            en_example := ''Asia/Kolkata''\<rparr>],
     wf_related_actions = [],
     wf_related_providers = []\<rparr>"

definition wf_list_meetings :: workflow where
  "wf_list_meetings = \<lparr>wf_intent = ''list_meetings'', wf_provider = ''generic'',
     wf_steps =
       [(template 1 Fetcher) \<lparr>st_type := Api, st_tool := [], st_call := [], st_timeout_s := 30\<rparr>,
        (template 2 Reasoner) \<lparr>st_type := Llm_reasoning, st_tool := ''meeting_summarizer'', st_call := ''meeting_summarizer'',
            st_context_from := [1], st_after := [1], st_policy_ref := Some ''policy-readonly'',
            st_reasoning_config := model_config ''claude-sonnet-4-5-20250929'' 0 1024 ''Summarize the calendar events for the user.''\<rparr>],
     wf_entities =
       [(entity ''date_range'' ''Time range to list meetings for'')
          \<lparr>en_required := False, en_aliases := [''date'', ''when'', ''period'', ''timeframe''],
            en_example := ''this week''\<rparr>],
     wf_related_actions = [],
     wf_related_providers = []\<rparr>"

definition wf_create_task :: workflow where
  "wf_create_task = \<lparr>wf_intent = ''create_task'', wf_provider = ''generic'',
     wf_steps =
       [(template 1 Fetcher) \<lparr>st_type := Api, st_tool := [], st_call := [], st_timeout_s := 30\<rparr>,
        (template 2 Reasoner) \<lparr>st_type := Llm_reasoning, st_tool := ''task_validator'', st_call := ''task_validator'',
            st_context_from := [1], st_after := [1], st_can_spawn := True, st_max_spawned_steps := Some 3,
            st_trust_level := Some Trusted, st_policy_ref := Some ''policy-tasks'',
            st_reasoning_config := model_config ''claude-sonnet-4-5-20250929'' 0 1024 ''Validate task creation parameters.''\<rparr>,
        (template 3 Resolver) \<lparr>st_type := Api, st_tool := ''system.confirm'', st_call := ''system.confirm'',
            st_gate_id := Some ''gate-confirm'', st_context_from := [2], st_after := [2]\<rparr>,
        (template 4 Booker) \<lparr>st_type := Api, st_tool := [], st_call := [], st_timeout_s := 60, st_gate_id := Some ''gate-execute'',
            st_after := [3]\<rparr>],
     wf_entities =
       [(entity ''title'' ''Task name'')
          \<lparr>en_required := True, en_aliases := [''task_name'', ''name''], en_example := ''Review PR #42''\<rparr>,
        (entity ''status'' ''Task status'')
          \<lparr>en_required := False, en_example := ''To Do''\<rparr>,
        (entity ''due_date'' ''Task deadline'')
          \<lparr>en_required := False, en_aliases := [''deadline''], en_example := ''next Friday''\<rparr>,
        (entity ''assignee'' ''Person assigned to the task'')
          \<lparr>en_required := False, en_unit := ''name or email'', en_example := ''Alice''\<rparr>],
     wf_related_actions = [],
     wf_related_providers = []\<rparr>"

definition wf_search_files :: workflow where
  "wf_search_files = \<lparr>wf_intent = ''search_files'', wf_provider = ''generic'',
     wf_steps =
       [(template 1 Fetcher) \<lparr>st_type := Api, st_tool := [], st_call := [], st_timeout_s := 30\<rparr>,
        (template 2 Reasoner) \<lparr>st_type := Llm_reasoning, st_tool := ''file_summarizer'', st_call := ''file_summarizer'',
            st_context_from := [1], st_after := [1], st_policy_ref := Some ''policy-readonly'',
            st_reasoning_config := model_config ''claude-sonnet-4-5-20250929'' 0 1024 ''Summarize the file search results for the user.''\<rparr>],
     wf_entities =
       [(entity ''query'' ''Search query for files'')
          \<lparr>en_required := True, en_aliases := [''search'', ''keyword''], en_example := ''meeting notes''\<rparr>],
     wf_related_actions = [],
     wf_related_providers = []\<rparr>"

definition generic_workflows :: "workflow list" where
  "generic_workflows =
     [wf_send_email, wf_list_email, wf_schedule_meeting, wf_list_meetings, wf_create_task, wf_search_files]"

definition all_workflows :: "workflow list" where
  "all_workflows = provider_workflows @ generic_workflows"

end
