(* ===== verification/Workflow_Registry.thy ===== *)
theory Workflow_Registry
  imports Workflow_Data Py_Regex "HOL-Library.List_Lexorder" "HOL-Library.Char_ord"
begin

text \<open>
  The lookups and the composition of \<open>Planner/adapters/workflow_registry.py\<close>. A dictionary built over
  the workflows is built by \<open>dict_of\<close>, entry by entry, so a repeated key keeps its first place and its
  last value. A compound intent becomes one sequence of step templates: each workflow is renumbered by
  the number of steps before it and its first step waits for the last step of the workflow before.
\<close>

section \<open>Lookups\<close>

definition dict_of :: "('k \<times> 'v) list \<Rightarrow> ('k, 'v) dict" where
  "dict_of es = fold (\<lambda>(k, v). dict_set k v) es []"

definition workflow_by_intent :: "(string, workflow) dict" where
  "workflow_by_intent = dict_of (map (\<lambda>w. (wf_intent w, w)) all_workflows)"

definition get_workflow :: "string \<Rightarrow> workflow option" where
  "get_workflow i = dict_get workflow_by_intent i"

definition has_workflow :: "string \<Rightarrow> bool" where
  "has_workflow i \<longleftrightarrow> i \<in> set (dict_keys workflow_by_intent)"

definition get_all_intents :: "string list" where
  "get_all_intents = dict_keys workflow_by_intent"

definition is_system :: "string \<Rightarrow> bool" where
  "is_system t \<longleftrightarrow> starts_with ''system.'' t"

definition workflow_tools :: "workflow \<Rightarrow> string list" where
  "workflow_tools w = map st_tool (filter (\<lambda>s. st_type s = Api \<and> st_tool s \<noteq> [] \<and> \<not> is_system (st_tool s)) (wf_steps w))"

definition entity_entry :: "entity_definition \<Rightarrow> jobj" where
  "entity_entry e = [(''name'', JStr (en_name e)), (''description'', JStr (en_description e)), (''required'', JBool (en_required e)),
     (''default_preference_key'', jopt JStr (en_default_preference_key e)), (''aliases'', JArr (map JStr (en_aliases e)))]"

definition get_entity_map :: "(string, string list \<times> jobj list) dict" where
  "get_entity_map = dict_of (map (\<lambda>w. (wf_intent w, (workflow_tools w, map entity_entry (wf_entities w)))) all_workflows)"

definition get_provider_map :: "(string, string list) dict" where
  "get_provider_map = dict_of (map (\<lambda>w. (wf_intent w, wf_related_providers w)) all_workflows)"

definition get_action_map :: "(string, string list) dict" where
  "get_action_map = dict_of (map (\<lambda>w. (wf_intent w, wf_related_actions w)) all_workflows)"

definition workflow_aliases :: "workflow \<Rightarrow> (string, string) dict" where
  "workflow_aliases w = dict_of (concat (map (\<lambda>e. map (\<lambda>a. (a, en_name e)) (en_aliases e)) (wf_entities w)))"

definition get_alias_map :: "(string, (string, string) dict) dict" where
  "get_alias_map = dict_of (map (\<lambda>w. (wf_intent w, workflow_aliases w)) (filter (\<lambda>w. workflow_aliases w \<noteq> []) all_workflows))"

section \<open>Entity references\<close>

text \<open>\<open>findall\<close> of \<open>{{entities.(name)}}\<close>: the names, from left to right.\<close>

definition is_word_char :: "char \<Rightarrow> bool" where
  "is_word_char c \<longleftrightarrow> in_ranges word_ranges c"

definition entity_ref_at :: "string \<Rightarrow> (string \<times> string) option" where
  "entity_ref_at s =
     (if starts_with ''{{entities.'' s then
        (let rest = drop 11 s; name = takeWhile is_word_char rest; after = drop (length name) rest in
         if name \<noteq> [] \<and> starts_with ''}}'' after then Some (name, drop 2 after) else None)
      else None)"

primrec entity_refs :: "nat \<Rightarrow> string \<Rightarrow> string list" where
  "entity_refs 0 s = []"
| "entity_refs (Suc n) s = (case entity_ref_at s of Some (name, rest) \<Rightarrow> name # entity_refs n rest
     | None \<Rightarrow> (case s of [] \<Rightarrow> [] | _ # s' \<Rightarrow> entity_refs n s'))"

definition parse_entity_refs :: "jobj option \<Rightarrow> string list" where
  "parse_entity_refs args = (case args of None \<Rightarrow> []
     | Some d \<Rightarrow> sort (remdups (concat (map (\<lambda>(k, v). case v of JStr s \<Rightarrow> entity_refs (length s) s | _ \<Rightarrow> []) d))))"

section \<open>Decomposition\<close>

definition decompose_intent :: "string \<Rightarrow> workflow list option" where
  "decompose_intent i = (case get_workflow i of Some w \<Rightarrow> Some [w]
     | None \<Rightarrow>
        (let found = List.map_filter (\<lambda>(k, w). map_option (\<lambda>n. (n, w)) (find_sub k i)) workflow_by_intent in
         if found = [] then None else Some (map snd (sort_key fst found))))"

section \<open>Composition\<close>

text \<open>Renumbering of \<open>{{step_N.\<close>: the digits are read as a number and written back after the mapping.\<close>

definition step_ref_at :: "string \<Rightarrow> (nat \<times> string) option" where
  "step_ref_at s =
     (if starts_with ''{{step_'' s then
        (let rest = drop 7 s; ds = takeWhile is_digit rest; after = drop (length ds) rest in
         if ds \<noteq> [] \<and> starts_with ''.'' after then Some (read_nat ds, drop 1 after) else None)
      else None)"

primrec renumber_text :: "nat \<Rightarrow> (int \<Rightarrow> int option) \<Rightarrow> string \<Rightarrow> string" where
  "renumber_text 0 f s = s"
| "renumber_text (Suc n) f s = (case step_ref_at s of
       Some (k, rest) \<Rightarrow> ''{{step_'' @ show_int (case f (int k) of Some m \<Rightarrow> m | None \<Rightarrow> int k) @ ''.'' @ renumber_text n f rest
     | None \<Rightarrow> (case s of [] \<Rightarrow> [] | c # s' \<Rightarrow> c # renumber_text n f s'))"

definition renumber_template_refs :: "(int \<Rightarrow> int option) \<Rightarrow> jobj \<Rightarrow> jobj" where
  "renumber_template_refs f args = map (\<lambda>(k, v). (k, case v of JStr s \<Rightarrow> JStr (renumber_text (length s) f s) | _ \<Rightarrow> v)) args"

definition renumber :: "workflow \<Rightarrow> int \<Rightarrow> int \<Rightarrow> int option" where
  "renumber w offset n = (if n \<in> st_step ` set (wf_steps w) then Some (n + offset) else None)"

text \<open>One step: \<open>prev\<close> is the last step of the workflow before, for the first step only.\<close>

definition compose_step :: "(int \<Rightarrow> int option) \<Rightarrow> int \<Rightarrow> int option \<Rightarrow> step_template \<Rightarrow> step_template" where
  "compose_step f offset prev s =
     (let after = List.map_filter f (st_after s) in
      s \<lparr>st_step := st_step s + offset,
         st_after := (case prev of Some p \<Rightarrow> if p \<in> set after then after else p # after | None \<Rightarrow> after),
         st_context_from := List.map_filter f (st_context_from s),
         st_args_template := (case st_args_template s of None \<Rightarrow> None
           | Some a \<Rightarrow> if a = [] then Some a else Some (renumber_template_refs f a))\<rparr>)"

definition compose_one :: "int option \<Rightarrow> int \<Rightarrow> workflow \<Rightarrow> step_template list" where
  "compose_one prev offset w = (case wf_steps w of [] \<Rightarrow> []
     | s # ss \<Rightarrow> compose_step (renumber w offset) offset prev s # map (compose_step (renumber w offset) offset None) ss)"

fun compose_from :: "int option \<Rightarrow> int \<Rightarrow> workflow list \<Rightarrow> step_template list" where
  "compose_from prev offset [] = []"
| "compose_from prev offset (w # ws) =
     compose_one prev offset w @
     compose_from (if wf_steps w = [] then prev else Some (st_step (last (wf_steps w)) + offset))
       (offset + int (length (wf_steps w))) ws"

definition combined_tools :: "workflow list \<Rightarrow> string list" where
  "combined_tools ws = nub_first (filter (\<lambda>t. t \<noteq> []) (concat (map (\<lambda>w. map st_tool (wf_steps w)) ws)))"

definition compose_workflows :: "workflow list \<Rightarrow> step_template list \<times> string list" where
  "compose_workflows ws = (compose_from None 0 ws, combined_tools ws)"

definition merge_entity :: "(string, entity_definition) dict \<Rightarrow> entity_definition \<Rightarrow> (string, entity_definition) dict" where
  "merge_entity seen e = (case dict_get seen (en_name e) of
       None \<Rightarrow> dict_set (en_name e) e seen
     | Some x \<Rightarrow> if en_required e \<and> \<not> en_required x then dict_set (en_name e) e seen else seen)"

definition merge_entity_requirements :: "workflow list \<Rightarrow> entity_definition list" where
  "merge_entity_requirements ws = map snd (foldl merge_entity [] (concat (map wf_entities ws)))"

end
