(* ===== verification/Workflow_Order.thy ===== *)
theory Workflow_Order
  imports Workflow_Registry
begin

text \<open>
  Well-formed workflows. \<open>ordered_from\<close> is the shape of a step sequence the rest of the planner relies
  on: consecutive numbers, and every reference points to an earlier step. The registered workflows
  have it, and composing workflows that have it gives a sequence that has it.
\<close>

section \<open>Ordered step sequences\<close>

definition refs_before :: "int \<Rightarrow> step_template \<Rightarrow> bool" where
  "refs_before low s \<longleftrightarrow> list_all (\<lambda>d. low < d \<and> d < st_step s) (st_after s @ st_context_from s)"

primrec ordered_from :: "int \<Rightarrow> int \<Rightarrow> step_template list \<Rightarrow> bool" where
  "ordered_from low n [] \<longleftrightarrow> True"
| "ordered_from low n (s # ss) \<longleftrightarrow> st_step s = n + 1 \<and> refs_before low s \<and> ordered_from low (n + 1) ss"

text \<open>What \<open>PlanStep\<close> and the business rules ask of a step, as far as a template decides it.\<close>

definition booker_gate :: string where "booker_gate = ''gate-execute''"

definition step_sound :: "step_template \<Rightarrow> bool" where
  "step_sound s \<longleftrightarrow>
     (st_role s = Booker \<longrightarrow> st_gate_id s = Some booker_gate) \<and>
     (st_type s = Llm_reasoning \<longrightarrow> st_reasoning_config s \<noteq> None \<and> st_policy_ref s \<noteq> None) \<and>
     st_type s \<in> {Api, Llm_reasoning} \<and> st_trust_level s \<noteq> Some Untrusted_input \<and>
     (st_type s \<noteq> Api \<longrightarrow> st_tool s \<noteq> [] \<and> st_call s \<noteq> []) \<and>
     5 \<le> st_timeout_s s \<and> st_timeout_s s \<le> 3600 \<and>
     (case st_max_spawned_steps s of None \<Rightarrow> True | Some n \<Rightarrow> 1 \<le> n \<and> n \<le> 10) \<and>
     (case st_reasoning_config s of None \<Rightarrow> True | Some c \<Rightarrow> reasoning_config_ok c)"

definition refs_declared :: "workflow \<Rightarrow> bool" where
  "refs_declared w \<longleftrightarrow> list_all (\<lambda>s. list_all (\<lambda>r. r \<in> set (map en_name (wf_entities w)))
     (parse_entity_refs (st_args_template s))) (wf_steps w)"

definition workflow_ok :: "workflow \<Rightarrow> bool" where
  "workflow_ok w \<longleftrightarrow> wf_steps w \<noteq> [] \<and> ordered_from 0 0 (wf_steps w) \<and> list_all step_sound (wf_steps w)"

lemma registered_ok: "list_all workflow_ok all_workflows"
  by code_simp

lemma registered_refs: "list_all refs_declared all_workflows"
  by code_simp

text \<open>Every registered workflow is well formed: its steps are numbered from 1 without gaps and refer to earlier steps
  only, every Booker waits for the execution gate, every reasoning step has a configuration and a policy, and its argument templates name only entities the workflow declares.\<close>

theorem registered_workflows_sound: "list_all (\<lambda>w. workflow_ok w \<and> refs_declared w) all_workflows"
  using registered_ok registered_refs by (simp add: list_all_iff)

section \<open>Composition keeps the order\<close>

lemma map_filter_renumber: "d' \<in> set (List.map_filter (renumber w offset) ds) \<Longrightarrow> d' - offset \<in> set ds"
  by (auto simp: List.map_filter_def renumber_def split: if_splits)

lemma compose_step_number [simp]: "st_step (compose_step f offset prev s) = st_step s + offset"
  by (simp add: compose_step_def Let_def)

lemma compose_step_sound: "step_sound (compose_step f offset prev s) = step_sound s"
  by (simp add: compose_step_def Let_def step_sound_def)

lemma compose_step_after:
  "set (st_after (compose_step f offset prev s)) = set_option prev \<union> set (List.map_filter f (st_after s))"
  by (auto simp: compose_step_def Let_def split: option.splits)

lemma compose_step_context:
  "st_context_from (compose_step f offset prev s) = List.map_filter f (st_context_from s)"
  by (simp add: compose_step_def Let_def)

lemma refs_before_compose:
  assumes "refs_before 0 s" "0 \<le> offset" "0 < st_step s" "\<And>p. prev = Some p \<Longrightarrow> 0 < p \<and> p \<le> offset"
  shows "refs_before 0 (compose_step (renumber w offset) offset prev s)"
proof -
  have inner: "0 < d - offset \<and> d - offset < st_step s"
    if "d \<in> set (List.map_filter (renumber w offset) ds)" "set ds \<subseteq> set (st_after s @ st_context_from s)" for d ds
    using map_filter_renumber [OF that(1)] that(2) assms(1)
    unfolding refs_before_def list_all_iff by (meson subsetD)
  have "0 < d \<and> d < st_step s + offset"
    if "d \<in> set (st_after (compose_step (renumber w offset) offset prev s))
        \<union> set (st_context_from (compose_step (renumber w offset) offset prev s))" for d
  proof (cases "prev = Some d")
    case True
    then show ?thesis using assms(3,4) by fastforce
  next
    case False
    with that have "d \<in> set (List.map_filter (renumber w offset) (st_after s)) \<or>
        d \<in> set (List.map_filter (renumber w offset) (st_context_from s))"
      by (auto simp: compose_step_after compose_step_context)
    then have "0 < d - offset \<and> d - offset < st_step s"
      using inner [of d "st_after s"] inner [of d "st_context_from s"] by auto
    then show ?thesis using assms(2) by linarith
  qed
  then show ?thesis by (auto simp: refs_before_def list_all_iff)
qed

lemma ordered_map_compose:
  assumes "ordered_from 0 n ss" "0 \<le> n" "0 \<le> offset"
  shows "ordered_from 0 (n + offset) (map (compose_step (renumber w offset) offset None) ss)"
  using assms(1,2)
proof (induction ss arbitrary: n)
  case (Cons s ss)
  from Cons.IH [of "n + 1"] Cons.prems
  have "ordered_from 0 (n + 1 + offset) (map (compose_step (renumber w offset) offset None) ss)" by simp
  with Cons.prems refs_before_compose [of s offset None w] assms(3) show ?case by (simp add: algebra_simps)
qed simp

lemma ordered_last: "ordered_from low n ss \<Longrightarrow> ss \<noteq> [] \<Longrightarrow> st_step (last ss) = n + int (length ss)"
  by (induction ss arbitrary: n) (auto simp: Let_def)

lemma ordered_append:
  "ordered_from low n (ss @ ts) \<longleftrightarrow> ordered_from low n ss \<and> ordered_from low (n + int (length ss)) ts"
  by (induction ss arbitrary: n) (auto simp: algebra_simps)

lemma length_compose_one [simp]: "length (compose_one prev offset w) = length (wf_steps w)"
  by (simp add: compose_one_def split: list.splits)

lemma compose_one_ordered:
  assumes "workflow_ok w" "0 \<le> offset" "\<And>p. prev = Some p \<Longrightarrow> 0 < p \<and> p \<le> offset"
  shows "ordered_from 0 offset (compose_one prev offset w)"
proof -
  from assms(1) obtain s ss where ss: "wf_steps w = s # ss" by (cases "wf_steps w") (auto simp: workflow_ok_def)
  with assms(1) have s: "st_step s = 1" "refs_before 0 s" "ordered_from 0 1 ss" by (auto simp: workflow_ok_def)
  from ordered_map_compose [OF s(3) _ assms(2), of w]
  have "ordered_from 0 (offset + 1) (map (compose_step (renumber w offset) offset None) ss)"
    by (simp add: add.commute)
  with s refs_before_compose [OF s(2) assms(2) _ assms(3)] show ?thesis
    by (simp add: compose_one_def ss add.commute)
qed

lemma compose_one_sound: "workflow_ok w \<Longrightarrow> list_all step_sound (compose_one prev offset w)"
  by (cases "wf_steps w") (auto simp: workflow_ok_def compose_one_def compose_step_sound list_all_iff)

lemma compose_from_ok:
  assumes "list_all workflow_ok ws" "0 \<le> offset" "\<And>p. prev = Some p \<Longrightarrow> 0 < p \<and> p \<le> offset"
  shows "ordered_from 0 offset (compose_from prev offset ws) \<and> list_all step_sound (compose_from prev offset ws)"
  using assms
proof (induction ws arbitrary: prev offset)
  case (Cons w ws)
  then have w: "workflow_ok w" by simp
  let ?n = "int (length (wf_steps w))"
  have ne: "wf_steps w \<noteq> []" and "ordered_from 0 0 (wf_steps w)" using w by (simp_all add: workflow_ok_def)
  then have last: "st_step (last (wf_steps w)) = ?n" using ordered_last by fastforce
  have pos: "0 < ?n" using ne by simp
  have rest: "ordered_from 0 (offset + ?n) (compose_from (Some (?n + offset)) (offset + ?n) ws)
      \<and> list_all step_sound (compose_from (Some (?n + offset)) (offset + ?n) ws)"
    by (rule Cons.IH) (use Cons.prems pos in \<open>simp_all add: add_pos_nonneg\<close>)
  have "ordered_from 0 offset (compose_one prev offset w)"
    by (rule compose_one_ordered [OF w Cons.prems(2,3)])
  with rest compose_one_sound [OF w] show ?case by (simp add: ne last ordered_append)
qed simp

lemma compose_workflows_ok:
  assumes "list_all workflow_ok ws"
  shows "ordered_from 0 0 (fst (compose_workflows ws))" "list_all step_sound (fst (compose_workflows ws))"
  using compose_from_ok [OF assms, of 0 None] by (simp_all add: compose_workflows_def)

section \<open>What the lookups return\<close>

lemma dict_of_entry: "dict_get (dict_of es) k = Some v \<Longrightarrow> (k, v) \<in> set es"
proof -
  have "dict_get (fold (\<lambda>(k, v). dict_set k v) es d) k = Some v \<Longrightarrow> (k, v) \<in> set es \<or> dict_get d k = Some v" for d
  proof (induction es arbitrary: d)
    case (Cons e es)
    obtain a b where "e = (a, b)" by (cases e)
    with Cons.prems Cons.IH [of "dict_set a b d"] show ?case by (auto split: if_splits)
  qed simp
  then show "dict_get (dict_of es) k = Some v \<Longrightarrow> (k, v) \<in> set es" by (fastforce simp: dict_of_def)
qed

lemma dict_of_values: "(k, v) \<in> set (dict_of es) \<Longrightarrow> (k, v) \<in> set es"
proof -
  have "dict_ok d \<Longrightarrow> dict_ok (fold (\<lambda>(k, v). dict_set k v) es d)" for d :: "('a \<times> 'b) list"
    by (induction es arbitrary: d) (auto intro: inv_intros)
  then have "distinct (map fst (dict_of es))" by (simp add: dict_of_def dict_ok_def)
  then show "(k, v) \<in> set (dict_of es) \<Longrightarrow> (k, v) \<in> set es" using dict_of_entry map_of_is_SomeI by metis
qed

lemma registered: "w \<in> set all_workflows \<Longrightarrow> workflow_ok w"
  using registered_ok by (simp add: list_all_iff)

lemma get_workflow_ok: "get_workflow i = Some w \<Longrightarrow> workflow_ok w"
  by (auto simp: get_workflow_def workflow_by_intent_def intro: registered dest!: dict_of_entry)

lemma decompose_intent_ok:
  assumes "decompose_intent i = Some ws"
  shows "list_all workflow_ok ws" "ws \<noteq> []"
proof -
  have "w \<in> set ws \<Longrightarrow> (\<exists>k. (k, w) \<in> set workflow_by_intent) \<or> get_workflow i = Some w" for w
    using assms
    by (auto simp: decompose_intent_def Let_def List.map_filter_def split: option.splits if_splits) blast
  then show "list_all workflow_ok ws"
    by (force simp: list_all_iff workflow_by_intent_def intro: get_workflow_ok registered dest!: dict_of_values)
  show "ws \<noteq> []"
    using assms by (auto simp: sort_key_Nil decompose_intent_def Let_def split: option.splits if_splits)
qed

end
