(* ===== verification/Mcp_Catalog.thy ===== *)
theory Mcp_Catalog
  imports Py_Strings
begin

text \<open>
  The tool catalog of \<open>shared/mcp/catalog.py\<close>: the reading of a \<open>tools/list\<close> answer, the refresh of
  the catalog from its servers (a failed server keeps the tools it had), the healing of the Composio
  configuration, the allow and block lists, and the resolution of a step's \<open>uses\<close> and \<open>call\<close> to a
  tool. What a server, the HTTP client or the environment answers is an argument of the operation
  that asks; times are microseconds.
\<close>

record tool_definition =
  td_name :: string
  td_server :: string
  td_provider :: string
  td_description :: string
  td_schema :: jobj

type_synonym tool_dict = "(string, tool_definition) dict"

record catalog =
  ct_tools :: tool_dict
  ct_last_refresh :: int

section \<open>Names\<close>

definition is_upper_ascii :: "char \<Rightarrow> bool" where
  "is_upper_ascii c \<longleftrightarrow> 65 \<le> (of_char c :: int) \<and> (of_char c :: int) \<le> 90"

definition is_lower_ascii :: "char \<Rightarrow> bool" where
  "is_lower_ascii c \<longleftrightarrow> 97 \<le> (of_char c :: int) \<and> (of_char c :: int) \<le> 122"

definition before_char :: "char \<Rightarrow> string \<Rightarrow> string" where
  "before_char c s = takeWhile (\<lambda>x. x \<noteq> c) s"

definition after_char :: "char \<Rightarrow> string \<Rightarrow> string" where
  "after_char c s = drop (Suc (length (before_char c s))) s"

text \<open>
  The two substitutions of \<open>_extract_provider_name\<close>. The first puts an underscore before the last
  capital of a run of at least two that a small letter follows, the second between a small letter or
  digit and a capital; both read the text once, from left to right.
\<close>

lemma length_tl_dropWhile: "length (tl (dropWhile P (c # cs))) \<le> length cs"
  using length_dropWhile_le [of P "c # cs"] by simp

function space_acronyms :: "string \<Rightarrow> string" where
  "space_acronyms [] = []"
| "space_acronyms (c # cs) =
     (let u = takeWhile is_upper_ascii (c # cs); rest = dropWhile is_upper_ascii (c # cs) in
      if 2 \<le> length u \<and> rest \<noteq> [] \<and> is_lower_ascii (hd rest)
      then butlast u @ ''_'' @ [last u, hd rest] @ space_acronyms (tl rest)
      else c # space_acronyms cs)"
  by pat_completeness auto

termination
proof (relation "measure length", goal_cases)
  case (2 c cs u rest)
  then show ?case using length_tl_dropWhile [of is_upper_ascii c cs] by simp
qed simp_all

fun space_words :: "string \<Rightarrow> string" where
  "space_words (c # d # cs) =
     (if (is_lower_ascii c \<or> is_digit c) \<and> is_upper_ascii d then c # CHR ''_'' # d # space_words cs
      else c # space_words (d # cs))"
| "space_words s = s"

definition provider_aliases :: "(string, string) dict" where
  "provider_aliases = [(''googlemeet'', ''googlecalendar'')]"

definition extract_provider_name :: "string \<Rightarrow> string" where
  "extract_provider_name t =
     (let name = lower (space_words (space_acronyms (before_char (CHR ''_'') t)))
      in case dict_get provider_aliases name of Some a \<Rightarrow> a | None \<Rightarrow> name)"

text \<open>\<open>re.sub(r"[...]+", r, s)\<close>: every run of characters in the set becomes \<open>r\<close>.\<close>

fun sub_runs :: "(char \<Rightarrow> bool) \<Rightarrow> string \<Rightarrow> bool \<Rightarrow> string \<Rightarrow> string" where
  "sub_runs P r inside [] = []"
| "sub_runs P r inside (c # cs) =
     (if P c then (if inside then [] else r) @ sub_runs P r True cs else c # sub_runs P r False cs)"

section \<open>Answers of \<open>tools/list\<close>\<close>

text \<open>One raw entry: name, description and schema, with \<open>get\<close>'s defaults already applied.\<close>

record raw_tool =
  rt_name :: string
  rt_description :: string
  rt_schema :: jobj

definition read_tools :: "string \<Rightarrow> raw_tool list \<Rightarrow> tool_definition list" where
  "read_tools server raws = map (\<lambda>r. \<lparr>td_name = rt_name r, td_server = server,
       td_provider = extract_provider_name (rt_name r), td_description = rt_description r, td_schema = rt_schema r\<rparr>)
     (filter (\<lambda>r. rt_name r \<noteq> []) raws)"

text \<open>\<open>_fetch_tools\<close>: a status of 400 or more and a JSON-RPC error raise.\<close>

record list_answer =
  la_status :: int
  la_rpc_error :: bool
  la_tools :: "raw_tool list"

definition fetch_tools :: "(string \<Rightarrow> list_answer option) \<Rightarrow> string \<Rightarrow> tool_definition list option" where
  "fetch_tools ask server = (case ask server of None \<Rightarrow> None
     | Some a \<Rightarrow> if la_status a \<ge> 400 \<or> la_rpc_error a then None else Some (read_tools server (la_tools a)))"

section \<open>Allow and block lists\<close>

definition listed :: "string \<Rightarrow> string list" where
  "listed raw = filter (\<lambda>t. t \<noteq> []) (map strip (split_on (CHR '','') raw))"

definition apply_filters :: "string \<Rightarrow> string \<Rightarrow> tool_dict \<Rightarrow> tool_dict" where
  "apply_filters allow block tools =
     (if strip allow \<noteq> [] then filter (\<lambda>(n, _). n \<in> set (listed (strip allow))) tools
      else if strip block \<noteq> [] then filter (\<lambda>(n, _). n \<notin> set (listed (strip block))) tools
      else tools)"

section \<open>Refresh\<close>

definition add_tools :: "tool_definition list \<Rightarrow> tool_dict \<Rightarrow> tool_dict" where
  "add_tools ts d = foldl (\<lambda>d t. dict_set (td_name t) t d) d ts"

text \<open>A server that fails keeps the tools the catalog had of it, unless the name is already taken.\<close>

definition keep_stale :: "tool_dict \<Rightarrow> string \<Rightarrow> tool_dict \<Rightarrow> tool_dict" where
  "keep_stale old server d = foldl (\<lambda>d (n, t).
     if td_server t = server \<and> dict_get d n = None then dict_set n t d else d) d old"

definition refresh_one :: "(string \<Rightarrow> list_answer option) \<Rightarrow> tool_dict \<Rightarrow> tool_dict \<Rightarrow> string \<Rightarrow> tool_dict" where
  "refresh_one ask old d server = (case fetch_tools ask server of Some ts \<Rightarrow> add_tools ts d | None \<Rightarrow> keep_stale old server d)"

definition refresh_servers ::
  "(string \<Rightarrow> list_answer option) \<Rightarrow> string list \<Rightarrow> string \<Rightarrow> string \<Rightarrow> int \<Rightarrow> catalog \<Rightarrow> catalog" where
  "refresh_servers ask servers allow block now ct =
     \<lparr>ct_tools = apply_filters allow block (foldl (refresh_one ask (ct_tools ct)) [] servers), ct_last_refresh = now\<rparr>"

definition refresh_server ::
  "(string \<Rightarrow> list_answer option) \<Rightarrow> string \<Rightarrow> string \<Rightarrow> string \<Rightarrow> int \<Rightarrow> catalog \<Rightarrow> catalog" where
  "refresh_server ask server allow block now ct =
     (case fetch_tools ask server of None \<Rightarrow> ct
      | Some ts \<Rightarrow> \<lparr>ct_tools = apply_filters allow block
            (add_tools ts (filter (\<lambda>(_, t). td_server t \<noteq> server) (ct_tools ct))), ct_last_refresh = now\<rparr>)"

subsection \<open>Composio\<close>

text \<open>
  \<open>_heal_mcp_auth_configs\<close>: \<open>config\<close> is the answer to the first request (None for an error or a
  status other than 200), \<open>valid\<close> whether a configuration answers below 400 (an exception counts as
  broken), \<open>patch\<close> whether the PATCH with the given identifiers answers 200. The result is whether
  something was healed and the identifiers that were sent.
\<close>

definition heal_auth_configs ::
  "string list option \<Rightarrow> (string \<Rightarrow> bool) \<Rightarrow> (string list \<Rightarrow> bool) \<Rightarrow> bool \<times> string list option" where
  "heal_auth_configs config valid patch = (case config of None \<Rightarrow> (False, None)
     | Some ids \<Rightarrow>
         (let broken = filter (\<lambda>i. \<not> valid i) ids; kept = filter (\<lambda>i. i \<notin> set broken) ids in
          if ids = [] \<or> broken = [] then (False, None) else (patch kept, Some kept)))"

text \<open>\<open>again\<close> is the second attempt, made only after a healing.\<close>

definition fetch_healed ::
  "tool_definition list option \<Rightarrow> bool \<Rightarrow> tool_definition list option \<Rightarrow> tool_definition list option" where
  "fetch_healed first healed again = (case first of Some ts \<Rightarrow> Some ts | None \<Rightarrow> if healed then again else None)"

definition refresh_composio ::
  "tool_definition list option \<Rightarrow> bool \<Rightarrow> tool_definition list option \<Rightarrow> string \<Rightarrow> string \<Rightarrow> int \<Rightarrow> catalog \<Rightarrow> catalog" where
  "refresh_composio first healed again allow block now ct =
     (case fetch_healed first healed again of None \<Rightarrow> ct
      | Some ts \<Rightarrow> \<lparr>ct_tools = apply_filters allow block (add_tools ts []), ct_last_refresh = now\<rparr>)"

definition refresh_user ::
  "bool \<Rightarrow> tool_definition list option \<Rightarrow> bool \<Rightarrow> tool_definition list option \<Rightarrow> tool_definition list" where
  "refresh_user composio first healed again =
     (if \<not> composio then [] else case fetch_healed first healed again of None \<Rightarrow> [] | Some ts \<Rightarrow> ts)"

definition needs_refresh :: "int \<Rightarrow> int \<Rightarrow> catalog \<Rightarrow> bool" where
  "needs_refresh ttl now ct \<longleftrightarrow> ct_last_refresh ct = 0 \<or> now - ct_last_refresh ct > ttl"

section \<open>Queries\<close>

definition get_tool :: "catalog \<Rightarrow> string \<Rightarrow> tool_definition option" where
  "get_tool ct n = dict_get (ct_tools ct) n"

definition get_tool_or_raise :: "catalog \<Rightarrow> string \<Rightarrow> string + tool_definition" where
  "get_tool_or_raise ct n = (case get_tool ct n of None \<Rightarrow> Inl n | Some t \<Rightarrow> Inr t)"

definition get_all_tools :: "catalog \<Rightarrow> tool_definition list" where
  "get_all_tools ct = map snd (ct_tools ct)"

definition get_tools_for_server :: "catalog \<Rightarrow> string \<Rightarrow> tool_definition list" where
  "get_tools_for_server ct s = filter (\<lambda>t. td_server t = s) (get_all_tools ct)"

definition get_tools_for_provider :: "catalog \<Rightarrow> string \<Rightarrow> tool_definition list" where
  "get_tools_for_provider ct p = filter (\<lambda>t. td_provider t = p) (get_all_tools ct)"

subsection \<open>\<open>resolve_tool\<close>\<close>

definition sep_char :: "char \<Rightarrow> bool" where
  "sep_char c \<longleftrightarrow> c = CHR ''.'' \<or> c = CHR ''-'' \<or> is_space c"

definition provider_part :: "string \<Rightarrow> string" where
  "provider_part uses = upper (sub_runs (\<lambda>c. sep_char c \<or> c = CHR ''_'') [] False uses)"

definition action_part :: "string \<Rightarrow> string" where
  "action_part call = upper (replace_char (CHR ''.'') ''_'' (replace_char (CHR ''-'') ''_'' call))"

definition normalized :: "string \<Rightarrow> string" where
  "normalized uses = upper (sub_runs sep_char ''_'' False uses)"

text \<open>\<open>call and call != uses\<close>.\<close>

definition own_call :: "string \<Rightarrow> string option \<Rightarrow> string option" where
  "own_call uses call = (case call of Some c \<Rightarrow> if c \<noteq> [] \<and> c \<noteq> uses then Some c else None | None \<Rightarrow> None)"

definition prefixed_names :: "string \<Rightarrow> string option \<Rightarrow> string list" where
  "prefixed_names uses call =
     (if starts_with ''GOOGLE'' (normalized uses) then []
      else [''GOOGLE'' @ normalized uses, ''GOOGLE_'' @ normalized uses]) @
     (case own_call uses call of None \<Rightarrow> []
      | Some c \<Rightarrow> if starts_with ''GOOGLE'' (provider_part uses) then []
          else [''GOOGLE'' @ provider_part uses @ ''_'' @ action_part c])"

definition loosely_named :: "string \<Rightarrow> string \<Rightarrow> bool" where
  "loosely_named nm name \<longleftrightarrow>
     upper name = nm \<or>
     (let act = (if CHR ''_'' \<in> set nm then after_char (CHR ''_'') nm else []);
          prov = before_char (CHR ''_'') nm
      in act \<noteq> [] \<and> ends_with (''_'' @ act) (upper name) \<and>
         contains_sub prov (upper (before_char (CHR ''_'') name)))"

definition candidate_names :: "string \<Rightarrow> string option \<Rightarrow> string list" where
  "candidate_names uses call =
     uses # (case own_call uses call of None \<Rightarrow> [] | Some c \<Rightarrow> [provider_part uses @ ''_'' @ action_part c]) @
     normalized uses # prefixed_names uses call"

primrec first_named :: "tool_dict \<Rightarrow> string list \<Rightarrow> tool_definition option" where
  "first_named d [] = None"
| "first_named d (n # ns) = (case dict_get d n of Some t \<Rightarrow> Some t | None \<Rightarrow> first_named d ns)"

definition resolve_tool :: "tool_dict \<Rightarrow> string \<Rightarrow> string option \<Rightarrow> tool_definition option" where
  "resolve_tool d uses call = (case first_named d (candidate_names uses call) of Some t \<Rightarrow> Some t
     | None \<Rightarrow> map_option snd (find (\<lambda>(n, _). loosely_named (normalized uses) n) d))"

end
