(* ===== verification/Deterministic_Planner.thy ===== *)
theory Deterministic_Planner
  imports Workflow_Order Mcp_Catalog Plan_Validator
begin

text \<open>
  \<open>Planner/adapters/deterministic_planner.py\<close>: a plan built from the registered workflows without a
  model. The plan identifier (a ULID) and the time stamp are arguments. Building a \<open>PlanStep\<close> or a
  \<open>Plan\<close> raises Pydantic's error when a field constraint fails: the value \<open>Inl Invalid_plan\<close>. The
  plugin list is made from a set; the model lists it in the order of the steps.
\<close>

datatype build_error = Invalid_plan

section \<open>Which intents are handled\<close>

definition can_handle_type :: "string \<Rightarrow> bool" where
  "can_handle_type i \<longleftrightarrow> has_workflow i \<or>
     (case decompose_intent i of None \<Rightarrow> False | Some ws \<Rightarrow> length ws \<ge> 1)"

definition can_handle :: "intent \<Rightarrow> bool" where
  "can_handle i \<longleftrightarrow> in_tool_overrides i = [] \<and>
     (in_sub_intents i \<noteq> [] \<and> list_all has_workflow (in_sub_intents i) \<or> can_handle_type (in_intent i))"

primrec get_workflows :: "string list \<Rightarrow> workflow list option" where
  "get_workflows [] = Some []"
| "get_workflows (i # is) = (case get_workflow i of None \<Rightarrow> None
     | Some w \<Rightarrow> map_option (\<lambda>ws. w # ws) (get_workflows is))"

definition workflows_for :: "intent \<Rightarrow> workflow list option" where
  "workflows_for i = (if in_sub_intents i \<noteq> [] then get_workflows (in_sub_intents i)
     else case get_workflow (in_intent i) of Some w \<Rightarrow> Some [w] | None \<Rightarrow> decompose_intent (in_intent i))"

definition templates_of :: "workflow list \<Rightarrow> step_template list" where
  "templates_of ws = (case ws of [w] \<Rightarrow> wf_steps w | _ \<Rightarrow> fst (compose_workflows ws))"

section \<open>Tools\<close>

definition tool_known :: "tool_definition list \<Rightarrow> string \<Rightarrow> bool" where
  "tool_known tools t \<longleftrightarrow> (let names = map (\<lambda>d. lower (td_name d)) tools; low = lower t in
     low \<in> set names \<or> list_ex (\<lambda>n. contains_sub low n \<or> contains_sub n low) names)"

definition validate_tools :: "step_template list \<Rightarrow> tool_definition list \<Rightarrow> bool" where
  "validate_tools sts tools \<longleftrightarrow> tools = [] \<or>
     list_all (\<lambda>s. st_type s \<noteq> Api \<or> is_system (st_tool s) \<or> st_tool s \<noteq> [] \<and> tool_known tools (st_tool s)) sts"

definition resolve_tool_name :: "string \<Rightarrow> tool_definition list \<Rightarrow> string option" where
  "resolve_tool_name t tools =
     (if list_ex (\<lambda>d. td_name d = t) tools then Some t
      else map_option td_name (find (\<lambda>d. let n = lower (td_name d) in contains_sub (lower t) n \<or> contains_sub n (lower t)) tools))"

text \<open>\<open>resolved or fallback\<close>.\<close>

definition resolved_or :: "step_template \<Rightarrow> tool_definition list \<Rightarrow> string \<Rightarrow> string" where
  "resolved_or s tools other =
     (case (if st_tool s \<noteq> [] then resolve_tool_name (st_tool s) tools else None) of
        Some n \<Rightarrow> if n = [] then other else n | None \<Rightarrow> other)"

section \<open>Arguments from the intent's entities\<close>

definition entity_value :: "jobj \<Rightarrow> entity_definition \<Rightarrow> json option" where
  "entity_value ents e = (case List.map_filter
       (\<lambda>k. case dict_get ents k of Some v \<Rightarrow> if v = JNull then None else Some v | None \<Rightarrow> None)
       (en_name e # en_aliases e) of [] \<Rightarrow> None | v # _ \<Rightarrow> Some v)"

definition param_value :: "string \<Rightarrow> json \<Rightarrow> json" where
  "param_value p v = (case v of JStr s \<Rightarrow> if p = ''attendees'' then JArr [v] else v | _ \<Rightarrow> v)"

definition set_tool_arg :: "string \<Rightarrow> json \<Rightarrow> (string, jobj) dict \<Rightarrow> step_template \<Rightarrow> (string, jobj) dict" where
  "set_tool_arg p v args s =
     (if st_type s = Api \<and> \<not> is_system (st_tool s)
      then dict_set (st_tool s) (dict_set p v (case dict_get args (st_tool s) of None \<Rightarrow> [] | Some d \<Rightarrow> d)) args
      else args)"

definition entity_args_of :: "jobj \<Rightarrow> workflow \<Rightarrow> (string, jobj) dict \<Rightarrow> entity_definition \<Rightarrow> (string, jobj) dict" where
  "entity_args_of ents w args e = (case en_tool_param e of None \<Rightarrow> args
     | Some p \<Rightarrow> if p = [] then args
         else (case entity_value ents e of None \<Rightarrow> args
           | Some v \<Rightarrow> foldl (set_tool_arg p (param_value p v)) args (wf_steps w)))"

definition build_entity_args :: "workflow list \<Rightarrow> jobj \<Rightarrow> (string, jobj) dict" where
  "build_entity_args ws ents = foldl (\<lambda>args w. foldl (entity_args_of ents w) args (wf_entities w)) [] ws"

definition dict_update :: "jobj \<Rightarrow> jobj \<Rightarrow> jobj" where
  "dict_update d e = foldl (\<lambda>d (k, v). dict_set k v d) d e"

definition step_args :: "(string, jobj) dict \<Rightarrow> step_template \<Rightarrow> jobj" where
  "step_args args s =
     (let base = (case st_args_template s of None \<Rightarrow> [] | Some a \<Rightarrow> dict_update [] a) in
      if st_type s = Api \<and> st_role s \<in> {Fetcher, Booker, Notifier}
      then dict_update base (case dict_get args (st_tool s) of None \<Rightarrow> [] | Some d \<Rightarrow> d) else base)"

section \<open>The plan\<close>

definition step_of_template :: "(string, jobj) dict \<Rightarrow> tool_definition list \<Rightarrow> step_template \<Rightarrow> plan_step" where
  "step_of_template args tools s =
     (new_plan_step (st_step s) Interactive (st_role s) (resolved_or s tools (st_tool s)) (resolved_or s tools (st_call s)))
       \<lparr>ps_type := st_type s, ps_args := step_args args s, ps_after := st_after s, ps_context_from := st_context_from s,
        ps_timeout_s := st_timeout_s s, ps_gate_id := st_gate_id s, ps_can_spawn := st_can_spawn s,
        ps_max_spawned_steps := st_max_spawned_steps s, ps_trust_level := st_trust_level s,
        ps_policy_ref := st_policy_ref s, ps_reasoning_config := st_reasoning_config s\<rparr>"

text \<open>\<open>PlanMeta\<close> with its declared author and version.\<close>

definition new_meta :: "string \<Rightarrow> string \<Rightarrow> plan_meta" where
  "new_meta created hash = \<lparr>pm_created_at = created, pm_author = ''planner@system'', pm_version = ''v2.0.0'',
     pm_canonical_hash = hash\<rparr>"

definition zero_hash :: string where "zero_hash = replicate 64 (CHR ''0'')"

definition new_plan :: "string \<Rightarrow> string \<Rightarrow> intent \<Rightarrow> plan_step list \<Rightarrow> string list \<Rightarrow> plan" where
  "new_plan pid created i g plugins =
     \<lparr>pl_plan_id = pid, pl_intent = i, pl_trace_id = in_trace_id i, pl_graph = g, pl_constraints = default_constraints,
      pl_plugins = plugins, pl_meta = new_meta created zero_hash, pl_plan_revision = 0\<rparr>"

definition checked :: "plan \<Rightarrow> build_error + plan option" where
  "checked p = (if plan_ok p then Inr (Some p) else Inl Invalid_plan)"

definition build_plan :: "string \<Rightarrow> string \<Rightarrow> intent \<Rightarrow> tool_definition list \<Rightarrow> build_error + plan option" where
  "build_plan pid created i tools = (case workflows_for i of None \<Rightarrow> Inr None
     | Some ws \<Rightarrow>
        (if ws = [] then Inr None
         else
           (let sts = templates_of ws in
            if \<not> validate_tools sts tools then Inr None
            else
              (let g = map (step_of_template (build_entity_args ws (in_entities i)) tools) sts
               in checked (new_plan pid created i g (nub_first (map ps_uses g)))))))"

lemma templates_ok:
  assumes "workflows_for i = Some ws" "ws \<noteq> []"
  shows "ordered_from 0 0 (templates_of ws)" "list_all step_sound (templates_of ws)" "templates_of ws \<noteq> []"
proof -
  have subs: "list_all workflow_ok ws" if "get_workflows is = Some ws" for "is" ws
    using that by (induction "is" arbitrary: ws) (auto intro: get_workflow_ok split: option.splits)
  have ok: "list_all workflow_ok ws"
    using assms(1) subs by (auto simp: workflows_for_def intro: get_workflow_ok decompose_intent_ok(1) split: if_splits option.splits)
  then have w: "workflow_ok (hd ws)" using assms(2) by (cases ws) auto
  show "ordered_from 0 0 (templates_of ws)" "list_all step_sound (templates_of ws)"
    using ok w compose_workflows_ok [OF ok]
    by (auto simp: templates_of_def workflow_ok_def split: list.splits)
  show "templates_of ws \<noteq> []"
  proof (cases ws)
    case (Cons v vs)
    with w have "compose_one None 0 v \<noteq> []" by (auto simp: compose_one_def workflow_ok_def split: list.splits)
    with Cons w show ?thesis
      by (auto simp: templates_of_def workflow_ok_def compose_workflows_def split: list.splits)
  qed (use assms(2) in simp)
qed

lemma build_plan_Some:
  assumes "build_plan pid created i tools = Inr (Some p)"
  obtains ws where "workflows_for i = Some ws" "ws \<noteq> []" "validate_tools (templates_of ws) tools"
    "pl_graph p = map (step_of_template (build_entity_args ws (in_entities i)) tools) (templates_of ws)"
    "pl_plugins p = nub_first (map ps_uses (pl_graph p))" "plan_ok p"
  using assms
  by (auto simp: build_plan_def checked_def Let_def new_plan_def split: option.splits if_splits)

lemma step_of_template_simps [simp]:
  "ps_step (step_of_template args tools s) = st_step s"
  "ps_after (step_of_template args tools s) = st_after s"
  "ps_context_from (step_of_template args tools s) = st_context_from s"
  "ps_role (step_of_template args tools s) = st_role s"
  "ps_type (step_of_template args tools s) = st_type s"
  "ps_gate_id (step_of_template args tools s) = st_gate_id s"
  "ps_trust_level (step_of_template args tools s) = st_trust_level s"
  "ps_spawned_by (step_of_template args tools s) = None"
  "ps_policy_ref (step_of_template args tools s) = st_policy_ref s"
  "ps_reasoning_config (step_of_template args tools s) = st_reasoning_config s"
  by (simp_all add: step_of_template_def new_plan_step_def)

lemma ordered_ids: "ordered_from low n ss \<Longrightarrow> map st_step ss = [n + 1..n + int (length ss)]"
proof (induction ss arbitrary: n)
  case (Cons s ss)
  then have "map st_step ss = [n + 1 + 1..n + 1 + int (length ss)]" by auto
  moreover have "[n + 1..n + int (length (s # ss))] = (n + 1) # [n + 1 + 1..n + int (length (s # ss))]"
    by (rule upto_rec1) simp
  ultimately show ?case using Cons.prems by (simp add: algebra_simps)
qed simp

lemma ordered_refs:
  assumes "ordered_from low n ss" "s \<in> set ss" "d \<in> set (st_after s @ st_context_from s)"
  shows "low < d" "d < st_step s"
  using assms by (induction ss arbitrary: n) (auto simp: refs_before_def list_all_iff)

lemma ordered_range:
  assumes "ordered_from 0 0 ss"
  shows "st_step ` set ss = {1..int (length ss)}" "distinct (map st_step ss)"
proof -
  have ids: "map st_step ss = [1..int (length ss)]" using ordered_ids [OF assms] by simp
  then have "set (map st_step ss) = set [1..int (length ss)]" by simp
  then show "st_step ` set ss = {1..int (length ss)}" by simp
  show "distinct (map st_step ss)" by (simp add: ids)
qed

lemma ordered_ref_present:
  assumes "ordered_from 0 0 ss" "s \<in> set ss" "d \<in> set (st_after s @ st_context_from s)"
  shows "d < st_step s \<and> d \<in> st_step ` set ss"
proof -
  have "0 < d" "d < st_step s" using ordered_refs [OF assms] by auto
  moreover have "st_step s \<in> st_step ` set ss" using assms(2) by simp
  ultimately show ?thesis unfolding ordered_range(1) [OF assms(1)] by auto
qed

lemma planned_structure:
  fixes args tools
  assumes "ordered_from 0 0 sts"
  defines "g \<equiv> map (step_of_template args tools) sts"
  shows "structure_error g = None" "step_ids g = [1..int (length g)]" "first_error (context_error (set (step_ids g))) g = None"
proof -
  have ids: "step_ids g = map st_step sts" by (simp add: g_def step_ids_def o_def)
  show "step_ids g = [1..int (length g)]" unfolding ids using ordered_ids [OF assms(1)] by (simp add: g_def)
  have ref: "d < st_step s \<and> d \<in> set (step_ids g)"
    if "s \<in> set sts" "d \<in> set (st_after s @ st_context_from s)" for s d
    using ordered_ref_present [OF assms(1) that] by (simp add: ids)
  have "first_error (step_structure_error (set (step_ids g))) g = None"
    unfolding first_error_None_iff
  proof
    fix s assume "s \<in> set g"
    then obtain t where t: "t \<in> set sts" "s = step_of_template args tools t" by (auto simp: g_def)
    have "step_structure_error (set (step_ids g)) s = None"
      unfolding step_structure_error_def first_error_None_iff t(2) step_of_template_simps
      using ref [OF t(1)] by (fastforce simp: first_error_None_iff)
    then show "step_structure_error (set (step_ids g)) s = None" .
  qed
  then show "structure_error g = None"
    using ordered_range(2) [OF assms(1)] by (simp add: structure_error_def ids)
  show "first_error (context_error (set (step_ids g))) g = None"
    unfolding first_error_None_iff
  proof
    fix s assume "s \<in> set g"
    then obtain t where t: "t \<in> set sts" "s = step_of_template args tools t" by (auto simp: g_def)
    show "context_error (set (step_ids g)) s = None"
      unfolding context_error_def first_error_None_iff t(2) step_of_template_simps
      using ref [OF t(1)] by fastforce
  qed
qed

lemma step_of_template_ok:
  assumes "step_sound s" "1 \<le> st_step s" "resolved_or s tools (st_tool s) \<noteq> []" "resolved_or s tools (st_call s) \<noteq> []"
  shows "plan_step_ok (step_of_template args tools s)"
  using assms by (simp add: plan_step_ok_def step_of_template_def new_plan_step_def step_sound_def)

lemma build_plan_succeeds:
  assumes "workflows_for i = Some ws" "ws \<noteq> []" "validate_tools (templates_of ws) tools" "intent_ok i" "length pid = 26"
    "length (templates_of ws) \<le> 100"
    "list_all (\<lambda>s. resolved_or s tools (st_tool s) \<noteq> [] \<and> resolved_or s tools (st_call s) \<noteq> []) (templates_of ws)"
  obtains p where "build_plan pid created i tools = Inr (Some p)"
    "pl_graph p = map (step_of_template (build_entity_args ws (in_entities i)) tools) (templates_of ws)"
proof -
  note t = templates_ok [OF assms(1,2)]
  let ?g = "map (step_of_template (build_entity_args ws (in_entities i)) tools) (templates_of ws)"
  have num: "1 \<le> st_step s" if "s \<in> set (templates_of ws)" for s
    using that ordered_range(1) [OF t(1)] by (metis atLeastAtMost_iff imageI)
  have "list_all plan_step_ok ?g"
    using t(2) assms(7) num by (auto simp: list_all_iff intro!: step_of_template_ok)
  moreover have "1 \<le> length ?g" using t(3) by (cases "templates_of ws") auto
  ultimately have "plan_ok (new_plan pid created i ?g (nub_first (map ps_uses ?g)))"
    using assms(4-6) by (simp add: plan_ok_def new_plan_def plan_constraints_ok_def default_constraints_def)
  then have "build_plan pid created i tools = Inr (Some (new_plan pid created i ?g (nub_first (map ps_uses ?g))))"
    using assms(1-3) by (simp add: build_plan_def Let_def checked_def)
  then show thesis by (rule that) (simp add: new_plan_def)
qed

section \<open>What a built plan satisfies\<close>

text \<open>C17. A plan built without a model is structurally sound: its steps are numbered from 1 without gaps, it
  passes the structural layer of the validator and every business rule on references, gates, policies,
  spawning and trust levels but rule F, and the resolver finds execution levels for it.\<close>

theorem deterministic_plan_sound:
  assumes "build_plan pid created i tools = Inr (Some p)"
  shows "step_ids (pl_graph p) = [1..int (length (pl_graph p))] \<and> structure_error (pl_graph p) = None \<and>
    first_error (context_error (set (step_ids (pl_graph p)))) (pl_graph p) = None \<and>
    list_all (\<lambda>s. rule_b s = None \<and> rule_c (pl_plugins p) s = None \<and> rule_e s = None \<and> rule_g s = None \<and> rule_h s = None \<and>
      ps_dry_run s \<and> (ps_role s \<noteq> Booker \<or> ps_gate_id s = Some booker_gate)) (pl_graph p) \<and>
    (\<exists>lv. resolve (pl_graph p) = Some (Inr lv))"
proof -
  obtain ws where ws: "workflows_for i = Some ws" "ws \<noteq> []" and plugins: "pl_plugins p = nub_first (map ps_uses (pl_graph p))"
    and g: "pl_graph p = map (step_of_template (build_entity_args ws (in_entities i)) tools) (templates_of ws)"
    using assms by (rule build_plan_Some)
  note t = templates_ok [OF ws]
  note s = planned_structure [OF t(1), of "build_entity_args ws (in_entities i)" tools, folded g]
  have rules: "list_all (\<lambda>s. rule_b s = None \<and> rule_c (pl_plugins p) s = None \<and> rule_e s = None \<and> rule_g s = None \<and>
      rule_h s = None \<and> ps_dry_run s \<and> (ps_role s \<noteq> Booker \<or> ps_gate_id s = Some booker_gate)) (pl_graph p)"
    unfolding list_all_iff
  proof
    fix s assume s: "s \<in> set (pl_graph p)"
    then obtain u where u: "u \<in> set (templates_of ws)" "s = step_of_template (build_entity_args ws (in_entities i)) tools u"
      by (auto simp: g)
    have c: "rule_c (pl_plugins p) s = None" using s by (simp add: rule_c_def plugins)
    have "step_sound u" using t(2) u(1) by (simp add: list_all_iff)
    then show "rule_b s = None \<and> rule_c (pl_plugins p) s = None \<and> rule_e s = None \<and> rule_g s = None \<and>
        rule_h s = None \<and> ps_dry_run s \<and> (ps_role s \<noteq> Booker \<or> ps_gate_id s = Some booker_gate)"
      using c unfolding u(2)
      by (auto simp: rule_b_def rule_e_def rule_g_def rule_h_def step_sound_def step_of_template_def new_plan_step_def
          split: option.splits)
  qed
  have "pl_graph p \<noteq> []" using t(3) by (simp add: g)
  then have "\<exists>lv. resolve (pl_graph p) = Some (Inr lv)"
    using resolve_iff_acyclic structure_error_None(1) [OF s(1)] structure_acyclic [OF s(1)] by blast
  with rules s show ?thesis by blast
qed

definition meeting_intent :: intent where
  "meeting_intent = sample_intent \<lparr>in_intent := ''list_meetings_google_calendar''\<rparr>"

lemma meeting_workflow: "workflows_for meeting_intent = Some [wf_list_meetings_google_calendar]"
  by code_simp

definition sample_id :: string where "sample_id = replicate 26 (CHR ''0'')"

definition built_ok :: "build_error + plan option \<Rightarrow> bool" where
  "built_ok r \<longleftrightarrow> (case r of Inr (Some p) \<Rightarrow> True | _ \<Rightarrow> False)"

lemma meeting_built: "built_ok (build_plan sample_id [] meeting_intent [])"
  by code_simp
section \<open>Rule F on the workflows of a provider\<close>

text \<open>Rule F reads the number, the type and the references of the steps only.\<close>

definition shape :: "plan_step \<Rightarrow> int \<times> step_type \<times> int list" where
  "shape s = (ps_step s, ps_type s, ps_context_from s)"

definition shape_map :: "plan_step list \<Rightarrow> (int, int \<times> step_type \<times> int list) dict" where
  "shape_map g = map (\<lambda>(n, s). (n, shape s)) (step_map g)"

lemma map_dict_set:
  "map (\<lambda>(n, s). (n, f s)) (dict_set k v d) = dict_set k (f v) (map (\<lambda>(n, s). (n, f s)) d)"
  by (induction d) auto

lemma shape_map_eq: "shape_map g = fold (\<lambda>x. dict_set (fst x) x) (map shape g) []"
proof -
  have "map (\<lambda>(n, s). (n, shape s)) (fold (\<lambda>s d. dict_set (ps_step s) s d) g d) =
      fold (\<lambda>x. dict_set (fst x) x) (map shape g) (map (\<lambda>(n, s). (n, shape s)) d)" for d
    by (induction g arbitrary: d) (simp_all add: map_dict_set, simp add: shape_def)
  then show ?thesis by (simp add: shape_map_def step_map_def)
qed

lemma graphs_of_shapes:
  "context_graph g = map (\<lambda>(n, x). (n, snd (snd x))) (shape_map g)"
  "walk_graph g = map (\<lambda>(n, x). (n, if fst (snd x) = Sanitizer then [] else snd (snd x))) (shape_map g)"
  by (auto simp: context_graph_def walk_graph_def shape_map_def shape_def)

lemma step_map_shape: "map_option shape (dict_get (step_map g) n) = dict_get (shape_map g) n"
proof -
  have "map_option shape (dict_get d n) = dict_get (map (\<lambda>(n, s). (n, shape s)) d) n" for d
    by (induction d) auto
  then show ?thesis by (simp add: shape_map_def)
qed

lemma shape_eq: "shape s = shape t \<Longrightarrow> ps_type s = ps_type t \<and> ps_context_from s = ps_context_from t \<and> ps_step s = ps_step t"
  by (simp add: shape_def)

lemma rule_f_shape:
  assumes g: "map shape g = map shape g'" and r: "shape r = shape r'"
  shows "rule_f g r = rule_f g' r'"
proof -
  note m = shape_map_eq [of g, unfolded g, folded shape_map_eq]
  have graphs: "context_graph g = context_graph g'" "walk_graph g = walk_graph g'"
    by (simp_all add: graphs_of_shapes m)
  have step: "rel_option (\<lambda>s t. shape s = shape t) (dict_get (step_map g) n) (dict_get (step_map g') n)" for n
    using step_map_shape [of g n] step_map_shape [of g' n] m
    by (cases "dict_get (step_map g) n"; cases "dict_get (step_map g') n") (auto, metis option.inject)
  have covers: "sanitizer_covers g a s = sanitizer_covers g' a t" if "shape s = shape t" for a s t
    using shape_eq [OF that] by (simp add: sanitizer_covers_def graphs)
  have sanit: "has_intervening_sanitizer g a r = has_intervening_sanitizer g' a r'" for a
  proof -
    have "(case dict_get (step_map g) ref of None \<Rightarrow> False | Some s \<Rightarrow> sanitizer_covers g a s) =
        (case dict_get (step_map g') ref of None \<Rightarrow> False | Some s \<Rightarrow> sanitizer_covers g' a s)" for ref
      using step [of ref] by (cases rule: option.rel_cases) (simp_all add: covers)
    then show ?thesis using shape_eq [OF r] by (simp add: has_intervening_sanitizer_def)
  qed
  have "unsanitized_hit g r ref = unsanitized_hit g' r' ref" for ref
    using step [of ref] by (cases rule: option.rel_cases) (auto simp: unsanitized_hit_def sanit dest!: shape_eq)
  then have "unsanitized_hit g r = unsanitized_hit g' r'" by blast
  then show ?thesis using shape_eq [OF r] by (simp add: rule_f_def graphs)
qed

lemma rule_f_template:
  "rule_f (map (step_of_template args tools) sts) (step_of_template args tools s) =
     rule_f (map (step_of_template [] []) sts) (step_of_template [] [] s)"
  by (rule rule_f_shape) (simp_all add: shape_def)

definition rule_f_verdict :: "step_template list \<Rightarrow> validation_error option" where
  "rule_f_verdict sts = (let g = map (step_of_template [] []) sts in first_error (rule_f g) g)"

lemma first_error_map: "first_error f (map h xs) = first_error (\<lambda>x. f (h x)) xs"
  by (induction xs) (simp_all cong: option.case_cong)

lemma rule_f_verdict_eq:
  "first_error (rule_f (map (step_of_template args tools) sts)) (map (step_of_template args tools) sts) = rule_f_verdict sts"
  unfolding rule_f_verdict_def Let_def first_error_map rule_f_template [of args tools] ..

lemma provider_verdicts:
  "list_all (\<lambda>w. (rule_f_verdict (wf_steps w) \<noteq> None) = (st_role (hd (wf_steps w)) = Fetcher)) provider_workflows"
  by code_simp

lemma dict_of_distinct: "distinct (map k ws) \<Longrightarrow> w \<in> set ws \<Longrightarrow> dict_get (dict_of (map (\<lambda>w. (k w, w)) ws)) (k w) = Some w"
proof -
  have "dict_get (fold (\<lambda>(k, v). dict_set k v) (map (\<lambda>w. (k w, w)) ws) d) j =
      (case find (\<lambda>w. k w = j) ws of Some w \<Rightarrow> Some w | None \<Rightarrow> dict_get d j)" if "distinct (map k ws)" for j d
    using that
  proof (induction ws arbitrary: d)
    case (Cons v vs)
    then have "find (\<lambda>w. k w = j) vs = None" if "k v = j" using that Cons.prems by (simp add: find_None_iff) (metis imageI)
    with Cons show ?case by (auto split: option.splits)
  qed simp
  moreover assume "distinct (map k ws)" "w \<in> set ws"
  moreover from this have "find (\<lambda>v. k v = k w) ws = Some w"
    by (induction ws) auto
  ultimately show ?thesis by (simp add: dict_of_def)
qed

lemma distinct_intents: "distinct (map wf_intent all_workflows)"
  by code_simp

lemma get_registered: "w \<in> set all_workflows \<Longrightarrow> get_workflow (wf_intent w) = Some w"
  unfolding get_workflow_def workflow_by_intent_def by (rule dict_of_distinct [OF distinct_intents])

text \<open>The planner does not put its own plans through the validator, and most of them would not pass: the plan
  built for a registered provider workflow breaks rule F, the trust boundary between API results and a
  reasoner, exactly when the workflow starts with a fetch.\<close>

theorem provider_plan_breaks_rule_f:
  assumes "w \<in> set provider_workflows" "in_sub_intents i = []" "in_intent i = wf_intent w"
    and "build_plan pid created i tools = Inr (Some p)"
  shows "first_error (rule_f (pl_graph p)) (pl_graph p) \<noteq> None \<longleftrightarrow> st_role (hd (wf_steps w)) = Fetcher"
proof -
  have "w \<in> set all_workflows" using assms(1) by (simp add: all_workflows_def)
  then have w: "workflows_for i = Some [w]" using get_registered assms(2,3) by (simp add: workflows_for_def)
  obtain ws where "workflows_for i = Some ws"
    "pl_graph p = map (step_of_template (build_entity_args ws (in_entities i)) tools) (templates_of ws)"
    using assms(4) by (rule build_plan_Some)
  with w have "first_error (rule_f (pl_graph p)) (pl_graph p) = rule_f_verdict (wf_steps w)"
    by (simp add: templates_of_def rule_f_verdict_eq)
  then show ?thesis using provider_verdicts assms(1) by (auto simp: list_all_iff)
qed

section \<open>Witnesses\<close>

lemma meeting_plan: "\<exists>p. build_plan sample_id [] meeting_intent [] = Inr (Some p)"
  using meeting_built by (auto simp: built_ok_def split: sum.splits option.splits)

theorem deterministic_plan_sound_witness:
  "\<exists>p. build_plan sample_id [] meeting_intent [] = Inr (Some p) \<and> step_ids (pl_graph p) = [1..int (length (pl_graph p))]
     \<and> (\<exists>lv. resolve (pl_graph p) = Some (Inr lv))"
  using meeting_plan deterministic_plan_sound [of sample_id "[]" meeting_intent "[]"] by blast

theorem provider_plan_breaks_rule_f_witness:
  "\<exists>p. build_plan sample_id [] meeting_intent [] = Inr (Some p) \<and> first_error (rule_f (pl_graph p)) (pl_graph p) \<noteq> None"
proof -
  obtain p where p: "build_plan sample_id [] meeting_intent [] = Inr (Some p)" using meeting_plan by blast
  have "wf_list_meetings_google_calendar \<in> set provider_workflows" by (simp add: provider_workflows_def)
  from provider_plan_breaks_rule_f [OF this _ _ p] have
    "first_error (rule_f (pl_graph p)) (pl_graph p) \<noteq> None \<longleftrightarrow> st_role (hd (wf_steps wf_list_meetings_google_calendar)) = Fetcher"
    by (simp add: meeting_intent_def sample_intent_def wf_list_meetings_google_calendar_def)
  then have "first_error (rule_f (pl_graph p)) (pl_graph p) \<noteq> None"
    by (simp add: wf_list_meetings_google_calendar_def template_def)
  with p show ?thesis by blast
qed

end
