(* ===== verification/Planned_Run.thy ===== *)
theory Planned_Run
  imports Deterministic_Planner Execute_Safety
begin

text \<open>
  The plans of \<open>Deterministic_Planner\<close> in the executor: what the approval of one gate of such a plan
  means for its steps.
\<close>

text \<open>Plans built from workflows name the same execution gate in every Booker, so in a compound plan, where
  several workflows each end in a Booker, the approval of that one gate lets every one of them run.\<close>

theorem one_approval_opens_every_booker:
  assumes "build_plan pid created i tools = Inr (Some p)" "truthy (preview_get req booker_gate)"
  shows "list_all (\<lambda>s. closed_gate req s = None) (filter (\<lambda>s. ps_role s = Booker) (pl_graph p))"
proof -
  obtain ws where ws: "workflows_for i = Some ws" "ws \<noteq> []"
    and g: "pl_graph p = map (step_of_template (build_entity_args ws (in_entities i)) tools) (templates_of ws)"
    using assms(1) by (rule build_plan_Some)
  have "ps_gate_id s = Some booker_gate" if "s \<in> set (pl_graph p)" "ps_role s = Booker" for s
    using that templates_ok(2) [OF ws] by (auto simp: g list_all_iff step_sound_def)
  then show ?thesis using assms(2) by (auto simp: list_all_iff closed_gate_def)
qed

definition double_intent :: intent where
  "double_intent = sample_intent \<lparr>in_sub_intents := [''draft_email_gmail'', ''create_document_google_docs'']\<rparr>"

lemma double_templates:
  "map (\<lambda>t. (st_step t, st_role t)) (templates_of [wf_draft_email_gmail, wf_create_document_google_docs]) = [(1, Booker), (2, Booker)]"
  "list_all (\<lambda>t. resolved_or t [] (st_tool t) \<noteq> [] \<and> resolved_or t [] (st_call t) \<noteq> [])
     (templates_of [wf_draft_email_gmail, wf_create_document_google_docs])"
  by code_simp+

lemma double_workflows: "workflows_for double_intent = Some [wf_draft_email_gmail, wf_create_document_google_docs]"
proof -
  have "get_workflow ''draft_email_gmail'' = Some wf_draft_email_gmail"
    using get_registered [of wf_draft_email_gmail]
    by (simp add: all_workflows_def provider_workflows_def) (simp add: wf_draft_email_gmail_def)
  moreover have "get_workflow ''create_document_google_docs'' = Some wf_create_document_google_docs"
    using get_registered [of wf_create_document_google_docs]
    by (simp add: all_workflows_def provider_workflows_def) (simp add: wf_create_document_google_docs_def)
  ultimately show ?thesis by (simp add: workflows_for_def double_intent_def)
qed

lemma double_plan:
  obtains p where "build_plan sample_id [] double_intent [] = Inr (Some p)"
    "map (\<lambda>s. (ps_step s, ps_role s)) (pl_graph p) = [(1, Booker), (2, Booker)]"
proof -
  let ?ws = "[wf_draft_email_gmail, wf_create_document_google_docs]"
  have "length (templates_of ?ws) = 2" using double_templates(1) arg_cong [of _ _ length] by fastforce
  then obtain p where "build_plan sample_id [] double_intent [] = Inr (Some p)"
    "pl_graph p = map (step_of_template (build_entity_args ?ws (in_entities double_intent)) []) (templates_of ?ws)"
    using build_plan_succeeds [OF double_workflows, of "[]" sample_id "[]"] double_templates(2)
    by (auto simp: validate_tools_def intent_ok_def double_intent_def sample_intent_def sample_id_def)
  with double_templates(1) that show thesis by (simp add: o_def)
qed

definition approving :: exec_request where
  "approving = run_request [] (Some [(''gate-execute'', JBool True)])"

theorem one_approval_opens_every_booker_witness:
  "\<exists>p. build_plan sample_id [] double_intent [] = Inr (Some p) \<and>
     map (\<lambda>s. (ps_step s, ps_role s)) (pl_graph p) = [(1, Booker), (2, Booker)] \<and>
     list_all (\<lambda>s. closed_gate approving s = None) (filter (\<lambda>s. ps_role s = Booker) (pl_graph p))"
proof -
  obtain p where p: "build_plan sample_id [] double_intent [] = Inr (Some p)"
    "map (\<lambda>s. (ps_step s, ps_role s)) (pl_graph p) = [(1, Booker), (2, Booker)]"
    by (rule double_plan)
  have "truthy (preview_get approving booker_gate)"
    by (simp add: approving_def preview_get_def booker_gate_def jget_def run_request_def)
  from one_approval_opens_every_booker [OF p(1) this] p show ?thesis by (intro exI [of _ p] conjI)
qed

end
