(* ===== verification/Cron_Builder.thy ===== *)
theory Cron_Builder
  imports Json_Path Py_Regex
begin

text \<open>
  Recurring schedules: the models of \<open>components/Scheduler/domain/models.py\<close> and the conversion of a
  recurrence to the arguments of APScheduler's \<open>CronTrigger\<close> and to a text
  (\<open>components/Scheduler/adapters/cron_builder.py\<close>). A \<open>datetime\<close> is its wall clock in microseconds and
  the offset of its zone, \<open>None\<close> for a naive one.
\<close>

section \<open>The models\<close>

record datetime =
  dt_wall :: int
  dt_offset :: "int option"

definition instant :: "datetime \<Rightarrow> int" where
  "instant d = dt_wall d - (case dt_offset d of None \<Rightarrow> 0 | Some z \<Rightarrow> z)"

definition utc :: "int \<Rightarrow> datetime" where
  "utc t = \<lparr>dt_wall = t, dt_offset = Some 0\<rparr>"

record recurrence_config =
  rc_frequency :: string
  rc_interval :: int
  rc_days_of_week :: "int list option"
  rc_day_of_month :: "int option"
  rc_time_of_day :: "string option"
  rc_end_date :: "datetime option"
  rc_max_runs :: "int option"

definition frequencies :: "string list" where
  "frequencies = [''hourly'', ''daily'', ''weekly'', ''monthly'']"

text \<open>The pattern \<open>^\d{2}:\d{2}$\<close>.\<close>

definition time_pattern :: "string \<Rightarrow> bool" where
  "time_pattern s \<longleftrightarrow> (case s of [a, b, c, d, e] \<Rightarrow> list_all is_digit [a, b, d, e] \<and> c = CHR '':'' | _ \<Rightarrow> False)"

definition recurrence_ok :: "recurrence_config \<Rightarrow> bool" where
  "recurrence_ok c \<longleftrightarrow> rc_frequency c \<in> set frequencies \<and> 1 \<le> rc_interval c \<and>
     (case rc_day_of_month c of None \<Rightarrow> True | Some d \<Rightarrow> 1 \<le> d \<and> d \<le> 31) \<and>
     (case rc_time_of_day c of None \<Rightarrow> True | Some t \<Rightarrow> time_pattern t) \<and>
     (case rc_max_runs c of None \<Rightarrow> True | Some n \<Rightarrow> 1 \<le> n)"

text \<open>\<open>ScheduleValidationError\<close>, \<open>ScheduledPlanNotFoundError\<close>, and any other exception with its class
  and text.\<close>

datatype sched_error = Schedule_invalid string | Schedule_not_found string | Sched_crash string string

section \<open>Triggers\<close>

definition parse_time :: "string option \<Rightarrow> sched_error + int \<times> int" where
  "parse_time t = (case t of
       None \<Rightarrow> Inr (0, 0)
     | Some s \<Rightarrow> if s = [] then Inr (0, 0)
         else (case split_on (CHR '':'') s of
             h # m # _ \<Rightarrow> (case (py_int h, py_int m) of
                 (Some x, Some y) \<Rightarrow> Inr (x, y)
               | _ \<Rightarrow> Inl (Sched_crash ''ValueError'' ''invalid literal for int()''))
           | [h] \<Rightarrow> (case py_int h of
                 Some x \<Rightarrow> Inl (Sched_crash ''IndexError'' ''list index out of range'')
               | None \<Rightarrow> Inl (Sched_crash ''ValueError'' ''invalid literal for int()''))
           | [] \<Rightarrow> Inl (Sched_crash ''IndexError'' ''list index out of range'')))"

type_synonym cron_args = "(string, string) dict"

definition recurrence_to_trigger_kwargs :: "recurrence_config \<Rightarrow> sched_error + cron_args" where
  "recurrence_to_trigger_kwargs c = bind_res (parse_time (rc_time_of_day c)) (\<lambda>(hour, minute).
     let f = rc_frequency c; n = rc_interval c;
         clk = [(''hour'', show_int hour), (''minute'', show_int minute)]
     in if f = ''hourly'' then Inr [(''hour'', if 1 < n then ''*/'' @ show_int n else ''*''), (''minute'', show_int minute)]
     else if f = ''daily'' then Inr ((if n = 1 then [] else [(''day'', ''*/'' @ show_int n)]) @ clk)
     else if f = ''weekly'' then (case rc_days_of_week c of
         None \<Rightarrow> Inl (Schedule_invalid ''days_of_week is required for weekly recurrence'')
       | Some days \<Rightarrow> if days = [] then Inl (Schedule_invalid ''days_of_week is required for weekly recurrence'')
           else Inr ((''day_of_week'', join_with '','' (map show_int (sort days))) # clk))
     else if f = ''monthly'' then (case rc_day_of_month c of
         None \<Rightarrow> Inl (Schedule_invalid ''day_of_month is required for monthly recurrence'')
       | Some d \<Rightarrow> if d = 0 then Inl (Schedule_invalid ''day_of_month is required for monthly recurrence'')
           else Inr ((''day'', show_int d) # clk))
     else Inl (Schedule_invalid (''Unknown frequency: '' @ f)))"

section \<open>The text shown\<close>

text \<open>\<open>f"{n:02d}"\<close>.\<close>

definition pad2 :: "int \<Rightarrow> string" where
  "pad2 n = (if length (show_int n) < 2 then CHR ''0'' # show_int n else show_int n)"

definition dow_names :: "string list" where
  "dow_names = [''Mon'', ''Tue'', ''Wed'', ''Thu'', ''Fri'', ''Sat'', ''Sun'']"

text \<open>\<open>_DOW_NAMES[d]\<close>: a negative index counts from the end.\<close>

definition dow_name :: "int \<Rightarrow> sched_error + string" where
  "dow_name d = (if 0 \<le> d \<and> d < 7 then Inr (dow_names ! nat d)
     else if - 7 \<le> d \<and> d < 0 then Inr (dow_names ! nat (d + 7))
     else Inl (Sched_crash ''IndexError'' ''list index out of range''))"

primrec dow_labels :: "int list \<Rightarrow> sched_error + string list" where
  "dow_labels [] = Inr []"
| "dow_labels (d # ds) = bind_res (dow_name d) (\<lambda>s. bind_res (dow_labels ds) (\<lambda>ss. Inr (s # ss)))"

definition day_label :: "int list \<Rightarrow> sched_error + string" where
  "day_label days = (if days = [0, 1, 2, 3, 4] then Inr ''weekday''
     else if days = [5, 6] then Inr ''weekend''
     else bind_res (dow_labels days) (\<lambda>ss. Inr (join_with '', '' ss)))"

definition ordinal_suffix :: "int \<Rightarrow> string" where
  "ordinal_suffix d = (if d \<in> {1, 21, 31} then ''st'' else if d \<in> {2, 22} then ''nd''
     else if d \<in> {3, 23} then ''rd'' else ''th'')"

definition recurrence_to_display :: "recurrence_config \<Rightarrow> sched_error + string" where
  "recurrence_to_display c = bind_res (parse_time (rc_time_of_day c)) (\<lambda>(hour, minute).
     let f = rc_frequency c; n = rc_interval c; time = pad2 hour @ '':'' @ pad2 minute
     in if f = ''hourly'' then
          Inr ((if 1 < n then ''Every '' @ show_int n @ '' hours'' else ''Every hour'') @ '' at :'' @ pad2 minute)
        else if f = ''daily'' then
          Inr ((if 1 < n then ''Every '' @ show_int n @ '' days'' else ''Every day'') @ '' at '' @ time)
        else if f = ''weekly'' then
          bind_res (day_label (sort (case rc_days_of_week c of None \<Rightarrow> [] | Some ds \<Rightarrow> ds))) (\<lambda>label.
            Inr (if 1 < n then ''Every '' @ show_int n @ '' weeks on '' @ label @ '' at '' @ time
                 else ''Every '' @ label @ '' at '' @ time))
        else if f = ''monthly'' then
          (let d = (case rc_day_of_month c of None \<Rightarrow> 1 | Some d \<Rightarrow> if d = 0 then 1 else d) in
           Inr ((if 1 < n then ''Every '' @ show_int n @ '' months'' else ''Monthly'') @ '' on the '' @ show_int d @
             ordinal_suffix d @ '' at '' @ time))
        else Inr (''Custom schedule ('' @ f @ '')''))"

section \<open>Valid recurrences\<close>

lemma digits_int:
  assumes "list_all is_digit s" "s \<noteq> []"
  shows "py_int s = Some (int (read_nat s))"
proof -
  have char: "is_digit c \<Longrightarrow> \<not> is_space c \<and> c \<noteq> CHR ''-'' \<and> c \<noteq> CHR ''+'' \<and> c \<noteq> CHR ''_''" for c
    by (auto simp: is_digit_def is_space_def)
  have "dropWhile is_space t = t" if "list_all is_digit t" for t
    using that char by (cases t) auto
  then have s: "strip s = s" using assms(1) by (simp add: strip_def lstrip_def rstrip_def list_all_rev)
  have "CHR ''_'' \<notin> set s" using assms(1) char by (auto simp: list_all_iff)
  moreover then have "filter (\<lambda>c. c \<noteq> CHR ''_'') s = s" by (auto intro: filter_True)
  ultimately have "py_digits s = Some (read_nat s)" using assms by (simp add: py_digits_def split_on_id)
  then show ?thesis
    using assms char s by (cases s) (auto simp: py_int_def split: char.split bool.split)
qed

lemma colon_not_digit: "is_digit c \<Longrightarrow> c \<noteq> CHR '':''"
  by (auto simp: is_digit_def)

lemma parse_time_pattern:
  assumes "time_pattern s"
  obtains h m where "parse_time (Some s) = Inr (int h, int m)"
proof -
  from assms obtain a b d e where s: "s = [a, b] @ CHR '':'' # [d, e]" and g: "is_digit a" "is_digit b" "is_digit d" "is_digit e"
    by (auto simp: time_pattern_def split: list.splits)
  have n: "CHR '':'' \<notin> set [a, b]" "CHR '':'' \<notin> set [d, e]" using g colon_not_digit by auto
  have "split_on (CHR '':'') s = [[a, b], [d, e]]" unfolding s split_on_append [OF n(1)] split_on_id [OF n(2)] ..
  then have "parse_time (Some s) = Inr (int (read_nat [a, b]), int (read_nat [d, e]))"
    using s g by (simp add: parse_time_def digits_int)
  with that show thesis .
qed

lemma parse_time_ok:
  assumes "recurrence_ok c"
  obtains h m where "parse_time (rc_time_of_day c) = Inr (int h, int m)"
proof (cases "rc_time_of_day c")
  case None
  then show thesis using that [of 0 0] by (simp add: parse_time_def)
next
  case (Some s)
  then have "time_pattern s" using assms by (simp add: recurrence_ok_def)
  then show thesis using that Some by (auto elim: parse_time_pattern)
qed

text \<open>The three ways a valid recurrence is refused: a weekly one without days, a monthly one without a
  day; nothing else fails.\<close>

definition complete :: "recurrence_config \<Rightarrow> bool" where
  "complete c \<longleftrightarrow> (rc_frequency c = ''weekly'' \<longrightarrow> rc_days_of_week c \<noteq> None \<and> rc_days_of_week c \<noteq> Some []) \<and>
     (rc_frequency c = ''monthly'' \<longrightarrow> rc_day_of_month c \<noteq> None)"

lemma trigger_kwargs_iff:
  assumes "recurrence_ok c"
  shows "is_ok (recurrence_to_trigger_kwargs c) \<longleftrightarrow> complete c"
proof -
  obtain h m where "parse_time (rc_time_of_day c) = Inr (int h, int m)" using assms by (rule parse_time_ok)
  then show ?thesis
    using assms by (auto simp: recurrence_to_trigger_kwargs_def Let_def complete_def recurrence_ok_def frequencies_def
        split: option.splits)
qed

lemma dow_labels_ok: "(\<forall>d\<in>set ds. 0 \<le> d \<and> d < 7) \<Longrightarrow> is_ok (dow_labels ds)"
  by (induction ds) (auto simp: dow_name_def is_ok_iff)

lemma display_ok:
  assumes "recurrence_ok c" "\<forall>ds. rc_days_of_week c = Some ds \<longrightarrow> (\<forall>d\<in>set ds. 0 \<le> d \<and> d < 7)"
  shows "is_ok (recurrence_to_display c)"
proof -
  obtain h m where p: "parse_time (rc_time_of_day c) = Inr (int h, int m)" using assms(1) by (rule parse_time_ok)
  let ?ds = "sort (case rc_days_of_week c of None \<Rightarrow> [] | Some ds \<Rightarrow> ds)"
  have "is_ok (dow_labels ?ds)" by (rule dow_labels_ok) (use assms(2) in \<open>cases "rc_days_of_week c"; auto\<close>)
  then have "is_ok (day_label ?ds)" by (auto simp: day_label_def is_ok_iff)
  with p show ?thesis
    by (auto simp: recurrence_to_display_def Let_def is_ok_iff)
qed

text \<open>The interval of a weekly or monthly recurrence is shown but does not reach the trigger.\<close>

lemma interval_not_triggered:
  "rc_frequency c \<in> {''weekly'', ''monthly''} \<Longrightarrow>
     recurrence_to_trigger_kwargs (c \<lparr>rc_interval := n\<rparr>) = recurrence_to_trigger_kwargs c"
  by (auto simp: recurrence_to_trigger_kwargs_def Let_def)

end
