(* ===== verification/Scheduler_Store.thy ===== *)
theory Scheduler_Store
  imports Cron_Builder
begin

text \<open>
  The table of scheduled plans (\<open>components/Scheduler/adapters/db.py\<close>): the rows in insertion order, one
  definition per operation. A stored recurrence is the configuration whose dump the column holds.
  What the server rejects (lengths, foreign keys) and its failures are not modelled.
\<close>

section \<open>Rows\<close>

text \<open>The values given to \<open>create_scheduled_plan\<close>, and the columns the server or the adapter sets.\<close>

record schedule_values =
  sp_user_id :: string
  sp_name :: string
  sp_intent_type :: string
  sp_skeleton_json :: jobj
  sp_entities_json :: jobj
  sp_constraints_json :: jobj
  sp_schedule_type :: string
  sp_scheduled_at :: "datetime option"
  sp_cron_expression :: "string option"
  sp_recurrence_config :: "recurrence_config option"
  sp_timezone :: string
  sp_approval_mode :: string
  sp_next_run_at :: "datetime option"
  sp_max_runs :: "int option"
  sp_source_plan_id :: "string option"

record scheduled_plan = schedule_values +
  sp_id :: string
  sp_status :: string
  sp_last_run_at :: "int option"
  sp_run_count :: int
  sp_last_error :: "jobj option"
  sp_created_at :: int
  sp_updated_at :: int

type_synonym rows = "scheduled_plan list"

section \<open>Operations\<close>

definition create_scheduled_plan :: "string \<Rightarrow> int \<Rightarrow> schedule_values \<Rightarrow> rows \<Rightarrow> scheduled_plan \<times> rows" where
  "create_scheduled_plan sid now v rs =
     (let row = schedule_values.extend v \<lparr>sp_id = sid, sp_status = ''active'', sp_last_run_at = None, sp_run_count = 0,
            sp_last_error = None, sp_created_at = now, sp_updated_at = now\<rparr>
      in (row, rs @ [row]))"

definition owned :: "string \<Rightarrow> string \<Rightarrow> scheduled_plan \<Rightarrow> bool" where
  "owned sid user r \<longleftrightarrow> sp_id r = sid \<and> sp_user_id r = user"

definition get_scheduled_plan :: "string \<Rightarrow> string \<Rightarrow> rows \<Rightarrow> scheduled_plan option" where
  "get_scheduled_plan sid user rs = find (owned sid user) rs"

definition list_scheduled_plans :: "string \<Rightarrow> string option \<Rightarrow> rows \<Rightarrow> scheduled_plan list" where
  "list_scheduled_plans user status rs =
     sort_key (\<lambda>r. - sp_created_at r)
       (filter (\<lambda>r. sp_user_id r = user \<and> (case status of None \<Rightarrow> True | Some s \<Rightarrow> s = [] \<or> sp_status r = s)) rs)"

text \<open>The columns a partial update names.\<close>

datatype column =
    C_name string
  | C_entities jobj
  | C_timezone string
  | C_approval string
  | C_max_runs int
  | C_status string
  | C_scheduled datetime
  | C_next_run datetime
  | C_recurrence recurrence_config
  | C_cron string

fun put_column :: "column \<Rightarrow> scheduled_plan \<Rightarrow> scheduled_plan" where
  "put_column (C_name v) r = r \<lparr>sp_name := v\<rparr>"
| "put_column (C_entities v) r = r \<lparr>sp_entities_json := v\<rparr>"
| "put_column (C_timezone v) r = r \<lparr>sp_timezone := v\<rparr>"
| "put_column (C_approval v) r = r \<lparr>sp_approval_mode := v\<rparr>"
| "put_column (C_max_runs v) r = r \<lparr>sp_max_runs := Some v\<rparr>"
| "put_column (C_status v) r = r \<lparr>sp_status := v\<rparr>"
| "put_column (C_scheduled v) r = r \<lparr>sp_scheduled_at := Some v\<rparr>"
| "put_column (C_next_run v) r = r \<lparr>sp_next_run_at := Some v\<rparr>"
| "put_column (C_recurrence v) r = r \<lparr>sp_recurrence_config := Some v\<rparr>"
| "put_column (C_cron v) r = r \<lparr>sp_cron_expression := Some v\<rparr>"

definition updated_row :: "int \<Rightarrow> column list \<Rightarrow> scheduled_plan \<Rightarrow> scheduled_plan" where
  "updated_row now cs r = (fold put_column cs r) \<lparr>sp_updated_at := now\<rparr>"

definition update_where :: "(scheduled_plan \<Rightarrow> bool) \<Rightarrow> (scheduled_plan \<Rightarrow> scheduled_plan) \<Rightarrow> rows \<Rightarrow> rows" where
  "update_where p f rs = map (\<lambda>r. if p r then f r else r) rs"

definition update_scheduled_plan :: "string \<Rightarrow> string \<Rightarrow> int \<Rightarrow> column list \<Rightarrow> rows \<Rightarrow> bool \<times> rows" where
  "update_scheduled_plan sid user now cs rs =
     (list_ex (owned sid user) rs, update_where (owned sid user) (updated_row now cs) rs)"

definition delete_scheduled_plan :: "string \<Rightarrow> string \<Rightarrow> rows \<Rightarrow> bool \<times> rows" where
  "delete_scheduled_plan sid user rs = (list_ex (owned sid user) rs, filter (\<lambda>r. \<not> owned sid user r) rs)"

text \<open>\<open>ORDER BY next_run_at\<close>: rows without one come last.\<close>

definition get_active_schedules :: "rows \<Rightarrow> scheduled_plan list" where
  "get_active_schedules rs = (let act = filter (\<lambda>r. sp_status r = ''active'') rs in
     sort_key (\<lambda>r. case sp_next_run_at r of None \<Rightarrow> 0 | Some t \<Rightarrow> instant t) (filter (\<lambda>r. sp_next_run_at r \<noteq> None) act) @
     filter (\<lambda>r. sp_next_run_at r = None) act)"

text \<open>The outcome recorded: \<open>None\<close> for a success, else the error's type and details.\<close>

type_synonym run_error = "(string \<times> jobj) option"

definition reached :: "int option \<Rightarrow> int \<Rightarrow> bool" where
  "reached limit n = (case limit of None \<Rightarrow> False | Some m \<Rightarrow> m \<noteq> 0 \<and> m \<le> n)"

definition recorded :: "(int \<Rightarrow> string) \<Rightarrow> int \<Rightarrow> run_error \<Rightarrow> scheduled_plan \<Rightarrow> scheduled_plan" where
  "recorded show_t now e r =
     (let n = sp_run_count r + 1; r1 = r \<lparr>sp_run_count := n, sp_last_run_at := Some now, sp_updated_at := now\<rparr> in
      case e of
        Some (ty, details) \<Rightarrow> r1 \<lparr>sp_last_error := Some [(''error_type'', JStr ty), (''error_details'', JObj details),
            (''occurred_at'', JStr (show_t now))], sp_status := ''failed''\<rparr>
      | None \<Rightarrow>
          if sp_schedule_type r = ''once'' \<or> reached (sp_max_runs r) n
          then r1 \<lparr>sp_last_error := None, sp_status := ''completed''\<rparr>
          else r1 \<lparr>sp_last_error := None\<rparr>)"

definition record_execution :: "(int \<Rightarrow> string) \<Rightarrow> string \<Rightarrow> int \<Rightarrow> run_error \<Rightarrow> rows \<Rightarrow> rows" where
  "record_execution show_t sid now e rs = update_where (\<lambda>r. sp_id r = sid) (recorded show_t now e) rs"

section \<open>What updates keep\<close>

lemma put_column_keys [simp]: "sp_id (put_column c r) = sp_id r" "sp_user_id (put_column c r) = sp_user_id r"
  by (cases c; simp)+

lemma updated_row_keys [simp]:
  "sp_id (updated_row now cs r) = sp_id r" "sp_user_id (updated_row now cs r) = sp_user_id r"
proof -
  have "sp_id (fold put_column cs r) = sp_id r \<and> sp_user_id (fold put_column cs r) = sp_user_id r"
    by (induction cs arbitrary: r) simp_all
  then show "sp_id (updated_row now cs r) = sp_id r" "sp_user_id (updated_row now cs r) = sp_user_id r"
    by (simp_all add: updated_row_def)
qed

lemma recorded_keys [simp]:
  "sp_id (recorded show_t now e r) = sp_id r" "sp_user_id (recorded show_t now e r) = sp_user_id r"
  "sp_run_count (recorded show_t now e r) = sp_run_count r + 1" "sp_max_runs (recorded show_t now e r) = sp_max_runs r"
  "sp_schedule_type (recorded show_t now e r) = sp_schedule_type r" "sp_scheduled_at (recorded show_t now e r) = sp_scheduled_at r"
  "sp_recurrence_config (recorded show_t now e r) = sp_recurrence_config r" "sp_timezone (recorded show_t now e r) = sp_timezone r"
  "sp_name (recorded show_t now e r) = sp_name r"
  by (auto simp: recorded_def Let_def split: option.split)

lemma owned_keys [simp]:
  "owned sid u (updated_row now cs r) = owned sid u r" "owned sid u (recorded show_t now e r) = owned sid u r"
  by (simp_all add: owned_def)

lemma find_map_same: "(\<And>x. p (f x) = p x) \<Longrightarrow> find p (map f xs) = map_option f (find p xs)"
  by (induction xs) auto

lemma find_filter_other: "(\<And>x. p x \<Longrightarrow> q x) \<Longrightarrow> find p (filter q xs) = find p xs"
  by (induction xs) auto

lemma find_append: "find p (xs @ ys) = (case find p xs of None \<Rightarrow> find p ys | Some x \<Rightarrow> Some x)"
  by (induction xs) auto

lemma set_active: "set (get_active_schedules rs) = {r \<in> set rs. sp_status r = ''active''}"
  by (auto simp: get_active_schedules_def Let_def)

section \<open>Rows of other users\<close>

text \<open>
  A store whose operations are made in a user's name. The one law asks that an operation of another
  user leaves what a user reads alone; then any sequence of them does.
\<close>

locale owned_store =
  fixes get :: "'k \<Rightarrow> 'u \<Rightarrow> 'st \<Rightarrow> 'v option"
    and act :: "'op \<Rightarrow> 'u \<Rightarrow> 'st \<Rightarrow> 'st"
  assumes act_other: "u' \<noteq> u \<Longrightarrow> get k u (act a u' s) = get k u s"
begin

lemma acts_other: "u \<notin> snd ` set acts \<Longrightarrow> get k u (fold (\<lambda>(a, w). act a w) acts s) = get k u s"
  by (induction acts arbitrary: s) (auto simp: act_other)

end

datatype row_op = Op_create string int schedule_values | Op_update string int "column list" | Op_delete string

fun row_act :: "row_op \<Rightarrow> string \<Rightarrow> rows \<Rightarrow> rows" where
  "row_act (Op_create sid now v) u rs = snd (create_scheduled_plan sid now (v \<lparr>sp_user_id := u\<rparr>) rs)"
| "row_act (Op_update sid now cs) u rs = snd (update_scheduled_plan sid u now cs rs)"
| "row_act (Op_delete sid) u rs = snd (delete_scheduled_plan sid u rs)"

lemma get_update_other:
  assumes "\<And>r. p r \<Longrightarrow> \<not> owned sid u r" "\<And>r. owned sid u (f r) = owned sid u r"
  shows "get_scheduled_plan sid u (update_where p f rs) = get_scheduled_plan sid u rs"
  using assms by (induction rs) (auto simp: get_scheduled_plan_def update_where_def)

interpretation rows: owned_store get_scheduled_plan row_act
proof
  fix u' u :: string and k a s
  assume u: "u' \<noteq> u"
  then have o: "owned k' u' r \<Longrightarrow> \<not> owned k u r" for k' r by (simp add: owned_def)
  show "get_scheduled_plan k u (row_act a u' s) = get_scheduled_plan k u s"
  proof (cases a)
    case (Op_create sid now v)
    with u show ?thesis
      by (auto simp: create_scheduled_plan_def get_scheduled_plan_def find_append owned_def Let_def schedule_values.extend_def
          split: option.split)
  next
    case (Op_update sid now cs)
    with o show ?thesis by (simp add: update_scheduled_plan_def get_update_other)
  next
    case (Op_delete sid)
    with o show ?thesis
      by (auto simp: delete_scheduled_plan_def get_scheduled_plan_def intro: find_filter_other)
  qed
qed

end
