(* ===== verification/Tool_Filter.thy ===== *)
theory Tool_Filter
  imports Workflow_Registry Mcp_Catalog
begin

text \<open>
  \<open>Planner/adapters/tool_filter.py\<close>: the keyword filters that narrow the tool catalog to the intent
  before the prompt is built. Sets of names are lists here; only membership is asked of them.
\<close>

section \<open>The keyword tables\<close>

definition own_providers :: "(string, string list) dict" where
  "own_providers =
    [(''schedule_meeting'', [''googlecalendar'', ''gmail'']), (''book_meeting'', [''googlecalendar'', ''gmail'']),
    (''create_meeting'', [''googlecalendar'', ''gmail'']), (''create_event'', [''googlecalendar'', ''gmail'']),
    (''meeting'', [''googlecalendar'']), (''calendar'', [''googlecalendar'']), (''event'', [''googlecalendar'']),
    (''appointment'', [''googlecalendar'', ''gmail'']), (''reschedule'', [''googlecalendar'', ''gmail'']),
    (''availability'', [''googlecalendar'']), (''freebusy'', [''googlecalendar'']), (''send_email'', [''gmail'']),
    (''draft_email'', [''gmail'']), (''reply_email'', [''gmail'']), (''email'', [''gmail'']), (''mail'', [''gmail'']),
    (''create_document'', [''googledocs'', ''googledrive'']), (''edit_document'', [''googledocs'', ''googledrive'']),
    (''document'', [''googledocs'', ''googledrive'']), (''doc'', [''googledocs'', ''googledrive'']),
    (''drive'', [''googledrive'']), (''file'', [''googledrive'']), (''upload'', [''googledrive'']),
    (''download'', [''googledrive'']), (''notion'', [''notion'']), (''note'', [''notion'']), (''page'', [''notion'']),
    (''database'', [''notion'']), (''task'', [''notion'']), (''todo'', [''notion'']), (''github'', [''github'']),
    (''pull_request'', [''github'']), (''issue'', [''github'']), (''commit'', [''github'']), (''repo'', [''github'']),
    (''pr'', [''github'']), (''slack'', [''slack'']), (''message'', [''slack'']), (''channel'', [''slack'']),
    (''youtube'', [''youtube'']), (''video'', [''youtube'']), (''linkedin'', [''linkedin'']),
    (''post'', [''linkedin''])]"

definition own_actions :: "(string, string list) dict" where
  "own_actions =
    [(''send_email'', [''SEND_EMAIL'', ''CREATE_DRAFT'']), (''draft_email'', [''CREATE_DRAFT'', ''SEND_EMAIL'']),
    (''reply_email'', [''REPLY_TO_EMAIL'', ''SEND_EMAIL'', ''GET_EMAIL'']),
    (''forward_email'', [''SEND_EMAIL'', ''GET_EMAIL'']),
    (''read_email'', [''GET_EMAIL'', ''LIST_EMAILS'', ''FETCH_EMAILS'']),
    (''list_email'', [''LIST_EMAILS'', ''FETCH_EMAILS'']), (''search_email'', [''LIST_EMAILS'', ''FETCH_EMAILS'']),
    (''schedule_meeting'', [''CREATE_EVENT'', ''FIND_FREE_SLOTS'', ''FIND_EVENT'', ''LIST_EVENTS'', ''LIST_ALL_CALENDARS'']),
    (''book_meeting'', [''CREATE_EVENT'', ''FIND_FREE_SLOTS'', ''FIND_EVENT'', ''LIST_EVENTS'', ''LIST_ALL_CALENDARS'']),
    (''create_event'', [''CREATE_EVENT'', ''FIND_FREE_SLOTS'', ''FIND_EVENT'']),
    (''create_meeting'', [''CREATE_EVENT'', ''FIND_FREE_SLOTS'', ''FIND_EVENT'', ''LIST_EVENTS'']),
    (''list_meetings'', [''FIND_EVENT'', ''LIST_EVENTS'', ''LIST_ALL_CALENDARS'', ''EVENTS_LIST_ALL_CALENDARS'']),
    (''check_calendar'', [''FIND_EVENT'', ''LIST_EVENTS'', ''LIST_ALL_CALENDARS'', ''EVENTS_LIST_ALL_CALENDARS'']),
    (''reschedule'', [''UPDATE_EVENT'', ''FIND_EVENT'', ''FIND_FREE_SLOTS'', ''LIST_EVENTS'']),
    (''cancel_meeting'', [''DELETE_EVENT'', ''FIND_EVENT'', ''LIST_EVENTS'']),
    (''cancel_event'', [''DELETE_EVENT'', ''FIND_EVENT'']),
    (''availability'', [''FIND_FREE_SLOTS'', ''FIND_EVENT'', ''LIST_EVENTS'']), (''freebusy'', [''FIND_FREE_SLOTS'']),
    (''create_document'', [''CREATE_DOCUMENT'', ''CREATE_DOCUMENT_FROM_TEXT'']),
    (''edit_document'', [''APPEND_TEXT'', ''UPDATE_DOCUMENT'']), (''upload_file'', [''UPLOAD_FILE'']),
    (''download_file'', [''DOWNLOAD_FILE'']), (''search_drive'', [''SEARCH_FILE'', ''FIND_FILE'', ''LIST_FILES'']),
    (''list_files'', [''LIST_FILES'', ''SEARCH_FILE'']), (''create_page'', [''CREATE_PAGE'', ''CREATE_A_NEW_PAGE'']),
    (''create_task'', [''CREATE_PAGE'', ''CREATE_A_NEW_PAGE'', ''CREATE_BLOCK'']),
    (''list_tasks'', [''FETCH_PAGE'', ''LIST_PAGES'', ''FETCH_DATABASE'']),
    (''search_notion'', [''SEARCH_NOTION'', ''FETCH_PAGE'']),
    (''create_issue'', [''CREATE_ISSUE'', ''ISSUES_CREATE'']), (''list_issues'', [''ISSUES_LIST'', ''LIST_ISSUES'']),
    (''create_pr'', [''CREATE_PULL_REQUEST'', ''PULLS_CREATE'']),
    (''list_pr'', [''PULLS_LIST'', ''LIST_PULL_REQUESTS'']),
    (''send_message'', [''SENDS_A_MESSAGE'', ''CHAT_POST_MESSAGE'']), (''search_messages'', [''SEARCH_FOR_MESSAGES'']),
    (''list_channels'', [''LIST_ALL_SLACK_TEAM_CHANNELS''])]"

text \<open>\<open>dict.update\<close> with the tables of the registry: an entry of the registry replaces the one above.\<close>

definition update_table :: "(string, string list) dict \<Rightarrow> (string, string list) dict \<Rightarrow> (string, string list) dict" where
  "update_table d e = fold (\<lambda>(k, v). dict_set k v) e d"

definition intent_provider_map :: "(string, string list) dict" where
  "intent_provider_map = update_table own_providers get_provider_map"

definition intent_action_map :: "(string, string list) dict" where
  "intent_action_map = update_table own_actions get_action_map"

text \<open>The union of the entries whose keyword occurs in the text.\<close>

definition matched :: "(string, string list) dict \<Rightarrow> string \<Rightarrow> string list" where
  "matched d needle = concat (map snd (filter (\<lambda>(k, _). contains_sub k needle) d))"

section \<open>Providers\<close>

definition provider_filter :: "(string, string list) dict \<Rightarrow> tool_definition list \<Rightarrow> string option \<Rightarrow> tool_definition list" where
  "provider_filter table tools i = (case i of None \<Rightarrow> tools
     | Some i \<Rightarrow>
        (if i = [] then tools
         else
           (let allowed = matched table (lower i);
                kept = filter (\<lambda>t. lower (td_provider t) \<in> set allowed) tools
            in if allowed = [] \<or> kept = [] then tools else kept)))"

definition filter_tools_by_intent :: "tool_definition list \<Rightarrow> string option \<Rightarrow> tool_definition list" where
  "filter_tools_by_intent = provider_filter intent_provider_map"

section \<open>Schemas\<close>

definition compact_type :: "jobj \<Rightarrow> jobj" where
  "compact_type prop = (case dict_get prop ''type'' of None \<Rightarrow> [] | Some v \<Rightarrow> [(''type'', v)])"

definition compact_enum :: "jobj \<Rightarrow> jobj" where
  "compact_enum prop = (case dict_get prop ''enum'' of Some (JArr vs) \<Rightarrow> if length vs \<le> 8 then [(''enum'', JArr vs)] else []
     | _ \<Rightarrow> [])"

definition compact_items :: "jobj \<Rightarrow> jobj" where
  "compact_items prop = (case dict_get prop ''items'' of
       Some (JObj d) \<Rightarrow>
         if dict_get prop ''type'' = Some (JStr ''array'') \<and> truthy (jget d ''type'' JNull)
         then [(''items'', JObj [(''type'', jget d ''type'' JNull)])] else []
     | _ \<Rightarrow> [])"

definition compact_property :: "json \<Rightarrow> jobj" where
  "compact_property p = (case p of JObj d \<Rightarrow> compact_type d @ compact_enum d @ compact_items d | _ \<Rightarrow> [])"

text \<open>\<open>properties\<close> that are neither a dictionary nor false have no \<open>items()\<close>: the \<open>AttributeError\<close> leaves the function.\<close>

definition compact_schema :: "jobj \<Rightarrow> jobj option" where
  "compact_schema schema =
     (let props = jget schema ''properties'' JNull;
          rest = (case dict_get schema ''required'' of None \<Rightarrow> [] | Some r \<Rightarrow> [(''required'', r)])
      in case (if truthy props then props else JObj []) of
           JObj d \<Rightarrow> Some ([(''type'', jget schema ''type'' (JStr ''object'')),
               (''properties'', JObj (map (\<lambda>(n, p). (n, JObj (compact_property p))) d))] @ rest)
         | _ \<Rightarrow> None)"

primrec compact_tool_schemas :: "tool_definition list \<Rightarrow> tool_definition list option" where
  "compact_tool_schemas [] = Some []"
| "compact_tool_schemas (t # ts) = (case compact_schema (td_schema t) of None \<Rightarrow> None
     | Some d \<Rightarrow> map_option (\<lambda>us. t \<lparr>td_schema := d\<rparr> # us) (compact_tool_schemas ts))"

section \<open>Actions\<close>

definition max_tools_per_intent :: nat where "max_tools_per_intent = 8"

definition filter_stop_words :: "string list" where
  "filter_stop_words = [''the'', ''a'', ''an'', ''to'', ''for'', ''with'', ''from'', ''in'', ''on'', ''at'', ''by'', ''of'',
     ''and'', ''or'', ''is'', ''all'']"

definition token_sep :: "char \<Rightarrow> bool" where
  "token_sep c \<longleftrightarrow> c = CHR ''_'' \<or> c = CHR ''.'' \<or> c = CHR ''-'' \<or> is_space c"

text \<open>Splitting at runs of separators; the empty parts are dropped with the short ones below.\<close>

definition tokens :: "string \<Rightarrow> string list" where
  "tokens s = remdups (filter (\<lambda>p. length p > 1 \<and> p \<notin> set filter_stop_words)
     (split_on (CHR ''_'') (map (\<lambda>c. if token_sep c then CHR ''_'' else c) (lower s))))"

definition match_count :: "string list \<Rightarrow> tool_definition \<Rightarrow> nat" where
  "match_count wanted t = length (filter (\<lambda>w. w \<in> set (tokens (td_name t)) \<or> w \<in> set (tokens (td_description t))) wanted)"

definition fuzzy_filter :: "tool_definition list \<Rightarrow> string \<Rightarrow> tool_definition list" where
  "fuzzy_filter tools needle =
     (let wanted = tokens needle; scored = filter (\<lambda>t. match_count wanted t > 0) tools
      in if wanted = [] \<or> scored = [] then tools
         else take max_tools_per_intent (sort_key (\<lambda>t. - int (match_count wanted t)) scored))"

definition filter_tools_by_action :: "tool_definition list \<Rightarrow> string option \<Rightarrow> tool_definition list" where
  "filter_tools_by_action tools i = (case i of None \<Rightarrow> tools
     | Some i \<Rightarrow>
        (if i = [] \<or> tools = [] then tools
         else
           (let actions = matched intent_action_map (lower i);
                kept = filter (\<lambda>t. list_ex (\<lambda>a. contains_sub a (upper (td_name t))) actions) tools
            in if actions \<noteq> [] \<and> kept \<noteq> [] then take max_tools_per_intent kept else fuzzy_filter tools (lower i))))"

definition legacy_keyword_filter :: "tool_definition list \<Rightarrow> string \<Rightarrow> tool_definition list" where
  "legacy_keyword_filter tools i = filter_tools_by_action (filter_tools_by_intent tools (Some i)) (Some i)"

section \<open>The filters fail open\<close>

lemma provider_filter_open: "set (provider_filter d ts i) \<subseteq> set ts" "ts \<noteq> [] \<Longrightarrow> provider_filter d ts i \<noteq> []"
  by (auto simp: provider_filter_def Let_def split: option.splits)

lemma fuzzy_filter_open: "set (fuzzy_filter ts i) \<subseteq> set ts" "ts \<noteq> [] \<Longrightarrow> fuzzy_filter ts i \<noteq> []"
  using set_take_subset by (fastforce simp: fuzzy_filter_def Let_def max_tools_per_intent_def sort_key_Nil split: if_splits)+

lemma legacy_filter_open:
  "set (legacy_keyword_filter ts i) \<subseteq> set ts"
  "ts \<noteq> [] \<Longrightarrow> legacy_keyword_filter ts i \<noteq> []"
proof -
  have sub: "set (filter_tools_by_action us j) \<subseteq> set us" for us j
    using fuzzy_filter_open(1) [of us] set_take_subset [of max_tools_per_intent]
    by (cases j) (auto simp: filter_tools_by_action_def Let_def dest!: in_set_takeD)
  have ne: "us \<noteq> [] \<Longrightarrow> filter_tools_by_action us j \<noteq> []" for us j
    using fuzzy_filter_open(2) by (auto simp: filter_tools_by_action_def Let_def max_tools_per_intent_def split: option.splits)
  show "set (legacy_keyword_filter ts i) \<subseteq> set ts"
    using sub provider_filter_open(1) unfolding legacy_keyword_filter_def filter_tools_by_intent_def by blast
  show "ts \<noteq> [] \<Longrightarrow> legacy_keyword_filter ts i \<noteq> []"
    unfolding legacy_keyword_filter_def filter_tools_by_intent_def by (intro ne provider_filter_open(2))
qed

text \<open>The merge is not additive: the generic workflows name no provider and no action, so the entries written here for
  the same intents are gone.\<close>

lemma merged_entries_lost:
  "dict_get own_providers ''schedule_meeting'' = Some [''googlecalendar'', ''gmail'']"
  "dict_get intent_provider_map ''schedule_meeting'' = Some []"
  "dict_get intent_action_map ''send_email'' = Some []"
  by code_simp+

end
