(* ===== verification/Circuit_Breaker.thy ===== *)
theory Circuit_Breaker
  imports Aexor_Prelude
begin

text \<open>
  \<open>Planner/adapters/circuit_breaker.py\<close>: one breaker per model. A call takes the lock to be admitted,
  runs without it, and takes it again to record its outcome, so calls overlap; \<open>bstep\<close> interleaves
  these atomic parts. Times are microseconds of the monotonic clock.
\<close>

section \<open>The breaker\<close>

datatype circuit_state = Closed_circuit | Open_circuit | Half_open

record breaker_config =
  bc_failures :: int
  bc_timeout_s :: int
  bc_successes :: int

definition default_breaker :: breaker_config where
  "default_breaker = \<lparr>bc_failures = 5, bc_timeout_s = 60, bc_successes = 2\<rparr>"

record breaker =
  br_state :: circuit_state
  br_failures :: int
  br_successes :: int
  br_last_failure :: "int option"

definition new_breaker :: breaker where
  "new_breaker = \<lparr>br_state = Closed_circuit, br_failures = 0, br_successes = 0, br_last_failure = None\<rparr>"

definition timeout_elapsed :: "breaker_config \<Rightarrow> int \<Rightarrow> breaker \<Rightarrow> bool" where
  "timeout_elapsed cfg now b = (case br_last_failure b of None \<Rightarrow> False
     | Some t \<Rightarrow> now - t \<ge> bc_timeout_s cfg * 1000000)"

definition get_state :: "breaker_config \<Rightarrow> int \<Rightarrow> breaker \<Rightarrow> circuit_state" where
  "get_state cfg now b = (if br_state b = Open_circuit \<and> timeout_elapsed cfg now b then Half_open else br_state b)"

text \<open>The first part of \<open>call\<close>: the state the call was admitted in, or \<open>None\<close> for \<open>CircuitOpenError\<close>.\<close>

definition begin_call :: "breaker_config \<Rightarrow> int \<Rightarrow> breaker \<Rightarrow> circuit_state option \<times> breaker" where
  "begin_call cfg now b =
     (if br_state b = Open_circuit then
        (if timeout_elapsed cfg now b then (Some Half_open, b \<lparr>br_state := Half_open, br_successes := 0\<rparr>)
         else (None, b))
      else (Some (br_state b), b))"

definition on_failure :: "breaker_config \<Rightarrow> int \<Rightarrow> breaker \<Rightarrow> breaker" where
  "on_failure cfg now b =
     (let b = b \<lparr>br_last_failure := Some now\<rparr> in
      if br_state b = Half_open then b \<lparr>br_state := Open_circuit, br_failures := bc_failures cfg\<rparr>
      else
        (let b = b \<lparr>br_failures := br_failures b + 1\<rparr> in
         if br_failures b \<ge> bc_failures cfg then b \<lparr>br_state := Open_circuit\<rparr> else b))"

definition on_success :: "breaker_config \<Rightarrow> circuit_state \<Rightarrow> breaker \<Rightarrow> breaker" where
  "on_success cfg at_call b =
     (if at_call = Half_open \<or> br_state b = Half_open then
        (let b = b \<lparr>br_successes := br_successes b + 1\<rparr> in
         if br_successes b \<ge> bc_successes cfg
         then b \<lparr>br_state := Closed_circuit, br_failures := 0, br_successes := 0\<rparr> else b)
      else b \<lparr>br_failures := 0\<rparr>)"

text \<open>The outcome of a call. The code records an \<open>Exception\<close>; a cancelled call (a \<open>BaseException\<close>) records nothing and is not modelled.\<close>

definition end_call :: "breaker_config \<Rightarrow> int \<Rightarrow> circuit_state \<Rightarrow> bool \<Rightarrow> breaker \<Rightarrow> breaker" where
  "end_call cfg now at_call ok b = (if ok then on_success cfg at_call b else on_failure cfg now b)"

section \<open>Calls one after the other\<close>

text \<open>A call: when it is made, how long the function runs and whether it succeeds. The result is whether
  the function was called at all.\<close>

record model_call =
  mc_at :: int
  mc_takes :: int
  mc_ok :: bool

definition call :: "breaker_config \<Rightarrow> model_call \<Rightarrow> breaker \<Rightarrow> bool \<times> breaker" where
  "call cfg c b = (case begin_call cfg (mc_at c) b of
       (None, b') \<Rightarrow> (False, b')
     | (Some s, b') \<Rightarrow> (True, end_call cfg (mc_at c + mc_takes c) s (mc_ok c) b'))"

fun calls :: "breaker_config \<Rightarrow> model_call list \<Rightarrow> breaker \<Rightarrow> bool list \<times> breaker" where
  "calls cfg [] b = ([], b)"
| "calls cfg (c # cs) b = (let (a, b') = call cfg c b; (as, b'') = calls cfg cs b' in (a # as, b''))"

text \<open>
  What the breaker promises to a client that makes one call at a time: it passes calls and counts
  failures in a row, blocks for the timeout after the failure that reached the limit, then probes
  until enough probes in a row succeeded; one failed probe blocks again.
\<close>

datatype promise = Passing int | Blocking int | Probing int

definition probe :: "breaker_config \<Rightarrow> model_call \<Rightarrow> int \<Rightarrow> promise" where
  "probe cfg c n = (if mc_ok c then (if n + 1 \<ge> bc_successes cfg then Passing 0 else Probing (n + 1))
     else Blocking (mc_at c + mc_takes c))"

fun promised :: "breaker_config \<Rightarrow> model_call \<Rightarrow> promise \<Rightarrow> bool \<times> promise" where
  "promised cfg c (Passing k) = (True, if mc_ok c then Passing 0
     else if k + 1 \<ge> bc_failures cfg then Blocking (mc_at c + mc_takes c) else Passing (k + 1))"
| "promised cfg c (Blocking t) = (if mc_at c - t \<ge> bc_timeout_s cfg * 1000000 then (True, probe cfg c 0) else (False, Blocking t))"
| "promised cfg c (Probing n) = (True, probe cfg c n)"

fun promises :: "breaker_config \<Rightarrow> model_call list \<Rightarrow> promise \<Rightarrow> bool list \<times> promise" where
  "promises cfg [] s = ([], s)"
| "promises cfg (c # cs) s = (let (a, s') = promised cfg c s; (as, s'') = promises cfg cs s' in (a # as, s''))"

definition promise_of :: "breaker \<Rightarrow> promise" where
  "promise_of b = (case br_state b of Closed_circuit \<Rightarrow> Passing (br_failures b)
     | Open_circuit \<Rightarrow> Blocking (the (br_last_failure b)) | Half_open \<Rightarrow> Probing (br_successes b))"

definition breaker_ok :: "breaker \<Rightarrow> bool" where
  "breaker_ok b \<longleftrightarrow> (br_state b = Open_circuit \<longrightarrow> br_last_failure b \<noteq> None)"

lemma call_refines:
  assumes "breaker_ok b"
  shows "promised cfg c (promise_of b) = map_prod id promise_of (call cfg c b)" "breaker_ok (snd (call cfg c b))"
  using assms
  by (cases "br_state b"; auto simp: promise_of_def call_def begin_call_def end_call_def on_success_def on_failure_def
      timeout_elapsed_def breaker_ok_def probe_def Let_def)+

text \<open>C21. Used by one call at a time, the breaker implements the promise exactly: it admits the same calls and ends
  in the state the abstraction maps to the promised one.\<close>

theorem breaker_keeps_promise:
  "promises cfg cs (promise_of new_breaker) = map_prod id promise_of (calls cfg cs new_breaker)"
proof -
  have "breaker_ok b \<Longrightarrow> promises cfg cs (promise_of b) = map_prod id promise_of (calls cfg cs b)" for b
  proof (induction cs arbitrary: b)
    case (Cons c cs)
    obtain a b' where ab: "call cfg c b = (a, b')" by (cases "call cfg c b")
    with call_refines [OF Cons.prems, of cfg c] have "promised cfg c (promise_of b) = (a, promise_of b')" "breaker_ok b'"
      by simp_all
    with Cons.IH [of b'] ab show ?case by (simp add: case_prod_beta)
  qed simp
  then show ?thesis by (simp add: breaker_ok_def new_breaker_def)
qed

section \<open>Calls that overlap\<close>

text \<open>The calls in flight, each with the state it was admitted in.\<close>

record pool =
  po_breaker :: breaker
  po_now :: int
  po_flying :: "circuit_state list"

inductive bstep :: "breaker_config \<Rightarrow> pool \<Rightarrow> pool \<Rightarrow> bool" for cfg where
  tick: "0 \<le> d \<Longrightarrow> bstep cfg p (p \<lparr>po_now := po_now p + d\<rparr>)"
| admit: "begin_call cfg (po_now p) (po_breaker p) = (Some s, b) \<Longrightarrow>
    bstep cfg p (p \<lparr>po_breaker := b, po_flying := po_flying p @ [s]\<rparr>)"
| refuse: "begin_call cfg (po_now p) (po_breaker p) = (None, b) \<Longrightarrow> bstep cfg p (p \<lparr>po_breaker := b\<rparr>)"
| finish: "po_flying p = xs @ s # ys \<Longrightarrow>
    bstep cfg p (p \<lparr>po_breaker := end_call cfg (po_now p) s ok (po_breaker p), po_flying := xs @ ys\<rparr>)"

inductive_cases bstepE: "bstep cfg p p'"

definition blocked :: "int \<Rightarrow> nat \<Rightarrow> pool \<Rightarrow> bool" where
  "blocked t n p \<longleftrightarrow> br_state (po_breaker p) = Open_circuit \<and> Half_open \<notin> set (po_flying p) \<and> length (po_flying p) \<le> n \<and>
     (\<exists>u. br_last_failure (po_breaker p) = Some u \<and> t \<le> u) \<and> t \<le> po_now p"

lemma blocked_step:
  assumes "bstep cfg p p'" "blocked t n p" "po_now p' < t + bc_timeout_s cfg * 1000000"
  shows "blocked t n p'"
proof -
  have finished: "br_state (end_call cfg (po_now p) s ok (po_breaker p)) = Open_circuit"
      "\<exists>u. br_last_failure (end_call cfg (po_now p) s ok (po_breaker p)) = Some u \<and> t \<le> u" if "Half_open \<noteq> s" for s ok
    using that assms(2) by (auto simp: blocked_def end_call_def on_success_def on_failure_def Let_def)
  from assms show ?thesis
    by (elim bstepE) (auto simp: blocked_def begin_call_def timeout_elapsed_def finished split: if_splits)
qed

text \<open>An open breaker admits nothing until the timeout after its last failure has passed, however the calls
  still in flight end, as long as none of them was admitted as a trial.\<close>

theorem open_breaker_blocks:
  assumes "(bstep cfg)\<^sup>*\<^sup>* p p'" "br_state (po_breaker p) = Open_circuit" "br_last_failure (po_breaker p) = Some t"
    and "t \<le> po_now p" "Half_open \<notin> set (po_flying p)" "po_now p' < t + bc_timeout_s cfg * 1000000"
  shows "br_state (po_breaker p') = Open_circuit \<and> length (po_flying p') \<le> length (po_flying p)"
proof -
  have mono: "po_now q \<le> po_now q'" if "bstep cfg q q'" for q q' using that by (cases rule: bstepE) auto
  from assms(1,6) have "blocked t (length (po_flying p)) p'"
  proof (induction rule: rtranclp_induct)
    case base
    then show ?case using assms(2-5) by (auto simp: blocked_def)
  next
    case (step q q')
    with mono [OF step(2)] blocked_step [OF step(2)] show ?case by auto
  qed
  then show ?thesis by (simp add: blocked_def)
qed

text \<open>A breaker of one failure whose timeout has just passed: it opens at 0 and blocks for a minute.\<close>

definition one_failure :: breaker_config where
  "one_failure = default_breaker \<lparr>bc_failures := 1\<rparr>"

definition opened :: pool where
  "opened = \<lparr>po_breaker = on_failure one_failure 0 new_breaker, po_now = 0, po_flying = [Closed_circuit]\<rparr>"

theorem open_breaker_blocks_witness:
  "br_state (po_breaker (opened \<lparr>po_now := po_now opened + 59000000\<rparr>)) = Open_circuit \<and>
   length (po_flying (opened \<lparr>po_now := po_now opened + 59000000\<rparr>)) \<le> length (po_flying opened)"
proof (rule open_breaker_blocks)
  show "(bstep one_failure)\<^sup>*\<^sup>* opened (opened \<lparr>po_now := po_now opened + 59000000\<rparr>)"
    by (rule r_into_rtranclp, rule bstep.tick) simp
  show "br_last_failure (po_breaker opened) = Some 0"
    by (simp add: opened_def on_failure_def new_breaker_def one_failure_def default_breaker_def)
qed (simp_all add: opened_def on_failure_def new_breaker_def one_failure_def default_breaker_def)

text \<open>
  With a trial in flight the bound fails: of three trials one succeeds, one fails and opens the
  breaker again, and the success of the third closes it at once, in the same microsecond.
\<close>

definition trials :: pool where
  "trials = \<lparr>po_breaker = \<lparr>br_state = Half_open, br_failures = 5, br_successes = 0, br_last_failure = Some 0\<rparr>,
     po_now = 60000000, po_flying = [Half_open, Half_open, Half_open]\<rparr>"

definition finish_first :: "bool \<Rightarrow> pool \<Rightarrow> pool" where
  "finish_first ok p = p \<lparr>po_breaker := end_call default_breaker (po_now p) (hd (po_flying p)) ok (po_breaker p),
     po_flying := tl (po_flying p)\<rparr>"

lemma finish_first_step: "po_flying p \<noteq> [] \<Longrightarrow> bstep default_breaker p (finish_first ok p)"
  unfolding finish_first_def by (rule bstep.finish [where xs = "[]", simplified]) simp

lemma stale_trial_closes_breaker:
  "br_state (po_breaker (finish_first False (finish_first True trials))) = Open_circuit \<and>
   br_state (po_breaker (finish_first True (finish_first False (finish_first True trials)))) = Closed_circuit \<and>
   po_now (finish_first True (finish_first False (finish_first True trials))) = po_now trials"
  by (simp add: finish_first_def trials_def end_call_def on_success_def on_failure_def default_breaker_def)

end
