(* ===== verification/Plan_Hasher.thy ===== *)
theory Plan_Hasher
  imports Plan_Schema
begin

text \<open>
  \<open>Planner/adapters/plan_hasher.py\<close> and the \<open>model_dump\<close> of a plan it hashes. The digest of a
  dictionary (\<open>json.dumps\<close> with sorted keys, then SHA-256) is a parameter of the callers.
\<close>

definition intent_dump :: "intent \<Rightarrow> (int \<Rightarrow> string) \<Rightarrow> json" where
  "intent_dump i shown = JObj
     [(''intent'', JStr (in_intent i)), (''entities'', JObj (in_entities i)), (''constraints'', JObj (in_constraints i)),
      (''tz'', JStr (in_tz i)), (''user_id'', JStr (in_user_id i)), (''context_budget'', jopt JInt (in_context_budget i)),
      (''session_id'', jopt JStr (in_session_id i)), (''trace_id'', jopt JStr (in_trace_id i)),
      (''sub_intents'', JArr (map JStr (in_sub_intents i))),
      (''tool_overrides'', JObj (map (\<lambda>(n, t). (shown n, JStr t)) (in_tool_overrides i)))]"

definition constraints_dump :: "plan_constraints \<Rightarrow> json" where
  "constraints_dump c = JObj [(''scopes'', JArr (map JStr (pc_scopes c))), (''ttl_s'', JInt (pc_ttl_s c)),
     (''max_retries'', JInt (pc_max_retries c)), (''policy_version'', JInt (pc_policy_version c))]"

definition meta_dump :: "plan_meta \<Rightarrow> json" where
  "meta_dump m = JObj [(''created_at'', JStr (pm_created_at m)), (''author'', JStr (pm_author m)),
     (''version'', JStr (pm_version m)), (''canonical_hash'', JStr (pm_canonical_hash m)), (''hash_algo'', JStr ''sha256'')]"

definition plan_dump :: "(int \<Rightarrow> string) \<Rightarrow> plan \<Rightarrow> jobj" where
  "plan_dump shown p =
     [(''plan_id'', JStr (pl_plan_id p)), (''intent'', intent_dump (pl_intent p) shown),
      (''trace_id'', jopt JStr (pl_trace_id p)), (''graph'', JArr (map (JObj \<circ> step_dump) (pl_graph p))),
      (''constraints'', constraints_dump (pl_constraints p)), (''plugins'', JArr (map JStr (pl_plugins p))),
      (''meta'', meta_dump (pl_meta p)), (''plan_revision'', JInt (pl_plan_revision p))]"

definition step_runtime_fields :: "string list" where
  "step_runtime_fields = [''status'', ''result'', ''error'']"

definition top_runtime_fields :: "string list" where
  "top_runtime_fields = [''policy_attestations'']"

definition without :: "string list \<Rightarrow> jobj \<Rightarrow> jobj" where
  "without ks d = filter (\<lambda>(k, _). k \<notin> set ks) d"

text \<open>The entries of \<open>graph\<close> must be dictionaries; another value has no \<open>items()\<close>.\<close>

primrec strip_steps :: "json list \<Rightarrow> json list option" where
  "strip_steps [] = Some []"
| "strip_steps (j # js) = (case j of
       JObj d \<Rightarrow> map_option (\<lambda>xs. JObj (without step_runtime_fields d) # xs) (strip_steps js)
     | _ \<Rightarrow> None)"

definition strip_runtime_fields :: "jobj \<Rightarrow> jobj option" where
  "strip_runtime_fields d =
     (let cleaned = without top_runtime_fields d in
      case dict_get cleaned ''graph'' of
        Some (JArr js) \<Rightarrow> map_option (\<lambda>xs. dict_set ''graph'' (JArr xs) cleaned) (strip_steps js)
      | _ \<Rightarrow> Some cleaned)"

definition compute_plan_hash :: "(jobj \<Rightarrow> string) \<Rightarrow> jobj \<Rightarrow> string option" where
  "compute_plan_hash digest d = map_option digest (strip_runtime_fields d)"

section \<open>What the hash does not depend on\<close>

lemma strip_dumped_steps:
  "strip_steps (map (JObj \<circ> step_dump) g) = Some (map (\<lambda>s. JObj (without step_runtime_fields (step_dump s))) g)"
  by (induction g) simp_all

definition same_at_rest :: "plan_step \<Rightarrow> plan_step \<Rightarrow> bool" where
  "same_at_rest s t \<longleftrightarrow> s \<lparr>ps_status := Pending, ps_result := None, ps_error := None\<rparr>
     = t \<lparr>ps_status := Pending, ps_result := None, ps_error := None\<rparr>"

lemma same_at_rest_dump: "same_at_rest s t \<Longrightarrow> without step_runtime_fields (step_dump s) = without step_runtime_fields (step_dump t)"
  by (cases s, cases t) (simp add: same_at_rest_def step_dump_def without_def step_runtime_fields_def)

text \<open>The dictionary the planner hashes: the dump without the identifier and the metadata.\<close>

definition hashable :: "(int \<Rightarrow> string) \<Rightarrow> plan \<Rightarrow> jobj" where
  "hashable shown p = without [''plan_id'', ''meta''] (plan_dump shown p)"

lemma hashable_eq:
  "hashable shown p = [(''intent'', intent_dump (pl_intent p) shown), (''trace_id'', jopt JStr (pl_trace_id p)),
     (''graph'', JArr (map (JObj \<circ> step_dump) (pl_graph p))), (''constraints'', constraints_dump (pl_constraints p)),
     (''plugins'', JArr (map JStr (pl_plugins p))), (''plan_revision'', JInt (pl_plan_revision p))]"
  by (simp add: hashable_def plan_dump_def without_def)

lemma plan_hash_total: "compute_plan_hash digest (hashable shown p) = Some (digest
    [(''intent'', intent_dump (pl_intent p) shown), (''trace_id'', jopt JStr (pl_trace_id p)),
     (''graph'', JArr (map (\<lambda>s. JObj (without step_runtime_fields (step_dump s))) (pl_graph p))),
     (''constraints'', constraints_dump (pl_constraints p)), (''plugins'', JArr (map JStr (pl_plugins p))),
     (''plan_revision'', JInt (pl_plan_revision p))])"
proof -
  have "without top_runtime_fields (hashable shown p) = hashable shown p"
    by (simp add: hashable_eq without_def top_runtime_fields_def)
  then show ?thesis
    by (simp add: compute_plan_hash_def strip_runtime_fields_def) (simp add: hashable_eq strip_dumped_steps)
qed

lemma plan_hash_ignores_runtime:
  assumes "list_all2 same_at_rest (pl_graph p) g"
  shows "compute_plan_hash digest (hashable shown (p \<lparr>pl_plan_id := pid, pl_meta := m, pl_graph := g\<rparr>)) =
    compute_plan_hash digest (hashable shown p)"
proof -
  have "map (\<lambda>s. JObj (without step_runtime_fields (step_dump s))) g
      = map (\<lambda>s. JObj (without step_runtime_fields (step_dump s))) (pl_graph p)"
    using assms by (induction rule: list_all2_induct) (simp_all add: same_at_rest_dump)
  then show ?thesis unfolding plan_hash_total by simp
qed

end
