(* ===== verification/Planner_Service.thy ===== *)
theory Planner_Service
  imports Deterministic_Planner Tool_Filter Circuit_Breaker Plan_Hasher
begin

text \<open>
  \<open>generate_plan\<close> of \<open>Planner/service/planner_service.py\<close> and the operations it calls: the choice of the
  tools, the plan cache, the deterministic planner, the cached skeleton, the four fallback levels with
  their breakers, and the finalisation of the plan. The answers of ContextRAG, the model, PlanLibrary,
  the tool discovery and the caches are fields of the environment; so are the identifiers, the time
  stamps, the digest, and the order in which Python lists a set of names. Durations and logging are left out.
\<close>

section \<open>Errors, environment and state\<close>

datatype planner_error = Tools_unavailable "string list" | Tool_not_connected | Model_invalid

datatype discovery = Not_connected | Discovered "tool_definition list" | Discovery_failed

record llm_answer =
  an_takes :: int
  an_text :: "string option"

record library_template =
  lt_confidence :: rat
  lt_steps :: "plan_step list option"

record skeleton_item =
  si_step :: int
  si_role :: string
  si_type :: string
  si_tool :: string
  si_after :: "int list"
  si_gate :: "string option"

record cached_skeleton =
  cs_steps :: "skeleton_item list"
  cs_at :: int

record planner_env =
  pn_now :: int
  pn_ulid :: "nat \<Rightarrow> string"
  pn_created :: "nat \<Rightarrow> string"
  pn_listing :: "string list \<Rightarrow> string list"
  pn_digest :: "jobj \<Rightarrow> string"
  pn_shown :: "int \<Rightarrow> string"
  pn_catalog :: tool_dict
  pn_cached_tools :: "tool_definition list option option"
  pn_refreshed :: "tool_definition list"
  pn_discovery :: "(tool_definition list \<Rightarrow> discovery) option"
  pn_expand :: "(string \<Rightarrow> tool_definition list option) option"
  pn_degraded :: bool
  pn_cached_plan :: "string list \<Rightarrow> plan option"
  pn_deterministic :: bool
  pn_answer1 :: llm_answer
  pn_answer2 :: llm_answer
  pn_loads :: "string \<Rightarrow> json option"
  pn_model_validate :: "jobj \<Rightarrow> plan option"
  pn_args_size :: "jobj \<Rightarrow> nat"
  pn_plan_size :: "plan \<Rightarrow> nat"
  pn_templates :: "library_template list option"
  pn_fallback_model :: string
  pn_breaker :: breaker_config

record planner_state =
  pt_primary :: breaker
  pt_fallback :: breaker
  pt_skeletons :: "(string, cached_skeleton) dict"

record planner_result =
  pr_plan :: plan
  pr_level :: nat
  pr_degraded :: bool

section \<open>Finalisation\<close>

definition virtual_tool :: "string \<Rightarrow> bool" where
  "virtual_tool u \<longleftrightarrow> starts_with ''system.'' u \<or> starts_with ''system_'' u"

definition needs_tool :: "plan_step \<Rightarrow> bool" where
  "needs_tool s \<longleftrightarrow> ps_type s = Api \<and> ps_role s \<noteq> Resolver \<and> \<not> virtual_tool (ps_uses s)"

definition step_tool :: "tool_dict \<Rightarrow> plan_step \<Rightarrow> tool_definition option" where
  "step_tool cat s = resolve_tool cat (ps_uses s) (Some (ps_call s))"

definition rename_step :: "string \<Rightarrow> plan_step \<Rightarrow> plan_step" where
  "rename_step n s = s \<lparr>ps_uses := n, ps_call := n\<rparr>"

definition resolve_step :: "tool_dict \<Rightarrow> plan_step \<Rightarrow> plan_step" where
  "resolve_step cat s =
     (let s' = (if needs_tool s then
                  (case step_tool cat s of Some t \<Rightarrow> if td_name t \<noteq> ps_uses s then rename_step (td_name t) s else s | None \<Rightarrow> s)
                else s)
      in if ps_dry_run s' then s' else s' \<lparr>ps_dry_run := True\<rparr>)"

definition unresolved_tools :: "tool_dict \<Rightarrow> plan_step list \<Rightarrow> string list" where
  "unresolved_tools cat g = map ps_uses (filter (\<lambda>s. needs_tool s \<and> step_tool cat s = None) g)"

text \<open>The agentic expansion: the first step that still uses the missing tool gets the first tool found.\<close>

fun replace_first :: "string \<Rightarrow> string \<Rightarrow> plan_step list \<Rightarrow> plan_step list option" where
  "replace_first old new [] = None"
| "replace_first old new (s # ss) = (if ps_uses s = old then Some (rename_step new s # ss)
     else map_option (\<lambda>ts. s # ts) (replace_first old new ss))"

fun expand_tools :: "(string \<Rightarrow> tool_definition list option) \<Rightarrow> string list \<Rightarrow> plan_step list \<Rightarrow> string list \<times> plan_step list" where
  "expand_tools f [] g = ([], g)"
| "expand_tools f (t # ts) g = (case f t of
       Some (d # _) \<Rightarrow> (case replace_first t (td_name d) g of
           Some g' \<Rightarrow> expand_tools f ts g'
         | None \<Rightarrow> (let (left, g') = expand_tools f ts g in (t # left, g')))
     | _ \<Rightarrow> (let (left, g') = expand_tools f ts g in (t # left, g')))"

definition with_hash :: "planner_env \<Rightarrow> plan \<Rightarrow> plan" where
  "with_hash env p = (case compute_plan_hash (pn_digest env) (hashable (pn_shown env) p) of
       None \<Rightarrow> p | Some h \<Rightarrow> p \<lparr>pl_meta := (pl_meta p) \<lparr>pm_canonical_hash := h\<rparr>\<rparr>)"

definition finalize_plan :: "planner_env \<Rightarrow> intent \<Rightarrow> tool_definition list \<Rightarrow> plan \<Rightarrow> planner_error + plan" where
  "finalize_plan env i available p =
     (let p = p \<lparr>pl_plan_id := pn_ulid env 1, pl_intent := i, pl_trace_id := in_trace_id i,
                 pl_meta := new_meta (pn_created env 1) zero_hash\<rparr>;
          g = map (resolve_step (pn_catalog env)) (pl_graph p);
          missing = unresolved_tools (pn_catalog env) (pl_graph p);
          (missing, g) = (case pn_expand env of Some f \<Rightarrow> if missing \<noteq> [] \<and> available \<noteq> [] then expand_tools f missing g else (missing, g)
            | None \<Rightarrow> (missing, g))
      in if missing \<noteq> [] then Inl (Tools_unavailable missing)
         else Inr (with_hash env (p \<lparr>pl_graph := g, pl_plugins := pn_listing env (map ps_uses g)\<rparr>)))"

section \<open>The tools of a request\<close>

definition user_tools :: "planner_env \<Rightarrow> tool_definition list option" where
  "user_tools env = (case pn_cached_tools env of None \<Rightarrow> None | Some (Some ts) \<Rightarrow> Some ts | Some None \<Rightarrow> Some (pn_refreshed env))"

definition discovered_tools :: "planner_env \<Rightarrow> intent \<Rightarrow> tool_definition list \<Rightarrow> planner_error + tool_definition list" where
  "discovered_tools env i ts = (case pn_discovery env of
       None \<Rightarrow> Inr (legacy_keyword_filter ts (in_intent i))
     | Some f \<Rightarrow> (case f ts of Not_connected \<Rightarrow> Inl Tool_not_connected | Discovered us \<Rightarrow> Inr us
         | Discovery_failed \<Rightarrow> Inr (legacy_keyword_filter ts (in_intent i))))"

text \<open>Tools the user picked are added from the user's tools when the selection dropped them.\<close>

definition add_overrides :: "planner_env \<Rightarrow> intent \<Rightarrow> tool_definition list \<Rightarrow> tool_definition list option" where
  "add_overrides env i ts =
     (let missing = filter (\<lambda>n. n \<notin> set (map td_name ts)) (map snd (in_tool_overrides i)) in
      if in_tool_overrides i = [] \<or> missing = [] then Some ts
      else map_option (\<lambda>all. ts @ filter (\<lambda>t. td_name t \<in> set missing) all) (user_tools env))"

text \<open>Every exception but the missing connection leaves the request without tools.\<close>

definition select_tools :: "planner_env \<Rightarrow> intent \<Rightarrow> planner_error + tool_definition list" where
  "select_tools env i = (case user_tools env of None \<Rightarrow> Inr []
     | Some ts \<Rightarrow> (case discovered_tools env i ts of
           Inl e \<Rightarrow> Inl e
         | Inr us \<Rightarrow> (case add_overrides env i us of None \<Rightarrow> Inr []
             | Some vs \<Rightarrow> (case compact_tool_schemas vs of None \<Rightarrow> Inr [] | Some ws \<Rightarrow> Inr ws))))"

section \<open>The cached skeleton\<close>

fun parse_role :: "string \<Rightarrow> role option" where
  "parse_role r = find (\<lambda>x. role_name x = r) [Fetcher, Analyzer, Watcher, Resolver, Booker, Notifier, Reasoner, Guard]"

fun parse_type :: "string \<Rightarrow> step_type option" where
  "parse_type t = find (\<lambda>x. step_type_name x = t) [Api, Llm_reasoning, Policy_check, Sanitizer]"

definition resolve_skeleton_tool :: "string \<Rightarrow> tool_definition list \<Rightarrow> string option" where
  "resolve_skeleton_tool t tools =
     (if t = [] \<or> is_system t then Some t
      else if list_ex (\<lambda>d. td_name d = t) tools then Some t
      else map_option td_name (find (\<lambda>d. contains_sub (lower t) (lower (td_name d))) tools))"

definition build_skeleton_args :: "string \<Rightarrow> jobj \<Rightarrow> jobj" where
  "build_skeleton_args r ents =
     (if r = ''Resolver'' then [(''message'', JStr ''Please confirm this action'')]
      else if r = ''Reasoner'' then [(''context'', JObj ents)] else ents)"

definition skeleton_step :: "planner_env \<Rightarrow> intent \<Rightarrow> tool_definition list \<Rightarrow> skeleton_item \<Rightarrow> plan_step option" where
  "skeleton_step env i tools k =
     (let picked = (case dict_get (in_tool_overrides i) (si_step k) of Some t \<Rightarrow> if t = [] then si_tool k else t | None \<Rightarrow> si_tool k);
          name = (case resolve_skeleton_tool picked tools of Some n \<Rightarrow> if n = [] then picked else n | None \<Rightarrow> picked);
          reasons = (si_role k = ''Reasoner'')
      in case (parse_role (si_role k), parse_type (si_type k)) of
           (Some r, Some ty) \<Rightarrow> Some ((new_plan_step (si_step k) Interactive r name name)
             \<lparr>ps_type := ty, ps_args := build_skeleton_args (si_role k) (in_entities i), ps_after := si_after k,
              ps_gate_id := si_gate k, ps_can_spawn := reasons, ps_max_spawned_steps := (if reasons then Some 3 else None),
              ps_trust_level := (if reasons then Some Trusted else None),
              ps_policy_ref := (if reasons then Some ''policy-reasoning-v1'' else None),
              ps_reasoning_config := (if ty = Llm_reasoning
                then model_config (pn_fallback_model env) 0 1024 (''Analyze and process for '' @ in_intent i) else None)\<rparr>)
         | _ \<Rightarrow> None)"

primrec skeleton_steps :: "planner_env \<Rightarrow> intent \<Rightarrow> tool_definition list \<Rightarrow> skeleton_item list \<Rightarrow> plan_step list option" where
  "skeleton_steps env i tools [] = Some []"
| "skeleton_steps env i tools (k # ks) = (case skeleton_step env i tools k of None \<Rightarrow> None
     | Some s \<Rightarrow> map_option (\<lambda>ss. s # ss) (skeleton_steps env i tools ks))"

definition checked_plan :: "plan \<Rightarrow> planner_error + plan" where
  "checked_plan p = (if plan_ok p then Inr p else Inl Model_invalid)"

definition plan_from_skeleton ::
  "planner_env \<Rightarrow> intent \<Rightarrow> tool_definition list \<Rightarrow> cached_skeleton \<Rightarrow> planner_error + plan option" where
  "plan_from_skeleton env i tools c = (case skeleton_steps env i tools (cs_steps c) of
       None \<Rightarrow> Inl Model_invalid
     | Some g \<Rightarrow> (if g = [] then Inr None
         else bind_res (checked_plan (new_plan (pn_ulid env 0) (pn_created env 0) i g (pn_listing env (map ps_uses g))))
           (\<lambda>p. Inr (Some p))))"

section \<open>The fallback levels\<close>

definition echo_step :: plan_step where
  "echo_step = (new_plan_step 1 Interactive Fetcher ''system.echo'' ''echo'')
     \<lparr>ps_args := [(''message'', JStr ''Plan generation fell back to minimal safe plan'')]\<rparr>"

definition minimal_plan :: "planner_env \<Rightarrow> intent \<Rightarrow> plan" where
  "minimal_plan env i = new_plan (pn_ulid env 0) (pn_created env 0) i [echo_step] [''system.echo'']"

definition validated :: "planner_env \<Rightarrow> string \<Rightarrow> validation_error + plan" where
  "validated env raw = validate (pn_loads env) (pn_model_validate env) (pn_args_size env) (pn_plan_size env) raw"

text \<open>One model: the plan it gave, the breaker after it, and the time.\<close>

definition try_llm_level :: "planner_env \<Rightarrow> llm_answer \<Rightarrow> int \<Rightarrow> breaker \<Rightarrow> plan option \<times> breaker \<times> int" where
  "try_llm_level env a now b = (case begin_call (pn_breaker env) now b of
       (None, b') \<Rightarrow> (None, b', now)
     | (Some s, b') \<Rightarrow>
         (let b'' = end_call (pn_breaker env) (now + an_takes a) s (an_text a \<noteq> None) b' in
          (case an_text a of None \<Rightarrow> None
             | Some raw \<Rightarrow> (case validated env raw of Inr p \<Rightarrow> Some p | Inl _ \<Rightarrow> None), b'', now + an_takes a)))"

text \<open>\<open>max(templates, key=confidence)\<close>: the first of the most confident.\<close>

fun best_template :: "library_template \<Rightarrow> library_template list \<Rightarrow> library_template" where
  "best_template t [] = t"
| "best_template t (u # us) = best_template (if lt_confidence u > lt_confidence t then u else t) us"

definition instantiate_template :: "planner_env \<Rightarrow> intent \<Rightarrow> library_template \<Rightarrow> plan option" where
  "instantiate_template env i t = (case lt_steps t of None \<Rightarrow> None
     | Some g \<Rightarrow>
        (let p = new_plan (pn_ulid env 0) (pn_created env 0) i (if g = [] then [echo_step] else g) (pn_listing env (map ps_uses g))
         in if plan_ok p then Some p else None))"

definition try_template_level :: "planner_env \<Rightarrow> intent \<Rightarrow> plan option" where
  "try_template_level env i = (case pn_templates env of None \<Rightarrow> None | Some [] \<Rightarrow> None
     | Some (t # ts) \<Rightarrow> instantiate_template env i (best_template t ts))"

definition last_levels :: "planner_env \<Rightarrow> intent \<Rightarrow> plan \<times> nat" where
  "last_levels env i = (case try_template_level env i of Some p \<Rightarrow> (p, 3) | None \<Rightarrow> (minimal_plan env i, 4))"

definition generate_with_fallback :: "planner_env \<Rightarrow> intent \<Rightarrow> planner_state \<Rightarrow> (plan \<times> nat) \<times> planner_state" where
  "generate_with_fallback env i st =
     (if get_state (pn_breaker env) (pn_now env) (pt_primary st) = Open_circuit \<and>
         get_state (pn_breaker env) (pn_now env) (pt_fallback st) = Open_circuit
      then (last_levels env i, st)
      else (case try_llm_level env (pn_answer1 env) (pn_now env) (pt_primary st) of
          (Some p, b, _) \<Rightarrow> ((p, 1), st \<lparr>pt_primary := b\<rparr>)
        | (None, b, now) \<Rightarrow> (case try_llm_level env (pn_answer2 env) now (pt_fallback st) of
            (Some p, b', _) \<Rightarrow> ((p, 2), st \<lparr>pt_primary := b, pt_fallback := b'\<rparr>)
          | (None, b', _) \<Rightarrow> (last_levels env i, st \<lparr>pt_primary := b, pt_fallback := b'\<rparr>))))"

section \<open>\<open>generate_plan\<close>\<close>

definition result_of :: "planner_env \<Rightarrow> nat \<Rightarrow> plan \<Rightarrow> planner_result" where
  "result_of env level p = \<lparr>pr_plan = p, pr_level = level, pr_degraded = pn_degraded env\<rparr>"

definition finish_plan :: "planner_env \<Rightarrow> intent \<Rightarrow> nat \<Rightarrow> plan \<Rightarrow> planner_error + planner_result" where
  "finish_plan env i level p = bind_res (finalize_plan env i [] p) (\<lambda>q. Inr (result_of env level q))"

text \<open>The plan cache: any failure, one of the finalisation included, is a miss.\<close>

definition try_plan_cache :: "planner_env \<Rightarrow> intent \<Rightarrow> string list \<Rightarrow> planner_result option" where
  "try_plan_cache env i names = (case pn_cached_plan env names of None \<Rightarrow> None
     | Some p \<Rightarrow> (case finish_plan env i 0 p of Inl _ \<Rightarrow> None | Inr r \<Rightarrow> Some r))"

definition try_deterministic :: "planner_env \<Rightarrow> intent \<Rightarrow> tool_definition list \<Rightarrow> planner_error + plan option" where
  "try_deterministic env i tools =
     (if pn_deterministic env \<and> can_handle i
      then (case build_plan (pn_ulid env 0) (pn_created env 0) i tools of Inl Invalid_plan \<Rightarrow> Inl Model_invalid | Inr r \<Rightarrow> Inr r)
      else Inr None)"

definition skeleton_key :: "intent \<Rightarrow> string" where
  "skeleton_key i = in_intent i @ '':'' @ in_user_id i"

definition skeleton_ttl_s :: int where "skeleton_ttl_s = 900"

definition try_skeleton :: "planner_env \<Rightarrow> intent \<Rightarrow> tool_definition list \<Rightarrow> planner_state \<Rightarrow> planner_error + plan option" where
  "try_skeleton env i tools st = (case dict_get (pt_skeletons st) (skeleton_key i) of
       None \<Rightarrow> Inr None
     | Some c \<Rightarrow> if pn_now env - cs_at c < skeleton_ttl_s * 1000000 then plan_from_skeleton env i tools c else Inr None)"

definition plan_by_model :: "planner_env \<Rightarrow> intent \<Rightarrow> planner_state \<Rightarrow> (planner_error + planner_result) \<times> planner_state" where
  "plan_by_model env i st = (case generate_with_fallback env i st of ((p, level), st') \<Rightarrow> (finish_plan env i level p, st'))"

text \<open>The plugins of a plan come out of a Python set; the order in which it is listed is the parameter \<open>pn_listing\<close>.\<close>

definition generate_plan :: "planner_env \<Rightarrow> intent \<Rightarrow> planner_state \<Rightarrow> (planner_error + planner_result) \<times> planner_state" where
  "generate_plan env i st = (case select_tools env i of
       Inl e \<Rightarrow> (Inl e, st)
     | Inr tools \<Rightarrow> (case try_plan_cache env i (map td_name tools) of
         Some r \<Rightarrow> (Inr r, st)
       | None \<Rightarrow> (case try_deterministic env i tools of
           Inl e \<Rightarrow> (Inl e, st)
         | Inr (Some p) \<Rightarrow> (finish_plan env i 0 p, st)
         | Inr None \<Rightarrow>
            (let popped = st \<lparr>pt_skeletons := AList.delete (skeleton_key i) (pt_skeletons st)\<rparr> in
             case try_skeleton env i tools st of
               Inl e \<Rightarrow> (Inl e, popped)
             | Inr (Some p) \<Rightarrow> (finish_plan env i 0 p, popped)
             | Inr None \<Rightarrow> plan_by_model env i popped))))"

end
