(* ===== verification/Planner_Results.thy ===== *)
theory Planner_Results
  imports Planner_Service
begin

text \<open>
  What \<open>generate_plan\<close> returns: every plan is finalised for the request, and the plans of the two model
  levels are renamings of plans the validator accepted.
\<close>

section \<open>The catalog behind a resolution\<close>

lemma first_named_in: "first_named d ns = Some t \<Longrightarrow> t \<in> snd ` set d"
  by (induction ns) (auto split: option.splits dest: map_of_SomeD intro: rev_image_eqI)

lemma resolve_tool_in:
  assumes "resolve_tool d uses c = Some t"
  shows "t \<in> snd ` set d"
proof (cases "first_named d (candidate_names uses c)")
  case None
  with assms obtain n where "find (\<lambda>(n, _). loosely_named (normalized uses) n) d = Some (n, t)"
    by (auto simp: resolve_tool_def)
  then have "(n, t) \<in> set d" by (auto simp: find_Some_iff) (metis nth_mem)
  then show ?thesis by force
next
  case (Some u)
  with assms first_named_in show ?thesis by (auto simp: resolve_tool_def)
qed

definition tool_listed :: "tool_dict \<Rightarrow> plan_step \<Rightarrow> bool" where
  "tool_listed cat s \<longleftrightarrow> \<not> needs_tool s \<or> ps_uses s \<in> td_name ` snd ` set cat"

lemma resolve_step_simps [simp]:
  "ps_step (resolve_step cat s) = ps_step s" "ps_after (resolve_step cat s) = ps_after s"
  "ps_role (resolve_step cat s) = ps_role s" "ps_gate_id (resolve_step cat s) = ps_gate_id s"
  "ps_type (resolve_step cat s) = ps_type s" "ps_dry_run (resolve_step cat s)"
  by (auto simp: resolve_step_def rename_step_def Let_def split: option.splits)

lemma resolve_step_listed:
  assumes "needs_tool s \<longrightarrow> step_tool cat s \<noteq> None"
  shows "tool_listed cat (resolve_step cat s)"
proof (cases "needs_tool s")
  case True
  with assms obtain t where t: "step_tool cat s = Some t" by blast
  then have "t \<in> snd ` set cat" by (auto simp: step_tool_def dest: resolve_tool_in)
  moreover have "ps_uses (resolve_step cat s) = td_name t"
    using True t by (simp add: resolve_step_def rename_step_def Let_def)
  ultimately show ?thesis by (simp add: tool_listed_def)
next
  case False
  then have "\<not> needs_tool (resolve_step cat s)" by (simp add: resolve_step_def Let_def) (simp add: needs_tool_def)
  then show ?thesis by (simp add: tool_listed_def)
qed

section \<open>Finalised plans\<close>

definition finalized :: "planner_env \<Rightarrow> intent \<Rightarrow> plan \<Rightarrow> bool" where
  "finalized env i p \<longleftrightarrow>
     pl_plan_id p = pn_ulid env 1 \<and> pl_intent p = i \<and> pl_trace_id p = in_trace_id i \<and>
     list_all (\<lambda>s. ps_dry_run s \<and> tool_listed (pn_catalog env) s) (pl_graph p) \<and>
     pl_plugins p = pn_listing env (map ps_uses (pl_graph p)) \<and>
     compute_plan_hash (pn_digest env) (hashable (pn_shown env) p) = Some (pm_canonical_hash (pl_meta p))"

lemma hash_of_meta: "compute_plan_hash dg (hashable sh (p \<lparr>pl_meta := m\<rparr>)) = compute_plan_hash dg (hashable sh p)"
  unfolding plan_hash_total by simp

lemma with_hash_simps [simp]:
  "pl_plan_id (with_hash env p) = pl_plan_id p" "pl_intent (with_hash env p) = pl_intent p"
  "pl_trace_id (with_hash env p) = pl_trace_id p" "pl_graph (with_hash env p) = pl_graph p"
  "pl_plugins (with_hash env p) = pl_plugins p"
  "compute_plan_hash (pn_digest env) (hashable (pn_shown env) (with_hash env p)) = Some (pm_canonical_hash (pl_meta (with_hash env p)))"
  by (simp_all add: with_hash_def plan_hash_total split: option.splits)

lemma finalize_Inr:
  assumes "finalize_plan env i [] p = Inr q"
  shows "unresolved_tools (pn_catalog env) (pl_graph p) = []"
    "pl_graph q = map (resolve_step (pn_catalog env)) (pl_graph p)"
    "pl_plan_id q = pn_ulid env 1" "pl_intent q = i" "pl_trace_id q = in_trace_id i"
    "pl_plugins q = pn_listing env (map ps_uses (pl_graph q))"
    "compute_plan_hash (pn_digest env) (hashable (pn_shown env) q) = Some (pm_canonical_hash (pl_meta q))"
  using assms by (auto simp: finalize_plan_def Let_def split: if_splits option.splits)

lemma finalize_plan_finalized:
  assumes "finalize_plan env i [] p = Inr q"
  shows "finalized env i q"
proof -
  note f = finalize_Inr [OF assms]
  have "list_all (\<lambda>s. ps_dry_run s \<and> tool_listed (pn_catalog env) s) (pl_graph q)"
    unfolding f(2) list_all_iff
    using f(1) by (auto simp: unresolved_tools_def filter_empty_conv intro!: resolve_step_listed)
  with f(3-7) show ?thesis by (simp add: finalized_def)
qed

lemma finish_plan_Inr:
  assumes "finish_plan env i level p = Inr r"
  obtains q where "finalize_plan env i [] p = Inr q" "r = result_of env level q"
  using assms by (auto simp: finish_plan_def bind_res_Inr_iff)

lemma last_levels_cases: "last_levels env i = (p, l) \<Longrightarrow> l = 3 \<or> l = 4"
  by (auto simp: last_levels_def split: option.splits)

lemma try_llm_level_Some:
  "try_llm_level env a now b = (Some p, b', t) \<Longrightarrow> \<exists>raw. an_text a = Some raw \<and> validated env raw = Inr p"
  by (auto simp: try_llm_level_def Let_def split: prod.splits option.splits sum.splits)

definition answer_at :: "planner_env \<Rightarrow> nat \<Rightarrow> llm_answer" where
  "answer_at env level = (if level = 1 then pn_answer1 env else pn_answer2 env)"

lemma fallback_levels:
  assumes "generate_with_fallback env i st = ((p, level), st')"
  shows "level \<in> {1, 2} \<and> (\<exists>raw. an_text (answer_at env level) = Some raw \<and> validated env raw = Inr p) \<or>
    level \<in> {3, 4} \<and> last_levels env i = (p, level)"
  using assms
  by (auto simp: generate_with_fallback_def answer_at_def split: if_splits prod.splits option.splits
      dest: last_levels_cases try_llm_level_Some)

lemma generate_plan_Inr:
  assumes "generate_plan env i st = (Inr r, st')"
  obtains (early) p where "finish_plan env i 0 p = Inr r"
    | (model) p level st1 st2 where "generate_with_fallback env i st1 = ((p, level), st2)" "finish_plan env i level p = Inr r"
  using assms
  by (auto simp: generate_plan_def try_plan_cache_def plan_by_model_def Let_def split: sum.splits option.splits prod.splits)

text \<open>C19. Every plan the planner returns is finalised for the request, whichever level made it: it carries the intent,
  every step is a dry run, every step that calls a tool names a tool of the catalog, the plugin list is that of its
  steps, and the canonical hash is the hash of the plan itself.\<close>

theorem generated_plan_finalized:
  assumes "generate_plan env i st = (Inr r, st')"
  shows "finalized env i (pr_plan r) \<and> pr_level r \<le> 4 \<and> pr_degraded r = pn_degraded env"
proof -
  have fin: "finalized env i (pr_plan r) \<and> pr_level r = level \<and> pr_degraded r = pn_degraded env"
    if "finish_plan env i level p = Inr r" for level p
    using that by (elim finish_plan_Inr) (auto simp: result_of_def intro: finalize_plan_finalized)
  from assms show ?thesis
  proof (cases rule: generate_plan_Inr)
    case (early p)
    with fin [OF early] show ?thesis by simp
  next
    case (model p level st1 st2)
    with fin [OF model(2)] fallback_levels [OF model(1)] show ?thesis by auto
  qed
qed

section \<open>Plans of the models\<close>

lemma structure_resolve_step: "structure_error (map (resolve_step cat) g) = structure_error g"
proof -
  have "step_structure_error ids (resolve_step cat s) = step_structure_error ids s" for ids s
    unfolding step_structure_error_def resolve_step_simps ..
  then show ?thesis by (simp add: structure_error_def step_ids_def o_def first_error_map)
qed

text \<open>C18. A plan of the primary or the secondary model is a plan the validator accepted from that model's answer, with its
  tools renamed: it can still be scheduled and every Booker still waits for a gate. The last two hypotheses are
  Pydantic's contract and that a plan has steps.\<close>

theorem model_plan_validated:
  assumes "generate_plan env i st = (Inr r, st')" "pr_level r \<in> {1, 2}"
    and "\<And>d q. pn_model_validate env d = Some q \<Longrightarrow> plan_ok q"
  shows "\<exists>raw p. an_text (answer_at env (pr_level r)) = Some raw \<and> validated env raw = Inr p \<and>
    pl_graph (pr_plan r) = map (resolve_step (pn_catalog env)) (pl_graph p) \<and>
    (\<exists>lv. resolve (pl_graph (pr_plan r)) = Some (Inr lv)) \<and>
    list_all (\<lambda>s. ps_role s \<noteq> Booker \<or> ps_gate_id s \<noteq> None) (pl_graph (pr_plan r))"
  using assms(1)
proof (cases rule: generate_plan_Inr)
  case (early p)
  then have "pr_level r = 0" by (elim finish_plan_Inr) (simp add: result_of_def)
  with assms(2) show ?thesis by simp
next
  case (model p level st1 st2)
  then obtain q where q: "finalize_plan env i [] p = Inr q" "r = result_of env level q" by (elim finish_plan_Inr)
  then have level: "pr_level r = level" "pr_plan r = q" by (simp_all add: result_of_def)
  with fallback_levels [OF model(1)] assms(2)
  obtain raw where raw: "an_text (answer_at env level) = Some raw" "validated env raw = Inr p" by auto
  from raw(2) obtain d where d: "pn_model_validate env (inject_placeholders d) = Some p" "structure_error (pl_graph p) = None"
      "business_error (pn_args_size env) (pn_plan_size env) p = None"
    unfolding validated_def by (rule validate_Inr)
  note g = finalize_Inr(2) [OF q(1)]
  have s: "structure_error (pl_graph q) = None" unfolding g structure_resolve_step by (rule d(2))
  have "pl_graph q \<noteq> []" using plan_ok_graph [OF assms(3) [OF d(1)]] by (simp add: g)
  then have "\<exists>lv. resolve (pl_graph q) = Some (Inr lv)"
    using resolve_iff_acyclic structure_error_None(1) [OF s] structure_acyclic [OF s] by blast
  moreover have "list_all (\<lambda>s. ps_role s \<noteq> Booker \<or> ps_gate_id s \<noteq> None) (pl_graph q)"
    using business_accepts(4) [OF d(3)] by (auto simp: g list_all_iff)
  ultimately show ?thesis using raw g unfolding level by blast
qed

section \<open>A request the primary model answers\<close>

definition demo_tool :: "string \<Rightarrow> tool_definition" where
  "demo_tool n = \<lparr>td_name = n, td_server = ''composio'', td_provider = ''cal'', td_description = [], td_schema = []\<rparr>"

definition demo_catalog :: tool_dict where
  "demo_catalog = [(''CAL_LIST'', demo_tool ''CAL_LIST''), (''CAL_CREATE'', demo_tool ''CAL_CREATE'')]"

definition planner_demo :: planner_env where
  "planner_demo = \<lparr>pn_now = 0, pn_ulid = (\<lambda>_. sample_id), pn_created = (\<lambda>_. []), pn_listing = (\<lambda>xs. xs), pn_digest = (\<lambda>_. zero_hash),
     pn_shown = show_int, pn_catalog = demo_catalog, pn_cached_tools = None, pn_refreshed = [], pn_discovery = None, pn_expand = None,
     pn_degraded = False, pn_cached_plan = (\<lambda>_. None), pn_deterministic = False,
     pn_answer1 = \<lparr>an_takes = 1, an_text = Some ''{}''\<rparr>, pn_answer2 = \<lparr>an_takes = 1, an_text = None\<rparr>,
     pn_loads = (\<lambda>_. Some (JObj [])), pn_model_validate = (\<lambda>_. Some (plan_of (sample_graph [2]))), pn_args_size = (\<lambda>_. 0),
     pn_plan_size = (\<lambda>_. 0), pn_templates = None, pn_fallback_model = ''m'', pn_breaker = default_breaker\<rparr>"

definition fresh_planner :: planner_state where
  "fresh_planner = \<lparr>pt_primary = new_breaker, pt_fallback = new_breaker, pt_skeletons = []\<rparr>"

lemma demo_validates: "validated planner_demo ''{}'' = Inr (plan_of (sample_graph [2]))"
  by (simp add: validated_def planner_demo_def sample_validate)

lemma demo_resolves: "unresolved_tools demo_catalog (sample_graph [2]) = []"
  by (simp add: unresolved_tools_def sample_defs needs_tool_def step_tool_def demo_catalog_def resolve_tool_def candidate_names_def)

lemma demo_level1: "generate_with_fallback planner_demo sample_intent fresh_planner = ((plan_of (sample_graph [2]), 1),
    fresh_planner \<lparr>pt_primary := on_success default_breaker Closed_circuit new_breaker\<rparr>)"
  using demo_validates
  by (simp add: generate_with_fallback_def try_llm_level_def fresh_planner_def new_breaker_def get_state_def begin_call_def
      planner_demo_def end_call_def)

lemma demo_finished: "\<exists>r. finish_plan planner_demo sample_intent 1 (plan_of (sample_graph [2])) = Inr r \<and> pr_level r = 1"
proof -
  have "pn_catalog planner_demo = demo_catalog" "pn_expand planner_demo = None" by (simp_all add: planner_demo_def)
  then show ?thesis
    using demo_resolves by (simp add: finish_plan_def finalize_plan_def Let_def plan_of_def result_of_def)
qed

lemma demo_generates:
  obtains r st where "generate_plan planner_demo sample_intent fresh_planner = (Inr r, st)" "pr_level r = 1"
proof -
  have "generate_plan planner_demo sample_intent fresh_planner = plan_by_model planner_demo sample_intent fresh_planner"
    by (simp add: generate_plan_def select_tools_def user_tools_def try_plan_cache_def try_deterministic_def try_skeleton_def
        planner_demo_def fresh_planner_def)
  then have "fst (generate_plan planner_demo sample_intent fresh_planner) =
      finish_plan planner_demo sample_intent 1 (plan_of (sample_graph [2]))"
    by (simp add: plan_by_model_def demo_level1)
  with demo_finished that show thesis by (metis prod.collapse)
qed

theorem generated_plan_finalized_witness:
  "\<exists>r st. generate_plan planner_demo sample_intent fresh_planner = (Inr r, st) \<and> finalized planner_demo sample_intent (pr_plan r)"
proof -
  obtain r st where r: "generate_plan planner_demo sample_intent fresh_planner = (Inr r, st)" by (rule demo_generates)
  with generated_plan_finalized [OF r] show ?thesis by blast
qed

theorem model_plan_validated_witness:
  "\<exists>r st. generate_plan planner_demo sample_intent fresh_planner = (Inr r, st) \<and>
     (\<exists>lv. resolve (pl_graph (pr_plan r)) = Some (Inr lv)) \<and> pr_level r = 1"
proof -
  obtain r st where r: "generate_plan planner_demo sample_intent fresh_planner = (Inr r, st)" "pr_level r = 1"
    by (rule demo_generates)
  have "pr_level r \<in> {1, 2}" using r(2) by simp
  moreover have "plan_ok q" if "pn_model_validate planner_demo d = Some q" for d q
    using that sample_plan_ok by (auto simp: planner_demo_def)
  ultimately have "\<exists>lv. resolve (pl_graph (pr_plan r)) = Some (Inr lv)"
    using model_plan_validated [OF r(1)] by blast
  with r show ?thesis by blast
qed

end
