(* ===== verification/Scheduler_Service.thy ===== *)
theory Scheduler_Service
  imports Scheduler_Store Planner_Results Execute_Safety
begin

text \<open>
  The scheduler (\<open>components/Scheduler/service/scheduler_service.py\<close>): the rows of \<open>Scheduler_Store\<close>, the
  jobs registered with APScheduler, and the run of a job through the models of the planner, the
  ApprovalGate and the executor. APScheduler is its table of jobs and, as parameters, which triggers its
  constructors accept and the next fire time of a cron trigger. The calls of \<open>datetime.now\<close> of one
  operation give one instant.
\<close>

section \<open>State and environment\<close>

datatype trigger = Date_trigger datetime string | Cron_trigger cron_args string "datetime option"

record job =
  jb_trigger :: trigger
  jb_name :: string

text \<open>\<open>ss_jobs\<close> is \<open>None\<close> until \<open>start\<close> makes a scheduler.\<close>

record sched_state =
  ss_rows :: rows
  ss_jobs :: "(string, job) dict option"

record sched_lib =
  sl_cron_ok :: "string \<Rightarrow> cron_args \<Rightarrow> bool"
  sl_date_ok :: "string \<Rightarrow> datetime \<Rightarrow> bool"
  sl_next :: "string \<Rightarrow> cron_args \<Rightarrow> int \<Rightarrow> datetime option"
  sl_show_time :: "int \<Rightarrow> string"

section \<open>Approval mode and next run\<close>

definition read_only_regex :: regex where
  "read_only_regex = Seq (Line_start False) (alts (map lit [''list'', ''check'', ''show'', ''get'', ''view'', ''find'', ''search'',
     ''query''] @ [seqs [lit ''look'', opt (lit ''_''), lit ''up'']] @ map lit [''fetch'', ''read'', ''display'']))"

definition infer_approval_mode :: "string \<Rightarrow> string" where
  "infer_approval_mode intent_type =
     (if re_match True read_only_regex intent_type \<noteq> None then ''auto_approve'' else ''notify_and_wait'')"

definition compute_next_run :: "('l) sched_lib_scheme \<Rightarrow> recurrence_config \<Rightarrow> string \<Rightarrow> int \<Rightarrow> datetime" where
  "compute_next_run lib c tz now = (case recurrence_to_trigger_kwargs c of
       Inl e \<Rightarrow> utc now
     | Inr kw \<Rightarrow> if sl_cron_ok lib tz kw
         then (case sl_next lib tz kw now of None \<Rightarrow> utc now | Some d \<Rightarrow> d) else utc now)"

section \<open>Jobs\<close>

definition job_id :: "string \<Rightarrow> string" where
  "job_id sid = ''scheduled_plan_'' @ sid"

text \<open>The job of a schedule, \<open>None\<close> when it has no trigger data.\<close>

definition job_of :: "('l) sched_lib_scheme \<Rightarrow> ('v) scheduled_plan_scheme \<Rightarrow> sched_error + job option" where
  "job_of lib r =
     (let named = (\<lambda>t. \<lparr>jb_trigger = t, jb_name = ''schedule:'' @ sp_name r\<rparr>) in
      case (sp_schedule_type r = ''once'', sp_scheduled_at r) of
        (True, Some d) \<Rightarrow> if sl_date_ok lib (sp_timezone r) d then Inr (Some (named (Date_trigger d (sp_timezone r))))
          else Inl (Sched_crash ''ValueError'' ''trigger'')
      | _ \<Rightarrow> (case (sp_schedule_type r = ''recurring'', sp_recurrence_config r) of
            (True, Some c) \<Rightarrow>
              if \<not> recurrence_ok c then Inl (Sched_crash ''ValidationError'' ''RecurrenceConfig'')
              else bind_res (recurrence_to_trigger_kwargs c) (\<lambda>kw.
                if sl_cron_ok lib (sp_timezone r) kw
                then Inr (Some (named (Cron_trigger kw (sp_timezone r) (rc_end_date c))))
                else Inl (Sched_crash ''ValueError'' ''trigger''))
          | _ \<Rightarrow> Inr None))"

definition register_job :: "('l) sched_lib_scheme \<Rightarrow> scheduled_plan \<Rightarrow> 'r sched_state_scheme \<Rightarrow> (sched_error + unit) \<times> 'r sched_state_scheme" where
  "register_job lib r st = (case ss_jobs st of
       None \<Rightarrow> (Inr (), st)
     | Some js \<Rightarrow> (case job_of lib r of
           Inl e \<Rightarrow> (Inl e, st)
         | Inr None \<Rightarrow> (Inr (), st)
         | Inr (Some j) \<Rightarrow> (Inr (), st \<lparr>ss_jobs := Some (dict_set (job_id (sp_id r)) j js)\<rparr>)))"

definition remove_job :: "string \<Rightarrow> 'r sched_state_scheme \<Rightarrow> 'r sched_state_scheme" where
  "remove_job sid st = st \<lparr>ss_jobs := map_option (AList.delete (job_id sid)) (ss_jobs st)\<rparr>"

definition start_scheduler :: "('l) sched_lib_scheme \<Rightarrow> 'r sched_state_scheme \<Rightarrow> 'r sched_state_scheme" where
  "start_scheduler lib st =
     fold (\<lambda>r s. snd (register_job lib r s)) (get_active_schedules (ss_rows st)) (st \<lparr>ss_jobs := Some []\<rparr>)"

text \<open>The in-memory job store forgets its jobs when it is shut down.\<close>

definition stop_scheduler :: "'r sched_state_scheme \<Rightarrow> 'r sched_state_scheme" where
  "stop_scheduler st = st \<lparr>ss_jobs := map_option (\<lambda>_. []) (ss_jobs st)\<rparr>"

section \<open>Creating\<close>

record create_request =
  cq_name :: string
  cq_intent_type :: string
  cq_skeleton_json :: jobj
  cq_entities_json :: jobj
  cq_constraints_json :: jobj
  cq_schedule_type :: string
  cq_scheduled_at :: "datetime option"
  cq_recurrence_config :: "recurrence_config option"
  cq_timezone :: string
  cq_approval_mode :: "string option"
  cq_max_runs :: "int option"
  cq_source_plan_id :: "string option"

text \<open>When a schedule runs: \<open>next_run_at\<close>, the text shown and the recurrence stored.\<close>

definition schedule_times :: "('l) sched_lib_scheme \<Rightarrow> int \<Rightarrow> create_request \<Rightarrow>
    sched_error + datetime \<times> string option \<times> recurrence_config option" where
  "schedule_times lib now q =
     (if cq_schedule_type q = ''once'' then (case cq_scheduled_at q of
          None \<Rightarrow> Inl (Schedule_invalid ''scheduled_at is required for one-time schedules'')
        | Some d \<Rightarrow> if dt_wall d < now then Inl (Schedule_invalid ''scheduled_at must be in the future'')
            else Inr (d, None, None))
      else if cq_schedule_type q = ''recurring'' then (case cq_recurrence_config q of
          None \<Rightarrow> Inl (Schedule_invalid ''recurrence_config is required for recurring schedules'')
        | Some c \<Rightarrow> bind_res (recurrence_to_display c) (\<lambda>shown.
            Inr (compute_next_run lib c (cq_timezone q) now, Some shown, Some c)))
      else Inl (Schedule_invalid (''Invalid schedule_type: '' @ cq_schedule_type q)))"

definition approval_mode_of :: "create_request \<Rightarrow> string" where
  "approval_mode_of q = (case cq_approval_mode q of
       None \<Rightarrow> infer_approval_mode (cq_intent_type q)
     | Some m \<Rightarrow> if m = [] then infer_approval_mode (cq_intent_type q) else m)"

definition create_schedule :: "('l) sched_lib_scheme \<Rightarrow> int \<Rightarrow> string \<Rightarrow> string \<Rightarrow> create_request \<Rightarrow> 'r sched_state_scheme \<Rightarrow>
    (sched_error + scheduled_plan) \<times> 'r sched_state_scheme" where
  "create_schedule lib now sid user q st = (case schedule_times lib now q of
       Inl e \<Rightarrow> (Inl e, st)
     | Inr (next_run, shown, rec) \<Rightarrow>
         (let (r, rs) = create_scheduled_plan sid now
            \<lparr>sp_user_id = user, sp_name = cq_name q, sp_intent_type = cq_intent_type q, sp_skeleton_json = cq_skeleton_json q,
             sp_entities_json = cq_entities_json q, sp_constraints_json = cq_constraints_json q,
             sp_schedule_type = cq_schedule_type q, sp_scheduled_at = cq_scheduled_at q, sp_cron_expression = shown,
             sp_recurrence_config = rec, sp_timezone = cq_timezone q, sp_approval_mode = approval_mode_of q,
             sp_next_run_at = Some next_run, sp_max_runs = cq_max_runs q, sp_source_plan_id = cq_source_plan_id q\<rparr> (ss_rows st)
          in case register_job lib r (st \<lparr>ss_rows := rs\<rparr>) of
               (Inl e, s) \<Rightarrow> (Inl e, s)
             | (Inr _, s) \<Rightarrow> (Inr r, s)))"

section \<open>Reading, updating, deleting\<close>

definition not_found :: "string \<Rightarrow> sched_error" where
  "not_found sid = Schedule_not_found (''Schedule '' @ sid @ '' not found'')"

definition get_schedule :: "string \<Rightarrow> string \<Rightarrow> 'r sched_state_scheme \<Rightarrow> sched_error + scheduled_plan" where
  "get_schedule sid user st = (case get_scheduled_plan sid user (ss_rows st) of
     None \<Rightarrow> Inl (not_found sid) | Some r \<Rightarrow> Inr r)"

record update_request =
  uq_name :: "string option"
  uq_status :: "string option"
  uq_entities_json :: "jobj option"
  uq_scheduled_at :: "datetime option"
  uq_recurrence_config :: "recurrence_config option"
  uq_timezone :: "string option"
  uq_approval_mode :: "string option"
  uq_max_runs :: "int option"

definition col :: "('a \<Rightarrow> column) \<Rightarrow> 'a option \<Rightarrow> column list" where
  "col f v = (case v of None \<Rightarrow> [] | Some x \<Rightarrow> [f x])"

text \<open>The status column and whether the job is removed first.\<close>

definition status_change :: "string \<Rightarrow> string \<Rightarrow> bool" where
  "status_change old new \<longleftrightarrow> new = ''paused'' \<and> old = ''active'' \<or> new = ''cancelled''"

definition schedule_edits :: "('l) sched_lib_scheme \<Rightarrow> int \<Rightarrow> scheduled_plan \<Rightarrow> update_request \<Rightarrow> sched_error + column list" where
  "schedule_edits lib now r q =
     (let once = (case uq_scheduled_at q of
            Some d \<Rightarrow> if sp_schedule_type r = ''once'' then [C_scheduled d, C_next_run d] else []
          | None \<Rightarrow> [])
      in case uq_recurrence_config q of
           Some c \<Rightarrow> if sp_schedule_type r = ''recurring'' then bind_res (recurrence_to_display c) (\<lambda>shown.
               let tz = (case uq_timezone q of None \<Rightarrow> sp_timezone r | Some z \<Rightarrow> if z = [] then sp_timezone r else z) in
               Inr (once @ [C_recurrence c, C_cron shown, C_next_run (compute_next_run lib c tz now)]))
             else Inr once
         | None \<Rightarrow> Inr once)"

text \<open>An edited recurrence is dumped without \<open>mode="json"\<close>: an end date is still a \<open>datetime\<close>, which the
  JSON column refuses.\<close>

definition storable :: "column list \<Rightarrow> bool" where
  "storable cs \<longleftrightarrow> list_all (\<lambda>c. case c of C_recurrence rc \<Rightarrow> rc_end_date rc = None | _ \<Rightarrow> True) cs"

definition plain_columns :: "update_request \<Rightarrow> column list" where
  "plain_columns q = col C_name (uq_name q) @ col C_entities (uq_entities_json q) @ col C_timezone (uq_timezone q) @
     col C_approval (uq_approval_mode q) @ col C_max_runs (uq_max_runs q) @ col C_status (uq_status q)"

definition update_schedule :: "('l) sched_lib_scheme \<Rightarrow> int \<Rightarrow> string \<Rightarrow> string \<Rightarrow> update_request \<Rightarrow> 'r sched_state_scheme \<Rightarrow>
    (sched_error + scheduled_plan option) \<times> 'r sched_state_scheme" where
  "update_schedule lib now sid user q st = (case get_scheduled_plan sid user (ss_rows st) of
       None \<Rightarrow> (Inl (not_found sid), st)
     | Some r \<Rightarrow>
         (let st1 = (case uq_status q of
                None \<Rightarrow> st
              | Some s \<Rightarrow> if status_change (sp_status r) s then remove_job sid st else st)
          in case schedule_edits lib now r q of
               Inl e \<Rightarrow> (Inl e, st1)
             | Inr edits \<Rightarrow>
                 (let cs = plain_columns q @ edits in
                  if \<not> storable cs then (Inl (Sched_crash ''StatementError'' ''Object of type datetime is not JSON serializable''), st1)
                  else let st2 = st1 \<lparr>ss_rows := snd (update_scheduled_plan sid user now cs (ss_rows st1))\<rparr> in
                       case get_scheduled_plan sid user (ss_rows st2) of
                         None \<Rightarrow> (Inr None, st2)
                       | Some u \<Rightarrow>
                           if sp_status u = ''active''
                           then (case register_job lib u (remove_job sid st2) of
                                   (Inl e, st3) \<Rightarrow> (Inl e, st3) | (Inr _, st3) \<Rightarrow> (Inr (Some u), st3))
                           else (Inr (Some u), st2))))"

definition delete_schedule :: "string \<Rightarrow> string \<Rightarrow> 'r sched_state_scheme \<Rightarrow> (sched_error + unit) \<times> 'r sched_state_scheme" where
  "delete_schedule sid user st =
     (let st1 = remove_job sid st; (deleted, rs) = delete_scheduled_plan sid user (ss_rows st1) in
      (if deleted then Inr () else Inl (not_found sid), st1 \<lparr>ss_rows := rs\<rparr>))"

end
