(* ===== verification/Gate_Pause.thy ===== *)
theory Gate_Pause
  imports Execute_Safety
begin

text \<open>
  How an execution is paused: the only exception \<open>execute_plan\<close> lets out is \<open>GateApprovalRequired\<close>, and
  as long as the tools, the model and the other collaborators do not raise that class themselves, it comes from a
  step of the plan with a closed gate. \<open>only P m\<close> says that \<open>m\<close> raises only exceptions with \<open>P\<close>.
\<close>

section \<open>Raised exceptions\<close>

named_theorems only_intros \<open>what computations raise\<close>

definition only :: "('e \<Rightarrow> bool) \<Rightarrow> ('s, 'e, 'a) comp \<Rightarrow> bool" where
  "only P m \<longleftrightarrow> (\<forall>s e s'. m s = (Inl e, s') \<longrightarrow> P e)"

lemma onlyD: "only P m \<Longrightarrow> m s = (Inl e, s') \<Longrightarrow> P e"
  unfolding only_def by blast

lemma onlyI: "(\<And>s e s'. m s = (Inl e, s') \<Longrightarrow> P e) \<Longrightarrow> only P m"
  by (simp add: only_def)

lemma only_basic [only_intros]:
  "only P (retS a)" "only P (readS f)" "only P (modS g)" "only P (Pair (Inr a))"
  by (simp_all add: only_def)

lemma only_throwS [only_intros]: "P e \<Longrightarrow> only P (throwS e)" "P e \<Longrightarrow> only P (Pair (Inl e))"
  by (simp_all add: only_def)

lemma only_bindS [only_intros]: "only P m \<Longrightarrow> (\<And>a. only P (f a)) \<Longrightarrow> only P (bindS m f)"
  unfolding only_def by (metis bindS_InlE)

lemma only_thenS [only_intros]: "only P m \<Longrightarrow> only P n \<Longrightarrow> only P (thenS m n)"
  unfolding thenS_def by (rule only_bindS)

lemma only_tryS [only_intros]: "(\<And>e. only Q m \<Longrightarrow> Q e \<Longrightarrow> only P (h e)) \<Longrightarrow> only Q m \<Longrightarrow> only P (tryS m h)"
  unfolding only_def tryS_def by (fastforce split: prod.splits sum.splits)

lemma only_finallyS [only_intros]: "only P m \<Longrightarrow> only P n \<Longrightarrow> only P (finallyS m n)"
  unfolding only_def finallyS_def by (fastforce split: prod.splits sum.splits)

lemma only_forS [only_intros]: "(\<And>x. x \<in> set xs \<Longrightarrow> only P (f x)) \<Longrightarrow> only P (forS f xs)"
  by (induction xs) (auto intro: only_intros)

lemma only_if [only_intros]: "(b \<Longrightarrow> only P m) \<Longrightarrow> (\<not> b \<Longrightarrow> only P n) \<Longrightarrow> only P (if b then m else n)"
  by simp

lemma only_option [only_intros]:
  "(x = None \<Longrightarrow> only P m) \<Longrightarrow> (\<And>a. x = Some a \<Longrightarrow> only P (f a)) \<Longrightarrow> only P (case x of None \<Rightarrow> m | Some a \<Rightarrow> f a)"
  by (cases x) simp_all

lemma only_sum [only_intros]:
  "(\<And>e. x = Inl e \<Longrightarrow> only P (g e)) \<Longrightarrow> (\<And>a. x = Inr a \<Longrightarrow> only P (f a)) \<Longrightarrow> only P (case x of Inl e \<Rightarrow> g e | Inr a \<Rightarrow> f a)"
  by (cases x) simp_all

lemma only_let [only_intros]: "only P (f x) \<Longrightarrow> only P (let y = x in f y)"
  by simp

lemma only_weaken: "only Q m \<Longrightarrow> (\<And>e. Q e \<Longrightarrow> P e) \<Longrightarrow> only P m"
  by (auto simp: only_def)

section \<open>Ordinary exceptions\<close>

text \<open>\<open>ordinary\<close>: any exception but \<open>GateApprovalRequired\<close>.\<close>

definition ordinary :: "exec_error \<Rightarrow> bool" where
  "ordinary e \<longleftrightarrow> (case e of Gate_required g n c ps \<Rightarrow> False | _ \<Rightarrow> True)"

lemma ordinary_simps [simp]:
  "ordinary (Approval_token_error r)" "ordinary (Plan_expired p n)" "ordinary (Step_execution n r)"
  "ordinary (Idempotency_conflict k)" "ordinary (Lock_timeout k n)" "ordinary (Mcp_error a b c)" "ordinary (Spawn_denied q vs)"
  "ordinary (Recovery_exhausted n n')" "ordinary (Cycle_error i j)" "ordinary (Not_connected p m)" "ordinary (Other_error a b)"
  "\<not> ordinary (Gate_required g n cd ps)"
  by (simp_all add: ordinary_def)

text \<open>The collaborators raise ordinary exceptions only.\<close>

definition outside_ordinary :: "('s, 'x) service_env \<Rightarrow> bool" where
  "outside_ordinary env \<longleftrightarrow>
     (\<forall>sv tl a cr n. only ordinary (xe_invoke env sv tl a cr n)) \<and>
     (\<forall>a rs pv e. sv_resolve env a rs pv = Inl e \<longrightarrow> ordinary e) \<and>
     (\<forall>c u. only ordinary (sv_vault env c u)) \<and> (\<forall>rc js t. only ordinary (sv_llm env rc js t)) \<and>
     (\<forall>scan j1 j2 j3 n x e x'. sv_filter env = Some scan \<longrightarrow> scan j1 j2 j3 n x = (Inl (Filter_crash e), x') \<longrightarrow> ordinary e)"

lemma only_extS [only_intros]: "only P f \<Longrightarrow> only P (extS f)"
  by (auto simp: only_def extS_def split: prod.splits)

lemma only_resS [only_intros]: "(\<And>e. r = Inl e \<Longrightarrow> P e) \<Longrightarrow> only P (resS r)"
  by (auto simp: only_def resS_def)

lemma only_quiet [only_intros]:
  "only ordinary (with_redis env f)" "only P (sleepS env d)" "only P (freshS env)" "only ordinary (policyS env' q)"
  "only P (auditS env' ty n b)" "only P (trackS env' ev)" "only P (ctxS c)" "only P (put_result k r)"
  by (auto simp: only_def with_redis_def sleepS_def freshS_def policyS_def auditS_def trackS_def ctxS_def put_result_def
      split: option.splits prod.splits sum.splits if_splits)

lemma ordinary_adapters [only_intros]:
  "only ordinary (put_record env k m)" "only ordinary (set_in_flight env k i)" "only ordinary (mark_succeeded env k d)"
  "only ordinary (mark_failed env k x)" "only ordinary (check_and_claim env k i n)" "only ordinary (release env k)"
  by (auto simp: put_record_def set_in_flight_def mark_succeeded_def mark_failed_def check_and_claim_def release_def
      intro!: only_intros split: claim_decision.split option.split json.split)

lemma ordinary_acquire [only_intros]: "only ordinary (acquire env k t)"
proof -
  have "only ordinary (acquire_loop env k ow t n)" for ow n
    by (induction n) (auto intro!: only_intros)
  then show ?thesis by (auto simp: acquire_def intro!: only_intros)
qed

lemma ordinary_retry [only_intros]:
  assumes "only ordinary oper"
  shows "only ordinary (execute_with_retry env p oper)"
proof -
  have "only ordinary (retry_loop env p oper n k)" for n k
    by (induction n arbitrary: k)
      (auto intro!: only_intros only_tryS [OF _ assms] split: exec_error.split)
  then show ?thesis unfolding execute_with_retry_def .
qed

section \<open>Steps\<close>

lemma ordinary_invoke [only_intros]:
  "outside_ordinary env \<Longrightarrow> only ordinary (invokeS env s server tool args creds)"
  unfolding invokeS_def by (intro only_intros) (simp add: outside_ordinary_def)

lemma ordinary_dispatch [only_intros]:
  assumes "outside_ordinary env"
  shows "only ordinary (dispatch_api env req s tool args idem)"
  unfolding dispatch_api_def Let_def using assms by (intro only_intros) (auto simp: outside_ordinary_def)

lemma ordinary_guarded [only_intros]:
  assumes "outside_ordinary env"
  shows "only ordinary (guarded_dispatch env req s tool args idem lock)"
  unfolding guarded_dispatch_def using assms by (intro only_intros only_tryS [OF _ ordinary_dispatch [OF assms]])

lemma names_a_time_ordinary: "names_a_time j = Inl e \<Longrightarrow> ordinary e"
  by (cases j) auto

lemma ordinary_api [only_intros]:
  assumes "outside_ordinary env"
  shows "only ordinary (execute_api_step env req s)"
  unfolding execute_api_step_def Let_def
  using assms by (intro only_intros)
    (auto simp: gate_only_result_def Let_def bind_res_Inl_iff outside_ordinary_def dest: names_a_time_ordinary split: if_splits)

lemma ordinary_policy_check [only_intros]: "only ordinary (execute_policy_check env s)"
  unfolding execute_policy_check_def by (intro only_intros)

lemma ordinary_sanitizer [only_intros]:
  assumes "outside_ordinary env"
  shows "only ordinary (execute_sanitizer_step env s)"
  using assms unfolding execute_sanitizer_step_def outside_ordinary_def
  by (fastforce simp: only_def bindS_def extS_def thenS_def ctxS_def split: option.splits prod.splits sum.splits filter_failure.splits)

section \<open>Reasoning and spawning\<close>

lemma build_spawned_ordinary: "build_spawned q n k = Inl e \<Longrightarrow> ordinary e"
  by (auto simp: build_spawned_def split: option.splits json.splits if_splits)

lemma spawn_requests_ordinary: "spawn_requests d = Inl e \<Longrightarrow> ordinary e"
  by (auto simp: spawn_requests_def split: json.splits if_splits)

lemma parse_content_ordinary: "parse_content env d = Inl e \<Longrightarrow> ordinary e"
  by (auto simp: parse_content_def split: json.splits if_splits option.splits)

lemma check_schema_ordinary: "check_schema env s ref d = Inl e \<Longrightarrow> ordinary e"
  by (auto simp: check_schema_def split: json.splits if_splits option.splits)

lemma time_text_ordinary: "time_text rep j = Inl e \<Longrightarrow> ordinary e"
  by (cases j) (auto split: if_splits)

lemma fallback_ordinary: "build_reasoner_fallback rep i = Inl e \<Longrightarrow> ordinary e"
  by (auto simp: build_reasoner_fallback_def Let_def bind_res_Inl_iff dest: time_text_ordinary split: if_splits)

lemma ordinary_spawn:
  assumes "\<And>s. ps_gate_id s = None \<Longrightarrow> only ordinary (run s)"
  shows "only ordinary (handle_spawn run env parent q)"
  unfolding handle_spawn_def Let_def
  by (intro only_intros assms) (auto simp: spawn_begin_def bind_res_Inl_iff dest: build_spawned_ordinary split: if_splits)

lemma ordinary_item:
  assumes "\<And>s. ps_gate_id s = None \<Longrightarrow> only ordinary (run s)"
  shows "only ordinary (spawn_item run env parent j)"
  unfolding spawn_item_def by (cases j) (auto intro!: only_intros ordinary_spawn assms)

lemma ordinary_reasoning:
  assumes "outside_ordinary env" "\<And>s. ps_gate_id s = None \<Longrightarrow> only ordinary (run s)"
  shows "only ordinary (execute_reasoning_step run env s)"
  unfolding execute_reasoning_step_def
  using assms(1) by (intro only_intros ordinary_item assms(2))
    (auto simp: outside_ordinary_def dest: spawn_requests_ordinary parse_content_ordinary check_schema_ordinary fallback_ordinary)

text \<open>The exception of a step: ordinary, or its own gate.\<close>

definition own_gate :: "('s, 'x) service_env \<Rightarrow> exec_request \<Rightarrow> plan_step \<Rightarrow> exec_error \<Rightarrow> bool" where
  "own_gate env req s e \<longleftrightarrow> ordinary e \<or> (\<exists>g c. closed_gate req s = Some g \<and> e = gate_error env req s g c)"

lemma own_run_step:
  assumes "outside_ordinary env" "\<And>s. ps_gate_id s = None \<Longrightarrow> only ordinary (run s)"
  shows "only (own_gate env req s) (run_step run env req s)"
proof -
  have "only ordinary (execute_reasoning_step run env s)" by (rule ordinary_reasoning [OF assms])
  then have "only ordinary (case ps_type s of Api \<Rightarrow> execute_api_step env req s | Llm_reasoning \<Rightarrow> execute_reasoning_step run env s
      | Policy_check \<Rightarrow> execute_policy_check env s | Sanitizer \<Rightarrow> execute_sanitizer_step env s)"
    using assms(1) by (cases "ps_type s") (auto intro: only_intros)
  then show ?thesis
    unfolding run_step_def
    by (intro only_intros) (auto simp: own_gate_def elim: only_weaken)
qed

lemma own_step:
  assumes "outside_ordinary env"
  shows "only (own_gate env req s) (execute_step env req s)"
proof -
  have "only ordinary (run_step no_run env req s')" if "ps_gate_id s' = None" for s'
    using that by (intro only_weaken [OF own_run_step [OF assms]])
      (auto simp: no_run_def own_gate_def closed_gate_def intro: only_intros)
  then show ?thesis unfolding execute_step_def by (rule own_run_step [OF assms])
qed

section \<open>Failures and levels\<close>

lemma only_handler: "(\<And>e. only P (h e)) \<Longrightarrow> only P (tryS m h)"
  unfolding only_def tryS_def by (fastforce split: prod.splits sum.splits)

lemma ordinary_compensation [only_intros]: "only P (run_compensation env)"
  unfolding run_compensation_def compensate_one_def by (intro only_intros only_handler)

lemma not_connected_ordinary: "check_integration_not_connected rt e s = Some e' \<Longrightarrow> ordinary e'"
  by (auto simp: check_integration_not_connected_def Let_def split: if_splits)

lemma ordinary_failure: "only ordinary (handle_step_failure env req s e)"
  unfolding handle_step_failure_def Let_def
  by (intro only_intros only_handler) (auto dest: not_connected_ordinary)

text \<open>A pause: the gate error of a step of the plan whose gate is closed.\<close>

definition pause :: "('s, 'x) service_env \<Rightarrow> exec_request \<Rightarrow> exec_error \<Rightarrow> bool" where
  "pause env req e \<longleftrightarrow> ordinary e \<or>
     (\<exists>s\<in>set (pl_graph (ex_plan req)). \<exists>g c. closed_gate req s = Some g \<and> e = gate_error env req s g c)"

lemma ordinary_pause: "only ordinary m \<Longrightarrow> only (pause env req) m"
  by (erule only_weaken) (simp add: pause_def)

lemma gather_results:
  assumes "\<And>x. x \<in> set xs \<Longrightarrow> only (P x) (f x)" "gather f xs st = (Inr rs, st')" "(x, Inl e) \<in> set rs"
  shows "x \<in> set xs \<and> P x e"
  using assms
proof (induction xs arbitrary: st rs)
  case (Cons y ys)
  from Cons.prems(2) obtain r st1 qs where "f y st = (r, st1)" "gather f ys st1 = (Inr qs, st')" "rs = (y, r) # qs"
    by (auto simp: bindS_def split: prod.splits sum.splits)
  moreover then have "y = x \<and> r = Inl e \<Longrightarrow> P x e" using onlyD [OF Cons.prems(1) [of y]] by auto
  moreover have "(x, Inl e) \<in> set qs \<Longrightarrow> x \<in> set ys \<and> P x e"
    using Cons.IH [OF Cons.prems(1)] \<open>gather f ys st1 = (Inr qs, st')\<close> by simp
  ultimately show ?case using Cons.prems(3) by auto
qed simp

lemma gather_total: "\<exists>rs st'. gather f xs st = (Inr rs, st')"
proof (induction xs arbitrary: st)
  case (Cons x xs)
  obtain r st1 where f: "f x st = (r, st1)" by (rule prod.exhaust)
  obtain rs st' where "gather f xs st1 = (Inr rs, st')" using Cons by blast
  with f show ?case by (simp add: bindS_def)
qed simp

lemma pause_settle:
  assumes "\<And>e. snd p = Inl e \<Longrightarrow> pause env req e"
  shows "only (pause env req) (settle env req p)"
proof (cases "snd p")
  case (Inl e)
  have "only (pause env req) (handle_step_failure env req (fst p) e)" by (rule ordinary_pause [OF ordinary_failure])
  with Inl assms show ?thesis by (cases e) (auto simp: settle_def intro!: only_throwS)
next
  case (Inr r)
  then show ?thesis by (simp add: settle_def only_quiet)
qed

lemma only_bind_result:
  assumes "only P m" "\<And>a s s'. m s = (Inr a, s') \<Longrightarrow> only P (f a)"
  shows "only P (bindS m f)"
  using assms unfolding only_def by (metis bindS_InlE)

lemma as_result_ordinary: "as_result j = Inl e \<Longrightarrow> ordinary e"
  by (cases j) (auto simp: as_result_def)

lemma ordinary_executable: "only ordinary (executable_steps req ss)"
  by (induction ss) (auto simp: should_skip_def intro!: only_intros dest: as_result_ordinary split: option.split)

lemma pause_level:
  assumes "outside_ordinary env" and "set level \<subseteq> set (pl_graph (ex_plan req))"
  shows "only (pause env req) (execute_level env req level)"
  unfolding execute_level_def
proof (rule only_bind_result [OF ordinary_pause [OF ordinary_executable]])
  fix es and s1 s2 :: "('a, 'b) xstate"
  assume "executable_steps req level s1 = (Inr es, s2)"
  then have es: "set es \<subseteq> set (pl_graph (ex_plan req))" using executable_subset assms(2) by blast
  show "only (pause env req) (bindS (gather (execute_step env req) es) (forS (settle env req)))"
  proof (rule only_bind_result)
    show "only (pause env req) (gather (execute_step env req) es)"
      unfolding only_def by (metis gather_total old.sum.distinct(1) prod.inject)
    fix rs and s3 s4 :: "('a, 'b) xstate"
    assume g: "gather (execute_step env req) es s3 = (Inr rs, s4)"
    show "only (pause env req) (forS (settle env req) rs)"
    proof (rule only_forS, rule pause_settle)
      fix p e
      assume p: "p \<in> set rs" "snd p = Inl e"
      then have "(fst p, Inl e) \<in> set rs" by (metis prod.collapse)
      from gather_results [OF own_step [OF assms(1)] g this] es show "pause env req e"
        by (auto simp: own_gate_def pause_def)
    qed
  qed
qed

lemma pause_levels:
  assumes "outside_ordinary env" and "\<Union>(set ` set ls) \<subseteq> set (pl_graph (ex_plan req))"
  shows "only (pause env req) (run_levels env req ls n)"
  using assms(2) by (induction ls arbitrary: n) (auto intro!: only_intros pause_level assms(1))

lemma checks_ordinary:
  "validate_approval_token env t tok p = Some e \<Longrightarrow> ordinary e" "check_plan_ttl env t p = Some e \<Longrightarrow> ordinary e"
  "resolve_levels g = Inl e \<Longrightarrow> ordinary e"
  by (auto simp: validate_approval_token_def check_plan_ttl_def resolve_levels_def check_that_def
      split: jwt_result.splits option.splits sum.splits dag_error.splits if_splits)

lemma pause_phases:
  assumes "outside_ordinary env"
  shows "only (pause env req) (run_phases env req)"
  unfolding run_phases_def
proof (rule only_thenS)
  show "only (pause env req) (check_request env req)"
    unfolding check_request_def by (intro ordinary_pause only_intros) (auto dest: checks_ordinary)
  show "only (pause env req) (bindS (resS (resolve_levels (pl_graph (ex_plan req)))) (\<lambda>ls. run_levels env req ls 0))"
  proof (rule only_bind_result)
    show "only (pause env req) (resS (resolve_levels (pl_graph (ex_plan req))))"
      by (intro ordinary_pause only_intros) (auto dest: checks_ordinary)
    fix ls and s1 s2 :: "('a, 'b) xstate"
    assume "resS (resolve_levels (pl_graph (ex_plan req))) s1 = (Inr ls, s2)"
    then have "resolve_levels (pl_graph (ex_plan req)) = Inr ls" by (simp add: resS_def)
    then show "only (pause env req) (run_levels env req ls 0)"
      using resolve_levels_graph by (intro pause_levels assms) fastforce
  qed
qed

lemma execute_plan_pauses:
  assumes "outside_ordinary env" "execute_plan env req st = (Inl e, st')"
  obtains s g c where "s \<in> set (pl_graph (ex_plan req))" "closed_gate req s = Some g" "e = gate_error env req s g c"
proof -
  from assms(2) have "\<not> ordinary e \<and> pause env req e"
  proof (rule execute_plan_phases)
    fix st0 q st1
    assume "run_phases env req st0 = (q, st1)"
      and "\<And>e'. Inl e = (Inl e' :: exec_error + plan_outcome) \<Longrightarrow> q = Inl e' \<and> (\<exists>g n c ps. e' = Gate_required g n c ps)"
    then show ?thesis using onlyD [OF pause_phases [OF assms(1)]] by fastforce
  qed
  with that show thesis by (auto simp: pause_def)
qed

section \<open>The property\<close>

text \<open>C4. An execution is only ever interrupted at a closed gate. When \<open>execute_plan\<close> raises instead of answering an outcome, the
  exception is the gate error of a step of the plan whose gate the request does not approve, with the
  results so far. Every other exception of a step, a tool, the model or a check becomes an outcome.\<close>

theorem interrupted_at_closed_gate:
  assumes "outside_ordinary env" "execute_plan env req st = (Inl e, st')"
  shows "\<exists>s g c. s \<in> set (pl_graph (ex_plan req)) \<and> closed_gate req s = Some g \<and> e = gate_error env req s g c"
  using execute_plan_pauses [OF assms] by metis

lemma calls_ordinary: "outside_ordinary run_env"
  by (simp add: outside_ordinary_def run_env_def only_def)

definition gated_fetch :: plan_step where
  "gated_fetch = fetch_step \<lparr>ps_gate_id := Some ''gate-A''\<rparr>"

lemma gated_levels: "resolve_levels [gated_fetch] = Inr [[gated_fetch]]"
  by code_simp

lemma gated_fetch_simps [simp]: "ps_gate_id gated_fetch = Some ''gate-A''" "ps_execute_mode gated_fetch = None" "ps_step gated_fetch = 1"
  by (simp_all add: gated_fetch_def)

lemma gated_run:
  obtains e st' where "execute_plan run_env (run_request [gated_fetch] None) run_state = (Inl e, st')"
proof -
  let ?req = "run_request [gated_fetch] None"
  have c: "closed_gate ?req gated_fetch = Some ''gate-A''" by (simp add: closed_gate_def preview_get_def)
  have s: "execute_step run_env ?req gated_fetch st = (Inl (gate_error run_env ?req gated_fetch ''gate-A'' (xs_ctx st)), st)" for st
    by (simp add: execute_step_def run_step_def c)
  have l: "execute_level run_env ?req [gated_fetch] st = (Inl (gate_error run_env ?req gated_fetch ''gate-A'' (xs_ctx st)), st)" for st
    by (simp add: execute_level_def should_skip_def s bindS_Inr settle_def gate_error_def Let_def thenS_def bindS_def)
  have "check_request run_env ?req st = (Inr (), st)" for st
    by (simp add: check_request_def validate_approval_token_def check_plan_ttl_def jget_def check_that_def)
  then have p: "run_phases run_env ?req st = (Inl (gate_error run_env ?req gated_fetch ''gate-A'' (xs_ctx st)), st)" for st
    by (simp add: run_phases_def thenS_Inr resS_def gated_levels bindS_def l thenS_def)
  obtain st0 where s0: "start_execution run_env ?req run_state = (Inr (), st0)" by (rule run_start)
  have "execute_plan run_env ?req run_state = (Inl (gate_error run_env ?req gated_fetch ''gate-A'' (xs_ctx st0)), st0)"
    using p s0 by (simp add: execute_plan_def bindS_def readS_def thenS_def gate_error_def Let_def)
  with that show thesis .
qed

theorem interrupted_at_closed_gate_witness:
  "\<exists>e st' g c. execute_plan run_env (run_request [gated_fetch] None) run_state = (Inl e, st') \<and>
     e = gate_error run_env (run_request [gated_fetch] None) gated_fetch g c"
proof -
  obtain e st' where e: "execute_plan run_env (run_request [gated_fetch] None) run_state = (Inl e, st')" by (rule gated_run)
  from interrupted_at_closed_gate [OF calls_ordinary e] e show ?thesis by auto
qed

end
