(* ===== verification/Scheduled_Run.thy ===== *)
theory Scheduled_Run
  imports Scheduler_Service Gate_Pause
begin

text \<open>
  The job of a schedule (\<open>_execute_scheduled_plan\<close>): plan, approve, execute, handle a closed gate, record.
  It runs on the models of the planner, the ApprovalGate and the executor; the approval and the
  execution share the policy engine's state. \<open>fire\<close> is one run of the job of a schedule.
\<close>

section \<open>The run\<close>

record ('s, 'x) sched_world = sched_state +
  sw_planner :: planner_state
  sw_audit :: "audit_entry list"
  sw_exec :: "('s, 'x) xstate"

text \<open>\<open>se_hex\<close> is \<open>uuid4().hex\<close>, and the two texts are the class and the text of an exception.\<close>

record ('s, 'x) sched_env = sched_lib +
  se_services :: bool
  se_planner :: planner_env
  se_approval :: "'s approval_env"
  se_exec :: "('s, 'x) service_env"
  se_token_id :: string
  se_hex :: string
  se_planner_text :: "planner_error \<Rightarrow> string \<times> string"
  se_approval_text :: "approval_error \<Rightarrow> string \<times> string"

definition intent_of :: "scheduled_plan \<Rightarrow> intent" where
  "intent_of r = \<lparr>in_intent = sp_intent_type r, in_entities = sp_entities_json r, in_constraints = sp_constraints_json r,
     in_tz = sp_timezone r, in_user_id = sp_user_id r, in_context_budget = None, in_session_id = None, in_trace_id = None,
     in_sub_intents = [], in_tool_overrides = []\<rparr>"

definition trace_or_fresh :: "string \<Rightarrow> plan \<Rightarrow> string" where
  "trace_or_fresh hex p = (case pl_trace_id p of None \<Rightarrow> hex | Some t \<Rightarrow> if t = [] then hex else t)"

definition approval_for :: "string \<Rightarrow> scheduled_plan \<Rightarrow> plan \<Rightarrow> approval_request" where
  "approval_for hex r p = \<lparr>ar_plan_id = pl_plan_id p, ar_user_id = sp_user_id r, ar_gate_id = ''gate-A'', ar_scopes = [''default''],
     ar_selected_option = None, ar_trace_id = trace_or_fresh hex p, ar_policy_matched = False, ar_role = None, ar_tool = None\<rparr>"

definition execution_for :: "string \<Rightarrow> scheduled_plan \<Rightarrow> plan \<Rightarrow> string \<Rightarrow> jobj option \<Rightarrow> exec_request" where
  "execution_for hex r p tok prev = \<lparr>ex_plan = p, ex_token = tok, ex_user_id = sp_user_id r, ex_trace_id = trace_or_fresh hex p,
     ex_preview_state = prev, ex_credentials = []\<rparr>"

definition shown_partial :: "(string \<times> step_result) list \<Rightarrow> jobj" where
  "shown_partial ps = map (\<lambda>(k, r). (k, JObj [(''status'', JStr (status_name (rs_status r))),
     (''result'', jopt JObj (rs_result r)), (''latency_ms'', JInt (rs_latency_ms r))])) ps"

text \<open>The preview state of the second attempt.\<close>

definition retry_state :: "string \<Rightarrow> (string \<times> step_result) list \<Rightarrow> jobj" where
  "retry_state g ps = dict_set (''gate_'' @ g @ ''_approved'') (JBool True) (shown_partial ps)"

datatype run_end = Ran | Raised "string \<times> string" | Gated string int string

definition execute_attempt :: "('s, 'x) sched_env \<Rightarrow> exec_request \<Rightarrow> ('s, 'x) sched_world \<Rightarrow>
    (exec_error + plan_outcome) \<times> ('s, 'x) sched_world" where
  "execute_attempt env q w = (let (r, x) = execute_plan (se_exec env) q (sw_exec w) in (r, w \<lparr>sw_exec := x\<rparr>))"

definition exec_text :: "('s, 'x) sched_env \<Rightarrow> exec_error \<Rightarrow> string" where
  "exec_text env e = error_text (sv_reason_text (se_exec env)) e"

definition execute_with_gate :: "('s, 'x) sched_env \<Rightarrow> scheduled_plan \<Rightarrow> plan \<Rightarrow> string \<Rightarrow> ('s, 'x) sched_world \<Rightarrow>
    run_end \<times> ('s, 'x) sched_world" where
  "execute_with_gate env r p tok w = (case execute_attempt env (execution_for (se_hex env) r p tok None) w of
       (Inr out, w1) \<Rightarrow> (Ran, w1)
     | (Inl (Gate_required g n c ps), w1) \<Rightarrow>
         if sp_approval_mode r = ''auto_approve''
         then (case execute_attempt env (execution_for (se_hex env) r p tok (Some (retry_state g ps))) w1 of
             (Inr out, w2) \<Rightarrow> (Ran, w2)
           | (Inl e, w2) \<Rightarrow> (Raised (error_class e, exec_text env e), w2))
         else (Gated g n (exec_text env (Gate_required g n c ps)), w1)
     | (Inl e, w1) \<Rightarrow> (Raised (error_class e, exec_text env e), w1))"

definition approve_run :: "('s, 'x) sched_env \<Rightarrow> int \<Rightarrow> scheduled_plan \<Rightarrow> plan \<Rightarrow> ('s, 'x) sched_world \<Rightarrow>
    ((string \<times> string) + string) \<times> ('s, 'x) sched_world" where
  "approve_run env now r p w =
     (let q = approval_for (se_hex env) r p in
      if \<not> approval_request_ok q then (Inl (''ValidationError'', ''ApprovalRequest''), w)
      else let (a, g) = approve (se_approval env) now (se_token_id env) q
             \<lparr>aw_policy = xs_policy (sw_exec w), aw_audit = sw_audit w\<rparr>;
             w1 = w \<lparr>sw_exec := (sw_exec w) \<lparr>xs_policy := aw_policy g\<rparr>, sw_audit := aw_audit g\<rparr>
           in (case a of Inl e \<Rightarrow> (Inl (se_approval_text env e), w1) | Inr tok \<Rightarrow> (Inr (at_token tok), w1)))"

definition run_plan :: "('s, 'x) sched_env \<Rightarrow> int \<Rightarrow> scheduled_plan \<Rightarrow> ('s, 'x) sched_world \<Rightarrow> run_end \<times> ('s, 'x) sched_world" where
  "run_plan env now r w =
     (if \<not> intent_ok (intent_of r) then (Raised (''ValidationError'', ''Intent''), w)
      else case generate_plan (se_planner env) (intent_of r) (sw_planner w) of
        (Inl e, pt) \<Rightarrow> (Raised (se_planner_text env e), w \<lparr>sw_planner := pt\<rparr>)
      | (Inr res, pt) \<Rightarrow> (case approve_run env now r (pr_plan res) (w \<lparr>sw_planner := pt\<rparr>) of
            (Inl e, w1) \<Rightarrow> (Raised e, w1)
          | (Inr tok, w1) \<Rightarrow>
              if tok = [] then (Raised (''ValidationError'', ''ExecuteRequest''), w1)
              else execute_with_gate env r (pr_plan res) tok w1))"

section \<open>Recording\<close>

definition record_run :: "('s, 'x) sched_env \<Rightarrow> int \<Rightarrow> string \<Rightarrow> run_error \<Rightarrow> ('s, 'x) sched_world \<Rightarrow> ('s, 'x) sched_world" where
  "record_run env now sid e w = w \<lparr>ss_rows := record_execution (sl_show_time env) sid now e (ss_rows w)\<rparr>"

definition set_columns :: "int \<Rightarrow> scheduled_plan \<Rightarrow> column list \<Rightarrow> ('s, 'x) sched_world \<Rightarrow> ('s, 'x) sched_world" where
  "set_columns now r cs w = w \<lparr>ss_rows := snd (update_scheduled_plan (sp_id r) (sp_user_id r) now cs (ss_rows w))\<rparr>"

definition message :: "string \<Rightarrow> jobj" where
  "message m = [(''message'', JStr m)]"

definition settle_run :: "('s, 'x) sched_env \<Rightarrow> int \<Rightarrow> scheduled_plan \<Rightarrow> run_end \<Rightarrow> ('s, 'x) sched_world \<Rightarrow> ('s, 'x) sched_world" where
  "settle_run env now r e w = (case e of
       Raised (ty, m) \<Rightarrow> record_run env now (sp_id r) (Some (ty, message m)) w
     | Gated g n m \<Rightarrow> remove_job (sp_id r) (set_columns now r [C_status ''paused'']
         (record_run env now (sp_id r) (Some (''GATE_APPROVAL_REQUIRED'',
            [(''gate_id'', JStr g), (''step'', JInt n), (''message'', JStr m)])) w))
     | Ran \<Rightarrow>
         (let w1 = record_run env now (sp_id r) None w in
          case (sp_schedule_type r = ''recurring'', sp_recurrence_config r) of
            (True, Some c) \<Rightarrow>
              if recurrence_ok c then set_columns now r [C_next_run (compute_next_run env c (sp_timezone r) now)] w1
              else record_run env now (sp_id r) (Some (''ValidationError'', message ''RecurrenceConfig'')) w1
          | _ \<Rightarrow> w1))"

definition due_schedule :: "string \<Rightarrow> rows \<Rightarrow> scheduled_plan option" where
  "due_schedule sid rs = find (\<lambda>r. sp_id r = sid) (get_active_schedules rs)"

text \<open>A firing is one step here: nothing edits the schedule while its run is under way, and the database answers. When
  APScheduler fires is not modelled; it drops what it missed by more than five minutes and the jobs that have no further date.\<close>

definition fire :: "('s, 'x) sched_env \<Rightarrow> int \<Rightarrow> string \<Rightarrow> ('s, 'x) sched_world \<Rightarrow> ('s, 'x) sched_world" where
  "fire env now sid w = (case due_schedule sid (ss_rows w) of
       None \<Rightarrow> w
     | Some r \<Rightarrow>
         if \<not> se_services env
         then record_run env now sid (Some (''SERVICE_UNAVAILABLE'', message ''Required services not initialized'')) w
         else (case run_plan env now r w of (e, w1) \<Rightarrow> settle_run env now r e w1))"

section \<open>The gates of a scheduled run\<close>

text \<open>A step that a scheduled run may execute: without a gate, or with one whose name happens to be a key
  of the preview state the scheduler makes up.\<close>

definition opened_by_schedule :: "plan_step \<Rightarrow> bool" where
  "opened_by_schedule s \<longleftrightarrow> (case ps_gate_id s of None \<Rightarrow> True
     | Some g \<Rightarrow> g = [] \<or> starts_with ''step_'' g \<or> starts_with ''gate_'' g \<and> ends_with ''_approved'' g)"

lemma execution_for_simps [simp]:
  "ex_plan (execution_for hex r p tok prev) = p" "ex_preview_state (execution_for hex r p tok prev) = prev"
  by (simp_all add: execution_for_def)

lemma partial_keys: "k \<in> fst ` set (partial_results c) \<Longrightarrow> starts_with ''step_'' k"
  by (auto simp: partial_results_def starts_with_iff)

lemma first_attempt_gates:
  "closed_gate (execution_for hex r p tok None) s = None \<longleftrightarrow> ps_gate_id s = None \<or> ps_gate_id s = Some []"
  by (auto simp: closed_gate_def preview_get_def split: option.splits)

lemma set_key_cases: "dict_get (dict_set k v d) h \<noteq> None \<Longrightarrow> h = k \<or> h \<in> fst ` set d"
  by (auto simp: map_of_eq_None_iff split: if_splits dest: map_of_SomeD intro: rev_image_eqI)

lemma retry_gates:
  assumes "closed_gate (execution_for hex r p tok (Some (retry_state g (partial_results c)))) s = None"
  shows "opened_by_schedule s"
proof (cases "ps_gate_id s")
  case (Some h)
  have "dict_get (retry_state g (partial_results c)) h \<noteq> None" if "h \<noteq> []"
    using assms that Some by (auto simp: closed_gate_def preview_get_def jget_def split: option.splits if_splits)
  then have "h = [] \<or> h = ''gate_'' @ g @ ''_approved'' \<or> h \<in> fst ` set (shown_partial (partial_results c))"
    unfolding retry_state_def using set_key_cases by metis
  moreover have "fst ` set (shown_partial (partial_results c)) = fst ` set (partial_results c)"
    by (force simp: shown_partial_def)
  ultimately have "h = [] \<or> h = ''gate_'' @ g @ ''_approved'' \<or> starts_with ''step_'' h" using partial_keys by blast
  moreover have "starts_with ''gate_'' (''gate_'' @ g @ ''_approved'')" "ends_with ''_approved'' (''gate_'' @ g @ ''_approved'')"
    unfolding starts_with_iff ends_with_iff by (blast, metis append.assoc)
  ultimately show ?thesis using Some by (auto simp: opened_by_schedule_def)
qed (simp add: opened_by_schedule_def)

definition ungated_since :: "nat \<Rightarrow> ('s, 'x) sched_world \<Rightarrow> bool" where
  "ungated_since k w \<longleftrightarrow> list_all (\<lambda>iv. opened_by_schedule (iv_step iv)) (drop k (xs_trace (sw_exec w)))"

lemma ungated_start: "xs_trace (sw_exec w') = xs_trace (sw_exec w) \<Longrightarrow> ungated_since (length (xs_trace (sw_exec w))) w'"
  by (simp add: ungated_since_def)

lemma attempts_ungated:
  assumes "outside_ordinary (se_exec env)" "execute_with_gate env r p tok w = (e, w')"
  shows "ungated_since (length (xs_trace (sw_exec w))) w'"
proof -
  let ?k = "length (xs_trace (sw_exec w))"
  let ?q1 = "execution_for (se_hex env) r p tok None"
  obtain x1 r1 where e1: "execute_plan (se_exec env) ?q1 (sw_exec w) = (r1, x1)" by (metis surj_pair)
  have g1: "\<forall>iv\<in>set (drop ?k (xs_trace x1)). closed_gate ?q1 (iv_step iv) = None \<and> allowed_step ?q1 (iv_step iv)"
    by (rule invocations_gated [OF e1]) simp
  then have u1: "ungated_since ?k (w \<lparr>sw_exec := x1\<rparr>)"
    by (auto simp: ungated_since_def list_all_iff opened_by_schedule_def first_attempt_gates split: option.split)
  show ?thesis
  proof (cases "\<exists>g n c ps. r1 = Inl (Gate_required g n c ps) \<and> sp_approval_mode r = ''auto_approve''")
    case False
    then have "w' = w \<lparr>sw_exec := x1\<rparr>"
      using assms(2) e1
      by (auto simp: execute_with_gate_def execute_attempt_def split: sum.splits exec_error.splits if_splits)
    with u1 show ?thesis by simp
  next
    case True
    then obtain g n c ps where r1: "r1 = Inl (Gate_required g n c ps)" and auto: "sp_approval_mode r = ''auto_approve''" by blast
    obtain s g' ctx where "Gate_required g n c ps = gate_error (se_exec env) ?q1 s g' ctx"
      using execute_plan_pauses [OF assms(1) e1 [unfolded r1]] by metis
    then have ps: "ps = partial_results ctx" by (simp add: gate_error_def Let_def)
    let ?q2 = "execution_for (se_hex env) r p tok (Some (retry_state g ps))"
    obtain x2 r2 where e2: "execute_plan (se_exec env) ?q2 x1 = (r2, x2)" by (metis surj_pair)
    have "\<forall>iv\<in>set (drop ?k (xs_trace x1)). closed_gate ?q2 (iv_step iv) = None \<and> allowed_step ?q2 (iv_step iv)"
    proof
      fix iv
      assume "iv \<in> set (drop ?k (xs_trace x1))"
      with g1 have "closed_gate ?q1 (iv_step iv) = None" "allowed_step ?q1 (iv_step iv)" by auto
      then show "closed_gate ?q2 (iv_step iv) = None \<and> allowed_step ?q2 (iv_step iv)"
        by (auto simp: first_attempt_gates allowed_step_def) (auto simp: closed_gate_def)
    qed
    from invocations_gated [OF e2 this] have "ungated_since ?k (w \<lparr>sw_exec := x2\<rparr>)"
      unfolding ps by (auto simp: ungated_since_def list_all_iff intro: retry_gates)
    moreover have "w' = w \<lparr>sw_exec := x2\<rparr>"
      using assms(2) e1 e2 r1 auto by (auto simp: execute_with_gate_def execute_attempt_def split: sum.splits)
    ultimately show ?thesis by simp
  qed
qed

lemma record_run_trace [simp]: "sw_exec (record_run env now sid e w) = sw_exec w"
  by (simp add: record_run_def)

lemma set_columns_exec [simp]: "sw_exec (set_columns now r cs w) = sw_exec w"
  by (simp add: set_columns_def)

lemma remove_job_exec [simp]: "sw_exec (remove_job sid w) = sw_exec w"
  by (simp add: remove_job_def)

lemma settle_run_exec [simp]: "sw_exec (settle_run env now r e w) = sw_exec w"
  by (auto simp: settle_run_def Let_def split: run_end.split option.split bool.split)

lemma approve_run_trace: "approve_run env now r p w = (a, w') \<Longrightarrow> xs_trace (sw_exec w') = xs_trace (sw_exec w)"
  by (auto simp: approve_run_def Let_def split: prod.splits sum.splits if_splits)

lemma run_plan_ungated:
  assumes "outside_ordinary (se_exec env)" "run_plan env now r w = (e, w')"
  shows "ungated_since (length (xs_trace (sw_exec w))) w'"
proof -
  have "xs_trace (sw_exec w') = xs_trace (sw_exec w) \<or>
    (\<exists>p tok w1. xs_trace (sw_exec w1) = xs_trace (sw_exec w) \<and> execute_with_gate env r p tok w1 = (e, w'))"
    using assms(2) by (auto simp: run_plan_def dest!: approve_run_trace split: prod.splits sum.splits if_splits)
  then show ?thesis
  proof (elim disjE exE conjE)
    fix p tok w1
    assume "xs_trace (sw_exec w1) = xs_trace (sw_exec w)" "execute_with_gate env r p tok w1 = (e, w')"
    with attempts_ungated [OF assms(1) this(2)] show ?thesis by simp
  qed (rule ungated_start)
qed

text \<open>The design wants an automatic schedule to open its gates; the code does not achieve it. Whatever its approval mode, a scheduled run never
  invokes a tool for a step behind a gate, unless the gate's name happens to have the form of the keys
  \<open>step_n\<close> or \<open>gate_g_approved\<close> under which the scheduler writes: the executor looks the gate up by its own name. The
  hypothesis says that the collaborators do not raise \<open>GateApprovalRequired\<close> themselves.\<close>

theorem auto_approval_opens_no_gate:
  assumes "outside_ordinary (se_exec env)"
  shows "list_all (\<lambda>iv. opened_by_schedule (iv_step iv)) (drop (length (xs_trace (sw_exec w))) (xs_trace (sw_exec (fire env now sid w))))"
proof -
  have "ungated_since (length (xs_trace (sw_exec w))) (fire env now sid w)"
  proof (cases "due_schedule sid (ss_rows w)")
    case None
    then show ?thesis by (simp add: fire_def ungated_start)
  next
    case (Some r)
    obtain e w1 where e: "run_plan env now r w = (e, w1)" by (metis surj_pair)
    from run_plan_ungated [OF assms e] Some e show ?thesis
      by (simp add: fire_def ungated_start) (simp add: ungated_since_def)
  qed
  then show ?thesis by (simp add: ungated_since_def)
qed

end
