(* ===== verification/Scheduler_Laws.thy ===== *)
theory Scheduler_Laws
  imports Scheduled_Run
begin

text \<open>
  What the scheduler keeps: how often a schedule runs, which job a row has, and what a user can do to
  the schedules of another.
\<close>

section \<open>Rows by identifier\<close>

definition row_of :: "string \<Rightarrow> rows \<Rightarrow> scheduled_plan option" where
  "row_of sid rs = find (\<lambda>r. sp_id r = sid) rs"

definition ids_distinct :: "rows \<Rightarrow> bool" where
  "ids_distinct rs \<longleftrightarrow> distinct (map sp_id rs)"

lemma row_of_iff: "ids_distinct rs \<Longrightarrow> row_of sid rs = Some r \<longleftrightarrow> r \<in> set rs \<and> sp_id r = sid"
  unfolding row_of_def ids_distinct_def by (induction rs) force+

lemma row_of_id: "row_of sid rs = Some r \<Longrightarrow> sp_id r = sid"
  by (auto simp: row_of_def find_Some_iff)

lemma row_of_update:
  "(\<And>r. sp_id (f r) = sp_id r) \<Longrightarrow> row_of sid (update_where p f rs) = map_option (\<lambda>r. if p r then f r else r) (row_of sid rs)"
  by (induction rs) (auto simp: row_of_def update_where_def)

lemma ids_update [simp]: "(\<And>r. sp_id (f r) = sp_id r) \<Longrightarrow> ids_distinct (update_where p f rs) = ids_distinct rs"
  by (simp add: ids_distinct_def update_where_def o_def if_distrib cong: if_cong)

lemma due_scheduleD:
  assumes "due_schedule sid rs = Some r"
  shows "r \<in> set rs" "sp_id r = sid" "sp_status r = ''active''"
proof -
  have "r \<in> set (get_active_schedules rs)" "sp_id r = sid"
    using assms unfolding due_schedule_def find_Some_iff by (metis nth_mem)+
  then show "r \<in> set rs" "sp_id r = sid" "sp_status r = ''active''" by (auto simp: set_active)
qed

section \<open>What a run does to the rows\<close>

lemma run_plan_base:
  assumes "run_plan env now r w = (e, w')"
  shows "ss_rows w' = ss_rows w" "ss_jobs w' = ss_jobs w"
proof -
  have a: "ss_rows w2 = ss_rows w1 \<and> ss_jobs w2 = ss_jobs w1" if "approve_run env now r p w1 = (x, w2)" for p w1 w2 x
    using that by (auto simp: approve_run_def Let_def split: prod.splits sum.splits if_splits)
  have b: "ss_rows w2 = ss_rows w1 \<and> ss_jobs w2 = ss_jobs w1" if "execute_attempt env q w1 = (x, w2)" for q w1 w2 x
    using that by (auto simp: execute_attempt_def split: prod.splits)
  have c: "ss_rows w2 = ss_rows w1 \<and> ss_jobs w2 = ss_jobs w1" if "execute_with_gate env r p tok w1 = (x, w2)" for p tok w1 w2 x
    using that by (auto simp: execute_with_gate_def dest!: b split: prod.splits sum.splits exec_error.splits if_splits)
  have "ss_rows w' = ss_rows w \<and> ss_jobs w' = ss_jobs w"
    using assms by (auto simp: run_plan_def dest!: a c split: prod.splits sum.splits if_splits)
  then show "ss_rows w' = ss_rows w" "ss_jobs w' = ss_jobs w" by simp_all
qed

lemma record_run_rows [simp]:
  "ss_rows (record_run env now sid e w) = record_execution (sl_show_time env) sid now e (ss_rows w)"
  "ss_jobs (record_run env now sid e w) = ss_jobs w"
  by (simp_all add: record_run_def)

lemma set_columns_rows [simp]:
  "ss_rows (set_columns now r cs w) = update_where (owned (sp_id r) (sp_user_id r)) (updated_row now cs) (ss_rows w)"
  "ss_jobs (set_columns now r cs w) = ss_jobs w"
  by (simp_all add: set_columns_def update_scheduled_plan_def)

lemma remove_job_rows [simp]: "ss_rows (remove_job sid st) = ss_rows st"
  by (simp add: remove_job_def)

lemma row_of_record:
  "row_of k (record_execution sh sid now e rs) = map_option (\<lambda>r. if sp_id r = sid then recorded sh now e r else r) (row_of k rs)"
  by (simp add: record_execution_def row_of_update)

lemma ids_record [simp]: "ids_distinct (record_execution sh sid now e rs) = ids_distinct rs"
  by (simp add: record_execution_def)

section \<open>How often a schedule runs\<close>

text \<open>The run count a schedule can reach without being edited: \<open>None\<close> when there is no bound.\<close>

definition run_budget :: "scheduled_plan \<Rightarrow> int option" where
  "run_budget r = (if sp_status r \<noteq> ''active'' then Some (sp_run_count r)
     else if sp_schedule_type r = ''once'' then Some (sp_run_count r + 1)
     else case sp_max_runs r of None \<Rightarrow> None
       | Some m \<Rightarrow> if m = 0 then None else Some (max m (sp_run_count r + 1)))"

definition stored_ok :: "scheduled_plan \<Rightarrow> bool" where
  "stored_ok r \<longleftrightarrow> (case sp_recurrence_config r of None \<Rightarrow> True | Some c \<Rightarrow> recurrence_ok c)"

text \<open>A row may only move to one that is not richer.\<close>

definition spends :: "scheduled_plan \<Rightarrow> scheduled_plan \<Rightarrow> bool" where
  "spends r r' \<longleftrightarrow> stored_ok r' \<and> sp_run_count r \<le> sp_run_count r' \<and>
     (\<forall>b. run_budget r = Some b \<longrightarrow> (\<exists>b'. run_budget r' = Some b' \<and> b' \<le> b))"

lemma spends_refl: "stored_ok r \<Longrightarrow> spends r r"
  by (simp add: spends_def)

lemma spends_trans: "spends r s \<Longrightarrow> spends s t \<Longrightarrow> spends r t"
  unfolding spends_def by (meson order_trans)

lemma recorded_spends:
  assumes "sp_status r = ''active''" "stored_ok r"
  shows "spends r (recorded sh now e r)"
  using assms by (auto simp: spends_def recorded_def Let_def run_budget_def stored_ok_def reached_def
      split: option.splits if_splits)

lemma failed_spends:
  "sp_status r = ''active'' \<Longrightarrow> stored_ok r \<Longrightarrow> spends r (updated_row now [C_status ''paused''] (recorded sh now (Some x) r))"
  by (cases x) (auto simp: spends_def updated_row_def recorded_def Let_def run_budget_def stored_ok_def
      split: option.splits if_splits)

lemma next_run_spends: "stored_ok r \<Longrightarrow> spends r (updated_row now [C_next_run d] r)"
  by (auto simp: spends_def updated_row_def run_budget_def stored_ok_def split: option.splits if_splits)

lemma owned_self: "owned (sp_id r) (sp_user_id r) r"
  by (simp add: owned_def)

lemma recorded_count: "sp_run_count (recorded sh now e r) = sp_run_count r + 1"
  by (simp add: recorded_def Let_def split: option.split prod.split)

definition due_now :: "string \<Rightarrow> string \<Rightarrow> rows \<Rightarrow> int" where
  "due_now k sid rs = (if sid = k \<and> due_schedule k rs \<noteq> None then 1 else 0)"

text \<open>What settling a run does to the row it ran for.\<close>

lemma settle_run_other:
  assumes "k \<noteq> sp_id r"
  shows "row_of k (ss_rows (settle_run env now r e w)) = row_of k (ss_rows w)"
proof -
  have "row_of k (update_where (owned (sp_id r) u) (updated_row now cs) rs) = row_of k rs" for u cs rs
    using assms by (cases "row_of k rs") (auto simp: row_of_update owned_def dest: row_of_id)
  moreover have "row_of k (record_execution sh (sp_id r) now x rs) = row_of k rs" for sh x rs
    using assms by (cases "row_of k rs") (auto simp: row_of_record dest: row_of_id)
  ultimately show ?thesis
    by (auto simp: settle_run_def Let_def split: run_end.split option.split bool.split)
qed

lemma settle_run_row:
  assumes "row_of (sp_id r) (ss_rows w) = Some r" "sp_status r = ''active''" "stored_ok r"
  obtains r' where "row_of (sp_id r) (ss_rows (settle_run env now r e w)) = Some r'" "spends r r'"
    "sp_run_count r' = sp_run_count r + 1"
proof -
  let ?rec = "\<lambda>x. recorded (sl_show_time env) now x r"
  have one: "sp_run_count (?rec x) = sp_run_count r + 1" "sp_run_count (updated_row now [C_next_run d] (?rec x)) = sp_run_count r + 1"
    "sp_run_count (updated_row now [C_status s] (?rec x)) = sp_run_count r + 1" for x d s
    by (simp_all add: recorded_count updated_row_def)
  have rec: "row_of (sp_id r) (record_execution (sl_show_time env) (sp_id r) now x (ss_rows w)) = Some (?rec x)" for x
    using assms(1) by (simp add: row_of_record)
  have upd: "row_of (sp_id r) (update_where (owned (sp_id r) (sp_user_id r)) (updated_row now cs)
      (record_execution (sl_show_time env) (sp_id r) now x (ss_rows w))) = Some (updated_row now cs (?rec x))" for cs x
    using rec by (simp add: row_of_update owned_self)
  note sp = recorded_spends [OF assms(2,3)]
  show thesis
  proof (cases e)
    case Ran
    show thesis
    proof (cases "sp_schedule_type r = ''recurring'' \<and> sp_recurrence_config r \<noteq> None")
      case True
      then obtain c where c: "sp_recurrence_config r = Some c" "recurrence_ok c" using assms(3) by (auto simp: stored_ok_def)
      have "spends r (updated_row now [C_next_run (compute_next_run env c (sp_timezone r) now)] (?rec None))"
        using sp [of "sl_show_time env" now None] by (rule spends_trans [OF _ next_run_spends]) (use sp in \<open>auto simp: spends_def\<close>)
      then show thesis
        using that upd [of "[C_next_run (compute_next_run env c (sp_timezone r) now)]" None] Ran True c one
        by (simp add: settle_run_def Let_def)
    next
      case False
      then show thesis
        using that [of "?rec None"] rec sp Ran one by (auto simp: settle_run_def Let_def split: option.splits bool.splits)
    qed
  next
    case (Raised tm)
    then show thesis
      using that rec sp one by (cases tm) (simp add: settle_run_def)
  next
    case (Gated g n m)
    then show thesis
      using that upd failed_spends [OF assms(2,3)] one by (simp add: settle_run_def)
  qed
qed

lemma settle_run_ids: "ids_distinct (ss_rows (settle_run env now r e w)) = ids_distinct (ss_rows w)"
  by (auto simp: settle_run_def Let_def split: run_end.split option.split bool.split)

lemma fire_ids: "ids_distinct (ss_rows (fire env now sid w)) = ids_distinct (ss_rows w)"
  by (auto simp: fire_def settle_run_ids dest: run_plan_base split: option.split prod.split)

lemma fire_spends:
  assumes "ids_distinct (ss_rows w)" "row_of k (ss_rows w) = Some r" "stored_ok r"
  obtains r' where "row_of k (ss_rows (fire env now sid w)) = Some r'" "spends r r'"
    "sp_run_count r' = sp_run_count r + due_now k sid (ss_rows w)"
proof (cases "due_schedule sid (ss_rows w)")
  case None
  then have "due_now k sid (ss_rows w) = 0" by (auto simp: due_now_def)
  then show thesis using that assms spends_refl None by (simp add: fire_def)
next
  case (Some d)
  note due = due_scheduleD [OF Some]
  show thesis
  proof (cases "k = sid")
    case True
    have "row_of sid (ss_rows w) = Some d" using due assms(1) by (simp add: row_of_iff)
    then have d: "d = r" "sp_id r = sid" using assms(2) True due(2) by auto
    have one: "due_now k sid (ss_rows w) = 1" using Some True by (simp add: due_now_def)
    show thesis
    proof (cases "se_services env")
      case False
      then show thesis
        using that assms(2) recorded_spends [OF _ assms(3)] Some due d True one by (simp add: fire_def row_of_record recorded_count)
    next
      case se: True
      obtain e w1 where e: "run_plan env now r w = (e, w1)" by (metis surj_pair)
      have "row_of (sp_id r) (ss_rows w1) = Some r" using assms(2) run_plan_base(1) [OF e] True d by simp
      then obtain r' where "row_of (sp_id r) (ss_rows (settle_run env now r e w1)) = Some r'" "spends r r'"
        "sp_run_count r' = sp_run_count r + 1"
        using due d assms(3) settle_run_row by metis
      then show thesis using that Some se e d True one by (simp add: fire_def)
    qed
  next
    case False
    obtain e w1 where e: "run_plan env now d w = (e, w1)" by (metis surj_pair)
    have "row_of k (ss_rows (fire env now sid w)) = row_of k (ss_rows w)"
    proof (cases "se_services env")
      case True
      then show ?thesis
        using Some e False due(2) settle_run_other [of k d env now e w1] run_plan_base(1) [OF e] by (simp add: fire_def)
    next
      case False
      with \<open>k \<noteq> sid\<close> show ?thesis
        using Some row_of_id [OF assms(2)] assms(2) by (simp add: fire_def row_of_record)
    qed
    then show thesis using that assms spends_refl False by (simp add: due_now_def)
  qed
qed

text \<open>Firings of any schedules, each with what its world answers.\<close>

type_synonym ('s, 'x) firing = "('s, 'x) sched_env \<times> int \<times> string"

definition fire_all :: "('s, 'x) firing list \<Rightarrow> ('s, 'x) sched_world \<Rightarrow> ('s, 'x) sched_world" where
  "fire_all = fold (\<lambda>(env, now, sid). fire env now sid)"

text \<open>How many of the firings find schedule \<open>k\<close> active, and so run its plan.\<close>

fun due_firings :: "string \<Rightarrow> ('s, 'x) firing list \<Rightarrow> ('s, 'x) sched_world \<Rightarrow> int" where
  "due_firings k [] w = 0"
| "due_firings k ((env, now, sid) # fs) w = due_now k sid (ss_rows w) + due_firings k fs (fire env now sid w)"

lemma fire_all_spends:
  assumes "ids_distinct (ss_rows w)" "row_of k (ss_rows w) = Some r" "stored_ok r"
  shows "\<exists>r'. row_of k (ss_rows (fire_all fs w)) = Some r' \<and> spends r r' \<and> sp_run_count r' = sp_run_count r + due_firings k fs w"
  using assms
proof (induction fs arbitrary: w r)
  case Nil
  then show ?case by (simp add: fire_all_def spends_refl)
next
  case (Cons f fs)
  obtain env now sid where f: "f = (env, now, sid)" by (metis surj_pair)
  obtain r1 where r1: "row_of k (ss_rows (fire env now sid w)) = Some r1" "spends r r1"
    "sp_run_count r1 = sp_run_count r + due_now k sid (ss_rows w)"
    by (rule fire_spends [OF Cons.prems])
  have "ids_distinct (ss_rows (fire env now sid w))" using Cons.prems(1) by (simp add: fire_ids)
  moreover have "stored_ok r1" using r1(2) by (simp add: spends_def)
  ultimately obtain r' where r': "row_of k (ss_rows (fire_all fs (fire env now sid w))) = Some r'" "spends r1 r'"
    "sp_run_count r' = sp_run_count r1 + due_firings k fs (fire env now sid w)"
    using Cons.IH r1(1) by blast
  have "fire_all (f # fs) w = fire_all fs (fire env now sid w)" by (simp add: f fire_all_def)
  then show ?case using spends_trans [OF r1(2) r'(2)] r'(1,3) r1(3) by (simp add: f)
qed

lemma budget_covers: "run_budget r = Some b \<Longrightarrow> sp_run_count r \<le> b"
  by (auto simp: run_budget_def split: if_splits option.splits)

text \<open>C10. A schedule runs no more often than its limit. Let its jobs fire in any number and order, with whatever the planner,
  the approval gate and the executor answer. Every firing that finds the schedule active adds one to its run count, whether
  the run succeeds, fails or stops at a gate; and the number of those firings is at most what the limit leaves: one for a
  one-time schedule, \<open>max_runs\<close> less the runs so far for a recurring one (at least one), none for a schedule that is
  not active. The schedule is not edited in between (an edit can make it active again), the database answers, and one
  firing ends before the next begins, as \<open>max_instances=1\<close> asks of APScheduler.\<close>

theorem runs_within_budget:
  assumes "ids_distinct (ss_rows w)" "row_of k (ss_rows w) = Some r" "stored_ok r" "run_budget r = Some b"
  shows "due_firings k fs w \<le> b - sp_run_count r \<and>
    (\<exists>r'. row_of k (ss_rows (fire_all fs w)) = Some r' \<and> sp_run_count r' = sp_run_count r + due_firings k fs w)"
  using fire_all_spends [OF assms(1-3), of fs] assms(4) by (fastforce simp: spends_def dest: budget_covers)

section \<open>Jobs\<close>

definition has_job :: "('l) sched_lib_scheme \<Rightarrow> (string, job) dict \<Rightarrow> scheduled_plan \<Rightarrow> bool" where
  "has_job lib js r \<longleftrightarrow> (sp_status r = ''active'' \<longrightarrow>
     (\<forall>j. job_of lib r = Inr (Some j) \<longrightarrow> dict_get js (job_id (sp_id r)) = Some j))"

text \<open>Every active row whose trigger APScheduler accepts has its job.\<close>

definition jobs_cover :: "('l) sched_lib_scheme \<Rightarrow> 'r sched_state_scheme \<Rightarrow> bool" where
  "jobs_cover lib st \<longleftrightarrow> ids_distinct (ss_rows st) \<and>
     (\<exists>js. ss_jobs st = Some js \<and> (\<forall>r\<in>set (ss_rows st). has_job lib js r))"

lemma job_id_inject [simp]: "job_id a = job_id b \<longleftrightarrow> a = b"
  by (simp add: job_id_def)

lemma register_job_jobs:
  assumes "register_job lib r st = (x, st')" "ss_jobs st = Some js"
  obtains js' where "ss_jobs st' = Some js'" "ss_rows st' = ss_rows st" "has_job lib js' r"
    "\<And>r'. sp_id r' \<noteq> sp_id r \<Longrightarrow> has_job lib js' r' = has_job lib js r'"
proof (cases "job_of lib r")
  case (Inl e)
  with assms that [of js] show thesis by (auto simp: register_job_def has_job_def)
next
  case (Inr oj)
  with assms that show thesis
    by (cases oj) (auto simp: register_job_def has_job_def)
qed

lemma remove_job_jobs:
  assumes "ss_jobs st = Some js"
  obtains js' where "ss_jobs (remove_job sid st) = Some js'" "dict_get js' (job_id sid) = None"
    "\<And>r. sp_id r \<noteq> sid \<Longrightarrow> has_job lib js' r = has_job lib js r"
  using assms that [of "AList.delete (job_id sid) js"] by (simp add: remove_job_def has_job_def delete_conv')

section \<open>Restarting\<close>

lemma start_fold:
  assumes "distinct (map sp_id xs)" "ss_jobs st = Some js"
  shows "\<exists>js'. ss_jobs (fold (\<lambda>r s. snd (register_job lib r s)) xs st) = Some js' \<and>
     ss_rows (fold (\<lambda>r s. snd (register_job lib r s)) xs st) = ss_rows st \<and> (\<forall>r\<in>set xs. has_job lib js' r) \<and>
     (\<forall>r. sp_id r \<notin> sp_id ` set xs \<longrightarrow> has_job lib js' r = has_job lib js r)"
  using assms
proof (induction xs arbitrary: st js)
  case (Cons x xs)
  obtain q st1 where reg: "register_job lib x st = (q, st1)" by (metis surj_pair)
  obtain js1 where j1: "ss_jobs st1 = Some js1" "ss_rows st1 = ss_rows st" "has_job lib js1 x"
    "\<And>r'. sp_id r' \<noteq> sp_id x \<Longrightarrow> has_job lib js1 r' = has_job lib js r'"
    using register_job_jobs [OF reg Cons.prems(2)] by metis
  have "distinct (map sp_id xs)" using Cons.prems(1) by simp
  from Cons.IH [OF this j1(1)] j1 Cons.prems(1) reg show ?case by (auto 0 3)
qed simp

lemma active_distinct: "ids_distinct rs \<Longrightarrow> distinct (map sp_id (get_active_schedules rs))"
  unfolding ids_distinct_def distinct_map
proof
  assume "distinct rs \<and> inj_on sp_id (set rs)"
  then show "distinct (get_active_schedules rs)" "inj_on sp_id (set (get_active_schedules rs))"
    by (auto simp: get_active_schedules_def Let_def) (auto intro: inj_onI dest: inj_onD)
qed

lemma start_covers:
  assumes "ids_distinct (ss_rows st)"
  shows "jobs_cover lib (start_scheduler lib st)"
proof -
  let ?xs = "get_active_schedules (ss_rows st)"
  obtain js' where "ss_jobs (start_scheduler lib st) = Some js'" "ss_rows (start_scheduler lib st) = ss_rows st"
    "\<forall>r\<in>set ?xs. has_job lib js' r"
    using start_fold [OF active_distinct [OF assms], of "st \<lparr>ss_jobs := Some []\<rparr>" "[]" lib] by (auto simp: start_scheduler_def)
  with assms show ?thesis by (auto simp: jobs_cover_def set_active) (auto simp: has_job_def)
qed

text \<open>The job table of a scheduler that has just started.\<close>

lemma start_table:
  assumes "distinct (map sp_id xs)" "ss_jobs st = Some js"
  shows "\<exists>js'. ss_jobs (fold (\<lambda>r s. snd (register_job lib r s)) xs st) = Some js' \<and>
    (\<forall>k j. dict_get js' k = Some j \<longleftrightarrow> (\<exists>r\<in>set xs. k = job_id (sp_id r) \<and> job_of lib r = Inr (Some j)) \<or>
       dict_get js k = Some j \<and> (\<forall>r\<in>set xs. k = job_id (sp_id r) \<longrightarrow> (\<forall>j'. job_of lib r \<noteq> Inr (Some j'))))"
  using assms
proof (induction xs arbitrary: st js)
  case (Cons x xs)
  define js1 where "js1 = (case job_of lib x of Inr (Some j) \<Rightarrow> dict_set (job_id (sp_id x)) j js | _ \<Rightarrow> js)"
  have st1: "ss_jobs (snd (register_job lib x st)) = Some js1"
    using Cons.prems(2) by (simp add: register_job_def js1_def split: sum.split option.split)
  have d: "distinct (map sp_id xs)" "sp_id x \<notin> sp_id ` set xs" using Cons.prems(1) by simp_all
  have get: "dict_get js1 k = Some j \<longleftrightarrow> k = job_id (sp_id x) \<and> job_of lib x = Inr (Some j) \<or>
      dict_get js k = Some j \<and> (k = job_id (sp_id x) \<longrightarrow> (\<forall>j'. job_of lib x \<noteq> Inr (Some j')))" for k j
    by (auto simp: js1_def split: sum.split option.split)
  obtain js' where js': "ss_jobs (fold (\<lambda>r s. snd (register_job lib r s)) xs (snd (register_job lib x st))) = Some js'"
    "\<And>k j. dict_get js' k = Some j \<longleftrightarrow> (\<exists>r\<in>set xs. k = job_id (sp_id r) \<and> job_of lib r = Inr (Some j)) \<or>
       dict_get js1 k = Some j \<and> (\<forall>r\<in>set xs. k = job_id (sp_id r) \<longrightarrow> (\<forall>j'. job_of lib r \<noteq> Inr (Some j')))"
    using Cons.IH [OF d(1) st1] by blast
  show ?case
    using js'(1) d(2) by (intro exI [of _ js']) (auto simp: js'(2) get)
qed simp


section \<open>Operations\<close>

lemma ids_append: "ids_distinct (rs @ [r]) \<longleftrightarrow> ids_distinct rs \<and> sp_id r \<notin> sp_id ` set rs"
  by (auto simp: ids_distinct_def)

lemma create_covers:
  assumes "jobs_cover lib st" "create_schedule lib now sid user q st = (x, st')" "sid \<notin> sp_id ` set (ss_rows st)"
  shows "jobs_cover lib st'"
proof (cases "schedule_times lib now q")
  case (Inl e)
  with assms show ?thesis by (simp add: create_schedule_def)
next
  case (Inr t)
  from assms(2) Inr obtain v y where reg: "register_job lib (fst (create_scheduled_plan sid now v (ss_rows st)))
      (st \<lparr>ss_rows := snd (create_scheduled_plan sid now v (ss_rows st))\<rparr>) = (y, st')"
    by (cases t) (auto simp: create_schedule_def Let_def create_scheduled_plan_def split: prod.splits sum.splits)
  obtain r where r: "create_scheduled_plan sid now v (ss_rows st) = (r, ss_rows st @ [r])" "sp_id r = sid"
    by (simp add: create_scheduled_plan_def Let_def schedule_values.extend_def)
  obtain js where js: "ss_jobs st = Some js" "\<forall>r\<in>set (ss_rows st). has_job lib js r" "ids_distinct (ss_rows st)"
    using assms(1) by (auto simp: jobs_cover_def)
  have "register_job lib r (st \<lparr>ss_rows := ss_rows st @ [r]\<rparr>) = (y, st')" using reg r(1) by simp
  then obtain js' where j': "ss_jobs st' = Some js'" "ss_rows st' = ss_rows st @ [r]" "has_job lib js' r"
    "\<And>r'. sp_id r' \<noteq> sp_id r \<Longrightarrow> has_job lib js' r' = has_job lib js r'"
    by (rule register_job_jobs) (use js(1) in auto)
  have "ids_distinct (ss_rows st')" using js(3) assms(3) r(2) j'(2) by (simp add: ids_append)
  moreover have "\<forall>r'\<in>set (ss_rows st'). has_job lib js' r'"
  proof
    fix r' assume r': "r' \<in> set (ss_rows st')"
    show "has_job lib js' r'"
    proof (cases "r' \<in> set (ss_rows st)")
      case True
      then have "sp_id r' \<noteq> sp_id r" using assms(3) r(2) by (metis image_eqI)
      with True j'(4) js(2) show ?thesis by simp
    next
      case False
      with r' j'(2,3) show ?thesis by simp
    qed
  qed
  ultimately show ?thesis using j'(1) by (auto simp: jobs_cover_def)
qed

lemma delete_covers:
  assumes "jobs_cover lib st" "delete_schedule sid user st = (Inr (), st')"
  shows "jobs_cover lib st'"
proof -
  obtain js where js: "ss_jobs st = Some js" "\<forall>r\<in>set (ss_rows st). has_job lib js r" "ids_distinct (ss_rows st)"
    using assms(1) by (auto simp: jobs_cover_def)
  obtain js' where j': "ss_jobs (remove_job sid st) = Some js'"
    "\<And>r. sp_id r \<noteq> sid \<Longrightarrow> has_job lib js' r = has_job lib js r" using remove_job_jobs [OF js(1)] by metis
  from assms(2) obtain ow where own: "ow \<in> set (ss_rows st)" "owned sid user ow"
    and st': "st' = remove_job sid st \<lparr>ss_rows := filter (\<lambda>r. \<not> owned sid user r) (ss_rows st)\<rparr>"
    by (auto simp: delete_schedule_def delete_scheduled_plan_def Let_def list_ex_iff split: if_splits)
  have "sp_id r \<noteq> sid" if "r \<in> set (ss_rows st')" for r
    using that own js(3) unfolding st' by (auto simp: owned_def ids_distinct_def distinct_map inj_on_def)
  moreover have "ids_distinct (ss_rows st')" using js(3) unfolding st' by (simp add: ids_distinct_def distinct_map_filter)
  ultimately show ?thesis using js(2) j' unfolding jobs_cover_def st' by simp
qed

lemma update_rows_cover:
  assumes cover: "ids_distinct (ss_rows st)" "ss_jobs st = Some js" "\<And>r. r \<in> set (ss_rows st) \<Longrightarrow> sp_id r \<noteq> sid \<Longrightarrow> has_job lib js r"
    and get: "get_scheduled_plan sid user (ss_rows st) = Some u"
    and reg: "if sp_status u = ''active'' then register_job lib u (remove_job sid st) = (x, st') else st' = st"
  shows "jobs_cover lib st'"
proof -
  have u: "u \<in> set (ss_rows st)" "sp_id u = sid"
    using get unfolding get_scheduled_plan_def find_Some_iff owned_def by (metis nth_mem)+
  then have uniq: "r = u" if "r \<in> set (ss_rows st)" "sp_id r = sid" for r
    using that cover(1) by (auto simp: ids_distinct_def distinct_map inj_on_def)
  show ?thesis
  proof (cases "sp_status u = ''active''")
    case True
    obtain js1 where j1: "ss_jobs (remove_job sid st) = Some js1"
      "\<And>r. sp_id r \<noteq> sid \<Longrightarrow> has_job lib js1 r = has_job lib js r" using remove_job_jobs [OF cover(2)] by metis
    have "register_job lib u (remove_job sid st) = (x, st')" using reg True by simp
    then obtain js' where j': "ss_jobs st' = Some js'" "ss_rows st' = ss_rows st" "has_job lib js' u"
      "\<And>r'. sp_id r' \<noteq> sp_id u \<Longrightarrow> has_job lib js' r' = has_job lib js1 r'"
      by (rule register_job_jobs) (use j1(1) in auto)
    have "has_job lib js' r" if "r \<in> set (ss_rows st)" for r
      using that uniq [OF that] u j' j1(2) cover(3) by (cases "sp_id r = sid") auto
    with cover(1) j' show ?thesis by (auto simp: jobs_cover_def)
  next
    case False
    have "has_job lib js r" if "r \<in> set (ss_rows st)" for r
      using that uniq [OF that] False cover(3) by (cases "sp_id r = sid") (auto simp: has_job_def)
    with cover reg False show ?thesis by (auto simp: jobs_cover_def)
  qed
qed

lemma get_updated:
  "get_scheduled_plan sid user rs = Some r \<Longrightarrow>
     get_scheduled_plan sid user (update_where (owned sid user) (updated_row now cs) rs) = Some (updated_row now cs r)"
  unfolding get_scheduled_plan_def update_where_def by (induction rs) (auto split: if_splits)

lemma update_covers:
  assumes "jobs_cover lib st" "update_schedule lib now sid user q st = (Inr x, st')"
  shows "jobs_cover lib st'"
proof -
  obtain js where js: "ss_jobs st = Some js" "\<forall>r\<in>set (ss_rows st). has_job lib js r" "ids_distinct (ss_rows st)"
    using assms(1) by (auto simp: jobs_cover_def)
  from assms(2) obtain r where r: "get_scheduled_plan sid user (ss_rows st) = Some r"
    by (auto simp: update_schedule_def split: option.splits)
  define st1 where "st1 = (case uq_status q of None \<Rightarrow> st
     | Some s \<Rightarrow> if status_change (sp_status r) s then remove_job sid st else st)"
  have rows1: "ss_rows st1 = ss_rows st" by (auto simp: st1_def split: option.split)
  obtain js1 where j1: "ss_jobs st1 = Some js1" "\<And>r. sp_id r \<noteq> sid \<Longrightarrow> has_job lib js1 r = has_job lib js r"
  proof (cases "st1 = st")
    case True
    with that js(1) show thesis by simp
  next
    case False
    then have "st1 = remove_job sid st" by (auto simp: st1_def split: option.splits if_splits)
    with that remove_job_jobs [OF js(1)] show thesis by metis
  qed
  from assms(2) r obtain edits where edits: "schedule_edits lib now r q = Inr edits" "storable (plain_columns q @ edits)"
    unfolding update_schedule_def by (auto simp: Let_def split: option.splits sum.splits if_splits)
  define st2 where "st2 = st1 \<lparr>ss_rows := update_where (owned sid user) (updated_row now (plain_columns q @ edits)) (ss_rows st1)\<rparr>"
  have get: "get_scheduled_plan sid user (ss_rows st2) = Some (updated_row now (plain_columns q @ edits) r)"
    using get_updated [OF r] by (simp add: st2_def rows1)
  let ?u = "updated_row now (plain_columns q @ edits) r"
  have "update_schedule lib now sid user q st = (if sp_status ?u = ''active''
      then (case register_job lib ?u (remove_job sid st2) of (Inl e, st3) \<Rightarrow> (Inl e, st3) | (Inr _, st3) \<Rightarrow> (Inr (Some ?u), st3))
      else (Inr (Some ?u), st2))"
    using get edits unfolding st2_def
    by (simp add: update_schedule_def r Let_def st1_def [symmetric] update_scheduled_plan_def)
  then have "if sp_status ?u = ''active'' then \<exists>y. register_job lib ?u (remove_job sid st2) = (y, st') else st' = st2"
    using assms(2) by (auto split: prod.splits sum.splits if_splits)
  moreover have "ids_distinct (ss_rows st2)" using js(3) by (simp add: st2_def rows1)
  moreover have "ss_jobs st2 = Some js1" using j1(1) by (simp add: st2_def)
  moreover have "has_job lib js1 r'" if "r' \<in> set (ss_rows st2)" "sp_id r' \<noteq> sid" for r'
    using that js(2) j1(2) by (auto simp: st2_def rows1 update_where_def owned_def split: if_splits)
  ultimately show ?thesis using update_rows_cover [OF _ _ _ get] by (auto split: if_splits)
qed

lemma job_of_cong:
  assumes "sp_schedule_type r' = sp_schedule_type r" "sp_scheduled_at r' = sp_scheduled_at r" "sp_timezone r' = sp_timezone r"
    "sp_recurrence_config r' = sp_recurrence_config r" "sp_name r' = sp_name r"
  shows "job_of lib r' = job_of lib r"
  unfolding job_of_def assms ..

lemma job_of_same [simp]:
  "job_of lib (recorded sh now e r) = job_of lib r"
  "job_of lib (updated_row now [C_next_run d] r) = job_of lib r" "job_of lib (updated_row now [C_status s] r) = job_of lib r"
  by (rule job_of_cong; simp add: updated_row_def)+

lemma status_same:
  "sp_status (recorded sh now e r) = ''active'' \<Longrightarrow> sp_status r = ''active''"
  "sp_status (updated_row now [C_next_run d] r) = sp_status r" "sp_status (updated_row now [C_status s] r) = s"
  by (auto simp: recorded_def Let_def updated_row_def split: option.splits if_splits)

lemma has_job_same:
  "has_job lib js r \<Longrightarrow> has_job lib js (recorded sh now e r)"
  "has_job lib js (updated_row now [C_next_run d] r) = has_job lib js r"
  "has_job lib js (updated_row now [C_status ''paused''] r)"
  by (auto simp: has_job_def status_same dest: status_same(1))

lemma record_run_covers:
  assumes "jobs_cover lib w"
  shows "jobs_cover lib (record_run env now sid e w)"
proof -
  have "has_job lib js r" if "\<forall>r\<in>set rs. has_job lib js r" "r \<in> set (record_execution sh sid now e rs)" for js rs sh r
    using that by (auto simp: record_execution_def update_where_def has_job_same)
  with assms show ?thesis by (fastforce simp: jobs_cover_def)
qed

lemma next_run_covers:
  assumes "jobs_cover lib w"
  shows "jobs_cover lib (set_columns now r [C_next_run d] w)"
proof -
  have "has_job lib js s" if "\<forall>r\<in>set rs. has_job lib js r" "s \<in> set (update_where p (updated_row now [C_next_run d]) rs)" for js rs p s
    using that by (auto simp: update_where_def has_job_same)
  with assms show ?thesis by (fastforce simp: jobs_cover_def)
qed

lemma settle_covers:
  assumes "jobs_cover lib w" "r \<in> set (ss_rows w)"
  shows "jobs_cover lib (settle_run env now r e w)"
proof -
  obtain js where js: "ss_jobs w = Some js" "\<forall>r\<in>set (ss_rows w). has_job lib js r" "ids_distinct (ss_rows w)"
    using assms(1) by (auto simp: jobs_cover_def)
  show ?thesis
  proof (cases e)
    case (Gated g n m)
    define x where "x = Some (''GATE_APPROVAL_REQUIRED'', [(''gate_id'', JStr g), (''step'', JInt n), (''message'', JStr m)])"
    define w1 where "w1 = set_columns now r [C_status ''paused''] (record_run env now (sp_id r) x w)"
    have j: "ss_jobs w1 = Some js" "ids_distinct (ss_rows w1)" using js by (simp_all add: w1_def)
    have all: "has_job lib js s \<and> (sp_id s = sp_id r \<longrightarrow> sp_status s = ''paused'')" if "s \<in> set (ss_rows w1)" for s
    proof -
      let ?rec = "recorded (sl_show_time env) now x"
      from that obtain s0 where s0: "s0 \<in> set (ss_rows w)" and s: "s = (let s1 = (if sp_id s0 = sp_id r then ?rec s0 else s0) in
          if owned (sp_id r) (sp_user_id r) s1 then updated_row now [C_status ''paused''] s1 else s1)"
        by (auto simp: w1_def record_execution_def update_where_def Let_def)
      show ?thesis
      proof (cases "sp_id s0 = sp_id r")
        case True
        then have "s0 = r" using s0 assms(2) js(3) by (auto simp: ids_distinct_def distinct_map inj_on_def)
        then have "s = updated_row now [C_status ''paused''] (?rec r)" using s by (simp add: owned_self)
        then show ?thesis by (simp add: has_job_same status_same)
      next
        case False
        then have "s = s0" using s by (simp add: owned_def)
        then show ?thesis using s0 js(2) False by simp
      qed
    qed
    obtain js' where "ss_jobs (remove_job (sp_id r) w1) = Some js'"
      "\<And>s. sp_id s \<noteq> sp_id r \<Longrightarrow> has_job lib js' s = has_job lib js s" using remove_job_jobs [OF j(1)] by metis
    moreover have "has_job lib js' s" if "sp_status s = ''paused''" for s using that by (simp add: has_job_def)
    ultimately have "jobs_cover lib (remove_job (sp_id r) w1)"
      using all j(2) unfolding jobs_cover_def by (metis remove_job_rows)
    then show ?thesis using Gated by (simp add: settle_run_def w1_def x_def)
  qed (use assms(1) in \<open>auto intro!: record_run_covers next_run_covers simp: settle_run_def Let_def split: option.split bool.split prod.split\<close>)
qed

lemma fire_covers:
  assumes "jobs_cover lib w"
  shows "jobs_cover lib (fire env now sid w)"
proof (cases "due_schedule sid (ss_rows w)")
  case None
  with assms show ?thesis by (simp add: fire_def)
next
  case (Some r)
  obtain e w1 where e: "run_plan env now r w = (e, w1)" by (metis surj_pair)
  note base = run_plan_base [OF e]
  have "jobs_cover lib w1" using assms base by (simp add: jobs_cover_def)
  then have "jobs_cover lib (settle_run env now r e w1)" using due_scheduleD(1) [OF Some] base(1) by (simp add: settle_covers)
  moreover have "jobs_cover lib (record_run env now sid x w)" for x
    using assms by (rule record_run_covers)
  ultimately show ?thesis using Some e by (simp add: fire_def)
qed

section \<open>Steps of the scheduler\<close>

section \<open>The schedules of others\<close>

text \<open>Deleting is not confined to one's own schedules: a request to delete the schedule of another user is answered
  \<open>not found\<close> and leaves the row, but the job is removed first, so that the schedule, still active, no longer runs.\<close>

theorem foreign_delete_unschedules:
  assumes "get_scheduled_plan sid user (ss_rows w) = None" "ss_jobs w = Some js"
  shows "fst (delete_schedule sid user w) = Inl (not_found sid) \<and> ss_rows (snd (delete_schedule sid user w)) = ss_rows w \<and>
    (\<exists>js'. ss_jobs (snd (delete_schedule sid user w)) = Some js' \<and> dict_get js' (job_id sid) = None)"
proof -
  have "\<forall>r\<in>set (ss_rows w). \<not> owned sid user r"
    using assms(1) by (auto simp: get_scheduled_plan_def find_None_iff)
  then have "delete_scheduled_plan sid user (ss_rows w) = (False, ss_rows w)"
    by (auto simp: delete_scheduled_plan_def list_ex_iff intro: filter_True)
  then have "delete_schedule sid user w = (Inl (not_found sid), remove_job sid w)"
    by (simp add: delete_schedule_def Let_def remove_job_def)
  moreover obtain js' where "ss_jobs (remove_job sid w) = Some js'" "dict_get js' (job_id sid) = None"
    using remove_job_jobs [OF assms(2)] by metis
  ultimately show ?thesis by simp
qed

text \<open>The outcome of a scheduled execution is not looked at: when the executor answers at all, be it that the token was
  refused, a tool failed or the plan expired, the run is recorded as a success and a one-time schedule is completed.\<close>

theorem every_outcome_recorded_as_success:
  assumes "due_schedule sid (ss_rows w) = Some r" "ids_distinct (ss_rows w)" "stored_ok r" "se_services env"
    and "intent_ok (intent_of r)" "generate_plan (se_planner env) (intent_of r) (sw_planner w) = (Inr res, pt)"
    and "approve_run env now r (pr_plan res) (w \<lparr>sw_planner := pt\<rparr>) = (Inr tok, w1)" "tok \<noteq> []"
    and "execute_plan (se_exec env) (execution_for (se_hex env) r (pr_plan res) tok None) (sw_exec w1) = (Inr out, x)"
  shows "\<exists>r'. row_of sid (ss_rows (fire env now sid w)) = Some r' \<and> sp_last_error r' = None \<and>
    sp_run_count r' = sp_run_count r + 1 \<and> sp_status r' = (if sp_schedule_type r = ''once'' \<or> reached (sp_max_runs r) (sp_run_count r + 1)
      then ''completed'' else ''active'')"
proof -
  note due = due_scheduleD [OF assms(1)]
  obtain w2 where run: "run_plan env now r w = (Ran, w2)"
    using assms(5-9) by (simp add: run_plan_def execute_with_gate_def execute_attempt_def)
  let ?r = "recorded (sl_show_time env) now None r"
  have row: "row_of sid (ss_rows w2) = Some r" using run_plan_base(1) [OF run] due assms(2) by (simp add: row_of_iff)
  then have rec: "row_of sid (record_execution (sl_show_time env) sid now None (ss_rows w2)) = Some ?r"
    using due(2) by (simp add: row_of_record)
  have fire: "fire env now sid w = settle_run env now r Ran w2" using assms(1,4) run by (simp add: fire_def)
  have last: "sp_last_error ?r = None \<and> sp_run_count ?r = sp_run_count r + 1 \<and> sp_status ?r =
      (if sp_schedule_type r = ''once'' \<or> reached (sp_max_runs r) (sp_run_count r + 1) then ''completed'' else ''active'')"
    using due(3) by (simp add: recorded_def Let_def)
  show ?thesis
  proof (cases "sp_schedule_type r = ''recurring'' \<and> sp_recurrence_config r \<noteq> None")
    case True
    then obtain c where c: "sp_recurrence_config r = Some c" "recurrence_ok c" using assms(3) by (auto simp: stored_ok_def)
    let ?cs = "[C_next_run (compute_next_run env c (sp_timezone r) now)]"
    have "row_of sid (ss_rows (fire env now sid w)) = Some (updated_row now ?cs ?r)"
      using rec c True due(2) owned_self [of r] by (simp add: fire settle_run_def Let_def row_of_update)
    moreover have "sp_last_error (updated_row now ?cs q) = sp_last_error q \<and> sp_run_count (updated_row now ?cs q) = sp_run_count q \<and>
        sp_status (updated_row now ?cs q) = sp_status q" for q by (simp add: updated_row_def)
    ultimately show ?thesis using last by simp
  next
    case False
    then have "row_of sid (ss_rows (fire env now sid w)) = Some ?r"
      using rec due(2) by (auto simp: fire settle_run_def Let_def split: option.splits bool.splits)
    with last show ?thesis by blast
  qed
qed

section \<open>A world\<close>

definition refusing_exec :: "(mem, int) service_env" where
  "refusing_exec = run_env \<lparr>sv_decode := \<lambda>_ _. Jwt_invalid\<rparr>"

definition sched_demo :: "(mem, int) sched_env" where
  "sched_demo = \<lparr>sl_cron_ok = \<lambda>_ _. True, sl_date_ok = \<lambda>_ _. True, sl_next = \<lambda>_ _ _. None, sl_show_time = \<lambda>_. '''',
     se_services = True, se_planner = planner_demo, se_approval = gate_env, se_exec = refusing_exec, se_token_id = ''T'', se_hex = ''h'',
     se_planner_text = \<lambda>_. (''PlannerError'', ''''), se_approval_text = \<lambda>_. (''ApprovalError'', '''')\<rparr>"

definition demo_row :: scheduled_plan where
  "demo_row = \<lparr>sp_user_id = ''u'', sp_name = ''n'', sp_intent_type = ''schedule'', sp_skeleton_json = [], sp_entities_json = [],
     sp_constraints_json = [], sp_schedule_type = ''once'', sp_scheduled_at = Some (utc 5), sp_cron_expression = None,
     sp_recurrence_config = None, sp_timezone = ''UTC'', sp_approval_mode = ''auto_approve'', sp_next_run_at = Some (utc 5),
     sp_max_runs = None, sp_source_plan_id = None, sp_id = ''a'', sp_status = ''active'', sp_last_run_at = None, sp_run_count = 0,
     sp_last_error = None, sp_created_at = 0, sp_updated_at = 0\<rparr>"

definition demo_world :: "(mem, int) sched_world" where
  "demo_world = \<lparr>ss_rows = [demo_row], ss_jobs = Some [(''scheduled_plan_a'', \<lparr>jb_trigger = Date_trigger (utc 5) ''UTC'', jb_name = ''schedule:n''\<rparr>)],
     sw_planner = fresh_planner, sw_audit = [], sw_exec = run_state\<rparr>"

lemma demo_simps [simp]:
  "ss_rows demo_world = [demo_row]" "ss_jobs demo_world = Some [(''scheduled_plan_a'', \<lparr>jb_trigger = Date_trigger (utc 5) ''UTC'', jb_name = ''schedule:n''\<rparr>)]"
  "sw_planner demo_world = fresh_planner" "sw_exec demo_world = run_state" "sw_audit demo_world = []"
  "sp_id demo_row = ''a''" "sp_user_id demo_row = ''u''" "sp_status demo_row = ''active''" "sp_run_count demo_row = 0"
  "sp_schedule_type demo_row = ''once''" "sp_recurrence_config demo_row = None" "intent_of demo_row = sample_intent"
  "sp_max_runs demo_row = None" "sp_name demo_row = ''n''" "sp_scheduled_at demo_row = Some (utc 5)" "sp_timezone demo_row = ''UTC''"
  "sp_next_run_at demo_row = Some (utc 5)"
  by (simp_all add: demo_world_def demo_row_def intent_of_def sample_intent_def)

lemma demo_ids: "ids_distinct [demo_row]" "row_of ''a'' [demo_row] = Some demo_row" "stored_ok demo_row" "run_budget demo_row = Some 1"
  "due_schedule ''a'' [demo_row] = Some demo_row"
  by (simp_all add: ids_distinct_def row_of_def stored_ok_def run_budget_def due_schedule_def get_active_schedules_def)

theorem runs_within_budget_witness:
  "due_firings ''a'' [(sched_demo, 7, ''a''), (sched_demo, 9, ''a'')] demo_world \<le> 1"
  using runs_within_budget [of demo_world "''a''" demo_row 1 "[(sched_demo, 7, ''a''), (sched_demo, 9, ''a'')]"] demo_ids by auto

theorem foreign_delete_unschedules_witness:
  "sp_status demo_row = ''active'' \<and> ss_rows (snd (delete_schedule ''a'' ''eve'' demo_world)) = [demo_row] \<and>
    (\<exists>js'. ss_jobs (snd (delete_schedule ''a'' ''eve'' demo_world)) = Some js' \<and> dict_get js' (job_id ''a'') = None)"
proof -
  have "get_scheduled_plan ''a'' ''eve'' (ss_rows demo_world) = None" by (simp add: get_scheduled_plan_def owned_def)
  from foreign_delete_unschedules [OF this] show ?thesis by simp
qed


lemma refused_outcome:
  obtains out x where "execute_plan refusing_exec req st = (Inr out, x)" "\<not> oc_success out"
proof -
  obtain r x where e: "execute_plan refusing_exec req st = (r, x)" by (metis surj_pair)
  have refuse: "run_phases refusing_exec req s = (Inl (Approval_token_error ''Signature verification failed.''), s)" for s
    by (simp add: run_phases_def check_request_def thenS_def bindS_def validate_approval_token_def refusing_exec_def)
  from e show thesis
  proof (rule execute_plan_phases)
    fix st0 q st1
    assume q: "run_phases refusing_exec req st0 = (q, st1)"
      and inr: "\<And>out. r = Inr out \<Longrightarrow> (\<exists>a. q = Inr a \<and> oc_success out \<and> oc_total_steps out = total_steps (xs_ctx st1) \<and>
        oc_policy_attestations out = cx_attestations (xs_ctx st1)) \<or> (\<exists>e. q = Inl e \<and> \<not> oc_success out \<and>
        oc_error_type out = Some (classify_error e))"
      and inl: "\<And>e. r = Inl e \<Longrightarrow> q = Inl e \<and> (\<exists>g n c ps. e = Gate_required g n c ps)"
    from q refuse have "q = Inl (Approval_token_error ''Signature verification failed.'')" by simp
    with inl inr that e show thesis by (cases r) fastforce+
  qed
qed

lemma generated_id: "generate_plan env i st = (Inr r, st') \<Longrightarrow> pl_plan_id (pr_plan r) = pn_ulid env 1"
  by (erule generate_plan_Inr; erule finish_plan_Inr) (simp_all add: result_of_def finalize_Inr(3))

lemma gate_a_ok: "gate_id_ok ''gate-A''"
  by code_simp

lemma demo_approved:
  assumes "length (pl_plan_id p) = 26"
  obtains w1 where "approve_run sched_demo 7 demo_row p (demo_world \<lparr>sw_planner := pt\<rparr>) = (Inr ''jwt'', w1)"
proof -
  let ?q = "approval_for ''h'' demo_row p" and ?g = "\<lparr>aw_policy = empty_state :: mem policy_state, aw_audit = []\<rparr>"
  have ok: "approval_request_ok ?q" using assms gate_a_ok by (simp add: approval_request_ok_def approval_for_def)
  have "get_gate gate_env 7 (ar_plan_id ?q) (ar_gate_id ?q) (pe_redis (aw_policy ?g)) = None"
    by (simp add: get_gate_def empty_state_def mem_redis_def mem_lookup_def)
  from approve_fresh [OF _ this] have "approve gate_env 7 ''T'' ?q ?g = map_prod Inr id (issue_token gate_env 7 ''T'' ?q ?g)"
    by (simp add: approval_for_def)
  then obtain g where "approve gate_env 7 ''T'' ?q ?g = (Inr (fst (issue_token gate_env 7 ''T'' ?q ?g)), g)"
    by (cases "issue_token gate_env 7 ''T'' ?q ?g") simp
  moreover have "xs_policy run_state = empty_state" by (simp add: run_state_def)
  moreover have "se_hex sched_demo = ''h''" "se_approval sched_demo = gate_env" "se_token_id sched_demo = ''T''" by (simp_all add: sched_demo_def)
  ultimately show thesis
    using that ok by (simp add: approve_run_def Let_def)
qed

theorem every_outcome_recorded_as_success_witness:
  "\<exists>q st out x r'. execute_plan (se_exec sched_demo) q st = (Inr out, x) \<and> \<not> oc_success out \<and>
    row_of ''a'' (ss_rows (fire sched_demo 7 ''a'' demo_world)) = Some r' \<and> sp_status r' = ''completed'' \<and> sp_last_error r' = None"
proof -
  have env: "se_planner sched_demo = planner_demo" "se_exec sched_demo = refusing_exec" "se_services sched_demo"
    "se_approval sched_demo = gate_env" by (simp_all add: sched_demo_def)
  obtain res pt where g: "generate_plan planner_demo sample_intent fresh_planner = (Inr res, pt)" by (rule demo_generates)
  have "length (pl_plan_id (pr_plan res)) = 26"
    using generated_id [OF g] by (simp add: planner_demo_def sample_id_def)
  then obtain w1 where a: "approve_run sched_demo 7 demo_row (pr_plan res) (demo_world \<lparr>sw_planner := pt\<rparr>) = (Inr ''jwt'', w1)"
    by (rule demo_approved)
  obtain out x where o: "execute_plan refusing_exec (execution_for (se_hex sched_demo) demo_row (pr_plan res) ''jwt'' None) (sw_exec w1) = (Inr out, x)"
    "\<not> oc_success out" by (rule refused_outcome)
  show ?thesis
    using every_outcome_recorded_as_success [of "''a''" demo_world demo_row sched_demo res pt 7 "''jwt''" w1 out x] demo_ids g a o env
    by (auto simp: intent_ok_def sample_intent_def)
qed

theorem auto_approval_opens_no_gate_witness:
  "list_all (\<lambda>iv. opened_by_schedule (iv_step iv))
     (xs_trace (sw_exec (fire (sched_demo \<lparr>se_exec := run_env\<rparr>) 7 ''a'' demo_world)))"
  using auto_approval_opens_no_gate [of "sched_demo \<lparr>se_exec := run_env\<rparr>" demo_world 7 "''a''"] calls_ordinary
  by (simp add: run_state_def)

end
