(* ===== verification/Template_Resolver.thy ===== *)
theory Template_Resolver
  imports Exec_Adapters Py_Regex
begin

text \<open>
  The template resolver (\<open>components/ExecuteOrchestrator/adapters/template_resolver.py\<close>): references
  \<open>{{step_3.result.field}}\<close> in the arguments of a step. The lookups of fields are in \<open>Exec_Adapters\<close>;
  here are the three patterns, \<open>fullmatch\<close> and \<open>sub\<close> on them, and the walk over the arguments. The parameter
  \<open>txt\<close> is \<open>str\<close> of a value.
\<close>

section \<open>Patterns\<close>

text \<open>The patterns have one shape: an opening, the digits of a step, a separator, a field path that is as
  short as possible, a closing.\<close>

record ref_pattern =
  rf_open :: regex
  rf_sep :: regex
  rf_close :: regex

definition step_pattern :: ref_pattern where
  "step_pattern = \<lparr>rf_open = seqs [opt (lit ''{''), lit ''{step'', opt (lit ''_'')],
     rf_sep = seqs [lit ''.'', lits [''result'', ''response''], lit ''.''], rf_close = seqs [opt (lit ''}''), lit ''}'']\<rparr>"

definition step_shorthand :: ref_pattern where
  "step_shorthand = \<lparr>rf_open = seqs [opt (lit ''{''), lit ''{step'', opt (lit ''_'')],
     rf_sep = lit ''.'', rf_close = seqs [opt (lit ''}''), lit ''}'']\<rparr>"

definition preview_pattern :: ref_pattern where
  "preview_pattern = \<lparr>rf_open = lit ''{{preview.cached_state.step_'', rf_sep = lit ''_result.'', rf_close = lit ''}}''\<rparr>"

text \<open>The text between two positions.\<close>

definition span :: "cursor \<Rightarrow> cursor \<Rightarrow> string" where
  "span x y = take (length (snd x) - length (snd y)) (snd x)"

text \<open>All matches at a position, in the order of the backtracking matcher: step number, path, end.\<close>

definition ref_matches :: "ref_pattern \<Rightarrow> cursor \<Rightarrow> (nat \<times> string \<times> cursor) list" where
  "ref_matches p x =
     concat (map (\<lambda>y. concat (map (\<lambda>z. concat (map (\<lambda>u. concat (map (\<lambda>v.
         map (\<lambda>w. (read_nat (span y z), span u v, w)) (re_run False (rf_close p) v))
       (re_run False (Seq any_re (Star False any_re)) u)))
       (re_run False (rf_sep p) z)))
       (re_run False (plus_of digit_re) y)))
       (re_run False (rf_open p) x))"

definition full_ref :: "ref_pattern \<Rightarrow> string \<Rightarrow> (nat \<times> string) option" where
  "full_ref p s = map_option (\<lambda>(n, path, w). (n, path)) (find (\<lambda>(n, path, w). snd w = []) (ref_matches p ([], s)))"

text \<open>\<open>sub\<close> with a replacement that may raise; the number counts the characters still to read.\<close>

primrec sub_from :: "nat \<Rightarrow> ref_pattern \<Rightarrow> (nat \<Rightarrow> string \<Rightarrow> exec_error + string) \<Rightarrow> cursor \<Rightarrow> exec_error + string" where
  "sub_from 0 p f x = Inr (snd x)"
| "sub_from (Suc k) p f x = (case snd x of
     [] \<Rightarrow> Inr []
   | c # cs \<Rightarrow> (case ref_matches p x of
         [] \<Rightarrow> bind_res (sub_from k p f (c # fst x, cs)) (\<lambda>t. Inr (c # t))
       | (n, path, w) # _ \<Rightarrow> bind_res (f n path) (\<lambda>r. bind_res (sub_from k p f w) (\<lambda>t. Inr (r @ t)))))"

definition sub_refs :: "ref_pattern \<Rightarrow> (nat \<Rightarrow> string \<Rightarrow> exec_error + string) \<Rightarrow> string \<Rightarrow> exec_error + string" where
  "sub_refs p f s = sub_from (length s) p f ([], s)"

section \<open>Resolving\<close>

definition without_result :: "string \<Rightarrow> string" where
  "without_result path = (if starts_with ''result.'' path then drop 7 path else path)"

definition as_text :: "(json \<Rightarrow> string) \<Rightarrow> exec_error + json \<Rightarrow> exec_error + string" where
  "as_text txt r = bind_res r (\<lambda>v. Inr (txt v))"

definition resolve_string :: "(json \<Rightarrow> string) \<Rightarrow> (int, step_result) dict \<Rightarrow> jobj option \<Rightarrow> string \<Rightarrow> exec_error + json" where
  "resolve_string txt rs pv s =
     (case full_ref step_pattern s of
        Some (n, path) \<Rightarrow> extract_step_field (int n) path rs
      | None \<Rightarrow> (case full_ref step_shorthand s of
          Some (n, path) \<Rightarrow> extract_step_field (int n) (without_result path) rs
        | None \<Rightarrow> (case full_ref preview_pattern s of
            Some (n, path) \<Rightarrow> extract_preview_field (int n) path pv
          | None \<Rightarrow>
              bind_res (sub_refs step_pattern (\<lambda>n path. as_text txt (extract_step_field (int n) path rs)) s) (\<lambda>s1.
              bind_res (sub_refs step_shorthand (\<lambda>n path. as_text txt (extract_step_field (int n) (without_result path) rs)) s1) (\<lambda>s2.
              bind_res (sub_refs preview_pattern (\<lambda>n path. as_text txt (extract_preview_field (int n) path pv)) s2) (\<lambda>s3.
              Inr (JStr s3)))))))"

fun resolve_value :: "(json \<Rightarrow> string) \<Rightarrow> (int, step_result) dict \<Rightarrow> jobj option \<Rightarrow> json \<Rightarrow> exec_error + json"
  and resolve_items :: "(json \<Rightarrow> string) \<Rightarrow> (int, step_result) dict \<Rightarrow> jobj option \<Rightarrow> json list \<Rightarrow> exec_error + json list"
  and resolve_fields :: "(json \<Rightarrow> string) \<Rightarrow> (int, step_result) dict \<Rightarrow> jobj option \<Rightarrow> jobj \<Rightarrow> exec_error + jobj" where
  "resolve_value txt rs pv (JStr s) = resolve_string txt rs pv s"
| "resolve_value txt rs pv (JObj d) = bind_res (resolve_fields txt rs pv d) (\<lambda>e. Inr (JObj e))"
| "resolve_value txt rs pv (JArr xs) = bind_res (resolve_items txt rs pv xs) (\<lambda>ys. Inr (JArr ys))"
| "resolve_value txt rs pv j = Inr j"
| "resolve_items txt rs pv [] = Inr []"
| "resolve_items txt rs pv (x # xs) = bind_res (resolve_value txt rs pv x) (\<lambda>y.
     bind_res (resolve_items txt rs pv xs) (\<lambda>ys. Inr (y # ys)))"
| "resolve_fields txt rs pv [] = Inr []"
| "resolve_fields txt rs pv ((k, v) # d) = bind_res (resolve_value txt rs pv v) (\<lambda>w.
     bind_res (resolve_fields txt rs pv d) (\<lambda>e. Inr ((k, w) # e)))"

text \<open>\<open>resolve\<close>, in the form the executor calls it.\<close>

definition resolve_args :: "(json \<Rightarrow> string) \<Rightarrow> jobj \<Rightarrow> (int, step_result) dict \<Rightarrow> jobj option \<Rightarrow> exec_error + jobj" where
  "resolve_args txt args rs pv = resolve_fields txt rs pv args"

section \<open>Plain text\<close>

primrec brace_free :: "string \<Rightarrow> bool" where
  "brace_free [] = True"
| "brace_free (c # cs) = (c \<noteq> CHR 0x7B \<and> brace_free cs)"

fun plain_value :: "json \<Rightarrow> bool" and plain_items :: "json list \<Rightarrow> bool" and plain_fields :: "jobj \<Rightarrow> bool" where
  "plain_value (JStr s) = brace_free s"
| "plain_value (JObj d) = plain_fields d"
| "plain_value (JArr xs) = plain_items xs"
| "plain_value j = True"
| "plain_items [] = True"
| "plain_items (x # xs) = (plain_value x \<and> plain_items xs)"
| "plain_fields [] = True"
| "plain_fields ((k, v) # d) = (plain_value v \<and> plain_fields d)"

lemmas ref_patterns = step_pattern_def step_shorthand_def preview_pattern_def

lemma open_needs_brace:
  assumes "brace_free s" "p \<in> {step_pattern, step_shorthand, preview_pattern}"
  shows "ref_matches p (b, s) = []"
proof -
  have "re_run False (rf_open p) (b, s) = []"
    using assms by (cases s) (auto simp: ref_patterns seqs_def opt_def lit_def)
  then show ?thesis by (simp add: ref_matches_def)
qed

lemma sub_from_plain:
  "brace_free s \<Longrightarrow> p \<in> {step_pattern, step_shorthand, preview_pattern} \<Longrightarrow> length s \<le> k \<Longrightarrow> sub_from k p f (b, s) = Inr s"
proof (induction k arbitrary: b s)
  case (Suc k)
  show ?case
  proof (cases s)
    case (Cons c cs)
    then have "ref_matches p (b, c # cs) = []" "brace_free cs" "length cs \<le> k" using Suc.prems open_needs_brace [of "c # cs" p b] by auto
    with Suc.IH [of cs "c # b"] Suc.prems(2) Cons show ?thesis by (simp add: bind_res_def)
  qed simp
qed simp

lemma resolve_plain_string: "brace_free s \<Longrightarrow> resolve_string txt rs pv s = Inr (JStr s)"
  by (simp add: resolve_string_def full_ref_def open_needs_brace sub_refs_def sub_from_plain bind_res_def)

lemma resolve_plain:
  "plain_value j \<Longrightarrow> resolve_value txt rs pv j = Inr j"
  "plain_items xs \<Longrightarrow> resolve_items txt rs pv xs = Inr xs"
  "plain_fields d \<Longrightarrow> resolve_fields txt rs pv d = Inr d"
  by (induction j and xs and d rule: plain_value_plain_items_plain_fields.induct)
    (simp_all add: resolve_plain_string bind_res_def)

section \<open>Canonical references\<close>

definition reference :: "nat \<Rightarrow> string \<Rightarrow> string" where
  "reference n path = ''{{step_'' @ show_nat n @ ''.result.'' @ path @ ''}}''"

lemma int_of_char: "(of_char c :: int) = int (of_char c)"
  by (simp add: of_nat_of_char)

lemma run_digit [simp]:
  "re_run False digit_re (b, c # cs) = (if is_digit c then [(c # b, cs)] else [])" "re_run False digit_re (b, []) = []"
  by (simp_all add: digit_re_def char_matches_def in_ranges_def is_digit_def int_of_char)

lemma run_any [simp]:
  "re_run False any_re (b, c # cs) = (if c = CHR 0x0A then [] else [(c # b, cs)])" "re_run False any_re (b, []) = []"
proof -
  have "of_char c = (of_char (CHR 0x0A) :: int) \<longleftrightarrow> c = CHR 0x0A" by (rule of_char_eq_iff)
  then have "of_char c = (10 :: int) \<longleftrightarrow> c = CHR 0x0A" by simp
  then show "re_run False any_re (b, c # cs) = (if c = CHR 0x0A then [] else [(c # b, cs)])"
    by (auto simp: any_re_def char_matches_def in_ranges_def int_of_char)
qed (simp add: any_re_def)

lemma repeat_greedy:
  assumes "\<And>b c cs. is_digit c \<Longrightarrow> g (b, c # cs) = []" "list_all is_digit ds" "length ds \<le> n" "r = [] \<or> \<not> is_digit (hd r)"
  shows "concat (map g (repeat_from True (re_run False digit_re) n (b, ds @ r))) = g (rev ds @ b, r)"
  using assms(2,3)
proof (induction ds arbitrary: n b)
  case Nil
  then show ?case using assms(4) by (cases n; cases r) auto
next
  case (Cons d ds)
  then obtain k where k: "n = Suc k" "length ds \<le> k" by (cases n) auto
  with Cons show ?case using assms(1) by simp
qed

lemma repeat_lazy:
  assumes "\<And>b c cs. P (c # cs) \<Longrightarrow> g (b, c # cs) = []" "\<forall>c\<in>set ds. c \<noteq> CHR 0x0A" "length ds \<le> n"
    "\<And>i. i < length ds \<Longrightarrow> P (drop i ds @ r)"
  shows "\<exists>more. concat (map g (repeat_from False (re_run False any_re) n (b, ds @ r))) = g (rev ds @ b, r) @ more"
  using assms(2-4)
proof (induction ds arbitrary: n b)
  case Nil
  then show ?case by (cases n) auto
next
  case (Cons d ds)
  then obtain k where k: "n = Suc k" "length ds \<le> k" by (cases n) auto
  have "P (drop i ds @ r)" if "i < length ds" for i using Cons.prems(3) [of "Suc i"] that by simp
  with Cons.IH [of k "d # b"] Cons.prems(1) k obtain more
    where "concat (map g (repeat_from False (re_run False any_re) k (d # b, ds @ r))) = g (rev ds @ d # b, r) @ more" by auto
  moreover have "g (b, d # ds @ r) = []" using Cons.prems(3) [of 0] assms(1) by simp
  ultimately show ?case using k Cons.prems(1) by simp
qed

lemma find_filter: "find P xs = (case filter P xs of [] \<Rightarrow> None | x # _ \<Rightarrow> Some x)"
  by (induction xs) auto

lemma filter_concat_map: "filter P (concat (map f xs)) = concat (map (\<lambda>x. filter P (f x)) xs)"
  by (induction xs) auto

text \<open>A canonical reference, whatever its path: everything up to the last two braces is the path.\<close>

lemma reference_match:
  assumes "path \<noteq> []" "CHR 0x0A \<notin> set path"
  shows "full_ref step_pattern (reference n path) = Some (n, path)"
proof -
  let ?ds = "show_nat n" and ?b = "rev ''{{step_''" and ?Q = "\<lambda>(n :: nat, path :: string, w :: cursor). snd w = []"
  let ?p = step_pattern
  let ?tail = "path @ ''}}''"
  let ?rest = "''.result.'' @ ?tail"
  let ?any = "Seq any_re (Star False any_re)"
  define F3 where "F3 = (\<lambda>y z u v. filter ?Q (map (\<lambda>w. (read_nat (span y z), span u v, w)) (re_run False (rf_close ?p) v)))"
  define F2 where "F2 = (\<lambda>y z u. concat (map (F3 y z u) (re_run False ?any u)))"
  define F1 where "F1 = (\<lambda>y z. concat (map (F2 y z) (re_run False (rf_sep ?p) z)))"
  define F0 where "F0 = (\<lambda>y. concat (map (F1 y) (re_run False (plus_of digit_re) y)))"
  have filt: "filter ?Q (ref_matches ?p x) = concat (map F0 (re_run False (rf_open ?p) x))" for x
    by (simp add: ref_matches_def filter_concat_map F0_def F1_def F2_def F3_def)
  define y where "y = (?b, ?ds @ ?rest)"
  define z where "z = (rev ?ds @ ?b, ?rest)"
  define u where "u = (rev ''.result.'' @ rev ?ds @ ?b, ?tail)"
  define v where "v = (rev path @ fst u, ''}}'')"
  obtain d ds where ds: "?ds = d # ds" "is_digit d" "list_all is_digit ds"
    using show_nat_digits [of n] by (cases ?ds) auto
  have op: "re_run False (rf_open ?p) ([], reference n path) = [y, (tl ?b, CHR ''_'' # ?ds @ ?rest)]"
    by (simp add: step_pattern_def reference_def seqs_def opt_def lit_def y_def)
  have f3: "\<exists>more. F3 y z u v = (n, path, ''}}'' @ fst v, []) # more"
    by (simp add: F3_def step_pattern_def seqs_def opt_def lit_def v_def y_def z_def u_def span_def read_show_nat)
  have short: "F3 y z u (b, cs) = []" if "2 < length cs" for b cs
    using that by (auto simp: F3_def step_pattern_def seqs_def opt_def lit_def split: list.splits)
  have f2: "\<exists>more. F2 y z u = (n, path, ''}}'' @ fst v, []) # more"
  proof -
    obtain c cs where c: "path = c # cs" using assms(1) by (cases path) auto
    have "\<exists>more. concat (map (F3 y z u) (repeat_from False (re_run False any_re) (length (cs @ ''}}'')) (c # fst u, cs @ ''}}'')))
       = F3 y z u (rev cs @ c # fst u, ''}}'') @ more"
      by (rule repeat_lazy [where P = "\<lambda>s. 2 < length s"]) (use short assms(2) c in auto)
    moreover have "re_run False ?any u = repeat_from False (re_run False any_re) (length (cs @ ''}}'')) (c # fst u, cs @ ''}}'')"
      using assms(2) c by (auto simp: u_def)
    ultimately show ?thesis using f3 c by (auto simp: F2_def v_def)
  qed
  have f1: "F1 y z = F2 y z u"
    by (simp add: F1_def step_pattern_def seqs_def lits_def lit_def z_def u_def)
  have no_sep: "F1 y (b, c # cs) = []" if "is_digit c" for b c cs
    using that by (auto simp: F1_def step_pattern_def seqs_def lit_def is_digit_def)
  have f0: "F0 y = F1 y z"
    using repeat_greedy [of "F1 y" ds "length (ds @ ?rest)" "''.result.'' @ path @ ''}}''" "d # ?b"] no_sep ds
    by (simp add: F0_def plus_of_def y_def z_def is_digit_def)
  have "\<exists>more. filter ?Q (ref_matches ?p ([], reference n path)) = (n, path, ''}}'' @ fst v, []) # more"
    using f0 f1 f2 unfolding filt op by auto
  then show ?thesis by (auto simp: full_ref_def find_filter)
qed

lemma resolve_reference:
  "path \<noteq> [] \<Longrightarrow> CHR 0x0A \<notin> set path \<Longrightarrow>
     resolve_value txt rs pv (JStr (reference n path)) = extract_step_field (int n) path rs"
  by (simp add: resolve_string_def reference_match)

section \<open>Templates\<close>

text \<open>Arguments as a plan's author means them: values without an opening brace, canonical references to a field of a
  step, and objects and lists of these, nested in any way.\<close>

datatype arg_template =
    Leaf json
  | Ref nat string
  | Fields "(string \<times> arg_template) list"
  | Items "arg_template list"

definition path_ok :: "string \<Rightarrow> bool" where
  "path_ok path \<longleftrightarrow> path \<noteq> [] \<and> list_all (\<lambda>c. c \<noteq> CHR 0x0A \<and> c \<noteq> CHR 0x7B \<and> c \<noteq> CHR 0x7D) path"

fun arg_ok :: "arg_template \<Rightarrow> bool" and items_ok :: "arg_template list \<Rightarrow> bool" and fields_ok :: "(string \<times> arg_template) list \<Rightarrow> bool" where
  "arg_ok (Leaf j) = plain_value j"
| "arg_ok (Ref n path) = path_ok path"
| "arg_ok (Fields d) = fields_ok d"
| "arg_ok (Items ts) = items_ok ts"
| "items_ok [] = True"
| "items_ok (t # ts) = (arg_ok t \<and> items_ok ts)"
| "fields_ok [] = True"
| "fields_ok ((k, t) # d) = (arg_ok t \<and> fields_ok d)"

text \<open>The JSON of a template.\<close>

fun written :: "arg_template \<Rightarrow> json" and written_items :: "arg_template list \<Rightarrow> json list" and written_fields :: "(string \<times> arg_template) list \<Rightarrow> jobj" where
  "written (Leaf j) = j"
| "written (Ref n path) = JStr (reference n path)"
| "written (Fields d) = JObj (written_fields d)"
| "written (Items ts) = JArr (written_items ts)"
| "written_items [] = []"
| "written_items (t # ts) = written t # written_items ts"
| "written_fields [] = []"
| "written_fields ((k, t) # d) = (k, written t) # written_fields d"

text \<open>What it stands for: the field with its type for a reference. The first field that cannot be found is the error.\<close>

fun meaning :: "(int, step_result) dict \<Rightarrow> arg_template \<Rightarrow> exec_error + json"
  and item_meanings :: "(int, step_result) dict \<Rightarrow> arg_template list \<Rightarrow> exec_error + json list"
  and field_meanings :: "(int, step_result) dict \<Rightarrow> (string \<times> arg_template) list \<Rightarrow> exec_error + jobj" where
  "meaning rs (Leaf j) = Inr j"
| "meaning rs (Ref n path) = extract_step_field (int n) path rs"
| "meaning rs (Fields d) = bind_res (field_meanings rs d) (\<lambda>e. Inr (JObj e))"
| "meaning rs (Items ts) = bind_res (item_meanings rs ts) (\<lambda>ys. Inr (JArr ys))"
| "item_meanings rs [] = Inr []"
| "item_meanings rs (t # ts) = bind_res (meaning rs t) (\<lambda>y. bind_res (item_meanings rs ts) (\<lambda>ys. Inr (y # ys)))"
| "field_meanings rs [] = Inr []"
| "field_meanings rs ((k, t) # d) = bind_res (meaning rs t) (\<lambda>w. bind_res (field_meanings rs d) (\<lambda>e. Inr ((k, w) # e)))"

lemma resolve_path: "path_ok path \<Longrightarrow> resolve_value txt rs pv (JStr (reference n path)) = extract_step_field (int n) path rs"
  by (rule resolve_reference) (auto simp: path_ok_def list_all_iff)

lemma resolve_written:
  "arg_ok t \<Longrightarrow> resolve_value txt rs pv (written t) = meaning rs t"
  "items_ok ts \<Longrightarrow> resolve_items txt rs pv (written_items ts) = item_meanings rs ts"
  "fields_ok d \<Longrightarrow> resolve_fields txt rs pv (written_fields d) = field_meanings rs d"
  by (induction t and ts and d rule: arg_ok_items_ok_fields_ok.induct)
    (simp_all add: resolve_plain resolve_path del: resolve_value.simps(1))

text \<open>C22. References become values. Take arguments in which every text is either free of opening braces or one whole
  reference \<open>{{step_n.result.path}}\<close>, in objects and lists nested in any way; the path is not empty and holds no brace
  and no line break. Resolving puts the field of the step's result, with its type, in the place of each reference, changes
  nothing else, and fails exactly with the error of the first reference whose field is not there. (References inside a longer text
  are not covered.)
\<close>
theorem references_resolve:
  assumes "fields_ok d"
  shows "resolve_args txt (written_fields d) rs pv = field_meanings rs d"
  using assms by (simp add: resolve_args_def resolve_written)

definition booked :: "(int, step_result) dict" where
  "booked = [(1, completed_result 1 (Some [(''a'', JInt 4), (''b'', JInt 5)]))]"

definition nested_args :: "(string \<times> arg_template) list" where
  "nested_args = [(''at'', Items [Ref 1 ''a'', Fields [(''deep'', Ref 1 ''b'')]]), (''note'', Leaf (JStr ''plain''))]"

theorem references_resolve_witness:
  "resolve_args (\<lambda>_. []) [(''at'', JArr [JStr ''{{step_1.result.a}}'', JObj [(''deep'', JStr ''{{step_1.result.b}}'')]]),
       (''note'', JStr ''plain'')] booked None =
     Inr [(''at'', JArr [JInt 4, JObj [(''deep'', JInt 5)]]), (''note'', JStr ''plain'')]"
proof -
  have "written_fields nested_args = [(''at'', JArr [JStr ''{{step_1.result.a}}'', JObj [(''deep'', JStr ''{{step_1.result.b}}'')]]),
      (''note'', JStr ''plain'')]"
    "field_meanings booked nested_args = Inr [(''at'', JArr [JInt 4, JObj [(''deep'', JInt 5)]]), (''note'', JStr ''plain'')]"
    "fields_ok nested_args" by code_simp+
  then show ?thesis using references_resolve [of nested_args "\<lambda>_. []" booked None] by simp
qed

text \<open>Two references in one argument name one field, which no result has.\<close>

lemma two_references_fail:
  "resolve_args (\<lambda>_. []) [(''at'', JStr ''{{step_1.result.a}} - {{step_1.result.b}}'')] booked None =
     Inl (Other_error ''KeyError'' ''a}} - {{step_1'')"
proof -
  have r: "reference 1 ''a}} - {{step_1.result.b'' = ''{{step_1.result.a}} - {{step_1.result.b}}''"
    "extract_step_field 1 ''a}} - {{step_1.result.b'' booked = Inl (Other_error ''KeyError'' ''a}} - {{step_1'')"
    by code_simp+
  show ?thesis using resolve_reference [of "''a}} - {{step_1.result.b''" "\<lambda>_. []" booked None 1] unfolding r(1)
    by (simp add: resolve_args_def bind_res_def r(2))
qed

end
