(* ===== verification/Preview_Service.thy ===== *)
theory Preview_Service
  imports Template_Resolver Gate_Pause Mcp_Catalog Json_Path
begin

text \<open>
  The plan preview (\<open>components/PreviewOrchestrator\<close>): classification of the steps, read-only dispatch level by
  level, the verdict, and the Redis cache of the results. Levels come from the model of the DAG resolver, arguments from
  that of the template resolver and tools from that of the catalog. The tools are a parameter. The dispatches of a
  level, concurrent in the code, run in list order; each sees the results the level started with.
\<close>

section \<open>Results\<close>

datatype preview_status = P_completed | P_failed | P_deferred | P_skipped

record step_preview =
  vr_step :: int
  vr_status :: preview_status
  vr_result :: "jobj option"
  vr_error :: "jobj option"
  vr_latency_ms :: int
  vr_reason :: "string option"

record preview_request =
  vq_plan :: plan
  vq_user_id :: string
  vq_trace_id :: string

record preview_result =
  vp_plan_id :: string
  vp_steps :: "step_preview list"
  vp_can_execute :: bool
  vp_partial :: bool
  vp_cached_key :: "string option"

datatype preview_error = Preview_cycle nat nat | Preview_raised exec_error

section \<open>Environment and state\<close>

record ('s, 'x) preview_env =
  vn_catalog :: catalog
  vn_text :: "json \<Rightarrow> string"
  vn_invoke :: "string \<Rightarrow> string \<Rightarrow> jobj \<Rightarrow> (string, string) dict \<Rightarrow> int \<Rightarrow> 'x \<Rightarrow> (exec_error + jobj) \<times> 'x"
  vn_now :: "'x \<Rightarrow> int"
  vn_reason_text :: "reason \<Rightarrow> string"
  vn_redis :: "'s redis option"
  vn_ttl :: int
  vn_dumps :: "json \<Rightarrow> string option"
  vn_loads :: "string \<Rightarrow> json option"

record ('s, 'x) preview_world =
  vw_redis :: 's
  vw_ext :: 'x
  vw_calls :: "invocation list"

text \<open>The bookkeeping of one preview: results, deferred and failed steps.\<close>

record preview_track =
  vt_results :: "(int, step_preview) dict"
  vt_deferred :: "int list"
  vt_failed :: "int list"

section \<open>Previewability\<close>

definition write_verbs :: "string list" where
  "write_verbs = [''CREATE'', ''UPDATE'', ''DELETE'', ''REMOVE'', ''SEND'', ''POST'', ''PATCH'', ''PUT'', ''INSERT'', ''ADD'', ''SET'',
     ''MODIFY'', ''MOVE'', ''CANCEL'', ''REVOKE'', ''APPROVE'', ''REJECT'', ''ARCHIVE'']"

definition name_tokens :: "string \<Rightarrow> string list" where
  "name_tokens s = split_on (CHR ''_'') (replace_char (CHR ''.'') ''_'' (upper s))"

definition is_write_action :: "string \<Rightarrow> string \<Rightarrow> bool" where
  "is_write_action tool op \<longleftrightarrow> list_ex (\<lambda>t. t \<in> set write_verbs) (name_tokens tool @ name_tokens op)"

definition is_previewable :: "catalog \<Rightarrow> string \<Rightarrow> bool" where
  "is_previewable cat tool \<longleftrightarrow> get_tool cat tool \<noteq> None"

section \<open>Classification\<close>

datatype step_class = Dispatch | Defer string | Skip string

definition depends_on :: "plan_step \<Rightarrow> int list \<Rightarrow> bool" where
  "depends_on s ns \<longleftrightarrow> list_ex (\<lambda>d. d \<in> set ns) (ps_after s)"

definition classify_step :: "catalog \<Rightarrow> preview_track \<Rightarrow> plan_step \<Rightarrow> step_class" where
  "classify_step cat t s =
     (if depends_on s (vt_deferred t) then Defer ''dependency_deferred''
      else if depends_on s (vt_failed t) then Skip ''dependency_failed''
      else if ps_type s \<in> {Llm_reasoning, Policy_check} then Defer (step_type_name (ps_type s))
      else if ps_gate_id s \<noteq> None then Defer ''gated''
      else if \<not> is_previewable cat (ps_uses s) then Defer ''non_previewable''
      else if is_write_action (ps_uses s) (ps_call s) then Defer ''write_action''
      else Dispatch)"

definition new_preview :: "int \<Rightarrow> preview_status \<Rightarrow> step_preview" where
  "new_preview n st = \<lparr>vr_step = n, vr_status = st, vr_result = None, vr_error = None, vr_latency_ms = 0, vr_reason = None\<rparr>"

text \<open>The summary of a deferred write: one line per argument.\<close>

definition build_action_summary :: "(json \<Rightarrow> string) \<Rightarrow> plan_step \<Rightarrow> string" where
  "build_action_summary txt s = join_with [CHR 0x0A] ((''Action: '' @ ps_uses s) #
     map (\<lambda>(k, v). ''  '' @ k @ '': '' @ txt v) (filter (\<lambda>(k, v). k \<noteq> ''dry_run'') (ps_args s)))"

definition put_preview :: "step_preview \<Rightarrow> preview_track \<Rightarrow> preview_track" where
  "put_preview r t = t \<lparr>vt_results := dict_set (vr_step r) r (vt_results t)\<rparr>"

definition note_class :: "(json \<Rightarrow> string) \<Rightarrow> plan_step \<Rightarrow> step_class \<Rightarrow> preview_track \<Rightarrow> preview_track" where
  "note_class txt s c t = (case c of
       Dispatch \<Rightarrow> t
     | Defer why \<Rightarrow> (put_preview ((new_preview (ps_step s) P_deferred) \<lparr>vr_reason := Some why,
           vr_result := if why = ''write_action'' then Some [(''summary'', JStr (build_action_summary txt s))] else None\<rparr>) t)
         \<lparr>vt_deferred := vt_deferred t @ [ps_step s]\<rparr>
     | Skip why \<Rightarrow> (put_preview ((new_preview (ps_step s) P_skipped) \<lparr>vr_reason := Some why\<rparr>) t)
         \<lparr>vt_failed := vt_failed t @ [ps_step s]\<rparr>)"

text \<open>The first loop over a level: the steps to dispatch and the bookkeeping.\<close>

fun classify_level :: "('s, 'x) preview_env \<Rightarrow> plan_step list \<Rightarrow> preview_track \<Rightarrow> plan_step list \<times> preview_track" where
  "classify_level env [] t = ([], t)"
| "classify_level env (s # ss) t =
     (let c = classify_step (vn_catalog env) t s; (ds, t') = classify_level env ss (note_class (vn_text env) s c t)
      in (if c = Dispatch then s # ds else ds, t'))"

section \<open>Dispatch\<close>

definition to_exec_step_results :: "(int, step_preview) dict \<Rightarrow> (int, step_result) dict" where
  "to_exec_step_results d = map (\<lambda>(n, r). (n, completed_result n (vr_result r)))
     (filter (\<lambda>(n, r). vr_status r = P_completed \<and> vr_result r \<noteq> None) d)"

definition dispatch_preview :: "('s, 'x) preview_env \<Rightarrow> preview_request \<Rightarrow> (int, step_preview) dict \<Rightarrow> plan_step \<Rightarrow>
    ('s, 'x) preview_world \<Rightarrow> (exec_error + step_preview) \<times> ('s, 'x) preview_world" where
  "dispatch_preview env q results s w = (case resolve_args (vn_text env) (ps_args s) (to_exec_step_results results) None of
       Inl e \<Rightarrow> (Inl e, w)
     | Inr args0 \<Rightarrow>
         (let args = dict_set ''dry_run'' (JBool True) args0;
              server = (case get_tool (vn_catalog env) (ps_uses s) of None \<Rightarrow> ps_uses s | Some td \<Rightarrow> td_server td);
              (r, x) = vn_invoke env server (ps_uses s) args [(''user_id'', vq_user_id q)] (ps_timeout_s s) (vw_ext w);
              w1 = w \<lparr>vw_ext := x, vw_calls := vw_calls w @ [\<lparr>iv_step = s, iv_server = server, iv_tool = ps_uses s, iv_args = args\<rparr>]\<rparr>
          in case r of
               Inl e \<Rightarrow> (Inl e, w1)
             | Inr d \<Rightarrow> (Inr ((new_preview (ps_step s) P_completed)
                 \<lparr>vr_result := Some d, vr_latency_ms := (vn_now env x - vn_now env (vw_ext w)) div 1000\<rparr>), w1)))"

primrec dispatch_all :: "('s, 'x) preview_env \<Rightarrow> preview_request \<Rightarrow> (int, step_preview) dict \<Rightarrow> plan_step list \<Rightarrow>
    ('s, 'x) preview_world \<Rightarrow> (plan_step \<times> (exec_error + step_preview)) list \<times> ('s, 'x) preview_world" where
  "dispatch_all env q results [] w = ([], w)"
| "dispatch_all env q results (s # ss) w =
     (let (r, w1) = dispatch_preview env q results s w; (rs, w2) = dispatch_all env q results ss w1 in ((s, r) # rs, w2))"

definition note_outcome :: "('s, 'x) preview_env \<Rightarrow> plan_step \<times> (exec_error + step_preview) \<Rightarrow> preview_track \<Rightarrow> preview_track" where
  "note_outcome env p t = (case snd p of
       Inr r \<Rightarrow> put_preview r t
     | Inl e \<Rightarrow> (put_preview ((new_preview (ps_step (fst p)) P_failed) \<lparr>vr_error := Some [(''error_type'', JStr (error_class e)),
           (''message'', JStr (error_text (vn_reason_text env) e))]\<rparr>) t) \<lparr>vt_failed := vt_failed t @ [ps_step (fst p)]\<rparr>)"

definition process_level :: "('s, 'x) preview_env \<Rightarrow> preview_request \<Rightarrow> plan_step list \<Rightarrow>
    preview_track \<times> ('s, 'x) preview_world \<Rightarrow> preview_track \<times> ('s, 'x) preview_world" where
  "process_level env q level tw =
     (let (ds, t1) = classify_level env level (fst tw); (rs, w1) = dispatch_all env q (vt_results t1) ds (snd tw)
      in (fold (note_outcome env) rs t1, w1))"

section \<open>The cache\<close>

definition preview_key :: "string \<Rightarrow> string \<Rightarrow> string" where
  "preview_key plan user = ''preview:'' @ user @ '':'' @ plan"

definition status_text :: "preview_status \<Rightarrow> string" where
  "status_text s = (case s of P_completed \<Rightarrow> ''completed'' | P_failed \<Rightarrow> ''failed'' | P_deferred \<Rightarrow> ''deferred'' | P_skipped \<Rightarrow> ''skipped'')"

definition preview_dump :: "step_preview \<Rightarrow> json" where
  "preview_dump r = JObj [(''step'', JInt (vr_step r)), (''status'', JStr (status_text (vr_status r))), (''result'', jopt JObj (vr_result r)),
     (''error'', jopt JObj (vr_error r)), (''latency_ms'', JInt (vr_latency_ms r)), (''reason'', jopt JStr (vr_reason r))]"

definition store_previews :: "('s, 'x) preview_env \<Rightarrow> int \<Rightarrow> string \<Rightarrow> string \<Rightarrow> (int, json) dict \<Rightarrow> 's \<Rightarrow> string option \<times> 's" where
  "store_previews env now plan user st s = (case vn_redis env of
       None \<Rightarrow> (None, s)
     | Some rd \<Rightarrow> (case vn_dumps env (JObj (map (\<lambda>(k, v). (show_int k, v)) st)) of
           None \<Rightarrow> (None, s)
         | Some payload \<Rightarrow> (case rd_set rd now (preview_key plan user) payload (Some (vn_ttl env)) False s of
               None \<Rightarrow> (None, s)
             | Some (b, s1) \<Rightarrow> (Some (preview_key plan user), s1))))"

primrec int_keys :: "jobj \<Rightarrow> (int, json) dict option" where
  "int_keys [] = Some []"
| "int_keys (kv # d) = (case py_int (fst kv) of None \<Rightarrow> None
     | Some n \<Rightarrow> map_option (\<lambda>r. (n, snd kv) # r) (int_keys d))"

definition retrieve_previews :: "('s, 'x) preview_env \<Rightarrow> int \<Rightarrow> string \<Rightarrow> string \<Rightarrow> 's \<Rightarrow> (int, json) dict option" where
  "retrieve_previews env now plan user s = (case vn_redis env of
       None \<Rightarrow> None
     | Some rd \<Rightarrow> (case rd_get rd now (preview_key plan user) s of
           Some (Some raw) \<Rightarrow> (case vn_loads env raw of
               Some (JObj d) \<Rightarrow> map_option (\<lambda>ps. fold (\<lambda>(k, v). dict_set k v) ps []) (int_keys d) | _ \<Rightarrow> None)
         | _ \<Rightarrow> None))"

text \<open>\<open>PreviewStepResult.model_validate\<close>.\<close>

definition parse_status :: "json \<Rightarrow> preview_status option" where
  "parse_status j = find (\<lambda>s. j = JStr (status_text s)) [P_completed, P_failed, P_deferred, P_skipped]"

definition opt_obj :: "json \<Rightarrow> jobj option option" where
  "opt_obj j = (case j of JNull \<Rightarrow> Some None | JObj d \<Rightarrow> Some (Some d) | _ \<Rightarrow> None)"

definition validate_preview :: "json \<Rightarrow> step_preview option" where
  "validate_preview j = (case j of
       JObj d \<Rightarrow> (case (jget d ''step'' JNull, parse_status (jget d ''status'' JNull), opt_obj (jget d ''result'' JNull),
           opt_obj (jget d ''error'' JNull), jget d ''latency_ms'' (JInt 0), jget d ''reason'' JNull) of
         (JInt n, Some st, Some r, Some e, JInt l, why) \<Rightarrow>
           if n < 1 \<or> l < 0 then None
           else (case why of
               JNull \<Rightarrow> Some \<lparr>vr_step = n, vr_status = st, vr_result = r, vr_error = e, vr_latency_ms = l, vr_reason = None\<rparr>
             | JStr t \<Rightarrow> Some \<lparr>vr_step = n, vr_status = st, vr_result = r, vr_error = e, vr_latency_ms = l, vr_reason = Some t\<rparr>
             | _ \<Rightarrow> None)
       | _ \<Rightarrow> None)
     | _ \<Rightarrow> None)"

primrec validate_all :: "(int, json) dict \<Rightarrow> (int, step_preview) dict option" where
  "validate_all [] = Some []"
| "validate_all (kv # d) = (case validate_preview (snd kv) of None \<Rightarrow> None
     | Some r \<Rightarrow> map_option (\<lambda>rs. (fst kv, r) # rs) (validate_all d))"

text \<open>\<open>get_preview_state\<close>: \<open>None\<close> for the \<open>ValidationError\<close>.\<close>

definition get_preview_state :: "('s, 'x) preview_env \<Rightarrow> int \<Rightarrow> string \<Rightarrow> string \<Rightarrow> 's \<Rightarrow> (int, step_preview) dict option option" where
  "get_preview_state env now plan user s = (case retrieve_previews env now plan user s of
     None \<Rightarrow> Some None | Some raw \<Rightarrow> map_option Some (validate_all raw))"

section \<open>The preview\<close>

definition new_track :: preview_track where
  "new_track = \<lparr>vt_results = [], vt_deferred = [], vt_failed = []\<rparr>"

definition can_execute :: "step_preview list \<Rightarrow> bool" where
  "can_execute rs \<longleftrightarrow> list_ex (\<lambda>r. vr_status r = P_completed) rs \<or> list_all (\<lambda>r. vr_status r = P_deferred) rs"

definition preview_result_of :: "preview_request \<Rightarrow> string option \<Rightarrow> preview_track \<Rightarrow> preview_result" where
  "preview_result_of q key t =
     \<lparr>vp_plan_id = pl_plan_id (vq_plan q), vp_steps = sort_key vr_step (map snd (vt_results t)),
      vp_can_execute = can_execute (map snd (vt_results t)), vp_partial = (vt_failed t \<noteq> []), vp_cached_key = key\<rparr>"

definition preview :: "('s, 'x) preview_env \<Rightarrow> preview_request \<Rightarrow> ('s, 'x) preview_world \<Rightarrow>
    (preview_error + preview_result) \<times> ('s, 'x) preview_world" where
  "preview env q w = (case resolve_levels (pl_graph (vq_plan q)) of
       Inl (Cycle_error p n) \<Rightarrow> (Inl (Preview_cycle p n), w)
     | Inl e \<Rightarrow> (Inl (Preview_raised e), w)
     | Inr levels \<Rightarrow>
         (let (t, w1) = fold (process_level env q) levels (new_track, w);
              (key, s) = store_previews env (vn_now env (vw_ext w1)) (pl_plan_id (vq_plan q)) (vq_user_id q)
                (map (\<lambda>(n, r). (n, preview_dump r)) (vt_results t)) (vw_redis w1)
          in (Inr (preview_result_of q key t), w1 \<lparr>vw_redis := s\<rparr>)))"

end
