(* ===== verification/Preview_Laws.thy ===== *)
theory Preview_Laws
  imports Preview_Service
begin

text \<open>
  What a preview does: it invokes tools only for ungated steps that read, it has one result for every step of the
  plan, and a step completes only after everything it depends on.
\<close>

section \<open>The bookkeeping\<close>

definition status_of :: "preview_track \<Rightarrow> int \<Rightarrow> preview_status option" where
  "status_of t n = map_option vr_status (dict_get (vt_results t) n)"

definition track_ok :: "preview_track \<Rightarrow> bool" where
  "track_ok t \<longleftrightarrow> dict_ok (vt_results t) \<and> (\<forall>(n, r)\<in>set (vt_results t). vr_step r = n) \<and>
     (\<forall>n. n \<in> set (vt_deferred t) \<longleftrightarrow> status_of t n = Some P_deferred) \<and>
     (\<forall>n. n \<in> set (vt_failed t) \<longleftrightarrow> status_of t n \<in> {Some P_failed, Some P_skipped})"

definition settled_steps :: "preview_track \<Rightarrow> int set" where
  "settled_steps t = fst ` set (vt_results t)"

lemma settled_iff: "n \<in> settled_steps t \<longleftrightarrow> status_of t n \<noteq> None"
  by (simp add: settled_steps_def status_of_def map_of_eq_None_iff)

lemma set_put_values: "set (dict_set k v d) \<subseteq> insert (k, v) (set d)"
  by (induction d) auto

text \<open>A fresh entry, with the list it belongs to.\<close>

definition enter :: "step_preview \<Rightarrow> preview_track \<Rightarrow> preview_track" where
  "enter r t = (put_preview r t)
     \<lparr>vt_deferred := (if vr_status r = P_deferred then vt_deferred t @ [vr_step r] else vt_deferred t),
      vt_failed := (if vr_status r \<in> {P_failed, P_skipped} then vt_failed t @ [vr_step r] else vt_failed t)\<rparr>"

lemma status_enter [simp]: "status_of (enter r t) n = (if n = vr_step r then Some (vr_status r) else status_of t n)"
  by (simp add: status_of_def enter_def put_preview_def)

lemma enter_settled [simp]: "settled_steps (enter r t) = insert (vr_step r) (settled_steps t)"
  by (auto simp: settled_iff split: if_splits)

lemma enter_ok:
  assumes "track_ok t" "vr_step r \<notin> settled_steps t"
  shows "track_ok (enter r t)"
proof -
  have "dict_ok (vt_results (enter r t))" using assms(1) by (simp add: track_ok_def enter_def put_preview_def dict_ok_set)
  moreover have "\<forall>(n, q)\<in>set (vt_results (enter r t)). vr_step q = n"
    using assms(1) set_put_values by (fastforce simp: track_ok_def enter_def put_preview_def)
  moreover have "vr_step r \<notin> set (vt_deferred t) \<and> vr_step r \<notin> set (vt_failed t)"
    using assms by (auto simp: track_ok_def settled_iff)
  ultimately show ?thesis
    using assms(1) unfolding track_ok_def status_enter by (auto simp: enter_def)
qed

lemma note_class_enter:
  "note_class txt s (Defer why) t = enter ((new_preview (ps_step s) P_deferred) \<lparr>vr_reason := Some why,
     vr_result := if why = ''write_action'' then Some [(''summary'', JStr (build_action_summary txt s))] else None\<rparr>) t"
  "note_class txt s (Skip why) t = enter ((new_preview (ps_step s) P_skipped) \<lparr>vr_reason := Some why\<rparr>) t"
  "note_class txt s Dispatch t = t"
  by (simp_all add: note_class_def enter_def new_preview_def put_preview_def)

lemma note_outcome_enter:
  "vr_status r = P_completed \<Longrightarrow> note_outcome env (s, Inr r) t = enter r t"
  "note_outcome env (s, Inl e) t = enter ((new_preview (ps_step s) P_failed) \<lparr>vr_error := Some [(''error_type'', JStr (error_class e)),
           (''message'', JStr (error_text (vn_reason_text env) e))]\<rparr>) t"
  by (simp_all add: note_outcome_def enter_def new_preview_def put_preview_def)

lemma note_class_result:
  assumes "track_ok t" "ps_step s \<notin> settled_steps t"
  shows "track_ok (note_class txt s c t) \<and>
    settled_steps (note_class txt s c t) = (if c = Dispatch then settled_steps t else insert (ps_step s) (settled_steps t)) \<and>
    (\<forall>n\<in>settled_steps t. status_of (note_class txt s c t) n = status_of t n) \<and>
    (status_of (note_class txt s c t) (ps_step s) \<noteq> Some P_completed)"
  using assms by (cases c) (auto simp: note_class_enter new_preview_def enter_ok settled_iff)

section \<open>A level\<close>

text \<open>What holds of a step that is dispatched, against the track of the levels before.\<close>

definition readable :: "catalog \<Rightarrow> preview_track \<Rightarrow> plan_step \<Rightarrow> bool" where
  "readable cat t s \<longleftrightarrow> \<not> depends_on s (vt_deferred t) \<and> \<not> depends_on s (vt_failed t) \<and>
     ps_type s \<notin> {Llm_reasoning, Policy_check} \<and> ps_gate_id s = None \<and> get_tool cat (ps_uses s) \<noteq> None \<and>
     \<not> is_write_action (ps_uses s) (ps_call s)"

lemma classify_dispatch: "classify_step cat t s = Dispatch \<Longrightarrow> readable cat t s"
  by (simp add: classify_step_def readable_def is_previewable_def split: if_splits)

lemma readable_earlier:
  assumes "readable cat t' s" "set (vt_deferred t) \<subseteq> set (vt_deferred t')" "set (vt_failed t) \<subseteq> set (vt_failed t')"
  shows "readable cat t s"
  using assms by (auto simp: readable_def depends_on_def list_ex_iff)

lemma note_class_grows:
  "set (vt_deferred t) \<subseteq> set (vt_deferred (note_class txt s c t))" "set (vt_failed t) \<subseteq> set (vt_failed (note_class txt s c t))"
  by (cases c; auto simp: note_class_def put_preview_def)+

lemma classify_level_result:
  assumes "classify_level env ss t = (ds, t')" "track_ok t" "distinct (map ps_step ss)" "ps_step ` set ss \<inter> settled_steps t = {}"
  shows "track_ok t' \<and> settled_steps t' = settled_steps t \<union> (ps_step ` (set ss - set ds)) \<and> set ds \<subseteq> set ss \<and>
    distinct (map ps_step ds) \<and> (\<forall>s\<in>set ds. readable (vn_catalog env) t s) \<and>
    (\<forall>n\<in>settled_steps t. status_of t' n = status_of t n) \<and>
    (\<forall>s\<in>set ss. s \<notin> set ds \<longrightarrow> status_of t' (ps_step s) \<noteq> Some P_completed)"
  using assms
proof (induction ss arbitrary: t ds)
  case (Cons s ss)
  define c where "c = classify_step (vn_catalog env) t s"
  define t1 where "t1 = note_class (vn_text env) s c t"
  obtain ds1 where rest: "classify_level env ss t1 = (ds1, t')" and ds: "ds = (if c = Dispatch then s # ds1 else ds1)"
    using Cons.prems(1) by (auto simp: c_def t1_def Let_def split: prod.splits)
  have new: "ps_step s \<notin> settled_steps t" "ps_step s \<notin> ps_step ` set ss" using Cons.prems(3,4) by auto
  have n: "track_ok t1" "settled_steps t1 = (if c = Dispatch then settled_steps t else insert (ps_step s) (settled_steps t))"
    "\<forall>m\<in>settled_steps t. status_of t1 m = status_of t m" "status_of t1 (ps_step s) \<noteq> Some P_completed"
    using note_class_result [OF Cons.prems(2) new(1), of "vn_text env" c] unfolding t1_def by blast+
  have "distinct (map ps_step ss)" "ps_step ` set ss \<inter> settled_steps t1 = {}"
    using Cons.prems(3,4) n(2) new(2) by auto
  from Cons.IH [OF rest n(1) this]
  have ih: "track_ok t'" "settled_steps t' = settled_steps t1 \<union> ps_step ` (set ss - set ds1)" "set ds1 \<subseteq> set ss"
    "distinct (map ps_step ds1)" "\<forall>s\<in>set ds1. readable (vn_catalog env) t1 s"
    "\<forall>n\<in>settled_steps t1. status_of t' n = status_of t1 n"
    "\<forall>s\<in>set ss. s \<notin> set ds1 \<longrightarrow> status_of t' (ps_step s) \<noteq> Some P_completed" by blast+
  have sn: "s \<notin> set ss" using new(2) by blast
  have "settled_steps t' = settled_steps t \<union> ps_step ` (set (s # ss) - set ds)"
    using ih(2,3) n(2) ds sn by (cases "c = Dispatch") (auto simp: insert_Diff_if)
  moreover have "distinct (map ps_step ds)" using ih(3,4) ds new(2) by auto
  moreover have "\<forall>x\<in>set ds. readable (vn_catalog env) t x"
  proof
    fix x assume "x \<in> set ds"
    then consider "x \<in> set ds1" | "x = s" "c = Dispatch" using ds by (auto split: if_splits)
    then show "readable (vn_catalog env) t x"
    proof cases
      case 1
      then show ?thesis using ih(5) readable_earlier note_class_grows unfolding t1_def by blast
    next
      case 2
      then show ?thesis using classify_dispatch unfolding c_def by blast
    qed
  qed
  moreover have "\<forall>m\<in>settled_steps t. status_of t' m = status_of t m" using n(2,3) ih(6) by auto
  moreover have "\<forall>x\<in>set (s # ss). x \<notin> set ds \<longrightarrow> status_of t' (ps_step x) \<noteq> Some P_completed"
  proof (intro ballI impI)
    fix x assume x: "x \<in> set (s # ss)" "x \<notin> set ds"
    show "status_of t' (ps_step x) \<noteq> Some P_completed"
    proof (cases "x = s")
      case True
      with x ds have "c \<noteq> Dispatch" by auto
      then show ?thesis using True n(2,4) ih(6) by auto
    next
      case False
      with x ds ih(7) show ?thesis by (auto split: if_splits)
    qed
  qed
  ultimately show ?case using ih(1,3) ds by auto
qed simp

lemma dispatch_preview_result:
  "dispatch_preview env q results s w = (Inr r, w') \<Longrightarrow> vr_step r = ps_step s \<and> vr_status r = P_completed"
  by (auto simp: dispatch_preview_def Let_def new_preview_def split: sum.splits prod.splits)

lemma dispatch_all_result:
  "dispatch_all env q results ds w = (rs, w') \<Longrightarrow> map fst rs = ds \<and>
     (\<forall>(s, r)\<in>set rs. \<forall>x. r = Inr x \<longrightarrow> vr_step x = ps_step s \<and> vr_status x = P_completed)"
proof (induction ds arbitrary: w rs)
  case (Cons s ss)
  obtain r w1 where d: "dispatch_preview env q results s w = (r, w1)" by (metis surj_pair)
  with Cons.prems obtain qs where "dispatch_all env q results ss w1 = (qs, w')" "rs = (s, r) # qs"
    by (auto simp: Let_def split: prod.splits)
  with Cons.IH d dispatch_preview_result show ?case by (cases r) fastforce+
qed simp

lemma note_outcome_result:
  assumes "track_ok t" "ps_step s \<notin> settled_steps t" "\<And>x. r = Inr x \<Longrightarrow> vr_step x = ps_step s \<and> vr_status x = P_completed"
  shows "track_ok (note_outcome env (s, r) t)" "settled_steps (note_outcome env (s, r) t) = insert (ps_step s) (settled_steps t)"
    "n \<noteq> ps_step s \<Longrightarrow> status_of (note_outcome env (s, r) t) n = status_of t n"
  using assms by (cases r; auto simp: note_outcome_enter new_preview_def enter_ok)+

lemma note_outcomes_result:
  assumes "track_ok t" "distinct (map (\<lambda>p. ps_step (fst p)) rs)" "ps_step ` fst ` set rs \<inter> settled_steps t = {}"
    "\<forall>(s, r)\<in>set rs. \<forall>x. r = Inr x \<longrightarrow> vr_step x = ps_step s \<and> vr_status x = P_completed"
  shows "track_ok (fold (note_outcome env) rs t) \<and>
    settled_steps (fold (note_outcome env) rs t) = settled_steps t \<union> ps_step ` fst ` set rs \<and>
    (\<forall>n\<in>settled_steps t. status_of (fold (note_outcome env) rs t) n = status_of t n)"
  using assms
proof (induction rs arbitrary: t)
  case (Cons p rs)
  obtain s r where p: "p = (s, r)" by (metis surj_pair)
  have new: "ps_step s \<notin> settled_steps t" using Cons.prems(3) p by auto
  have x: "vr_step x = ps_step s \<and> vr_status x = P_completed" if "r = Inr x" for x using Cons.prems(4) p that by auto
  have same: "status_of (note_outcome env (s, r) t) m = status_of t m" if "m \<in> settled_steps t" for m
    using note_outcome_result(3) [OF Cons.prems(1) new, of r m env] x that new by auto
  have "track_ok (note_outcome env (s, r) t)" using note_outcome_result(1) [OF Cons.prems(1) new] x by blast
  moreover have st: "settled_steps (note_outcome env (s, r) t) = insert (ps_step s) (settled_steps t)"
    using note_outcome_result(2) [OF Cons.prems(1) new] x by blast
  moreover have "distinct (map (\<lambda>p. ps_step (fst p)) rs)" using Cons.prems(2) by simp
  moreover have "ps_step ` fst ` set rs \<inter> settled_steps (note_outcome env (s, r) t) = {}"
    using Cons.prems(2,3) p st by auto
  moreover have "\<forall>(s, r)\<in>set rs. \<forall>x. r = Inr x \<longrightarrow> vr_step x = ps_step s \<and> vr_status x = P_completed" using Cons.prems(4) by auto
  ultimately show ?case using Cons.IH [of "note_outcome env (s, r) t"] same p by auto
qed simp

text \<open>A level of new steps whose dependencies are settled: all of them get a result, and the completed ones
  have only completed dependencies.\<close>

lemma process_level_result:
  assumes "process_level env q level (t, w) = (t', w')" "track_ok t" "distinct (map ps_step level)"
    "ps_step ` set level \<inter> settled_steps t = {}"
  shows "track_ok t'" "settled_steps t' = settled_steps t \<union> ps_step ` set level"
    "\<forall>n\<in>settled_steps t. status_of t' n = status_of t n"
    "\<forall>s\<in>set level. status_of t' (ps_step s) = Some P_completed \<longrightarrow> readable (vn_catalog env) t s"
proof -
  obtain ds t1 rs where c: "classify_level env level t = (ds, t1)" and d: "dispatch_all env q (vt_results t1) ds w = (rs, w')"
    and t': "t' = fold (note_outcome env) rs t1"
    using assms(1) by (auto simp: process_level_def Let_def split: prod.splits)
  note l = classify_level_result [OF c assms(2-4)]
  note r = dispatch_all_result [OF d]
  have fst_rs: "fst ` set rs = set ds" using r by (metis list.set_map)
  have inj: "inj_on ps_step (set level)" using assms(3) by (simp add: distinct_map)
  have "map (\<lambda>p. ps_step (fst p)) rs = map ps_step (map fst rs)" by simp
  then have "distinct (map (\<lambda>p. ps_step (fst p)) rs)" using l r by simp
  moreover have "ps_step x \<notin> settled_steps t1" if "x \<in> set ds" for x
  proof -
    have "x \<in> set level" using l that by blast
    then have "ps_step x \<notin> settled_steps t" "ps_step x \<notin> ps_step ` (set level - set ds)"
      using assms(4) inj that by (auto simp: inj_on_def)
    then show ?thesis using l by blast
  qed
  then have apart: "ps_step ` set ds \<inter> settled_steps t1 = {}" by blast
  ultimately have n: "track_ok t'" "settled_steps t' = settled_steps t1 \<union> ps_step ` set ds"
    "\<forall>n\<in>settled_steps t1. status_of t' n = status_of t1 n"
    using note_outcomes_result [of t1 rs env] l r fst_rs unfolding t' by auto
  show "track_ok t'" by (fact n(1))
  show "settled_steps t' = settled_steps t \<union> ps_step ` set level" using n(2) l by auto
  show "\<forall>n\<in>settled_steps t. status_of t' n = status_of t n" using n(3) l by auto
  show "\<forall>s\<in>set level. status_of t' (ps_step s) = Some P_completed \<longrightarrow> readable (vn_catalog env) t s"
  proof (intro ballI impI)
    fix s assume s: "s \<in> set level" "status_of t' (ps_step s) = Some P_completed"
    show "readable (vn_catalog env) t s"
    proof (cases "s \<in> set ds")
      case True
      with l show ?thesis by blast
    next
      case False
      then have "ps_step s \<in> settled_steps t1" "status_of t1 (ps_step s) \<noteq> Some P_completed" using l s(1) by blast+
      with n(3) s(2) show ?thesis by simp
    qed
  qed
qed

section \<open>All levels\<close>

text \<open>Completed steps rest on completed ones.\<close>

definition grounded :: "plan_step set \<Rightarrow> preview_track \<Rightarrow> bool" where
  "grounded S t \<longleftrightarrow> (\<forall>s\<in>S. status_of t (ps_step s) = Some P_completed \<longrightarrow>
     (\<forall>d\<in>set (ps_after s). d \<in> settled_steps t \<longrightarrow> status_of t d = Some P_completed))"

lemma settled_completed:
  assumes "track_ok t" "d \<in> settled_steps t" "d \<notin> set (vt_deferred t)" "d \<notin> set (vt_failed t)"
  shows "status_of t d = Some P_completed"
proof -
  obtain st where "status_of t d = Some st" using assms(2) by (auto simp: settled_iff)
  with assms show ?thesis by (cases st) (auto simp: track_ok_def)
qed

lemma readable_grounds:
  "track_ok t \<Longrightarrow> readable cat t s \<Longrightarrow> d \<in> set (ps_after s) \<Longrightarrow> d \<in> settled_steps t \<Longrightarrow> status_of t d = Some P_completed"
  by (rule settled_completed) (auto simp: readable_def depends_on_def list_ex_iff)

lemma levels_result:
  assumes "fold (process_level env q) lv (t, w) = (t', w')" "track_ok t" "distinct (map ps_step (concat lv))"
    "ps_step ` set (concat lv) \<inter> settled_steps t = {}" "grounded S t" "ps_step ` S = settled_steps t"
    "\<And>i s d. i < length lv \<Longrightarrow> s \<in> set (lv ! i) \<Longrightarrow> d \<in> set (ps_after s) \<Longrightarrow>
       d \<in> settled_steps t \<union> ps_step ` set (concat lv) \<Longrightarrow> d \<in> settled_steps t \<union> ps_step ` set (concat (take i lv))"
    "\<And>s d. s \<in> S \<Longrightarrow> d \<in> set (ps_after s) \<Longrightarrow> d \<in> settled_steps t \<union> ps_step ` set (concat lv) \<Longrightarrow> d \<in> settled_steps t"
  shows "track_ok t' \<and> settled_steps t' = settled_steps t \<union> ps_step ` set (concat lv) \<and> grounded (S \<union> set (concat lv)) t'"
  using assms
proof (induction lv arbitrary: t w S)
  case (Cons l lv)
  obtain t1 w1 where p: "process_level env q l (t, w) = (t1, w1)" by (metis surj_pair)
  have dl: "distinct (map ps_step l)" "ps_step ` set l \<inter> settled_steps t = {}" using Cons.prems(3,4) by auto
  note r = process_level_result [OF p Cons.prems(2) dl]
  have deps: "d \<in> settled_steps t" if "s \<in> set l" "d \<in> set (ps_after s)" "d \<in> settled_steps t \<union> ps_step ` set (concat (l # lv))" for s d
    using Cons.prems(7) [of 0 s d] that by simp
  have g: "grounded (S \<union> set l) t1"
    unfolding grounded_def
  proof (intro ballI impI)
    fix s d assume s: "s \<in> S \<union> set l" and c: "status_of t1 (ps_step s) = Some P_completed" and d: "d \<in> set (ps_after s)" "d \<in> settled_steps t1"
    then have d1: "d \<in> settled_steps t \<union> ps_step ` set (concat (l # lv))" using r(2) by auto
    have dt: "d \<in> settled_steps t" using s deps [OF _ d(1) d1] Cons.prems(8) [OF _ d(1) d1] by blast
    have "status_of t d = Some P_completed"
    proof (cases "s \<in> set l")
      case True
      then show ?thesis using r(4) c readable_grounds [OF Cons.prems(2) _ d(1) dt] by blast
    next
      case False
      then have "s \<in> S" using s by simp
      then have "ps_step s \<in> settled_steps t" using Cons.prems(6) by blast
      then have "status_of t (ps_step s) = Some P_completed" using c r(3) by simp
      then show ?thesis using Cons.prems(5) \<open>s \<in> S\<close> d(1) dt by (auto simp: grounded_def)
    qed
    then show "status_of t1 d = Some P_completed" using r(3) dt by simp
  qed
  have "fold (process_level env q) lv (t1, w1) = (t', w')" using Cons.prems(1) p by simp
  moreover have dist: "distinct (map ps_step (concat lv))" "ps_step ` set l \<inter> ps_step ` set (concat lv) = {}"
    using Cons.prems(3) by simp_all
  moreover have "ps_step ` set (concat lv) \<inter> settled_steps t = {}" using Cons.prems(4) by auto
  then have "ps_step ` set (concat lv) \<inter> settled_steps t1 = {}" using dist(2) r(2) by blast
  moreover have "ps_step ` (S \<union> set l) = settled_steps t1" using Cons.prems(6) r(2) by auto
  moreover have "d \<in> settled_steps t1 \<union> ps_step ` set (concat (take i lv))"
    if "i < length lv" "s \<in> set (lv ! i)" "d \<in> set (ps_after s)" "d \<in> settled_steps t1 \<union> ps_step ` set (concat lv)" for i s d
  proof -
    have "d \<in> settled_steps t \<union> ps_step ` set (concat (l # lv))" using that(4) r(2) by (auto simp: image_Un)
    then have "d \<in> settled_steps t \<union> ps_step ` set (concat (take (Suc i) (l # lv)))"
      using Cons.prems(7) [of "Suc i" s d] that(1-3) by simp
    then show ?thesis using r(2) by (simp add: image_Un)
  qed
  moreover have "d \<in> settled_steps t1"
    if "s \<in> S \<union> set l" "d \<in> set (ps_after s)" "d \<in> settled_steps t1 \<union> ps_step ` set (concat lv)" for s d
  proof -
    have d1: "d \<in> settled_steps t \<union> ps_step ` set (concat (l # lv))" using that(3) r(2) by auto
    show ?thesis using that(1) deps [OF _ that(2) d1] Cons.prems(8) [OF _ that(2) d1] r(2) by blast
  qed
  ultimately have "track_ok t' \<and> settled_steps t' = settled_steps t1 \<union> ps_step ` set (concat lv) \<and> grounded (S \<union> set l \<union> set (concat lv)) t'"
    using Cons.IH [of t1 w1 "S \<union> set l"] r(1) g by blast
  then show ?case using r(2) by (auto simp: Un_assoc)
qed simp

section \<open>The calls of a preview\<close>

text \<open>A call a preview may make.\<close>

definition read_call :: "catalog \<Rightarrow> plan_step list \<Rightarrow> invocation \<Rightarrow> bool" where
  "read_call cat g iv \<longleftrightarrow> iv_step iv \<in> set g \<and> ps_gate_id (iv_step iv) = None \<and> ps_type (iv_step iv) \<notin> {Llm_reasoning, Policy_check} \<and>
     get_tool cat (ps_uses (iv_step iv)) \<noteq> None \<and> iv_tool iv = ps_uses (iv_step iv) \<and>
     \<not> is_write_action (ps_uses (iv_step iv)) (ps_call (iv_step iv)) \<and> dict_get (iv_args iv) ''dry_run'' = Some (JBool True)"

lemma classify_level_readable:
  "classify_level env ss t = (ds, t') \<Longrightarrow> s \<in> set ds \<Longrightarrow> s \<in> set ss \<and> (\<exists>u. readable (vn_catalog env) u s)"
proof (induction ss arbitrary: t ds)
  case (Cons x ss)
  define c where "c = classify_step (vn_catalog env) t x"
  obtain ds1 where rest: "classify_level env ss (note_class (vn_text env) x c t) = (ds1, t')" and ds: "ds = (if c = Dispatch then x # ds1 else ds1)"
    using Cons.prems(1) by (auto simp: c_def Let_def split: prod.splits)
  show ?case
  proof (cases "s \<in> set ds1")
    case True
    with Cons.IH [OF rest] show ?thesis by simp
  next
    case False
    then have "s = x" "c = Dispatch" using Cons.prems(2) ds by (auto split: if_splits)
    then show ?thesis using classify_dispatch unfolding c_def by force
  qed
qed simp

lemma dispatch_calls:
  assumes "dispatch_preview env q results s w = (r, w')" "s \<in> set g" "readable (vn_catalog env) u s"
  shows "\<exists>ivs. vw_calls w' = vw_calls w @ ivs \<and> list_all (read_call (vn_catalog env) g) ivs"
  using assms
  by (auto simp: dispatch_preview_def Let_def read_call_def readable_def split: sum.splits prod.splits)

lemma dispatch_all_calls:
  assumes "dispatch_all env q results ds w = (rs, w')" "\<forall>s\<in>set ds. s \<in> set g \<and> (\<exists>u. readable (vn_catalog env) u s)"
  shows "\<exists>ivs. vw_calls w' = vw_calls w @ ivs \<and> list_all (read_call (vn_catalog env) g) ivs"
  using assms
proof (induction ds arbitrary: w rs)
  case (Cons s ss)
  obtain r w1 where d: "dispatch_preview env q results s w = (r, w1)" by (metis surj_pair)
  with Cons.prems(1) obtain qs where rest: "dispatch_all env q results ss w1 = (qs, w')"
    by (auto simp: Let_def split: prod.splits)
  from Cons.prems(2) obtain u where "s \<in> set g" "readable (vn_catalog env) u s" by auto
  from dispatch_calls [OF d this] obtain ivs where "vw_calls w1 = vw_calls w @ ivs" "list_all (read_call (vn_catalog env) g) ivs" by blast
  moreover obtain jvs where "vw_calls w' = vw_calls w1 @ jvs" "list_all (read_call (vn_catalog env) g) jvs"
    using Cons.IH [OF rest] Cons.prems(2) by auto
  ultimately show ?case by auto
qed simp

lemma level_calls:
  assumes "process_level env q level (t, w) = (t', w')" "set level \<subseteq> set g"
  shows "\<exists>ivs. vw_calls w' = vw_calls w @ ivs \<and> list_all (read_call (vn_catalog env) g) ivs"
proof -
  obtain ds t1 rs where c: "classify_level env level t = (ds, t1)" and d: "dispatch_all env q (vt_results t1) ds w = (rs, w')"
    using assms(1) by (auto simp: process_level_def Let_def split: prod.splits)
  have "\<forall>s\<in>set ds. s \<in> set g \<and> (\<exists>u. readable (vn_catalog env) u s)"
    using classify_level_readable [OF c] assms(2) by blast
  from dispatch_all_calls [OF d this] show ?thesis .
qed

lemma levels_calls:
  assumes "fold (process_level env q) lv (t, w) = (t', w')" "set (concat lv) \<subseteq> set g"
  shows "\<exists>ivs. vw_calls w' = vw_calls w @ ivs \<and> list_all (read_call (vn_catalog env) g) ivs"
  using assms
proof (induction lv arbitrary: t w)
  case (Cons l lv)
  obtain t1 w1 where p: "process_level env q l (t, w) = (t1, w1)" by (metis surj_pair)
  have "set l \<subseteq> set g" "set (concat lv) \<subseteq> set g" using Cons.prems(2) by auto
  moreover from level_calls [OF p this(1)] obtain ivs where "vw_calls w1 = vw_calls w @ ivs" "list_all (read_call (vn_catalog env) g) ivs"
    by blast
  moreover have "fold (process_level env q) lv (t1, w1) = (t', w')" using Cons.prems(1) p by simp
  then obtain jvs where "vw_calls w' = vw_calls w1 @ jvs" "list_all (read_call (vn_catalog env) g) jvs"
    using Cons.IH calculation(2) by blast
  ultimately show ?case by auto
qed simp

section \<open>Properties\<close>

lemma resolve_levels_resolve: "resolve_levels g = Inr lv \<longleftrightarrow> resolve g = Some (Inr lv)"
  by (auto simp: resolve_levels_def split: option.splits sum.splits dag_error.splits)

text \<open>C5. A preview only reads. Every tool invocation a preview makes is for a step of the plan without a gate whose tool the catalog
  knows and whose names contain none of the write verbs, and it carries the dry-run flag; reasoning and policy steps
  are never dispatched.\<close>

theorem preview_only_reads:
  "list_all (read_call (vn_catalog env) (pl_graph (vq_plan q))) (drop (length (vw_calls w)) (vw_calls (snd (preview env q w))))"
proof (cases "resolve_levels (pl_graph (vq_plan q))")
  case (Inl e)
  then show ?thesis by (cases e) (simp_all add: preview_def)
next
  case (Inr lv)
  obtain t w1 where f: "fold (process_level env q) lv (new_track, w) = (t, w1)" by (metis surj_pair)
  have "set (concat lv) \<subseteq> set (pl_graph (vq_plan q))" using resolve_levels_graph [OF Inr] by auto
  from levels_calls [OF f this] obtain ivs where "vw_calls w1 = vw_calls w @ ivs"
    "list_all (read_call (vn_catalog env) (pl_graph (vq_plan q))) ivs" by blast
  moreover have "vw_calls (snd (preview env q w)) = vw_calls w1"
    using Inr f by (simp add: preview_def Let_def split: prod.split)
  ultimately show ?thesis by simp
qed

lemma map_sort_key: "map f (sort_key f xs) = sort (map f xs)"
  by (rule properties_for_sort [symmetric]) simp_all

lemma grounded_empty: "grounded {} t"
  by (simp add: grounded_def)

lemma new_track_simps [simp]: "track_ok new_track" "settled_steps new_track = {}"
  by (simp_all add: track_ok_def new_track_def settled_steps_def status_of_def)

lemma previewed:
  assumes "preview env q w = (Inr r, w')"
  obtains t key where "track_ok t" "settled_steps t = ps_step ` set (pl_graph (vq_plan q))" "grounded (set (pl_graph (vq_plan q))) t"
    "distinct (map ps_step (pl_graph (vq_plan q)))" "r = preview_result_of q key t"
proof -
  from assms obtain lv where lv: "resolve_levels (pl_graph (vq_plan q)) = Inr lv"
    by (cases "resolve_levels (pl_graph (vq_plan q))") (auto simp: preview_def split: exec_error.splits)
  then have res: "resolve (pl_graph (vq_plan q)) = Some (Inr lv)" by (simp add: resolve_levels_resolve)
  have cover: "mset (concat lv) = mset (pl_graph (vq_plan q))" by (rule resolve_cover [OF res])
  then have set_eq: "set (concat lv) = set (pl_graph (vq_plan q))" by (metis set_mset_mset)
  have dist: "distinct (map ps_step (pl_graph (vq_plan q)))" using resolve_distinct [OF res] by (simp add: step_ids_def)
  have "mset (map ps_step (concat lv)) = mset (map ps_step (pl_graph (vq_plan q)))" using cover by simp
  then have "distinct (map ps_step (concat lv))" using dist mset_eq_imp_distinct_iff by blast
  obtain t w1 where f: "fold (process_level env q) lv (new_track, w) = (t, w1)" by (metis surj_pair)
  have deps: "d \<in> settled_steps new_track \<union> ps_step ` set (concat (take i lv))"
    if "i < length lv" "s \<in> set (lv ! i)" "d \<in> set (ps_after s)" "d \<in> settled_steps new_track \<union> ps_step ` set (concat lv)" for i s d
    using resolve_deps [OF res that(1-3)] that(4) set_eq by simp
  have "track_ok t \<and> settled_steps t = settled_steps new_track \<union> ps_step ` set (concat lv) \<and> grounded ({} \<union> set (concat lv)) t"
    by (rule levels_result [OF f]) (use \<open>distinct (map ps_step (concat lv))\<close> deps in \<open>simp_all add: grounded_empty\<close>)
  moreover obtain key where "r = preview_result_of q key t"
    using assms lv f by (auto simp: preview_def Let_def split: prod.splits)
  moreover have "settled_steps new_track \<union> ps_step ` set (concat lv) = ps_step ` set (pl_graph (vq_plan q))"
    unfolding set_eq by simp
  ultimately show thesis using that [of t key] dist unfolding set_eq by simp
qed

lemma track_steps: "track_ok t \<Longrightarrow> map (vr_step \<circ> snd) (vt_results t) = map fst (vt_results t)"
  by (auto simp: track_ok_def)

lemma track_entry:
  assumes "track_ok t" "v \<in> snd ` set (vt_results t)"
  shows "status_of t (vr_step v) = Some (vr_status v)"
proof -
  from assms(2) obtain n where n: "(n, v) \<in> set (vt_results t)" by force
  then have "dict_get (vt_results t) n = Some v" "vr_step v = n" using assms(1) by (auto simp: track_ok_def dict_ok_def)
  then show ?thesis by (simp add: status_of_def)
qed

text \<open>C11. A preview accounts for the whole plan. It has exactly one result for every step, in the order of their numbers; a
  step completed only if every step it depends on completed; the preview is partial exactly when a step failed
  or was skipped, and the plan may be executed exactly when a step completed or every step was deferred.\<close>

theorem preview_accounts_for_plan:
  assumes "preview env q w = (Inr r, w')"
  shows "map vr_step (vp_steps r) = sort (map ps_step (pl_graph (vq_plan q))) \<and>
    (\<forall>s\<in>set (pl_graph (vq_plan q)). \<forall>v\<in>set (vp_steps r). vr_step v = ps_step s \<longrightarrow> vr_status v = P_completed \<longrightarrow>
       (\<forall>d\<in>set (ps_after s). d \<in> ps_step ` set (pl_graph (vq_plan q)) \<longrightarrow>
          (\<exists>u\<in>set (vp_steps r). vr_step u = d \<and> vr_status u = P_completed))) \<and>
    (vp_partial r \<longleftrightarrow> (\<exists>v\<in>set (vp_steps r). vr_status v \<in> {P_failed, P_skipped})) \<and>
    (vp_can_execute r \<longleftrightarrow> (\<exists>v\<in>set (vp_steps r). vr_status v = P_completed) \<or> (\<forall>v\<in>set (vp_steps r). vr_status v = P_deferred))"
proof -
  let ?g = "pl_graph (vq_plan q)"
  obtain t key where t: "track_ok t" "settled_steps t = ps_step ` set ?g" "grounded (set ?g) t" "distinct (map ps_step ?g)"
    and r: "r = preview_result_of q key t" by (rule previewed [OF assms])
  have steps: "set (vp_steps r) = snd ` set (vt_results t)" by (simp add: r preview_result_of_def)
  have keys: "distinct (map fst (vt_results t))" using t(1) by (simp add: track_ok_def dict_ok_def)
  have "sort (map fst (vt_results t)) = sort (map ps_step ?g)"
    by (rule sorted_distinct_set_unique) (use keys t(2,4) in \<open>simp_all add: settled_steps_def\<close>)
  moreover have "map vr_step (map snd (vt_results t)) = map fst (vt_results t)" using t(1) by (auto simp: track_ok_def)
  moreover have "vp_steps r = sort_key vr_step (map snd (vt_results t))" by (simp add: r preview_result_of_def)
  ultimately have a: "map vr_step (vp_steps r) = sort (map ps_step ?g)" unfolding map_sort_key by (metis map_sort_key)
  have b: "\<exists>u\<in>set (vp_steps r). vr_step u = d \<and> vr_status u = P_completed"
    if "s \<in> set ?g" "v \<in> set (vp_steps r)" "vr_step v = ps_step s" "vr_status v = P_completed" "d \<in> set (ps_after s)" "d \<in> ps_step ` set ?g"
    for s v d
  proof -
    have "status_of t (ps_step s) = Some P_completed" using track_entry [OF t(1), of v] that(2-4) steps by simp
    then have "status_of t d = Some P_completed" using t(2,3) that(1,5,6) by (auto simp: grounded_def)
    then obtain u where "dict_get (vt_results t) d = Some u" "vr_status u = P_completed" by (auto simp: status_of_def)
    then have "(d, u) \<in> set (vt_results t)" "vr_status u = P_completed" by (simp_all add: map_of_SomeD)
    then have "u \<in> set (vp_steps r)" "vr_step u = d" using t(1) unfolding steps track_ok_def by force+
    then show ?thesis using \<open>vr_status u = P_completed\<close> by blast
  qed
  have c: "vp_partial r \<longleftrightarrow> (\<exists>v\<in>set (vp_steps r). vr_status v \<in> {P_failed, P_skipped})"
  proof
    assume "vp_partial r"
    then have "vt_failed t \<noteq> []" by (simp add: r preview_result_of_def)
    then obtain n where "n \<in> set (vt_failed t)" using list.set_sel(1) by blast
    then have "status_of t n \<in> {Some P_failed, Some P_skipped}" using t(1) by (simp add: track_ok_def)
    then obtain v where "dict_get (vt_results t) n = Some v" "vr_status v \<in> {P_failed, P_skipped}" by (auto simp: status_of_def)
    then show "\<exists>v\<in>set (vp_steps r). vr_status v \<in> {P_failed, P_skipped}"
      unfolding steps by (metis map_of_SomeD image_eqI snd_conv)
  next
    assume "\<exists>v\<in>set (vp_steps r). vr_status v \<in> {P_failed, P_skipped}"
    then obtain v where "v \<in> snd ` set (vt_results t)" "vr_status v \<in> {P_failed, P_skipped}" unfolding steps by blast
    then have "vr_step v \<in> set (vt_failed t)" using track_entry [OF t(1)] t(1) by (auto simp: track_ok_def)
    then show "vp_partial r" by (auto simp: r preview_result_of_def)
  qed
  have d: "vp_can_execute r \<longleftrightarrow> (\<exists>v\<in>set (vp_steps r). vr_status v = P_completed) \<or> (\<forall>v\<in>set (vp_steps r). vr_status v = P_deferred)"
    by (auto simp: r preview_result_of_def can_execute_def list_ex_iff list_all_iff)
  from a b c d show ?thesis by blast
qed

section \<open>The cache\<close>

definition preview_ok :: "step_preview \<Rightarrow> bool" where
  "preview_ok r \<longleftrightarrow> 1 \<le> vr_step r \<and> 0 \<le> vr_latency_ms r"

lemma parse_status_text: "parse_status (JStr (status_text s)) = Some s"
  by (cases s) (simp_all add: parse_status_def status_text_def)

lemma opt_obj_jopt: "opt_obj (jopt JObj x) = Some x"
  by (cases x) (simp_all add: opt_obj_def)

lemma validate_dump: "preview_ok r \<Longrightarrow> validate_preview (preview_dump r) = Some r"
  by (cases r; cases "vr_reason r")
    (simp_all add: validate_preview_def preview_dump_def jget_def preview_ok_def parse_status_text opt_obj_jopt)

lemma int_keys_shown: "\<forall>(k, v)\<in>set d. 0 \<le> k \<Longrightarrow> int_keys (map (\<lambda>(k, v). (show_int k, v)) d) = Some d"
  by (induction d) (auto simp: show_int_def py_int_show_nat)

lemma validate_dumps:
  "\<forall>(n, r)\<in>set d. preview_ok r \<Longrightarrow> validate_all (map (\<lambda>(n, r). (n, preview_dump r)) d) = Some d"
  by (induction d) (auto simp: validate_dump)

lemma fold_set_distinct: "distinct (map fst (acc @ d)) \<Longrightarrow> fold (\<lambda>(k, v). dict_set k v) d acc = acc @ d"
proof (induction d arbitrary: acc)
  case (Cons p d)
  obtain k v where p: "p = (k, v)" by (metis surj_pair)
  have "dict_set k v acc = acc @ [(k, v)]" using Cons.prems p by (induction acc) auto
  then show ?case using Cons.IH [of "acc @ [(k, v)]"] Cons.prems p by simp
qed simp

text \<open>C37. The cached preview comes back. What a preview stored, a later read within the lifetime returns unchanged, numbers, statuses,
  results and reasons, provided that Redis keeps its documented laws and answers, and \<open>json\<close> reads what it writes.\<close>

theorem preview_state_roundtrip:
  assumes "redis_store rd lk" "vn_redis env = Some rd"
    and "\<And>j x. vn_dumps env j = Some x \<Longrightarrow> vn_loads env x = Some j"
    and "store_previews env t plan user (map (\<lambda>(n, r). (n, preview_dump r)) d) s = (Some key, s')"
    and "dict_ok d" "\<forall>(n, r)\<in>set d. 0 \<le> n \<and> preview_ok r"
    and "t \<le> t'" "t' < t + vn_ttl env * sec" "rd_get rd t' (preview_key plan user) s' \<noteq> None"
  shows "get_preview_state env t' plan user s' = Some (Some d)"
proof -
  let ?st = "map (\<lambda>(n, r). (n, preview_dump r)) d" and ?k = "preview_key plan user"
  from assms(2,4) obtain x b where x: "vn_dumps env (JObj (map (\<lambda>(k, v). (show_int k, v)) ?st)) = Some x"
    and w: "rd_set rd t ?k x (Some (vn_ttl env)) False s = Some (b, s')"
    by (auto simp: store_previews_def split: option.splits prod.splits)
  have lk: "lk s' t' ?k = Some (RStr x)"
    using redis_store.set_law [OF assms(1) w] assms(7,8) by (simp add: alive_def)
  have "rd_get rd t' ?k s' = Some (Some x)"
    using assms(9) redis_store.get_law [OF assms(1)] lk by (cases "rd_get rd t' ?k s'") fastforce+
  moreover have "vn_loads env x = Some (JObj (map (\<lambda>(k, v). (show_int k, v)) ?st))" by (rule assms(3) [OF x])
  moreover have "int_keys (map (\<lambda>(k, v). (show_int k, v)) ?st) = Some ?st"
    by (rule int_keys_shown) (use assms(6) in auto)
  moreover have "map fst ?st = map fst d" by auto
  then have "distinct (map fst ([] @ ?st))" using assms(5) unfolding dict_ok_def append_Nil by (simp only:)
  then have "fold (\<lambda>(k, v). dict_set k v) ?st [] = [] @ ?st" by (rule fold_set_distinct)
  then have "fold (\<lambda>(k, v). dict_set k v) ?st [] = ?st" by simp
  moreover have "validate_all ?st = Some d" by (rule validate_dumps) (use assms(6) in auto)
  ultimately show ?thesis by (simp add: get_preview_state_def retrieve_previews_def assms(2))
qed

section \<open>A preview of one step\<close>

definition list_tool :: tool_definition where
  "list_tool = \<lparr>td_name = ''CAL_LIST'', td_server = ''cal'', td_provider = ''cal'', td_description = [], td_schema = []\<rparr>"

definition listed_step :: step_preview where
  "listed_step = (new_preview 1 P_completed) \<lparr>vr_result := Some [(''id'', JInt 1)]\<rparr>"

definition preview_payload :: json where
  "preview_payload = JObj [(''1'', preview_dump listed_step)]"

definition shown_env :: "(mem, int) preview_env" where
  "shown_env = \<lparr>vn_catalog = \<lparr>ct_tools = [(''CAL_LIST'', list_tool)], ct_last_refresh = 0\<rparr>, vn_text = (\<lambda>_. []),
     vn_invoke = (\<lambda>_ _ _ _ _ t. (Inr [(''id'', JInt 1)], t)), vn_now = id, vn_reason_text = (\<lambda>_. []), vn_redis = Some mem_redis,
     vn_ttl = 900, vn_dumps = (\<lambda>j. if j = preview_payload then Some ''js'' else None), vn_loads = (\<lambda>_. Some preview_payload)\<rparr>"

definition shown_request :: preview_request where
  "shown_request = \<lparr>vq_plan = plan_of [fetch_step], vq_user_id = ''u'', vq_trace_id = ''tr''\<rparr>"

definition shown_world :: "(mem, int) preview_world" where
  "shown_world = \<lparr>vw_redis = [], vw_ext = 0, vw_calls = []\<rparr>"

lemma fetch_step_after [simp]: "ps_after fetch_step = []" "ps_call fetch_step = ''list''"
  by (simp_all add: fetch_step_def new_plan_step_def)

lemma fetch_readable: "classify_step (vn_catalog shown_env) new_track fetch_step = Dispatch"
proof -
  have "\<not> is_write_action ''CAL_LIST'' ''list''" by code_simp
  then show ?thesis by (simp add: classify_step_def depends_on_def is_previewable_def get_tool_def shown_env_def)
qed

lemma fetch_level:
  obtains w where "process_level shown_env shown_request [fetch_step] (new_track, shown_world) = (put_preview listed_step new_track, w)"
    "vw_redis w = []" "vw_ext w = 0"
proof -
  have "note_class tx s Dispatch t = t" for tx s t by (simp add: note_class_def)
  then show thesis using that fetch_readable
    by (simp add: process_level_def dispatch_preview_def resolve_args_def note_outcome_def Let_def get_tool_def
        shown_env_def shown_world_def listed_step_def new_preview_def)
qed

lemma preview_of_fetch:
  obtains r w where "preview shown_env shown_request shown_world = (Inr r, w)" "vp_steps r = [listed_step]"
    "vp_cached_key r = Some (preview_key (pl_plan_id (plan_of [fetch_step])) ''u'')"
proof -
  obtain w where l: "process_level shown_env shown_request [fetch_step] (new_track, shown_world) = (put_preview listed_step new_track, w)"
    "vw_redis w = []" "vw_ext w = 0" by (rule fetch_level)
  have "preview_payload = JObj [(''1'', preview_dump listed_step)]" "show_int 1 = ''1''" by (simp add: preview_payload_def) code_simp
  with l show thesis using that
    by (simp add: preview_def shown_request_def plan_of_def one_step_levels preview_result_of_def put_preview_def new_track_def
       store_previews_def shown_env_def listed_step_def new_preview_def mem_redis_def split: prod.split)
qed

theorem preview_accounts_for_plan_witness:
  "\<exists>r w. preview shown_env shown_request shown_world = (Inr r, w) \<and> map vr_step (vp_steps r) = [1] \<and> \<not> vp_partial r \<and> vp_can_execute r"
proof -
  obtain r w where p: "preview shown_env shown_request shown_world = (Inr r, w)" "vp_steps r = [listed_step]" by (rule preview_of_fetch)
  have "vr_status listed_step = P_completed" by (simp add: listed_step_def new_preview_def)
  with preview_accounts_for_plan [OF p(1)] p show ?thesis by (simp add: shown_request_def plan_of_def)
qed

lemma listed_step_ok: "preview_ok listed_step"
  by (simp add: preview_ok_def listed_step_def new_preview_def)

theorem preview_state_roundtrip_witness:
  "get_preview_state shown_env 1000000 ''P'' ''u'' (snd (store_previews shown_env 0 ''P'' ''u'' [(1, preview_dump listed_step)] [])) = Some (Some [(1, listed_step)])"
proof -
  have k: "show_int 1 = ''1''" by code_simp
  let ?m = "[(preview_key ''P'' ''u'', (RStr ''js'', Some (900 * sec)))]"
  have st: "store_previews shown_env 0 ''P'' ''u'' (map (\<lambda>(n, r). (n, preview_dump r)) [(1, listed_step)]) [] = (Some (preview_key ''P'' ''u''), ?m)"
    using k by (simp add: store_previews_def shown_env_def preview_payload_def mem_redis_def)
  have "get_preview_state shown_env 1000000 ''P'' ''u'' ?m = Some (Some [(1, listed_step)])"
  proof (rule preview_state_roundtrip [OF mem_store.redis_store_axioms _ _ st])
    show "vn_redis shown_env = Some mem_redis" "\<And>j x. vn_dumps shown_env j = Some x \<Longrightarrow> vn_loads shown_env x = Some j"
      by (auto simp: shown_env_def split: if_splits)
    show "dict_ok [(1 :: int, listed_step)]" "\<forall>(n, r)\<in>set [(1 :: int, listed_step)]. 0 \<le> n \<and> preview_ok r" by (simp_all add: dict_ok_def listed_step_ok)
    show "(0::int) \<le> 1000000" "1000000 < 0 + vn_ttl shown_env * sec" by (simp_all add: shown_env_def sec_def)
    show "rd_get mem_redis 1000000 (preview_key ''P'' ''u'') ?m \<noteq> None"
      by (simp add: mem_redis_def mem_lookup_def sec_def)
  qed
  then show ?thesis using st by simp
qed


text \<open>A reply to a mail is sent by a preview: its name holds no verb of the list.\<close>

lemma reply_is_dispatched:
  "ps_type s = Api \<Longrightarrow> ps_gate_id s = None \<Longrightarrow> ps_after s = [] \<Longrightarrow> ps_uses s = ''GMAIL_REPLY_TO_THREAD'' \<Longrightarrow> ps_call s = ''reply'' \<Longrightarrow>
     get_tool cat ''GMAIL_REPLY_TO_THREAD'' = Some td \<Longrightarrow> classify_step cat t s = Dispatch"
proof -
  assume a: "ps_type s = Api" "ps_gate_id s = None" "ps_after s = []" "ps_uses s = ''GMAIL_REPLY_TO_THREAD''" "ps_call s = ''reply''"
    "get_tool cat ''GMAIL_REPLY_TO_THREAD'' = Some td"
  have "\<not> is_write_action ''GMAIL_REPLY_TO_THREAD'' ''reply''" by code_simp
  with a show ?thesis by (simp add: classify_step_def depends_on_def is_previewable_def)
qed

end
