(* ===== verification/Py_Dates.thy ===== *)
theory Py_Dates
  imports Py_Regex
begin

text \<open>
  Calendar dates and the texts made of them. An instant is a number of microseconds since 1970-01-01 00:00 UTC.
  \<open>civil\<close> is the proleptic Gregorian calendar: days are counted in eras of 400 years that begin on a first of March.
  \<open>py_title\<close> is \<open>str.title\<close> (a letter whose capital is above 255 is left as it is).
\<close>

definition day_us :: int where
  "day_us = 86400000000"

definition day_of :: "int \<Rightarrow> int" where
  "day_of t = t div day_us"

definition civil :: "int \<Rightarrow> int \<times> int \<times> int" where
  "civil days =
     (let z = days + 719468; era = z div 146097; doe = z mod 146097;
          yoe = (doe - doe div 1460 + doe div 36524 - doe div 146096) div 365;
          doy = doe - (365 * yoe + yoe div 4 - yoe div 100); mp = (5 * doy + 2) div 153;
          d = doy - (153 * mp + 2) div 5 + 1; m = (if mp < 10 then mp + 3 else mp - 9);
          y = yoe + era * 400 + (if m \<le> 2 then 1 else 0)
      in (y, m, d))"

definition padded :: "nat \<Rightarrow> int \<Rightarrow> string" where
  "padded k n = replicate (k - length (show_int n)) CHR ''0'' @ show_int n"

definition iso_date :: "int \<Rightarrow> string" where
  "iso_date t = (case civil (day_of t) of (y, m, d) \<Rightarrow> padded 4 y @ ''-'' @ padded 2 m @ ''-'' @ padded 2 d)"

text \<open>\<open>strftime("%A")\<close>; 1970-01-01 is a Thursday.\<close>

definition day_names :: "string list" where
  "day_names = [''Monday'', ''Tuesday'', ''Wednesday'', ''Thursday'', ''Friday'', ''Saturday'', ''Sunday'']"

definition weekday :: "int \<Rightarrow> string" where
  "weekday t = day_names ! nat ((day_of t + 3) mod 7)"

lemma weekday_in: "weekday t \<in> set day_names"
proof -
  have "0 \<le> (day_of t + 3) mod 7" "(day_of t + 3) mod 7 < 7" by simp_all
  then have "nat ((day_of t + 3) mod 7) < length day_names" by (simp add: day_names_def nat_less_iff)
  then show ?thesis unfolding weekday_def by (rule nth_mem)
qed

lemma calendar_examples:
  "civil 0 = (1970, 1, 1)" "civil 19782 = (2024, 2, 29)" "weekday (19782 * day_us) = ''Thursday''"
  by code_simp+

section \<open>Case\<close>

definition cased_ranges :: "(int \<times> int) list" where
  "cased_ranges = [(65, 90), (97, 122), (170, 170), (181, 181), (186, 186), (192, 214), (216, 246), (248, 255)]"

definition title_char :: "char \<Rightarrow> char" where
  "title_char c = (let n = of_char c :: int in
     if 97 \<le> n \<and> n \<le> 122 \<or> 224 \<le> n \<and> n \<le> 254 \<and> n \<noteq> 247 then char_of (n - 32) else c)"

fun title_from :: "bool \<Rightarrow> string \<Rightarrow> string" where
  "title_from after_cased [] = []"
| "title_from after_cased (c # cs) =
     (if after_cased then lower_char c else title_char c) # title_from (in_ranges cased_ranges c) cs"

definition py_title :: "string \<Rightarrow> string" where
  "py_title s = title_from False s"

definition py_capitalize :: "string \<Rightarrow> string" where
  "py_capitalize s = (case s of [] \<Rightarrow> [] | c # cs \<Rightarrow> title_char c # lower cs)"

section \<open>Sizes and values as text\<close>

text \<open>\<open>len(s.encode("utf-8"))\<close> for characters below 256.\<close>

definition utf8_size :: "string \<Rightarrow> nat" where
  "utf8_size s = sum_list (map (\<lambda>c. if (of_char c :: nat) < 128 then 1 else 2) s)"

lemma utf8_size_length: "length s \<le> utf8_size s"
  by (induction s) (auto simp: utf8_size_def)

text \<open>\<open>str(v)\<close>; \<open>txt\<close> is the text of floats and of the containers.\<close>

definition py_str :: "(json \<Rightarrow> string) \<Rightarrow> json \<Rightarrow> string" where
  "py_str txt j = (case j of JStr s \<Rightarrow> s | JInt i \<Rightarrow> show_int i | JBool b \<Rightarrow> (if b then ''True'' else ''False'')
     | JNull \<Rightarrow> ''None'' | _ \<Rightarrow> txt j)"

text \<open>\<open>int(x / d)\<close> of a quotient: truncation towards zero.\<close>

definition trunc_div :: "int \<Rightarrow> int \<Rightarrow> int" where
  "trunc_div x d = (if 0 \<le> x then x div d else - ((- x) div d))"

end
