(* ===== verification/History_Store.thy ===== *)
theory History_Store
  imports Py_Dates
begin

text \<open>
  The History component's tables (\<open>components/History/adapters/db.py\<close>): the facts and the patterns of every user, in insertion
  order, one definition per statement. The unique index over the active facts of a user and the unique constraint over
  the patterns decide what an insert does on a conflict. Identifiers are drawn by the caller.
\<close>

section \<open>Rows\<close>

record fact =
  fc_id :: string
  fc_user :: string
  fc_text :: string
  fc_intent :: string
  fc_entities :: jobj
  fc_outcome :: bool
  fc_source_plan :: "string option"
  fc_hash :: string
  fc_ttl_days :: int
  fc_created :: int
  fc_expires :: int
  fc_deleted :: "int option"

record fact_pattern =
  fp_id :: string
  fp_user :: string
  fp_intent :: string
  fp_key :: string
  fp_description :: string
  fp_entities :: jobj
  fp_count :: int
  fp_last_seen :: int
  fp_confidence :: rat

record history =
  hi_facts :: "fact list"
  hi_patterns :: "fact_pattern list"

text \<open>\<open>^[0-9A-HJKMNP-TV-Z]{26}$\<close>, as \<open>match\<close> and as a Pydantic pattern, whose \<open>$\<close> is the end of the text.\<close>

definition ulid_ranges :: "(int \<times> int) list" where
  "ulid_ranges = [(48, 57), (65, 72), (74, 75), (77, 78), (80, 84), (86, 90)]"

definition ulid_regex :: regex where
  "ulid_regex = seqs [Line_start False, Times 26 (Chars False ulid_ranges), Line_end]"

definition is_ulid :: "string \<Rightarrow> bool" where
  "is_ulid s \<longleftrightarrow> length s = 26 \<and> list_all (in_ranges ulid_ranges) s"

definition source_ok :: "string option \<Rightarrow> bool" where
  "source_ok p = (case p of None \<Rightarrow> True | Some s \<Rightarrow> is_ulid s)"

definition fact_ok :: "fact \<Rightarrow> bool" where
  "fact_ok f \<longleftrightarrow> length (fc_text f) \<le> 4096 \<and> length (fc_intent f) \<le> 64 \<and> source_ok (fc_source_plan f) \<and>
     length (fc_hash f) \<le> 64 \<and> 1 \<le> fc_ttl_days f"

definition fact_pattern_ok :: "fact_pattern \<Rightarrow> bool" where
  "fact_pattern_ok p \<longleftrightarrow> length (fp_intent p) \<le> 64 \<and> length (fp_key p) \<le> 128 \<and> length (fp_description p) \<le> 512 \<and>
     1 \<le> fp_count p \<and> 0 \<le> fp_confidence p \<and> fp_confidence p \<le> 1"

section \<open>Facts\<close>

definition active :: "fact \<Rightarrow> bool" where
  "active f \<longleftrightarrow> fc_deleted f = None"

definition same_fact :: "fact \<Rightarrow> fact \<Rightarrow> bool" where
  "same_fact f g \<longleftrightarrow> active g \<and> fc_user g = fc_user f \<and> fc_hash g = fc_hash f"

definition insert_fact :: "fact \<Rightarrow> history \<Rightarrow> (fact \<times> bool) \<times> history" where
  "insert_fact f h = (case find (same_fact f) (hi_facts h) of
       Some g \<Rightarrow> ((g, False), h)
     | None \<Rightarrow> ((f, True), h \<lparr>hi_facts := hi_facts h @ [f]\<rparr>))"

definition current :: "int \<Rightarrow> string \<Rightarrow> string option \<Rightarrow> fact \<Rightarrow> bool" where
  "current now user it f \<longleftrightarrow> fc_user f = user \<and> active f \<and> now < fc_expires f \<and>
     (case it of None \<Rightarrow> True | Some t \<Rightarrow> t = [] \<or> fc_intent f = t)"

definition query_facts :: "int \<Rightarrow> string \<Rightarrow> string option \<Rightarrow> nat \<Rightarrow> int option \<Rightarrow> history \<Rightarrow> fact list" where
  "query_facts now user it limit cutoff h =
     take limit (sort_key (\<lambda>f. - fc_created f)
       (filter (\<lambda>f. current now user it f \<and> (case cutoff of None \<Rightarrow> True | Some c \<Rightarrow> c \<le> fc_created f)) (hi_facts h)))"

definition count_facts :: "int \<Rightarrow> string \<Rightarrow> string option \<Rightarrow> history \<Rightarrow> nat" where
  "count_facts now user it h = length (filter (current now user it) (hi_facts h))"

definition cleanup_expired_facts :: "int \<Rightarrow> history \<Rightarrow> nat \<times> history" where
  "cleanup_expired_facts now h =
     (let old = (\<lambda>f. fc_expires f < now \<and> active f)
      in (length (filter old (hi_facts h)),
          h \<lparr>hi_facts := map (\<lambda>f. if old f then f \<lparr>fc_deleted := Some now\<rparr> else f) (hi_facts h)\<rparr>))"

definition hard_delete_old_facts :: "int \<Rightarrow> int \<Rightarrow> history \<Rightarrow> nat \<times> history" where
  "hard_delete_old_facts now days h =
     (let gone = (\<lambda>f. case fc_deleted f of None \<Rightarrow> False | Some t \<Rightarrow> t < now - days * day_us)
      in (length (filter gone (hi_facts h)), h \<lparr>hi_facts := filter (\<lambda>f. \<not> gone f) (hi_facts h)\<rparr>))"

section \<open>Patterns\<close>

definition same_pattern :: "fact_pattern \<Rightarrow> fact_pattern \<Rightarrow> bool" where
  "same_pattern p q \<longleftrightarrow> fp_user q = fp_user p \<and> fp_intent q = fp_intent p \<and> fp_key q = fp_key p"

definition upsert_pattern :: "fact_pattern \<Rightarrow> history \<Rightarrow> history" where
  "upsert_pattern p h =
     (if list_ex (same_pattern p) (hi_patterns h)
      then h \<lparr>hi_patterns := map (\<lambda>q. if same_pattern p q
          then q \<lparr>fp_count := fp_count p, fp_last_seen := fp_last_seen p, fp_confidence := fp_confidence p,
                  fp_description := fp_description p, fp_entities := fp_entities p\<rparr> else q) (hi_patterns h)\<rparr>
      else h \<lparr>hi_patterns := hi_patterns h @ [p]\<rparr>)"

definition query_patterns :: "string \<Rightarrow> string option \<Rightarrow> rat \<Rightarrow> history \<Rightarrow> fact_pattern list" where
  "query_patterns user it least h =
     sort_key (\<lambda>p. - fp_confidence p) (sort_key (\<lambda>p. - fp_last_seen p)
       (filter (\<lambda>p. fp_user p = user \<and> least \<le> fp_confidence p \<and> (case it of None \<Rightarrow> True | Some t \<Rightarrow> t = [] \<or> fp_intent p = t))
         (hi_patterns h)))"

end
