(* ===== verification/History_Service.thy ===== *)
theory History_Service
  imports History_Store
begin

text \<open>
  The services of the History component (\<open>components/History/service\<close>): storing a fact with its checks, its hash and
  its pattern, the queries, and the conversion of a fact to an evidence item. SHA-256 and the text of floats and containers
  are parameters; the UUIDs a call draws and the instant it runs at are arguments. Latencies and logging are left out.
\<close>

record history_env =
  hn_digest :: "string \<Rightarrow> string"
  hn_text :: "json \<Rightarrow> string"

datatype history_error =
    Empty_fact
  | Pii_fact string
  | Fact_too_large nat
  | Fact_in_future
  | History_invalid
  | Bad_query string

record fact_request =
  fr_text :: string
  fr_intent :: string
  fr_entities :: jobj
  fr_outcome :: bool
  fr_source_plan :: "string option"
  fr_ttl_days :: int

definition fact_request_ok :: "fact_request \<Rightarrow> bool" where
  "fact_request_ok r \<longleftrightarrow> fr_text r \<noteq> [] \<and> length (fr_text r) \<le> 4096 \<and> fr_intent r \<noteq> [] \<and> length (fr_intent r) \<le> 64 \<and>
     source_ok (fr_source_plan r) \<and> 1 \<le> fr_ttl_days r \<and> fr_ttl_days r \<le> 365"

datatype store_status = Stored_new | Stored_duplicate

record fact_response =
  fs_status :: store_status
  fs_fact_id :: string
  fs_stored_at :: int

section \<open>Checks\<close>

definition mail_char :: regex where
  "mail_char = Chars False [(97, 122), (65, 90), (48, 57), (46, 46), (95, 95), (37, 37), (43, 43), (45, 45)]"

definition host_char :: regex where
  "host_char = Chars False [(97, 122), (65, 90), (48, 57), (46, 46), (45, 45)]"

definition letter_re :: regex where
  "letter_re = Chars False [(97, 122), (65, 90)]"

definition email_regex :: regex where
  "email_regex = seqs [plus_of mail_char, lit ''@'', plus_of host_char, lit ''.'', at_least 2 letter_re]"

definition phone_regex :: regex where
  "phone_regex = seqs [Word_edge, Times 3 digit_re, opt (Chars False [(45, 46)]), Times 3 digit_re, opt (Chars False [(45, 46)]),
     Times 4 digit_re, Word_edge]"

definition ssn_regex :: regex where
  "ssn_regex = seqs [Word_edge, Times 3 digit_re, lit ''-'', Times 2 digit_re, lit ''-'', Times 4 digit_re, Word_edge]"

definition pii_patterns :: "(regex \<times> string) list" where
  "pii_patterns = [(email_regex, ''email''), (phone_regex, ''phone''), (ssn_regex, ''SSN'')]"

definition detect_pii :: "string \<Rightarrow> string option" where
  "detect_pii s = map_option snd (find (\<lambda>(r, _). re_search False r s \<noteq> None) pii_patterns)"

definition check_fact :: "int \<Rightarrow> string \<Rightarrow> history_error option" where
  "check_fact now s =
     seq_checks [check_that (s \<noteq> [] \<and> strip s \<noteq> []) Empty_fact,
       check_that (utf8_size s \<le> 4096) (Fact_too_large (utf8_size s)),
       map_option Pii_fact (detect_pii s),
       check_that (\<not> now + 300000000 < now) Fact_in_future]"

definition compute_fact_hash :: "(string \<Rightarrow> string) \<Rightarrow> string \<Rightarrow> string \<Rightarrow> string \<Rightarrow> int \<Rightarrow> string" where
  "compute_fact_hash digest user it s now = digest (user @ it @ s @ iso_date now)"

section \<open>Patterns\<close>

definition priority_keys :: "string list" where
  "priority_keys = [''person'', ''location'', ''project'', ''category'']"

definition extract_entity_key :: "(json \<Rightarrow> string) \<Rightarrow> jobj \<Rightarrow> string option" where
  "extract_entity_key txt es = (case es of
       [] \<Rightarrow> None
     | (k0, v0) # _ \<Rightarrow> (case find (\<lambda>k. dict_get es k \<noteq> None) priority_keys of
           Some k \<Rightarrow> Some (k @ '':'' @ py_str txt (the (dict_get es k)))
         | None \<Rightarrow> Some (k0 @ '':'' @ py_str txt v0)))"

definition pattern_key :: "string \<Rightarrow> string \<Rightarrow> string \<Rightarrow> string" where
  "pattern_key it ek day = it @ '':'' @ ek @ '':'' @ day"

definition pattern_confidence :: "int \<Rightarrow> rat" where
  "pattern_confidence n = min 1 (of_int n / 5)"

definition described :: "string \<Rightarrow> string \<Rightarrow> string \<Rightarrow> string" where
  "described it ek day = py_title (replace_char (CHR ''_'') '' '' it) @ '' with '' @ ek @ '' on '' @ day @ ''s''"

definition pattern_of :: "string \<Rightarrow> string \<Rightarrow> fact \<Rightarrow> string \<Rightarrow> fact_pattern option \<Rightarrow> fact_pattern" where
  "pattern_of pid user f ek old =
     (let day = weekday (fc_created f); n = (case old of None \<Rightarrow> 1 | Some p \<Rightarrow> fp_count p + 1)
      in \<lparr>fp_id = (case old of None \<Rightarrow> pid | Some p \<Rightarrow> fp_id p), fp_user = user, fp_intent = fc_intent f,
          fp_key = pattern_key (fc_intent f) ek day, fp_description = described (fc_intent f) ek day,
          fp_entities = fold (\<lambda>(k, v). dict_set k v) (fc_entities f) [(''day_of_week'', JStr day)],
          fp_count = n, fp_last_seen = fc_created f, fp_confidence = pattern_confidence n\<rparr>)"

definition update_patterns_on_store :: "history_env \<Rightarrow> string \<Rightarrow> string \<Rightarrow> fact \<Rightarrow> history \<Rightarrow> (history_error + unit) \<times> history" where
  "update_patterns_on_store env pid user f h = (case extract_entity_key (hn_text env) (fc_entities f) of
       None \<Rightarrow> (Inr (), h)
     | Some ek \<Rightarrow>
         (let k = pattern_key (fc_intent f) ek (weekday (fc_created f));
              old = find (\<lambda>p. fp_key p = k) (query_patterns user (Some (fc_intent f)) 0 h);
              p = pattern_of pid user f ek old
          in if fact_pattern_ok p then (Inr (), upsert_pattern p h) else (Inl History_invalid, h)))"

definition get_patterns :: "int \<Rightarrow> string \<Rightarrow> string option \<Rightarrow> rat \<Rightarrow> history \<Rightarrow> fact_pattern list" where
  "get_patterns now user it least h =
     filter (\<lambda>p. now - 30 * day_us \<le> fp_last_seen p) (query_patterns user it least h)"

section \<open>Storing and querying\<close>

definition new_fact :: "history_env \<Rightarrow> string \<Rightarrow> string \<Rightarrow> int \<Rightarrow> fact_request \<Rightarrow> fact" where
  "new_fact env fid user now r =
     \<lparr>fc_id = fid, fc_user = user, fc_text = fr_text r, fc_intent = fr_intent r, fc_entities = fr_entities r,
      fc_outcome = fr_outcome r, fc_source_plan = fr_source_plan r,
      fc_hash = compute_fact_hash (hn_digest env) user (fr_intent r) (fr_text r) now, fc_ttl_days = fr_ttl_days r,
      fc_created = now, fc_expires = now + fr_ttl_days r * day_us, fc_deleted = None\<rparr>"

text \<open>\<open>fid\<close> and \<open>pid\<close> are the identifiers of the fact and of a new pattern. This is a store that nothing interrupts and whose
  transactions succeed; the fact, the query of the patterns and the pattern are committed separately in the code, and
  \<open>History_Race\<close> takes them apart.\<close>

definition store_fact :: "history_env \<Rightarrow> string \<Rightarrow> string \<Rightarrow> string \<Rightarrow> int \<Rightarrow> fact_request \<Rightarrow> history \<Rightarrow>
    (history_error + fact_response) \<times> history" where
  "store_fact env fid pid user now r h = (case check_fact now (fr_text r) of
       Some e \<Rightarrow> (Inl e, h)
     | None \<Rightarrow>
         (let f = new_fact env fid user now r
          in if \<not> fact_ok f then (Inl History_invalid, h)
             else (case insert_fact f h of
                 ((g, False), h1) \<Rightarrow> (Inr \<lparr>fs_status = Stored_duplicate, fs_fact_id = fc_id g, fs_stored_at = fc_created g\<rparr>, h1)
               | ((g, True), h1) \<Rightarrow> (case update_patterns_on_store env pid user g h1 of
                     (Inl e, h2) \<Rightarrow> (Inl e, h2)
                   | (Inr _, h2) \<Rightarrow> (Inr \<lparr>fs_status = Stored_new, fs_fact_id = fc_id g, fs_stored_at = fc_created g\<rparr>, h2)))))"

section \<open>Evidence\<close>

datatype evidence_type = Ev_preference | Ev_history | Ev_contact | Ev_plan | Ev_exemplar

record evidence_item =
  ev_type :: evidence_type
  ev_key :: string
  ev_value :: json
  ev_confidence :: rat
  ev_source_ref :: string
  ev_ttl_days :: "int option"
  ev_tier :: int

definition evidence_ok :: "evidence_item \<Rightarrow> bool" where
  "evidence_ok e \<longleftrightarrow> 1 \<le> length (ev_key e) \<and> length (ev_key e) \<le> 128 \<and> 0 \<le> ev_confidence e \<and> ev_confidence e \<le> 1 \<and>
     ev_source_ref e \<noteq> [] \<and> (case ev_ttl_days e of None \<Rightarrow> True | Some d \<Rightarrow> 1 \<le> d) \<and> 1 \<le> ev_tier e \<and> ev_tier e \<le> 4"

definition fact_age :: "int \<Rightarrow> fact \<Rightarrow> int" where
  "fact_age now f = trunc_div (now - fc_created f) day_us"

definition fact_to_evidence :: "int \<Rightarrow> fact \<Rightarrow> evidence_item" where
  "fact_to_evidence now f =
     (let age = fact_age now f
      in \<lparr>ev_type = Ev_history, ev_key = fc_intent f @ ''_'' @ iso_date (fc_created f),
          ev_value = JObj [(''fact'', JStr (fc_text f)), (''intent_type'', JStr (fc_intent f)), (''outcome'', JBool (fc_outcome f)),
            (''entities'', JObj (fc_entities f)), (''age_days'', JInt age)],
          ev_confidence = (if 0 < fc_ttl_days f then max 0 (1 - of_int age / of_int (fc_ttl_days f)) else 0),
          ev_source_ref = ''history:facts/'' @ fc_id f, ev_ttl_days = Some (max 1 (fc_ttl_days f - age)), ev_tier = 3\<rparr>)"

record facts_response =
  fq_evidence :: "evidence_item list"
  fq_total :: nat
  fq_returned :: nat

definition get_facts_by_intent :: "int \<Rightarrow> string \<Rightarrow> string option \<Rightarrow> int \<Rightarrow> int option \<Rightarrow> history \<Rightarrow> history_error + facts_response" where
  "get_facts_by_intent now user it limit recency h =
     (if limit < 1 \<or> 500 < limit then Inl (Bad_query ''limit must be between 1 and 500'')
      else if (case recency of None \<Rightarrow> False | Some d \<Rightarrow> d < 1) then Inl (Bad_query ''recency_days must be >= 1'')
      else (let es = map (fact_to_evidence now)
                  (query_facts now user it (nat limit) (map_option (\<lambda>d. now - d * day_us) recency) h)
            in Inr \<lparr>fq_evidence = es, fq_total = count_facts now user it h, fq_returned = length es\<rparr>))"

end
