(* ===== verification/Plan_Library.thy ===== *)
theory Plan_Library
  imports History_Service Plan_Hasher
begin

text \<open>
  The PlanLibrary (\<open>components/PlanLibrary\<close>): the tables of executed plans, their outcomes and their metrics with the statements
  of \<open>adapters/db.py\<close>, the service (\<open>service/plan_service.py\<close>), the evidence items and the success rates.

  A stored plan is the dictionary a caller dumps. Pydantic's validation of a plan or of constraints, JSON text, SHA-256, \<open>fromisoformat\<close>
  (here the wall clock it yields) and the text of floats and containers are parameters. The callers pass dumps of the shared
  models \<open>PlanOutcome\<close> and \<open>PlanMetrics\<close>, so these arrive as records. A query that meets equal sort keys lists the rows in
  insertion order. The flag of the database says whether it answers.
\<close>

section \<open>Rows\<close>

record outcome_data =
  od_success :: bool
  od_error_type :: "string option"
  od_error_details :: "jobj option"
  od_start :: string
  od_end :: string
  od_total_steps :: int
  od_failed_step :: "int option"
  od_context :: "jobj option"
  od_final_graph :: "jobj option"
  od_revision :: int

record metrics_data =
  mt_preview_ms :: "int option"
  mt_execute_ms :: int
  mt_step_timings :: "jobj list option"
  mt_usage :: "jobj option"

record plan_row =
  pr_plan_id :: string
  pr_plan :: jobj
  pr_signature :: jobj
  pr_intent_type :: string
  pr_step_count :: nat
  pr_hash :: string
  pr_size :: nat
  pr_created :: int
  pr_stored :: int

record outcome_row =
  or_id :: string
  or_plan_id :: string
  or_success :: bool
  or_error_type :: "string option"
  or_error_details :: "jobj option"
  or_start :: int
  or_end :: int
  or_total_steps :: int
  or_failed_step :: "int option"
  or_context :: "jobj option"
  or_final_graph :: "jobj option"
  or_revision :: int

record metrics_row =
  mr_id :: string
  mr_plan_id :: string
  mr_preview_ms :: "int option"
  mr_execute_ms :: int
  mr_usage :: "jobj option"

record library =
  lb_plans :: "plan_row list"
  lb_outcomes :: "outcome_row list"
  lb_metrics :: "metrics_row list"

record library_env =
  ln_up :: bool
  ln_canonical :: "jobj \<Rightarrow> string"
  ln_digest :: "string \<Rightarrow> string"
  ln_iso :: "string \<Rightarrow> int option"
  ln_text :: "json \<Rightarrow> string"
  ln_validate :: "jobj \<Rightarrow> plan option"
  ln_constraints :: "jobj \<Rightarrow> plan_constraints option"
  ln_now_iso :: string
  ln_shown :: "int \<Rightarrow> string"

datatype library_error =
    Bad_plan_id
  | Missing_fields
  | Too_many_steps nat
  | Too_big nat
  | Bad_timestamp
  | Library_invalid
  | Library_type_error
  | Duplicate_plan string
  | Library_db
  | Plan_not_found string

section \<open>Storing\<close>

definition max_stored_size :: nat where
  "max_stored_size = 1048576"

definition max_step_count :: nat where
  "max_step_count = 100"

definition plan_row_ok :: "plan_row \<Rightarrow> bool" where
  "plan_row_ok p \<longleftrightarrow> length (pr_plan_id p) = 26 \<and> re_match False ulid_regex (pr_plan_id p) \<noteq> None \<and> length (pr_intent_type p) \<le> 64 \<and>
     pr_step_count p \<le> max_step_count \<and> length (pr_hash p) \<le> 64 \<and> pr_size p \<le> max_stored_size"

definition outcome_row_ok :: "outcome_row \<Rightarrow> bool" where
  "outcome_row_ok o1 \<longleftrightarrow> length (or_plan_id o1) = 26 \<and> 0 \<le> or_total_steps o1 \<and> 0 \<le> or_revision o1"

text \<open>\<open>PlanMetricsDB\<close> wants a dictionary where \<open>PlanMetrics\<close> has a list.\<close>

definition metrics_ok :: "string \<Rightarrow> metrics_data \<Rightarrow> bool" where
  "metrics_ok pid m \<longleftrightarrow> length pid = 26 \<and> 0 \<le> mt_execute_ms m \<and> mt_step_timings m = None"

definition as_dict :: "json \<Rightarrow> library_error + jobj" where
  "as_dict j = (case j of JObj d \<Rightarrow> Inr d | _ \<Rightarrow> Inl Library_type_error)"

definition checked_id :: "jobj \<Rightarrow> library_error + string" where
  "checked_id p = (let j = jget p ''plan_id'' (JStr []) in
     if \<not> truthy j then Inl Bad_plan_id
     else (case j of JStr s \<Rightarrow> if re_match False ulid_regex s = None then Inl Bad_plan_id else Inr s | _ \<Rightarrow> Inl Library_type_error))"

definition step_count :: "jobj \<Rightarrow> nat" where
  "step_count p = (case jget p ''graph'' (JArr []) of JArr xs \<Rightarrow> length xs | _ \<Rightarrow> 0)"

definition sized :: "library_env \<Rightarrow> jobj \<Rightarrow> library_error + string" where
  "sized env p =
     (if dict_get p ''graph'' = None \<or> dict_get p ''meta'' = None then Inl Missing_fields
      else if max_step_count < step_count p then Inl (Too_many_steps (step_count p))
      else (let c = ln_canonical env p in if max_stored_size < utf8_size c then Inl (Too_big (utf8_size c)) else Inr c))"

text \<open>The intent type, from \<open>intent.intent\<close> or the older \<open>meta.intent_type\<close>; a value that is not a text fails the validation.\<close>

definition intent_type_of :: "jobj \<Rightarrow> jobj \<Rightarrow> json" where
  "intent_type_of i m = (if truthy (jget i ''intent'' JNull) then jget i ''intent'' JNull
     else if truthy (jget m ''intent_type'' JNull) then jget m ''intent_type'' JNull else JStr ''unknown'')"

definition parse_wall :: "library_env \<Rightarrow> string \<Rightarrow> library_error + int" where
  "parse_wall env s = (case ln_iso env s of None \<Rightarrow> Inl Bad_timestamp | Some t \<Rightarrow> Inr t)"

definition created_at :: "library_env \<Rightarrow> int \<Rightarrow> jobj \<Rightarrow> library_error + int" where
  "created_at env now m = (let j = jget m ''created_at'' JNull in
     if \<not> truthy j then Inr now else (case j of JStr s \<Rightarrow> parse_wall env s | _ \<Rightarrow> Inl Library_type_error))"

definition plan_row_of :: "library_env \<Rightarrow> int \<Rightarrow> jobj \<Rightarrow> jobj \<Rightarrow> library_error + plan_row" where
  "plan_row_of env now p sig =
     bind_res (checked_id p) (\<lambda>pid. bind_res (sized env p) (\<lambda>c.
     bind_res (as_dict (jget p ''intent'' (JObj []))) (\<lambda>i. bind_res (as_dict (jget p ''meta'' (JObj []))) (\<lambda>m.
     bind_res (created_at env now m) (\<lambda>t. (case intent_type_of i m of
         JStr it \<Rightarrow>
           (let r = \<lparr>pr_plan_id = pid, pr_plan = p, pr_signature = sig, pr_intent_type = it, pr_step_count = step_count p,
                pr_hash = ln_digest env c, pr_size = utf8_size c, pr_created = t, pr_stored = now\<rparr>
            in if plan_row_ok r then Inr r else Inl Library_invalid)
       | _ \<Rightarrow> Inl Library_invalid))))))"

definition outcome_row_of :: "library_env \<Rightarrow> string \<Rightarrow> string \<Rightarrow> outcome_data \<Rightarrow> library_error + outcome_row" where
  "outcome_row_of env oid pid d =
     bind_res (parse_wall env (od_start d)) (\<lambda>a. bind_res (parse_wall env (od_end d)) (\<lambda>b.
     let r = \<lparr>or_id = oid, or_plan_id = pid, or_success = od_success d, or_error_type = od_error_type d,
          or_error_details = od_error_details d, or_start = a, or_end = b, or_total_steps = od_total_steps d,
          or_failed_step = od_failed_step d, or_context = od_context d, or_final_graph = od_final_graph d, or_revision = od_revision d\<rparr>
     in if outcome_row_ok r then Inr r else Inl Library_invalid))"

definition metrics_row_of :: "string \<Rightarrow> string \<Rightarrow> metrics_data \<Rightarrow> library_error + metrics_row" where
  "metrics_row_of mid pid m =
     (if metrics_ok pid m then Inr \<lparr>mr_id = mid, mr_plan_id = pid, mr_preview_ms = mt_preview_ms m, mr_execute_ms = mt_execute_ms m,
        mr_usage = mt_usage m\<rparr> else Inl Library_invalid)"

text \<open>One transaction: all three rows or none. The primary key of \<open>plans\<close> is the duplicate check.\<close>

definition store_plan_transaction :: "library_env \<Rightarrow> plan_row \<Rightarrow> outcome_row \<Rightarrow> metrics_row \<Rightarrow> library \<Rightarrow> (library_error + unit) \<times> library" where
  "store_plan_transaction env p o1 m l =
     (if \<not> ln_up env then (Inl Library_db, l)
      else if list_ex (\<lambda>q. pr_plan_id q = pr_plan_id p) (lb_plans l) then (Inl (Duplicate_plan (pr_plan_id p)), l)
      else (Inr (), \<lparr>lb_plans = lb_plans l @ [p], lb_outcomes = lb_outcomes l @ [o1], lb_metrics = lb_metrics l @ [m]\<rparr>))"

text \<open>The identifiers of the outcome and the metrics are those the call draws; the answer is the plan's identifier and \<open>stored_at\<close>.\<close>

definition store_plan :: "library_env \<Rightarrow> string \<Rightarrow> string \<Rightarrow> int \<Rightarrow> jobj \<Rightarrow> jobj \<Rightarrow> outcome_data \<Rightarrow> metrics_data \<Rightarrow> library \<Rightarrow>
    (library_error + string \<times> int) \<times> library" where
  "store_plan env oid mid now p sig od md l =
     (case bind_res (plan_row_of env now p sig) (\<lambda>r. bind_res (outcome_row_of env oid (pr_plan_id r) od) (\<lambda>o1.
           bind_res (metrics_row_of mid (pr_plan_id r) md) (\<lambda>m. Inr (r, o1, m)))) of
        Inl e \<Rightarrow> (Inl e, l)
      | Inr (r, o1, m) \<Rightarrow> (case store_plan_transaction env r o1 m l of
            (Inl e, l1) \<Rightarrow> (Inl e, l1)
          | (Inr _, l1) \<Rightarrow> (Inr (pr_plan_id r, now), l1)))"

section \<open>Queries\<close>

definition get_plan_by_id :: "library_env \<Rightarrow> string \<Rightarrow> library \<Rightarrow> library_error + plan_row option" where
  "get_plan_by_id env pid l = (if \<not> ln_up env then Inl Library_db
     else (case find (\<lambda>p. pr_plan_id p = pid) (lb_plans l) of
         None \<Rightarrow> Inr None | Some p \<Rightarrow> if plan_row_ok p then Inr (Some p) else Inl Library_invalid))"

definition outcomes_of :: "library \<Rightarrow> string \<Rightarrow> outcome_row list" where
  "outcomes_of l pid = filter (\<lambda>r. or_plan_id r = pid) (lb_outcomes l)"

definition metrics_of :: "library \<Rightarrow> string \<Rightarrow> metrics_row list" where
  "metrics_of l pid = filter (\<lambda>m. mr_plan_id m = pid) (lb_metrics l)"

text \<open>A left join: a row without partner is joined with \<open>None\<close>.\<close>

definition left_rows :: "'a list \<Rightarrow> 'a option list" where
  "left_rows xs = (if xs = [] then [None] else map Some xs)"

definition average :: "rat list \<Rightarrow> rat option" where
  "average xs = (if xs = [] then None else Some (sum_list xs / of_nat (length xs)))"

definition joined_rows :: "library \<Rightarrow> string \<Rightarrow> (outcome_row option \<times> metrics_row option) list" where
  "joined_rows l pid = concat (map (\<lambda>r. map (\<lambda>m. (r, m)) (left_rows (metrics_of l pid))) (left_rows (outcomes_of l pid)))"

record plan_summary =
  sm_plan :: plan_row
  sm_success_rate :: rat
  sm_executions :: nat
  sm_avg_ms :: rat

text \<open>A missing outcome counts as a failure in the average: \<open>CASE WHEN NULL\<close> takes the \<open>ELSE\<close> branch.\<close>

definition succeeded :: "outcome_row option \<Rightarrow> rat" where
  "succeeded r = (case r of Some x \<Rightarrow> if or_success x then 1 else 0 | None \<Rightarrow> 0)"

definition summary_of :: "library \<Rightarrow> plan_row \<Rightarrow> plan_summary" where
  "summary_of l p = (let rows = joined_rows l (pr_plan_id p)
     in \<lparr>sm_plan = p, sm_success_rate = (case average (map (\<lambda>(r, _). succeeded r) rows) of None \<Rightarrow> 0 | Some a \<Rightarrow> a),
         sm_executions = length (filter (\<lambda>(r, _). r \<noteq> None) rows),
         sm_avg_ms = (case average (concat (map (\<lambda>(_, m). case m of Some x \<Rightarrow> [of_int (mr_execute_ms x)] | None \<Rightarrow> []) rows)) of
             None \<Rightarrow> 0 | Some a \<Rightarrow> a)\<rparr>)"

definition get_plans_by_intent :: "library_env \<Rightarrow> int \<Rightarrow> string \<Rightarrow> rat \<Rightarrow> nat \<Rightarrow> int option \<Rightarrow> library \<Rightarrow> library_error + plan_summary list" where
  "get_plans_by_intent env now it threshold limit recency l =
     (if \<not> ln_up env then Inl Library_db
      else Inr (take limit (sort_key (\<lambda>s. - sm_success_rate s) (sort_key (\<lambda>s. - int (sm_executions s))
        (filter (\<lambda>s. threshold \<le> sm_success_rate s)
          (map (summary_of l) (filter (\<lambda>p. pr_intent_type p = it \<and>
             (case recency of None \<Rightarrow> True | Some d \<Rightarrow> now - d * day_us \<le> pr_stored p)) (lb_plans l))))))))"

definition get_plan_by_hash :: "library_env \<Rightarrow> string \<Rightarrow> library \<Rightarrow> library_error + plan_row option" where
  "get_plan_by_hash env h l = (if \<not> ln_up env then Inl Library_db
     else (case sort_key (\<lambda>p. - pr_stored p) (filter (\<lambda>p. pr_hash p = h \<and> list_ex or_success (outcomes_of l (pr_plan_id p))) (lb_plans l)) of
         [] \<Rightarrow> Inr None | p # _ \<Rightarrow> Inr (Some p)))"

definition get_plan_outcomes :: "library_env \<Rightarrow> string \<Rightarrow> library \<Rightarrow> library_error + outcome_row list" where
  "get_plan_outcomes env pid l = (if \<not> ln_up env then Inl Library_db
     else (let rs = sort_key (\<lambda>r. - or_start r) (outcomes_of l pid)
           in if list_all outcome_row_ok rs then Inr rs else Inl Library_invalid))"

definition get_success_rates :: "library_env \<Rightarrow> int \<Rightarrow> int \<Rightarrow> library \<Rightarrow> library_error + (string, rat) dict" where
  "get_success_rates env now days l = (if \<not> ln_up env then Inl Library_db
     else (let rows = filter (\<lambda>r. now - days * day_us \<le> or_start r) (lb_outcomes l);
               rate = (\<lambda>it. average (map (succeeded \<circ> Some)
                 (filter (\<lambda>r. list_ex (\<lambda>p. pr_plan_id p = or_plan_id r \<and> pr_intent_type p = it) (lb_plans l)) rows)));
               its = remdups (map pr_intent_type (lb_plans l))
           in Inr (concat (map (\<lambda>it. case rate it of None \<Rightarrow> [] | Some q \<Rightarrow> [(it, q)]) its))))"

text \<open>The plans with their latest outcome.\<close>

definition latest_outcome :: "library \<Rightarrow> string \<Rightarrow> outcome_row option" where
  "latest_outcome l pid = (case sort_key (\<lambda>r. - or_start r) (outcomes_of l pid) of [] \<Rightarrow> None | r # _ \<Rightarrow> Some r)"

definition get_all_plans :: "library_env \<Rightarrow> nat \<Rightarrow> library \<Rightarrow> library_error + (plan_row \<times> outcome_row option) list" where
  "get_all_plans env limit l = (if \<not> ln_up env then Inl Library_db
     else Inr (take limit (map (\<lambda>p. (p, latest_outcome l (pr_plan_id p))) (sort_key (\<lambda>p. - pr_stored p) (lb_plans l)))))"

definition plan_user :: "plan_row \<Rightarrow> json" where
  "plan_user p = (case jget (pr_plan p) ''intent'' JNull of JObj d \<Rightarrow> jget d ''user_id'' JNull | _ \<Rightarrow> JNull)"

definition get_plans_by_user :: "library_env \<Rightarrow> string \<Rightarrow> nat \<Rightarrow> bool \<Rightarrow> library \<Rightarrow> library_error + (plan_row \<times> outcome_row option) list" where
  "get_plans_by_user env user limit success_only l = (if \<not> ln_up env then Inl Library_db
     else Inr (take limit (filter (\<lambda>(_, r). success_only \<longrightarrow> (case r of None \<Rightarrow> False | Some x \<Rightarrow> or_success x))
       (map (\<lambda>p. (p, latest_outcome l (pr_plan_id p)))
         (sort_key (\<lambda>p. - pr_stored p) (filter (\<lambda>p. plan_user p = JStr user) (lb_plans l)))))))"

end
