(* ===== verification/Plan_Service.thy ===== *)
theory Plan_Service
  imports Plan_Library
begin

text \<open>
  What the PlanLibrary does with its rows: evidence items (\<open>service/evidence_service.py\<close>), success rates
  (\<open>service/analytics_service.py\<close>) and the clone of a stored plan for a rerun (\<open>clone_plan_for_rerun\<close>).
\<close>

section \<open>Evidence\<close>

text \<open>\<open>round(x, k)\<close>: to the nearest, ties to even.\<close>

definition round_places :: "nat \<Rightarrow> rat \<Rightarrow> rat" where
  "round_places k q = (let x = q * 10 ^ k; n = \<lfloor>x\<rfloor>; r = x - of_int n
     in of_int (if r < 1 / 2 then n else if r > 1 / 2 then n + 1 else if even n then n else n + 1) / 10 ^ k)"

definition to_evidence_item :: "plan_summary \<Rightarrow> library_error + evidence_item" where
  "to_evidence_item s =
     (let p = sm_plan s; it = pr_intent_type p;
          e = \<lparr>ev_type = Ev_plan, ev_key = it @ ''_pattern_'' @ take 8 (pr_plan_id p),
               ev_value = JObj [(''intent'', JStr it), (''success_rate'', JFloat (round_places 3 (sm_success_rate s))),
                 (''avg_execution_time_ms'', JFloat (round_places 1 (sm_avg_ms s))), (''steps_count'', JInt (int (pr_step_count p))),
                 (''pattern_summary'', JStr (it @ '' plan with '' @ show_int (int (pr_step_count p)) @ '' steps''))],
               ev_confidence = min (max (sm_success_rate s) 0) 1, ev_source_ref = ''planlibrary:plans/'' @ pr_plan_id p,
               ev_ttl_days = None, ev_tier = 3\<rparr>
      in if evidence_ok e then Inr e else Inl Library_invalid)"

primrec to_evidence_items :: "plan_summary list \<Rightarrow> library_error + evidence_item list" where
  "to_evidence_items [] = Inr []"
| "to_evidence_items (s # ss) = bind_res (to_evidence_item s) (\<lambda>e. bind_res (to_evidence_items ss) (\<lambda>es. Inr (e # es)))"

definition plans_by_intent :: "library_env \<Rightarrow> int \<Rightarrow> string \<Rightarrow> rat \<Rightarrow> nat \<Rightarrow> int option \<Rightarrow> library \<Rightarrow> library_error + evidence_item list" where
  "plans_by_intent env now it threshold limit recency l =
     bind_res (get_plans_by_intent env now it threshold limit recency l) to_evidence_items"

section \<open>Analytics\<close>

record performance_trends =
  pt_intent :: "string option"
  pt_success_rate :: rat
  pt_total :: nat

definition get_performance_trends :: "library_env \<Rightarrow> int \<Rightarrow> string option \<Rightarrow> library \<Rightarrow> library_error + performance_trends" where
  "get_performance_trends env now it l = bind_res (get_success_rates env now 30 l) (\<lambda>rates.
     let own = (case it of Some t \<Rightarrow> if t = [] then None else dict_get rates t | None \<Rightarrow> None);
         rate = (case own of Some q \<Rightarrow> q | None \<Rightarrow> (case average (map snd rates) of Some a \<Rightarrow> a | None \<Rightarrow> 0))
     in Inr \<lparr>pt_intent = it, pt_success_rate = rate, pt_total = length rates\<rparr>)"

section \<open>Reruns\<close>

text \<open>\<open>{{entities.X}}\<close> in the texts of the arguments; other values are copied.\<close>

definition entity_regex :: regex where
  "entity_regex = seqs [lit ''{{entities.'', plus_of word_re, lit ''}}'']"

primrec substitute_from :: "nat \<Rightarrow> (string \<Rightarrow> string) \<Rightarrow> cursor \<Rightarrow> string" where
  "substitute_from 0 f x = snd x"
| "substitute_from (Suc k) f x = (case snd x of
     [] \<Rightarrow> []
   | c # cs \<Rightarrow> (case re_run False entity_regex x of
         [] \<Rightarrow> c # substitute_from k f (c # fst x, cs)
       | w # _ \<Rightarrow> f (take (length (snd x) - length (snd w)) (snd x)) @ substitute_from k f w))"

text \<open>The name of the entity is what the match has between its eleven first and two last characters.\<close>

definition entity_text :: "(json \<Rightarrow> string) \<Rightarrow> jobj \<Rightarrow> string \<Rightarrow> string" where
  "entity_text txt es m = (case dict_get es (drop 11 (take (length m - 2) m)) of None \<Rightarrow> m | Some v \<Rightarrow> py_str txt v)"

definition substitute_entity_args :: "(json \<Rightarrow> string) \<Rightarrow> jobj \<Rightarrow> jobj \<Rightarrow> jobj" where
  "substitute_entity_args txt es args = map (\<lambda>(k, v). (k, case v of
       JStr s \<Rightarrow> JStr (substitute_from (length s) (entity_text txt es) ([], s)) | _ \<Rightarrow> v)) args"

definition clone_step :: "(json \<Rightarrow> string) \<Rightarrow> jobj \<Rightarrow> plan_step \<Rightarrow> plan_step" where
  "clone_step txt es s = s \<lparr>ps_status := Pending, ps_result := None, ps_error := None, ps_dry_run := True,
     ps_args := substitute_entity_args txt es (ps_args s)\<rparr>"

primrec clone_steps :: "(json \<Rightarrow> string) \<Rightarrow> jobj \<Rightarrow> plan_step list \<Rightarrow> library_error + plan_step list" where
  "clone_steps txt es [] = Inr []"
| "clone_steps txt es (s # ss) = (let c = clone_step txt es s
     in if plan_step_ok c then bind_res (clone_steps txt es ss) (\<lambda>cs. Inr (c # cs)) else Inl Library_invalid)"

definition clone_intent :: "intent \<Rightarrow> jobj \<Rightarrow> jobj option \<Rightarrow> string \<Rightarrow> string \<Rightarrow> intent" where
  "clone_intent i es override user trace =
     \<lparr>in_intent = in_intent i, in_entities = es, in_constraints = (case override of None \<Rightarrow> in_constraints i | Some c \<Rightarrow> c),
      in_tz = in_tz i, in_user_id = user, in_context_budget = None, in_session_id = in_session_id i, in_trace_id = Some trace,
      in_sub_intents = [], in_tool_overrides = []\<rparr>"

text \<open>The new plan and the \<open>rerun_source\<close> its metadata carry beside the declared fields.\<close>

definition clone_plan_for_rerun :: "library_env \<Rightarrow> string \<Rightarrow> string \<Rightarrow> jobj \<Rightarrow> string \<Rightarrow> string \<Rightarrow> jobj option \<Rightarrow> library \<Rightarrow>
    library_error + plan \<times> string" where
  "clone_plan_for_rerun env new_id source es user trace override l =
     bind_res (get_plan_by_id env source l) (\<lambda>row. (case row of
         None \<Rightarrow> Inl (Plan_not_found source)
       | Some r \<Rightarrow> (case ln_validate env (pr_plan r) of
           None \<Rightarrow> Inl Library_invalid
         | Some p \<Rightarrow> bind_res (clone_steps (ln_text env) es (pl_graph p)) (\<lambda>steps.
             (case (case override of None \<Rightarrow> Some (pl_constraints p) | Some c \<Rightarrow> ln_constraints env c) of
                 None \<Rightarrow> Inl Library_invalid
               | Some pc \<Rightarrow>
                   (let i = clone_intent (pl_intent p) es override user trace;
                        canonical = ln_canonical env [(''plan_id'', JStr new_id), (''intent'', intent_dump i (ln_shown env)),
                          (''graph'', JArr (map (JObj \<circ> step_dump) steps)), (''constraints'', constraints_dump pc)];
                        q = \<lparr>pl_plan_id = new_id, pl_intent = i, pl_trace_id = Some trace, pl_graph = steps, pl_constraints = pc,
                             pl_plugins = pl_plugins p, pl_meta = \<lparr>pm_created_at = ln_now_iso env, pm_author = ''planner@system'',
                               pm_version = ''v2.0.0'', pm_canonical_hash = ln_digest env canonical\<rparr>, pl_plan_revision = 0\<rparr>
                    in if plan_ok q then Inr (q, source) else Inl Library_invalid))))))"

end
