(* ===== verification/History_Laws.thy ===== *)
theory History_Laws
  imports History_Service
begin

text \<open>
  What the History keeps: no stored fact holds a text the checks refuse, storing is idempotent within a day, and the
  table of patterns counts the stored facts. \<open>history_run\<close> is any sequence of stores, clean-ups and deletions; a
  request reaches the service only if Pydantic accepted it.
\<close>

datatype history_event =
    Store string string string int fact_request
  | Cleanup int
  | Purge int int

definition history_step :: "history_env \<Rightarrow> history_event \<Rightarrow> history \<Rightarrow> history" where
  "history_step env e h = (case e of
       Store fid pid user now r \<Rightarrow> if fact_request_ok r then snd (store_fact env fid pid user now r h) else h
     | Cleanup now \<Rightarrow> snd (cleanup_expired_facts now h)
     | Purge now days \<Rightarrow> snd (hard_delete_old_facts now days h))"

definition history_run :: "history_env \<Rightarrow> history_event list \<Rightarrow> history" where
  "history_run env es = fold (history_step env) es \<lparr>hi_facts = [], hi_patterns = []\<rparr>"

section \<open>Well-formed tables\<close>

definition stored_fact_ok :: "fact \<Rightarrow> bool" where
  "stored_fact_ok f \<longleftrightarrow> fact_ok f \<and> fc_intent f \<noteq> [] \<and> strip (fc_text f) \<noteq> [] \<and> utf8_size (fc_text f) \<le> 4096 \<and>
     detect_pii (fc_text f) = None \<and> fc_expires f = fc_created f + fc_ttl_days f * day_us"

definition fact_index :: "fact \<Rightarrow> string \<times> string" where
  "fact_index f = (fc_user f, fc_hash f)"

definition pattern_index :: "fact_pattern \<Rightarrow> string \<times> string \<times> string" where
  "pattern_index p = (fp_user p, fp_intent p, fp_key p)"

definition stored_pattern_ok :: "fact_pattern \<Rightarrow> bool" where
  "stored_pattern_ok p \<longleftrightarrow> fact_pattern_ok p \<and> fp_confidence p = pattern_confidence (fp_count p)"

definition history_ok :: "history \<Rightarrow> bool" where
  "history_ok h \<longleftrightarrow> list_all stored_fact_ok (hi_facts h) \<and> distinct (map fact_index (filter active (hi_facts h))) \<and>
     list_all stored_pattern_ok (hi_patterns h) \<and> distinct (map pattern_index (hi_patterns h))"

lemma distinct_subfilter: "distinct (map f (filter P xs)) \<Longrightarrow> distinct (map f (filter P (filter Q xs)))"
  by (induction xs) auto

lemma check_fact_None: "check_fact now s = None \<longleftrightarrow> strip s \<noteq> [] \<and> utf8_size s \<le> 4096 \<and> detect_pii s = None"
  by (cases "detect_pii s") (auto simp: check_fact_def check_that_def strip_def lstrip_def rstrip_def)

lemma same_fact_index: "same_fact f g \<longleftrightarrow> active g \<and> fact_index g = fact_index f"
  by (auto simp: same_fact_def fact_index_def)

lemma same_pattern_index: "same_pattern p q \<longleftrightarrow> pattern_index q = pattern_index p"
  by (auto simp: same_pattern_def pattern_index_def)

lemma insert_fact_ok:
  assumes "history_ok h" "stored_fact_ok f" "active f"
  shows "history_ok (snd (insert_fact f h))"
proof (cases "find (same_fact f) (hi_facts h)")
  case None
  then have "fact_index f \<notin> fact_index ` {x \<in> set (hi_facts h). active x}"
    by (auto simp: find_None_iff same_fact_index)
  with None assms show ?thesis by (auto simp: insert_fact_def history_ok_def)
qed (use assms in \<open>simp add: insert_fact_def\<close>)

lemma insert_fact_result:
  "insert_fact f h = ((g, new), h') \<Longrightarrow> hi_patterns h' = hi_patterns h \<and> (new \<longrightarrow> g = f \<and> hi_facts h' = hi_facts h @ [f]) \<and> (\<not> new \<longrightarrow> h' = h)"
  by (auto simp: insert_fact_def split: option.splits)

lemma upserted:
  "hi_facts (upsert_pattern p h) = hi_facts h"
  "hi_patterns (upsert_pattern p h) = (if list_ex (same_pattern p) (hi_patterns h)
     then map (\<lambda>q. if same_pattern p q then p \<lparr>fp_id := fp_id q\<rparr> else q) (hi_patterns h) else hi_patterns h @ [p])"
  by (auto simp: upsert_pattern_def same_pattern_def)

lemma upsert_ok:
  assumes "history_ok h" "stored_pattern_ok p"
  shows "history_ok (upsert_pattern p h)"
proof -
  have id: "stored_pattern_ok (p \<lparr>fp_id := i\<rparr>)" "pattern_index (p \<lparr>fp_id := i\<rparr>) = pattern_index p" for i
    using assms(2) by (simp_all add: stored_pattern_ok_def fact_pattern_ok_def pattern_index_def)
  have "map pattern_index (map (\<lambda>q. if same_pattern p q then p \<lparr>fp_id := fp_id q\<rparr> else q) qs) = map pattern_index qs" for qs
    by (induction qs) (auto simp: id same_pattern_index)
  moreover have "list_all stored_pattern_ok (map (\<lambda>q. if same_pattern p q then p \<lparr>fp_id := fp_id q\<rparr> else q) (hi_patterns h))"
    using assms(1) id by (auto simp: history_ok_def list_all_iff)
  moreover have "distinct (map pattern_index (hi_patterns h @ [p]))" if "\<not> list_ex (same_pattern p) (hi_patterns h)"
    using assms(1) that by (auto simp: history_ok_def list_ex_iff same_pattern_index)
  ultimately show ?thesis
    using assms unfolding history_ok_def upserted by (auto simp del: map_map)
qed

lemma pattern_of_stored:
  "fact_pattern_ok (pattern_of pid user f ek old) \<Longrightarrow> stored_pattern_ok (pattern_of pid user f ek old)"
  by (simp add: stored_pattern_ok_def pattern_of_def Let_def)

lemma update_patterns_facts: "hi_facts (snd (update_patterns_on_store env pid user f h)) = hi_facts h"
  by (simp add: update_patterns_on_store_def Let_def upserted split: option.split)

lemma update_patterns_ok:
  "history_ok h \<Longrightarrow> history_ok (snd (update_patterns_on_store env pid user f h))"
  by (auto simp: update_patterns_on_store_def Let_def upsert_ok pattern_of_stored split: option.split)

text \<open>A store refuses, finds a duplicate, or appends a fact and updates its pattern.\<close>

lemma store_fact_cases:
  obtains (refused) e where "store_fact env fid pid user now r h = (Inl e, h)"
  | (duplicate) g where "store_fact env fid pid user now r h =
      (Inr \<lparr>fs_status = Stored_duplicate, fs_fact_id = fc_id g, fs_stored_at = fc_created g\<rparr>, h)"
      "find (same_fact (new_fact env fid user now r)) (hi_facts h) = Some g"
      "check_fact now (fr_text r) = None" "fact_ok (new_fact env fid user now r)"
  | (new) f h1 where "f = new_fact env fid user now r" "check_fact now (fr_text r) = None" "fact_ok f" "insert_fact f h = ((f, True), h1)"
      "store_fact env fid pid user now r h =
        ((case fst (update_patterns_on_store env pid user f h1) of Inl e \<Rightarrow> Inl e
          | Inr _ \<Rightarrow> Inr \<lparr>fs_status = Stored_new, fs_fact_id = fid, fs_stored_at = now\<rparr>),
         snd (update_patterns_on_store env pid user f h1))"
proof (cases "check_fact now (fr_text r)")
  case (Some e)
  then show thesis using refused by (simp add: store_fact_def)
next
  case None
  let ?f = "new_fact env fid user now r"
  show thesis
  proof (cases "fact_ok ?f")
    case False
    then show thesis using refused None by (simp add: store_fact_def Let_def)
  next
    case True
    show thesis
    proof (cases "find (same_fact ?f) (hi_facts h)")
      case (Some g)
      then show thesis using duplicate None True by (simp add: store_fact_def Let_def insert_fact_def)
    next
      case nf: None
      then have i: "insert_fact ?f h = ((?f, True), h \<lparr>hi_facts := hi_facts h @ [?f]\<rparr>)" by (simp add: insert_fact_def)
      show thesis
        by (rule new [OF refl None True i])
          (use None True i in \<open>simp add: store_fact_def Let_def new_fact_def split: prod.split sum.split\<close>)
    qed
  qed
qed

lemma new_fact_stored:
  "check_fact now (fr_text r) = None \<Longrightarrow> fact_request_ok r \<Longrightarrow> fact_ok (new_fact env fid user now r) \<Longrightarrow>
     stored_fact_ok (new_fact env fid user now r) \<and> active (new_fact env fid user now r)"
  by (simp add: stored_fact_ok_def check_fact_None fact_request_ok_def new_fact_def active_def)

lemma store_fact_ok:
  assumes "history_ok h" "fact_request_ok r"
  shows "history_ok (snd (store_fact env fid pid user now r h))"
proof (cases rule: store_fact_cases [of env fid pid user now r h])
  case (new f h1)
  then have "history_ok h1" using insert_fact_ok [OF assms(1), of f] new_fact_stored assms(2) by (metis snd_conv)
  with new show ?thesis by (simp add: update_patterns_ok)
qed (use assms in simp_all)

lemma cleanup_ok: "history_ok h \<Longrightarrow> history_ok (snd (cleanup_expired_facts now h))"
proof -
  assume h: "history_ok h"
  let ?clean = "\<lambda>f. if fc_expires f < now \<and> active f then f \<lparr>fc_deleted := Some now\<rparr> else f"
  have "map fact_index (filter active (map ?clean fs)) = map fact_index (filter active (filter (\<lambda>f. \<not> fc_expires f < now) fs))" for fs
    by (induction fs) (auto simp: active_def fact_index_def)
  moreover have "distinct (map fact_index (filter active (filter (\<lambda>f. \<not> fc_expires f < now) (hi_facts h))))"
    using h by (simp add: history_ok_def distinct_subfilter del: filter_filter)
  ultimately show ?thesis
    using h by (auto simp: history_ok_def cleanup_expired_facts_def Let_def list_all_iff stored_fact_ok_def fact_ok_def)
qed

lemma purge_ok: "history_ok h \<Longrightarrow> history_ok (snd (hard_delete_old_facts now days h))"
  by (simp add: history_ok_def hard_delete_old_facts_def Let_def list_all_iff distinct_subfilter del: filter_filter)

lemma history_step_ok: "history_ok h \<Longrightarrow> history_ok (history_step env e h)"
  by (cases e) (simp_all add: history_step_def store_fact_ok cleanup_ok purge_ok)

lemma history_run_ok: "history_ok (history_run env es)"
proof -
  have "history_ok (fold (history_step env) es h)" if "history_ok h" for h
    using that by (induction es arbitrary: h) (simp_all add: history_step_ok)
  moreover have "history_ok \<lparr>hi_facts = [], hi_patterns = []\<rparr>" by (simp add: history_ok_def)
  ultimately show ?thesis unfolding history_run_def by blast
qed

section \<open>What the patterns count\<close>

text \<open>The pattern a fact belongs to, if its columns can hold it.\<close>

definition fact_key :: "history_env \<Rightarrow> fact \<Rightarrow> (string \<times> string \<times> string) option" where
  "fact_key env f = (case extract_entity_key (hn_text env) (fc_entities f) of
       None \<Rightarrow> None
     | Some ek \<Rightarrow> (let p = pattern_of [] (fc_user f) f ek None in if fact_pattern_ok p then Some (pattern_index p) else None))"

definition pattern_count :: "history \<Rightarrow> string \<times> string \<times> string \<Rightarrow> int" where
  "pattern_count h k = (case find (\<lambda>p. pattern_index p = k) (hi_patterns h) of None \<Rightarrow> 0 | Some p \<Rightarrow> fp_count p)"

definition facts_with :: "history_env \<Rightarrow> history \<Rightarrow> string \<times> string \<times> string \<Rightarrow> nat" where
  "facts_with env h k = length (filter (\<lambda>f. fact_key env f = Some k) (hi_facts h))"

lemma find_SomeD: "find P xs = Some x \<Longrightarrow> x \<in> set xs \<and> P x"
  by (induction xs) (auto split: if_splits)

lemma find_total: "x \<in> set xs \<Longrightarrow> P x \<Longrightarrow> \<exists>y. find P xs = Some y"
  by (induction xs) auto

lemma find_snoc: "find P (xs @ [y]) = (case find P xs of None \<Rightarrow> if P y then Some y else None | Some x \<Rightarrow> Some x)"
  by (induction xs) auto

lemma pattern_of_index: "pattern_index (pattern_of pid user f ek old) = (user, fc_intent f, pattern_key (fc_intent f) ek (weekday (fc_created f)))"
  by (simp add: pattern_of_def pattern_index_def Let_def)

lemma pattern_count_iff:
  assumes "distinct (map pattern_index (hi_patterns h))" "p \<in> set (hi_patterns h)"
  shows "pattern_count h (pattern_index p) = fp_count p"
proof -
  have "\<exists>q. find (\<lambda>q. pattern_index q = pattern_index p) (hi_patterns h) = Some q"
    using assms(2) by (rule find_total) simp
  then obtain q where q: "find (\<lambda>q. pattern_index q = pattern_index p) (hi_patterns h) = Some q" by blast
  then have "q \<in> set (hi_patterns h)" "pattern_index q = pattern_index p" using find_SomeD [OF q] by simp_all
  then have "q = p" using assms by (simp add: distinct_map inj_on_def)
  with q show ?thesis by (simp add: pattern_count_def)
qed

text \<open>The lookup of the service finds the row of the pattern.\<close>

lemma find_pattern:
  assumes "history_ok h" "it \<noteq> []"
  shows "find (\<lambda>p. fp_key p = k) (query_patterns user (Some it) 0 h) =
    find (\<lambda>p. pattern_index p = (user, it, k)) (hi_patterns h)"
proof -
  let ?qs = "query_patterns user (Some it) 0 h"
  have mem: "p \<in> set ?qs \<and> fp_key p = k \<longleftrightarrow> p \<in> set (hi_patterns h) \<and> pattern_index p = (user, it, k)" for p
    using assms by (auto simp: query_patterns_def pattern_index_def history_ok_def list_all_iff stored_pattern_ok_def fact_pattern_ok_def)
  have one: "p = q" if "p \<in> set (hi_patterns h)" "q \<in> set (hi_patterns h)" "pattern_index p = pattern_index q" for p q
    using assms(1) that by (auto simp: history_ok_def distinct_map inj_on_def)
  show ?thesis
  proof (cases "find (\<lambda>p. pattern_index p = (user, it, k)) (hi_patterns h)")
    case None
    then have "find (\<lambda>p. fp_key p = k) ?qs = None" using mem by (auto simp: find_None_iff)
    with None show ?thesis by simp
  next
    case (Some p)
    then have p: "p \<in> set (hi_patterns h)" "pattern_index p = (user, it, k)" using find_SomeD [OF Some] by simp_all
    then obtain q where q: "find (\<lambda>p. fp_key p = k) ?qs = Some q" using find_total [of p ?qs "\<lambda>p. fp_key p = k"] mem by blast
    then have "q \<in> set ?qs \<and> fp_key q = k" by (rule find_SomeD)
    then have "q = p" using mem one p by metis
    with q Some show ?thesis by simp
  qed
qed

lemma upsert_count:
  "distinct (map pattern_index (hi_patterns h)) \<Longrightarrow>
     pattern_count (upsert_pattern p h) k = (if k = pattern_index p then fp_count p else pattern_count h k)"
proof -
  assume d: "distinct (map pattern_index (hi_patterns h))"
  have "find (\<lambda>q. pattern_index q = k) (map (\<lambda>q. if same_pattern p q then p \<lparr>fp_id := fp_id q\<rparr> else q) qs) =
    (if k = pattern_index p then map_option (\<lambda>q. p \<lparr>fp_id := fp_id q\<rparr>) (find (\<lambda>q. pattern_index q = k) qs)
     else find (\<lambda>q. pattern_index q = k) qs)" for qs
    by (induction qs) (auto simp: same_pattern_index pattern_index_def)
  moreover have "find (\<lambda>q. pattern_index q = pattern_index p) (hi_patterns h) \<noteq> None" if "list_ex (same_pattern p) (hi_patterns h)"
    using that by (auto simp: find_None_iff list_ex_iff same_pattern_index)
  moreover have "find (\<lambda>q. pattern_index q = pattern_index p) (hi_patterns h) = None" if "\<not> list_ex (same_pattern p) (hi_patterns h)"
    using that by (auto simp: find_None_iff list_ex_iff same_pattern_index)
  ultimately show ?thesis unfolding pattern_count_def upserted by (auto simp: find_snoc split: option.split)
qed

lemma update_counts:
  assumes "history_ok h" "fc_intent f \<noteq> []"
  shows "pattern_count (snd (update_patterns_on_store env pid (fc_user f) f h)) k =
    pattern_count h k + (if fact_key env f = Some k then 1 else 0)"
proof (cases "extract_entity_key (hn_text env) (fc_entities f)")
  case None
  then show ?thesis by (simp add: update_patterns_on_store_def fact_key_def)
next
  case (Some ek)
  let ?i = "(fc_user f, fc_intent f, pattern_key (fc_intent f) ek (weekday (fc_created f)))"
  define old where "old = find (\<lambda>p. pattern_index p = ?i) (hi_patterns h)"
  define p where "p = pattern_of pid (fc_user f) f ek old"
  have upd: "update_patterns_on_store env pid (fc_user f) f h =
      (if fact_pattern_ok p then (Inr (), upsert_pattern p h) else (Inl History_invalid, h))"
    using Some find_pattern [OF assms] by (simp add: update_patterns_on_store_def Let_def p_def old_def)
  have old_ok: "1 \<le> fp_count q" if "old = Some q" for q
    using find_SomeD [of _ "hi_patterns h" q] that assms(1)
    by (auto simp: old_def history_ok_def list_all_iff stored_pattern_ok_def fact_pattern_ok_def)
  have "fact_pattern_ok p \<longleftrightarrow> fact_pattern_ok (pattern_of [] (fc_user f) f ek None)"
    using old_ok by (auto simp: p_def fact_pattern_ok_def pattern_of_def Let_def pattern_confidence_def split: option.split)
  then have key: "fact_key env f = (if fact_pattern_ok p then Some ?i else None)"
    using Some by (simp add: fact_key_def Let_def pattern_of_index)
  have "fp_count p = pattern_count h ?i + 1"
    by (simp add: p_def pattern_count_def old_def pattern_of_def Let_def split: option.split)
  then show ?thesis
    using upsert_count [of h p k] assms(1) upd key by (auto simp: history_ok_def p_def pattern_of_index)
qed

definition keeps_rows :: "history_event \<Rightarrow> bool" where
  "keeps_rows e \<longleftrightarrow> (case e of Purge _ _ \<Rightarrow> False | _ \<Rightarrow> True)"

lemma fact_key_deleted [simp]: "fact_key env (f \<lparr>fc_deleted := t\<rparr>) = fact_key env f"
  by (simp add: fact_key_def pattern_of_def pattern_index_def fact_pattern_ok_def Let_def split: option.split)

lemma step_counts:
  assumes "history_ok h" "keeps_rows e"
  shows "pattern_count (history_step env e h) k - int (facts_with env (history_step env e h) k) = pattern_count h k - int (facts_with env h k)"
proof (cases e)
  case (Store fid pid user now r)
  show ?thesis
  proof (cases "fact_request_ok r")
    case ok: True
    show ?thesis
    proof (cases rule: store_fact_cases [of env fid pid user now r h])
      case (new f h1)
      have f: "stored_fact_ok f" "active f" "fc_user f = user" "fc_intent f \<noteq> []"
        using new_fact_stored [OF new(2) ok] new(1,3) ok by (simp_all add: new_fact_def fact_request_ok_def)
      have h1: "history_ok h1" "hi_patterns h1 = hi_patterns h" "hi_facts h1 = hi_facts h @ [f]"
        using insert_fact_ok [OF assms(1) f(1,2)] insert_fact_result [OF new(4)] new(4) by simp_all
      have "pattern_count h1 k = pattern_count h k" by (simp add: pattern_count_def h1(2))
      then show ?thesis
        using update_counts [OF h1(1) f(4), of env pid k] h1(3) f(3) Store ok new(5)
        by (simp add: history_step_def facts_with_def update_patterns_facts)
    qed (use Store ok in \<open>simp_all add: history_step_def\<close>)
  qed (use Store in \<open>simp add: history_step_def\<close>)
next
  case (Cleanup now)
  let ?clean = "\<lambda>f. if fc_expires f < now \<and> active f then f \<lparr>fc_deleted := Some now\<rparr> else f"
  have "length (filter (\<lambda>f. fact_key env f = Some k) (map ?clean fs)) = length (filter (\<lambda>f. fact_key env f = Some k) fs)" for fs
    by (induction fs) auto
  then show ?thesis using Cleanup by (simp add: history_step_def cleanup_expired_facts_def Let_def facts_with_def pattern_count_def)
qed (use assms(2) in \<open>simp add: keeps_rows_def\<close>)


text \<open>When every store runs alone and no old row is removed, the pattern of a user, an intent and a key has been seen as often
  as there are stored facts of this user and intent with this entity on this day of the week. (\<open>History_Race\<close> has
  the concurrent case.)\<close>

lemma sequential_counts:
  assumes "list_all keeps_rows es"
  shows "pattern_count (history_run env es) k = int (facts_with env (history_run env es) k)"
proof -
  have "pattern_count (fold (history_step env) es h) k - int (facts_with env (fold (history_step env) es h) k) =
      pattern_count h k - int (facts_with env h k)" if "history_ok h" "list_all keeps_rows es" for h
    using that by (induction es arbitrary: h) (simp_all add: step_counts history_step_ok)
  from this [of "\<lparr>hi_facts = [], hi_patterns = []\<rparr>"] show ?thesis
    using assms by (simp add: history_run_def history_ok_def pattern_count_def facts_with_def)
qed

definition history_demo :: history_env where
  "history_demo = \<lparr>hn_digest = (\<lambda>s. s), hn_text = (\<lambda>_. [])\<rparr>"

definition met_alice :: fact_request where
  "met_alice = \<lparr>fr_text = ''Scheduled meeting'', fr_intent = ''schedule_meeting'', fr_entities = [(''person'', JStr ''Alice'')],
     fr_outcome = True, fr_source_plan = None, fr_ttl_days = 30\<rparr>"

text \<open>C38. Storing is idempotent within a day. When a fact was stored or found, the same request of the same user on the same day
  is answered as a duplicate with the same identifier and leaves the tables unchanged.\<close>

theorem store_fact_idempotent:
  assumes "store_fact env fid pid user now r h = (Inr a, h1)" "day_of now' = day_of now"
  shows "store_fact env fid' pid' user now' r h1 = (Inr (a \<lparr>fs_status := Stored_duplicate\<rparr>), h1)"
proof -
  have same: "same_fact (new_fact env fid' user now' r) = same_fact (new_fact env fid user now r)"
    using assms(2) by (simp add: fun_eq_iff same_fact_def new_fact_def compute_fact_hash_def iso_date_def)
  have found: "\<exists>g. find (same_fact (new_fact env fid user now r)) (hi_facts h1) = Some g \<and> fc_id g = fs_fact_id a \<and> fc_created g = fs_stored_at a"
    and ok: "check_fact now (fr_text r) = None" "fact_ok (new_fact env fid user now r)"
  proof (atomize (full), cases rule: store_fact_cases [of env fid pid user now r h])
    case (new f h1')
    have "hi_facts h1 = hi_facts h @ [f]" "find (same_fact f) (hi_facts h) = None" "same_fact f f" "fs_fact_id a = fid" "fc_id f = fid"
      "fs_stored_at a = now" "fc_created f = now"
      using new assms(1) insert_fact_result [OF new(4)] by (auto simp: update_patterns_facts insert_fact_def same_fact_def active_def new_fact_def split: option.splits sum.splits)
    then show "(\<exists>g. find (same_fact (new_fact env fid user now r)) (hi_facts h1) = Some g \<and> fc_id g = fs_fact_id a \<and> fc_created g = fs_stored_at a) \<and>
        check_fact now (fr_text r) = None \<and> fact_ok (new_fact env fid user now r)"
      using new(1-3) by (simp add: find_snoc)
  qed (use assms(1) in auto)
  have "check_fact now' (fr_text r) = None" using ok(1) by (simp add: check_fact_None)
  moreover have "fact_ok (new_fact env fid' user now' r)"
    using ok(2) assms(2) by (simp add: fact_ok_def new_fact_def compute_fact_hash_def iso_date_def)
  ultimately show ?thesis using found same by (auto simp: store_fact_def Let_def insert_fact_def)
qed


theorem store_fact_idempotent_witness:
  "fst (store_fact history_demo ''f2'' ''p2'' ''u'' 5 met_alice (snd (store_fact history_demo ''f1'' ''p1'' ''u'' 0 met_alice \<lparr>hi_facts = [], hi_patterns = []\<rparr>)))
     = Inr \<lparr>fs_status = Stored_duplicate, fs_fact_id = ''f1'', fs_stored_at = 0\<rparr>"
proof -
  have first: "fst (store_fact history_demo ''f1'' ''p1'' ''u'' 0 met_alice \<lparr>hi_facts = [], hi_patterns = []\<rparr>) =
    Inr \<lparr>fs_status = Stored_new, fs_fact_id = ''f1'', fs_stored_at = 0\<rparr>" by code_simp
  obtain h1 where "store_fact history_demo ''f1'' ''p1'' ''u'' 0 met_alice \<lparr>hi_facts = [], hi_patterns = []\<rparr> =
    (Inr \<lparr>fs_status = Stored_new, fs_fact_id = ''f1'', fs_stored_at = 0\<rparr>, h1)" using first by (metis prod.collapse)
  moreover have "day_of 5 = day_of 0" by (simp add: day_of_def day_us_def)
  ultimately show ?thesis using store_fact_idempotent [of history_demo "''f1''" "''p1''" "''u''" 0 met_alice _ _ h1 5 "''f2''" "''p2''"] by simp
qed


section \<open>Queries\<close>

lemma current_age:
  assumes "stored_fact_ok f" "fc_created f \<le> now" "now < fc_expires f"
  shows "0 \<le> fact_age now f \<and> fact_age now f < fc_ttl_days f"
proof -
  have d: "(0 :: int) < day_us" by (simp add: day_us_def)
  have "fact_age now f = (now - fc_created f) div day_us" using assms(2) by (simp add: fact_age_def trunc_div_def)
  moreover have "now - fc_created f < fc_ttl_days f * day_us" using assms(1,3) by (simp add: stored_fact_ok_def)
  moreover have "(now - fc_created f) div day_us * day_us \<le> now - fc_created f"
    using d by (simp add: minus_mod_eq_div_mult [symmetric])
  ultimately have "fact_age now f * day_us < fc_ttl_days f * day_us" by simp
  then have "fact_age now f < fc_ttl_days f" using d by simp
  then show ?thesis using assms(2) d by (simp add: fact_age_def trunc_div_def pos_imp_zdiv_nonneg_iff)
qed

text \<open>What a query answers is evidence: at most as much as was asked, with a confidence in (0, 1] and a lifetime that remains.\<close>

lemma queried_evidence:
  assumes "get_facts_by_intent now user it limit recency h = Inr q" "history_ok h" "\<forall>f\<in>set (hi_facts h). fc_created f \<le> now"
    "e \<in> set (fq_evidence q)"
  shows "0 < ev_confidence e \<and> ev_confidence e \<le> 1 \<and> (\<exists>d\<ge>1. ev_ttl_days e = Some d)"
proof -
  obtain f where f: "f \<in> set (hi_facts h)" "now < fc_expires f" "e = fact_to_evidence now f"
    using assms(1,4) by (auto simp: get_facts_by_intent_def query_facts_def current_def Let_def split: if_splits dest!: in_set_takeD)
  have ok: "stored_fact_ok f" using assms(2) f(1) by (simp add: history_ok_def list_all_iff)
  note a = current_age [OF ok _ f(2)]
  then have "0 \<le> fact_age now f" "fact_age now f < fc_ttl_days f" using assms(3) f(1) by auto
  then have "0 < ev_confidence e" "ev_confidence e \<le> 1" "ev_ttl_days e = Some (fc_ttl_days f - fact_age now f)" "1 \<le> fc_ttl_days f - fact_age now f"
    by (auto simp: f(3) fact_to_evidence_def Let_def field_simps)
  then show ?thesis by blast
qed

lemma queried_amount:
  assumes "get_facts_by_intent now user it limit recency h = Inr q"
  shows "int (fq_returned q) \<le> limit" "fq_returned q = length (fq_evidence q)" "fq_returned q \<le> fq_total q"
proof -
  define c where "c = map_option (\<lambda>d. now - d * day_us) recency"
  have q: "fq_evidence q = map (fact_to_evidence now) (query_facts now user it (nat limit) c h)" "fq_total q = count_facts now user it h"
    "fq_returned q = length (fq_evidence q)" "1 \<le> limit"
    using assms by (auto simp: get_facts_by_intent_def c_def Let_def split: if_splits)
  have "length (filter (\<lambda>f. current now user it f \<and> P f) xs) \<le> length (filter (current now user it) xs)" for P xs
    by (induction xs) auto
  then show "int (fq_returned q) \<le> limit" "fq_returned q = length (fq_evidence q)" "fq_returned q \<le> fq_total q"
    using q by (simp_all add: query_facts_def count_facts_def min.coboundedI1 min_le_iff_disj le_nat_iff)
qed

end
