(* ===== verification/Plan_Writer.thy ===== *)
theory Plan_Writer
  imports Plan_Service History_Laws
begin

text \<open>
  The PlanWriter (\<open>components/PlanWriter\<close>): the derivation of a fact from an executed plan (\<open>adapters/fact_deriver.py\<close>) and the
  writes to PlanLibrary, History and VectorIndex (\<open>service/plan_writer_service.py\<close>), on the models of the first two; the
  index is a parameter, absent when it is not configured. The flag \<open>wn_history_up\<close> says whether the History's database answers.
  A user identifier is the text of a UUID.
\<close>

section \<open>Facts of plans\<close>

definition action_verbs :: "(string \<times> string) list" where
  "action_verbs = [(''book'', ''Booked''), (''schedule'', ''Scheduled''), (''search'', ''Searched''), (''send'', ''Sent''),
     (''create'', ''Created''), (''update'', ''Updated''), (''delete'', ''Deleted''), (''cancel'', ''Cancelled''), (''check'', ''Checked''),
     (''get'', ''Retrieved''), (''find'', ''Found''), (''set'', ''Set''), (''add'', ''Added''), (''remove'', ''Removed'')]"

definition action_summary :: "string \<Rightarrow> string" where
  "action_summary it = (if it = ''unknown'' then ''execute action''
     else (let parts = split_on (CHR ''_'') it; verb = lower (hd parts); more = join_with '' '' (tl parts);
               past = (case map_of action_verbs verb of Some v \<Rightarrow> v | None \<Rightarrow> py_capitalize verb @ ''ed'')
           in if more = [] then past else past @ '' '' @ more))"

definition prepositions :: "(string \<times> string) list" where
  "prepositions = [(''destination'', ''to''), (''origin'', ''from''), (''contact'', ''with''), (''recipient'', ''to''), (''subject'', ''about''),
     (''location'', ''at''), (''date'', ''on''), (''time'', ''at'')]"

definition entity_summary :: "(json \<Rightarrow> string) \<Rightarrow> jobj \<Rightarrow> string" where
  "entity_summary txt es = join_with '' '' (map (\<lambda>(k, v).
     (case map_of prepositions k of Some p \<Rightarrow> p | None \<Rightarrow> ''with'') @ '' '' @ py_str txt v) es)"

definition reasoning_summary :: "plan \<Rightarrow> string" where
  "reasoning_summary p = (let n = length (filter (\<lambda>s. ps_role s = Reasoner \<or> ps_type s = Llm_reasoning) (pl_graph p))
     in if n = 0 then [] else if n = 1 then ''LLM analyzed 1 reasoning step''
        else ''LLM analyzed '' @ show_int (int n) @ '' reasoning steps'')"

definition error_summary :: "outcome_data \<Rightarrow> string" where
  "error_summary d = (let t = (case od_error_type d of Some e \<Rightarrow> if e = [] then ''unknown error'' else e | None \<Rightarrow> ''unknown error'')
     in case od_failed_step d of Some n \<Rightarrow> t @ '' at step '' @ show_int n | None \<Rightarrow> t)"

definition success_text :: "string \<Rightarrow> string \<Rightarrow> string \<Rightarrow> string" where
  "success_text action es it = strip (if es \<noteq> [] then action @ '' '' @ es else ''Executed '' @ it @ '' plan'')"

definition failure_text :: "string \<Rightarrow> string \<Rightarrow> string" where
  "failure_text action err = strip (''Failed to '' @ (case action of [] \<Rightarrow> ''execute'' | c # cs \<Rightarrow> lower [c] @ cs) @ '': '' @ err)"

definition fact_text :: "(json \<Rightarrow> string) \<Rightarrow> plan \<Rightarrow> outcome_data \<Rightarrow> string" where
  "fact_text txt p d =
     (let it = in_intent (pl_intent p); action = action_summary it
      in if od_success d
         then (let s = success_text action (entity_summary txt (in_entities (pl_intent p))) it; r = reasoning_summary p
               in if r = [] then s else s @ '' ('' @ r @ '')'')
         else failure_text action (error_summary d))"

datatype derivation_error = Derivation_failed | Request_invalid

definition derive_fact :: "(json \<Rightarrow> string) \<Rightarrow> plan \<Rightarrow> outcome_data \<Rightarrow> derivation_error + fact_request" where
  "derive_fact txt p d =
     (if pl_plan_id p = [] then Inl Derivation_failed
      else (let r = \<lparr>fr_text = fact_text txt p d, fr_intent = in_intent (pl_intent p), fr_entities = in_entities (pl_intent p),
                fr_outcome = od_success d, fr_source_plan = Some (pl_plan_id p), fr_ttl_days = 30\<rparr>
            in if fact_request_ok r then Inr r else Inl Request_invalid))"

section \<open>Writing\<close>

record 'v writer_env =
  wn_library :: library_env
  wn_history :: history_env
  wn_history_up :: bool
  wn_index :: "(string \<Rightarrow> jobj \<Rightarrow> 'v \<Rightarrow> (string + unit) \<times> 'v) option"

record 'v memory_layer =
  ml_library :: library
  ml_history :: history
  ml_index :: 'v

record fresh_ids =
  id_outcome :: string
  id_metrics :: string
  id_fact :: string
  id_pattern :: string

datatype write_error = Library_failed library_error | Not_derived | History_refused history_error | History_down | Index_failed string

datatype writer_status = Persist_ok | Persist_partial | Persist_error

record persist_result =
  pw_plan_id :: string
  pw_fact_id :: "string option"
  pw_embedded :: bool
  pw_status :: writer_status
  pw_errors :: "write_error list"

datatype persist_error = Library_write_failed library_error | Writer_invalid

text \<open>A duplicate counts as written.\<close>

definition do_plan_library_write :: "'v writer_env \<Rightarrow> fresh_ids \<Rightarrow> int \<Rightarrow> jobj \<Rightarrow> outcome_data \<Rightarrow> metrics_data \<Rightarrow> library \<Rightarrow>
    (persist_error + unit) \<times> library" where
  "do_plan_library_write env ids now p d m l =
     (case store_plan (wn_library env) (id_outcome ids) (id_metrics ids) now p [] d m l of
        (Inr _, l1) \<Rightarrow> (Inr (), l1)
      | (Inl (Duplicate_plan _), l1) \<Rightarrow> (Inr (), l1)
      | (Inl e, l1) \<Rightarrow> (Inl (Library_write_failed e), l1))"

text \<open>The fact's identifier and the errors; only \<open>FactDerivationError\<close> is caught around the derivation.\<close>

definition write_to_history :: "'v writer_env \<Rightarrow> fresh_ids \<Rightarrow> int \<Rightarrow> string \<Rightarrow> plan \<Rightarrow> outcome_data \<Rightarrow> history \<Rightarrow>
    (persist_error + string option \<times> write_error list) \<times> history" where
  "write_to_history env ids now user p d h =
     (case derive_fact (hn_text (wn_history env)) p d of
        Inl Derivation_failed \<Rightarrow> (Inr (None, [Not_derived]), h)
      | Inl Request_invalid \<Rightarrow> (Inl Writer_invalid, h)
      | Inr r \<Rightarrow>
          if \<not> wn_history_up env then (Inr (None, [History_down]), h)
          else (case store_fact (wn_history env) (id_fact ids) (id_pattern ids) user now r h of
              (Inl e, h1) \<Rightarrow> (Inr (None, [History_refused e]), h1)
            | (Inr a, h1) \<Rightarrow> (Inr (Some (fs_fact_id a), []), h1)))"

definition write_to_vector_index :: "'v writer_env \<Rightarrow> string \<Rightarrow> jobj \<Rightarrow> 'v \<Rightarrow> (bool \<times> write_error list) \<times> 'v" where
  "write_to_vector_index env pid p v = (case wn_index env of
       None \<Rightarrow> ((False, []), v)
     | Some store \<Rightarrow> (case store pid p v of (Inl e, v1) \<Rightarrow> ((False, [Index_failed e]), v1) | (Inr _, v1) \<Rightarrow> ((True, []), v1)))"

definition writer_persist_outcome :: "'v writer_env \<Rightarrow> fresh_ids \<Rightarrow> int \<Rightarrow> string \<Rightarrow> plan \<Rightarrow> outcome_data \<Rightarrow> metrics_data \<Rightarrow> 'v memory_layer \<Rightarrow>
    (persist_error + persist_result) \<times> 'v memory_layer" where
  "writer_persist_outcome env ids now user p d m mem =
     (let pd = plan_dump (ln_shown (wn_library env)) p
      in case do_plan_library_write env ids now pd d m (ml_library mem) of
          (Inl e, l) \<Rightarrow> (Inl e, mem \<lparr>ml_library := l\<rparr>)
        | (Inr _, l) \<Rightarrow> (case write_to_history env ids now user p d (ml_history mem) of
              (Inl e, h) \<Rightarrow> (Inl e, mem \<lparr>ml_library := l, ml_history := h\<rparr>)
            | (Inr (fid, es1), h) \<Rightarrow> (case write_to_vector_index env (pl_plan_id p) pd (ml_index mem) of
                  ((embedded, es2), v) \<Rightarrow>
                    (Inr \<lparr>pw_plan_id = pl_plan_id p, pw_fact_id = fid, pw_embedded = embedded,
                       pw_status = (if es1 @ es2 = [] then Persist_ok else Persist_partial), pw_errors = es1 @ es2\<rparr>,
                     \<lparr>ml_library = l, ml_history = h, ml_index = v\<rparr>))))"

section \<open>Bulk\<close>

record bulk_result =
  bk_results :: "persist_result list"
  bk_total :: nat
  bk_succeeded :: nat
  bk_partial :: nat
  bk_failed :: nat

datatype bulk_error = Empty_bulk | Bulk_invalid

text \<open>An item is what \<open>model_validate\<close> makes of its three entries. Only a failed library write is caught.\<close>

type_synonym bulk_item = "(plan \<times> outcome_data \<times> metrics_data) option"

fun bulk_loop :: "'v writer_env \<Rightarrow> (nat \<Rightarrow> fresh_ids) \<Rightarrow> int \<Rightarrow> string \<Rightarrow> nat \<Rightarrow> bulk_item list \<Rightarrow> 'v memory_layer \<Rightarrow>
    (bulk_error + persist_result list) \<times> 'v memory_layer" where
  "bulk_loop env ids now user k [] mem = (Inr [], mem)"
| "bulk_loop env ids now user k (None # items) mem = (Inl Bulk_invalid, mem)"
| "bulk_loop env ids now user k (Some (p, d, m) # items) mem =
     (case writer_persist_outcome env (ids k) now user p d m mem of
        (Inl Writer_invalid, mem1) \<Rightarrow> (Inl Bulk_invalid, mem1)
      | (Inl (Library_write_failed e), mem1) \<Rightarrow> (case bulk_loop env ids now user (Suc k) items mem1 of
            (Inl x, mem2) \<Rightarrow> (Inl x, mem2)
          | (Inr rs, mem2) \<Rightarrow> (Inr (\<lparr>pw_plan_id = (if length (pl_plan_id p) = 26 then pl_plan_id p else replicate 26 CHR ''0''),
              pw_fact_id = None, pw_embedded = False, pw_status = Persist_error, pw_errors = [Library_failed e]\<rparr> # rs), mem2))
      | (Inr r, mem1) \<Rightarrow> (case bulk_loop env ids now user (Suc k) items mem1 of
            (Inl x, mem2) \<Rightarrow> (Inl x, mem2)
          | (Inr rs, mem2) \<Rightarrow> (Inr (r # rs), mem2)))"

definition count_status :: "writer_status \<Rightarrow> persist_result list \<Rightarrow> nat" where
  "count_status st rs = length (filter (\<lambda>r. pw_status r = st) rs)"

definition bulk_persist :: "'v writer_env \<Rightarrow> (nat \<Rightarrow> fresh_ids) \<Rightarrow> int \<Rightarrow> string \<Rightarrow> bulk_item list \<Rightarrow> 'v memory_layer \<Rightarrow>
    (bulk_error + bulk_result) \<times> 'v memory_layer" where
  "bulk_persist env ids now user items mem =
     (if items = [] then (Inl Empty_bulk, mem)
      else (case bulk_loop env ids now user 0 items mem of
          (Inl e, mem1) \<Rightarrow> (Inl e, mem1)
        | (Inr rs, mem1) \<Rightarrow> (Inr \<lparr>bk_results = rs, bk_total = length items, bk_succeeded = count_status Persist_ok rs,
            bk_partial = count_status Persist_partial rs, bk_failed = count_status Persist_error rs\<rparr>, mem1)))"

end
