(* ===== verification/Memory_Laws.thy ===== *)
theory Memory_Laws
  imports Plan_Writer
begin

text \<open>
  What the memory layer keeps of executions: the PlanLibrary holds one outcome per plan, the first; a clone has the
  structure of its source; the PlanWriter's answer says which stores took the outcome.
\<close>

section \<open>The library\<close>

definition library_ok :: "library \<Rightarrow> bool" where
  "library_ok l \<longleftrightarrow> distinct (map pr_plan_id (lb_plans l)) \<and> map or_plan_id (lb_outcomes l) = map pr_plan_id (lb_plans l) \<and>
     map mr_plan_id (lb_metrics l) = map pr_plan_id (lb_plans l) \<and> list_all plan_row_ok (lb_plans l) \<and>
     list_all outcome_row_ok (lb_outcomes l)"

lemma plan_row_of_ok: "plan_row_of env now p sig = Inr r \<Longrightarrow> plan_row_ok r"
proof -
  assume "plan_row_of env now p sig = Inr r"
  then obtain pid c i m t where "(case intent_type_of i m of
         JStr it \<Rightarrow>
           (let r = \<lparr>pr_plan_id = pid, pr_plan = p, pr_signature = sig, pr_intent_type = it, pr_step_count = step_count p,
                pr_hash = ln_digest env c, pr_size = utf8_size c, pr_created = t, pr_stored = now\<rparr>
            in if plan_row_ok r then Inr r else Inl Library_invalid)
       | _ \<Rightarrow> Inl Library_invalid) = Inr r"
    unfolding plan_row_of_def bind_res_Inr_iff by blast
  then show "plan_row_ok r" by (cases "intent_type_of i m") (auto simp: Let_def split: if_splits)
qed

lemma outcome_row_of_ok: "outcome_row_of env oid pid d = Inr r \<Longrightarrow> outcome_row_ok r \<and> or_plan_id r = pid"
  by (auto simp: outcome_row_of_def Let_def result_simps split: if_splits)

lemma metrics_row_of_ok: "metrics_row_of mid pid d = Inr r \<Longrightarrow> mr_plan_id r = pid"
  by (auto simp: metrics_row_of_def split: if_splits)

lemma plan_row_of_no_duplicate: "plan_row_of env now p sig \<noteq> Inl (Duplicate_plan x)"
proof
  assume a: "plan_row_of env now p sig = Inl (Duplicate_plan x)"
  have "checked_id p \<noteq> Inl (Duplicate_plan x)" "sized env p \<noteq> Inl (Duplicate_plan x)" "as_dict j \<noteq> Inl (Duplicate_plan x)"
    "created_at env now m \<noteq> Inl (Duplicate_plan x)" for j m
    by (auto simp: checked_id_def sized_def as_dict_def created_at_def parse_wall_def Let_def split: json.split option.split)
  with a obtain i m pid c t where "(case intent_type_of i m of
         JStr it \<Rightarrow>
           (let r = \<lparr>pr_plan_id = pid, pr_plan = p, pr_signature = sig, pr_intent_type = it, pr_step_count = step_count p,
                pr_hash = ln_digest env c, pr_size = utf8_size c, pr_created = t, pr_stored = now\<rparr>
            in if plan_row_ok r then Inr r else Inl Library_invalid)
       | _ \<Rightarrow> Inl Library_invalid) = Inl (Duplicate_plan x)"
    unfolding plan_row_of_def bind_res_Inl_iff by blast
  then show False by (cases "intent_type_of i m") (auto simp: Let_def split: if_splits)
qed

lemma rows_no_duplicate:
  "outcome_row_of env oid pid d \<noteq> Inl (Duplicate_plan x)" "metrics_row_of mid pid m \<noteq> Inl (Duplicate_plan x)"
  by (auto simp: outcome_row_of_def metrics_row_of_def parse_wall_def Let_def result_simps split: if_splits option.splits)

text \<open>A store changes nothing or appends one row to each table.\<close>

lemma store_plan_cases:
  obtains (unchanged) e where "store_plan env oid mid now p sig od md l = (Inl e, l)"
      "\<And>x. e = Duplicate_plan x \<Longrightarrow> \<exists>r. plan_row_of env now p sig = Inr r \<and> pr_plan_id r \<in> set (map pr_plan_id (lb_plans l))"
  | (stored) r o1 m where "plan_row_of env now p sig = Inr r" "plan_row_ok r" "pr_plan_id r \<notin> set (map pr_plan_id (lb_plans l))"
      "outcome_row_ok o1" "or_plan_id o1 = pr_plan_id r" "mr_plan_id m = pr_plan_id r"
      "store_plan env oid mid now p sig od md l = (Inr (pr_plan_id r, now),
        \<lparr>lb_plans = lb_plans l @ [r], lb_outcomes = lb_outcomes l @ [o1], lb_metrics = lb_metrics l @ [m]\<rparr>)"
      "outcome_row_of env oid (pr_plan_id r) od = Inr o1" "metrics_row_of mid (pr_plan_id r) md = Inr m"
proof (cases "bind_res (plan_row_of env now p sig) (\<lambda>r. bind_res (outcome_row_of env oid (pr_plan_id r) od) (\<lambda>o1.
    bind_res (metrics_row_of mid (pr_plan_id r) md) (\<lambda>m. Inr (r, o1, m))))")
  case (Inl e)
  moreover from Inl have "e \<noteq> Duplicate_plan x" for x
    using plan_row_of_no_duplicate rows_no_duplicate by (auto simp: bind_res_Inl_iff)
  ultimately show thesis using unchanged [of e] by (simp add: store_plan_def)
next
  case (Inr x)
  obtain r o1 m where x: "x = (r, o1, m)" by (cases x)
  from Inr x have rows: "plan_row_of env now p sig = Inr r" "outcome_row_of env oid (pr_plan_id r) od = Inr o1"
    "metrics_row_of mid (pr_plan_id r) md = Inr m" by (auto simp: result_simps)
  show thesis
  proof (cases "ln_up env \<and> \<not> list_ex (\<lambda>q. pr_plan_id q = pr_plan_id r) (lb_plans l)")
    case True
    note o1 = outcome_row_of_ok [OF rows(2)] and m = metrics_row_of_ok [OF rows(3)]
    show thesis
      by (rule stored [OF rows(1) plan_row_of_ok [OF rows(1)] _ conjunct1 [OF o1] conjunct2 [OF o1] m])
        (use True Inr x rows(2,3) in \<open>auto simp: store_plan_def store_plan_transaction_def list_ex_iff\<close>)
  next
    case False
    then have "store_plan env oid mid now p sig od md l =
        (Inl (if ln_up env then Duplicate_plan (pr_plan_id r) else Library_db), l)"
      using Inr x by (auto simp: store_plan_def store_plan_transaction_def)
    moreover have "pr_plan_id r \<in> set (map pr_plan_id (lb_plans l))" if "ln_up env" using False that by (auto simp: list_ex_iff) (metis image_eqI)
    ultimately show thesis using rows(1) by (intro unchanged) (auto split: if_splits)
  qed
qed

lemma store_plan_ok: "library_ok l \<Longrightarrow> library_ok (snd (store_plan env oid mid now p sig od md l))"
proof (cases rule: store_plan_cases [of env oid mid now p sig od md l])
  case (stored r o1 m)
  then show "library_ok l \<Longrightarrow> library_ok (snd (store_plan env oid mid now p sig od md l))"
    by (auto simp: library_ok_def)
qed simp

lemma stored_plans_kept: "set (lb_plans l) \<subseteq> set (lb_plans (snd (store_plan env oid mid now p sig od md l)))"
  by (cases rule: store_plan_cases [of env oid mid now p sig od md l]) auto

text \<open>One outcome per plan makes every rate 0 or 1 and every number of executions 1.\<close>

lemma filter_one:
  "distinct (map f xs) \<Longrightarrow> map g ys = map f xs \<Longrightarrow> x \<in> set xs \<Longrightarrow> \<exists>y. filter (\<lambda>y. g y = f x) ys = [y]"
proof (induction xs arbitrary: ys)
  case (Cons a xs)
  then obtain b bs where ys: "ys = b # bs" "g b = f a" "map g bs = map f xs" by (cases ys) auto
  show ?case
  proof (cases "x = a")
    case True
    then have "f a \<notin> set (map g bs)" using Cons.prems(1) ys(3) by simp
    then have "\<forall>y\<in>set bs. g y \<noteq> f a" by (metis image_eqI set_map)
    then have "filter (\<lambda>y. g y = f a) bs = []" by (simp add: filter_empty_conv)
    with True ys show ?thesis by simp
  next
    case False
    then have "x \<in> set xs" using Cons.prems(3) by simp
    then have "x \<in> set xs" "f x \<noteq> f a" using Cons.prems(1) by (auto, metis image_eqI)
    with Cons.IH [of bs] Cons.prems(1) ys show ?thesis by auto
  qed
qed simp

lemma summary_of_stored:
  assumes "library_ok l" "p \<in> set (lb_plans l)"
  shows "\<exists>r. outcomes_of l (pr_plan_id p) = [r] \<and> sm_executions (summary_of l p) = 1 \<and> sm_success_rate (summary_of l p) = (if or_success r then 1 else 0)"
proof -
  obtain r where r: "outcomes_of l (pr_plan_id p) = [r]"
    using filter_one [of pr_plan_id "lb_plans l" or_plan_id "lb_outcomes l" p] assms by (auto simp: library_ok_def outcomes_of_def)
  obtain m where m: "metrics_of l (pr_plan_id p) = [m]"
    using filter_one [of pr_plan_id "lb_plans l" mr_plan_id "lb_metrics l" p] assms by (auto simp: library_ok_def metrics_of_def)
  from r m have "joined_rows l (pr_plan_id p) = [(Some r, Some m)]" by (simp add: joined_rows_def left_rows_def)
  with r show ?thesis by (simp add: summary_of_def Let_def average_def succeeded_def)
qed

record store_call =
  sc_outcome_id :: string
  sc_metrics_id :: string
  sc_now :: int
  sc_plan :: jobj
  sc_signature :: jobj
  sc_outcome :: outcome_data
  sc_metrics :: metrics_data

definition store_call :: "library_env \<Rightarrow> store_call \<Rightarrow> library \<Rightarrow> library" where
  "store_call env c l = snd (store_plan env (sc_outcome_id c) (sc_metrics_id c) (sc_now c) (sc_plan c) (sc_signature c) (sc_outcome c) (sc_metrics c) l)"

definition library_run :: "library_env \<Rightarrow> store_call list \<Rightarrow> library" where
  "library_run env cs = fold (store_call env) cs \<lparr>lb_plans = [], lb_outcomes = [], lb_metrics = []\<rparr>"

lemma library_run_ok: "library_ok (library_run env cs)"
proof -
  have "library_ok (fold (store_call env) cs l)" if "library_ok l" for l
    using that by (induction cs arbitrary: l) (simp_all add: store_call_def store_plan_ok)
  then show ?thesis unfolding library_run_def by (simp add: library_ok_def)
qed

text \<open>A plan is executed at most once as far as the PlanLibrary knows: after any stores, repetitions included, every plan has one
  outcome and one metrics row, so its number of executions is 1 and its success rate 0 or 1, whatever happened later.\<close>

theorem library_counts_one_execution:
  "library_ok (library_run env cs) \<and>
   list_all (\<lambda>p. sm_executions (summary_of (library_run env cs) p) = 1 \<and> sm_success_rate (summary_of (library_run env cs) p) \<in> {0, 1})
     (lb_plans (library_run env cs))"
  using library_run_ok [of env cs] summary_of_stored [of "library_run env cs"] by (fastforce simp: list_all_iff)

section \<open>The writer\<close>

lemma plan_row_id: "plan_row_of env now p sig = Inr r \<Longrightarrow> jget p ''plan_id'' (JStr []) = JStr (pr_plan_id r)"
proof -
  assume "plan_row_of env now p sig = Inr r"
  then obtain pid c i m t where pid: "checked_id p = Inr pid" and "(case intent_type_of i m of
         JStr it \<Rightarrow>
           (let r = \<lparr>pr_plan_id = pid, pr_plan = p, pr_signature = sig, pr_intent_type = it, pr_step_count = step_count p,
                pr_hash = ln_digest env c, pr_size = utf8_size c, pr_created = t, pr_stored = now\<rparr>
            in if plan_row_ok r then Inr r else Inl Library_invalid)
       | _ \<Rightarrow> Inl Library_invalid) = Inr r"
    unfolding plan_row_of_def bind_res_Inr_iff by blast
  then have "pr_plan_id r = pid" by (cases "intent_type_of i m") (auto simp: Let_def split: if_splits)
  then show ?thesis using pid by (cases "jget p ''plan_id'' (JStr [])") (auto simp: checked_id_def Let_def split: if_splits)
qed

lemma dumped_id: "jget (plan_dump shown p) ''plan_id'' dflt = JStr (pl_plan_id p)"
  by (simp add: plan_dump_def jget_def)

lemma library_write:
  assumes "do_plan_library_write env ids now (plan_dump shown p) d m l = (r, l1)"
  shows "pl_plan_id p \<in> set (map pr_plan_id (lb_plans l)) \<Longrightarrow> l1 = l"
    "r = Inr () \<Longrightarrow> pl_plan_id p \<in> set (map pr_plan_id (lb_plans l1))"
proof -
  let ?st = "store_plan (wn_library env) (id_outcome ids) (id_metrics ids) now (plan_dump shown p) [] d m l"
  have "(pl_plan_id p \<in> set (map pr_plan_id (lb_plans l)) \<longrightarrow> l1 = l) \<and> (r = Inr () \<longrightarrow> pl_plan_id p \<in> set (map pr_plan_id (lb_plans l1)))"
  proof (cases rule: store_plan_cases [of "wn_library env" "id_outcome ids" "id_metrics ids" now "plan_dump shown p" "[]" d m l])
    case (stored row o1 mr)
    have "pr_plan_id row = pl_plan_id p" using plan_row_id [OF stored(1)] by (simp add: dumped_id)
    then show ?thesis using stored assms by (auto simp: do_plan_library_write_def)
  next
    case (unchanged e)
    have dup: "pl_plan_id p \<in> set (map pr_plan_id (lb_plans l))" if "e = Duplicate_plan x" for x
      using unchanged(2) [OF that] plan_row_id by (metis dumped_id json.inject(4))
    then show ?thesis using unchanged assms by (auto simp: do_plan_library_write_def split: library_error.splits)
  qed
  then show "pl_plan_id p \<in> set (map pr_plan_id (lb_plans l)) \<Longrightarrow> l1 = l"
    "r = Inr () \<Longrightarrow> pl_plan_id p \<in> set (map pr_plan_id (lb_plans l1))" by blast+
qed

lemma library_gains:
  assumes "do_plan_library_write env ids now (plan_dump shown p) d m l = (Inr (), l1)"
    and "pl_plan_id p \<notin> set (map pr_plan_id (lb_plans l))"
  shows "\<exists>r o1 mr. outcome_row_of (wn_library env) (id_outcome ids) (pl_plan_id p) d = Inr o1 \<and>
    metrics_row_of (id_metrics ids) (pl_plan_id p) m = Inr mr \<and> pr_plan_id r = pl_plan_id p \<and>
    l1 = \<lparr>lb_plans = lb_plans l @ [r], lb_outcomes = lb_outcomes l @ [o1], lb_metrics = lb_metrics l @ [mr]\<rparr>"
proof (cases rule: store_plan_cases [of "wn_library env" "id_outcome ids" "id_metrics ids" now "plan_dump shown p" "[]" d m l])
  case (stored row o1 mr)
  have "pr_plan_id row = pl_plan_id p" using plan_row_id [OF stored(1)] by (simp add: dumped_id)
  then show ?thesis using stored(7-9) assms(1) by (intro exI [of _ row] exI [of _ o1] exI [of _ mr]) (auto simp: do_plan_library_write_def)
next
  case (unchanged e)
  have "pl_plan_id p \<in> set (map pr_plan_id (lb_plans l))" if "e = Duplicate_plan x" for x
    using unchanged(2) [OF that] plan_row_id by (metis dumped_id json.inject(4))
  then show ?thesis using unchanged(1) assms by (auto simp: do_plan_library_write_def split: library_error.splits)
qed

text \<open>The first outcome stays. Persisting an execution of a plan the PlanLibrary already has leaves all its tables as they are, whatever
  the outcome and the metrics say.\<close>

theorem second_outcome_dropped:
  assumes "pl_plan_id p \<in> set (map pr_plan_id (lb_plans (ml_library mem)))"
  shows "ml_library (snd (writer_persist_outcome env ids now user p d m mem)) = ml_library mem"
proof -
  obtain r l1 where w: "do_plan_library_write env ids now (plan_dump (ln_shown (wn_library env)) p) d m (ml_library mem) = (r, l1)" by fastforce
  have "l1 = ml_library mem" by (rule library_write(1) [OF w assms])
  with w show ?thesis by (auto simp: writer_persist_outcome_def Let_def split: sum.split prod.split)
qed

text \<open>What a write to the History leaves behind.\<close>

lemma store_fact_row:
  assumes "store_fact env fid pid user now r h = (Inr a, h1)"
  shows "\<exists>f\<in>set (hi_facts h1). fc_id f = fs_fact_id a \<and> fc_user f = user \<and> active f"
proof (cases rule: store_fact_cases [of env fid pid user now r h])
  case (new f h1')
  then have "hi_facts h1 = hi_facts h @ [f]" "fs_fact_id a = fc_id f" "fc_user f = user" "active f"
    using assms insert_fact_result [OF new(4)] by (auto simp: update_patterns_facts new_fact_def active_def split: sum.splits)
  then show ?thesis by auto
next
  case (duplicate g)
  then have "g \<in> set (hi_facts h)" "same_fact (new_fact env fid user now r) g" using find_SomeD [OF duplicate(2)] by simp_all
  then show ?thesis using assms duplicate(1) by (auto simp: same_fact_def new_fact_def)
qed (use assms in simp)

lemma history_write:
  assumes "write_to_history env ids now user p d h = (Inr (fid, es), h1)"
  shows "fid = None \<longleftrightarrow> es \<noteq> []" "fid = Some i \<Longrightarrow> \<exists>f\<in>set (hi_facts h1). fc_id f = i \<and> fc_user f = user \<and> active f"
  using assms by (auto simp: write_to_history_def intro: store_fact_row split: sum.splits derivation_error.splits if_splits prod.splits)

lemma index_write:
  "write_to_vector_index env pid pd v = ((b, es), v1) \<Longrightarrow> (es = [] \<longleftrightarrow> wn_index env = None \<or> b) \<and> (b \<longrightarrow> wn_index env \<noteq> None)"
  by (auto simp: write_to_vector_index_def split: option.splits sum.splits prod.splits)

text \<open>C23. The PlanWriter's answer says what was written. When it answers, the PlanLibrary has the plan: a plan it did not have is
  appended together with this outcome and these metrics, while for a plan it already had nothing is written and its first
  outcome stays, which the answer does not tell apart. The fact the answer names is an active fact of the user. The status is
  ok exactly when there is such a fact and the index, if there is one, took the embedding, and partial exactly when errors
  are listed.
\<close>

theorem persist_answer_exact:
  assumes "writer_persist_outcome env ids now user p d m mem = (Inr a, mem')"
  shows "(if pl_plan_id p \<in> set (map pr_plan_id (lb_plans (ml_library mem))) then ml_library mem' = ml_library mem
     else \<exists>r o1 mr. outcome_row_of (wn_library env) (id_outcome ids) (pl_plan_id p) d = Inr o1 \<and>
       metrics_row_of (id_metrics ids) (pl_plan_id p) m = Inr mr \<and> pr_plan_id r = pl_plan_id p \<and>
       ml_library mem' = \<lparr>lb_plans = lb_plans (ml_library mem) @ [r], lb_outcomes = lb_outcomes (ml_library mem) @ [o1],
         lb_metrics = lb_metrics (ml_library mem) @ [mr]\<rparr>) \<and>
    (\<forall>i. pw_fact_id a = Some i \<longrightarrow> (\<exists>f\<in>set (hi_facts (ml_history mem')). fc_id f = i \<and> fc_user f = user \<and> active f)) \<and>
    (pw_status a = Persist_ok \<longleftrightarrow> pw_fact_id a \<noteq> None \<and> (wn_index env = None \<or> pw_embedded a)) \<and>
    (pw_status a = Persist_partial \<longleftrightarrow> pw_errors a \<noteq> [])"
proof -
  let ?pd = "plan_dump (ln_shown (wn_library env)) p"
  obtain r l1 where w: "do_plan_library_write env ids now ?pd d m (ml_library mem) = (r, l1)" by fastforce
  with assms have r: "r = Inr ()" by (cases r) (auto simp: writer_persist_outcome_def Let_def)
  obtain x h1 where h: "write_to_history env ids now user p d (ml_history mem) = (x, h1)" by fastforce
  with assms w r obtain fid es1 where x: "x = Inr (fid, es1)" by (cases x) (auto simp: writer_persist_outcome_def Let_def)
  obtain b es2 v1 where v: "write_to_vector_index env (pl_plan_id p) ?pd (ml_index mem) = ((b, es2), v1)" by (metis prod.collapse)
  have a: "a = \<lparr>pw_plan_id = pl_plan_id p, pw_fact_id = fid, pw_embedded = b,
      pw_status = (if es1 @ es2 = [] then Persist_ok else Persist_partial), pw_errors = es1 @ es2\<rparr>"
    "mem' = \<lparr>ml_library = l1, ml_history = h1, ml_index = v1\<rparr>"
    using assms w r h x v by (auto simp: writer_persist_outcome_def Let_def)
  note hist = history_write [OF h [unfolded x]] and ix = index_write [OF v]
  have lib: "ml_library mem' = l1" by (simp add: a)
  have "\<forall>i. fid = Some i \<longrightarrow> (\<exists>f\<in>set (hi_facts h1). fc_id f = i \<and> fc_user f = user \<and> active f)" using hist(2) by blast
  moreover have "es1 = [] \<longleftrightarrow> fid \<noteq> None" using hist(1) by blast
  moreover note library_write(1) [OF w] library_gains [OF w [unfolded r]]
  ultimately show ?thesis using ix unfolding lib by (simp add: a)
qed

text \<open>The History never learns of a plan that mentions personal data: when the derived text matches a pattern, say because the plan
  mails somebody, persisting it leaves the History unchanged and the answer is at best partial.\<close>

theorem personal_plan_not_remembered:
  assumes "detect_pii (fact_text (hn_text (wn_history env)) p d) \<noteq> None"
  shows "ml_history (snd (writer_persist_outcome env ids now user p d m mem)) = ml_history mem \<and>
    (case fst (writer_persist_outcome env ids now user p d m mem) of Inl _ \<Rightarrow> True | Inr a \<Rightarrow> pw_status a = Persist_partial \<and> pw_fact_id a = None)"
proof -
  have refused: "\<exists>e. write_to_history env ids now user p d h = (e, h) \<and> (case e of Inl _ \<Rightarrow> True | Inr (fid, es) \<Rightarrow> fid = None \<and> es \<noteq> [])" for h
  proof (cases "derive_fact (hn_text (wn_history env)) p d")
    case (Inl e)
    then show ?thesis by (cases e) (auto simp: write_to_history_def)
  next
    case (Inr r)
    then have "fr_text r = fact_text (hn_text (wn_history env)) p d" by (auto simp: derive_fact_def Let_def split: if_splits)
    then have "check_fact now (fr_text r) \<noteq> None" using assms by (simp add: check_fact_None)
    then obtain e where "store_fact (wn_history env) (id_fact ids) (id_pattern ids) user now r h = (Inl e, h)" by (auto simp: store_fact_def)
    with Inr show ?thesis by (auto simp: write_to_history_def)
  qed
  obtain e where e: "write_to_history env ids now user p d (ml_history mem) = (e, ml_history mem)"
    "case e of Inl _ \<Rightarrow> True | Inr (fid, es) \<Rightarrow> fid = None \<and> es \<noteq> []" using refused by blast
  then show ?thesis by (auto simp: writer_persist_outcome_def Let_def split: sum.split prod.split)
qed

text \<open>A fact text above the limit of the request is no \<open>FactDerivationError\<close>: the call raises although the plan is stored.\<close>

lemma oversized_fact_escapes:
  assumes "4096 < length (fact_text (hn_text (wn_history env)) p d)" "pl_plan_id p \<noteq> []"
    "do_plan_library_write env ids now (plan_dump (ln_shown (wn_library env)) p) d m (ml_library mem) = (Inr (), l)"
  shows "writer_persist_outcome env ids now user p d m mem = (Inl Writer_invalid, mem \<lparr>ml_library := l, ml_history := ml_history mem\<rparr>) \<and>
    pl_plan_id p \<in> set (map pr_plan_id (lb_plans l))"
proof -
  have "derive_fact (hn_text (wn_history env)) p d = Inl Request_invalid"
    using assms(1,2) by (simp add: derive_fact_def fact_request_ok_def Let_def)
  then show ?thesis using assms(3) library_write(2) [OF assms(3)] by (simp add: writer_persist_outcome_def write_to_history_def Let_def)
qed


section \<open>A stored plan\<close>

definition demo_plan :: "jobj \<Rightarrow> plan" where
  "demo_plan es = \<lparr>pl_plan_id = replicate 26 CHR ''0'',
     pl_intent = \<lparr>in_intent = ''send_email'', in_entities = es, in_constraints = [], in_tz = ''UTC'', in_user_id = ''u'',
       in_context_budget = None, in_session_id = None, in_trace_id = None, in_sub_intents = [], in_tool_overrides = []\<rparr>,
     pl_trace_id = None, pl_graph = [new_plan_step 1 Interactive Fetcher ''MAIL_LIST'' ''list''], pl_constraints = default_constraints, pl_plugins = [],
     pl_meta = \<lparr>pm_created_at = ''t'', pm_author = ''planner@system'', pm_version = ''v2.0.0'', pm_canonical_hash = []\<rparr>, pl_plan_revision = 0\<rparr>"

definition demo_outcome :: outcome_data where
  "demo_outcome = \<lparr>od_success = True, od_error_type = None, od_error_details = None, od_start = ''t'', od_end = ''t'', od_total_steps = 1,
     od_failed_step = None, od_context = None, od_final_graph = None, od_revision = 0\<rparr>"

definition demo_metrics :: metrics_data where
  "demo_metrics = \<lparr>mt_preview_ms = None, mt_execute_ms = 5, mt_step_timings = None, mt_usage = None\<rparr>"

definition demo_writer :: "unit writer_env" where
  "demo_writer = \<lparr>wn_library = \<lparr>ln_up = True, ln_canonical = (\<lambda>_. ''{}''), ln_digest = (\<lambda>_. ''h''), ln_iso = (\<lambda>_. Some 0), ln_text = (\<lambda>_. []),
       ln_validate = (\<lambda>_. Some (demo_plan [])), ln_constraints = (\<lambda>_. None), ln_now_iso = ''t'', ln_shown = show_int\<rparr>,
     wn_history = history_demo, wn_history_up = True, wn_index = None\<rparr>"

definition demo_ids :: fresh_ids where
  "demo_ids = \<lparr>id_outcome = ''o1'', id_metrics = ''m1'', id_fact = ''f1'', id_pattern = ''p1''\<rparr>"

definition empty_memory :: "unit memory_layer" where
  "empty_memory = \<lparr>ml_library = \<lparr>lb_plans = [], lb_outcomes = [], lb_metrics = []\<rparr>, ml_history = \<lparr>hi_facts = [], hi_patterns = []\<rparr>, ml_index = ()\<rparr>"

lemma zero_ulid: "re_match False ulid_regex (replicate 26 CHR ''0'') \<noteq> None"
  by code_simp

lemma dumped_fields:
  "jget (plan_dump shown p) ''graph'' d = JArr (map (JObj \<circ> step_dump) (pl_graph p))" "dict_get (plan_dump shown p) ''graph'' \<noteq> None"
  "jget (plan_dump shown p) ''intent'' d = intent_dump (pl_intent p) shown" "jget (plan_dump shown p) ''meta'' d = meta_dump (pl_meta p)"
  "dict_get (plan_dump shown p) ''meta'' \<noteq> None"
  by (simp_all add: plan_dump_def jget_def)

lemma demo_plan_simps [simp]:
  "pl_plan_id (demo_plan es) = replicate 26 CHR ''0''" "in_intent (pl_intent (demo_plan es)) = ''send_email''"
  "in_entities (pl_intent (demo_plan es)) = es" "length (pl_graph (demo_plan es)) = 1" "pm_created_at (pl_meta (demo_plan es)) = ''t''"
  by (simp_all add: demo_plan_def)

lemma demo_writer_simps [simp]:
  "ln_up (wn_library demo_writer)" "ln_canonical (wn_library demo_writer) d = ''{}''" "ln_digest (wn_library demo_writer) s = ''h''"
  "ln_iso (wn_library demo_writer) s = Some 0" "ln_shown (wn_library demo_writer) = show_int" "wn_history demo_writer = history_demo"
  "wn_history_up demo_writer" "wn_index demo_writer = None"
  by (simp_all add: demo_writer_def)

lemma demo_row:
  obtains r where "plan_row_of (wn_library demo_writer) 0 (plan_dump show_int (demo_plan es)) [] = Inr r" "pr_plan_id r = replicate 26 CHR ''0''"
proof -
  let ?p = "plan_dump show_int (demo_plan es)"
  have "checked_id ?p = Inr (replicate 26 CHR ''0'')" using zero_ulid by (simp add: checked_id_def dumped_id)
  moreover have "sized (wn_library demo_writer) ?p = Inr ''{}''"
    using dumped_fields(2,5) by (simp add: sized_def step_count_def dumped_fields(1) max_step_count_def max_stored_size_def utf8_size_def)
  moreover obtain i where "as_dict (jget ?p ''intent'' (JObj [])) = Inr i" "jget i ''intent'' JNull = JStr ''send_email''"
    unfolding dumped_fields by (simp add: intent_dump_def as_dict_def) (simp add: jget_def)
  moreover obtain m where "as_dict (jget ?p ''meta'' (JObj [])) = Inr m" "created_at (wn_library demo_writer) 0 m = Inr 0"
    unfolding dumped_fields by (simp add: meta_dump_def as_dict_def) (simp add: created_at_def parse_wall_def jget_def)
  ultimately show thesis using that zero_ulid
    by (simp add: plan_row_of_def intent_type_of_def plan_row_ok_def max_step_count_def max_stored_size_def utf8_size_def
        step_count_def dumped_fields(1) Let_def)
qed

lemma demo_stored:
  obtains l where "do_plan_library_write demo_writer demo_ids 0 (plan_dump show_int (demo_plan es)) demo_outcome demo_metrics
    \<lparr>lb_plans = [], lb_outcomes = [], lb_metrics = []\<rparr> = (Inr (), l)"
proof -
  obtain r where "plan_row_of (wn_library demo_writer) 0 (plan_dump show_int (demo_plan es)) [] = Inr r" "pr_plan_id r = replicate 26 CHR ''0''"
    by (rule demo_row)
  then show thesis using that
    by (simp add: do_plan_library_write_def store_plan_def outcome_row_of_def metrics_row_of_def parse_wall_def outcome_row_ok_def metrics_ok_def
        store_plan_transaction_def demo_outcome_def demo_metrics_def Let_def)
qed

lemma demo_fact: "fact_text (hn_text history_demo) (demo_plan [(''recipient'', JStr ''Bob'')]) demo_outcome = ''Sent email to Bob''"
  "fact_text (hn_text history_demo) (demo_plan [(''recipient'', JStr ''bob@x.com'')]) demo_outcome = ''Sent email to bob@x.com''"
  by code_simp+

lemma demo_personal: "detect_pii ''Sent email to bob@x.com'' = Some ''email''" "detect_pii ''Sent email to Bob'' = None"
  by code_simp+

lemma demo_history:
  "fst (write_to_history demo_writer demo_ids 0 ''u'' (demo_plan [(''recipient'', JStr ''Bob'')]) demo_outcome \<lparr>hi_facts = [], hi_patterns = []\<rparr>) = Inr (Some ''f1'', [])"
proof -
  let ?r = "\<lparr>fr_text = ''Sent email to Bob'', fr_intent = ''send_email'', fr_entities = [(''recipient'', JStr ''Bob'')], fr_outcome = True,
    fr_source_plan = Some (replicate 26 CHR ''0''), fr_ttl_days = 30\<rparr>"
  have "is_ulid (replicate 26 CHR ''0'')" by code_simp
  then have "derive_fact (hn_text history_demo) (demo_plan [(''recipient'', JStr ''Bob'')]) demo_outcome = Inr ?r"
    using demo_fact(1) by (simp add: derive_fact_def fact_request_ok_def source_ok_def demo_outcome_def Let_def)
  moreover have "fst (store_fact history_demo ''f1'' ''p1'' ''u'' 0 ?r \<lparr>hi_facts = [], hi_patterns = []\<rparr>) =
      Inr \<lparr>fs_status = Stored_new, fs_fact_id = ''f1'', fs_stored_at = 0\<rparr>" by code_simp
  then obtain h where "store_fact history_demo ''f1'' ''p1'' ''u'' 0 ?r \<lparr>hi_facts = [], hi_patterns = []\<rparr> =
      (Inr \<lparr>fs_status = Stored_new, fs_fact_id = ''f1'', fs_stored_at = 0\<rparr>, h)" by (metis prod.collapse)
  ultimately show ?thesis by (simp add: write_to_history_def demo_ids_def)
qed

theorem persist_answer_exact_witness:
  "\<exists>a mem. writer_persist_outcome demo_writer demo_ids 0 ''u'' (demo_plan [(''recipient'', JStr ''Bob'')]) demo_outcome demo_metrics empty_memory = (Inr a, mem) \<and>
     pw_fact_id a = Some ''f1'' \<and> pw_status a = Persist_ok \<and> pw_errors a = []"
proof -
  obtain l where l: "do_plan_library_write demo_writer demo_ids 0 (plan_dump show_int (demo_plan [(''recipient'', JStr ''Bob'')])) demo_outcome demo_metrics
    \<lparr>lb_plans = [], lb_outcomes = [], lb_metrics = []\<rparr> = (Inr (), l)" by (rule demo_stored)
  obtain h where "write_to_history demo_writer demo_ids 0 ''u'' (demo_plan [(''recipient'', JStr ''Bob'')]) demo_outcome \<lparr>hi_facts = [], hi_patterns = []\<rparr> = (Inr (Some ''f1'', []), h)"
    using demo_history by (metis prod.collapse)
  with l obtain a mem where a: "writer_persist_outcome demo_writer demo_ids 0 ''u'' (demo_plan [(''recipient'', JStr ''Bob'')]) demo_outcome demo_metrics empty_memory = (Inr a, mem)"
    "pw_fact_id a = Some ''f1''"
    by (simp add: writer_persist_outcome_def write_to_vector_index_def empty_memory_def)
  from persist_answer_exact [OF a(1)] a show ?thesis by auto
qed

theorem second_outcome_dropped_witness:
  "\<exists>mem. pl_plan_id (demo_plan []) \<in> set (map pr_plan_id (lb_plans (ml_library mem))) \<and>
     ml_library (snd (writer_persist_outcome demo_writer demo_ids 9 ''u'' (demo_plan []) (demo_outcome \<lparr>od_success := False\<rparr>) demo_metrics mem)) = ml_library mem"
proof -
  obtain l where l: "do_plan_library_write demo_writer demo_ids 0 (plan_dump show_int (demo_plan [])) demo_outcome demo_metrics
    \<lparr>lb_plans = [], lb_outcomes = [], lb_metrics = []\<rparr> = (Inr (), l)" by (rule demo_stored)
  define mem where "mem = empty_memory \<lparr>ml_library := l\<rparr>"
  have "pl_plan_id (demo_plan []) \<in> set (map pr_plan_id (lb_plans (ml_library mem)))"
    using library_write(2) [OF l] by (simp add: mem_def)
  with second_outcome_dropped [OF this] show ?thesis by blast
qed

theorem personal_plan_not_remembered_witness:
  "detect_pii (fact_text (hn_text (wn_history demo_writer)) (demo_plan [(''recipient'', JStr ''bob@x.com'')]) demo_outcome) = Some ''email'' \<and>
   ml_history (snd (writer_persist_outcome demo_writer demo_ids 0 ''u'' (demo_plan [(''recipient'', JStr ''bob@x.com'')]) demo_outcome demo_metrics empty_memory)) =
     ml_history empty_memory"
  using personal_plan_not_remembered [of demo_writer "demo_plan [(''recipient'', JStr ''bob@x.com'')]" demo_outcome demo_ids 0 "''u''" demo_metrics empty_memory]
    demo_fact(2) demo_personal(1) by simp


section \<open>Reruns\<close>

lemma clone_steps_eq: "clone_steps tx es g = Inr cs \<longleftrightarrow> cs = map (clone_step tx es) g \<and> list_all plan_step_ok cs"
proof (induction g arbitrary: cs)
  case (Cons s g)
  show ?case
  proof (cases "clone_steps tx es g")
    case (Inl e)
    with Cons.IH have "\<not> list_all plan_step_ok (map (clone_step tx es) g)" by auto
    with Inl show ?thesis by (auto simp: Let_def)
  next
    case (Inr ds)
    with Cons.IH [of ds] show ?thesis by (auto simp: Let_def)
  qed
qed auto

text \<open>What a step keeps in a clone.\<close>

definition same_role :: "plan_step \<Rightarrow> plan_step \<Rightarrow> bool" where
  "same_role s c \<longleftrightarrow> c = s \<lparr>ps_status := Pending, ps_result := None, ps_error := None, ps_dry_run := True, ps_args := ps_args c\<rparr> \<and>
     map fst (ps_args c) = map fst (ps_args s)"

lemma clone_step_role: "same_role s (clone_step tx es s)"
  by (simp add: same_role_def clone_step_def substitute_entity_args_def case_prod_beta)

lemma cloned:
  assumes "clone_plan_for_rerun env new_id source es user trace ov l = Inr (q, src)"
  obtains row p where "row \<in> set (lb_plans l)" "pr_plan_id row = source" "ln_validate env (pr_plan row) = Some p"
    "pl_graph q = map (clone_step (ln_text env) es) (pl_graph p)" "plan_ok q" "src = source" "pl_plan_id q = new_id"
    "pl_intent q = clone_intent (pl_intent p) es ov user trace" "ov = None \<Longrightarrow> pl_constraints q = pl_constraints p" "pl_plugins q = pl_plugins p"
    "\<And>u. \<exists>q'. clone_plan_for_rerun env new_id source es u trace ov l = Inr (q', src) \<and> pl_graph q' = pl_graph q \<and> in_user_id (pl_intent q') = u"
proof -
  from assms obtain ro where ro: "get_plan_by_id env source l = Inr ro"
    by (auto simp: clone_plan_for_rerun_def result_simps)
  with assms obtain row where row: "ro = Some row" by (cases ro) (auto simp: clone_plan_for_rerun_def)
  with ro have f: "find (\<lambda>p. pr_plan_id p = source) (lb_plans l) = Some row"
    by (auto simp: get_plan_by_id_def split: if_splits option.splits)
  from assms ro row obtain p where p: "ln_validate env (pr_plan row) = Some p"
    by (cases "ln_validate env (pr_plan row)") (auto simp: clone_plan_for_rerun_def)
  from assms ro row p obtain steps where st: "clone_steps (ln_text env) es (pl_graph p) = Inr steps"
    by (cases "clone_steps (ln_text env) es (pl_graph p)") (auto simp: clone_plan_for_rerun_def)
  from assms ro row p st obtain pc where pc: "(case ov of None \<Rightarrow> Some (pl_constraints p) | Some c \<Rightarrow> ln_constraints env c) = Some pc"
    by (cases "case ov of None \<Rightarrow> Some (pl_constraints p) | Some c \<Rightarrow> ln_constraints env c") (auto simp: clone_plan_for_rerun_def)
  have q: "plan_ok q" "src = source" "pl_plan_id q = new_id" "pl_intent q = clone_intent (pl_intent p) es ov user trace"
    "pl_constraints q = pc" "pl_plugins q = pl_plugins p" "pl_graph q = steps"
    using assms ro row p st pc by (auto simp: clone_plan_for_rerun_def Let_def split: if_splits)
  have "\<exists>q'. clone_plan_for_rerun env new_id source es u trace ov l = Inr (q', src) \<and> pl_graph q' = pl_graph q \<and> in_user_id (pl_intent q') = u" for u
    using assms ro row p st pc q(2)
    by (auto simp: clone_plan_for_rerun_def Let_def plan_ok_def intent_ok_def clone_intent_def split: if_splits)
  then show thesis
    by (intro that [OF _ _ p _ q(1-4) _ q(6)]) (use find_SomeD [OF f] st pc q in \<open>auto simp: clone_steps_eq\<close>)
qed

text \<open>C39. A rerun keeps the plan. A clone is a valid plan under a new identifier for the asking user, with the steps of its source in their
  order: the same numbers, roles, tools, dependencies, gates and argument names, all pending, without results and in dry-run mode.\<close>

theorem clone_keeps_plan:
  assumes "clone_plan_for_rerun env new_id source es user trace ov l = Inr (q, src)"
  shows "src = source \<and> pl_plan_id q = new_id \<and> plan_ok q \<and> in_user_id (pl_intent q) = user \<and> in_entities (pl_intent q) = es \<and>
    (\<exists>row p. row \<in> set (lb_plans l) \<and> pr_plan_id row = source \<and> ln_validate env (pr_plan row) = Some p \<and>
       list_all2 same_role (pl_graph p) (pl_graph q) \<and> map ps_gate_id (pl_graph q) = map ps_gate_id (pl_graph p) \<and>
       (ov = None \<longrightarrow> pl_constraints q = pl_constraints p))"
proof (rule cloned [OF assms])
  fix row p
  assume c: "row \<in> set (lb_plans l)" "pr_plan_id row = source" "ln_validate env (pr_plan row) = Some p"
    "pl_graph q = map (clone_step (ln_text env) es) (pl_graph p)" "plan_ok q" "src = source" "pl_plan_id q = new_id"
    "pl_intent q = clone_intent (pl_intent p) es ov user trace" "ov = None \<Longrightarrow> pl_constraints q = pl_constraints p"
  have "list_all2 same_role (pl_graph p) (pl_graph q)" by (simp add: c(4) list_all2_map2 clone_step_role list_all2_refl)
  moreover have "map ps_gate_id (pl_graph q) = map ps_gate_id (pl_graph p)" by (simp add: c(4) clone_step_def)
  ultimately show ?thesis using c(1-3,5-9) by (auto simp: clone_intent_def)
qed

text \<open>A rerun asks for no owner: if one user gets a clone of a stored plan, every other user gets one with the same steps.\<close>

theorem rerun_ignores_owner:
  assumes "clone_plan_for_rerun env new_id source es user trace ov l = Inr (q, src)"
  shows "\<exists>q'. clone_plan_for_rerun env new_id source es user' trace ov l = Inr (q', src) \<and> pl_graph q' = pl_graph q \<and> in_user_id (pl_intent q') = user'"
  using assms by (rule cloned) blast

definition demo_library :: library where
  "demo_library = \<lparr>lb_plans = [\<lparr>pr_plan_id = replicate 26 CHR ''0'', pr_plan = [], pr_signature = [], pr_intent_type = ''send_email'', pr_step_count = 1,
     pr_hash = ''h'', pr_size = 2, pr_created = 0, pr_stored = 0\<rparr>], lb_outcomes = [], lb_metrics = []\<rparr>"

lemma demo_clone:
  obtains q where "clone_plan_for_rerun (wn_library demo_writer) (replicate 26 CHR ''1'') (replicate 26 CHR ''0'') [] ''v'' ''tr'' None demo_library =
      Inr (q, replicate 26 CHR ''0'')"
proof -
  have get: "get_plan_by_id (wn_library demo_writer) (replicate 26 CHR ''0'') demo_library = Inr (Some (hd (lb_plans demo_library)))"
    using zero_ulid by (simp add: get_plan_by_id_def demo_library_def plan_row_ok_def max_step_count_def max_stored_size_def)
  have val: "ln_validate (wn_library demo_writer) d = Some (demo_plan [])" for d by (simp add: demo_writer_def)
  have "list_all plan_step_ok (map (clone_step f []) (pl_graph (demo_plan [])))" for f
    by (simp add: demo_plan_def new_plan_step_def clone_step_def plan_step_ok_def)
  then have steps: "clone_steps f [] (pl_graph (demo_plan [])) = Inr (map (clone_step f []) (pl_graph (demo_plan [])))" for f
    by (simp add: clone_steps_eq)
  show thesis using that
    by (simp add: clone_plan_for_rerun_def get val steps Let_def plan_ok_def intent_ok_def clone_intent_def plan_constraints_ok_def)
      (simp add: demo_plan_def new_plan_step_def clone_step_def plan_step_ok_def default_constraints_def)
qed

theorem clone_keeps_plan_witness:
  "\<exists>q. clone_plan_for_rerun (wn_library demo_writer) (replicate 26 CHR ''1'') (replicate 26 CHR ''0'') [] ''v'' ''tr'' None demo_library =
      Inr (q, replicate 26 CHR ''0'') \<and> plan_ok q \<and> in_user_id (pl_intent q) = ''v''"
proof (rule demo_clone)
  fix q assume q: "clone_plan_for_rerun (wn_library demo_writer) (replicate 26 CHR ''1'') (replicate 26 CHR ''0'') [] ''v'' ''tr'' None demo_library =
      Inr (q, replicate 26 CHR ''0'')"
  with clone_keeps_plan [OF q] show ?thesis by blast
qed

theorem rerun_ignores_owner_witness:
  "\<exists>q'. clone_plan_for_rerun (wn_library demo_writer) (replicate 26 CHR ''1'') (replicate 26 CHR ''0'') [] ''stranger'' ''tr'' None demo_library =
      Inr (q', replicate 26 CHR ''0'') \<and> in_user_id (pl_intent q') = ''stranger''"
proof (rule demo_clone)
  fix q assume q: "clone_plan_for_rerun (wn_library demo_writer) (replicate 26 CHR ''1'') (replicate 26 CHR ''0'') [] ''v'' ''tr'' None demo_library =
      Inr (q, replicate 26 CHR ''0'')"
  from rerun_ignores_owner [OF q, of "''stranger''"] show ?thesis by blast
qed

end
