(* ===== verification/Audit_Log.thy ===== *)
theory Audit_Log
  imports Py_Strings Json_Value "HOL-Library.Multiset"
begin

text \<open>
  The audit log (\<open>components/Audit\<close>): events are sanitized, buffered in memory and written to the append-only table
  \<open>audit_events\<close> in batches. A flush takes the buffer under a lock, writes without the lock, and puts the batch back
  when the write raises, so several flushes can be under way at once: each operation is a function on the state, split
  at the points where it waits, and \<open>audit_step\<close> interleaves the parts. How the database answers a write is an argument.
\<close>

section \<open>Events\<close>

datatype audit_type =
    Audit_execution_started
  | Audit_step_completed
  | Audit_step_failed
  | Audit_execution_completed
  | Audit_execution_failed
  | Audit_approval_granted
  | Audit_approval_expired
  | Audit_policy_attestation
  | Audit_policy_denial
  | Audit_execution_stuck
  | Audit_execution_timeout

fun audit_type_text :: "audit_type \<Rightarrow> string" where
  "audit_type_text Audit_execution_started = ''execution_started''"
| "audit_type_text Audit_step_completed = ''step_completed''"
| "audit_type_text Audit_step_failed = ''step_failed''"
| "audit_type_text Audit_execution_completed = ''execution_completed''"
| "audit_type_text Audit_execution_failed = ''execution_failed''"
| "audit_type_text Audit_approval_granted = ''approval_granted''"
| "audit_type_text Audit_approval_expired = ''approval_expired''"
| "audit_type_text Audit_policy_attestation = ''policy_attestation''"
| "audit_type_text Audit_policy_denial = ''policy_denial''"
| "audit_type_text Audit_execution_stuck = ''execution_stuck''"
| "audit_type_text Audit_execution_timeout = ''execution_timeout''"

record audit_event =
  ae_id :: string
  ae_type :: audit_type
  ae_plan :: "string option"
  ae_user :: "string option"
  ae_trace :: "string option"
  ae_step :: "int option"
  ae_data :: jobj
  ae_created :: int

definition audit_event_ok :: "audit_event \<Rightarrow> bool" where
  "audit_event_ok e \<longleftrightarrow> length (ae_id e) = 26"

section \<open>Sanitizing\<close>

definition sensitive_keys :: "string list" where
  "sensitive_keys = [''password'', ''secret'', ''token'', ''credential'', ''api_key'']"

definition sensitive :: "string \<Rightarrow> bool" where
  "sensitive k \<longleftrightarrow> lower k \<in> set sensitive_keys"

definition max_error_details :: nat where
  "max_error_details = 500"

fun cut_details :: "string \<Rightarrow> json \<Rightarrow> json" where
  "cut_details k (JStr s) = JStr (if k = ''error_details'' then take max_error_details s else s)"
| "cut_details k v = v"

fun sanitize_value :: "json \<Rightarrow> json" and sanitize_items :: "jobj \<Rightarrow> jobj" where
  "sanitize_value (JObj d) = JObj (sanitize_items d)"
| "sanitize_value v = v"
| "sanitize_items [] = []"
| "sanitize_items ((k, v) # d) =
     (if sensitive k then sanitize_items d else (k, cut_details k (sanitize_value v)) # sanitize_items d)"

definition sanitize_event :: "audit_event \<Rightarrow> audit_event" where
  "sanitize_event e = e \<lparr>ae_data := sanitize_items (ae_data e)\<rparr>"

section \<open>The table\<close>

text \<open>
  \<open>append_events_batch\<close> inserts the batch in one transaction. The columns and the primary key can refuse it; so can
  the server, and a connection can be lost after the commit, when the caller sees an exception although the rows are
  there.
\<close>

datatype db_reply = Acknowledged | Unacknowledged | Refused

definition fits :: "nat \<Rightarrow> string option \<Rightarrow> bool" where
  "fits n s = (case s of None \<Rightarrow> True | Some t \<Rightarrow> length t \<le> n)"

definition audit_row_ok :: "audit_event \<Rightarrow> bool" where
  "audit_row_ok e \<longleftrightarrow> length (ae_id e) \<le> 26 \<and> fits 26 (ae_plan e) \<and> fits 255 (ae_user e) \<and> fits 255 (ae_trace e) \<and>
     (case ae_step e of None \<Rightarrow> True | Some n \<Rightarrow> - (2 ^ 31) \<le> n \<and> n < 2 ^ 31)"

definition insertable :: "audit_event list \<Rightarrow> audit_event list \<Rightarrow> bool" where
  "insertable es rows \<longleftrightarrow> list_all audit_row_ok es \<and> distinct (map ae_id es) \<and>
     list_all (\<lambda>e. ae_id e \<notin> ae_id ` set rows) es"

text \<open>The answer is \<open>False\<close> when the call raises.\<close>

definition append_events_batch :: "db_reply \<Rightarrow> audit_event list \<Rightarrow> audit_event list \<Rightarrow> bool \<times> audit_event list" where
  "append_events_batch reply es rows =
     (if es = [] then (True, rows)
      else if reply = Refused \<or> \<not> insertable es rows then (False, rows)
      else (reply = Acknowledged, rows @ es))"

definition delete_expired :: "int \<Rightarrow> audit_event list \<Rightarrow> nat \<times> audit_event list" where
  "delete_expired before rows =
     (length (filter (\<lambda>e. ae_created e < before) rows), filter (\<lambda>e. \<not> ae_created e < before) rows)"

section \<open>Queries\<close>

record audit_query =
  aq_plan :: "string option"
  aq_user :: "string option"
  aq_trace :: "string option"
  aq_type :: "string option"
  aq_start :: "int option"
  aq_end :: "int option"
  aq_cursor :: "string option"
  aq_limit :: int

record audit_page =
  ap_events :: "audit_event list"
  ap_next :: "string option"
  ap_total :: nat

definition wanted :: "'a option \<Rightarrow> ('a \<Rightarrow> bool) \<Rightarrow> bool" where
  "wanted f p = (case f of None \<Rightarrow> True | Some x \<Rightarrow> p x)"

text \<open>The conditions without the cursor, and the cursor: \<open>coll\<close> is the sort key of the database's collation.\<close>

definition build_conditions :: "audit_query \<Rightarrow> audit_event \<Rightarrow> bool" where
  "build_conditions q e \<longleftrightarrow>
     wanted (aq_plan q) (\<lambda>x. ae_plan e = Some x) \<and> wanted (aq_user q) (\<lambda>x. ae_user e = Some x) \<and>
     wanted (aq_trace q) (\<lambda>x. ae_trace e = Some x) \<and> wanted (aq_type q) (\<lambda>x. audit_type_text (ae_type e) = x) \<and>
     wanted (aq_start q) (\<lambda>x. x \<le> ae_created e) \<and> wanted (aq_end q) (\<lambda>x. ae_created e \<le> x)"

definition after_cursor :: "(string \<Rightarrow> nat) \<Rightarrow> audit_query \<Rightarrow> audit_event \<Rightarrow> bool" where
  "after_cursor coll q e = wanted (aq_cursor q) (\<lambda>c. coll c < coll (ae_id e))"

definition query_events :: "(string \<Rightarrow> nat) \<Rightarrow> audit_query \<Rightarrow> audit_event list \<Rightarrow> audit_page" where
  "query_events coll q rows =
     (let total = length (filter (build_conditions q) rows);
          es = take (nat (aq_limit q)) (sort_key (coll \<circ> ae_id) (filter (\<lambda>e. build_conditions q e \<and> after_cursor coll q e) rows))
      in \<lparr>ap_events = es, ap_next = (if es \<noteq> [] \<and> int (length es) = aq_limit q then Some (ae_id (last es)) else None),
         ap_total = total\<rparr>)"

section \<open>The service\<close>

record audit_state =
  au_buffer :: "audit_event list"
  au_recorded :: nat
  au_overflows :: nat
  au_queried :: nat
  au_rows :: "audit_event list"

record audit_config =
  ac_max_buffer :: nat
  ac_threshold :: nat
  ac_retention_days :: int

definition default_audit_config :: audit_config where
  "default_audit_config = \<lparr>ac_max_buffer = 1000, ac_threshold = 10, ac_retention_days = 90\<rparr>"

definition new_audit :: "audit_event list \<Rightarrow> audit_state" where
  "new_audit rows = \<lparr>au_buffer = [], au_recorded = 0, au_overflows = 0, au_queried = 0, au_rows = rows\<rparr>"

definition append_event :: "audit_event \<Rightarrow> audit_state \<Rightarrow> audit_state" where
  "append_event e s = s \<lparr>au_buffer := au_buffer s @ [sanitize_event e], au_recorded := au_recorded s + 1\<rparr>"

text \<open>\<open>_flush_buffer\<close>: the part under the first lock, the write, and the part under the second lock.\<close>

definition take_batch :: "audit_state \<Rightarrow> audit_event list \<times> audit_state" where
  "take_batch s = (au_buffer s, s \<lparr>au_buffer := []\<rparr>)"

definition write_batch :: "db_reply \<Rightarrow> audit_event list \<Rightarrow> audit_state \<Rightarrow> bool \<times> audit_state" where
  "write_batch reply batch s =
     (let (ok, rows) = append_events_batch reply batch (au_rows s) in (ok, s \<lparr>au_rows := rows\<rparr>))"

definition readd_batch :: "audit_config \<Rightarrow> audit_event list \<Rightarrow> audit_state \<Rightarrow> audit_state" where
  "readd_batch c batch s =
     (let all = batch @ au_buffer s
      in if ac_max_buffer c < length all
         then s \<lparr>au_buffer := drop (length all - ac_max_buffer c) all, au_overflows := au_overflows s + 1\<rparr>
         else s \<lparr>au_buffer := all\<rparr>)"

definition flush_buffer :: "audit_config \<Rightarrow> db_reply \<Rightarrow> audit_state \<Rightarrow> audit_state" where
  "flush_buffer c reply s =
     (if au_buffer s = [] then s
      else let (batch, s1) = take_batch s; (ok, s2) = write_batch reply batch s1
           in if ok then s2 else readd_batch c batch s2)"

definition record_event :: "audit_config \<Rightarrow> db_reply \<Rightarrow> audit_event \<Rightarrow> audit_state \<Rightarrow> audit_state" where
  "record_event c reply e s =
     (let s1 = append_event e s
      in if ac_threshold c \<le> length (au_buffer s1) then flush_buffer c reply s1 else s1)"

datatype audit_error = Invalid_query

definition query_audit ::
  "(string \<Rightarrow> nat) \<Rightarrow> audit_query \<Rightarrow> audit_state \<Rightarrow> (audit_error + audit_page) \<times> audit_state" where
  "query_audit coll q s =
     (if aq_limit q < 1 \<or> 200 < aq_limit q then (Inl Invalid_query, s)
      else (Inr (query_events coll q (au_rows s)), s \<lparr>au_queried := au_queried s + 1\<rparr>))"

definition audit_day :: int where
  "audit_day = 24 * 60 * 60 * 1000000"

definition cleanup_expired :: "audit_config \<Rightarrow> int \<Rightarrow> audit_state \<Rightarrow> nat \<times> audit_state" where
  "cleanup_expired c now s =
     (let (n, rows) = delete_expired (now - ac_retention_days c * audit_day) (au_rows s) in (n, s \<lparr>au_rows := rows\<rparr>))"

section \<open>Interleaving\<close>

text \<open>
  \<open>flights\<close> are the batches taken from the buffer and not yet answered. A cancelled task (\<open>stop\<close> cancels the flush
  loop, and a request can be cancelled in \<open>record\<close>) leaves \<open>_flush_buffer\<close> at the write: \<open>CancelledError\<close> is no
  \<open>Exception\<close>, so the batch is not put back. The label says what happened to which events; \<open>Put_back\<close> also says whether the
  batch was committed nevertheless.
\<close>

datatype audit_label =
    Recorded audit_event
  | Taken
  | Stored
  | Put_back bool "audit_event list" "audit_event list"
  | Cancelled "audit_event list"
  | Expired "audit_event list"

inductive audit_step ::
  "audit_config \<Rightarrow> audit_label \<Rightarrow> audit_state \<times> audit_event list list \<Rightarrow> audit_state \<times> audit_event list list \<Rightarrow> bool"
  for c :: audit_config where
  recorded: "audit_step c (Recorded e) (s, fl) (append_event e s, fl)"
| taken: "au_buffer s \<noteq> [] \<Longrightarrow> take_batch s = (b, s') \<Longrightarrow> audit_step c Taken (s, fl) (s', b # fl)"
| stored: "write_batch r b s = (True, s') \<Longrightarrow> audit_step c Stored (s, fl @ b # fr) (s', fl @ fr)"
| put_back: "write_batch r b s = (False, s1) \<Longrightarrow> readd_batch c b s1 = s' \<Longrightarrow>
     audit_step c (Put_back (au_rows s1 \<noteq> au_rows s) b (take (length (b @ au_buffer s1) - ac_max_buffer c) (b @ au_buffer s1)))
       (s, fl @ b # fr) (s', fl @ fr)"
| cancelled: "audit_step c (Cancelled b) (s, fl @ b # fr) (s, fl @ fr)"
| expired: "cleanup_expired c now s = (n, s') \<Longrightarrow>
     audit_step c (Expired (filter (\<lambda>e. ae_created e < now - ac_retention_days c * audit_day) (au_rows s))) (s, fl) (s', fl)"

inductive audit_run ::
  "audit_config \<Rightarrow> audit_label list \<Rightarrow> audit_state \<times> audit_event list list \<Rightarrow> audit_state \<times> audit_event list list \<Rightarrow> bool"
  for c :: audit_config where
  audit_refl: "audit_run c [] x x"
| audit_snoc: "audit_run c ls x y \<Longrightarrow> audit_step c l y z \<Longrightarrow> audit_run c (ls @ [l]) x z"

end
