(* ===== verification/Audit_Laws.thy ===== *)
theory Audit_Laws
  imports Audit_Log
begin

text \<open>
  What the audit log promises: nothing secret is kept under the sensitive names, no event is unaccounted for under any
  interleaving of writes, failures and cancellations, and paging returns each matching event once. It also shows what
  a batch that can never be written does to the events after it, and what is left in memory without the flush loop.
\<close>

section \<open>Sanitizing\<close>

text \<open>\<open>dict_at v p\<close>: the dictionary found in \<open>v\<close> by following the keys \<open>p\<close>.\<close>

fun dict_at :: "jobj \<Rightarrow> string list \<Rightarrow> jobj option" where
  "dict_at d [] = Some d"
| "dict_at d (k # p) = (case dict_get d k of Some (JObj e) \<Rightarrow> dict_at e p | _ \<Rightarrow> None)"

lemma keys_sanitized: "dict_keys (sanitize_items d) = filter (\<lambda>k. \<not> sensitive k) (dict_keys d)"
  by (induction d) auto

lemma get_sanitized:
  "dict_get (sanitize_items d) k = (if sensitive k then None else map_option (\<lambda>v. cut_details k (sanitize_value v)) (dict_get d k))"
  by (induction d) auto

lemma cut_details_obj: "cut_details k (sanitize_value v) = JObj e \<longleftrightarrow> (\<exists>d. v = JObj d \<and> e = sanitize_items d)"
  by (cases v) auto

lemma dict_at_sanitized:
  "dict_at (sanitize_items d) p = Some e \<Longrightarrow> \<exists>d'. dict_at d p = Some d' \<and> e = sanitize_items d' \<and> (\<forall>k\<in>set p. \<not> sensitive k)"
proof (induction p arbitrary: d)
  case (Cons k p)
  then obtain v where v: "dict_get d k = Some v" "\<not> sensitive k" and "\<exists>x. cut_details k (sanitize_value v) = JObj x \<and> dict_at x p = Some e"
    by (auto simp: get_sanitized split: if_splits option.splits json.splits)
  then obtain d1 where "v = JObj d1" "dict_at (sanitize_items d1) p = Some e" by (auto simp: cut_details_obj)
  then show ?case using Cons.IH v by auto
qed simp

lemma cut_details_short: "cut_details ''error_details'' (sanitize_value v) = JStr s \<Longrightarrow> length s \<le> 500"
  by (cases v) (auto simp: max_error_details_def)

lemma dict_at_kept:
  "dict_at d p = Some d' \<Longrightarrow> (\<forall>k\<in>set p. \<not> sensitive k) \<Longrightarrow> dict_at (sanitize_items d) p = Some (sanitize_items d')"
  by (induction d p rule: dict_at.induct) (auto simp: get_sanitized split: option.splits json.splits)

section \<open>Accounting\<close>

primrec recorded_of :: "audit_label list \<Rightarrow> audit_event list" where
  "recorded_of [] = []"
| "recorded_of (l # ls) = (case l of Recorded e \<Rightarrow> [sanitize_event e] | _ \<Rightarrow> []) @ recorded_of ls"

primrec removed_of :: "audit_label list \<Rightarrow> audit_event list" where
  "removed_of [] = []"
| "removed_of (l # ls) = (case l of Put_back r b es \<Rightarrow> es | Cancelled es \<Rightarrow> es | Expired es \<Rightarrow> es | _ \<Rightarrow> []) @ removed_of ls"

text \<open>The events that are in the table and were put back as well: their commit was not acknowledged.\<close>

definition held :: "audit_state \<times> audit_event list list \<Rightarrow> audit_event multiset" where
  "held x = mset (au_rows (fst x)) + mset (au_buffer (fst x)) + mset (concat (snd x))"

lemma recorded_of_append [simp]: "recorded_of (ls @ ms) = recorded_of ls @ recorded_of ms"
  by (induction ls) simp_all

lemma removed_of_append [simp]: "removed_of (ls @ ms) = removed_of ls @ removed_of ms"
  by (induction ls) simp_all

text \<open>The events of the batches that were committed and put back as well.\<close>

primrec doubled_of :: "audit_label list \<Rightarrow> audit_event list" where
  "doubled_of [] = []"
| "doubled_of (l # ls) = (case l of Put_back True b es \<Rightarrow> b | _ \<Rightarrow> []) @ doubled_of ls"

lemma doubled_of_append [simp]: "doubled_of (ls @ ms) = doubled_of ls @ doubled_of ms"
  by (induction ls) simp_all

fun overflowed :: "audit_label \<Rightarrow> bool" where
  "overflowed (Put_back r b es) = (es \<noteq> [])"
| "overflowed _ = False"

definition audit_inv :: "audit_event list \<Rightarrow> audit_label list \<Rightarrow> audit_state \<times> audit_event list list \<Rightarrow> bool" where
  "audit_inv rows ls x \<longleftrightarrow>
     mset rows + mset (recorded_of ls) + mset (doubled_of ls) = held x + mset (removed_of ls) \<and>
     au_recorded (fst x) = length (recorded_of ls) \<and> au_overflows (fst x) = length (filter overflowed ls) \<and>
     distinct (map ae_id (au_rows (fst x)))"

lemma append_batch_cases:
  "append_events_batch r b rows = (ok, rows') \<Longrightarrow> ok \<and> rows' = rows @ b \<or> \<not> ok \<and> b \<noteq> [] \<and> (rows' = rows \<or> rows' = rows @ b)"
  by (auto simp: append_events_batch_def split: if_splits)

lemma insertable_distinct: "insertable b rows \<Longrightarrow> distinct (map ae_id rows) \<Longrightarrow> distinct (map ae_id (rows @ b))"
  unfolding insertable_def list_all_iff by (simp add: disjoint_iff) (metis imageE)

lemma append_distinct:
  "append_events_batch r b rows = (ok, rows') \<Longrightarrow> distinct (map ae_id rows) \<Longrightarrow> distinct (map ae_id rows')"
  using insertable_distinct[of b rows] by (auto simp: append_events_batch_def simp del: map_append split: if_splits)

lemma readd_buffer: "au_buffer (readd_batch c b s) = drop (length (b @ au_buffer s) - ac_max_buffer c) (b @ au_buffer s)"
  by (auto simp: readd_batch_def Let_def)

lemma readd_fields [simp]:
  "au_rows (readd_batch c b s) = au_rows s" "au_recorded (readd_batch c b s) = au_recorded s"
  "au_overflows (readd_batch c b s) = au_overflows s + (if ac_max_buffer c < length (b @ au_buffer s) then 1 else 0)"
  by (auto simp: readd_batch_def Let_def)

lemma write_fields:
  assumes "write_batch r b s = (ok, s')"
  shows "append_events_batch r b (au_rows s) = (ok, au_rows s')" "au_buffer s' = au_buffer s"
    "au_recorded s' = au_recorded s" "au_overflows s' = au_overflows s"
  using assms by (auto simp: write_batch_def split: prod.splits)

lemma mset_take_drop: "mset (take n xs) + mset (drop n xs) = mset xs"
  by (metis append_take_drop_id mset_append)

lemma audit_step_inv: "audit_step c l x y \<Longrightarrow> audit_inv rows ls x \<Longrightarrow> audit_inv rows (ls @ [l]) y"
proof (induction rule: audit_step.induct)
  case (recorded e s fl)
  then show ?case by (simp add: audit_inv_def held_def append_event_def)
next
  case (taken s b s' fl)
  then show ?case by (auto simp: audit_inv_def held_def take_batch_def)
next
  case (stored r b s s' fl fr)
  have "append_events_batch r b (au_rows s) = (True, au_rows s')" by (rule write_fields(1)[OF stored(1)])
  moreover from this have "au_rows s' = au_rows s @ b" by (auto dest: append_batch_cases)
  ultimately show ?case using stored(2) write_fields[OF stored(1)] append_distinct[of r b "au_rows s" True "au_rows s'"]
    by (simp add: audit_inv_def held_def)
next
  case (put_back r b s s1 s' fl fr)
  have a: "append_events_batch r b (au_rows s) = (False, au_rows s1)" by (rule write_fields(1)[OF put_back(1)])
  have r: "au_rows s1 = (if au_rows s1 \<noteq> au_rows s then au_rows s @ b else au_rows s)"
    using append_batch_cases[OF a] by auto
  let ?n = "length (b @ au_buffer s1) - ac_max_buffer c"
  have "mset (take ?n (b @ au_buffer s1)) + mset (au_buffer s') = mset b + mset (au_buffer s)"
    using mset_take_drop[of ?n "b @ au_buffer s1"] put_back(2) write_fields(2)[OF put_back(1)] readd_buffer[of c b s1] by simp
  moreover have "au_rows s' = au_rows s1" using put_back(2) by auto
  moreover have "au_overflows s' = au_overflows s + (if ?n = 0 then 0 else 1)" "au_recorded s' = au_recorded s"
    using put_back(2) write_fields[OF put_back(1)] by auto
  moreover have "distinct (map ae_id (au_rows s1))"
    using append_distinct[OF a] put_back(3) by (simp add: audit_inv_def)
  ultimately show ?case using put_back(3) r
    by (auto simp: audit_inv_def held_def algebra_simps split: if_splits) 
next
  case (cancelled b s fl fr)
  then show ?case by (simp add: audit_inv_def held_def)
next
  case (expired now s n s' fl)
  then show ?case
    by (auto simp: audit_inv_def held_def cleanup_expired_def delete_expired_def distinct_map_filter)
qed

lemma audit_run_inv: "audit_run c ls x y \<Longrightarrow> audit_inv rows [] x \<Longrightarrow> audit_inv rows ls y"
  by (induction rule: audit_run.induct) (auto intro: audit_step_inv)

lemma audit_inv_new: "distinct (map ae_id rows) \<Longrightarrow> audit_inv rows [] (new_audit rows, [])"
  by (simp add: audit_inv_def held_def new_audit_def)

text \<open>C14. However records, flushes, failures and cancellations interleave, every event that was recorded or already stored
  is in the table, in the buffer, in a write under way, or among the events whose removal by overflow, cancellation or
  retention is on record; an event is there twice only if its batch was put back after a commit. The counters count the
  records and the overflows, and no identifier is stored twice.\<close>

theorem audit_accounts_for_events:
  assumes "audit_run c ls (new_audit rows, []) (s, flights)" "distinct (map ae_id rows)"
  shows "mset rows + mset (recorded_of ls) + mset (doubled_of ls) =
      mset (au_rows s) + mset (au_buffer s) + mset (concat flights) + mset (removed_of ls) \<and>
    au_recorded s = length (recorded_of ls) \<and> au_overflows s = length (filter overflowed ls) \<and>
    distinct (map ae_id (au_rows s))"
  using audit_run_inv[OF assms(1) audit_inv_new[OF assms(2)]] by (simp add: audit_inv_def held_def)

section \<open>What is kept is sanitized\<close>

definition all_sanitized :: "audit_state \<times> audit_event list list \<Rightarrow> bool" where
  "all_sanitized x \<longleftrightarrow> set_mset (held x) \<subseteq> range sanitize_event"

lemma audit_step_sanitized: "audit_step c l x y \<Longrightarrow> all_sanitized x \<Longrightarrow> all_sanitized y"
proof (induction rule: audit_step.induct)
  case (recorded e s fl)
  then show ?case by (auto simp: all_sanitized_def held_def append_event_def)
next
  case (taken s b s' fl)
  then show ?case by (auto simp: all_sanitized_def held_def take_batch_def)
next
  case (stored r b s s' fl fr)
  then show ?case using write_fields[OF stored(1)] append_batch_cases[of r b "au_rows s" True "au_rows s'"]
    by (auto simp: all_sanitized_def held_def)
next
  case (put_back r b s s1 s' fl fr)
  have "set (au_buffer s') \<subseteq> set b \<union> set (au_buffer s)"
    using put_back(2) write_fields(2)[OF put_back(1)] readd_buffer[of c b s1] set_drop_subset by fastforce
  moreover have "set (au_rows s') \<subseteq> set b \<union> set (au_rows s)"
    using put_back(2) append_batch_cases[OF write_fields(1)[OF put_back(1)]] by auto
  ultimately show ?case using put_back(3) by (auto simp: all_sanitized_def held_def)
next
  case (cancelled b s fl fr)
  then show ?case by (auto simp: all_sanitized_def held_def)
next
  case (expired now s n s' fl)
  then show ?case by (auto simp: all_sanitized_def held_def cleanup_expired_def delete_expired_def)
qed

lemma audit_run_sanitized: "audit_run c ls x y \<Longrightarrow> all_sanitized x \<Longrightarrow> all_sanitized y"
  by (induction rule: audit_run.induct) (auto intro: audit_step_sanitized)

lemma sanitized_dict_clean:
  assumes "dict_at (sanitize_items d0) p = Some d"
  shows "list_all (\<lambda>k. \<not> sensitive k) (p @ dict_keys d) \<and>
    (case dict_get d ''error_details'' of Some (JStr t) \<Rightarrow> length t \<le> 500 | _ \<Rightarrow> True)"
proof -
  obtain d' where d': "d = sanitize_items d'" "\<forall>k\<in>set p. \<not> sensitive k"
    using dict_at_sanitized[OF assms] by auto
  have "length t \<le> 500" if "dict_get d ''error_details'' = Some (JStr t)" for t
    using that cut_details_short by (auto simp: d'(1) get_sanitized split: if_splits)
  then show ?thesis using d' by (auto simp: list_all_iff keys_sanitized split: option.splits json.splits)
qed

text \<open>C7. Nothing the audit log keeps, in the table, the buffer or a write under way, has a password, secret, token,
  credential or api key (in any capitalization) at any depth of nested dictionaries, nor error details above 500
  characters. (Dictionaries inside lists are not sanitized, and longer names like \<open>access_token\<close> are kept.)\<close>

theorem audit_keeps_no_secrets:
  assumes "audit_run c ls (new_audit [], []) (s, flights)"
    and "e \<in> set (au_rows s @ au_buffer s @ concat flights)" and "dict_at (ae_data e) p = Some d"
  shows "list_all (\<lambda>k. \<not> sensitive k) (p @ dict_keys d) \<and>
    (case dict_get d ''error_details'' of Some (JStr t) \<Rightarrow> length t \<le> 500 | _ \<Rightarrow> True)"
proof -
  have "all_sanitized (s, flights)"
    by (rule audit_run_sanitized[OF assms(1)]) (simp add: all_sanitized_def held_def new_audit_def)
  then obtain e' where "e = sanitize_event e'" using assms(2) by (auto simp: all_sanitized_def held_def)
  then show ?thesis using assms(3) by (intro sanitized_dict_clean) (simp add: sanitize_event_def)
qed

section \<open>Paging\<close>

text \<open>A client that follows \<open>next_cursor\<close> for at most \<open>n\<close> pages.\<close>

primrec pages :: "nat \<Rightarrow> (string \<Rightarrow> nat) \<Rightarrow> audit_query \<Rightarrow> audit_event list \<Rightarrow> audit_event list" where
  "pages 0 coll q rows = []"
| "pages (Suc n) coll q rows =
     (let p = query_events coll q rows
      in ap_events p @ (case ap_next p of None \<Rightarrow> [] | Some c \<Rightarrow> pages n coll (q \<lparr>aq_cursor := Some c\<rparr>) rows))"

definition matching :: "(string \<Rightarrow> nat) \<Rightarrow> audit_query \<Rightarrow> audit_event list \<Rightarrow> audit_event list" where
  "matching coll q rows = sort_key (coll \<circ> ae_id) (filter (build_conditions q) rows)"

lemma query_events_matching:
  "ap_events (query_events coll q rows) = take (nat (aq_limit q)) (filter (after_cursor coll q) (matching coll q rows))"
proof -
  have "filter (\<lambda>e. build_conditions q e \<and> after_cursor coll q e) rows = filter (after_cursor coll q) (filter (build_conditions q) rows)"
    by (simp add: conj_commute)
  then show ?thesis by (simp add: query_events_def matching_def Let_def filter_sort)
qed

lemma build_conditions_cursor [simp]: "build_conditions (q \<lparr>aq_cursor := c\<rparr>) = build_conditions q"
  by (simp add: build_conditions_def fun_eq_iff)

lemma matching_cursor [simp]: "matching coll (q \<lparr>aq_cursor := c\<rparr>) rows = matching coll q rows"
  by (simp add: matching_def)

lemma filter_after: 
  assumes "sorted_wrt (\<lambda>a b. f a < (f b :: nat)) (xs @ y # ys)"
  shows "filter (\<lambda>e. f y < f e) (xs @ y # ys) = ys"
  using assms by (auto simp: sorted_wrt_append filter_empty_conv intro!: filter_True)

lemma strictly_sorted:
  "sorted (map f xs) \<Longrightarrow> distinct (map f xs) \<Longrightarrow> sorted_wrt (\<lambda>a b. f a < (f b :: nat)) xs"
  by (induction xs) (auto simp: less_le)

lemma pages_from:
  assumes "sorted_wrt (\<lambda>a b. coll (ae_id a) < coll (ae_id b)) (matching coll q rows)" "1 \<le> aq_limit q"
  shows "filter (after_cursor coll q) (matching coll q rows) = drop k (matching coll q rows) \<Longrightarrow>
    length (matching coll q rows) < k + nat (aq_limit q) * n \<Longrightarrow> pages n coll q rows = drop k (matching coll q rows)"
  using assms
proof (induction n arbitrary: k q)
  case (Suc n)
  let ?L = "matching coll q rows" and ?l = "nat (aq_limit q)"
  let ?p = "query_events coll q rows"
  have es: "ap_events ?p = take ?l (drop k ?L)" using query_events_matching Suc.prems(1) by simp
  have nx: "ap_next ?p = (if ap_events ?p \<noteq> [] \<and> length (ap_events ?p) = ?l then Some (ae_id (last (ap_events ?p))) else None)"
    using Suc.prems(4) by (auto simp: query_events_def Let_def)
  show ?case
  proof (cases "?l \<le> length (drop k ?L)")
    case False
    then have "ap_next ?p = None" "ap_events ?p = drop k ?L" using es nx by auto
    then show ?thesis by (simp add: Let_def)
  next
    case True
    have l: "0 < ?l" "k + ?l \<le> length ?L" using True Suc.prems(4) by auto
    let ?y = "?L ! (k + ?l - 1)" and ?q = "q \<lparr>aq_cursor := Some (ae_id (?L ! (k + ?l - 1)))\<rparr>"
    have len: "length (ap_events ?p) = ?l" "ap_events ?p \<noteq> []" using True l(1) es by auto
    have "last (ap_events ?p) = ?y" using l es len by (simp add: last_conv_nth add.commute)
    then have next_c: "ap_next ?p = Some (ae_id ?y)" using nx len by simp
    have split: "?L = take (k + ?l - 1) ?L @ ?y # drop (k + ?l) ?L"
      using l id_take_nth_drop[of "k + ?l - 1" ?L] by simp
    have "filter (\<lambda>e. coll (ae_id ?y) < coll (ae_id e)) ?L = drop (k + ?l) ?L"
      by (subst split, rule filter_after, subst split[symmetric], rule Suc.prems(3))
    moreover have "after_cursor coll ?q = (\<lambda>e. coll (ae_id ?y) < coll (ae_id e))"
      by (simp add: after_cursor_def wanted_def fun_eq_iff)
    ultimately have "filter (after_cursor coll ?q) ?L = drop (k + ?l) ?L" by simp
    then have "pages n coll ?q rows = drop (k + ?l) ?L"
      using Suc.IH[of ?q "k + ?l"] Suc.prems by simp
    moreover have "take ?l (drop k ?L) @ drop (k + ?l) ?L = drop k ?L"
      by (metis add.commute append_take_drop_id drop_drop)
    ultimately show ?thesis using es next_c by (simp add: Let_def)
  qed
qed simp

text \<open>C24. A client that starts without a cursor and follows \<open>next_cursor\<close> sees each matching event exactly once, in the
  order of the identifiers, after at most one page more than \<open>total_count div limit\<close>; every page reports the number of
  all matching events.\<close>

theorem pages_enumerate_matches:
  assumes "1 \<le> aq_limit q" "aq_cursor q = None" "distinct (map (coll \<circ> ae_id) rows)"
    and "length (filter (build_conditions q) rows) div nat (aq_limit q) < n"
  shows "pages n coll q rows = sort_key (coll \<circ> ae_id) (filter (build_conditions q) rows) \<and>
    ap_total (query_events coll (q \<lparr>aq_cursor := c\<rparr>) rows) = length (filter (build_conditions q) rows)"
proof -
  let ?M = "matching coll q rows"
  have "distinct (map (coll \<circ> ae_id) (filter (build_conditions q) rows))" using assms(3) by (rule distinct_map_filter)
  then have "distinct (map (coll \<circ> ae_id) ?M)"
    by (simp add: matching_def distinct_map inj_on_def)
  then have s: "sorted_wrt (\<lambda>a b. coll (ae_id a) < coll (ae_id b)) ?M"
    using strictly_sorted[of "coll \<circ> ae_id" ?M] by (simp add: matching_def)
  have "length ?M < 0 + nat (aq_limit q) * n"
    using assms(1,4) by (simp add: matching_def div_less_iff_less_mult mult.commute)
  then have "pages n coll q rows = drop 0 ?M"
    using assms(2) by (intro pages_from[OF s assms(1)]) (simp_all add: after_cursor_def wanted_def)
  then show ?thesis by (simp add: matching_def query_events_def Let_def)
qed

section \<open>One call after the other\<close>

datatype audit_call = Op_record audit_event db_reply | Op_flush db_reply

fun audit_op :: "audit_config \<Rightarrow> audit_call \<Rightarrow> audit_state \<Rightarrow> audit_state" where
  "audit_op c (Op_record e r) s = record_event c r e s"
| "audit_op c (Op_flush r) s = flush_buffer c r s"

definition audit_ops :: "audit_config \<Rightarrow> audit_call list \<Rightarrow> audit_state \<Rightarrow> audit_state" where
  "audit_ops c ops s = fold (audit_op c) ops s"

lemma audit_ops_simps [simp]: "audit_ops c [] s = s" "audit_ops c (x # ops) s = audit_ops c ops (audit_op c x s)"
  by (simp_all add: audit_ops_def)

lemma flush_buffer_eq:
  "flush_buffer c r s = (let (ok, s2) = write_batch r (au_buffer s) (s \<lparr>au_buffer := []\<rparr>)
     in if ok then s2 else readd_batch c (au_buffer s) s2)"
  by (auto simp: flush_buffer_def take_batch_def write_batch_def append_events_batch_def)

text \<open>\<open>audit_run\<close> covers the calls: a flush that is not interrupted is one of its runs.\<close>

lemma flush_is_run: "\<exists>ls. audit_run c ls (s, []) (flush_buffer c r s, [])"
proof (cases "au_buffer s = []")
  case False
  let ?s1 = "s \<lparr>au_buffer := []\<rparr>"
  have taken: "audit_run c [Taken] (s, []) (?s1, [au_buffer s])"
    using audit_snoc[OF audit_refl audit_step.taken[OF False, of "au_buffer s" ?s1 c "[]"]] by (simp add: take_batch_def)
  obtain ok s2 where w: "write_batch r (au_buffer s) ?s1 = (ok, s2)" by fastforce
  have "\<exists>l. audit_step c l (?s1, [] @ au_buffer s # []) (flush_buffer c r s, [] @ [])"
    using w audit_step.stored[of r "au_buffer s" ?s1 s2 c "[]" "[]"] audit_step.put_back[OF _ refl, of r "au_buffer s" ?s1 s2 c "[]" "[]"]
    by (cases ok) (auto simp: flush_buffer_eq)
  then show ?thesis using audit_snoc[OF taken] by auto
qed (auto simp: flush_buffer_def intro: audit_refl)

section \<open>A batch that cannot be written\<close>

definition unwritable :: "audit_event \<Rightarrow> audit_event list \<Rightarrow> bool" where
  "unwritable x rows \<longleftrightarrow> \<not> audit_row_ok x \<or> ae_id x \<in> ae_id ` set rows"

lemma unwritable_refused: "x \<in> set b \<Longrightarrow> unwritable x rows \<Longrightarrow> append_events_batch r b rows = (False, rows)"
  by (auto simp: append_events_batch_def insertable_def unwritable_def list_all_iff)

definition blocked :: "audit_event \<Rightarrow> audit_event list \<Rightarrow> nat \<Rightarrow> audit_state \<Rightarrow> bool" where
  "blocked x rows n s \<longleftrightarrow> x \<in> set (au_buffer s) \<and> au_rows s = rows \<and> au_overflows s = n"

lemma flush_blocked:
  assumes "unwritable x rows" "blocked x rows n s" "au_overflows (flush_buffer c r s) = n"
  shows "blocked x rows n (flush_buffer c r s)"
proof -
  have f: "flush_buffer c r s = readd_batch c (au_buffer s) (s \<lparr>au_buffer := []\<rparr>)"
    using unwritable_refused[OF _ assms(1), of "au_buffer s" r] assms(2)
    by (auto simp: flush_buffer_eq write_batch_def blocked_def)
  have "\<not> ac_max_buffer c < length (au_buffer s)" using assms(2,3) by (auto simp: f blocked_def split: if_splits)
  then show ?thesis using assms(2) by (simp add: f blocked_def readd_batch_def Let_def)
qed

lemma flush_overflows_mono: "au_overflows s \<le> au_overflows (flush_buffer c r s)"
  by (auto simp: flush_buffer_eq Let_def split: prod.split dest!: write_fields(4))

lemma append_event_fields [simp]:
  "au_buffer (append_event e s) = au_buffer s @ [sanitize_event e]" "au_rows (append_event e s) = au_rows s"
  "au_overflows (append_event e s) = au_overflows s" "au_recorded (append_event e s) = au_recorded s + 1"
  by (simp_all add: append_event_def)

lemma op_overflows_mono: "au_overflows s \<le> au_overflows (audit_op c x s)"
  using flush_overflows_mono[of "append_event e s" for e]
  by (cases x) (auto simp: record_event_def Let_def flush_overflows_mono)

lemma ops_overflows_mono: "au_overflows s \<le> au_overflows (audit_ops c ops s)"
  by (induction ops arbitrary: s) (auto intro: order_trans[OF op_overflows_mono])

lemma op_blocked:
  assumes "unwritable x rows" "blocked x rows n s" "au_overflows (audit_op c y s) = n"
  shows "blocked x rows n (audit_op c y s)"
proof (cases y)
  case (Op_record e r)
  have b: "blocked x rows n (append_event e s)" using assms(2) by (simp add: blocked_def)
  show ?thesis using flush_blocked[OF assms(1) b, of c r] b assms(3) by (auto simp: Op_record record_event_def Let_def)
qed (use assms flush_blocked in auto)

text \<open>An event that the table refuses (its identifier is already stored, as after a commit that was not acknowledged, or
  a field is too long) holds up the whole log: whatever is recorded and flushed afterwards, nothing is written until the
  buffer has overflowed.\<close>

theorem refused_event_blocks_log:
  assumes "x \<in> set (au_buffer s)" "\<not> audit_row_ok x \<or> ae_id x \<in> ae_id ` set (au_rows s)"
    and "au_overflows (audit_ops c ops s) = au_overflows s"
  shows "au_rows (audit_ops c ops s) = au_rows s \<and> x \<in> set (au_buffer (audit_ops c ops s))"
proof -
  have "blocked x rows n (audit_ops c ops s)"
    if "unwritable x rows" "blocked x rows n s" "au_overflows (audit_ops c ops s) = n" for rows n ops s
    using that
  proof (induction ops arbitrary: s)
    case (Cons y ops)
    have "au_overflows s = n" using Cons.prems(2) by (simp add: blocked_def)
    then have "au_overflows (audit_op c y s) = n"
      using Cons.prems(3) op_overflows_mono[of s c y] ops_overflows_mono[of "audit_op c y s" c ops] by simp
    then show ?case using Cons op_blocked by simp
  qed simp
  from this[of "au_rows s" "au_overflows s" s ops] show ?thesis using assms by (simp add: unwritable_def blocked_def)
qed

section \<open>Without the flush loop\<close>

text \<open>\<open>shared/app.py\<close> builds the service and never calls \<open>start\<close>, \<open>flush\<close> or \<open>stop\<close>: only the threshold in \<open>record\<close>
  writes.\<close>

lemma insertable_map_sanitize [simp]: "ae_id (sanitize_event e) = ae_id e" "audit_row_ok (sanitize_event e) = audit_row_ok e"
  by (simp_all add: sanitize_event_def audit_row_ok_def)

lemma sanitized_ids [simp]: "ae_id \<circ> sanitize_event = ae_id"
  by (simp add: fun_eq_iff)

lemma record_answered:
  assumes "insertable (au_buffer s @ [sanitize_event e]) (au_rows s)"
  shows "record_event c Acknowledged e s =
    (if ac_threshold c \<le> length (au_buffer s) + 1
     then s \<lparr>au_buffer := [], au_recorded := au_recorded s + 1, au_rows := au_rows s @ au_buffer s @ [sanitize_event e]\<rparr>
     else append_event e s)"
  using assms by (simp add: record_event_def flush_buffer_eq write_batch_def append_events_batch_def append_event_def Let_def)

lemma insertable_mid: "distinct (map ae_id (rows @ b)) \<Longrightarrow> list_all audit_row_ok b \<Longrightarrow> insertable b rows"
  by (force simp: insertable_def list_all_iff)

text \<open>With a database that answers, \<open>n\<close> records leave the last \<open>n mod flush_threshold\<close> events in memory only, for as
  long as nothing else is recorded; the others are stored in their order.\<close>

theorem unflushed_tail:
  assumes "0 < ac_threshold c" "distinct (map ae_id es)" "list_all audit_row_ok es"
  shows "(let s = audit_ops c (map (\<lambda>e. Op_record e Acknowledged) es) (new_audit []); k = length es - length es mod ac_threshold c
     in au_rows s = map sanitize_event (take k es) \<and> au_buffer s = map sanitize_event (drop k es))"
  using assms(2,3)
proof (induction es rule: rev_induct)
  case (snoc e es)
  let ?s = "audit_ops c (map (\<lambda>e. Op_record e Acknowledged) es) (new_audit [])" and ?t = "ac_threshold c" and ?n = "length es"
  let ?k = "?n - ?n mod ?t"
  have ih: "au_rows ?s = map sanitize_event (take ?k es)" "au_buffer ?s = map sanitize_event (drop ?k es)"
    using snoc by (simp_all add: Let_def)
  have "insertable (au_buffer ?s @ [sanitize_event e]) (au_rows ?s)"
    using snoc.prems by (intro insertable_mid)
     (simp_all add: ih list_all_iff sanitized_ids flip: append_assoc map_append, auto dest: in_set_dropD)
  moreover have len: "length (au_buffer ?s) = ?n mod ?t" using ih by simp
  moreover have snoc_op: "audit_ops c (map (\<lambda>e. Op_record e Acknowledged) es @ [Op_record e Acknowledged]) (new_audit []) = record_event c Acknowledged e ?s"
    by (simp add: audit_ops_def)
  ultimately have step: "audit_ops c (map (\<lambda>e. Op_record e Acknowledged) es @ [Op_record e Acknowledged]) (new_audit []) =
      (if ?t \<le> ?n mod ?t + 1
       then ?s \<lparr>au_buffer := [], au_recorded := au_recorded ?s + 1, au_rows := au_rows ?s @ au_buffer ?s @ [sanitize_event e]\<rparr>
       else append_event e ?s)"
    using record_answered[of ?s e c] len by (simp add: snoc_op)
  show ?case
  proof (cases "?t \<le> ?n mod ?t + 1")
    case True
    then have "Suc ?n mod ?t = 0" using assms(1) mod_less_divisor[of ?t ?n] by (auto simp: mod_Suc simp del: mod_less_divisor)
    moreover have "map sanitize_event (take ?k es) @ map sanitize_event (drop ?k es) = map sanitize_event es"
      by (metis append_take_drop_id map_append)
    ultimately show ?thesis using True by (simp add: step ih Let_def del: mod_Suc flip: append_assoc)
  next
    case False
    then have "Suc ?n - Suc ?n mod ?t = ?k" using assms(1) by (simp add: mod_Suc)
    then show ?thesis using False by (simp add: step ih Let_def append_event_def)
  qed
qed (simp add: new_audit_def)

section \<open>Witnesses\<close>

definition sample_event :: "nat \<Rightarrow> audit_event" where
  "sample_event n = \<lparr>ae_id = show_nat n @ replicate (26 - length (show_nat n)) CHR ''0'', ae_type = Audit_step_failed,
     ae_plan = Some ''P'', ae_user = Some ''ana'', ae_trace = None, ae_step = Some 1,
     ae_data = [(''Token'', JStr ''abc''), (''context'', JObj [(''secret'', JStr ''s''), (''tool'', JStr ''mail'')])],
     ae_created = int n\<rparr>"

definition small_audit :: audit_config where
  "small_audit = \<lparr>ac_max_buffer = 3, ac_threshold = 2, ac_retention_days = 90\<rparr>"

lemma sample_run:
  "audit_run small_audit [Recorded (sample_event 1)] (new_audit [], []) (append_event (sample_event 1) (new_audit []), [])"
  using audit_snoc[OF audit_refl audit_step.recorded] by simp

lemma audit_accounts_for_events_witness:
  "(let s = append_event (sample_event 1) (new_audit []) in
     mset [] + mset (recorded_of [Recorded (sample_event 1)]) + mset (doubled_of [Recorded (sample_event 1)]) =
       mset (au_rows s) + mset (au_buffer s) + mset (concat []) + mset (removed_of [Recorded (sample_event 1)]) \<and>
     au_recorded s = 1)"
  using audit_accounts_for_events[OF sample_run] by (simp add: Let_def)

lemma audit_keeps_no_secrets_witness:
  "(let e = sanitize_event (sample_event 1) in
     e \<in> set (au_buffer (append_event (sample_event 1) (new_audit []))) \<and>
     dict_at (ae_data e) [''context''] = Some [(''tool'', JStr ''mail'')] \<and>
     list_all (\<lambda>k. \<not> sensitive k) ([''context''] @ dict_keys [(''tool'', JStr ''mail'')]))"
proof -
  let ?e = "sanitize_event (sample_event 1)"
  have m: "?e \<in> set (au_buffer (append_event (sample_event 1) (new_audit [])))" by simp
  have d: "dict_at (ae_data ?e) [''context''] = Some [(''tool'', JStr ''mail'')]"
    by (simp add: sanitize_event_def sample_event_def) code_simp
  show ?thesis using audit_keeps_no_secrets[OF sample_run _ d] m d by (simp add: Let_def)
qed

definition every_event :: audit_query where
  "every_event = \<lparr>aq_plan = None, aq_user = None, aq_trace = None, aq_type = None, aq_start = None, aq_end = None,
     aq_cursor = None, aq_limit = 1\<rparr>"

lemma pages_enumerate_matches_witness:
  "pages 3 length every_event [sample_event 1 \<lparr>ae_id := ''bb''\<rparr>, sample_event 2 \<lparr>ae_id := ''a''\<rparr>] =
     [sample_event 2 \<lparr>ae_id := ''a''\<rparr>, sample_event 1 \<lparr>ae_id := ''bb''\<rparr>]"
proof -
  have all: "build_conditions every_event e" for e by (simp add: build_conditions_def every_event_def wanted_def)
  have "pages 3 length every_event [sample_event 1 \<lparr>ae_id := ''bb''\<rparr>, sample_event 2 \<lparr>ae_id := ''a''\<rparr>] =
    sort_key (length \<circ> ae_id) (filter (build_conditions every_event) [sample_event 1 \<lparr>ae_id := ''bb''\<rparr>, sample_event 2 \<lparr>ae_id := ''a''\<rparr>])"
    by (rule pages_enumerate_matches[THEN conjunct1]) (simp_all add: all, simp_all add: every_event_def)
  then show ?thesis by (simp add: all)
qed

text \<open>The commit of the first batch is not acknowledged; then nothing is stored although the database answers again.\<close>

definition stuck_audit :: audit_state where
  "stuck_audit = \<lparr>au_buffer = [sample_event 1], au_recorded = 1, au_overflows = 0, au_queried = 0, au_rows = [sample_event 1]\<rparr>"

lemma refused_event_blocks_log_witness:
  "(let s = audit_ops small_audit [Op_record (sample_event 2) Acknowledged, Op_flush Acknowledged] stuck_audit in
     au_rows s = [sample_event 1] \<and> length (au_buffer s) = 2 \<and> sample_event 1 \<in> set (au_buffer s))"
proof -
  let ?ops = "[Op_record (sample_event 2) Acknowledged, Op_flush Acknowledged]"
  have n: "au_overflows (audit_ops small_audit ?ops stuck_audit) = 0 \<and> length (au_buffer (audit_ops small_audit ?ops stuck_audit)) = 2"
    by (simp add: stuck_audit_def small_audit_def record_event_def flush_buffer_eq write_batch_def append_events_batch_def
        insertable_def readd_batch_def Let_def)
  show ?thesis
    using refused_event_blocks_log[of "sample_event 1" stuck_audit small_audit ?ops] n
    by (simp add: stuck_audit_def Let_def)
qed

lemma unflushed_tail_witness:
  "au_buffer (audit_ops small_audit (map (\<lambda>e. Op_record e Acknowledged) [sample_event 1, sample_event 2, sample_event 3]) (new_audit [])) =
     [sanitize_event (sample_event 3)]"
proof -
  have "distinct (map ae_id [sample_event 1, sample_event 2, sample_event 3])"
    "list_all audit_row_ok [sample_event 1, sample_event 2, sample_event 3]"
    by (simp_all add: sample_event_def audit_row_ok_def fits_def) code_simp+
  then show ?thesis
    using unflushed_tail[of small_audit "[sample_event 1, sample_event 2, sample_event 3]"] by (simp add: small_audit_def Let_def)
qed

end
