(* ===== verification/Intake_Parser.thy ===== *)
theory Intake_Parser
  imports Workflow_Registry Py_Dates Redis_Api
begin

text \<open>
  The intent parser of the Intake component (\<open>components/Intake/adapters/intent_parser.py\<close>, \<open>fallback_llm.py\<close>): the
  prompt, the language models with their fallback and escalation, and how the text of a model becomes a
  \<open>ParseResult\<close>. The models, the JSON text functions and the texts of library exceptions are parameters. Every date
  is an instant in microseconds; floating-point numbers are exact and finite.
\<close>

section \<open>Sessions\<close>

record session_turn =
  tn_message :: string
  tn_reply :: "string option"
  tn_at :: int
  tn_intent :: "string option"
  tn_entities :: jobj
  tn_constraints :: jobj

record session =
  sn_id :: string
  sn_user :: string
  sn_turns :: "session_turn list"
  sn_intent :: "string option"
  sn_entities :: jobj
  sn_constraints :: jobj
  sn_sub_intents :: "string list"
  sn_tier :: "string option"
  sn_created :: int
  sn_updated :: int

definition new_session :: "string \<Rightarrow> string \<Rightarrow> int \<Rightarrow> session" where
  "new_session sid user now = \<lparr>sn_id = sid, sn_user = user, sn_turns = [], sn_intent = None, sn_entities = [],
     sn_constraints = [], sn_sub_intents = [], sn_tier = None, sn_created = now, sn_updated = now\<rparr>"

record parse_result =
  pq_intent :: "string option"
  pq_entities :: jobj
  pq_constraints :: jobj
  pq_sub_intents :: "string list"
  pq_confidence :: "rat option"
  pq_escalated :: bool

definition empty_parse :: parse_result where
  "empty_parse = \<lparr>pq_intent = None, pq_entities = [], pq_constraints = [], pq_sub_intents = [], pq_confidence = None,
     pq_escalated = False\<rparr>"

section \<open>Environment\<close>

text \<open>
  A model is called with its name, the system prompt and the user prompt; it answers a text or raises, and then the
  value is the text of the exception. \<open>nv_prompt_base\<close> and \<open>nv_schema_header\<close> are the two constant texts of the
  prompt, which hold characters above 255. \<open>nv_local\<close> is the local model, if one is configured. \<open>nv_loads\<close> is
  \<open>json.loads\<close> with the text of its exception, \<open>nv_invalid\<close> the text of the \<open>ValidationError\<close> or
  \<open>OverflowError\<close> an answer causes, \<open>nv_offset\<close> the distance of the server's local clock from UTC.
\<close>

type_synonym 'w intent_model_call = "string \<Rightarrow> string \<Rightarrow> string \<Rightarrow> 'w \<Rightarrow> (string + string) \<times> 'w"

record ('s, 'w) intake_env =
  nv_prompt_base :: string
  nv_schema_header :: string
  nv_model :: string
  nv_local_model :: string
  nv_threshold :: rat
  nv_local :: "'w intent_model_call option"
  nv_remote :: "'w intent_model_call"
  nv_loads :: "string \<Rightarrow> string + json"
  nv_dumps :: "json \<Rightarrow> string"
  nv_float :: "string \<Rightarrow> rat option"
  nv_invalid :: "jobj \<Rightarrow> string"
  nv_offset :: "int \<Rightarrow> int"
  nv_redis :: "'s redis"
  nv_encode :: "session \<Rightarrow> string"
  nv_decode :: "string \<Rightarrow> session option"
  nv_max_turns :: nat
  nv_ttl :: int

record ('s, 'w) intake_world =
  iw_redis :: 's
  iw_llm :: 'w
  iw_last_provider :: string

section \<open>Prompts\<close>

definition entity_key_text :: "jobj \<Rightarrow> string" where
  "entity_key_text e = (case jget e ''name'' JNull of JStr n \<Rightarrow> n | _ \<Rightarrow> []) @
     (if truthy (jget e ''required'' (JBool True)) then ''*'' else [])"

definition entity_schema_reference :: "string \<Rightarrow> string" where
  "entity_schema_reference header = join_with [CHR 0x0A]
     ([header] @
      map (\<lambda>(i, (ts, es)). ''  '' @ i @ '': '' @ join_with '', '' (map entity_key_text es)) get_entity_map @
      [''  (* = required)''])"

definition clock_text :: "int \<Rightarrow> string" where
  "clock_text t = weekday t @ '', '' @ iso_date t @ '' '' @ padded 2 (t mod day_us div 3600000000) @ '':'' @
     padded 2 (t mod 3600000000 div 60000000)"

definition turn_lines :: "session_turn \<Rightarrow> string list" where
  "turn_lines t = (''  User: '' @ tn_message t) #
     (case tn_reply t of Some r \<Rightarrow> (if r = [] then [] else [''  Assistant: '' @ r]) | None \<Rightarrow> [])"

definition has_intent :: "session \<Rightarrow> bool" where
  "has_intent c \<longleftrightarrow> (case sn_intent c of None \<Rightarrow> False | Some i \<Rightarrow> i \<noteq> [])"

definition build_user_prompt ::
  "('s, 'w, 'z) intake_env_scheme \<Rightarrow> int \<Rightarrow> string \<Rightarrow> session \<Rightarrow> string \<Rightarrow> string" where
  "build_user_prompt env now message c tz = join_with [CHR 0x0A]
     ([''Current date/time: '' @ clock_text (now + nv_offset env now) @ '' (timezone: '' @ tz @ '')''] @
      (if sn_turns c \<noteq> [] then ([CHR 0x0A] @ ''Conversation so far:'') # concat (map turn_lines (sn_turns c)) else []) @
      (if has_intent c \<or> sn_entities c \<noteq> []
       then ([CHR 0x0A] @ ''Current state:'') #
         (if has_intent c then [''  detected_intent: '' @ the (sn_intent c)] else []) @
         (if sn_entities c \<noteq> [] then [''  extracted_entities: '' @ nv_dumps env (JObj (sn_entities c))] else [])
       else []) @
      [[CHR 0x0A] @ ''New user message: '' @ message])"

definition system_prompt_of :: "('s, 'w, 'z) intake_env_scheme \<Rightarrow> string" where
  "system_prompt_of env = nv_prompt_base env @ [CHR 0x0A, CHR 0x0A] @ entity_schema_reference (nv_schema_header env)"

section \<open>Reading an answer\<close>

definition code_fence :: string where
  "code_fence = ''```''"

text \<open>The text of the object: the content of the outermost fences, or everything from the first brace on.\<close>

definition answer_text :: "string \<Rightarrow> string" where
  "answer_text cleaned =
     (if contains_sub code_fence cleaned
      then let after = split_once_last code_fence cleaned;
               body = (if after \<noteq> [] \<and> \<not> starts_with [CHR 0x0A] after then split_once_last [CHR 0x0A] after else after)
           in strip (if contains_sub code_fence body then rsplit_once_first code_fence body else body)
      else case find_sub ''{'' cleaned of Some i \<Rightarrow> drop i cleaned | None \<Rightarrow> cleaned)"

datatype parse_error = Parser_error string | Other_error string

text \<open>The largest integers \<open>float\<close> accepts are below \<open>2 ^ 1024 - 2 ^ 970\<close>.\<close>

definition too_big :: "int \<Rightarrow> bool" where
  "too_big i \<longleftrightarrow> 2 ^ 1024 - 2 ^ 970 \<le> \<bar>i\<bar>"

definition scaled :: "rat \<Rightarrow> rat" where
  "scaled c = max 0 (min 1 (if 1 < c then c / 100 else c))"

fun confidence_of :: "(string \<Rightarrow> rat option) \<Rightarrow> json \<Rightarrow> rat option option" where
  "confidence_of flt (JBool b) = Some (Some (scaled (if b then 1 else 0)))"
| "confidence_of flt (JInt i) = (if too_big i then None else Some (Some (scaled (of_int i))))"
| "confidence_of flt (JFloat q) = Some (Some (scaled q))"
| "confidence_of flt (JStr s) = Some (map_option scaled (flt s))"
| "confidence_of flt _ = Some None"

fun text_or_null :: "json \<Rightarrow> string option option" where
  "text_or_null JNull = Some None"
| "text_or_null (JStr s) = Some (Some s)"
| "text_or_null _ = None"

fun as_object :: "json \<Rightarrow> jobj option" where
  "as_object (JObj d) = Some d"
| "as_object _ = None"

fun as_texts :: "json list \<Rightarrow> string list option" where
  "as_texts [] = Some []"
| "as_texts (JStr s # xs) = map_option ((#) s) (as_texts xs)"
| "as_texts (x # xs) = None"

fun as_text_list :: "json \<Rightarrow> string list option" where
  "as_text_list (JArr xs) = as_texts xs"
| "as_text_list _ = None"

definition parse_result_of :: "jobj \<Rightarrow> rat option \<Rightarrow> parse_result option" where
  "parse_result_of d conf =
     (case (text_or_null (jget d ''intent'' JNull), as_object (jget d ''entities'' (JObj [])),
            as_object (jget d ''constraints'' (JObj [])), as_text_list (jget d ''sub_intents'' (JArr []))) of
        (Some i, Some es, Some cs, Some subs) \<Rightarrow>
          Some \<lparr>pq_intent = i, pq_entities = es, pq_constraints = cs, pq_sub_intents = subs, pq_confidence = conf,
            pq_escalated = False\<rparr>
      | _ \<Rightarrow> None)"

definition read_object :: "('s, 'w, 'z) intake_env_scheme \<Rightarrow> string \<Rightarrow> parse_error + parse_result" where
  "read_object env x = (case nv_loads env x of
       Inl e \<Rightarrow> Inl (Parser_error (''Invalid JSON: '' @ e))
     | Inr (JObj d) \<Rightarrow> (case confidence_of (nv_float env) (jget d ''confidence'' JNull) of
           None \<Rightarrow> Inl (Other_error (nv_invalid env d))
         | Some conf \<Rightarrow> (case parse_result_of d conf of
               None \<Rightarrow> Inl (Other_error (nv_invalid env d)) | Some r \<Rightarrow> Inr r))
     | Inr _ \<Rightarrow> Inl (Parser_error ''LLM response is not a JSON object''))"

definition parse_answer :: "('s, 'w, 'z) intake_env_scheme \<Rightarrow> string \<Rightarrow> parse_error + parse_result" where
  "parse_answer env raw =
     (let cleaned = strip raw
      in if cleaned = [] then Inl (Parser_error ''LLM returned empty response'') else read_object env (answer_text cleaned))"

section \<open>The models\<close>

definition call_remote ::
  "('s, 'w, 'z) intake_env_scheme \<Rightarrow> string \<Rightarrow> ('s, 'w) intake_world \<Rightarrow> (string + string) \<times> ('s, 'w) intake_world" where
  "call_remote env prompt w =
     (let (r, l) = nv_remote env (nv_model env) (system_prompt_of env) prompt (iw_llm w) in (r, w \<lparr>iw_llm := l\<rparr>))"

definition llm_generate ::
  "('s, 'w, 'z) intake_env_scheme \<Rightarrow> string \<Rightarrow> ('s, 'w) intake_world \<Rightarrow> (string + string) \<times> ('s, 'w) intake_world" where
  "llm_generate env prompt w = (case nv_local env of
       None \<Rightarrow> call_remote env prompt w
     | Some f \<Rightarrow> (case f (nv_local_model env) (system_prompt_of env) prompt (iw_llm w) of
           (Inr x, l) \<Rightarrow> (Inr x, w \<lparr>iw_llm := l, iw_last_provider := ''local''\<rparr>)
         | (Inl e, l) \<Rightarrow> call_remote env prompt (w \<lparr>iw_llm := l, iw_last_provider := ''remote''\<rparr>)))"

definition unsure :: "('s, 'w, 'z) intake_env_scheme \<Rightarrow> parse_result \<Rightarrow> bool" where
  "unsure env r \<longleftrightarrow> (case pq_confidence r of None \<Rightarrow> True | Some c \<Rightarrow> c < nv_threshold env)"

definition escalate ::
  "('s, 'w, 'z) intake_env_scheme \<Rightarrow> string \<Rightarrow> parse_result \<Rightarrow> ('s, 'w) intake_world \<Rightarrow> parse_result \<times> ('s, 'w) intake_world" where
  "escalate env prompt r w =
     (if nv_local env \<noteq> None \<and> unsure env r
      then case call_remote env prompt w of
          (Inl e, w1) \<Rightarrow> (r, w1)
        | (Inr raw, w1) \<Rightarrow> (case parse_answer env raw of
            Inl e \<Rightarrow> (r, w1) | Inr r1 \<Rightarrow> (r1 \<lparr>pq_escalated := True\<rparr>, w1))
      else (r, w))"

text \<open>One attempt after the other; \<open>n\<close> retries are left. The value of a failure is the reason of the
  \<open>IntentParserError\<close>.\<close>

fun attempts ::
  "nat \<Rightarrow> ('s, 'w, 'z) intake_env_scheme \<Rightarrow> string \<Rightarrow> ('s, 'w) intake_world \<Rightarrow> (string + parse_result) \<times> ('s, 'w) intake_world" where
  "attempts n env prompt w = (case llm_generate env prompt w of
       (Inl e, w1) \<Rightarrow> (Inl e, w1)
     | (Inr raw, w1) \<Rightarrow> (case parse_answer env raw of
           Inl (Parser_error reason) \<Rightarrow> (case n of 0 \<Rightarrow> (Inl reason, w1) | Suc m \<Rightarrow> attempts m env prompt w1)
         | Inl (Other_error reason) \<Rightarrow> (Inl reason, w1)
         | Inr r \<Rightarrow> (case escalate env prompt r w1 of (r2, w2) \<Rightarrow> (Inr r2, w2))))"

declare attempts.simps [simp del]

definition parse ::
  "('s, 'w, 'z) intake_env_scheme \<Rightarrow> int \<Rightarrow> string \<Rightarrow> session \<Rightarrow> string \<Rightarrow> ('s, 'w) intake_world \<Rightarrow>
   (string + parse_result) \<times> ('s, 'w) intake_world" where
  "parse env now message c tz w = attempts 1 env (build_user_prompt env now message c tz) w"

end
