(* ===== verification/Intake_Service.thy ===== *)
theory Intake_Service
  imports Intake_Parser
begin

text \<open>
  The Intake service (\<open>components/Intake/service/intake_service.py\<close>, \<open>adapters/session_store.py\<close>, \<open>api/routes.py\<close>):
  sessions in Redis, one message or reset at a time, and the answers of the two routes. A session is stored as the text
  \<open>nv_encode\<close> of Pydantic and read back with \<open>nv_decode\<close>.
\<close>

section \<open>Sessions in Redis\<close>

datatype intake_error =
    Session_not_found string
  | Session_ownership string string
  | Max_turns_exceeded string nat
  | Store_unavailable
  | Rate_limited
  | Intent_parser_failed string
  | Corrupt_session

definition session_key :: "string \<Rightarrow> string \<Rightarrow> string" where
  "session_key user sid = ''session:'' @ user @ '':'' @ sid"

definition get_session ::
  "('s, 'w, 'z) intake_env_scheme \<Rightarrow> int \<Rightarrow> string \<Rightarrow> string \<Rightarrow> 's \<Rightarrow> intake_error + session option" where
  "get_session env now user sid s = (case rd_get (nv_redis env) now (session_key user sid) s of
       None \<Rightarrow> Inl Store_unavailable
     | Some None \<Rightarrow> Inr None
     | Some (Some raw) \<Rightarrow> (case nv_decode env raw of None \<Rightarrow> Inl Corrupt_session | Some c \<Rightarrow> Inr (Some c)))"

text \<open>A \<open>SET\<close> whose client raises has had no effect here; a lost answer to an executed command is not modelled.\<close>

definition save_session ::
  "('s, 'w, 'z) intake_env_scheme \<Rightarrow> int \<Rightarrow> session \<Rightarrow> 's \<Rightarrow> (intake_error + unit) \<times> 's" where
  "save_session env now c s =
     (case rd_set (nv_redis env) now (session_key (sn_user c) (sn_id c)) (nv_encode env c) (Some (nv_ttl env)) False s of
        None \<Rightarrow> (Inl Store_unavailable, s) | Some (b, s1) \<Rightarrow> (Inr (), s1))"

definition delete_session ::
  "('s, 'w, 'z) intake_env_scheme \<Rightarrow> int \<Rightarrow> string \<Rightarrow> string \<Rightarrow> 's \<Rightarrow> (intake_error + bool) \<times> 's" where
  "delete_session env now user sid s = (case rd_del (nv_redis env) now (session_key user sid) s of
       None \<Rightarrow> (Inl Store_unavailable, s) | Some (b, s1) \<Rightarrow> (Inr b, s1))"

section \<open>Parsing\<close>

definition is_rate_limited :: "string \<Rightarrow> bool" where
  "is_rate_limited reason \<longleftrightarrow> reason \<noteq> [] \<and>
     (contains_sub ''rate limit'' (lower reason) \<or> contains_sub ''rate_limited'' (lower reason) \<or> contains_sub ''429'' (lower reason))"

definition safe_parse ::
  "('s, 'w, 'z) intake_env_scheme \<Rightarrow> int \<Rightarrow> string \<Rightarrow> session \<Rightarrow> string \<Rightarrow> ('s, 'w) intake_world \<Rightarrow>
   (intake_error + parse_result) \<times> ('s, 'w) intake_world" where
  "safe_parse env now message c tz w = (case parse env now message c tz w of
       (Inr r, w1) \<Rightarrow> (Inr r, w1)
     | (Inl reason, w1) \<Rightarrow> (if is_rate_limited reason then (Inl Rate_limited, w1) else (Inr empty_parse, w1)))"

definition served_by :: "('s, 'w, 'z) intake_env_scheme \<Rightarrow> ('s, 'w) intake_world \<Rightarrow> string" where
  "served_by env w = (case nv_local env of None \<Rightarrow> ''remote'' | Some f \<Rightarrow> iw_last_provider w)"

definition route_and_parse ::
  "('s, 'w, 'z) intake_env_scheme \<Rightarrow> int \<Rightarrow> string \<Rightarrow> session \<Rightarrow> string \<Rightarrow> ('s, 'w) intake_world \<Rightarrow>
   (intake_error + parse_result \<times> session) \<times> ('s, 'w) intake_world" where
  "route_and_parse env now message c tz w = (case safe_parse env now message c tz w of
       (Inl e, w1) \<Rightarrow> (Inl e, w1)
     | (Inr r, w1) \<Rightarrow> (Inr (r, if sn_tier c = None then c \<lparr>sn_tier := Some (served_by env w1)\<rparr> else c), w1))"

section \<open>Merging\<close>

text \<open>\<open>_normalize_entity_keys\<close>: \<open>normalize_from\<close> is its loop.\<close>

definition canonical :: "(string, string) dict \<Rightarrow> string \<Rightarrow> string" where
  "canonical m k = (case dict_get m k of Some c \<Rightarrow> c | None \<Rightarrow> k)"

definition joined :: "json \<Rightarrow> json \<Rightarrow> json" where
  "joined old v = (case (old, v) of (JStr a, JStr b) \<Rightarrow> JStr (a @ '' '' @ b) | _ \<Rightarrow> old)"

fun normalize_from :: "(string, string) dict \<Rightarrow> jobj \<Rightarrow> jobj \<Rightarrow> jobj" where
  "normalize_from m acc [] = acc"
| "normalize_from m acc ((k, v) # d) =
     (let c = canonical m k
      in case dict_get acc c of
           Some old \<Rightarrow> normalize_from m (dict_set c (if k \<noteq> c then joined old v else v) acc) d
         | None \<Rightarrow> normalize_from m (dict_set c v acc) d)"

definition normalize_entity_keys :: "jobj \<Rightarrow> string option \<Rightarrow> jobj" where
  "normalize_entity_keys d intent = (case intent of
       None \<Rightarrow> d
     | Some i \<Rightarrow> (case (if i = [] then None else dict_get get_alias_map i) of
           None \<Rightarrow> d | Some m \<Rightarrow> normalize_from m [] d))"

definition entities_update :: "jobj \<Rightarrow> jobj \<Rightarrow> jobj" where
  "entities_update d new = fold (\<lambda>(k, v). dict_set k v) new d"

definition merge_parse_result :: "session \<Rightarrow> parse_result \<Rightarrow> session" where
  "merge_parse_result c r =
     (let intent = (case pq_intent r of None \<Rightarrow> sn_intent c | Some i \<Rightarrow> Some i)
      in c \<lparr>sn_intent := intent,
        sn_entities := entities_update (sn_entities c) (normalize_entity_keys (pq_entities r) intent),
        sn_constraints := entities_update (sn_constraints c) (pq_constraints r),
        sn_sub_intents := (if pq_sub_intents r \<noteq> [] then pq_sub_intents r else sn_sub_intents c)\<rparr>)"

section \<open>The service\<close>

datatype intake_status = Collecting | Ready

record intake_response =
  ir_status :: intake_status
  ir_session :: string
  ir_intent :: "string option"
  ir_entities :: jobj
  ir_follow_up :: "string option"
  ir_turn_count :: nat

text \<open>\<open>fresh\<close> is the next ULID.\<close>

definition resolve_session ::
  "('s, 'w, 'z) intake_env_scheme \<Rightarrow> int \<Rightarrow> string \<Rightarrow> string \<Rightarrow> string option \<Rightarrow> 's \<Rightarrow> intake_error + session" where
  "resolve_session env now fresh user sid s =
     bind_res (case sid of None \<Rightarrow> Inr None | Some i \<Rightarrow> if i = [] then Inr None else get_session env now user i s)
       (\<lambda>found. Inr (case found of Some c \<Rightarrow> c | None \<Rightarrow> new_session (''ses_'' @ fresh) user now))"

definition clarify_text :: string where
  "clarify_text = ''What would you like me to help you with?''"

definition follow_up_of :: "session \<Rightarrow> string option" where
  "follow_up_of c = (if has_intent c then None else Some clarify_text)"

definition turn_of :: "int \<Rightarrow> string \<Rightarrow> parse_result \<Rightarrow> session \<Rightarrow> session_turn" where
  "turn_of now message r c = \<lparr>tn_message = message, tn_reply = follow_up_of c, tn_at = now, tn_intent = pq_intent r,
     tn_entities = pq_entities r, tn_constraints = pq_constraints r\<rparr>"

definition after_message :: "int \<Rightarrow> string \<Rightarrow> parse_result \<Rightarrow> session \<Rightarrow> session" where
  "after_message now message r c =
     (let c1 = (merge_parse_result c r) \<lparr>sn_updated := now\<rparr> in c1 \<lparr>sn_turns := sn_turns c1 @ [turn_of now message r c1]\<rparr>)"

definition intake_answer :: "session \<Rightarrow> intake_response" where
  "intake_answer c = \<lparr>ir_status = (if has_intent c then Ready else Collecting), ir_session = sn_id c, ir_intent = sn_intent c,
     ir_entities = sn_entities c, ir_follow_up = follow_up_of c, ir_turn_count = length (sn_turns c)\<rparr>"

definition process_message ::
  "('s, 'w, 'z) intake_env_scheme \<Rightarrow> int \<Rightarrow> string \<Rightarrow> string \<Rightarrow> string \<Rightarrow> string option \<Rightarrow> string \<Rightarrow> ('s, 'w) intake_world \<Rightarrow>
   (intake_error + intake_response) \<times> ('s, 'w) intake_world" where
  "process_message env now fresh user message sid tz w = (case resolve_session env now fresh user sid (iw_redis w) of
       Inl e \<Rightarrow> (Inl e, w)
     | Inr c \<Rightarrow>
         if nv_max_turns env \<le> length (sn_turns c) then (Inl (Max_turns_exceeded (sn_id c) (nv_max_turns env)), w)
         else (case route_and_parse env now message c tz w of
             (Inl e, w1) \<Rightarrow> (Inl e, w1)
           | (Inr (r, c1), w1) \<Rightarrow>
               (let c2 = after_message now message r c1
                in case save_session env now c2 (iw_redis w1) of
                     (Inl e, s) \<Rightarrow> (Inl e, w1 \<lparr>iw_redis := s\<rparr>)
                   | (Inr _, s) \<Rightarrow> (Inr (intake_answer c2), w1 \<lparr>iw_redis := s\<rparr>))))"

definition reset_session ::
  "('s, 'w, 'z) intake_env_scheme \<Rightarrow> int \<Rightarrow> string \<Rightarrow> string \<Rightarrow> ('s, 'w) intake_world \<Rightarrow>
   (intake_error + unit) \<times> ('s, 'w) intake_world" where
  "reset_session env now user sid w = (case delete_session env now user sid (iw_redis w) of
       (Inl e, s) \<Rightarrow> (Inl e, w \<lparr>iw_redis := s\<rparr>)
     | (Inr b, s) \<Rightarrow> (if b then Inr () else Inl (Session_not_found sid), w \<lparr>iw_redis := s\<rparr>))"

definition parse_once ::
  "('s, 'w, 'z) intake_env_scheme \<Rightarrow> int \<Rightarrow> string \<Rightarrow> string \<Rightarrow> string \<Rightarrow> string \<Rightarrow> ('s, 'w) intake_world \<Rightarrow>
   (intake_error + parse_result) \<times> ('s, 'w) intake_world" where
  "parse_once env now fresh message user tz w =
     safe_parse env now message (new_session (''transient_'' @ fresh) user now) tz w"

section \<open>The routes\<close>

text \<open>The status and code of an answer; a corrupt session is a \<open>ValidationError\<close>, which the routes do not catch.\<close>

fun intake_http :: "intake_error \<Rightarrow> nat \<times> string" where
  "intake_http (Session_not_found i) = (404, ''SESSION_NOT_FOUND'')"
| "intake_http (Session_ownership i u) = (403, ''SESSION_OWNERSHIP_DENIED'')"
| "intake_http (Max_turns_exceeded i n) = (400, ''MAX_TURNS_EXCEEDED'')"
| "intake_http Store_unavailable = (503, ''SESSION_STORE_UNAVAILABLE'')"
| "intake_http Rate_limited = (429, ''LLM_RATE_LIMITED'')"
| "intake_http (Intent_parser_failed r) = (500, ''INTENT_PARSER_ERROR'')"
| "intake_http Corrupt_session = (500, [])"

definition intake_body_ok :: "string \<Rightarrow> bool" where
  "intake_body_ok message \<longleftrightarrow> 1 \<le> length message \<and> length message \<le> 10000"

definition submit_message ::
  "('s, 'w, 'z) intake_env_scheme \<Rightarrow> int \<Rightarrow> string \<Rightarrow> string \<Rightarrow> string \<Rightarrow> string option \<Rightarrow> string option \<Rightarrow> ('s, 'w) intake_world \<Rightarrow>
   (nat \<times> string + intake_response) \<times> ('s, 'w) intake_world" where
  "submit_message env now fresh user message sid tz w =
     (if \<not> intake_body_ok message then (Inl (422, []), w)
      else case process_message env now fresh user message sid (case tz of None \<Rightarrow> ''America/Chicago'' | Some z \<Rightarrow> z) w of
          (Inl e, w1) \<Rightarrow> (Inl (intake_http e), w1) | (Inr a, w1) \<Rightarrow> (Inr a, w1))"

end
