(* ===== verification/Intake_Laws.thy ===== *)
theory Intake_Laws
  imports Intake_Service "HOL-Library.Sublist"
begin

text \<open>
  What the Intake component promises: an answer in fences is read whatever surrounds it, confidences are between 0 and 1,
  entity names become canonical, a message adds one turn to its session and raises only the documented errors, and the
  sessions of a user hold what this user sent and nothing else.
\<close>

section \<open>Reading answers\<close>

lemma scaled_range: "0 \<le> scaled c \<and> scaled c \<le> 1"
  by (simp add: scaled_def)

lemma confidence_range: "confidence_of flt v = Some (Some c) \<Longrightarrow> 0 \<le> c \<and> c \<le> 1"
  by (cases v) (use scaled_range in \<open>auto split: if_splits option.splits\<close>)

lemma parse_result_confidence: "parse_result_of d conf = Some r \<Longrightarrow> pq_confidence r = conf \<and> \<not> pq_escalated r"
  by (auto simp: parse_result_of_def split: option.splits)

lemma read_object_confidence: "read_object env x = Inr r \<Longrightarrow> pq_confidence r = Some c \<Longrightarrow> 0 \<le> c \<and> c \<le> 1"
  by (auto simp: read_object_def dest!: parse_result_confidence confidence_range split: sum.splits json.splits option.splits)

lemma parse_answer_confidence: "parse_answer env raw = Inr r \<Longrightarrow> pq_confidence r = Some c \<Longrightarrow> 0 \<le> c \<and> c \<le> 1"
  by (auto simp: parse_answer_def Let_def dest: read_object_confidence split: if_splits)

lemma find_sub_past: "p \<noteq> [] \<Longrightarrow> hd p \<notin> set a \<Longrightarrow> find_sub p (a @ p @ b) = Some (length a)"
proof (induction a)
  case Nil
  then show ?case by (cases p) (auto simp: starts_with_def)
next
  case (Cons x a)
  then show ?case by (cases p) (auto simp: starts_with_def)
qed

lemma split_once_at: "p \<noteq> [] \<Longrightarrow> hd p \<notin> set a \<Longrightarrow> split_once_last p (a @ p @ b) = b"
  by (simp add: split_once_last_def find_sub_past)

lemma rsplit_once_at: "p \<noteq> [] \<Longrightarrow> last p \<notin> set b \<Longrightarrow> rsplit_once_first p (a @ p @ b) = a"
  using find_sub_past[of "rev p" "rev b" "rev a"] by (simp add: rsplit_once_first_def hd_rev)

lemma dropWhile_stops: "x \<notin> {c. P c} \<Longrightarrow> dropWhile P (a @ x # b) = dropWhile P a @ x # b"
  by (induction a) auto

lemma lstrip_stops: "\<not> is_space x \<Longrightarrow> lstrip (a @ x # b) = lstrip a @ x # b"
  by (simp add: lstrip_def dropWhile_stops)

lemma rstrip_stops: "\<not> is_space x \<Longrightarrow> rstrip (a @ x # b) = a @ x # rstrip b"
  using lstrip_stops[of x "rev b" "rev a"] by (simp add: rstrip_def lstrip_def)

lemma set_lstrip: "set (lstrip s) \<subseteq> set s"
  by (simp add: lstrip_def set_dropWhileD subsetI)

lemma set_rstrip: "set (rstrip s) \<subseteq> set s"
  unfolding rstrip_def lstrip_def by (auto dest: set_dropWhileD)

lemma strip_stops: "\<not> is_space x \<Longrightarrow> \<not> is_space y \<Longrightarrow> strip (a @ x # m @ y # b) = lstrip a @ x # m @ y # rstrip b"
  using rstrip_stops[of y "lstrip a @ x # m" b] by (simp add: strip_def lstrip_stops)

lemma fence_split: "code_fence = CHR 0x60 # [CHR 0x60, CHR 0x60]" "code_fence = [CHR 0x60, CHR 0x60] @ [CHR 0x60]"
  by (simp_all add: code_fence_def)

lemma fence_simps [simp]: "code_fence \<noteq> []" "hd code_fence = CHR 0x60" "last code_fence = CHR 0x60"
  by (simp_all add: fence_split(1))

lemma contains_middle: "contains_sub p (a @ p @ b)"
  by (auto simp: contains_sub_iff)

lemma strip_newline: "strip (CHR 0x0A # s) = strip s"
proof -
  have "is_space (CHR 0x0A)" by code_simp
  then show ?thesis by (simp add: strip_def lstrip_def)
qed

lemma answer_text_fenced:
  assumes "CHR 0x60 \<notin> set pre" "CHR 0x60 \<notin> set post" "CHR 0x0A \<notin> set tag"
  shows "answer_text (pre @ code_fence @ tag @ CHR 0x0A # body @ code_fence @ post) = strip body"
proof -
  let ?rest = "body @ code_fence @ post"
  have after: "split_once_last code_fence (pre @ code_fence @ tag @ CHR 0x0A # ?rest) = tag @ CHR 0x0A # ?rest"
    using assms(1) by (intro split_once_at) simp_all
  have inner: "rsplit_once_first code_fence ?rest = body" "rsplit_once_first code_fence (CHR 0x0A # ?rest) = CHR 0x0A # body"
    using rsplit_once_at[of code_fence post body] rsplit_once_at[of code_fence post "CHR 0x0A # body"] assms(2) by simp_all
  have c: "contains_sub code_fence (pre @ code_fence @ tag @ CHR 0x0A # ?rest)" "contains_sub code_fence ?rest"
    "contains_sub code_fence (CHR 0x0A # ?rest)"
    using contains_middle[of code_fence body post] contains_middle[of code_fence "CHR 0x0A # body" post] contains_middle by simp_all
  show ?thesis
  proof (cases "tag = []")
    case True
    then show ?thesis using after c inner by (simp add: answer_text_def Let_def starts_with_def strip_newline)
  next
    case False
    then have "\<not> starts_with [CHR 0x0A] (tag @ CHR 0x0A # ?rest)" using assms(3) by (cases tag) (auto simp: starts_with_def)
    moreover have "split_once_last [CHR 0x0A] (tag @ CHR 0x0A # ?rest) = ?rest"
      using split_once_at[of "[CHR 0x0A]" tag ?rest] assms(3) by simp
    ultimately show ?thesis using after c inner by (simp add: answer_text_def Let_def)
  qed
qed

text \<open>A model's answer in code fences is read as the stripped text between the first line of the first code_fence and the
  last fence, whatever text without back quotes stands around it.\<close>

theorem fenced_answer_read:
  assumes "CHR 0x60 \<notin> set pre" "CHR 0x60 \<notin> set post" "CHR 0x0A \<notin> set tag"
  shows "parse_answer env (pre @ ''```'' @ tag @ CHR 0x0A # body @ ''```'' @ post) = read_object env (strip body)"
proof -
  have q: "\<not> is_space (CHR 0x60)" by code_simp
  have "strip (pre @ code_fence @ tag @ CHR 0x0A # body @ code_fence @ post) =
      lstrip pre @ code_fence @ tag @ CHR 0x0A # body @ code_fence @ rstrip post"
    using strip_stops[OF q q, of pre "[CHR 0x60, CHR 0x60] @ tag @ CHR 0x0A # body @ [CHR 0x60, CHR 0x60]" post]
    by (simp add: code_fence_def)
  moreover have "answer_text (lstrip pre @ code_fence @ tag @ CHR 0x0A # body @ code_fence @ rstrip post) = strip body"
    using assms set_lstrip[of pre] set_rstrip[of post] by (intro answer_text_fenced) auto
  ultimately show ?thesis unfolding code_fence_def by (simp add: parse_answer_def Let_def)
qed

section \<open>Entity names\<close>

text \<open>The value of a canonical name, from the items that are given under it or an alias, in their order.\<close>

fun gathered :: "string \<Rightarrow> json option \<Rightarrow> jobj \<Rightarrow> json option" where
  "gathered c acc [] = acc"
| "gathered c acc ((k, v) # d) =
     gathered c (Some (case acc of None \<Rightarrow> v | Some old \<Rightarrow> if k = c then v else joined old v)) d"

lemma normalize_value:
  "dict_get (normalize_from m acc d) c = gathered c (dict_get acc c) (filter (\<lambda>(k, v). canonical m k = c) d)"
  by (induction m acc d rule: normalize_from.induct) (auto simp: Let_def split: option.splits)

lemma normalize_names:
  "set (dict_keys (normalize_from m acc d)) = set (dict_keys acc) \<union> canonical m ` set (dict_keys d)"
  by (induction m acc d rule: normalize_from.induct) (auto simp: Let_def dict_keys_set simp del: set_map split: option.splits)
lemma aliases_name_no_alias:
  "list_all (\<lambda>(i, m). list_all (\<lambda>(a, c). case dict_get m c of None \<Rightarrow> True | Some x \<Rightarrow> x = c) m) get_alias_map"
  by code_simp

lemma canonical_idem:
  assumes "dict_get get_alias_map i = Some m"
  shows "canonical m (canonical m k) = canonical m k"
proof (cases "dict_get m k")
  case (Some c)
  then have "(k, c) \<in> set m" "(i, m) \<in> set get_alias_map" using assms by (simp_all add: map_of_SomeD)
  then have "case dict_get m c of None \<Rightarrow> True | Some x \<Rightarrow> x = c"
    using aliases_name_no_alias unfolding list_all_iff by fastforce
  then show ?thesis using Some by (auto simp: canonical_def split: option.splits)
qed (simp add: canonical_def)

text \<open>C26. For an intent with registered aliases, the names of the entities become canonical, no name is left that the
  registry would rewrite, and the value of a name is gathered from the items given under it or its aliases: the first
  one, extended by later texts, until the canonical name itself replaces it.\<close>

theorem entities_get_canonical_names:
  assumes "dict_get get_alias_map i = Some m" "i \<noteq> []"
  shows "set (dict_keys (normalize_entity_keys d (Some i))) = canonical m ` set (dict_keys d) \<and>
    list_all (\<lambda>k. canonical m k = k) (dict_keys (normalize_entity_keys d (Some i))) \<and>
    dict_get (normalize_entity_keys d (Some i)) c = gathered c None (filter (\<lambda>(k, v). canonical m k = c) d)"
proof -
  have e: "normalize_entity_keys d (Some i) = normalize_from m [] d" using assms by (simp add: normalize_entity_keys_def)
  have "list_all (\<lambda>k. canonical m k = k) (dict_keys (normalize_from m [] d))"
    unfolding list_all_iff normalize_names using canonical_idem[OF assms(1)] by auto
  then show ?thesis using normalize_value[of m "[]" d c] normalize_names[of m "[]" d] unfolding e by simp
qed

section \<open>One message\<close>

lemma call_remote_redis [simp, dest]: "call_remote env p w = (x, w1) \<Longrightarrow> iw_redis w1 = iw_redis w"
  by (auto simp: call_remote_def split: prod.splits)

lemma llm_generate_redis [dest]: "llm_generate env p w = (x, w1) \<Longrightarrow> iw_redis w1 = iw_redis w"
  by (auto simp: llm_generate_def split: option.splits prod.splits sum.splits)

lemma escalate_redis [dest]: "escalate env p r w = (x, w1) \<Longrightarrow> iw_redis w1 = iw_redis w"
  by (auto simp: escalate_def split: prod.splits sum.splits if_splits)

lemma attempts_redis [dest]: "attempts n env p w = (x, w1) \<Longrightarrow> iw_redis w1 = iw_redis w"
proof (induction n arbitrary: w)
  case (0 w)
  then show ?case
    by (fastforce simp: attempts.simps[of 0] split: prod.splits sum.splits parse_error.splits)
next
  case (Suc n w)
  from Suc.prems show ?case using Suc.IH
    by (fastforce simp: attempts.simps[of "Suc n"] split: prod.splits sum.splits parse_error.splits)
qed

lemma safe_parse_redis [dest]: "safe_parse env now m c tz w = (x, w1) \<Longrightarrow> iw_redis w1 = iw_redis w"
  by (auto simp: safe_parse_def parse_def split: prod.splits sum.splits if_splits)

lemma route_redis: "route_and_parse env now m c tz w = (x, w1) \<Longrightarrow> iw_redis w1 = iw_redis w"
  by (auto simp: route_and_parse_def split: prod.splits sum.splits)

lemma route_session:
  "route_and_parse env now m c tz w = (Inr (r, c1), w1) \<Longrightarrow> \<exists>t. c1 = c \<lparr>sn_tier := t\<rparr>"
  by (auto simp: route_and_parse_def split: prod.splits sum.splits if_splits intro: exI[of _ "sn_tier c"])

section \<open>Runs\<close>

datatype intake_request =
    Send int string string string "string option" string
  | Reset int string string

fun request_at :: "intake_request \<Rightarrow> int" where
  "request_at (Send now fresh user message sid tz) = now"
| "request_at (Reset now user sid) = now"

fun request_user :: "intake_request \<Rightarrow> string" where
  "request_user (Send now fresh user message sid tz) = user"
| "request_user (Reset now user sid) = user"

fun handle_request :: "('s, 'w, 'z) intake_env_scheme \<Rightarrow> intake_request \<Rightarrow> ('s, 'w) intake_world \<Rightarrow> ('s, 'w) intake_world" where
  "handle_request env (Send now fresh user message sid tz) w = snd (process_message env now fresh user message sid tz w)"
| "handle_request env (Reset now user sid) w = snd (reset_session env now user sid w)"

definition handle_requests :: "('s, 'w, 'z) intake_env_scheme \<Rightarrow> intake_request list \<Rightarrow> ('s, 'w) intake_world \<Rightarrow> ('s, 'w) intake_world" where
  "handle_requests env rs w = fold (handle_request env) rs w"

primrec sent_by :: "string \<Rightarrow> intake_request list \<Rightarrow> string list" where
  "sent_by u [] = []"
| "sent_by u (r # rs) = (case r of Send now fresh user message sid tz \<Rightarrow> if user = u then [message] else [] | _ \<Rightarrow> []) @ sent_by u rs"

lemma sent_by_append [simp]: "sent_by u (rs @ qs) = sent_by u rs @ sent_by u qs"
  by (induction rs) simp_all

section \<open>Sessions stay with their user\<close>

lemma session_key_inject:
  assumes "CHR '':'' \<notin> set u" "CHR '':'' \<notin> set v" "session_key u i = session_key v j"
  shows "u = v \<and> i = j"
proof -
  have "u @ CHR '':'' # i = v @ CHR '':'' # j" using assms(3) by (simp add: session_key_def)
  then have "split_on (CHR '':'') (u @ CHR '':'' # i) = split_on (CHR '':'') (v @ CHR '':'' # j)" by simp
  then have "u = v" using assms(1,2) by (simp add: split_on_append)
  then show ?thesis using \<open>u @ CHR '':'' # i = v @ CHR '':'' # j\<close> by simp
qed

definition own_session :: "('s, 'w, 'z) intake_env_scheme \<Rightarrow> string list \<Rightarrow> string \<Rightarrow> string \<Rightarrow> session \<Rightarrow> bool" where
  "own_session env sent u i c \<longleftrightarrow> sn_user c = u \<and> sn_id c = i \<and> subseq (map tn_message (sn_turns c)) sent \<and>
     length (sn_turns c) \<le> nv_max_turns env"

lemma own_session_more: "own_session env sent u i c \<Longrightarrow> own_session env (sent @ later) u i c"
  by (auto simp: own_session_def intro: list_emb_append2)

text \<open>From the instant \<open>t\<close> on, what is stored for \<open>u\<close> is a session of \<open>u\<close>.\<close>

definition sessions_own ::
  "('s \<Rightarrow> int \<Rightarrow> string \<Rightarrow> rval option) \<Rightarrow> ('s, 'w, 'z) intake_env_scheme \<Rightarrow> intake_request list \<Rightarrow> int \<Rightarrow> 's \<Rightarrow> bool" where
  "sessions_own lk env rs t s \<longleftrightarrow> (\<forall>t' u i v c. t \<le> t' \<longrightarrow> CHR '':'' \<notin> set u \<longrightarrow> lk s t' (session_key u i) = Some (RStr v) \<longrightarrow>
     nv_decode env v = Some c \<longrightarrow> own_session env (sent_by u rs) u i c)"

lemma sessions_ownD:
  "sessions_own lk env rs t s \<Longrightarrow> t \<le> t' \<Longrightarrow> CHR '':'' \<notin> set u \<Longrightarrow> lk s t' (session_key u i) = Some (RStr v) \<Longrightarrow>
   nv_decode env v = Some c \<Longrightarrow> own_session env (sent_by u rs) u i c"
  unfolding sessions_own_def by blast

lemma sessions_own_later:
  "sessions_own lk env rs t s \<Longrightarrow> t \<le> t' \<Longrightarrow> sessions_own lk env (rs @ qs) t' s"
  unfolding sessions_own_def by (metis own_session_more order_trans sent_by_append)

lemma merge_fields [simp]: "sn_id (merge_parse_result c r) = sn_id c" "sn_user (merge_parse_result c r) = sn_user c"
  "sn_turns (merge_parse_result c r) = sn_turns c"
  by (simp_all add: merge_parse_result_def Let_def)

lemma after_message_fields [simp]:
  "sn_id (after_message now m r c) = sn_id c" "sn_user (after_message now m r c) = sn_user c"
  "map tn_message (sn_turns (after_message now m r c)) = map tn_message (sn_turns c) @ [m]"
  "length (sn_turns (after_message now m r c)) = length (sn_turns c) + 1"
  by (simp_all add: after_message_def turn_of_def Let_def)

lemma resolved_own:
  assumes "redis_store (nv_redis env) lk" "sessions_own lk env rs now s" "CHR '':'' \<notin> set u"
    and "resolve_session env now fresh u sid s = Inr c"
  shows "\<exists>i. own_session env (sent_by u rs) u i c"
proof (cases "c = new_session (''ses_'' @ fresh) u now")
  case True
  then show ?thesis by (auto simp: own_session_def new_session_def)
next
  case False
  then obtain i v where "rd_get (nv_redis env) now (session_key u i) s = Some (Some v)" "nv_decode env v = Some c"
    using assms(4) by (auto simp: resolve_session_def get_session_def bind_res_def split: option.splits if_splits sum.splits)
  then show ?thesis using sessions_ownD[OF assms(2) _ assms(3)] redis_store.get_SomeD[OF assms(1)] by blast
qed

lemma saved_own:
  assumes "redis_store (nv_redis env) lk" "\<And>c d. nv_decode env (nv_encode env c) = Some d \<Longrightarrow> d = c"
    and "sessions_own lk env rs now s" "own_session env (sent_by (sn_user c) rs) (sn_user c) (sn_id c) c" "CHR '':'' \<notin> set (sn_user c)"
  shows "sessions_own lk env rs now (snd (save_session env now c s))"
proof (cases "rd_set (nv_redis env) now (session_key (sn_user c) (sn_id c)) (nv_encode env c) (Some (nv_ttl env)) False s")
  case (Some p)
  obtain b s1 where p: "p = (b, s1)" by fastforce
  note law = redis_store.set_law[OF assms(1) Some[unfolded p]]
  have "own_session env (sent_by u rs) u i d"
    if a: "now \<le> t'" "CHR '':'' \<notin> set u" "lk s1 t' (session_key u i) = Some (RStr v)" "nv_decode env v = Some d" for t' u i v d
  proof (cases "session_key u i = session_key (sn_user c) (sn_id c)")
    case True
    then have "u = sn_user c \<and> i = sn_id c" using session_key_inject a(2) assms(5) by blast
    moreover have "v = nv_encode env c" using law a(1,3) True by (auto split: if_splits)
    ultimately show ?thesis using assms(2)[of c d] a(4) assms(4) by auto
  next
    case False
    then have "lk s t' (session_key u i) = Some (RStr v)" using law a(1,3) by auto
    then show ?thesis using sessions_ownD[OF assms(3) a(1,2) _ a(4)] by simp
  qed
  then show ?thesis using Some p by (simp add: save_session_def sessions_own_def)
qed (simp add: save_session_def assms(3))

lemma deleted_own:
  assumes "redis_store (nv_redis env) lk" "sessions_own lk env rs now s"
  shows "sessions_own lk env rs now (snd (delete_session env now u i s))"
proof (cases "rd_del (nv_redis env) now (session_key u i) s")
  case (Some p)
  obtain b s1 where p: "p = (b, s1)" by fastforce
  have "sessions_own lk env rs now s1"
    using assms(2) redis_store.del_law[OF assms(1) Some[unfolded p]] unfolding sessions_own_def by (auto split: if_splits)
  then show ?thesis using Some p by (simp add: delete_session_def)
qed (simp add: delete_session_def assms(2))

lemma process_own:
  assumes "redis_store (nv_redis env) lk" "\<And>c d. nv_decode env (nv_encode env c) = Some d \<Longrightarrow> d = c"
    and "sessions_own lk env rs now (iw_redis w)" "CHR '':'' \<notin> set u"
  shows "sessions_own lk env (rs @ [Send now fresh u m sid tz]) now (iw_redis (snd (process_message env now fresh u m sid tz w)))"
proof -
  let ?q = "Send now fresh u m sid tz"
  have keep: "sessions_own lk env (rs @ [?q]) now (iw_redis w)" using sessions_own_later[OF assms(3)] by simp
  show ?thesis
  proof (cases "resolve_session env now fresh u sid (iw_redis w)")
    case (Inr c)
    obtain i where own: "own_session env (sent_by u rs) u i c" using resolved_own[OF assms(1,3,4) Inr] by blast
    obtain x w1 where r: "route_and_parse env now m c tz w = (x, w1)" by fastforce
    have w1: "iw_redis w1 = iw_redis w" by (rule route_redis[OF r])
    show ?thesis
    proof (cases "nv_max_turns env \<le> length (sn_turns c)")
      case False
      show ?thesis
      proof (cases x)
        case (Inr y)
        obtain q c1 where y: "y = (q, c1)" by fastforce
        obtain t where c1: "c1 = c \<lparr>sn_tier := t\<rparr>" using route_session r Inr y by blast
        let ?c2 = "after_message now m q c1"
        have "own_session env (sent_by u (rs @ [?q])) u i ?c2"
          using own False c1 by (auto simp: own_session_def intro: list_emb_append_mono)
        then have "sessions_own lk env (rs @ [?q]) now (snd (save_session env now ?c2 (iw_redis w)))"
          using saved_own[OF assms(1,2) keep] own assms(4) c1 by (simp add: own_session_def)
        then show ?thesis using \<open>resolve_session env now fresh u sid (iw_redis w) = Inr c\<close> False r Inr y w1
          by (auto simp: process_message_def Let_def split: prod.split sum.split)
      qed (use \<open>resolve_session env now fresh u sid (iw_redis w) = Inr c\<close> False r w1 keep in \<open>simp add: process_message_def\<close>)
    qed (use Inr keep in \<open>simp add: process_message_def\<close>)
  qed (use keep in \<open>simp add: process_message_def\<close>)
qed

lemma requests_own:
  assumes "redis_store (nv_redis env) lk" "\<And>c d. nv_decode env (nv_encode env c) = Some d \<Longrightarrow> d = c"
    and "\<And>u i t. lk (iw_redis w) t (session_key u i) = None"
  shows "sorted (map request_at rs) \<Longrightarrow> list_all (\<lambda>r. CHR '':'' \<notin> set (request_user r)) rs \<Longrightarrow> list_all (\<lambda>r. request_at r \<le> t) rs \<Longrightarrow>
    sessions_own lk env rs t (iw_redis (handle_requests env rs w))"
proof (induction rs arbitrary: t rule: rev_induct)
  case Nil
  then show ?case using assms(3) by (simp add: handle_requests_def sessions_own_def)
next
  case (snoc r rs)
  let ?w = "handle_requests env rs w"
  have own: "sessions_own lk env rs (request_at r) (iw_redis ?w)"
    using snoc.prems by (intro snoc.IH) (auto simp: sorted_append list_all_iff)
  have "sessions_own lk env (rs @ [r]) (request_at r) (iw_redis (handle_request env r ?w))"
  proof (cases r)
    case (Send now fresh u m sid tz)
    then show ?thesis using process_own[OF assms(1,2), of rs now ?w u fresh m sid tz] own snoc.prems by (simp add: list_all_iff)
  next
    case (Reset now u sid)
    have "sessions_own lk env (rs @ [r]) now (iw_redis ?w)" using sessions_own_later own Reset by fastforce
    then have "sessions_own lk env (rs @ [r]) now (snd (delete_session env now u sid (iw_redis ?w)))"
      by (rule deleted_own[OF assms(1)])
    then show ?thesis using Reset by (auto simp: reset_session_def split: prod.split sum.split)
  qed
  then show ?case using sessions_own_later[of lk env "rs @ [r]" "request_at r" _ t "[]"] snoc.prems
    by (simp add: handle_requests_def)
qed

text \<open>C15. Whatever messages and resets come in, with whatever session identifiers, models and failures, a session stored
  for a user is a session of this user, holds messages this user sent, in their order, and no more turns than allowed
  (for user identifiers without a colon, in a store that held no session).\<close>

theorem sessions_stay_with_user:
  assumes "redis_store (nv_redis env) lk" "\<And>c d. nv_decode env (nv_encode env c) = Some d \<Longrightarrow> d = c"
    and "\<And>u i t. lk (iw_redis w) t (session_key u i) = None"
    and "sorted (map request_at rs)" "list_all (\<lambda>r. CHR '':'' \<notin> set (request_user r) \<and> request_at r \<le> now) rs"
    and "CHR '':'' \<notin> set u" "get_session env now u i (iw_redis (handle_requests env rs w)) = Inr (Some c)"
  shows "sn_user c = u \<and> sn_id c = i \<and> subseq (map tn_message (sn_turns c)) (sent_by u rs) \<and>
    length (sn_turns c) \<le> nv_max_turns env"
proof -
  have "sessions_own lk env rs now (iw_redis (handle_requests env rs w))"
    using requests_own[OF assms(1-3)] assms(4,5) by (simp add: list_all_iff)
  moreover obtain v where "rd_get (nv_redis env) now (session_key u i) (iw_redis (handle_requests env rs w)) = Some (Some v)"
    "nv_decode env v = Some c" using assms(7) by (auto simp: get_session_def split: option.splits)
  ultimately have "own_session env (sent_by u rs) u i c"
    using sessions_ownD[OF _ _ assms(6), where i = i] redis_store.get_SomeD[OF assms(1)] order_refl by metis
  then show ?thesis by (simp add: own_session_def)
qed

section \<open>Failures\<close>

lemma resolve_error: "resolve_session env now fresh u sid s = Inl e \<Longrightarrow> e = Store_unavailable \<or> e = Corrupt_session"
  by (auto simp: resolve_session_def get_session_def bind_res_def split: option.splits sum.splits if_splits)

lemma route_error: "route_and_parse env now m c tz w = (Inl e, w1) \<Longrightarrow> e = Rate_limited"
  by (auto simp: route_and_parse_def safe_parse_def split: prod.splits sum.splits if_splits)

text \<open>C25. A message that is not answered leaves Redis as it was, and the reason is one of four: the store is down or holds
  an unreadable session, the session is at its limit, or the reason of the parser looks like a rate limit.
  Assumed: a Redis command whose client raises has had no effect.\<close>

theorem failed_message_stores_nothing:
  assumes "process_message env now fresh u m sid tz w = (Inl e, w')"
  shows "iw_redis w' = iw_redis w \<and>
    (e = Store_unavailable \<or> e = Corrupt_session \<or> e = Rate_limited \<or> (\<exists>i. e = Max_turns_exceeded i (nv_max_turns env)))"
proof (cases "resolve_session env now fresh u sid (iw_redis w)")
  case (Inl x)
  then show ?thesis using assms by (auto simp: process_message_def dest: resolve_error)
next
  case (Inr c)
  obtain x w1 where r: "route_and_parse env now m c tz w = (x, w1)" by fastforce
  have w1: "iw_redis w1 = iw_redis w" by (rule route_redis[OF r])
  show ?thesis
  proof (cases x)
    case (Inl y)
    then show ?thesis using assms \<open>resolve_session env now fresh u sid (iw_redis w) = Inr c\<close> r w1 route_error[of env now m c tz w y w1]
      by (auto simp: process_message_def split: if_splits)
  next
    case x: (Inr y)
    obtain q c1 where y: "y = (q, c1)" by fastforce
    show ?thesis using assms Inr r w1 x y
      by (auto simp: process_message_def save_session_def Let_def split: if_splits option.splits prod.splits)
  qed
qed

text \<open>A parser that fails twice is answered as if the user had said nothing new: with an intent from before the status is
  \<open>ready\<close>, and what the message asked for is lost.\<close>

theorem unreadable_answer_still_ready:
  assumes "resolve_session env now fresh u sid (iw_redis w) = Inr c" "length (sn_turns c) < nv_max_turns env" "has_intent c"
    and "parse env now m c tz w = (Inl reason, w1)" "\<not> is_rate_limited reason"
    and "process_message env now fresh u m sid tz w = (Inr a, w2)"
  shows "ir_status a = Ready \<and> ir_intent a = sn_intent c \<and> ir_entities a = sn_entities c \<and> ir_turn_count a = length (sn_turns c) + 1"
proof -
  have s: "safe_parse env now m c tz w = (Inr empty_parse, w1)" using assms(4,5) by (simp add: safe_parse_def)
  obtain t where r: "route_and_parse env now m c tz w = (Inr (empty_parse, c \<lparr>sn_tier := t\<rparr>), w1)"
    using route_session[of env now m c tz w] s by (fastforce simp: route_and_parse_def intro: exI[of _ "sn_tier c"])
  have "a = intake_answer (after_message now m empty_parse (c \<lparr>sn_tier := t\<rparr>))"
    using assms(1,2,6) r by (auto simp: process_message_def save_session_def Let_def split: option.splits prod.splits)
  then show ?thesis using assms(3)
    by (simp add: intake_answer_def after_message_def merge_parse_result_def empty_parse_def has_intent_def entities_update_def
        normalize_entity_keys_def Let_def split: option.split)
qed

lemma position_429_is_a_rate_limit: "is_rate_limited ''Invalid JSON: Expecting value: line 1 column 430 (char 429)''"
  by code_simp

section \<open>Witnesses\<close>

definition mail_answer :: json where
  "mail_answer = JObj [(''intent'', JStr ''send_email''), (''entities'', JObj [(''to'', JStr ''bob'')]), (''confidence'', JInt 85)]"

definition first_turn :: session where
  "first_turn = (new_session ''ses_A'' ''ana'' 0) \<lparr>sn_intent := Some ''send_email'', sn_entities := [(''recipient'', JStr ''bob'')],
     sn_tier := Some ''remote'',
     sn_turns := [\<lparr>tn_message = ''mail bob'', tn_reply = None, tn_at = 0, tn_intent = Some ''send_email'',
       tn_entities = [(''to'', JStr ''bob'')], tn_constraints = []\<rparr>]\<rparr>"

text \<open>The model answers in fences to the first call, and is out of order afterwards.\<close>

definition chat_env :: "(mem, bool) intake_env" where
  "chat_env = \<lparr>nv_prompt_base = [], nv_schema_header = [], nv_model = ''m'', nv_local_model = [], nv_threshold = 4 / 5, nv_local = None,
     nv_remote = (\<lambda>_ _ _ b. (if b then Inr ([CHR 0x60, CHR 0x60, CHR 0x60] @ ''json'' @ [CHR 0x0A] @ ''{}'' @ [CHR 0x60, CHR 0x60, CHR 0x60]) else Inl ''down'', False)),
     nv_loads = (\<lambda>x. if x = ''{}'' then Inr mail_answer else Inl ''bad''), nv_dumps = (\<lambda>_. []), nv_float = (\<lambda>_. None),
     nv_invalid = (\<lambda>_. []), nv_offset = (\<lambda>_. 0), nv_redis = mem_redis, nv_encode = (\<lambda>c. if c = first_turn then ''1'' else ''0''),
     nv_decode = (\<lambda>x. if x = ''1'' then Some first_turn else None), nv_max_turns = 20, nv_ttl = 86400\<rparr>"

definition chat_start :: "(mem, bool) intake_world" where
  "chat_start = \<lparr>iw_redis = [], iw_llm = True, iw_last_provider = ''remote''\<rparr>"

definition mail_parse :: parse_result where
  "mail_parse = \<lparr>pq_intent = Some ''send_email'', pq_entities = [(''to'', JStr ''bob'')], pq_constraints = [],
     pq_sub_intents = [], pq_confidence = Some (17 / 20), pq_escalated = False\<rparr>"

lemma chat_fields [simp]:
  "nv_local chat_env = None" "nv_redis chat_env = mem_redis" "nv_max_turns chat_env = 20" "nv_ttl chat_env = 86400"
  "nv_encode chat_env c = (if c = first_turn then ''1'' else ''0'')" "nv_decode chat_env x = (if x = ''1'' then Some first_turn else None)"
  "nv_loads chat_env x = (if x = ''{}'' then Inr mail_answer else Inl ''bad'')" "nv_float chat_env = (\<lambda>_. None)"
  "nv_remote chat_env a p q b = (if b then Inr ([CHR 0x60, CHR 0x60, CHR 0x60] @ ''json'' @ [CHR 0x0A] @ ''{}'' @ [CHR 0x60, CHR 0x60, CHR 0x60]) else Inl ''down'', False)"
  by (simp_all add: chat_env_def)

lemma read_mail: "read_object chat_env ''{}'' = Inr mail_parse"
proof -
  have "\<not> too_big 85" by (simp add: too_big_def)
  then show ?thesis by (simp add: read_object_def mail_answer_def parse_result_of_def jget_def scaled_def mail_parse_def)
qed

lemma mail_text: "answer_text (strip ([CHR 0x60, CHR 0x60, CHR 0x60] @ ''json'' @ [CHR 0x0A] @ ''{}'' @ [CHR 0x60, CHR 0x60, CHR 0x60])) = ''{}''"
  "strip ([CHR 0x60, CHR 0x60, CHR 0x60] @ ''json'' @ [CHR 0x0A] @ ''{}'' @ [CHR 0x60, CHR 0x60, CHR 0x60]) \<noteq> []"
  by code_simp+

lemma chat_parse: "parse chat_env now m c tz chat_start = (Inr mail_parse, chat_start \<lparr>iw_llm := False\<rparr>)"
proof -
  have "parse_answer chat_env ([CHR 0x60, CHR 0x60, CHR 0x60] @ ''json'' @ [CHR 0x0A] @ ''{}'' @ [CHR 0x60, CHR 0x60, CHR 0x60]) = Inr mail_parse"
    using mail_text read_mail by (simp add: parse_answer_def Let_def)
  then show ?thesis
    by (simp add: parse_def attempts.simps llm_generate_def call_remote_def escalate_def chat_start_def)
qed

lemma mail_aliases: "normalize_entity_keys [(''to'', JStr ''bob'')] (Some ''send_email'') = [(''recipient'', JStr ''bob'')]"
  by code_simp

definition chat_store :: mem where
  "chat_store = [(session_key ''ana'' ''ses_A'', (RStr ''1'', Some (86400 * sec)))]"

lemma chat_first:
  "process_message chat_env 0 ''A'' ''ana'' ''mail bob'' None ''UTC'' chat_start =
     (Inr (intake_answer first_turn), \<lparr>iw_redis = chat_store, iw_llm = False, iw_last_provider = ''remote''\<rparr>)"
proof -
  let ?c = "new_session ''ses_A'' ''ana'' 0"
  have r: "resolve_session chat_env 0 ''A'' ''ana'' None (iw_redis chat_start) = Inr ?c"
    by (simp add: resolve_session_def)
  have p: "route_and_parse chat_env 0 ''mail bob'' ?c ''UTC'' chat_start =
      (Inr (mail_parse, ?c \<lparr>sn_tier := Some ''remote''\<rparr>), chat_start \<lparr>iw_llm := False\<rparr>)"
    by (simp add: route_and_parse_def safe_parse_def chat_parse served_by_def new_session_def)
  have a: "after_message 0 ''mail bob'' mail_parse (?c \<lparr>sn_tier := Some ''remote''\<rparr>) = first_turn"
    by (simp add: after_message_def merge_parse_result_def mail_parse_def mail_aliases[simplified] entities_update_def new_session_def
        first_turn_def turn_of_def follow_up_of_def has_intent_def Let_def)
  have k: "session_key (sn_user first_turn) (sn_id first_turn) = session_key ''ana'' ''ses_A''"
    by (simp add: first_turn_def new_session_def)
  show ?thesis using r p a
    by (simp add: process_message_def Let_def save_session_def k mem_redis_def chat_store_def chat_start_def new_session_def)
qed

lemma chat_get: "get_session chat_env 5 ''ana'' ''ses_A'' chat_store = Inr (Some first_turn)"
  by (simp add: get_session_def chat_store_def mem_redis_def mem_lookup_def sec_def)

theorem fenced_answer_read_witness:
  "parse_answer chat_env (''Here: '' @ ''```'' @ ''json'' @ CHR 0x0A # ''{}'' @ ''```'' @ '' done'') = Inr mail_parse"
proof -
  have "strip ''{}'' = ''{}''" by code_simp
  then show ?thesis using fenced_answer_read[of "''Here: ''" "'' done''" "''json''" chat_env "''{}''"] read_mail by simp
qed

theorem entities_get_canonical_names_witness:
  "dict_get (normalize_entity_keys [(''to'', JStr ''bob''), (''attendee'', JStr ''eve'')] (Some ''send_email'')) ''recipient'' =
     Some (JStr ''bob eve'')"
proof -
  obtain m where m: "dict_get get_alias_map ''send_email'' = Some m"
    and c: "canonical m ''to'' = ''recipient''" "canonical m ''attendee'' = ''recipient''"
  proof -
    have "(case dict_get get_alias_map ''send_email'' of None \<Rightarrow> False
      | Some m \<Rightarrow> canonical m ''to'' = ''recipient'' \<and> canonical m ''attendee'' = ''recipient'')" by code_simp
    then show ?thesis using that by (auto split: option.splits)
  qed
  show ?thesis
    using entities_get_canonical_names[OF m, of "[(''to'', JStr ''bob''), (''attendee'', JStr ''eve'')]" "''recipient''"] c
    by (simp add: joined_def)
qed

theorem sessions_stay_with_user_witness:
  "get_session chat_env 5 ''ana'' ''ses_A'' (iw_redis (handle_requests chat_env [Send 0 ''A'' ''ana'' ''mail bob'' None ''UTC''] chat_start)) =
     Inr (Some first_turn) \<and> subseq (map tn_message (sn_turns first_turn)) (sent_by ''ana'' [Send 0 ''A'' ''ana'' ''mail bob'' None ''UTC''])"
proof -
  let ?rs = "[Send 0 ''A'' ''ana'' ''mail bob'' None ''UTC'']"
  have s: "iw_redis (handle_requests chat_env ?rs chat_start) = chat_store" by (simp add: handle_requests_def chat_first)
  have rd: "redis_store (nv_redis chat_env) mem_lookup" by (simp add: mem_store.redis_store_axioms)
  have g: "get_session chat_env 5 ''ana'' ''ses_A'' (iw_redis (handle_requests chat_env ?rs chat_start)) = Inr (Some first_turn)"
    using chat_get s by simp
  have "subseq (map tn_message (sn_turns first_turn)) (sent_by ''ana'' ?rs)"
    by (rule sessions_stay_with_user[OF rd _ _ _ _ _ g, THEN conjunct2, THEN conjunct2, THEN conjunct1])
      (simp_all add: chat_start_def mem_lookup_def split: if_splits)
  then show ?thesis using g by simp
qed

theorem failed_message_stores_nothing_witness:
  "(let w = \<lparr>iw_redis = chat_store, iw_llm = False, iw_last_provider = ''remote''\<rparr>; env = chat_env \<lparr>nv_max_turns := 1\<rparr> in
     process_message env 5 ''B'' ''ana'' ''mail eve'' (Some ''ses_A'') ''UTC'' w = (Inl (Max_turns_exceeded ''ses_A'' 1), w) \<and>
     iw_redis w = chat_store)"
proof -
  let ?w = "\<lparr>iw_redis = chat_store, iw_llm = False, iw_last_provider = ''remote''\<rparr>" and ?e = "chat_env \<lparr>nv_max_turns := 1\<rparr>"
  have "get_session ?e 5 ''ana'' ''ses_A'' chat_store = Inr (Some first_turn)"
    by (simp add: get_session_def chat_store_def mem_redis_def mem_lookup_def sec_def)
  then have p: "process_message ?e 5 ''B'' ''ana'' ''mail eve'' (Some ''ses_A'') ''UTC'' ?w = (Inl (Max_turns_exceeded ''ses_A'' 1), ?w)"
    by (simp add: process_message_def resolve_session_def) (simp add: first_turn_def new_session_def)
  then show ?thesis using failed_message_stores_nothing[OF p] by (simp add: Let_def)
qed

end
