(* ===== verification/Secret_Codec.thy ===== *)
theory Secret_Codec
  imports Py_Strings Json_Value "HOL-Library.Word"
begin

unbundle bit_operations_syntax

text \<open>
  Encryption at rest (\<open>shared/security/encryption.py\<close> and \<open>components/ProfileStore/adapters/encryption.py\<close>): the text
  of a value is encrypted with AES-256-GCM under a fresh initialization vector and stored as two Base64 texts around a
  colon. Base64 is the standard library's: the encoder with padding, and the lenient decoder, which skips characters
  outside of the alphabet. The cipher and the JSON text of a value are parameters.
\<close>

section \<open>Base64\<close>

type_synonym bytes = "8 word list"

definition b64_alphabet :: string where
  "b64_alphabet = ''ABCDEFGHIJKLMNOPQRSTUVWXYZabcdefghijklmnopqrstuvwxyz0123456789+/''"

definition b64_char :: "8 word \<Rightarrow> char" where
  "b64_char w = b64_alphabet ! unat (take_bit 6 w)"

text \<open>The sextet of a character, if it has one.\<close>

definition b64_value :: "char \<Rightarrow> 8 word option" where
  "b64_value c = (if c \<in> set b64_alphabet then Some (word_of_nat (length (takeWhile (\<lambda>x. x \<noteq> c) b64_alphabet))) else None)"

definition sextets :: "8 word \<Rightarrow> 8 word \<Rightarrow> 8 word \<Rightarrow> 8 word list" where
  "sextets a b c = [drop_bit 2 a, push_bit 4 (take_bit 2 a) OR drop_bit 4 b, push_bit 2 (take_bit 4 b) OR drop_bit 6 c, take_bit 6 c]"

fun b64encode :: "bytes \<Rightarrow> string" where
  "b64encode [] = []"
| "b64encode [a] = map b64_char (take 2 (sextets a 0 0)) @ ''==''"
| "b64encode [a, b] = map b64_char (take 3 (sextets a b 0)) @ ''=''"
| "b64encode (a # b # c # bs) = map b64_char (sextets a b c) @ b64encode bs"

text \<open>\<open>pos\<close> counts the sextets of the current quadruple, \<open>left\<close> holds the bits not yet written, \<open>pads\<close> the padding
  characters in a row. \<open>None\<close> is \<open>binascii.Error\<close>.\<close>

fun b64_scan :: "nat \<Rightarrow> 8 word \<Rightarrow> nat \<Rightarrow> string \<Rightarrow> bytes option" where
  "b64_scan pos left pads [] = (if pos = 0 then Some [] else None)"
| "b64_scan pos left pads (c # cs) =
     (if c = CHR ''='' then
        (if 2 \<le> pos \<and> 4 \<le> pos + pads + 1 then Some []
         else b64_scan pos left (if 2 \<le> pos then pads + 1 else pads) cs)
      else case b64_value c of
        None \<Rightarrow> b64_scan pos left pads cs
      | Some v \<Rightarrow>
          (if pos = 0 then b64_scan 1 v 0 cs
           else if pos = 1 then map_option ((#) (push_bit 2 left OR drop_bit 4 v)) (b64_scan 2 (take_bit 4 v) 0 cs)
           else if pos = 2 then map_option ((#) (push_bit 4 left OR drop_bit 2 v)) (b64_scan 3 (take_bit 2 v) 0 cs)
           else map_option ((#) (push_bit 6 left OR v)) (b64_scan 0 0 0 cs)))"

definition is_ascii :: "string \<Rightarrow> bool" where
  "is_ascii s \<longleftrightarrow> list_all (\<lambda>c. (of_char c :: nat) < 128) s"

text \<open>\<open>base64.b64decode\<close>: a text that is not ASCII is refused as well.\<close>

definition b64decode :: "string \<Rightarrow> bytes option" where
  "b64decode s = (if is_ascii s then b64_scan 0 0 0 s else None)"

lemma b64_alphabet_length: "length b64_alphabet = 64" "distinct b64_alphabet"
  by code_simp+

lemma b64_specials: "CHR ''='' \<notin> set b64_alphabet" "CHR '':'' \<notin> set b64_alphabet"
  by code_simp+

lemma unat_sextet: "unat (take_bit 6 (w :: 8 word)) < 64"
  using take_bit_nat_less_exp[of 6 "unat w"] by (simp add: unsigned_take_bit_eq)

lemma b64_char_in [simp]: "b64_char w \<in> set b64_alphabet"
  using unat_sextet[of w] b64_alphabet_length by (simp add: b64_char_def)

lemma b64_char_not [simp]: "b64_char w \<noteq> CHR ''=''" "b64_char w \<noteq> CHR '':''"
  using b64_specials b64_char_in by metis+

lemma takeWhile_neq_nth: "distinct xs \<Longrightarrow> i < length xs \<Longrightarrow> length (takeWhile (\<lambda>x. x \<noteq> xs ! i) xs) = i"
  by (induction xs arbitrary: i) (auto simp: nth_Cons split: nat.splits)

lemma b64_value_char [simp]: "b64_value (b64_char w) = Some (take_bit 6 w)"
proof -
  have i: "unat (take_bit 6 w) < length b64_alphabet" using unat_sextet b64_alphabet_length by simp
  have "length (takeWhile (\<lambda>x. x \<noteq> b64_char w) b64_alphabet) = unat (take_bit 6 w)"
    unfolding b64_char_def by (rule takeWhile_neq_nth[OF b64_alphabet_length(2) i])
  then show ?thesis by (simp add: b64_value_def)
qed

lemma byte_eqI:
  assumes "bit v 0 = bit w 0" "bit v 1 = bit w 1" "bit v 2 = bit w 2" "bit v 3 = bit w 3"
    "bit v 4 = bit w 4" "bit v 5 = bit w 5" "bit v 6 = bit w 6" "bit v 7 = bit w 7"
  shows "v = (w :: 8 word)"
proof (rule bit_word_eqI)
  fix n assume "n < LENGTH(8)"
  then have "n = 0 \<or> n = 1 \<or> n = 2 \<or> n = 3 \<or> n = 4 \<or> n = 5 \<or> n = 6 \<or> n = 7" by auto
  then show "bit v n = bit w n" using assms by blast
qed

lemma no_high_bit [simp]: "8 \<le> n \<Longrightarrow> \<not> bit (w :: 8 word) n"
  using bit_imp_le_length[of w n] by auto

lemma sextet_bits:
  fixes a b c :: "8 word"
  shows "push_bit 2 (take_bit 6 (drop_bit 2 a)) OR drop_bit 4 (take_bit 6 (push_bit 4 (take_bit 2 a) OR drop_bit 4 b)) = a"
    "push_bit 4 (take_bit 4 (take_bit 6 (push_bit 4 (take_bit 2 a) OR drop_bit 4 b))) OR
       drop_bit 2 (take_bit 6 (push_bit 2 (take_bit 4 b) OR drop_bit 6 c)) = b"
    "push_bit 6 (take_bit 2 (take_bit 6 (push_bit 2 (take_bit 4 b) OR drop_bit 6 c))) OR take_bit 6 (take_bit 6 c) = c"
  by (rule byte_eqI; simp add: bit_simps)+

lemma b64_scan_sextets:
  "b64_scan 0 0 0 (map b64_char (sextets a b c) @ s) = map_option (\<lambda>bs. a # b # c # bs) (b64_scan 0 0 0 s)"
  using sextet_bits[of a b] sextet_bits[of b c] sextet_bits[of c]
  by (simp add: sextets_def option.map_comp comp_def del: take_bit_or push_bit_or drop_bit_or)

lemma b64_scan_ends:
  "b64_scan 0 0 0 (map b64_char (take 2 (sextets a 0 0)) @ ''=='') = Some [a]"
  "b64_scan 0 0 0 (map b64_char (take 3 (sextets a b 0)) @ ''='') = Some [a, b]"
  using sextet_bits(1)[of a 0] sextet_bits(1)[of a b] sextet_bits(2)[of a b 0]
  by (simp_all add: sextets_def del: take_bit_or push_bit_or drop_bit_or)

lemma b64_alphabet_ascii: "is_ascii b64_alphabet" "is_ascii ''=''"
  by code_simp+

lemma b64encode_chars: "set (b64encode bs) \<subseteq> insert (CHR ''='') (set b64_alphabet)"
  by (induction bs rule: b64encode.induct) (auto simp: sextets_def)

lemma b64encode_ascii: "is_ascii (b64encode bs)"
  using b64_alphabet_ascii b64encode_chars[of bs] by (auto simp: is_ascii_def list_all_iff)

lemma b64_roundtrip: "b64decode (b64encode bs) = Some bs"
  unfolding b64decode_def if_P[OF b64encode_ascii]
  by (induction bs rule: b64encode.induct) (simp_all only: b64encode.simps b64_scan_sextets b64_scan_ends b64_scan.simps, simp_all)

lemma b64encode_no_colon: "CHR '':'' \<notin> set (b64encode bs)"
  by (induction bs rule: b64encode.induct) (auto simp: sextets_def dest: sym)

section \<open>UTF-8\<close>

text \<open>Of characters below 256; the decoder answers \<open>None\<close> on other byte sequences.\<close>

fun utf8_char :: "char \<Rightarrow> bytes" where
  "utf8_char c = (let n = of_char c :: nat in if n < 128 then [word_of_nat n]
     else [word_of_nat (192 + n div 64), word_of_nat (128 + n mod 64)])"

definition utf8_encode :: "string \<Rightarrow> bytes" where
  "utf8_encode s = concat (map utf8_char s)"

fun utf8_decode :: "bytes \<Rightarrow> string option" where
  "utf8_decode [] = Some []"
| "utf8_decode (b # bs) =
     (if unat b < 128 then map_option ((#) (char_of (unat b))) (utf8_decode bs)
      else case bs of
        [] \<Rightarrow> None
      | d # ds \<Rightarrow> if unat b \<in> {194, 195} \<and> unat d div 64 = 2
                 then map_option ((#) (char_of (unat b mod 4 * 64 + unat d mod 64))) (utf8_decode ds) else None)"

lemma of_char_byte: "(of_char c :: nat) < 256"
  using of_char_mod_256[of c, where ?'a = nat] mod_less_divisor[of 256 "of_char c :: nat"] by simp

lemma unat_byte: "n < 256 \<Longrightarrow> unat (word_of_nat n :: 8 word) = n"
  by (simp add: unat_of_nat)

lemma utf8_decode_char: "utf8_decode (utf8_char c @ bs) = map_option ((#) c) (utf8_decode bs)"
proof -
  define n where "n = (of_char c :: nat)"
  have n: "n < 256" "char_of n = c" using of_char_byte[of c] by (simp_all add: n_def)
  show ?thesis
  proof (cases "n < 128")
    case True
    then have "unat (word_of_nat n :: 8 word) = n" by (intro unat_byte) simp
    then show ?thesis using True n by (simp add: n_def[symmetric] Let_def)
  next
    case False
    then have d: "n div 64 \<in> {2, 3}" using n by auto
    then have "unat (word_of_nat (192 + n div 64) :: 8 word) = 192 + n div 64" by (intro unat_byte) auto
    moreover have "n mod 64 < 64" by simp
    then have "unat (word_of_nat (128 + n mod 64) :: 8 word) = 128 + n mod 64" by (intro unat_byte) linarith
    moreover have "(128 + n mod 64) div 64 = 2" by presburger
    moreover have "(192 + n div 64) mod 4 * 64 + (128 + n mod 64) mod 64 = n"
    proof -
      have "(192 + n div 64) mod 4 = n div 64" using d by auto
      moreover have "(128 + n mod 64) mod 64 = n mod 64" using mod_mult_self1[of "n mod 64" 2 64] by (simp add: add.commute)
      ultimately show ?thesis using div_mult_mod_eq[of n 64] by simp
    qed
    ultimately show ?thesis using False n d by (auto simp: n_def[symmetric] Let_def)
  qed
qed

lemma utf8_roundtrip: "utf8_decode (utf8_encode s) = Some s"
  by (induction s) (simp_all add: utf8_encode_def utf8_decode_char del: utf8_char.simps utf8_decode.simps(2))

section \<open>The encryption service\<close>

datatype secret_error = Bad_format | Bad_base64 | Bad_tag | Bad_text | Not_a_text

text \<open>The cipher under the key of the service; \<open>se_open\<close> answers \<open>None\<close> on \<open>InvalidTag\<close>.\<close>

record secret_env =
  se_seal :: "bytes \<Rightarrow> bytes \<Rightarrow> bytes"
  se_open :: "bytes \<Rightarrow> bytes \<Rightarrow> bytes option"
  se_dumps :: "json \<Rightarrow> string"
  se_loads :: "string \<Rightarrow> json option"

definition key_ok :: "bytes \<Rightarrow> bool" where
  "key_ok key \<longleftrightarrow> length key = 32"

definition encrypt_text :: "'z secret_env_scheme \<Rightarrow> bytes \<Rightarrow> string \<Rightarrow> string" where
  "encrypt_text env iv plain = b64encode iv @ '':'' @ b64encode (se_seal env iv (utf8_encode plain))"

text \<open>\<open>s.split(":", 1)\<close> in two parts, or \<open>None\<close>.\<close>

definition split_colon :: "string \<Rightarrow> (string \<times> string) option" where
  "split_colon s = (case dropWhile (\<lambda>c. c \<noteq> CHR '':'') s of
       [] \<Rightarrow> None | c # rest \<Rightarrow> Some (takeWhile (\<lambda>c. c \<noteq> CHR '':'') s, rest))"

definition decrypt_text :: "'z secret_env_scheme \<Rightarrow> string \<Rightarrow> secret_error + string" where
  "decrypt_text env s = (case split_colon s of
       None \<Rightarrow> Inl Bad_format
     | Some (x, y) \<Rightarrow> (case (b64decode x, b64decode y) of
           (Some iv, Some body) \<Rightarrow> (case se_open env iv body of
               None \<Rightarrow> Inl Bad_tag
             | Some plain \<Rightarrow> (case utf8_decode plain of None \<Rightarrow> Inl Bad_text | Some t \<Rightarrow> Inr t))
         | _ \<Rightarrow> Inl Bad_base64))"

definition encrypt_value :: "'z secret_env_scheme \<Rightarrow> bytes \<Rightarrow> json \<Rightarrow> json" where
  "encrypt_value env iv v = JStr (encrypt_text env iv (se_dumps env v))"

fun decrypt_value :: "'z secret_env_scheme \<Rightarrow> json \<Rightarrow> secret_error + json" where
  "decrypt_value env (JStr s) = bind_res (decrypt_text env s) (\<lambda>t. case se_loads env t of None \<Rightarrow> Inl Bad_text | Some v \<Rightarrow> Inr v)"
| "decrypt_value env _ = Inl Not_a_text"

definition is_encrypted :: "string \<Rightarrow> bool" where
  "is_encrypted s = (let ps = split_on (CHR '':'') s in length ps = 2 \<and> list_all (\<lambda>p. b64decode p \<noteq> None) ps)"

lemma split_colon_at: "CHR '':'' \<notin> set x \<Longrightarrow> split_colon (x @ CHR '':'' # y) = Some (x, y)"
  by (induction x) (auto simp: split_colon_def split: list.splits)

lemma decrypt_encrypt_text:
  assumes "\<And>iv p. se_open env iv (se_seal env iv p) = Some p"
  shows "decrypt_text env (encrypt_text env iv s) = Inr s"
  using split_colon_at[OF b64encode_no_colon[of iv]] assms
  by (simp add: decrypt_text_def encrypt_text_def b64_roundtrip utf8_roundtrip)

lemma decrypt_encrypt_value:
  assumes "\<And>iv p. se_open env iv (se_seal env iv p) = Some p" "se_loads env (se_dumps env v) = Some v"
  shows "decrypt_value env (encrypt_value env iv v) = Inr v"
  using decrypt_encrypt_text[OF assms(1)] assms(2) by (simp add: encrypt_value_def)

lemma encrypted_is_encrypted: "is_encrypted (encrypt_text env iv s)"
  using b64encode_no_colon by (simp add: is_encrypted_def encrypt_text_def split_on_append split_on_id b64_roundtrip)

end
