(* ===== verification/Profile_Store.thy ===== *)
theory Profile_Store
  imports Secret_Codec History_Service
begin

text \<open>
  The ProfileStore component (\<open>components/ProfileStore\<close>, \<open>shared/schemas/preference_registry.py\<close>): the registry of
  known preferences, the table of preferences (soft deletion, one active row per user and key), and the service with its
  import of preferences from JSON or free text. JSON schema validation, the cipher, JSON texts, the language model and
  the collation of the database are parameters; the database answers.
\<close>

section \<open>The registry\<close>

record preference_definition =
  yd_key :: string
  yd_type :: string
  yd_sensitive :: bool
  yd_default :: json
  yd_validation :: jobj
  yd_description :: string
  yd_examples :: "json list"
  yd_category :: string

definition preference_def :: "string \<Rightarrow> string \<Rightarrow> json \<Rightarrow> jobj \<Rightarrow> string \<Rightarrow> json list \<Rightarrow> string \<Rightarrow> preference_definition" where
  "preference_def key type dflt validation description examples category =
     \<lparr>yd_key = key, yd_type = type, yd_sensitive = False, yd_default = dflt, yd_validation = validation,
      yd_description = description, yd_examples = examples, yd_category = category\<rparr>"

definition core_preferences :: "preference_definition list" where
  "core_preferences =
    [preference_def ''meeting_duration_min'' ''integer'' (JInt 30) [(''minimum'', JInt 15), (''maximum'', JInt 240)]
       ''Default meeting duration in minutes'' [JInt 30, JInt 60, JInt 90] ''user'',
     preference_def ''work_hours'' ''string'' (JStr ''09:00-17:00'')
       [(''pattern'', JStr ''^([0-1][0-9]|2[0-3]):[0-5][0-9]-([0-1][0-9]|2[0-3]):[0-5][0-9]$'')]
       ''Work hours in HH:MM-HH:MM format'' [JStr ''09:00-17:00'', JStr ''10:00-18:00'', JStr ''08:30-16:30''] ''user'',
     (preference_def ''passport_number'' ''string'' JNull
       [(''minLength'', JInt 6), (''maxLength'', JInt 20), (''pattern'', JStr ''^[A-Z0-9]+$'')]
       ''Passport number (sensitive data)'' [] ''security'') \<lparr>yd_sensitive := True\<rparr>,
     (preference_def ''emergency_contact'' ''object''
       (JObj [(''name'', JStr []), (''phone'', JStr []), (''relationship'', JStr [])]) []
       ''Emergency contact information'' [] ''security'') \<lparr>yd_sensitive := True\<rparr>,
     preference_def ''timezone'' ''string'' (JStr ''America/Chicago'') [(''pattern'', JStr ''^[A-Za-z]+/[A-Za-z_]+$'')]
       ''User timezone (IANA format)'' [JStr ''America/New_York'', JStr ''Europe/London'', JStr ''Asia/Tokyo''] ''system'',
     preference_def ''notification_settings'' ''object''
       (JObj [(''email'', JBool True), (''sms'', JBool False), (''push'', JBool True), (''quiet_hours'', JStr ''22:00-08:00'')]) []
       ''Notification preferences'' [] ''notification'',
     preference_def ''theme'' ''string'' (JStr ''auto'') [(''enum'', JArr [JStr ''light'', JStr ''dark'', JStr ''auto''])]
       ''UI theme preference'' [] ''ui'',
     preference_def ''language'' ''string'' (JStr ''en'') [(''pattern'', JStr ''^[a-z]{2}$'')]
       ''Preferred language (ISO 639-1)'' [JStr ''en'', JStr ''es'', JStr ''fr'', JStr ''de''] ''ui'']"

definition registered :: "string \<Rightarrow> preference_definition option" where
  "registered key = find (\<lambda>d. yd_key d = key) core_preferences"

definition list_preference_keys :: "string list" where
  "list_preference_keys = map yd_key core_preferences"

definition get_preference_definition :: "string \<Rightarrow> preference_definition" where
  "get_preference_definition key = (case registered key of
       Some d \<Rightarrow> d
     | None \<Rightarrow> preference_def key ''object'' JNull [] (''User-defined preference: '' @ key) [] ''user'')"

definition get_default_value :: "string \<Rightarrow> json" where
  "get_default_value key = (case registered key of None \<Rightarrow> JNull | Some d \<Rightarrow> yd_default d)"

definition key_sensitive :: "string \<Rightarrow> bool" where
  "key_sensitive key = (case registered key of None \<Rightarrow> False | Some d \<Rightarrow> yd_sensitive d)"

definition copied :: "string list \<Rightarrow> jobj \<Rightarrow> jobj" where
  "copied ks d = concat (map (\<lambda>k. case dict_get d k of None \<Rightarrow> [] | Some v \<Rightarrow> [(k, v)]) ks)"

definition get_json_schema :: "preference_definition \<Rightarrow> jobj" where
  "get_json_schema d = (''type'', JStr (yd_type d)) #
     (if yd_type d = ''string'' then copied [''minLength'', ''maxLength'', ''pattern'', ''enum''] (yd_validation d)
      else if yd_type d \<in> {''integer'', ''number''} then copied [''minimum'', ''maximum''] (yd_validation d)
      else [])"

section \<open>The table\<close>

record preference_row =
  yp_id :: string
  yp_user :: string
  yp_key :: string
  yp_value :: json
  yp_sensitive :: bool
  yp_updated :: int
  yp_deleted :: "int option"

text \<open>\<open>str.isalnum\<close> of a character below 256.\<close>

definition alnum_char :: "char \<Rightarrow> bool" where
  "alnum_char c = (let n = of_char c :: nat in
     48 \<le> n \<and> n \<le> 57 \<or> 65 \<le> n \<and> n \<le> 90 \<or> 97 \<le> n \<and> n \<le> 122 \<or> n \<in> {170, 178, 179, 181, 185, 186, 188, 189, 190} \<or>
     192 \<le> n \<and> n \<le> 255 \<and> n \<noteq> 215 \<and> n \<noteq> 247)"

definition preference_key_ok :: "string \<Rightarrow> bool" where
  "preference_key_ok k \<longleftrightarrow> length k \<le> 64 \<and>
     (let s = filter (\<lambda>c. c \<noteq> CHR ''_'') k in s \<noteq> [] \<and> list_all alnum_char s)"

record profile_table =
  ys_users :: "string list"
  ys_rows :: "preference_row list"

datatype profile_error =
    Consent_denied int
  | Value_rejected string string
  | Secret_failed secret_error
  | Row_invalid
  | Database_failed
  | Evidence_invalid
  | Llm_missing
  | Llm_failed string
  | Llm_answer_invalid

definition active_row :: "string \<Rightarrow> string \<Rightarrow> preference_row \<Rightarrow> bool" where
  "active_row user key r \<longleftrightarrow> yp_user r = user \<and> yp_key r = key \<and> yp_deleted r = None"

definition checked_profile :: "preference_row \<Rightarrow> profile_error + preference_row" where
  "checked_profile r = (if preference_key_ok (yp_key r) then Inr r else Inl Row_invalid)"

definition db_get_preference :: "string \<Rightarrow> string \<Rightarrow> profile_table \<Rightarrow> profile_error + preference_row option" where
  "db_get_preference user key t = (case find (active_row user key) (ys_rows t) of
       None \<Rightarrow> Inr None | Some r \<Rightarrow> bind_res (checked_profile r) (\<lambda>r. Inr (Some r)))"

text \<open>\<open>INSERT ... ON CONFLICT (user_id, key) WHERE deleted_at IS NULL DO UPDATE\<close>; \<open>fresh\<close> is the identifier of a new
  row. The row is validated after the commit.\<close>

definition upsert_preference ::
  "string \<Rightarrow> int \<Rightarrow> string \<Rightarrow> string \<Rightarrow> json \<Rightarrow> bool \<Rightarrow> profile_table \<Rightarrow> (profile_error + preference_row) \<times> profile_table" where
  "upsert_preference fresh now user key v secret t =
     (if user \<notin> set (ys_users t) \<or> 64 < length key then (Inl Database_failed, t)
      else case find (active_row user key) (ys_rows t) of
        Some r \<Rightarrow> (let r1 = r \<lparr>yp_value := v, yp_sensitive := secret, yp_updated := now, yp_deleted := None\<rparr>
                  in (checked_profile r1, t \<lparr>ys_rows := map (\<lambda>x. if active_row user key x then r1 else x) (ys_rows t)\<rparr>))
      | None \<Rightarrow> (let r1 = \<lparr>yp_id = fresh, yp_user = user, yp_key = key, yp_value = v, yp_sensitive = secret,
                    yp_updated = now, yp_deleted = None\<rparr>
                in (checked_profile r1, t \<lparr>ys_rows := ys_rows t @ [r1]\<rparr>)))"

definition db_delete_preference :: "int \<Rightarrow> string \<Rightarrow> string \<Rightarrow> profile_table \<Rightarrow> bool \<times> profile_table" where
  "db_delete_preference now user key t =
     (list_ex (active_row user key) (ys_rows t),
      t \<lparr>ys_rows := map (\<lambda>r. if active_row user key r then r \<lparr>yp_deleted := Some now\<rparr> else r) (ys_rows t)\<rparr>)"

fun all_checked :: "preference_row list \<Rightarrow> profile_error + preference_row list" where
  "all_checked [] = Inr []"
| "all_checked (r # rs) = bind_res (checked_profile r) (\<lambda>r. bind_res (all_checked rs) (\<lambda>rs. Inr (r # rs)))"

definition db_get_all_preferences :: "(string \<Rightarrow> nat) \<Rightarrow> string \<Rightarrow> profile_table \<Rightarrow> profile_error + preference_row list" where
  "db_get_all_preferences coll user t =
     all_checked (sort_key (coll \<circ> yp_key) (filter (\<lambda>r. yp_user r = user \<and> yp_deleted r = None) (ys_rows t)))"

section \<open>The service\<close>

text \<open>\<open>ye_valid\<close> is \<open>jsonschema.validate\<close> with the message of its exception, \<open>ye_prompted\<close> the model's answer to the
  prompt about a text (or the text of what it raises).\<close>

record profile_env = secret_env +
  ye_valid :: "jobj \<Rightarrow> json \<Rightarrow> string option"
  ye_coll :: "string \<Rightarrow> nat"
  ye_float :: "string \<Rightarrow> rat option"
  ye_prompted :: "(string \<Rightarrow> string + string) option"

definition validate_value :: "'z profile_env_scheme \<Rightarrow> string \<Rightarrow> json \<Rightarrow> string option" where
  "validate_value env key v = (case registered key of
       None \<Rightarrow> None
     | Some d \<Rightarrow> map_option (\<lambda>m. ''Validation failed for '' @ key @ '': '' @ m) (ye_valid env (get_json_schema d) v))"

definition preference_evidence :: "string \<Rightarrow> json \<Rightarrow> evidence_item" where
  "preference_evidence key v = \<lparr>ev_type = Ev_preference, ev_key = key, ev_value = v, ev_confidence = 1,
     ev_source_ref = ''profilestore:prefs/'' @ key, ev_ttl_days = None, ev_tier = 2\<rparr>"

definition checked_evidence :: "string \<Rightarrow> json \<Rightarrow> profile_error + evidence_item" where
  "checked_evidence key v =
     (if evidence_ok (preference_evidence key v) then Inr (preference_evidence key v) else Inl Evidence_invalid)"

definition row_value :: "'z profile_env_scheme \<Rightarrow> preference_row \<Rightarrow> profile_error + json" where
  "row_value env r =
     (if yp_sensitive r then (case decrypt_value env (yp_value r) of Inl e \<Rightarrow> Inl (Secret_failed e) | Inr v \<Rightarrow> Inr v)
      else Inr (yp_value r))"

definition get_preference ::
  "'z profile_env_scheme \<Rightarrow> string \<Rightarrow> string \<Rightarrow> int \<Rightarrow> profile_table \<Rightarrow> profile_error + evidence_item" where
  "get_preference env user key tier t =
     (if tier < 2 then Inl (Consent_denied tier)
      else bind_res (db_get_preference user key t) (\<lambda>r.
           bind_res (case r of Some r \<Rightarrow> row_value env r | None \<Rightarrow> Inr (get_default_value key)) (checked_evidence key)))"

record preference_response =
  yr_id :: string
  yr_key :: string
  yr_value :: json
  yr_updated :: int
  yr_sensitive :: bool

text \<open>\<open>iv\<close> is the initialization vector \<open>os.urandom(12)\<close> of this call.\<close>

definition set_preference ::
  "'z profile_env_scheme \<Rightarrow> bytes \<Rightarrow> string \<Rightarrow> int \<Rightarrow> string \<Rightarrow> string \<Rightarrow> json \<Rightarrow> bool \<Rightarrow> profile_table \<Rightarrow>
   (profile_error + preference_response) \<times> profile_table" where
  "set_preference env iv fresh now user key v secret t =
     (let secret1 = (secret \<or> key_sensitive key)
      in case validate_value env key v of
           Some m \<Rightarrow> (Inl (Value_rejected key m), t)
         | None \<Rightarrow> (case upsert_preference fresh now user key (if secret1 then encrypt_value env iv v else v) secret1 t of
               (Inl e, t1) \<Rightarrow> (Inl e, t1)
             | (Inr r, t1) \<Rightarrow> (Inr \<lparr>yr_id = yp_id r, yr_key = yp_key r, yr_value = v, yr_updated = yp_updated r,
                 yr_sensitive = secret1\<rparr>, t1)))"

definition delete_preference :: "int \<Rightarrow> string \<Rightarrow> string \<Rightarrow> profile_table \<Rightarrow> string \<times> profile_table" where
  "delete_preference now user key t =
     (let (deleted, t1) = db_delete_preference now user key t
      in (if deleted then ''Preference deleted successfully'' else ''Preference not found'', t1))"

fun row_evidence :: "'z profile_env_scheme \<Rightarrow> preference_row list \<Rightarrow> profile_error + evidence_item list" where
  "row_evidence env [] = Inr []"
| "row_evidence env (r # rs) = bind_res (row_value env r) (\<lambda>v. bind_res (checked_evidence (yp_key r) v) (\<lambda>e.
     bind_res (row_evidence env rs) (\<lambda>es. Inr (e # es))))"

definition default_evidence :: "string list \<Rightarrow> evidence_item list" where
  "default_evidence set_keys = map (\<lambda>k. preference_evidence k (get_default_value k))
     (filter (\<lambda>k. k \<notin> set set_keys \<and> get_default_value k \<noteq> JNull) list_preference_keys)"

definition get_all_preferences ::
  "'z profile_env_scheme \<Rightarrow> string \<Rightarrow> int \<Rightarrow> bool \<Rightarrow> profile_table \<Rightarrow> profile_error + evidence_item list" where
  "get_all_preferences env user tier defaults t =
     (if tier < 2 then Inl (Consent_denied tier)
      else bind_res (db_get_all_preferences (ye_coll env) user t) (\<lambda>rs.
           bind_res (row_evidence env rs) (\<lambda>es. Inr (es @ (if defaults then default_evidence (map yp_key rs) else [])))))"

section \<open>Import\<close>

record extracted_preference =
  yx_key :: string
  yx_value :: json
  yx_sensitive :: bool
  yx_confidence :: rat
  yx_source :: "string option"

record import_response =
  yi_extracted :: "extracted_preference list"
  yi_raw_type :: string
  yi_warnings :: "string list"

definition import_warning :: "'z profile_env_scheme \<Rightarrow> string \<Rightarrow> json \<Rightarrow> string list" where
  "import_warning env key v = (case validate_value env key v of
       None \<Rightarrow> [] | Some m \<Rightarrow> [key @ '': Validation failed for '' @ key @ '': '' @ m])"

definition matched_key :: "string \<Rightarrow> string" where
  "matched_key raw =
     (if raw \<in> set list_preference_keys then raw
      else case find (\<lambda>k. lower k = replace_char (CHR '' '') ''_'' (replace_char (CHR ''-'') ''_'' (lower raw))) list_preference_keys of
        Some k \<Rightarrow> k | None \<Rightarrow> raw)"

definition import_from_json :: "'z profile_env_scheme \<Rightarrow> jobj \<Rightarrow> import_response" where
  "import_from_json env d =
     \<lparr>yi_extracted = map (\<lambda>(raw, v). \<lparr>yx_key = matched_key raw, yx_value = v, yx_sensitive = key_sensitive (matched_key raw),
        yx_confidence = 1, yx_source = Some (se_dumps env (JObj [(raw, v)]))\<rparr>) d,
      yi_raw_type = ''json'', yi_warnings = concat (map (\<lambda>(raw, v). import_warning env (matched_key raw) v) d)\<rparr>"

text \<open>\<open>PreferenceExtractor._parse_response\<close>.\<close>

definition extractor_text :: "string \<Rightarrow> string" where
  "extractor_text raw =
     (let x = strip raw
      in if starts_with ''```'' x then strip (rsplit_once_first ''```'' (split_once_last [CHR 0x0A] x)) else x)"

definition extracted_items :: "'z profile_env_scheme \<Rightarrow> string \<Rightarrow> json" where
  "extracted_items env raw = (case se_loads env (extractor_text raw) of
       Some (JObj d) \<Rightarrow> jget d ''preferences'' (JArr []) | _ \<Rightarrow> JArr [])"

fun float_of_json :: "(string \<Rightarrow> rat option) \<Rightarrow> json \<Rightarrow> rat option" where
  "float_of_json f (JBool b) = Some (if b then 1 else 0)"
| "float_of_json f (JInt i) = Some (of_int i)"
| "float_of_json f (JFloat q) = Some q"
| "float_of_json f (JStr s) = f s"
| "float_of_json f _ = None"

fun extracted_of :: "'z profile_env_scheme \<Rightarrow> json \<Rightarrow> extracted_preference option" where
  "extracted_of env (JObj d) =
     (case (jget d ''key'' (JStr []), float_of_json (ye_float env) (jget d ''confidence'' (JFloat (1 / 2))), jget d ''source_text'' JNull) of
        (JStr key, Some c, src) \<Rightarrow>
          (if 0 \<le> c \<and> c \<le> 1 \<and> (src = JNull \<or> (\<exists>x. src = JStr x))
           then Some \<lparr>yx_key = key, yx_value = jget d ''value'' JNull, yx_sensitive = key_sensitive key, yx_confidence = c,
             yx_source = (case src of JStr x \<Rightarrow> Some x | _ \<Rightarrow> None)\<rparr>
           else None)
      | _ \<Rightarrow> None)"
| "extracted_of env _ = None"

fun extract_all :: "'z profile_env_scheme \<Rightarrow> json list \<Rightarrow> extracted_preference list option" where
  "extract_all env [] = Some []"
| "extract_all env (j # js) = (case (extracted_of env j, extract_all env js) of (Some x, Some xs) \<Rightarrow> Some (x # xs) | _ \<Rightarrow> None)"

text \<open>What a Python \<open>for\<close> visits in a value; \<open>None\<close> if it cannot be iterated. The keys of a dictionary and the
  characters of a text have no \<open>get\<close>.\<close>

fun visited :: "json \<Rightarrow> json list option" where
  "visited (JArr xs) = Some xs"
| "visited (JObj d) = Some (map (JStr \<circ> fst) d)"
| "visited (JStr s) = Some (map (\<lambda>c. JStr [c]) s)"
| "visited _ = None"

definition import_from_freetext :: "'z profile_env_scheme \<Rightarrow> string \<Rightarrow> (string \<Rightarrow> string + string) \<Rightarrow> profile_error + import_response" where
  "import_from_freetext env content llm = (case llm content of
       Inl e \<Rightarrow> Inl (Llm_failed e)
     | Inr raw \<Rightarrow> (case Option.bind (visited (extracted_items env raw)) (extract_all env) of
           None \<Rightarrow> Inl Llm_answer_invalid
         | Some xs \<Rightarrow> Inr \<lparr>yi_extracted = xs, yi_raw_type = ''freetext'',
             yi_warnings = concat (map (\<lambda>x. import_warning env (yx_key x) (yx_value x)) xs)\<rparr>))"

definition import_preferences :: "'z profile_env_scheme \<Rightarrow> string \<Rightarrow> profile_error + import_response" where
  "import_preferences env content = (case se_loads env (strip content) of
       Some (JObj d) \<Rightarrow> Inr (import_from_json env d)
     | _ \<Rightarrow> (case ye_prompted env of None \<Rightarrow> Inl Llm_missing | Some llm \<Rightarrow> import_from_freetext env (strip content) llm))"

end
