(* ===== verification/Profile_Laws.thy ===== *)
theory Profile_Laws
  imports Profile_Store History_Laws
begin

text \<open>
  What the ProfileStore promises: sensitive values are stored as ciphertext only, a value reads back as it was set until
  it is set again or deleted, and the list of all preferences agrees with the single reads.
\<close>

section \<open>Runs\<close>

datatype profile_op =
    Set_preference bytes string int string string json bool
  | Delete_preference int string string

fun profile_step :: "'z profile_env_scheme \<Rightarrow> profile_op \<Rightarrow> profile_table \<Rightarrow> profile_table" where
  "profile_step env (Set_preference iv fresh now user key v secret) t = snd (set_preference env iv fresh now user key v secret t)"
| "profile_step env (Delete_preference now user key) t = snd (delete_preference now user key t)"

fun touched :: "profile_op \<Rightarrow> string \<times> string" where
  "touched (Set_preference iv fresh now user key v secret) = (user, key)"
| "touched (Delete_preference now user key) = (user, key)"

definition profile_run :: "'z profile_env_scheme \<Rightarrow> profile_op list \<Rightarrow> profile_table \<Rightarrow> profile_table" where
  "profile_run env ops t = fold (profile_step env) ops t"

section \<open>The table\<close>

definition row_place :: "preference_row \<Rightarrow> string \<times> string" where
  "row_place r = (yp_user r, yp_key r)"

definition actives :: "profile_table \<Rightarrow> preference_row list" where
  "actives t = filter (\<lambda>r. yp_deleted r = None) (ys_rows t)"

definition one_active :: "profile_table \<Rightarrow> bool" where
  "one_active t \<longleftrightarrow> distinct (map row_place (actives t))"

lemma active_row_place: "active_row user key r \<longleftrightarrow> yp_deleted r = None \<and> row_place r = (user, key)"
  by (auto simp: active_row_def row_place_def)

lemma find_active: "find (active_row user key) (ys_rows t) = find (\<lambda>r. row_place r = (user, key)) (actives t)"
proof -
  have "find (active_row user key) rs = find (\<lambda>r. row_place r = (user, key)) (filter (\<lambda>r. yp_deleted r = None) rs)" for rs
    by (induction rs) (auto simp: active_row_place)
  then show ?thesis by (simp add: actives_def)
qed

lemma upsert_rows:
  "upsert_preference fresh now user key v secret t = (x, t1) \<Longrightarrow>
     t1 = t \<and> x = Inl Database_failed \<or>
     (\<exists>r1. yp_deleted r1 = None \<and> row_place r1 = (user, key) \<and> yp_value r1 = v \<and> yp_sensitive r1 = secret \<and> x = checked_profile r1 \<and>
       (find (active_row user key) (ys_rows t) \<noteq> None \<and>
          t1 = t \<lparr>ys_rows := map (\<lambda>x. if active_row user key x then r1 else x) (ys_rows t)\<rparr> \<or>
        find (active_row user key) (ys_rows t) = None \<and> t1 = t \<lparr>ys_rows := ys_rows t @ [r1]\<rparr>))"
proof (cases "user \<notin> set (ys_users t) \<or> 64 < length key")
  case False
  assume a: "upsert_preference fresh now user key v secret t = (x, t1)"
  show ?thesis
  proof (cases "find (active_row user key) (ys_rows t)")
    case None
    let ?r = "\<lparr>yp_id = fresh, yp_user = user, yp_key = key, yp_value = v, yp_sensitive = secret, yp_updated = now, yp_deleted = None\<rparr>"
    have "x = checked_profile ?r" "t1 = t \<lparr>ys_rows := ys_rows t @ [?r]\<rparr>"
      using a False None by (auto simp: upsert_preference_def Let_def)
    moreover have "yp_deleted ?r = None \<and> row_place ?r = (user, key) \<and> yp_value ?r = v \<and> yp_sensitive ?r = secret"
      by (simp add: row_place_def)
    ultimately show ?thesis using None by (intro disjI2 exI[of _ ?r]) (simp only: simp_thms)
  next
    case (Some r)
    then have "active_row user key r" by (auto dest: find_SomeD)
    then have p: "yp_user r = user" "yp_key r = key" by (auto simp: active_row_def)
    let ?r = "r \<lparr>yp_value := v, yp_sensitive := secret, yp_updated := now, yp_deleted := None\<rparr>"
    have "x = checked_profile ?r" "t1 = t \<lparr>ys_rows := map (\<lambda>x. if active_row user key x then ?r else x) (ys_rows t)\<rparr>"
      using a False Some by (auto simp: upsert_preference_def Let_def)
    moreover have "yp_deleted ?r = None \<and> row_place ?r = (user, key) \<and> yp_value ?r = v \<and> yp_sensitive ?r = secret"
      using p by (simp add: row_place_def)
    ultimately show ?thesis using Some by (intro disjI2 exI[of _ ?r]) (simp only: simp_thms option.distinct)
  qed
qed (simp add: upsert_preference_def)

lemma actives_update:
  assumes "yp_deleted r1 = None"
  shows "actives (t \<lparr>ys_rows := map (\<lambda>x. if active_row user key x then r1 else x) (ys_rows t)\<rparr>) =
    map (\<lambda>x. if row_place x = (user, key) then r1 else x) (actives t)"
proof -
  have "filter (\<lambda>r. yp_deleted r = None) (map (\<lambda>x. if active_row user key x then r1 else x) rs) =
    map (\<lambda>x. if row_place x = (user, key) then r1 else x) (filter (\<lambda>r. yp_deleted r = None) rs)" for rs
    using assms by (induction rs) (auto simp: active_row_place)
  then show ?thesis by (simp add: actives_def)
qed

lemma map_replaced:
  "f r1 = p \<Longrightarrow> map f (map (\<lambda>x. if f x = p then r1 else x) xs) = map f xs"
  by (induction xs) auto

lemma upsert_one_active: "one_active t \<Longrightarrow> one_active (snd (upsert_preference fresh now user key v secret t))"
proof -
  assume a: "one_active t"
  obtain x t1 where u: "upsert_preference fresh now user key v secret t = (x, t1)" by fastforce
  from upsert_rows[OF u] consider "t1 = t"
    | r1 where "yp_deleted r1 = None" "row_place r1 = (user, key)"
        "t1 = t \<lparr>ys_rows := map (\<lambda>x. if active_row user key x then r1 else x) (ys_rows t)\<rparr>"
    | r1 where "yp_deleted r1 = None" "row_place r1 = (user, key)" "find (active_row user key) (ys_rows t) = None"
        "t1 = t \<lparr>ys_rows := ys_rows t @ [r1]\<rparr>" by blast
  then have "one_active t1"
  proof cases
    case 2
    have "map row_place (actives t1) = map row_place (actives t)"
      unfolding 2(3) actives_update[OF 2(1)] using map_replaced[of row_place r1 "(user, key)" "actives t"] 2(2) by simp
    then show ?thesis using a by (simp only: one_active_def)
  next
    case 3
    then have "(user, key) \<notin> row_place ` set (actives t)" by (auto simp: find_active find_None_iff)
    then show ?thesis using a 3 by (simp add: one_active_def actives_def)
  qed (use a in simp)
  then show ?thesis using u by simp
qed

lemma delete_actives:
  "actives (snd (db_delete_preference now user key t)) = filter (\<lambda>r. row_place r \<noteq> (user, key)) (actives t)"
proof -
  have "filter (\<lambda>r. yp_deleted r = None) (map (\<lambda>r. if active_row user key r then r \<lparr>yp_deleted := Some now\<rparr> else r) rs) =
    filter (\<lambda>r. row_place r \<noteq> (user, key)) (filter (\<lambda>r. yp_deleted r = None) rs)" for rs
    by (induction rs) (auto simp: active_row_place)
  then show ?thesis by (simp add: db_delete_preference_def actives_def)
qed

lemma set_table:
  "snd (set_preference env iv fresh now user key v secret t) = t \<or>
   snd (set_preference env iv fresh now user key v secret t) =
     snd (upsert_preference fresh now user key (if secret \<or> key_sensitive key then encrypt_value env iv v else v)
       (secret \<or> key_sensitive key) t)"
  by (auto simp: set_preference_def Let_def split: option.split sum.split prod.split)

lemma delete_table: "snd (delete_preference now user key t) = snd (db_delete_preference now user key t)"
  by (simp add: delete_preference_def split: prod.split)

lemma step_one_active: "one_active t \<Longrightarrow> one_active (profile_step env op t)"
proof (cases op)
  case (Set_preference iv fresh now user key v secret)
  assume "one_active t"
  then show ?thesis using Set_preference set_table[of env iv fresh now user key v secret t] upsert_one_active by fastforce
next
  case (Delete_preference now user key)
  assume "one_active t"
  then show ?thesis using Delete_preference
    by (simp add: one_active_def delete_table delete_actives distinct_map_filter)
qed

lemma run_one_active: "one_active t \<Longrightarrow> one_active (profile_run env ops t)"
  unfolding profile_run_def by (induction ops arbitrary: t) (simp_all add: step_one_active)

section \<open>Sensitive values\<close>

text \<open>The operations that can have written a row.\<close>

definition written_by :: "profile_op list \<Rightarrow> 'z profile_env_scheme \<Rightarrow> preference_row \<Rightarrow> bool" where
  "written_by ops env r \<longleftrightarrow> (\<exists>iv fresh now v secret. Set_preference iv fresh now (yp_user r) (yp_key r) v secret \<in> set ops \<and>
     yp_sensitive r = (secret \<or> key_sensitive (yp_key r)) \<and> yp_value r = (if yp_sensitive r then encrypt_value env iv v else v))"

lemma written_by_more: "written_by ops env r \<Longrightarrow> written_by (ops @ qs) env r"
  unfolding written_by_def set_append by blast

lemma written_by_deleted [simp]: "written_by ops env (r \<lparr>yp_deleted := d\<rparr>) = written_by ops env r"
  by (simp add: written_by_def)

lemma upsert_written:
  assumes "\<And>r. r \<in> set (ys_rows t) \<Longrightarrow> P r"
    and "\<And>r. row_place r = (user, key) \<Longrightarrow> yp_value r = v \<Longrightarrow> yp_sensitive r = secret \<Longrightarrow> P r"
    and "r \<in> set (ys_rows (snd (upsert_preference fresh now user key v secret t)))"
  shows "P r"
proof -
  obtain x t1 where u: "upsert_preference fresh now user key v secret t = (x, t1)" by fastforce
  have "r \<in> set (ys_rows t1)" using assms(3) u by simp
  then have "r \<in> set (ys_rows t) \<or> row_place r = (user, key) \<and> yp_value r = v \<and> yp_sensitive r = secret"
    using upsert_rows[OF u] by (elim disjE exE conjE) (auto split: if_splits)
  then show ?thesis using assms(1,2) by blast
qed

lemma step_written:
  assumes "\<And>r. r \<in> set (ys_rows t) \<Longrightarrow> written_by ops env r"
    and "r \<in> set (ys_rows (profile_step env op t))"
  shows "written_by (ops @ [op]) env r"
proof (cases op)
  case (Set_preference iv fresh now user key v secret)
  have new: "written_by (ops @ [op]) env q"
    if "row_place q = (user, key)" "yp_value q = (if secret \<or> key_sensitive key then encrypt_value env iv v else v)"
      "yp_sensitive q = (secret \<or> key_sensitive key)" for q
    unfolding written_by_def using that Set_preference
    by (intro exI[of _ iv] exI[of _ fresh] exI[of _ now] exI[of _ v] exI[of _ secret]) (auto simp: row_place_def)
  have old: "written_by (ops @ [op]) env q" if "q \<in> set (ys_rows t)" for q
    using assms(1)[OF that] by (rule written_by_more)
  have r: "r \<in> set (ys_rows (snd (set_preference env iv fresh now user key v secret t)))"
    using assms(2) Set_preference by simp
  show ?thesis
    using set_table[of env iv fresh now user key v secret t]
  proof
    assume "snd (set_preference env iv fresh now user key v secret t) = t"
    then show ?thesis using r old by simp
  next
    let ?v = "if secret \<or> key_sensitive key then encrypt_value env iv v else v"
    assume "snd (set_preference env iv fresh now user key v secret t) = snd (upsert_preference fresh now user key ?v (secret \<or> key_sensitive key) t)"
    then have "r \<in> set (ys_rows (snd (upsert_preference fresh now user key ?v (secret \<or> key_sensitive key) t)))" using r by simp
    then show ?thesis by (rule upsert_written[rotated 2]) (use old new in blast)+
  qed
next
  case (Delete_preference now user key)
  have old: "written_by (ops @ [op]) env q" if "q \<in> set (ys_rows t)" for q
    using assms(1)[OF that] by (rule written_by_more)
  from assms(2) obtain q where "q \<in> set (ys_rows t)" "r = (if active_row user key q then q \<lparr>yp_deleted := Some now\<rparr> else q)"
    by (auto simp: Delete_preference delete_table db_delete_preference_def)
  then show ?thesis using old[of q] by simp
qed

lemma run_written: "r \<in> set (ys_rows (profile_run env ops \<lparr>ys_users = us, ys_rows = []\<rparr>)) \<Longrightarrow> written_by ops env r"
proof (induction ops arbitrary: r rule: rev_induct)
  case (snoc op ops)
  have "profile_run env (ops @ [op]) \<lparr>ys_users = us, ys_rows = []\<rparr> = profile_step env op (profile_run env ops \<lparr>ys_users = us, ys_rows = []\<rparr>)"
    by (simp add: profile_run_def)
  then show ?case using snoc step_written by metis
qed (simp add: profile_run_def)

text \<open>C6. Every row the ProfileStore ever keeps, deleted ones included, holds what one request for this user and key asked to
  store. It counts as sensitive exactly when that request asked for it or the registry calls the key sensitive, whatever
  the request said; a sensitive row holds the ciphertext of the JSON text of the value (two Base64 texts around a colon),
  any other row the value itself. The cipher is a parameter.\<close>

theorem sensitive_preferences_encrypted:
  assumes "r \<in> set (ys_rows (profile_run env ops \<lparr>ys_users = us, ys_rows = []\<rparr>))"
  shows "\<exists>iv fresh now v secret. Set_preference iv fresh now (yp_user r) (yp_key r) v secret \<in> set ops \<and>
     yp_sensitive r = (secret \<or> key_sensitive (yp_key r)) \<and>
     (if yp_sensitive r then yp_value r = JStr (encrypt_text env iv (se_dumps env v)) \<and>
        is_encrypted (encrypt_text env iv (se_dumps env v)) else yp_value r = v)"
proof -
  obtain iv fresh now v secret where w: "Set_preference iv fresh now (yp_user r) (yp_key r) v secret \<in> set ops"
    "yp_sensitive r = (secret \<or> key_sensitive (yp_key r))" "yp_value r = (if yp_sensitive r then encrypt_value env iv v else v)"
    using run_written[OF assms] unfolding written_by_def by blast
  have "if yp_sensitive r then yp_value r = JStr (encrypt_text env iv (se_dumps env v)) \<and>
      is_encrypted (encrypt_text env iv (se_dumps env v)) else yp_value r = v"
    using w(3) by (simp add: encrypt_value_def encrypted_is_encrypted)
  with w(1,2) show ?thesis by blast
qed

section \<open>Reading back\<close>

lemma find_map_other:
  assumes "\<And>x. x \<in> set xs \<Longrightarrow> f (g x) = p' \<longleftrightarrow> f x = p'" "\<And>x. x \<in> set xs \<Longrightarrow> f x = p' \<Longrightarrow> g x = x"
  shows "find (\<lambda>r. f r = p') (map g xs) = find (\<lambda>r. f r = p') xs"
  using assms
proof (induction xs)
  case (Cons x xs)
  have "find (\<lambda>r. f r = p') (map g xs) = find (\<lambda>r. f r = p') xs" by (rule Cons.IH) (use Cons.prems in auto)
  then show ?case using Cons.prems(1)[of x] Cons.prems(2)[of x] by simp
qed simp

lemma step_other_active:
  assumes "touched op \<noteq> (user, key)"
  shows "find (active_row user key) (ys_rows (profile_step env op t)) = find (active_row user key) (ys_rows t)"
proof (cases op)
  case (Set_preference iv fresh now u k v secret)
  have other: "find (active_row user key) (ys_rows (snd (upsert_preference fresh now u k v' s t))) = find (active_row user key) (ys_rows t)"
    for v' s
  proof -
    obtain x t1 where up: "upsert_preference fresh now u k v' s t = (x, t1)" by fastforce
    have "find (active_row user key) (ys_rows t1) = find (active_row user key) (ys_rows t)"
      using upsert_rows[OF up]
    proof (elim disjE exE conjE)
      fix r1
      assume r1: "yp_deleted r1 = None" "row_place r1 = (u, k)"
        and t1: "t1 = t \<lparr>ys_rows := map (\<lambda>x. if active_row u k x then r1 else x) (ys_rows t)\<rparr>"
      have "find (\<lambda>r. row_place r = (user, key)) (actives t1) = find (\<lambda>r. row_place r = (user, key)) (actives t)"
        unfolding t1 actives_update[OF r1(1)] using assms Set_preference r1(2) by (intro find_map_other) auto
      then show ?thesis by (simp only: find_active)
    next
      fix r1
      assume r1: "yp_deleted r1 = None" "row_place r1 = (u, k)" and t1: "t1 = t \<lparr>ys_rows := ys_rows t @ [r1]\<rparr>"
      then show ?thesis using assms Set_preference by (simp add: find_snoc active_row_place split: option.split)
    qed simp
    then show ?thesis using up by simp
  qed
  show ?thesis using Set_preference set_table[of env iv fresh now u k v secret t] other by fastforce
next
  case (Delete_preference now u k)
  have "find (\<lambda>r. row_place r = (user, key)) (filter (\<lambda>r. row_place r \<noteq> (u, k)) xs) = find (\<lambda>r. row_place r = (user, key)) xs" for xs
    using assms Delete_preference by (induction xs) auto
  then show ?thesis using Delete_preference by (simp add: find_active delete_table delete_actives)
qed

lemma run_other_active:
  "list_all (\<lambda>op. touched op \<noteq> (user, key)) ops \<Longrightarrow>
   find (active_row user key) (ys_rows (profile_run env ops t)) = find (active_row user key) (ys_rows t)"
  unfolding profile_run_def by (induction ops arbitrary: t) (simp_all add: step_other_active)

lemma set_preference_active:
  assumes "set_preference env iv fresh now user key v secret t = (Inr a, t1)"
  shows "\<exists>r. find (active_row user key) (ys_rows t1) = Some r \<and> preference_key_ok (yp_key r) \<and> yp_key r = key \<and>
    yp_sensitive r = (secret \<or> key_sensitive key) \<and> yp_value r = (if yp_sensitive r then encrypt_value env iv v else v)"
proof -
  let ?s = "secret \<or> key_sensitive key" and ?v = "if secret \<or> key_sensitive key then encrypt_value env iv v else v"
  obtain q where u: "upsert_preference fresh now user key ?v ?s t = (Inr q, t1)"
    using assms by (auto simp: set_preference_def Let_def split: option.splits prod.splits sum.splits if_splits)
  from upsert_rows[OF u] obtain r1 where r1: "yp_deleted r1 = None" "row_place r1 = (user, key)" "yp_value r1 = ?v" "yp_sensitive r1 = ?s"
      "Inr q = checked_profile r1"
    and c: "find (active_row user key) (ys_rows t) \<noteq> None \<and> t1 = t \<lparr>ys_rows := map (\<lambda>x. if active_row user key x then r1 else x) (ys_rows t)\<rparr> \<or>
        find (active_row user key) (ys_rows t) = None \<and> t1 = t \<lparr>ys_rows := ys_rows t @ [r1]\<rparr>" by auto
  have act: "active_row user key r1" using r1 by (simp add: active_row_place)
  have "find P (map (\<lambda>x. if P x then r1 else x) xs) = (if find P xs = None then None else Some r1)" if "P r1" for P xs
    using that by (induction xs) auto
  from this[of "active_row user key", OF act] have "find (active_row user key) (ys_rows t1) = Some r1"
    using c act by (auto simp: find_snoc)
  moreover have "preference_key_ok (yp_key r1)" using r1(5) by (auto simp: checked_profile_def split: if_splits)
  ultimately show ?thesis using r1 by (auto simp: row_place_def)
qed

lemma key_ok_evidence: "preference_key_ok k \<Longrightarrow> checked_evidence k v = Inr (preference_evidence k v)"
  by (auto simp: checked_evidence_def evidence_ok_def preference_evidence_def preference_key_ok_def Let_def Suc_le_eq)

text \<open>C29. A value that was set is read back, whatever is done to other keys and by other users in between, and whether it is
  stored in clear or encrypted; after a deletion the default of the registry is read.\<close>

theorem preference_reads_back:
  assumes "\<And>iv p. se_open env iv (se_seal env iv p) = Some p" "se_loads env (se_dumps env v) = Some v"
    and "set_preference env iv fresh now user key v secret t = (Inr a, t1)"
    and "list_all (\<lambda>op. touched op \<noteq> (user, key)) ops" "2 \<le> tier"
  shows "get_preference env user key tier (profile_run env ops t1) = Inr (preference_evidence key v) \<and>
    get_preference env user key tier (snd (delete_preference later user key (profile_run env ops t1))) =
      Inr (preference_evidence key (get_default_value key))"
proof
  let ?t = "profile_run env ops t1"
  obtain r where r: "find (active_row user key) (ys_rows ?t) = Some r" "preference_key_ok key" "yp_key r = key"
    "yp_value r = (if yp_sensitive r then encrypt_value env iv v else v)"
    using set_preference_active[OF assms(3)] run_other_active[OF assms(4)] by metis
  have "row_value env r = Inr v" using r(4) decrypt_encrypt_value[OF assms(1,2)] by (simp add: row_value_def)
  then show "get_preference env user key tier ?t = Inr (preference_evidence key v)"
    using r assms(5) key_ok_evidence by (simp add: get_preference_def db_get_preference_def checked_profile_def)
  have "find (\<lambda>r. row_place r = p) (filter (\<lambda>r. row_place r \<noteq> p) xs) = None" for p and xs :: "preference_row list"
    by (induction xs) auto
  then show "get_preference env user key tier (snd (delete_preference later user key ?t)) = Inr (preference_evidence key (get_default_value key))"
    using r(2) assms(5) key_ok_evidence by (simp add: get_preference_def db_get_preference_def delete_table find_active delete_actives)
qed

section \<open>All preferences\<close>

lemma all_checked_Inr: "all_checked rs = Inr qs \<Longrightarrow> qs = rs \<and> list_all (\<lambda>r. preference_key_ok (yp_key r)) rs"
  by (induction rs arbitrary: qs) (auto simp: bind_res_Inr_iff checked_profile_def split: if_splits)

lemma row_evidence_Inr:
  "row_evidence env rs = Inr es \<Longrightarrow> map ev_key es = map yp_key rs \<and>
     (\<forall>e\<in>set es. \<exists>r\<in>set rs. row_value env r = Inr (ev_value e) \<and> e = preference_evidence (yp_key r) (ev_value e))"
proof (induction rs arbitrary: es)
  case (Cons r rs)
  then obtain v e es1 where *: "row_value env r = Inr v" "checked_evidence (yp_key r) v = Inr e" "row_evidence env rs = Inr es1" "es = e # es1"
    by (auto simp: bind_res_Inr_iff)
  have e: "e = preference_evidence (yp_key r) v" using *(2) by (auto simp: checked_evidence_def split: if_splits)
  then have "ev_key e = yp_key r" "ev_value e = v" by (simp_all add: preference_evidence_def)
  then show ?case using * Cons.IH[OF *(3)] e by auto
qed simp

lemma default_keys:
  "map ev_key (default_evidence ks) = filter (\<lambda>k. k \<notin> set ks \<and> get_default_value k \<noteq> JNull) list_preference_keys"
  by (simp add: default_evidence_def preference_evidence_def comp_def)

lemma registry_keys: "distinct list_preference_keys" "list_all preference_key_ok list_preference_keys"
  by code_simp+

lemma find_unique_place:
  "distinct (map f xs) \<Longrightarrow> x \<in> set xs \<Longrightarrow> find (\<lambda>r. f r = f x) xs = Some x"
  by (induction xs) auto

definition user_rows :: "(string \<Rightarrow> nat) \<Rightarrow> string \<Rightarrow> profile_table \<Rightarrow> preference_row list" where
  "user_rows coll user t = sort_key (coll \<circ> yp_key) (filter (\<lambda>r. yp_user r = user \<and> yp_deleted r = None) (ys_rows t))"

lemma user_rows_set: "set (user_rows coll user t) = {r \<in> set (actives t). yp_user r = user}"
  by (auto simp: user_rows_def actives_def)

lemma user_rows_distinct:
  assumes "one_active t"
  shows "distinct (map yp_key (user_rows coll user t))"
proof -
  have d: "distinct (map row_place (filter (\<lambda>r. yp_user r = user) (actives t)))"
    using assms unfolding one_active_def by (rule distinct_map_filter)
  then have "inj_on row_place (set (filter (\<lambda>r. yp_user r = user) (actives t)))" by (simp add: distinct_map)
  then have "inj_on yp_key (set (filter (\<lambda>r. yp_user r = user) (actives t)))"
    unfolding inj_on_def row_place_def by auto
  moreover have "distinct (filter (\<lambda>r. yp_user r = user \<and> yp_deleted r = None) (ys_rows t))"
    using d by (simp add: distinct_map actives_def conj_commute)
  ultimately show ?thesis by (simp add: user_rows_def distinct_map actives_def conj_commute)
qed

lemma active_found:
  assumes "one_active t" "r \<in> set (actives t)"
  shows "find (active_row (yp_user r) (yp_key r)) (ys_rows t) = Some r"
  using find_unique_place[OF assms[unfolded one_active_def]] by (simp add: find_active row_place_def)

lemma not_found: "key \<notin> yp_key ` {r \<in> set (actives t). yp_user r = user} \<Longrightarrow> find (active_row user key) (ys_rows t) = None"
  unfolding find_active by (auto simp: find_None_iff row_place_def)

lemma get_all_agrees:
  assumes "one_active t" "get_all_preferences env user tier True t = Inr es" "e \<in> set es"
  shows "get_preference env user (ev_key e) tier t = Inr e"
proof -
  let ?rs = "user_rows (ye_coll env) user t"
  obtain es1 where tier: "\<not> tier < 2" and ok: "list_all (\<lambda>r. preference_key_ok (yp_key r)) ?rs"
    and es1: "row_evidence env ?rs = Inr es1" and es: "es = es1 @ default_evidence (map yp_key ?rs)"
    using assms(2) all_checked_Inr
    by (auto simp: get_all_preferences_def bind_res_Inr_iff db_get_all_preferences_def user_rows_def[symmetric] split: if_splits)
  consider (own) "e \<in> set es1" | (dflt) "e \<in> set (default_evidence (map yp_key ?rs))" using assms(3) es by auto
  then show ?thesis
  proof cases
    case own
    then obtain r where r: "r \<in> set ?rs" "row_value env r = Inr (ev_value e)" "e = preference_evidence (yp_key r) (ev_value e)"
      using row_evidence_Inr[OF es1] by blast
    have k: "ev_key e = yp_key r" using r(3) by (metis evidence_item.select_convs(2) preference_evidence_def)
    have u: "r \<in> set (actives t)" "yp_user r = user" using r(1) user_rows_set by auto
    have "preference_key_ok (yp_key r)" using ok r(1) by (simp add: list_all_iff)
    then show ?thesis using active_found[OF assms(1) u(1)] u(2) r(2,3) k tier key_ok_evidence
      by (simp add: get_preference_def db_get_preference_def checked_profile_def)
  next
    case dflt
    then have k: "ev_key e \<notin> set (map yp_key ?rs)" "ev_key e \<in> set list_preference_keys"
      "e = preference_evidence (ev_key e) (get_default_value (ev_key e))"
      by (auto simp: default_evidence_def preference_evidence_def)
    have "find (active_row user (ev_key e)) (ys_rows t) = None"
      using k(1) by (intro not_found) (auto simp: user_rows_set)
    moreover have "preference_key_ok (ev_key e)" using registry_keys(2) k(2) by (simp add: list_all_iff)
    ultimately show ?thesis using k(3) tier key_ok_evidence by (simp add: get_preference_def db_get_preference_def)
  qed
qed

text \<open>C30. After any run, the list of all preferences and the single reads agree: it names each set key of the user and each
  registered key with a default once, and every item is what the single read of its key answers.\<close>

theorem all_preferences_agree:
  assumes "t = profile_run env ops \<lparr>ys_users = us, ys_rows = []\<rparr>" "get_all_preferences env user tier True t = Inr es"
  shows "distinct (map ev_key es) \<and>
    set (map ev_key es) = yp_key ` {r \<in> set (actives t). yp_user r = user} \<union> {k \<in> set list_preference_keys. get_default_value k \<noteq> JNull} \<and>
    (\<forall>e\<in>set es. get_preference env user (ev_key e) tier t = Inr e)"
proof -
  let ?rs = "user_rows (ye_coll env) user t"
  have one: "one_active t" using assms(1) run_one_active[of "\<lparr>ys_users = us, ys_rows = []\<rparr>" env ops]
    by (simp add: one_active_def actives_def)
  obtain es1 where es1: "row_evidence env ?rs = Inr es1" and es: "es = es1 @ default_evidence (map yp_key ?rs)"
    using assms(2) all_checked_Inr
    by (auto simp: get_all_preferences_def bind_res_Inr_iff db_get_all_preferences_def user_rows_def[symmetric] split: if_splits)
  have keys: "map ev_key es = map yp_key ?rs @ filter (\<lambda>k. k \<notin> yp_key ` set ?rs \<and> get_default_value k \<noteq> JNull) list_preference_keys"
    using row_evidence_Inr[OF es1] es default_keys[of "map yp_key ?rs"] by simp
  have "distinct (map ev_key es)"
    unfolding keys using user_rows_distinct[OF one] registry_keys(1) by auto
  moreover have "set (map ev_key es) = yp_key ` {r \<in> set (actives t). yp_user r = user} \<union> {k \<in> set list_preference_keys. get_default_value k \<noteq> JNull}"
    unfolding keys set_append user_rows_set[symmetric, of _ _ "ye_coll env"] by auto
  ultimately show ?thesis using get_all_agrees[OF one assms(2)] by blast
qed

section \<open>Witnesses\<close>

definition passport_env :: profile_env where
  "passport_env = \<lparr>se_seal = (\<lambda>iv p. rev p), se_open = (\<lambda>iv b. Some (rev b)), se_dumps = (\<lambda>_. ''x''),
     se_loads = (\<lambda>x. if x = ''x'' then Some (JStr ''AB1234'') else None), ye_valid = (\<lambda>_ _. None), ye_coll = length,
     ye_float = (\<lambda>_. None), ye_prompted = None\<rparr>"

definition passport_op :: profile_op where
  "passport_op = Set_preference [1, 2, 3] ''r1'' 5 ''ana'' ''passport_number'' (JStr ''AB1234'') False"

definition ana_only :: profile_table where
  "ana_only = \<lparr>ys_users = [''ana''], ys_rows = []\<rparr>"

lemma passport_sensitive: "key_sensitive ''passport_number''" "preference_key_ok ''passport_number''"
  by code_simp+

lemma passport_set:
  "set_preference passport_env [1, 2, 3] ''r1'' 5 ''ana'' ''passport_number'' (JStr ''AB1234'') False ana_only =
     (Inr \<lparr>yr_id = ''r1'', yr_key = ''passport_number'', yr_value = JStr ''AB1234'', yr_updated = 5, yr_sensitive = True\<rparr>,
      \<lparr>ys_users = [''ana''], ys_rows = [\<lparr>yp_id = ''r1'', yp_user = ''ana'', yp_key = ''passport_number'',
        yp_value = encrypt_value passport_env [1, 2, 3] (JStr ''AB1234''), yp_sensitive = True, yp_updated = 5, yp_deleted = None\<rparr>]\<rparr>)"
  using passport_sensitive
  by (simp add: set_preference_def validate_value_def passport_env_def upsert_preference_def ana_only_def checked_profile_def Let_def
      split: option.split)

theorem sensitive_preferences_encrypted_witness:
  "(let r = hd (ys_rows (profile_run passport_env [passport_op] \<lparr>ys_users = [''ana''], ys_rows = []\<rparr>)) in
     yp_key r = ''passport_number'' \<and> yp_sensitive r \<and> yp_value r = JStr (encrypt_text passport_env [1, 2, 3] ''x''))"
proof -
  let ?t = "profile_run passport_env [passport_op] \<lparr>ys_users = [''ana''], ys_rows = []\<rparr>"
  let ?r = "\<lparr>yp_id = ''r1'', yp_user = ''ana'', yp_key = ''passport_number'',
        yp_value = encrypt_value passport_env [1, 2, 3] (JStr ''AB1234''), yp_sensitive = True, yp_updated = 5, yp_deleted = None\<rparr>"
  have t: "ys_rows ?t = [?r]"
    using passport_set unfolding ana_only_def by (simp add: profile_run_def passport_op_def)
  have "\<exists>iv fresh now v secret. Set_preference iv fresh now (yp_user ?r) (yp_key ?r) v secret \<in> set [passport_op] \<and>
     yp_sensitive ?r = (secret \<or> key_sensitive (yp_key ?r)) \<and>
     (if yp_sensitive ?r then yp_value ?r = JStr (encrypt_text passport_env iv (se_dumps passport_env v)) \<and>
        is_encrypted (encrypt_text passport_env iv (se_dumps passport_env v)) else yp_value ?r = v)"
    by (rule sensitive_preferences_encrypted[of ?r passport_env "[passport_op]" "[''ana'']"]) (simp add: t)
  moreover have "se_dumps passport_env v = ''x''" for v by (simp add: passport_env_def)
  ultimately have "yp_value ?r = JStr (encrypt_text passport_env [1, 2, 3] ''x'')" by (auto simp: passport_op_def)
  then show ?thesis by (simp add: t Let_def)
qed

theorem preference_reads_back_witness:
  "get_preference passport_env ''ana'' ''passport_number'' 2
     (profile_run passport_env [Delete_preference 7 ''ana'' ''theme''] (snd (set_preference passport_env [1, 2, 3] ''r1'' 5 ''ana'' ''passport_number'' (JStr ''AB1234'') False ana_only))) =
   Inr (preference_evidence ''passport_number'' (JStr ''AB1234''))"
proof -
  have "\<And>iv p. se_open passport_env iv (se_seal passport_env iv p) = Some p"
    "se_loads passport_env (se_dumps passport_env (JStr ''AB1234'')) = Some (JStr ''AB1234'')"
    by (simp_all add: passport_env_def)
  from preference_reads_back[OF this passport_set, of "[Delete_preference 7 ''ana'' ''theme'']" 2]
  show ?thesis by (simp add: passport_set)
qed

theorem all_preferences_agree_witness:
  "(case get_all_preferences passport_env ''ana'' 2 True (profile_run passport_env [] \<lparr>ys_users = [''ana''], ys_rows = []\<rparr>) of
      Inl e \<Rightarrow> False | Inr es \<Rightarrow> ''timezone'' \<in> set (map ev_key es) \<and> ''passport_number'' \<notin> set (map ev_key es))"
proof -
  let ?t = "profile_run passport_env [] \<lparr>ys_users = [''ana''], ys_rows = []\<rparr>"
  have g: "get_all_preferences passport_env ''ana'' 2 True ?t = Inr (default_evidence [])"
    by (simp add: get_all_preferences_def db_get_all_preferences_def profile_run_def)
  have d: "get_default_value ''timezone'' = JStr ''America/Chicago''" "get_default_value ''passport_number'' = JNull"
    "''timezone'' \<in> set list_preference_keys" by code_simp+
  have "set (map ev_key (default_evidence [])) =
    yp_key ` {r \<in> set (actives ?t). yp_user r = ''ana''} \<union> {k \<in> set list_preference_keys. get_default_value k \<noteq> JNull}"
    using all_preferences_agree[OF refl g] by blast
  then show ?thesis using g d by (simp add: profile_run_def actives_def)
qed

end
