(* ===== verification/Vector_Index.thy ===== *)
theory Vector_Index
  imports Py_Dates
begin

text \<open>
  The VectorIndex component (\<open>components/VectorIndex\<close>): the search text of a plan, the table of embeddings with one row
  per plan, and the hybrid search that fuses the keyword rank and the semantic rank of a plan by reciprocal ranks. The
  embedding model, its distance and PostgreSQL's text search are parameters; rows with equal keys keep the order of the
  table, and the window of the keyword query yields its rows in the order of their ranks.
\<close>

section \<open>Search text\<close>

text \<open>\<open>tx\<close> is \<open>str\<close> of floats and containers.\<close>

definition extract_intent_type :: "(json \<Rightarrow> string) \<Rightarrow> jobj \<Rightarrow> string" where
  "extract_intent_type tx d =
     (if d = [] then ''unknown''
      else if truthy (jget d ''intent_type'' JNull) then py_str tx (jget d ''intent_type'' JNull)
      else case jget d ''intent'' JNull of
        JObj b \<Rightarrow> (if truthy (jget b ''intent'' JNull) then py_str tx (jget b ''intent'' JNull) else ''unknown'')
      | _ \<Rightarrow> ''unknown'')"

fun step_action :: "(json \<Rightarrow> string) \<Rightarrow> json \<Rightarrow> string list" where
  "step_action tx (JObj s) =
     (let a = (if truthy (jget s ''action'' JNull) then jget s ''action'' JNull else jget s ''call'' JNull)
      in if truthy a then [py_str tx a] else [])"
| "step_action tx _ = []"

definition extract_actions :: "(json \<Rightarrow> string) \<Rightarrow> jobj \<Rightarrow> string list" where
  "extract_actions tx d = (case jget d ''graph'' (JArr []) of JArr ss \<Rightarrow> concat (map (step_action tx) ss) | _ \<Rightarrow> [])"

fun inner_object :: "json \<Rightarrow> string \<Rightarrow> jobj option" where
  "inner_object (JObj d) k = (case jget d k JNull of JObj e \<Rightarrow> Some e | _ \<Rightarrow> None)"
| "inner_object _ k = None"

definition extract_entity_values :: "(json \<Rightarrow> string) \<Rightarrow> jobj \<Rightarrow> string list" where
  "extract_entity_values tx d = (case inner_object (jget d ''intent'' JNull) ''entities'' of
       Some es \<Rightarrow> map (py_str tx \<circ> snd) es
     | None \<Rightarrow> (case jget d ''entities'' JNull of JObj es \<Rightarrow> map (py_str tx \<circ> snd) es | _ \<Rightarrow> []))"

text \<open>\<open>None\<close> is the \<open>ValueError\<close> of an empty plan.\<close>

definition build_search_text :: "(json \<Rightarrow> string) \<Rightarrow> jobj \<Rightarrow> string option" where
  "build_search_text tx d =
     (if d = [] then None
      else Some (join_with '' | ''
        [extract_intent_type tx d, join_with '' '' (extract_actions tx d),
         (case jget d ''constraints'' (JObj []) of JObj c \<Rightarrow> join_with '' '' (dict_keys c) | _ \<Rightarrow> []),
         join_with '' '' (extract_entity_values tx d)]))"

section \<open>The table\<close>

record 'v embedding_row =
  em_plan :: string
  em_intent :: string
  em_vector :: 'v
  em_text :: string

record 'v vector_env =
  vx_text :: "json \<Rightarrow> string"
  vx_embed :: "string \<Rightarrow> 'v"
  vx_distance :: "'v \<Rightarrow> 'v \<Rightarrow> rat"
  vx_matches :: "string \<Rightarrow> string \<Rightarrow> bool"
  vx_text_rank :: "string \<Rightarrow> string \<Rightarrow> rat"

datatype vector_error = Invalid_vector_query | Vector_database_failed

text \<open>The foreign key to the plans, the column sizes, and \<open>ON CONFLICT (plan_id) DO UPDATE\<close>.\<close>

definition upsert_embedding ::
  "string list \<Rightarrow> 'v embedding_row \<Rightarrow> 'v embedding_row list \<Rightarrow> (vector_error + unit) \<times> 'v embedding_row list" where
  "upsert_embedding plans r rows =
     (if em_plan r \<notin> set plans \<or> 26 < length (em_plan r) \<or> 64 < length (em_intent r) then (Inl Vector_database_failed, rows)
      else if em_plan r \<in> em_plan ` set rows then (Inr (), map (\<lambda>x. if em_plan x = em_plan r then r else x) rows)
      else (Inr (), rows @ [r]))"

definition delete_by_plan_id :: "string \<Rightarrow> 'v embedding_row list \<Rightarrow> 'v embedding_row list" where
  "delete_by_plan_id pid rows = filter (\<lambda>r. em_plan r \<noteq> pid) rows"

section \<open>Hybrid search\<close>

definition intent_filter :: "string option \<Rightarrow> 'v embedding_row \<Rightarrow> bool" where
  "intent_filter it r \<longleftrightarrow> (case it of None \<Rightarrow> True | Some t \<Rightarrow> em_intent r = t)"

definition ranked :: "'v embedding_row list \<Rightarrow> ('v embedding_row \<times> nat) list" where
  "ranked rs = take 20 (zip rs [1..<Suc (length rs)])"

text \<open>The two queries as PostgreSQL means them: \<open>LIMIT\<close> of the keyword query has no \<open>ORDER BY\<close> of its own, and the HNSW index over the
  embeddings may answer the semantic query approximately and before the filter; here both rankings are exact.\<close>

definition keyword_ranks :: "('v, 'z) vector_env_scheme \<Rightarrow> string \<Rightarrow> string option \<Rightarrow> 'v embedding_row list \<Rightarrow> ('v embedding_row \<times> nat) list" where
  "keyword_ranks env q it rows = ranked (sort_key (\<lambda>r. - vx_text_rank env (em_text r) q)
     (filter (\<lambda>r. vx_matches env (em_text r) q \<and> intent_filter it r) rows))"

definition semantic_ranks :: "('v, 'z) vector_env_scheme \<Rightarrow> 'v \<Rightarrow> string option \<Rightarrow> 'v embedding_row list \<Rightarrow> ('v embedding_row \<times> nat) list" where
  "semantic_ranks env v it rows = ranked (sort_key (\<lambda>r. vx_distance env (em_vector r) v) (filter (intent_filter it) rows))"

record hybrid_result =
  hr_plan :: string
  hr_intent :: string
  hr_score :: rat
  hr_keyword :: "nat option"
  hr_semantic :: "nat option"

definition rank_of :: "string \<Rightarrow> ('v embedding_row \<times> nat) list \<Rightarrow> nat option" where
  "rank_of pid rs = map_option snd (find (\<lambda>(r, n). em_plan r = pid) rs)"

definition reciprocal :: "nat option \<Rightarrow> rat" where
  "reciprocal n = (case n of None \<Rightarrow> 0 | Some k \<Rightarrow> 1 / (60 + of_nat k))"

definition fused :: "('v embedding_row \<times> nat) list \<Rightarrow> ('v embedding_row \<times> nat) list \<Rightarrow> 'v embedding_row \<Rightarrow> hybrid_result" where
  "fused ks ss r = \<lparr>hr_plan = em_plan r, hr_intent = em_intent r,
     hr_score = reciprocal (rank_of (em_plan r) ks) + reciprocal (rank_of (em_plan r) ss),
     hr_keyword = rank_of (em_plan r) ks, hr_semantic = rank_of (em_plan r) ss\<rparr>"

text \<open>\<open>keyword FULL OUTER JOIN semantic USING (plan_id)\<close>.\<close>

definition outer_join :: "('v embedding_row \<times> nat) list \<Rightarrow> ('v embedding_row \<times> nat) list \<Rightarrow> 'v embedding_row list" where
  "outer_join ks ss = map fst ks @ filter (\<lambda>r. rank_of (em_plan r) ks = None) (map fst ss)"

definition hybrid_search ::
  "('v, 'z) vector_env_scheme \<Rightarrow> 'v \<Rightarrow> string \<Rightarrow> string option \<Rightarrow> nat \<Rightarrow> 'v embedding_row list \<Rightarrow> hybrid_result list" where
  "hybrid_search env v q it top_k rows =
     (let ks = keyword_ranks env q it rows; ss = semantic_ranks env v it rows
      in take top_k (sort_key (\<lambda>h. - hr_score h) (map (fused ks ss) (outer_join ks ss))))"

section \<open>The service\<close>

definition store_embedding ::
  "('v, 'z) vector_env_scheme \<Rightarrow> string list \<Rightarrow> string \<Rightarrow> jobj \<Rightarrow> 'v embedding_row list \<Rightarrow> (vector_error + unit) \<times> 'v embedding_row list" where
  "store_embedding env plans pid d rows = (case build_search_text (vx_text env) d of
       None \<Rightarrow> (Inl Invalid_vector_query, rows)
     | Some s \<Rightarrow> upsert_embedding plans \<lparr>em_plan = pid, em_intent = extract_intent_type (vx_text env) d,
         em_vector = vx_embed env s, em_text = s\<rparr> rows)"

definition vector_search ::
  "('v, 'z) vector_env_scheme \<Rightarrow> string \<Rightarrow> string option \<Rightarrow> int \<Rightarrow> 'v embedding_row list \<Rightarrow> vector_error + hybrid_result list" where
  "vector_search env q it top_k rows =
     (if strip q = [] \<or> top_k < 1 \<or> 50 < top_k then Inl Invalid_vector_query
      else Inr (hybrid_search env (vx_embed env q) q it (nat top_k) rows))"

text \<open>\<open>bulk_store\<close>: the search texts of all plans first, then one transaction.\<close>

definition bulk_row :: "('v, 'z) vector_env_scheme \<Rightarrow> jobj \<Rightarrow> 'v embedding_row option" where
  "bulk_row env p =
     (case (jget p ''plan_data'' (JObj p), jget p ''plan_id'' (JStr [])) of
        (JObj d, JStr pid) \<Rightarrow> map_option (\<lambda>s. \<lparr>em_plan = pid, em_intent = extract_intent_type (vx_text env) d,
          em_vector = vx_embed env s, em_text = s\<rparr>) (build_search_text (vx_text env) d)
      | _ \<Rightarrow> None)"

fun bulk_rows :: "('v, 'z) vector_env_scheme \<Rightarrow> jobj list \<Rightarrow> 'v embedding_row list option" where
  "bulk_rows env [] = Some []"
| "bulk_rows env (p # ps) = (case (bulk_row env p, bulk_rows env ps) of (Some r, Some rs) \<Rightarrow> Some (r # rs) | _ \<Rightarrow> None)"

fun upsert_each :: "string list \<Rightarrow> 'v embedding_row list \<Rightarrow> 'v embedding_row list \<Rightarrow> (vector_error + unit) \<times> 'v embedding_row list" where
  "upsert_each plans [] rows = (Inr (), rows)"
| "upsert_each plans (r # rs) rows = (case upsert_embedding plans r rows of
       (Inl e, rows1) \<Rightarrow> (Inl e, rows1) | (Inr _, rows1) \<Rightarrow> upsert_each plans rs rows1)"

definition bulk_store ::
  "('v, 'z) vector_env_scheme \<Rightarrow> string list \<Rightarrow> jobj list \<Rightarrow> 'v embedding_row list \<Rightarrow> (vector_error + nat) \<times> 'v embedding_row list" where
  "bulk_store env plans ps rows =
     (if ps = [] then (Inl Invalid_vector_query, rows)
      else case bulk_rows env ps of
        None \<Rightarrow> (Inl Invalid_vector_query, rows)
      | Some rs \<Rightarrow> (case upsert_each plans rs rows of
            (Inl e, rows1) \<Rightarrow> (Inl e, rows) | (Inr _, rows1) \<Rightarrow> (Inr (length rs), rows1)))"

end
