(* ===== verification/Context_Rag.thy ===== *)
theory Context_Rag
  imports Profile_Store Plan_Service Vector_Index
begin

text \<open>
  The ContextRAG component (\<open>components/ContextRAG\<close>): the evidence for a plan is gathered from ProfileStore, History,
  PlanLibrary and VectorIndex as the tier of the request allows, one item per key is kept, the items are scored against
  the intent, and the best are taken until the budget of 2048 bytes is full. The sources are the models of the
  components; \<open>cg_answers\<close> says which of them answer within their 100 ms. Floating-point numbers are exact.
\<close>

section \<open>Environment\<close>

record 'v context_env =
  cg_profile :: profile_env
  cg_library :: library_env
  cg_vector :: "'v vector_env option"
  cg_uuid :: "string \<Rightarrow> string option"
  cg_text :: "json \<Rightarrow> string"
  cg_equal :: "json \<Rightarrow> json \<Rightarrow> bool"
  cg_size :: "evidence_item \<Rightarrow> nat"
  cg_answers :: "string \<Rightarrow> bool"

record 'v memory_layers =
  cm_profile :: profile_table
  cm_history :: history
  cm_library :: library
  cm_vectors :: "'v embedding_row list"

text \<open>\<open>cg_uuid\<close> is the \<open>UUID\<close> constructor, \<open>cg_equal\<close> Python's \<open>==\<close> on values, \<open>cg_size\<close> the length of an item's
  JSON text in bytes. A source answers a list or raises (\<open>None\<close>).\<close>

section \<open>The sources\<close>

definition effective_budget :: "intent \<Rightarrow> int" where
  "effective_budget i = (case in_context_budget i of None \<Rightarrow> 3 | Some b \<Rightarrow> if b = 0 then 3 else b)"

definition ok_or_none :: "'e + 'a \<Rightarrow> 'a option" where
  "ok_or_none r = (case r of Inl e \<Rightarrow> None | Inr a \<Rightarrow> Some a)"

definition profile_evidence :: "('v, 'z) context_env_scheme \<Rightarrow> intent \<Rightarrow> 'v memory_layers \<Rightarrow> evidence_item list option" where
  "profile_evidence env i m = Option.bind (cg_uuid env (in_user_id i)) (\<lambda>u.
     ok_or_none (get_all_preferences (cg_profile env) u (effective_budget i) True (cm_profile m)))"

definition pattern_evidence :: "fact_pattern \<Rightarrow> evidence_item" where
  "pattern_evidence p = \<lparr>ev_type = Ev_history, ev_key = fp_key p, ev_value = JStr (fp_description p),
     ev_confidence = fp_confidence p, ev_source_ref = ''history:patterns/'' @ fp_id p, ev_ttl_days = Some 30, ev_tier = 3\<rparr>"

definition history_evidence :: "('v, 'z) context_env_scheme \<Rightarrow> int \<Rightarrow> intent \<Rightarrow> 'v memory_layers \<Rightarrow> evidence_item list option" where
  "history_evidence env now i m = Option.bind (cg_uuid env (in_user_id i)) (\<lambda>u.
     Option.bind (ok_or_none (get_facts_by_intent now u (Some (in_intent i)) 20 (Some 30) (cm_history m))) (\<lambda>r.
       let ps = map pattern_evidence (get_patterns now u (Some (in_intent i)) (1 / 2) (cm_history m))
       in if list_all evidence_ok ps then Some (filter evidence_ok (fq_evidence r) @ ps) else None))"

definition library_evidence :: "('v, 'z) context_env_scheme \<Rightarrow> int \<Rightarrow> intent \<Rightarrow> 'v memory_layers \<Rightarrow> evidence_item list option" where
  "library_evidence env now i m = ok_or_none (plans_by_intent (cg_library env) now (in_intent i) (7 / 10) 5 (Some 90) (cm_library m))"

definition exemplar_of :: "hybrid_result \<Rightarrow> evidence_item" where
  "exemplar_of h = \<lparr>ev_type = Ev_exemplar, ev_key = ''similar_plan_'' @ take 8 (hr_plan h),
     ev_value = JObj [(''plan_id'', JStr (hr_plan h)), (''rrf_score'', JFloat (hr_score h))],
     ev_confidence = min (hr_score h) 1, ev_source_ref = ''vectorindex:search/'' @ hr_plan h, ev_ttl_days = None, ev_tier = 3\<rparr>"

definition vector_query :: "('v, 'z) context_env_scheme \<Rightarrow> intent \<Rightarrow> string" where
  "vector_query env i = in_intent i @ '' '' @ join_with '' '' (map (py_str (cg_text env) \<circ> snd) (in_entities i))"

definition vector_evidence :: "('v, 'z) context_env_scheme \<Rightarrow> 'v vector_env \<Rightarrow> intent \<Rightarrow> 'v memory_layers \<Rightarrow> evidence_item list option" where
  "vector_evidence env vx i m =
     Option.bind (ok_or_none (vector_search vx (vector_query env i) (Some (in_intent i)) 3 (cm_vectors m))) (\<lambda>hs.
       if list_all (evidence_ok \<circ> exemplar_of) hs then Some (map exemplar_of hs) else None)"

text \<open>The eligible sources with what they answer, in the order of the code.\<close>

definition source_answers ::
  "('v, 'z) context_env_scheme \<Rightarrow> int \<Rightarrow> intent \<Rightarrow> 'v memory_layers \<Rightarrow> (string \<times> evidence_item list option) list" where
  "source_answers env now i m =
     map (\<lambda>(s, r). (s, if cg_answers env s then r else None))
       ((if 2 \<le> effective_budget i then [(''profilestore'', profile_evidence env i m)] else []) @
        (if 3 \<le> effective_budget i
         then [(''history'', history_evidence env now i m), (''planlibrary'', library_evidence env now i m)] @
           (case cg_vector env of None \<Rightarrow> [] | Some vx \<Rightarrow> [(''vectorindex'', vector_evidence env vx i m)])
         else []))"

section \<open>Deduplication and budget\<close>

fun dedupe_from :: "(string, evidence_item) dict \<Rightarrow> evidence_item list \<Rightarrow> (string, evidence_item) dict" where
  "dedupe_from best [] = best"
| "dedupe_from best (e # es) = (case dict_get best (ev_key e) of
       None \<Rightarrow> dedupe_from (best @ [(ev_key e, e)]) es
     | Some b \<Rightarrow> dedupe_from (if ev_confidence b < ev_confidence e then dict_set (ev_key e) e best else best) es)"

definition deduplicate :: "evidence_item list \<Rightarrow> evidence_item list" where
  "deduplicate es = map snd (dedupe_from [] es)"

definition budget_bytes :: nat where
  "budget_bytes = 2048"

fun trim :: "(evidence_item \<Rightarrow> nat) \<Rightarrow> nat \<Rightarrow> evidence_item list \<Rightarrow> evidence_item list \<times> nat" where
  "trim sz used [] = ([], used)"
| "trim sz used (e # es) =
     (if budget_bytes < used + sz e then ([], used)
      else let (kept, n) = trim sz (used + sz e) es in (e # kept, n))"

text \<open>Sorting by a tuple is sorting stably by its parts, the last part first.\<close>

definition prioritised :: "(string, rat) dict \<Rightarrow> evidence_item list \<Rightarrow> evidence_item list" where
  "prioritised scores es =
     (let by_tier = sort_key ev_tier (sort_key (\<lambda>e. - ev_confidence e) es)
      in if scores = [] then by_tier
         else sort_key (\<lambda>e. - (case dict_get scores (ev_key e) of Some q \<Rightarrow> q | None \<Rightarrow> 0)) by_tier)"

definition enforce_budget :: "(evidence_item \<Rightarrow> nat) \<Rightarrow> (string, rat) dict \<Rightarrow> evidence_item list \<Rightarrow> evidence_item list \<times> nat" where
  "enforce_budget sz scores es = trim sz 0 (prioritised scores es)"

section \<open>Scoring\<close>

definition stop_words :: "string list" where
  "stop_words = [''the'', ''a'', ''an'', ''to'', ''for'', ''with'', ''from'', ''in'', ''on'', ''at'',
     ''by'', ''of'', ''and'', ''or'', ''is'', ''my'', ''me'', ''i'', ''do'', ''get'']"

definition lower_letter :: "char \<Rightarrow> bool" where
  "lower_letter c = (let n = of_char c :: nat in 97 \<le> n \<and> n \<le> 122)"

definition upper_letter :: "char \<Rightarrow> bool" where
  "upper_letter c = (let n = of_char c :: nat in 65 \<le> n \<and> n \<le> 90)"

fun snake :: "string \<Rightarrow> string" where
  "snake (a # b # s) = (if lower_letter a \<and> upper_letter b then a # CHR ''_'' # b # snake s else a # snake (b # s))"
| "snake s = s"

definition ascii_alnum :: "char \<Rightarrow> bool" where
  "ascii_alnum c \<longleftrightarrow> lower_letter c \<or> upper_letter c \<or> is_digit c"

fun split_words :: "string \<Rightarrow> string \<Rightarrow> string list" where
  "split_words acc [] = [rev acc]"
| "split_words acc (c # s) = (if ascii_alnum c then split_words (c # acc) s else rev acc # split_words [] s)"

text \<open>A set of tokens is a list without repetition.\<close>

definition tokenize_words :: "string \<Rightarrow> string list" where
  "tokenize_words s = remdups (filter (\<lambda>p. 1 < length p \<and> p \<notin> set stop_words) (split_words [] (lower (snake s))))"

definition text_tokens :: "json \<Rightarrow> string list" where
  "text_tokens v = (case v of JStr s \<Rightarrow> tokenize_words s | _ \<Rightarrow> [])"

definition intent_tokens :: "intent \<Rightarrow> string list" where
  "intent_tokens i = remdups (tokenize_words (in_intent i) @ concat (map (tokenize_words \<circ> fst) (in_entities i)) @
     concat (map (text_tokens \<circ> snd) (in_entities i)))"

definition evidence_tokens :: "evidence_item \<Rightarrow> string list" where
  "evidence_tokens e = remdups (tokenize_words (ev_key e) @ text_tokens (ev_value e))"

definition affinity :: "(string \<times> evidence_type list) list" where
  "affinity =
    [(''email'', [Ev_contact, Ev_preference]), (''mail'', [Ev_contact, Ev_preference]), (''send'', [Ev_contact, Ev_preference]),
     (''reply'', [Ev_contact, Ev_history]), (''draft'', [Ev_contact, Ev_preference]),
     (''meeting'', [Ev_preference, Ev_history, Ev_contact]), (''schedule'', [Ev_preference, Ev_history, Ev_contact]),
     (''calendar'', [Ev_preference, Ev_history]), (''event'', [Ev_preference, Ev_history, Ev_contact]),
     (''book'', [Ev_preference, Ev_history, Ev_contact]), (''appointment'', [Ev_preference, Ev_history, Ev_contact]),
     (''reschedule'', [Ev_preference, Ev_history, Ev_contact]), (''availability'', [Ev_preference, Ev_history]),
     (''document'', [Ev_exemplar, Ev_history, Ev_preference]), (''doc'', [Ev_exemplar, Ev_history, Ev_preference]),
     (''create'', [Ev_preference, Ev_exemplar]), (''edit'', [Ev_history, Ev_preference]), (''task'', [Ev_history, Ev_preference]),
     (''todo'', [Ev_history, Ev_preference]), (''note'', [Ev_history, Ev_preference]), (''notion'', [Ev_history, Ev_preference])]"

definition affinity_types :: "string \<Rightarrow> evidence_type list" where
  "affinity_types action =
     (let ts = concat (map snd (filter (\<lambda>(k, _). contains_sub k (lower action)) affinity))
      in if ts = [] then [Ev_preference, Ev_history, Ev_contact, Ev_plan, Ev_exemplar] else ts)"

definition same_value :: "('v, 'z) context_env_scheme \<Rightarrow> json \<Rightarrow> json \<Rightarrow> bool" where
  "same_value env x v \<longleftrightarrow> cg_equal env x v \<or> (case (v, x) of (JStr a, JStr b) \<Rightarrow> lower a = lower b | _ \<Rightarrow> False)"

definition entity_score :: "('v, 'z) context_env_scheme \<Rightarrow> intent \<Rightarrow> evidence_item \<Rightarrow> rat" where
  "entity_score env i e =
     (if list_ex (\<lambda>(k, v). same_value env (ev_value e) v) (in_entities i) then 1
      else if list_ex (\<lambda>(k, v). list_ex (\<lambda>t. t \<in> set (tokenize_words (ev_key e))) (tokenize_words k)) (in_entities i) then 4 / 5
      else 0)"

definition relevance :: "('v, 'z) context_env_scheme \<Rightarrow> intent \<Rightarrow> evidence_item \<Rightarrow> rat" where
  "relevance env i e =
     (let ts = intent_tokens i;
          keyword = of_nat (length (filter (\<lambda>t. t \<in> set (evidence_tokens e)) ts)) / of_nat (max (length ts) 1);
          r = 4 / 10 * keyword + 3 / 10 * entity_score env i e +
            2 / 10 * (if ev_type e \<in> set (affinity_types (in_intent i)) then 1 else 0) + 1 / 10 * ev_confidence e
      in min (max r 0) 1)"

definition scored :: "('v, 'z) context_env_scheme \<Rightarrow> intent \<Rightarrow> evidence_item list \<Rightarrow> (evidence_item \<times> rat) list" where
  "scored env i es = sort_key (\<lambda>(e, q). - q) (map (\<lambda>e. (e, relevance env i e)) es)"

definition score_to_dict :: "('v, 'z) context_env_scheme \<Rightarrow> intent \<Rightarrow> evidence_item list \<Rightarrow> (string, rat) dict" where
  "score_to_dict env i es = fold (\<lambda>(e, q). dict_set (ev_key e) q) (scored env i es) []"

section \<open>The service\<close>

record context_result =
  ct_evidence :: "evidence_item list"
  ct_total_bytes :: nat
  ct_degraded :: "string list"

definition gather_evidence :: "('v, 'z) context_env_scheme \<Rightarrow> int \<Rightarrow> intent \<Rightarrow> 'v memory_layers \<Rightarrow> context_result" where
  "gather_evidence env now i m =
     (let answers = source_answers env now i m
      in if answers = [] then \<lparr>ct_evidence = [], ct_total_bytes = 0, ct_degraded = []\<rparr>
         else let items = deduplicate (concat (map (\<lambda>(s, r). case r of None \<Rightarrow> [] | Some es \<Rightarrow> es) answers));
                  (kept, used) = enforce_budget (cg_size env) (score_to_dict env i items) items
              in \<lparr>ct_evidence = kept, ct_total_bytes = used, ct_degraded = map fst (filter (\<lambda>(s, r). r = None) answers)\<rparr>)"

end
