(* ===== verification/Context_Laws.thy ===== *)
theory Context_Laws
  imports Context_Rag History_Laws
begin

text \<open>
  What VectorIndex and ContextRAG promise: the hybrid search returns each plan once, by falling score, and leaves out
  only plans that score no better; deduplication keeps the first of the most confident items of every key; the gathered
  context fits its budget and comes from the sources that answered.
\<close>

section \<open>Hybrid search\<close>

lemma ranked_rows: "map fst (ranked rs) = take 20 rs"
  by (simp add: ranked_def take_map[symmetric] del: upt_Suc)

lemma rank_of_None: "rank_of pid rs = None \<longleftrightarrow> pid \<notin> em_plan ` fst ` set rs"
  by (auto simp: rank_of_def find_None_iff image_iff split: prod.splits)

lemma ranked_positive: "rank_of pid (ranked rs) = Some n \<Longrightarrow> 1 \<le> n"
proof -
  assume "rank_of pid (ranked rs) = Some n"
  then obtain r where "find (\<lambda>(r, n). em_plan r = pid) (ranked rs) = Some (r, n)" by (auto simp: rank_of_def)
  then have "(r, n) \<in> set (ranked rs)" by (rule find_SomeD[THEN conjunct1])
  then have "(r, n) \<in> set (zip rs [1..<Suc (length rs)])" unfolding ranked_def by (rule in_set_takeD)
  then have "n \<in> set [1..<Suc (length rs)]" by (rule set_zip_rightD)
  then show ?thesis by auto
qed

lemma reciprocal_bounds: "(\<And>k. n = Some k \<Longrightarrow> 1 \<le> k) \<Longrightarrow> 0 \<le> reciprocal n \<and> reciprocal n \<le> 1 / 61 \<and> (n \<noteq> None \<longrightarrow> 0 < reciprocal n)"
  by (cases n) (auto simp: reciprocal_def divide_simps)

lemma fused_fields [simp]: "hr_plan (fused ks ss r) = em_plan r" "hr_intent (fused ks ss r) = em_intent r"
  "hr_score (fused ks ss r) = reciprocal (rank_of (em_plan r) ks) + reciprocal (rank_of (em_plan r) ss)"
  by (simp_all add: fused_def)

lemma fused_plan [simp]: "hr_plan \<circ> fused ks ss = em_plan"
  by (simp add: fun_eq_iff)

lemma outer_join_distinct:
  assumes "distinct (map em_plan (map fst ks))" "distinct (map em_plan (map fst ss))"
  shows "distinct (map em_plan (outer_join ks ss))"
proof -
  have "distinct (map em_plan (filter (\<lambda>r. rank_of (em_plan r) ks = None) (map fst ss)))"
    using assms(2) by (rule distinct_map_filter)
  moreover have "em_plan ` fst ` set ks \<inter> em_plan ` set (filter (\<lambda>r. rank_of (em_plan r) ks = None) (map fst ss)) = {}"
    by (auto simp: rank_of_None) (metis fst_conv image_eqI)
  ultimately show ?thesis using assms(1) by (auto simp: outer_join_def)
qed

lemma distinct_ranked_rows:
  assumes "distinct (map em_plan rows)"
  shows "distinct (map em_plan (map fst (ranked (sort_key f (filter P rows)))))"
proof -
  have "distinct (map em_plan (filter P rows))" using assms by (rule distinct_map_filter)
  then have "distinct (map em_plan (sort_key f (filter P rows)))" by (simp add: distinct_map)
  then show ?thesis unfolding ranked_rows by (simp add: take_map[symmetric] distinct_take)
qed

lemma distinct_map_sort: "distinct (map f (sort_key g xs)) = distinct (map f xs)"
  by (simp add: distinct_map)

lemma sorted_take_rest:
  assumes "sorted (map f xs)" "a \<in> set (take n xs)" "b \<in> set xs" "b \<notin> set (take n xs)"
  shows "f a \<le> (f b :: 'a :: linorder)"
proof -
  have "b \<in> set (drop n xs)" using assms(3,4) by (metis UnE append_take_drop_id set_append)
  moreover have "sorted (map f (take n xs) @ map f (drop n xs))" using assms(1) by (simp flip: map_append)
  ultimately show ?thesis using assms(2) by (auto simp: sorted_append)
qed

lemma fused_score_bounds:
  assumes "r \<in> set (outer_join (keyword_ranks env q it rows) (semantic_ranks env v it rows))" (is "_ \<in> set (outer_join ?ks ?ss)")
  shows "0 < hr_score (fused ?ks ?ss r) \<and> hr_score (fused ?ks ?ss r) \<le> 2 / 61"
proof -
  have "rank_of (em_plan r) ?ks \<noteq> None \<or> rank_of (em_plan r) ?ss \<noteq> None"
    using assms by (auto simp: outer_join_def rank_of_None)
  moreover have "0 \<le> reciprocal (rank_of p ?ks) \<and> reciprocal (rank_of p ?ks) \<le> 1 / 61 \<and> (rank_of p ?ks \<noteq> None \<longrightarrow> 0 < reciprocal (rank_of p ?ks))" for p
    by (rule reciprocal_bounds) (auto simp: keyword_ranks_def dest: ranked_positive)
  moreover have "0 \<le> reciprocal (rank_of p ?ss) \<and> reciprocal (rank_of p ?ss) \<le> 1 / 61 \<and> (rank_of p ?ss \<noteq> None \<longrightarrow> 0 < reciprocal (rank_of p ?ss))" for p
    by (rule reciprocal_bounds) (auto simp: semantic_ranks_def dest: ranked_positive)
  ultimately show ?thesis unfolding fused_fields
    by (metis (no_types, lifting) add_mono add_nonneg_pos add_pos_nonneg add_divide_distrib one_add_one)
qed

text \<open>C28. The hybrid search answers at most \<open>top_k\<close> plans, each once, by falling score; every one is stored under the wanted
  intent and scores above 0 and at most 2/61; and a plan among the twenty best of either ranking is missing only when
  \<open>top_k\<close> plans that score at least as much are there. Assumed: PostgreSQL answers both rankings exactly and in their order (the
  index over the embeddings is approximate, and the limit of the keyword query has no order of its own).\<close>

theorem hybrid_search_fuses_ranks:
  assumes "distinct (map em_plan rows)" "hs = hybrid_search env v q it k rows"
  shows "length hs \<le> k \<and> distinct (map hr_plan hs) \<and> sorted_wrt (\<lambda>a b. hr_score b \<le> hr_score a) hs \<and>
    list_all (\<lambda>h. 0 < hr_score h \<and> hr_score h \<le> 2 / 61 \<and> (\<exists>r\<in>set rows. em_plan r = hr_plan h \<and> intent_filter it r)) hs \<and>
    list_all (\<lambda>r. em_plan r \<in> hr_plan ` set hs \<or>
        length hs = k \<and> list_all (\<lambda>h. hr_score (fused (keyword_ranks env q it rows) (semantic_ranks env v it rows) r) \<le> hr_score h) hs)
      (outer_join (keyword_ranks env q it rows) (semantic_ranks env v it rows))"
proof -
  let ?ks = "keyword_ranks env q it rows" and ?ss = "semantic_ranks env v it rows"
  let ?J = "outer_join ?ks ?ss" and ?all = "map (fused ?ks ?ss) (outer_join ?ks ?ss)"
  let ?S = "sort_key (\<lambda>h. - hr_score h) ?all"
  have hs: "hs = take k ?S" using assms(2) by (simp add: hybrid_search_def Let_def)
  have J: "set ?J \<subseteq> {r \<in> set rows. intent_filter it r}"
    by (auto simp: outer_join_def keyword_ranks_def semantic_ranks_def ranked_def dest!: in_set_takeD set_zip_leftD)
  have dJ: "distinct (map em_plan ?J)"
    by (rule outer_join_distinct) (simp_all only: keyword_ranks_def semantic_ranks_def distinct_ranked_rows[OF assms(1)])
  have "map hr_plan ?all = map em_plan ?J" by simp
  then have "distinct (map hr_plan ?S)" using dJ distinct_map_sort[of hr_plan _ ?all] by simp
  then have d: "distinct (map hr_plan hs)" unfolding hs by (simp add: take_map[symmetric] distinct_take)
  have so: "sorted (map (\<lambda>h. - hr_score h) ?S)" by simp
  then have "sorted (map (\<lambda>h. - hr_score h) hs)" unfolding hs by (simp add: take_map[symmetric] sorted_wrt_take)
  then have s: "sorted_wrt (\<lambda>a b. hr_score b \<le> hr_score a) hs" by (simp add: sorted_wrt_map)
  have each: "0 < hr_score h \<and> hr_score h \<le> 2 / 61 \<and> (\<exists>r\<in>set rows. em_plan r = hr_plan h \<and> intent_filter it r)" if h: "h \<in> set hs" for h
  proof -
    obtain r where r: "r \<in> set ?J" "h = fused ?ks ?ss r" using h in_set_takeD[of h k ?S] unfolding hs by auto
    then show ?thesis using J fused_score_bounds[OF r(1)] by auto
  qed
  have rest: "em_plan r \<in> hr_plan ` set hs \<or> length hs = k \<and> list_all (\<lambda>h. hr_score (fused ?ks ?ss r) \<le> hr_score h) hs"
    if r: "r \<in> set ?J" for r
  proof (cases "fused ?ks ?ss r \<in> set hs")
    case True
    then show ?thesis by force
  next
    case False
    have i: "fused ?ks ?ss r \<in> set ?S" using r by simp
    then have "length hs = k" using False unfolding hs by (cases "length ?S \<le> k") auto
    moreover have "hr_score (fused ?ks ?ss r) \<le> hr_score h" if "h \<in> set hs" for h
      using sorted_take_rest[OF so _ i] False that unfolding hs by fastforce
    ultimately show ?thesis by (simp add: list_all_iff)
  qed
  show ?thesis using d s each rest by (simp add: list_all_iff) (simp add: hs)
qed

section \<open>Deduplication\<close>

text \<open>The first of the most confident items of a key.\<close>

fun pick :: "evidence_item option \<Rightarrow> evidence_item list \<Rightarrow> evidence_item option" where
  "pick acc [] = acc"
| "pick None (e # es) = pick (Some e) es"
| "pick (Some b) (e # es) = pick (Some (if ev_confidence b < ev_confidence e then e else b)) es"

lemma dedupe_get:
  "dict_get (dedupe_from best es) k = pick (dict_get best k) (filter (\<lambda>e. ev_key e = k) es)"
proof (induction es arbitrary: best)
  case (Cons e es)
  then show ?case by (cases "dict_get best (ev_key e)") (auto simp: map_add_def split: option.splits)
qed simp

lemma keys_update_known: "k \<in> set (dict_keys d) \<Longrightarrow> dict_keys (dict_set k v d) = dict_keys d"
  by (simp add: update_keys)

lemma nub_first_Cons: "nub_first (xs @ [x]) = (if x \<in> set xs then nub_first xs else nub_first xs @ [x])"
  by (simp add: nub_first_def)

lemma dedupe_keys:
  "map fst best = nub_first ks \<Longrightarrow> map fst (dedupe_from best es) = nub_first (ks @ map ev_key es)"
proof (induction es arbitrary: best ks)
  case (Cons e es)
  have keys: "fst ` set best = set ks" using arg_cong[OF Cons.prems, of set] by simp
  show ?case
  proof (cases "dict_get best (ev_key e)")
    case None
    then have "ev_key e \<notin> set ks" using keys by (simp add: map_of_eq_None_iff)
    then have "map fst (best @ [(ev_key e, e)]) = nub_first (ks @ [ev_key e])" using Cons.prems by (simp add: nub_first_Cons)
    then have "map fst (dedupe_from (best @ [(ev_key e, e)]) es) = nub_first ((ks @ [ev_key e]) @ map ev_key es)" by (rule Cons.IH)
    then show ?thesis using None by simp
  next
    case (Some b)
    then have "ev_key e \<in> fst ` set best" by (metis map_of_eq_None_iff option.distinct(1))
    then have in_ks: "ev_key e \<in> set (dict_keys best)" "ev_key e \<in> set ks" using keys by simp_all
    let ?best = "if ev_confidence b < ev_confidence e then dict_set (ev_key e) e best else best"
    have "map fst ?best = nub_first (ks @ [ev_key e])"
      using in_ks keys_update_known[of "ev_key e" best] Cons.prems by (simp add: nub_first_Cons)
    then have "map fst (dedupe_from ?best es) = nub_first ((ks @ [ev_key e]) @ map ev_key es)" by (rule Cons.IH)
    then show ?thesis using Some by simp
  qed
qed simp

lemma dedupe_values: "list_all (\<lambda>(k, e). ev_key e = k) best \<Longrightarrow> list_all (\<lambda>(k, e). ev_key e = k) (dedupe_from best es)"
proof (induction es arbitrary: best)
  case (Cons e es)
  have "list_all (\<lambda>(k, e). ev_key e = k) (dict_set (ev_key e) e d)" if "list_all (\<lambda>(k, e). ev_key e = k) d" for d
    using that by (induction d) auto
  then show ?case using Cons by (simp split: option.split)
qed simp

lemma pick_best:
  "pick (Some b) es = Some x \<Longrightarrow>
   find (\<lambda>y. list_all (\<lambda>z. ev_confidence z \<le> ev_confidence y) (b # es)) (b # es) = Some x"
proof (induction es arbitrary: b)
  case (Cons e es)
  show ?case
  proof (cases "ev_confidence b < ev_confidence e")
    case True
    then have "pick (Some e) es = Some x" using Cons.prems by simp
    then have f: "find (\<lambda>y. list_all (\<lambda>z. ev_confidence z \<le> ev_confidence y) (e # es)) (e # es) = Some x" by (rule Cons.IH)
    have "find (\<lambda>y. list_all (\<lambda>z. ev_confidence z \<le> ev_confidence y) (b # e # es)) (e # es) =
      find (\<lambda>y. list_all (\<lambda>z. ev_confidence z \<le> ev_confidence y) (e # es)) (e # es)"
      by (rule find_cong[OF refl]) (use True in auto)
    then show ?thesis using f True by simp
  next
    case False
    then have "pick (Some b) es = Some x" using Cons.prems by simp
    then have f: "find (\<lambda>y. list_all (\<lambda>z. ev_confidence z \<le> ev_confidence y) (b # es)) (b # es) = Some x" by (rule Cons.IH)
    show ?thesis
    proof (cases "list_all (\<lambda>z. ev_confidence z \<le> ev_confidence b) es")
      case True
      then show ?thesis using f False by simp
    next
      case no: False
      then have g: "find (\<lambda>y. list_all (\<lambda>z. ev_confidence z \<le> ev_confidence y) (b # es)) es = Some x" using f by simp
      obtain z where z: "z \<in> set es" "ev_confidence b < ev_confidence z" using no by (auto simp: list_all_iff not_le)
      have "\<not> ev_confidence z \<le> ev_confidence e" using z(2) False by simp
      then have "\<not> list_all (\<lambda>z. ev_confidence z \<le> ev_confidence e) es" using z(1) by (auto simp: list_all_iff)
      moreover have "find (\<lambda>y. list_all (\<lambda>z. ev_confidence z \<le> ev_confidence y) (b # e # es)) es =
        find (\<lambda>y. list_all (\<lambda>z. ev_confidence z \<le> ev_confidence y) (b # es)) es"
        by (rule find_cong[OF refl]) (use False in auto)
      ultimately show ?thesis using g no by simp
    qed
  qed
qed simp

lemma pick_None: "pick None es = Some x \<Longrightarrow> find (\<lambda>y. list_all (\<lambda>z. ev_confidence z \<le> ev_confidence y) es) es = Some x"
  using pick_best by (cases es) (simp, simp only: pick.simps)

lemma deduplicate_keys: "map ev_key (deduplicate es) = nub_first (map ev_key es)"
proof -
  have "list_all (\<lambda>(k, e). ev_key e = k) (dedupe_from [] es)" by (rule dedupe_values) simp
  then have "map ev_key (map snd (dedupe_from [] es)) = map fst (dedupe_from [] es)" by (auto simp: list_all_iff)
  then show ?thesis using dedupe_keys[of "[]" "[]" es] by (simp add: deduplicate_def nub_first_def)
qed

lemma deduplicate_distinct: "distinct (map ev_key (deduplicate es))"
  by (simp add: deduplicate_keys)

text \<open>C40. Deduplication leaves one item per key, in the order in which the keys first occur, and the item of a key is the
  first among those of this key that none of them exceeds in confidence.\<close>

theorem deduplicate_keeps_best:
  assumes "e \<in> set (deduplicate es)"
  shows "map ev_key (deduplicate es) = nub_first (map ev_key es) \<and>
    find (\<lambda>x. list_all (\<lambda>y. ev_confidence y \<le> ev_confidence x) (filter (\<lambda>y. ev_key y = ev_key e) es)) (filter (\<lambda>y. ev_key y = ev_key e) es) = Some e"
proof
  let ?d = "dedupe_from [] es"
  have k: "map fst ?d = nub_first (map ev_key es)" using dedupe_keys[of "[]" "[]" es] by (simp add: nub_first_def)
  have v: "list_all (\<lambda>(k, e). ev_key e = k) ?d" by (rule dedupe_values) simp
  show "map ev_key (deduplicate es) = nub_first (map ev_key es)" by (rule deduplicate_keys)
  have "(ev_key e, e) \<in> set ?d" using assms v by (auto simp: deduplicate_def list_all_iff)
  moreover have "distinct (map fst ?d)" unfolding k by simp
  ultimately have "dict_get ?d (ev_key e) = Some e" by simp
  then show "find (\<lambda>x. list_all (\<lambda>y. ev_confidence y \<le> ev_confidence x) (filter (\<lambda>y. ev_key y = ev_key e) es)) (filter (\<lambda>y. ev_key y = ev_key e) es) = Some e"
    using dedupe_get[of "[]" es "ev_key e"] by (intro pick_None) simp
qed
section \<open>The gathered context\<close>

lemma trim_prefix:
  "\<exists>n. fst (trim sz used es) = take n es \<and> snd (trim sz used es) = used + sum_list (map sz (take n es)) \<and>
     (n < length es \<longrightarrow> budget_bytes < used + sum_list (map sz (take (Suc n) es)))"
proof (induction es arbitrary: used)
  case (Cons e es)
  show ?case
  proof (cases "budget_bytes < used + sz e")
    case True
    then show ?thesis by (intro exI[of _ 0]) simp
  next
    case False
    obtain kept m where t: "trim sz (used + sz e) es = (kept, m)" by fastforce
    obtain n where n: "fst (trim sz (used + sz e) es) = take n es"
      "snd (trim sz (used + sz e) es) = used + sz e + sum_list (map sz (take n es))"
      "n < length es \<longrightarrow> budget_bytes < used + sz e + sum_list (map sz (take (Suc n) es))" using Cons.IH by blast
    then have "kept = take n es" "m = used + sz e + sum_list (map sz (take n es))" using t by simp_all
    moreover have "trim sz used (e # es) = (e # kept, m)" using False t by simp
    ultimately have "trim sz used (e # es) = (take (Suc n) (e # es), used + sum_list (map sz (take (Suc n) (e # es))))"
      by (simp only: take_Suc_Cons list.map sum_list.Cons add.assoc)
    moreover have "Suc n < length (e # es) \<longrightarrow> budget_bytes < used + sum_list (map sz (take (Suc (Suc n)) (e # es)))"
      using n(3) by (simp only: list.size add_Suc_right add_0_right Suc_less_eq take_Suc_Cons[of "Suc n"] list.map sum_list.Cons add.assoc)
    ultimately show ?thesis by (metis fst_conv snd_conv)
  qed
qed simp

lemma trim_bound: "used \<le> budget_bytes \<Longrightarrow> snd (trim sz used es) \<le> budget_bytes"
proof (induction es arbitrary: used)
  case (Cons e es)
  show ?case
  proof (cases "budget_bytes < used + sz e")
    case False
    then have "snd (trim sz (used + sz e) es) \<le> budget_bytes" by (intro Cons.IH) simp
    then show ?thesis using False by (simp add: Let_def split_def)
  qed (use Cons.prems in simp)
qed simp

lemma fold_scores:
  "distinct (map (ev_key \<circ> fst) xs) \<Longrightarrow> (e, q) \<in> set xs \<Longrightarrow>
   dict_get (fold (\<lambda>(e, q). dict_set (ev_key e) q) xs d) (ev_key e) = Some q"
proof (induction xs arbitrary: d)
  case (Cons x xs)
  obtain e' q' where x: "x = (e', q')" by fastforce
  show ?case
  proof (cases "x = (e, q)")
    case True
    then have out: "ev_key e \<notin> ev_key ` fst ` set xs" using Cons.prems(1) by (auto simp: comp_def)
    have keep: "dict_get (fold (\<lambda>(e, q). dict_set (ev_key e) q) ys d') k = dict_get d' k" if "k \<notin> ev_key ` fst ` set ys" for ys d' k
      using that by (induction ys arbitrary: d') auto
    show ?thesis using True keep[OF out] by simp
  next
    case False
    then show ?thesis using Cons x by auto
  qed
qed simp

lemma score_lookup:
  assumes "distinct (map ev_key es)" "e \<in> set es"
  shows "dict_get (score_to_dict env i es) (ev_key e) = Some (relevance env i e)"
proof -
  let ?xs = "map (\<lambda>e. (e, relevance env i e)) es"
  have "distinct (map (ev_key \<circ> fst) ?xs)" using assms(1) by (simp add: comp_def)
  then have "distinct (map (ev_key \<circ> fst) (scored env i es))" unfolding scored_def by (simp only: distinct_map_sort)
  moreover have "(e, relevance env i e) \<in> set (scored env i es)" using assms(2) by (simp add: scored_def)
  ultimately show ?thesis unfolding score_to_dict_def by (rule fold_scores)
qed

lemma prioritised_set [simp]: "set (prioritised d es) = set es"
  by (simp add: prioritised_def Let_def)

lemma prioritised_distinct: "distinct (map ev_key (prioritised d es)) = distinct (map ev_key es)"
  by (simp add: prioritised_def Let_def distinct_map_sort)

lemma prioritised_sorted:
  assumes "distinct (map ev_key es)"
  shows "sorted_wrt (\<lambda>a b. relevance env i b \<le> relevance env i a) (prioritised (score_to_dict env i es) es)"
proof (cases "es = []")
  case False
  let ?d = "score_to_dict env i es"
  obtain e where "e \<in> set es" using False by (cases es) auto
  then have d: "?d \<noteq> []" using score_lookup[OF assms, of e env i] by auto
  let ?f = "\<lambda>e. - (case dict_get ?d (ev_key e) of Some q \<Rightarrow> q | None \<Rightarrow> 0)"
  have "sorted (map ?f (prioritised ?d es))" using d by (simp add: prioritised_def Let_def)
  then have "sorted_wrt (\<lambda>a b. ?f a \<le> ?f b) (prioritised ?d es)" by (simp add: sorted_wrt_map)
  then show ?thesis
    by (rule sorted_wrt_mono_rel[rotated]) (use score_lookup[OF assms, of _ env i] in simp)
qed (simp add: prioritised_def Let_def)

definition gathered_items :: "('v, 'z) context_env_scheme \<Rightarrow> int \<Rightarrow> intent \<Rightarrow> 'v memory_layers \<Rightarrow> evidence_item list" where
  "gathered_items env now i m = deduplicate (concat (map (\<lambda>(s, r). case r of None \<Rightarrow> [] | Some es \<Rightarrow> es) (source_answers env now i m)))"

lemma dedupe_subset: "set (map snd (dedupe_from best es)) \<subseteq> set (map snd best) \<union> set es"
proof (induction es arbitrary: best)
  case (Cons e es)
  have u: "set (map snd (dict_set (ev_key e) e best)) \<subseteq> insert e (set (map snd best))" by (induction best) auto
  show ?case
  proof (cases "dict_get best (ev_key e)")
    case None
    then show ?thesis using Cons.IH[of "best @ [(ev_key e, e)]"] by auto
  next
    case (Some b)
    let ?best = "if ev_confidence b < ev_confidence e then dict_set (ev_key e) e best else best"
    have s: "dedupe_from best (e # es) = dedupe_from ?best es" using Some by simp
    have "set (map snd ?best) \<subseteq> insert e (set (map snd best))" using u by (simp split: if_split) blast
    then have "set (map snd ?best) \<union> set es \<subseteq> set (map snd best) \<union> set (e # es)" by (simp only: set_simps) blast
    then show ?thesis unfolding s by (rule subset_trans[OF Cons.IH])
  qed
qed simp

lemma deduplicate_subset: "e \<in> set (deduplicate es) \<Longrightarrow> e \<in> set es"
  using dedupe_subset[of "[]" es] by (auto simp: deduplicate_def)

lemma gather_evidence_parts:
  "gather_evidence env now i m =
     (let items = gathered_items env now i m; d = score_to_dict env i items
      in \<lparr>ct_evidence = fst (enforce_budget (cg_size env) d items), ct_total_bytes = snd (enforce_budget (cg_size env) d items),
          ct_degraded = map fst (filter (\<lambda>(s, r). r = None) (source_answers env now i m))\<rparr>)"
proof (cases "source_answers env now i m = []")
  case True
  then show ?thesis by (simp add: gather_evidence_def gathered_items_def deduplicate_def enforce_budget_def prioritised_def Let_def)
next
  case False
  then show ?thesis unfolding gather_evidence_def gathered_items_def Let_def by (simp add: split_def)
qed

text \<open>C27. The gathered context fits its budget. Its byte count is the sum of its items' sizes and at most 2048; no key occurs
  twice; each item comes from an eligible source that answered and is among the deduplicated items; the degraded sources are
  the eligible ones that did not answer; and nothing is left out without need: either all the deduplicated items are in, or
  some item that is not would not have fitted beside those that are. (In which order items are taken is not stated here.)\<close>

theorem gathered_context_fits:
  "let r = gather_evidence env now i m; es = ct_evidence r; bytes = (\<lambda>xs. sum_list (map (cg_size env) xs));
       answers = source_answers env now i m; items = gathered_items env now i m
   in ct_total_bytes r = bytes es \<and> ct_total_bytes r \<le> 2048 \<and> distinct (map ev_key es) \<and> list_all (\<lambda>e. e \<in> set items) es \<and>
      list_all (\<lambda>e. list_ex (\<lambda>(s, a). case a of None \<Rightarrow> False | Some xs \<Rightarrow> e \<in> set xs) answers) es \<and>
      ct_degraded r = map fst (filter (\<lambda>(s, a). a = None) answers) \<and>
      (set es = set items \<or> list_ex (\<lambda>e. e \<notin> set es \<and> 2048 < bytes es + cg_size env e) items)"
proof -
  let ?items = "gathered_items env now i m"
  let ?d = "score_to_dict env i ?items"
  let ?ps = "prioritised ?d ?items"
  obtain es where es: "ct_evidence (gather_evidence env now i m) = es" by simp
  have dk: "distinct (map ev_key ?items)" unfolding gathered_items_def by (rule deduplicate_distinct)
  have r: "gather_evidence env now i m = \<lparr>ct_evidence = fst (enforce_budget (cg_size env) ?d ?items),
      ct_total_bytes = snd (enforce_budget (cg_size env) ?d ?items),
      ct_degraded = map fst (filter (\<lambda>(s, r). r = None) (source_answers env now i m))\<rparr>" by (rule gather_evidence_parts[unfolded Let_def])
  have dp: "distinct (map ev_key ?ps)" using dk by (simp add: prioritised_distinct)
  obtain n where n: "es = take n ?ps" "ct_total_bytes (gather_evidence env now i m) = sum_list (map (cg_size env) es)"
    "n < length ?ps \<longrightarrow> budget_bytes < sum_list (map (cg_size env) (take (Suc n) ?ps))"
    using trim_prefix[of "cg_size env" 0 ?ps] es unfolding r enforce_budget_def by auto
  have b: "ct_total_bytes (gather_evidence env now i m) \<le> 2048"
    using trim_bound[of 0 "cg_size env" ?ps] unfolding r by (simp add: enforce_budget_def budget_bytes_def)
  have de: "distinct (map ev_key es)" unfolding n(1) using dp by (simp add: take_map[symmetric] distinct_take)
  have sub: "e \<in> set ?items" if "e \<in> set es" for e using in_set_takeD[of e n ?ps] that unfolding n(1) by simp
  have src: "list_ex (\<lambda>(s, a). case a of None \<Rightarrow> False | Some xs \<Rightarrow> e \<in> set xs) (source_answers env now i m)" if "e \<in> set es" for e
    using deduplicate_subset[OF sub[OF that, unfolded gathered_items_def]] by (force simp: list_ex_iff split: option.splits)
  have full: "set es = set ?items \<or> list_ex (\<lambda>e. e \<notin> set es \<and> 2048 < sum_list (map (cg_size env) es) + cg_size env e) ?items"
  proof (cases "n < length ?ps")
    case True
    have t: "take (Suc n) ?ps = es @ [?ps ! n]" using True n(1) by (simp add: take_Suc_conv_app_nth)
    have "distinct ?ps" using dp by (simp only: distinct_map)
    then have "distinct (es @ [?ps ! n])" unfolding t[symmetric] by (rule distinct_take)
    moreover have "?ps ! n \<in> set ?items" using nth_mem[OF True] by simp
    ultimately show ?thesis using n(3) True unfolding t by (auto simp: budget_bytes_def list_ex_iff)
  next
    case False
    then show ?thesis using n(1) by simp
  qed
  have dg: "ct_degraded (gather_evidence env now i m) = map fst (filter (\<lambda>(s, a). a = None) (source_answers env now i m))" by (simp add: r)
  have subs: "list_all (\<lambda>e. e \<in> set ?items) es" using sub by (simp only: list_all_iff Ball_def simp_thms) blast
  have srcs: "list_all (\<lambda>e. list_ex (\<lambda>(s, a). case a of None \<Rightarrow> False | Some xs \<Rightarrow> e \<in> set xs) (source_answers env now i m)) es"
    using src by (simp only: list_all_iff Ball_def simp_thms) blast
  show ?thesis unfolding Let_def es by (intro conjI) (fact n(2) b de subs srcs dg full)+
qed

text \<open>Non-vacuity.\<close>

definition example_item :: "string \<Rightarrow> rat \<Rightarrow> evidence_item" where
  "example_item v c = \<lparr>ev_type = Ev_history, ev_key = ''create_event_2026-02-19'', ev_value = JStr v, ev_confidence = c,
     ev_source_ref = ''history:facts'', ev_ttl_days = Some 30, ev_tier = 3\<rparr>"

text \<open>Two facts of one day and intent have the same key: only the first survives.\<close>

theorem deduplicate_keeps_best_witness:
  "map ev_key (deduplicate [example_item ''standup'' 1, example_item ''dentist'' 1]) = [''create_event_2026-02-19''] \<and>
   find (\<lambda>x. list_all (\<lambda>y. ev_confidence y \<le> ev_confidence x) [example_item ''standup'' 1, example_item ''dentist'' 1])
     [example_item ''standup'' 1, example_item ''dentist'' 1] = Some (example_item ''standup'' 1)"
proof -
  have "example_item ''standup'' 1 \<in> set (deduplicate [example_item ''standup'' 1, example_item ''dentist'' 1])"
    by (simp add: deduplicate_def example_item_def)
  from deduplicate_keeps_best[OF this] show ?thesis by (simp add: example_item_def nub_first_def)
qed

definition example_vectors :: "string vector_env" where
  "example_vectors = \<lparr>vx_text = (\<lambda>_. []), vx_embed = (\<lambda>s. s), vx_distance = (\<lambda>a b. if a = b then 0 else 1),
     vx_matches = (\<lambda>t q. t = ''book '' @ q), vx_text_rank = (\<lambda>t q. 1)\<rparr>"

definition example_rows :: "string embedding_row list" where
  "example_rows = [\<lparr>em_plan = ''p1'', em_intent = ''book'', em_vector = ''table'', em_text = ''book table''\<rparr>,
     \<lparr>em_plan = ''p2'', em_intent = ''book'', em_vector = ''room'', em_text = ''reserve''\<rparr>,
     \<lparr>em_plan = ''p3'', em_intent = ''mail'', em_vector = ''table'', em_text = ''table''\<rparr>]"

lemma example_search:
  "map (\<lambda>h. (hr_plan h, hr_score h)) (hybrid_search example_vectors ''room'' ''table'' (Some ''book'') 2 example_rows) =
     [(''p1'', 1 / 61 + 1 / 62), (''p2'', 1 / 61)]"
  by (simp add: hybrid_search_def keyword_ranks_def semantic_ranks_def ranked_def outer_join_def fused_def rank_of_def reciprocal_def
    example_vectors_def example_rows_def intent_filter_def take_Cons')

theorem hybrid_search_fuses_ranks_witness:
  "sorted_wrt (\<lambda>a b. hr_score b \<le> hr_score a) (hybrid_search example_vectors ''room'' ''table'' (Some ''book'') 2 example_rows) \<and>
   map hr_plan (hybrid_search example_vectors ''room'' ''table'' (Some ''book'') 2 example_rows) = [''p1'', ''p2'']"
proof -
  have d: "distinct (map em_plan example_rows)" by (simp add: example_rows_def)
  have "map hr_plan (hybrid_search example_vectors ''room'' ''table'' (Some ''book'') 2 example_rows) =
      map fst (map (\<lambda>h. (hr_plan h, hr_score h)) (hybrid_search example_vectors ''room'' ''table'' (Some ''book'') 2 example_rows))"
    by (simp only: map_map comp_def fst_conv)
  then have "map hr_plan (hybrid_search example_vectors ''room'' ''table'' (Some ''book'') 2 example_rows) = [''p1'', ''p2'']"
    unfolding example_search by simp
  then show ?thesis
    using hybrid_search_fuses_ranks[OF d refl, of example_vectors "''room''" "''table''" "Some ''book''" 2] by blast
qed

end
