(* ===== verification/Race_Lists.thy ===== *)
theory Race_Lists
  imports Aexor_Prelude
begin

text \<open>
  What the theories about concurrent calls share: calls that wait at an \<open>await\<close> are a list, an event takes one of them
  out of it, and a run is a fold of a step function over its events.
\<close>

definition drop_nth :: "nat \<Rightarrow> 'a list \<Rightarrow> 'a list" where
  "drop_nth i xs = take i xs @ drop (Suc i) xs"

lemma set_drop_nth: "set (drop_nth i xs) \<subseteq> set xs"
  by (auto simp: drop_nth_def dest: in_set_takeD in_set_dropD)

lemma distinct_drop_nth: "distinct xs \<Longrightarrow> distinct (drop_nth i xs)"
  by (auto simp: drop_nth_def dest: set_take_disj_set_drop_if_distinct[of xs i "Suc i"])

lemma map_drop_nth: "map f (drop_nth i xs) = drop_nth i (map f xs)"
  by (simp add: drop_nth_def take_map drop_map)

lemma filter_drop_nth:
  "i < length xs \<Longrightarrow> length (filter P xs) = length (filter P (drop_nth i xs)) + (if P (xs ! i) then 1 else 0)"
  by (subst id_take_nth_drop[of i xs]) (simp_all add: drop_nth_def)

lemma length_drop_nth: "i < length xs \<Longrightarrow> length (drop_nth i xs) = length xs - 1"
  by (auto simp: drop_nth_def)

lemma length_drop_nth_le: "length (drop_nth i xs) \<le> length xs"
  by (auto simp: drop_nth_def)

lemma list_all_drop_nth: "list_all P xs \<Longrightarrow> list_all P (drop_nth i xs)"
  using set_drop_nth[of i xs] by (auto simp: list_all_iff)

lemma nth_notin_drop_nth: "distinct xs \<Longrightarrow> i < length xs \<Longrightarrow> xs ! i \<notin> set (drop_nth i xs)"
  unfolding drop_nth_def
  by (metis Cons_nth_drop_Suc append_take_drop_id distinct.simps(2) distinct_append disjoint_iff in_set_conv_decomp
      list.set_intros(1) set_append Un_iff)

end
