(* ===== verification/Spawn_Race.thy ===== *)
theory Spawn_Race
  imports Execute_Safety Race_Lists
begin

text \<open>
  Spawning under \<open>asyncio.gather\<close>. The steps of a level run concurrently, and \<open>_handle_spawn\<close> awaits the policy engine
  between checking its limits and recording the new step. Here a level is a sequence of events: a Reasoner asks for a step
  (\<open>spawn_begin\<close>, up to the call of the policy engine), the policy engine answers one of the open requests
  (\<open>record_spawn\<close> if it allows the step), the request is abandoned (the policy engine raises), or some step records a
  result. A Reasoner handles its requests one after another, so it has at most one open; the failures of a level are handled
  one after another when all its steps have ended, so a recovering Reasoner is a level of its own.
\<close>

section \<open>Events\<close>

record open_spawn =
  os_parent :: plan_step
  os_step :: plan_step

record spawn_race =
  sx_ctx :: exec_ctx
  sx_open :: "open_spawn list"
  sx_level :: "plan_step list"

datatype spawn_event =
    Enter_level "plan_step list"
  | Ask_policy plan_step jobj
  | Policy_answers nat string int policy_decision
  | Abandon_spawn nat
  | Record_result int step_result

definition may_ask :: "plan_step \<Rightarrow> spawn_race \<Rightarrow> bool" where
  "may_ask parent w \<longleftrightarrow> parent \<in> set (sx_level w) \<and> ps_can_spawn parent \<and>
     ps_step parent \<notin> (ps_step \<circ> os_parent) ` set (sx_open w)"

text \<open>An event that cannot happen leaves the state as it is.\<close>

fun spawn_race_step :: "spawn_event \<Rightarrow> spawn_race \<Rightarrow> spawn_race" where
  "spawn_race_step (Enter_level l) w =
     (if sx_open w = [] \<and> set l \<subseteq> set (pl_graph (cx_plan (sx_ctx w))) then w \<lparr>sx_level := l\<rparr> else w)"
| "spawn_race_step (Ask_policy parent q) w =
     (if may_ask parent w
      then (case spawn_begin parent q (sx_ctx w) of
          Inl e \<Rightarrow> w
        | Inr s \<Rightarrow> w \<lparr>sx_open := sx_open w @ [\<lparr>os_parent = parent, os_step = s\<rparr>]\<rparr>)
      else w)"
| "spawn_race_step (Policy_answers i aid now d) w =
     (if i < length (sx_open w)
      then let z = sx_open w ! i in
        w \<lparr>sx_ctx := (if pd_allowed d then record_spawn aid now (os_parent z) (os_step z) d (sx_ctx w) else sx_ctx w),
           sx_open := drop_nth i (sx_open w)\<rparr>
      else w)"
| "spawn_race_step (Abandon_spawn i) w = w \<lparr>sx_open := drop_nth i (sx_open w)\<rparr>"
| "spawn_race_step (Record_result n r) w =
     w \<lparr>sx_ctx := (sx_ctx w) \<lparr>cx_step_results := dict_set n r (cx_step_results (sx_ctx w))\<rparr>\<rparr>"

definition spawn_race_run :: "spawn_event list \<Rightarrow> exec_ctx \<Rightarrow> spawn_race" where
  "spawn_race_run es c = fold spawn_race_step es \<lparr>sx_ctx = c, sx_open = [], sx_level = []\<rparr>"

text \<open>No level has more than \<open>k\<close> steps that may spawn.\<close>

definition spawners_within :: "nat \<Rightarrow> spawn_event list \<Rightarrow> bool" where
  "spawners_within k es \<longleftrightarrow> list_all (\<lambda>e. case e of Enter_level l \<Rightarrow> length (filter ps_can_spawn l) \<le> k | _ \<Rightarrow> True) es"

section \<open>The executor's own order is one of the orders\<close>

lemma policyS_ctx: "policyS env q st = (r, st') \<Longrightarrow> xs_ctx st' = xs_ctx st"
  by (auto simp: policyS_def split: if_splits prod.splits sum.splits)

lemma freshS_ctx: "freshS env st = (r, st') \<Longrightarrow> xs_ctx st' = xs_ctx st"
  by (auto simp: freshS_def Let_def split: prod.splits)

text \<open>Until the spawned step itself runs, \<open>handle_spawn\<close> is the request and the answer of the policy engine.\<close>

lemma handle_spawn_race:
  assumes "handle_spawn (\<lambda>s. throwS e) env parent q st = (r, st')"
    and "parent \<in> set l" "ps_can_spawn parent"
  shows "\<exists>es. sx_ctx (fold spawn_race_step es \<lparr>sx_ctx = xs_ctx st, sx_open = [], sx_level = l\<rparr>) = xs_ctx st' \<and>
    sx_open (fold spawn_race_step es \<lparr>sx_ctx = xs_ctx st, sx_open = [], sx_level = l\<rparr>) = []"
proof -
  let ?w = "\<lparr>sx_ctx = xs_ctx st, sx_open = [], sx_level = l\<rparr>"
  have may: "may_ask parent ?w" using assms(2,3) by (simp add: may_ask_def)
  show ?thesis
  proof (cases "spawn_begin parent q (xs_ctx st)")
    case (Inl x)
    then have "xs_ctx st' = xs_ctx st" using assms(1) by (auto simp: handle_spawn_def bindS_def resS_def readS_def)
    then show ?thesis by (intro exI[of _ "[]"]) simp
  next
    case (Inr s)
    obtain pr st1 where p: "policyS env (spawn_request_for (xs_ctx st) parent s) st = (pr, st1)" by fastforce
    note c1 = policyS_ctx[OF p]
    have asked: "spawn_race_step (Ask_policy parent q) ?w = ?w \<lparr>sx_open := [\<lparr>os_parent = parent, os_step = s\<rparr>]\<rparr>"
      using may Inr by simp
    show ?thesis
    proof (cases "\<exists>d. pr = Inr d \<and> pd_allowed d")
      case False
      then have "xs_ctx st' = xs_ctx st"
        using assms(1) Inr p c1
        by (cases pr) (auto simp: handle_spawn_def bindS_def resS_def readS_def thenS_def auditS_def modS_def throwS_def)
      then show ?thesis using asked by (intro exI[of _ "[Ask_policy parent q, Abandon_spawn 0]"]) (simp add: drop_nth_def)
    next
      case True
      then obtain d where d: "pr = Inr d" "pd_allowed d" by blast
      obtain aid st2 where f: "freshS env st1 = (Inr aid, st2)" by (cases "xe_fresh env (xs_ext st1)") (simp add: freshS_def)
      note c2 = freshS_ctx[OF f]
      have "xs_ctx st' = record_spawn aid (clock env st2) parent s d (xs_ctx st)"
        using assms(1) Inr p d f c1 c2
        by (auto simp: handle_spawn_def bindS_def resS_def readS_def thenS_def auditS_def modS_def ctxS_def throwS_def retS_def split: if_splits)
      then show ?thesis using asked d
        by (intro exI[of _ "[Ask_policy parent q, Policy_answers 0 aid (clock env st2) d]"]) (simp add: drop_nth_def Let_def)
    qed
  qed
qed

section \<open>The invariant\<close>

definition spawn_ok :: "plan \<Rightarrow> plan_step \<Rightarrow> bool" where
  "spawn_ok p s \<longleftrightarrow> \<not> ps_can_spawn s \<and> (ps_role s = Booker \<longrightarrow> ps_gate_id s \<noteq> None) \<and>
     (\<exists>parent\<in>set (pl_graph p). ps_spawned_by s = Some (ps_step parent)) \<and>
     Max (ps_step ` set (pl_graph p)) < ps_step s"

definition attests :: "policy_attestation \<Rightarrow> plan_step \<Rightarrow> bool" where
  "attests a s \<longleftrightarrow> pa_new_steps a = [step_dump s] \<and> ps_spawned_by s = Some (pa_spawned_by_step a) \<and>
     pd_allowed (pa_decision a)"

definition open_ok :: "exec_ctx \<Rightarrow> open_spawn \<Rightarrow> bool" where
  "open_ok c z \<longleftrightarrow> spawn_ok (cx_plan c) (os_step z) \<and> os_parent z \<in> set (pl_graph (cx_plan c)) \<and>
     ps_spawned_by (os_step z) = Some (ps_step (os_parent z)) \<and>
     int (spawned_by_count c (os_parent z)) < spawn_limit (os_parent z)"

definition spawned_sound :: "plan \<Rightarrow> exec_ctx \<Rightarrow> bool" where
  "spawned_sound p c \<longleftrightarrow> cx_plan c = p \<and> cx_plan_revision c = int (length (cx_spawned_steps c)) \<and>
     list_all2 attests (cx_attestations c) (cx_spawned_steps c) \<and> list_all (spawn_ok p) (cx_spawned_steps c) \<and>
     list_all (\<lambda>s. spawned_by_count c s = 0 \<or> int (spawned_by_count c s) \<le> spawn_limit s) (pl_graph p)"

definition numbered_on :: "exec_ctx \<Rightarrow> bool" where
  "numbered_on c \<longleftrightarrow> map ps_step (cx_spawned_steps c) =
     map (\<lambda>i. Max (ps_step ` set (pl_graph (cx_plan c))) + 1 + int i) [0..<length (cx_spawned_steps c)]"

definition open_numbers :: "spawn_race \<Rightarrow> int list" where
  "open_numbers w = map (\<lambda>z. ps_step (os_parent z)) (sx_open w)"

definition spawner_numbers :: "spawn_race \<Rightarrow> int set" where
  "spawner_numbers w = ps_step ` set (filter ps_can_spawn (sx_level w))"

definition race_inv :: "plan \<Rightarrow> nat \<Rightarrow> spawn_race \<Rightarrow> bool" where
  "race_inv p k w \<longleftrightarrow> spawned_sound p (sx_ctx w) \<and> list_all (open_ok (sx_ctx w)) (sx_open w) \<and>
     distinct (open_numbers w) \<and> set (open_numbers w) \<subseteq> spawner_numbers w \<and>
     set (sx_level w) \<subseteq> set (pl_graph p) \<and> length (filter ps_can_spawn (sx_level w)) \<le> k \<and>
     (cx_spawned_steps (sx_ctx w) = [] \<and> sx_open w = [] \<or> total_steps (sx_ctx w) + length (sx_open w) \<le> 99 + k) \<and>
     (k = 1 \<longrightarrow> numbered_on (sx_ctx w) \<and> list_all (\<lambda>z. ps_step (os_step z) = spawned_number (sx_ctx w)) (sx_open w))"

lemma race_invI:
  assumes "spawned_sound p (sx_ctx w)" "list_all (open_ok (sx_ctx w)) (sx_open w)" "distinct (open_numbers w)"
    "set (open_numbers w) \<subseteq> spawner_numbers w" "set (sx_level w) \<subseteq> set (pl_graph p)"
    "length (filter ps_can_spawn (sx_level w)) \<le> k"
    "cx_spawned_steps (sx_ctx w) = [] \<and> sx_open w = [] \<or> total_steps (sx_ctx w) + length (sx_open w) \<le> 99 + k"
    "k = 1 \<Longrightarrow> numbered_on (sx_ctx w) \<and> list_all (\<lambda>z. ps_step (os_step z) = spawned_number (sx_ctx w)) (sx_open w)"
  shows "race_inv p k w"
  unfolding race_inv_def using assms by blast

lemma race_invD:
  assumes "race_inv p k w"
  shows "spawned_sound p (sx_ctx w)" "list_all (open_ok (sx_ctx w)) (sx_open w)" "distinct (open_numbers w)"
    "set (open_numbers w) \<subseteq> spawner_numbers w" "set (sx_level w) \<subseteq> set (pl_graph p)"
    "length (filter ps_can_spawn (sx_level w)) \<le> k"
    "cx_spawned_steps (sx_ctx w) = [] \<and> sx_open w = [] \<or> total_steps (sx_ctx w) + length (sx_open w) \<le> 99 + k"
    "k = 1 \<Longrightarrow> numbered_on (sx_ctx w)"
    "k = 1 \<Longrightarrow> list_all (\<lambda>z. ps_step (os_step z) = spawned_number (sx_ctx w)) (sx_open w)"
  using assms unfolding race_inv_def by blast+

text \<open>The open requests belong to different spawners of the level, so there are at most \<open>k\<close>.\<close>

lemma few_open:
  assumes "distinct (open_numbers w)" "set (open_numbers w) \<subseteq> spawner_numbers w"
    and "length (filter ps_can_spawn (sx_level w)) \<le> k"
  shows "length (sx_open w) \<le> k"
proof -
  have "length (sx_open w) = card (set (open_numbers w))"
    using distinct_card[OF assms(1)] by (simp add: open_numbers_def)
  also have "\<dots> \<le> card (spawner_numbers w)"
    using assms(2) by (intro card_mono) (simp_all add: spawner_numbers_def)
  also have "\<dots> \<le> card (set (filter ps_can_spawn (sx_level w)))"
    unfolding spawner_numbers_def by (rule card_image_le) simp
  also have "\<dots> \<le> k" using card_length assms(3) order_trans by blast
  finally show ?thesis .
qed

lemma race_keep_ctx:
  assumes inv: "race_inv p k w" and w': "w' = w \<lparr>sx_open := drop_nth i (sx_open w)\<rparr>"
  shows "race_inv p k w'"
proof (rule race_invI)
  note d = race_invD[OF inv]
  show "spawned_sound p (sx_ctx w')" "set (sx_level w') \<subseteq> set (pl_graph p)"
    "length (filter ps_can_spawn (sx_level w')) \<le> k"
    using d by (simp_all add: w')
  show "list_all (open_ok (sx_ctx w')) (sx_open w')" using d(2) by (simp add: w' list_all_drop_nth)
  show "distinct (open_numbers w')" using d(3) by (simp add: w' open_numbers_def map_drop_nth distinct_drop_nth)
  show "set (open_numbers w') \<subseteq> spawner_numbers w'"
    using d(4) set_drop_nth[of i "sx_open w"] by (auto simp: w' open_numbers_def spawner_numbers_def)
  show "cx_spawned_steps (sx_ctx w') = [] \<and> sx_open w' = [] \<or>
      total_steps (sx_ctx w') + length (sx_open w') \<le> 99 + k"
    using d(7) length_drop_nth_le[of i "sx_open w"] by (auto simp: w' drop_nth_def)
  show "numbered_on (sx_ctx w') \<and> list_all (\<lambda>z. ps_step (os_step z) = spawned_number (sx_ctx w')) (sx_open w')"
    if "k = 1"
    using d(8,9)[OF that] by (simp add: w' list_all_drop_nth)
qed

lemma race_ask:
  assumes inv: "race_inv p k w" and may: "may_ask parent w" and s: "spawn_begin parent q (sx_ctx w) = Inr s"
    and w': "w' = w \<lparr>sx_open := sx_open w @ [\<lparr>os_parent = parent, os_step = s\<rparr>]\<rparr>"
  shows "race_inv p k w'"
proof -
  note d = race_invD[OF inv]
  from spawn_begin_Inr[OF s] obtain s0 where count: "int (spawned_by_count (sx_ctx w) parent) < spawn_limit parent"
    and total: "total_steps (sx_ctx w) < 100"
    and s0: "build_spawned q (ps_step parent) (spawned_number (sx_ctx w)) = Inr s0" "s = spawn_gate s0" by blast
  note b = build_spawned_Inr[OF s0(1)]
  have plan: "cx_plan (sx_ctx w) = p" using d(1) by (simp add: spawned_sound_def)
  have parent: "parent \<in> set (pl_graph p)" "ps_can_spawn parent" "parent \<in> set (sx_level w)"
    "ps_step parent \<notin> set (open_numbers w)"
    using may d(5) by (auto simp: may_ask_def open_numbers_def)
  have num: "Max (ps_step ` set (pl_graph p)) < ps_step s" using b by (simp add: s0(2) spawned_number_def plan)
  show ?thesis
  proof (rule race_invI)
    show "spawned_sound p (sx_ctx w')" "set (sx_level w') \<subseteq> set (pl_graph p)"
      "length (filter ps_can_spawn (sx_level w')) \<le> k"
      using d by (simp_all add: w')
    have "open_ok (sx_ctx w) \<lparr>os_parent = parent, os_step = s\<rparr>"
      using b count parent num by (auto simp: open_ok_def spawn_ok_def plan s0(2))
    then show "list_all (open_ok (sx_ctx w')) (sx_open w')" using d(2) by (simp add: w')
    show "distinct (open_numbers w')" using d(3) parent(4) by (simp add: w' open_numbers_def)
    show "set (open_numbers w') \<subseteq> spawner_numbers w'"
      using d(4) parent by (auto simp: w' open_numbers_def spawner_numbers_def)
    have "length (sx_open w') \<le> k" by (rule few_open) (fact | simp add: w' d(6))+
    then show "cx_spawned_steps (sx_ctx w') = [] \<and> sx_open w' = [] \<or>
        total_steps (sx_ctx w') + length (sx_open w') \<le> 99 + k"
      using total by (simp add: w')
    show "numbered_on (sx_ctx w') \<and> list_all (\<lambda>z. ps_step (os_step z) = spawned_number (sx_ctx w')) (sx_open w')"
      if "k = 1"
      using d(8,9)[OF that] b by (simp add: w' s0(2))
  qed
qed


lemma race_answer:
  assumes inv: "race_inv p k w" and i: "i < length (sx_open w)" and d: "pd_allowed d" and dist: "distinct (map ps_step (pl_graph p))"
    and z: "z = sx_open w ! i" and c': "c' = record_spawn aid now (os_parent z) (os_step z) d (sx_ctx w)"
    and w': "w' = w \<lparr>sx_ctx := c', sx_open := drop_nth i (sx_open w)\<rparr>"
  shows "race_inv p k w'"
proof -
  note h = race_invD[OF inv]
  let ?c = "sx_ctx w"
  have zin: "z \<in> set (sx_open w)" using i by (simp add: z)
  then have ok: "open_ok ?c z" using h(2) by (simp add: list_all_iff)
  have plan: "cx_plan ?c = p" using h(1) by (simp add: spawned_sound_def)
  have c's: "cx_plan c' = p" "cx_spawned_steps c' = cx_spawned_steps ?c @ [os_step z]"
    "cx_plan_revision c' = cx_plan_revision ?c + 1"
    by (simp_all add: c' record_spawn_def Let_def plan)
  obtain c'' where atts: "cx_attestations c' = cx_attestations ?c @ [exec_attestation aid now c'' (os_parent z) (os_step z) d]"
    by (simp add: c' record_spawn_def Let_def)
  have count: "spawned_by_count c' s = spawned_by_count ?c s + (if ps_step s = ps_step (os_parent z) then 1 else 0)" for s
    using ok by (simp add: spawned_by_count_def c's open_ok_def)
  have zp: "os_parent z \<in> set (pl_graph p)" using ok by (simp add: open_ok_def plan)
  have rest: "ps_step (os_parent y) \<noteq> ps_step (os_parent z)" if "y \<in> set (drop_nth i (sx_open w))" for y
  proof -
    have "open_numbers w ! i \<notin> set (drop_nth i (open_numbers w))"
      using h(3) i by (intro nth_notin_drop_nth) (simp_all add: open_numbers_def)
    then have "ps_step (os_parent z) \<notin> (\<lambda>z. ps_step (os_parent z)) ` set (drop_nth i (sx_open w))"
      using i by (simp add: open_numbers_def z flip: map_drop_nth)
    with that show ?thesis by (metis imageI)
  qed
  show ?thesis
  proof (rule race_invI)
    have "list_all2 attests (cx_attestations c') (cx_spawned_steps c')"
      using h(1) ok d unfolding atts c's by (intro list_all2_appendI) (simp_all add: spawned_sound_def attests_def exec_attestation_def open_ok_def)
    moreover have "spawned_by_count c' s = 0 \<or> int (spawned_by_count c' s) \<le> spawn_limit s" if "s \<in> set (pl_graph p)" for s
    proof (cases "ps_step s = ps_step (os_parent z)")
      case True
      then have "s = os_parent z" using dist that zp by (simp add: distinct_map inj_on_def)
      then show ?thesis using ok by (simp add: count open_ok_def)
    next
      case False
      then show ?thesis using h(1) that by (simp add: count spawned_sound_def list_all_iff)
    qed
    ultimately show "spawned_sound p (sx_ctx w')"
      using h(1) ok by (simp add: spawned_sound_def w' c's list_all_iff open_ok_def plan)
    show "list_all (open_ok (sx_ctx w')) (sx_open w')"
      using h(2) rest set_drop_nth[of i "sx_open w"] by (auto simp: w' list_all_iff open_ok_def c's plan count)
    show "distinct (open_numbers w')" using h(3) by (simp add: w' open_numbers_def map_drop_nth distinct_drop_nth)
    show "set (open_numbers w') \<subseteq> spawner_numbers w'"
      using h(4) set_drop_nth[of i "sx_open w"] by (auto simp: w' open_numbers_def spawner_numbers_def)
    show "set (sx_level w') \<subseteq> set (pl_graph p)" "length (filter ps_can_spawn (sx_level w')) \<le> k"
      using h(5,6) by (simp_all add: w')
    have "sx_open w \<noteq> []" using i by auto
    then have "total_steps ?c + length (sx_open w) \<le> 99 + k" using h(7) by simp
    then show "cx_spawned_steps (sx_ctx w') = [] \<and> sx_open w' = [] \<or>
        total_steps (sx_ctx w') + length (sx_open w') \<le> 99 + k"
      using i by (simp add: w' total_steps_def c's plan length_drop_nth)
    show "numbered_on (sx_ctx w') \<and> list_all (\<lambda>z. ps_step (os_step z) = spawned_number (sx_ctx w')) (sx_open w')"
      if k: "k = 1"
    proof -
      have "length (sx_open w) \<le> 1" using few_open[OF h(3,4,6)] k by simp
      then have none: "sx_open w' = []" using i by (cases "sx_open w") (auto simp: w' drop_nth_def)
      have "ps_step (os_step z) = spawned_number ?c" using h(9)[OF k] zin by (simp add: list_all_iff)
      then show ?thesis using h(8)[OF k] none by (simp add: numbered_on_def w' c's plan spawned_number_def)
    qed
  qed
qed

lemma race_step:
  assumes inv: "race_inv p k w" and dist: "distinct (map ps_step (pl_graph p))" and k: "spawners_within k [e]"
  shows "race_inv p k (spawn_race_step e w)"
proof (cases e)
  case (Enter_level l)
  show ?thesis
  proof (cases "sx_open w = [] \<and> set l \<subseteq> set (pl_graph (cx_plan (sx_ctx w)))")
    case True
    then show ?thesis using race_invD[OF inv] k
      by (intro race_invI) (simp_all add: Enter_level spawned_sound_def open_numbers_def spawners_within_def)
  qed (use inv Enter_level in auto)
next
  case (Ask_policy parent q)
  then show ?thesis using inv race_ask[OF inv _ _ refl, of parent q] by (auto split: sum.split)
next
  case (Policy_answers i aid now d)
  show ?thesis
  proof (cases "i < length (sx_open w) \<and> pd_allowed d")
    case True
    then show ?thesis using race_answer[OF inv _ _ dist refl refl refl, of i d aid now] by (simp add: Policy_answers Let_def)
  next
    case False
    then show ?thesis using inv race_keep_ctx[OF inv refl, of i] by (auto simp: Policy_answers Let_def)
  qed
next
  case (Abandon_spawn i)
  then show ?thesis using race_keep_ctx[OF inv refl, of i] by simp
next
  case (Record_result n r)
  let ?c = "(sx_ctx w) \<lparr>cx_step_results := dict_set n r (cx_step_results (sx_ctx w))\<rparr>"
  have c: "spawned_by_count ?c = spawned_by_count (sx_ctx w)" "total_steps ?c = total_steps (sx_ctx w)"
    "spawned_number ?c = spawned_number (sx_ctx w)" "open_ok ?c = open_ok (sx_ctx w)"
    by (simp_all add: fun_eq_iff spawned_by_count_def total_steps_def spawned_number_def open_ok_def)
  show ?thesis using race_invD[OF inv]
    by (intro race_invI)
      (simp_all add: Record_result spawned_sound_def c open_numbers_def spawner_numbers_def numbered_on_def)
qed

lemma race_start: "race_inv (cx_plan c) k \<lparr>sx_ctx = c, sx_open = [], sx_level = []\<rparr>"
  if "cx_spawned_steps c = []" "cx_attestations c = []" "cx_plan_revision c = 0"
  by (intro race_invI) (use that in \<open>auto simp: spawned_sound_def open_numbers_def spawned_by_count_def list_all_iff numbered_on_def\<close>)

lemma race_run:
  assumes "race_inv p k w" "distinct (map ps_step (pl_graph p))" "spawners_within k es"
  shows "race_inv p k (fold spawn_race_step es w)"
  using assms by (induction es arbitrary: w) (simp_all add: race_step spawners_within_def)


section \<open>The property\<close>

text \<open>C2. Spawning under concurrency. Take a plan with distinct step numbers and any sequence of the events of an execution:
  levels start, the Reasoners of the running level ask for steps, the policy engine answers or fails, steps record results,
  all interleaved in any order, where a level has at most \<open>k\<close> steps that may spawn. Then every spawned step comes from a
  policy decision that allowed it and whose attestation holds exactly this step (the two lists run in parallel and the plan
  revision counts them); it cannot spawn, a Booker among them has an approval gate, its number is above every number of the
  plan and it names a step of the plan as its parent; no step spawned more than its own limit; and the steps of plan and
  spawns together stay within 99 + \<open>k\<close>, so within the documented 100 while a level has one spawner. In that case the new
  steps are numbered consecutively. With several spawners in a level the numbers need not differ and the total can pass 100,
  since limits and numbers are read before the policy engine is awaited.
\<close>
theorem spawning_bounded_and_attested:
  assumes "distinct (map ps_step (pl_graph p))" and "spawners_within k es"
  shows "let c = sx_ctx (spawn_race_run es (new_ctx p user trace)) in
    cx_plan c = p \<and> cx_plan_revision c = int (length (cx_spawned_steps c)) \<and>
    list_all2 attests (cx_attestations c) (cx_spawned_steps c) \<and>
    list_all (spawn_ok p) (cx_spawned_steps c) \<and>
    list_all (\<lambda>s. spawned_by_count c s = 0 \<or> int (spawned_by_count c s) \<le> spawn_limit s) (pl_graph p) \<and>
    (cx_spawned_steps c = [] \<or> total_steps c \<le> 99 + k) \<and>
    (k = 1 \<longrightarrow> map ps_step (cx_spawned_steps c) =
       map (\<lambda>i. Max (ps_step ` set (pl_graph p)) + 1 + int i) [0..<length (cx_spawned_steps c)])"
proof -
  have "race_inv p k (spawn_race_run es (new_ctx p user trace))"
    unfolding spawn_race_run_def using race_start[of "new_ctx p user trace" k] assms
    by (intro race_run) (simp_all add: new_ctx_def)
  from race_invD[OF this] show ?thesis
    by (auto simp: Let_def spawned_sound_def numbered_on_def)
qed

definition thinker :: "int \<Rightarrow> plan_step" where
  "thinker n = (new_plan_step n Interactive Reasoner ''llm'' ''think'') \<lparr>ps_type := Llm_reasoning, ps_can_spawn := True\<rparr>"

definition booking_request :: jobj where
  "booking_request = [(''role'', JStr ''Booker''), (''uses'', JStr ''CAL''), (''call'', JStr ''create'')]"

definition allowing :: policy_decision where
  "allowing = \<lparr>pd_allowed = True, pd_requires_approval = True, pd_reason = Approved_by ''p'' 1, pd_violations = [], pd_policy_matched = True\<rparr>"

text \<open>Two Reasoners of a level ask for Bookers; the policy engine answers the second request first and fails on the other.\<close>

definition two_thinkers :: "spawn_event list" where
  "two_thinkers = [Enter_level [thinker 1, thinker 2], Ask_policy (thinker 1) booking_request,
     Ask_policy (thinker 2) booking_request, Policy_answers 1 ''a'' 0 allowing, Abandon_spawn 0]"

lemma spawning_bounded_and_attested_witness:
  "let p = plan_of [thinker 1, thinker 2]; c = sx_ctx (spawn_race_run two_thinkers (new_ctx p ''u'' ''t'')) in
     map ps_step (cx_spawned_steps c) = [3] \<and> map ps_gate_id (cx_spawned_steps c) = [Some ''gate-spawn-3''] \<and>
     list_all2 attests (cx_attestations c) (cx_spawned_steps c) \<and> total_steps c \<le> 101"
proof -
  have 1: "distinct (map ps_step (pl_graph (plan_of [thinker 1, thinker 2])))"
    by (simp add: plan_of_def thinker_def new_plan_step_def)
  have 2: "spawners_within 2 two_thinkers" by (simp add: spawners_within_def two_thinkers_def)
  have 3: "map ps_step (cx_spawned_steps (sx_ctx (spawn_race_run two_thinkers (new_ctx (plan_of [thinker 1, thinker 2]) ''u'' ''t'')))) = [3] \<and>
      map ps_gate_id (cx_spawned_steps (sx_ctx (spawn_race_run two_thinkers (new_ctx (plan_of [thinker 1, thinker 2]) ''u'' ''t'')))) =
        [Some ''gate-spawn-3'']"
    by code_simp
  from spawning_bounded_and_attested[OF 1 2, of "''u''" "''t''"] 3 show ?thesis by (auto simp: Let_def)
qed

end
