(* ===== verification/Policy_Race.thy ===== *)
theory Policy_Race
  imports Policy_Engine Race_Lists
begin

text \<open>
  The rule cache under concurrent calls. \<open>get_policy\<close> awaits the database and then the cache, \<open>create_policy\<close> awaits
  the commit and then the invalidation, and other calls run in between. Here every await is an event of its own with the
  instant at which it happens: a database read leaves a fill waiting, a fill takes place or is lost with its call, a commit
  and an invalidation are separate, and the database goes down and comes back. Redis is the interface \<open>redis_store\<close>; its commands may fail.
\<close>

section \<open>Events\<close>

datatype policy_event =
    Read_db string "int option"
  | Fill_cache nat
  | Lose_fill nat
  | Commit_rule policy_rule
  | Invalidate string int
  | Database bool

record 's policy_race =
  qr_state :: "'s policy_state"
  qr_waiting :: "(string \<times> policy_rule) list"

definition rule_read :: "string \<Rightarrow> int option \<Rightarrow> 's policy_state \<Rightarrow> policy_rule option" where
  "rule_read pid ver s = (case db_get_policy pid ver s of
       Inr (Some p) \<Rightarrow> (case rule_of_db p of Inr r \<Rightarrow> Some r | Inl _ \<Rightarrow> None)
     | _ \<Rightarrow> None)"

fun policy_race_step :: "'s policy_env \<Rightarrow> int \<times> policy_event \<Rightarrow> 's policy_race \<Rightarrow> 's policy_race" where
  "policy_race_step env (t, Read_db pid ver) w = (case rule_read pid ver (qr_state w) of
       None \<Rightarrow> w
     | Some r \<Rightarrow> w \<lparr>qr_waiting := qr_waiting w @ [(pid, r)]\<rparr>)"
| "policy_race_step env (t, Fill_cache i) w = (if i < length (qr_waiting w)
     then (case qr_waiting w ! i of (pid, r) \<Rightarrow>
       w \<lparr>qr_state := cache_set_policy env t pid (po_version r) r (qr_state w), qr_waiting := drop_nth i (qr_waiting w)\<rparr>)
     else w)"
| "policy_race_step env (t, Lose_fill i) w = w \<lparr>qr_waiting := drop_nth i (qr_waiting w)\<rparr>"
| "policy_race_step env (t, Commit_rule r) w = (if policy_db_ok (db_of_rule r)
     then w \<lparr>qr_state := snd (store_policy t (db_of_rule r) (qr_state w))\<rparr> else w)"
| "policy_race_step env (t, Invalidate pid v) w = w \<lparr>qr_state := cache_invalidate env t pid v (qr_state w)\<rparr>"
| "policy_race_step env (t, Database up) w = w \<lparr>qr_state := (qr_state w) \<lparr>pe_db_up := up\<rparr>\<rparr>"

definition policy_race_run :: "'s policy_env \<Rightarrow> 's policy_state \<Rightarrow> (int \<times> policy_event) list \<Rightarrow> 's policy_race" where
  "policy_race_run env s es = fold (policy_race_step env) es \<lparr>qr_state = s, qr_waiting = []\<rparr>"

lemma policy_race_run_snoc: "policy_race_run env s (es @ [e]) = policy_race_step env e (policy_race_run env s es)"
  by (simp add: policy_race_run_def)

text \<open>A call that nothing interrupts is two of the events.\<close>

lemma get_policy_events:
  assumes "\<And>v. ver = Some v \<Longrightarrow> cache_get_policy env now pid v s = None"
  shows "snd (get_policy env now pid ver s) = qr_state (policy_race_run env s [(now, Read_db pid ver), (now, Fill_cache 0)])"
    and "fst (get_policy env now pid ver s) = Inr (Some r) \<longleftrightarrow> rule_read pid ver s = Some r"
  using assms
  by (auto simp: get_policy_def policy_race_run_def rule_read_def split: option.splits sum.splits)

lemma create_policy_events:
  assumes "create_policy env now r s = (Inr r', s')"
  shows "s' = qr_state (policy_race_run env s [(now, Commit_rule r), (now, Invalidate (po_policy_id r) (po_version r))])"
  using assms by (auto simp: create_policy_def policy_race_run_def split: if_splits prod.splits sum.splits)

section \<open>Where a cached rule comes from\<close>

definition read_by :: "'s policy_env \<Rightarrow> 's policy_state \<Rightarrow> (int \<times> policy_event) list \<Rightarrow> string \<Rightarrow> policy_rule \<Rightarrow> bool" where
  "read_by env s es pid r \<longleftrightarrow> (\<exists>es1 rt ver es2. es = es1 @ (rt, Read_db pid ver) # es2 \<and>
     rule_read pid ver (qr_state (policy_race_run env s es1)) = Some r)"

text \<open>Redis carried the command out.\<close>

definition invalidates :: "'s policy_env \<Rightarrow> int \<times> policy_event \<Rightarrow> string \<Rightarrow> int \<Rightarrow> 's policy_race \<Rightarrow> bool" where
  "invalidates env e pid v w \<longleftrightarrow> snd e = Invalidate pid v \<and>
     (\<exists>rd x. pv_redis env = Some rd \<and> rd_del rd (fst e) (policy_cache_key pid v) (pe_redis (qr_state w)) = Some x)"

text \<open>A read found the rule, a fill wrote it less than 300 seconds before \<open>t\<close>, and nothing invalidated it since.\<close>

definition cached_by ::
  "'s policy_env \<Rightarrow> 's policy_state \<Rightarrow> (int \<times> policy_event) list \<Rightarrow> int \<Rightarrow> string \<Rightarrow> int \<Rightarrow> policy_rule \<Rightarrow> bool" where
  "cached_by env s es t pid v r \<longleftrightarrow> (\<exists>es1 ft i es2. es = es1 @ (ft, Fill_cache i) # es2 \<and>
     read_by env s es1 pid r \<and> po_version r = v \<and> t < ft + 300 * sec \<and>
     i < length (qr_waiting (policy_race_run env s es1)) \<and> qr_waiting (policy_race_run env s es1) ! i = (pid, r) \<and>
     (\<forall>a e b. es2 = a @ e # b \<longrightarrow> \<not> invalidates env e pid v (policy_race_run env s (es1 @ (ft, Fill_cache i) # a))))"

lemma read_by_snoc: "read_by env s es pid r \<Longrightarrow> read_by env s (es @ [e]) pid r"
  unfolding read_by_def by (metis append_Cons append_assoc)

lemma cached_by_snoc:
  assumes "cached_by env s es t pid v r" and "\<not> invalidates env e pid v (policy_race_run env s es)"
  shows "cached_by env s (es @ [e]) t pid v r"
proof -
  from assms(1) obtain es1 ft i es2 where h: "es = es1 @ (ft, Fill_cache i) # es2" "read_by env s es1 pid r" "po_version r = v"
      "t < ft + 300 * sec" "i < length (qr_waiting (policy_race_run env s es1))"
      "qr_waiting (policy_race_run env s es1) ! i = (pid, r)"
    and no: "\<And>a e b. es2 = a @ e # b \<Longrightarrow> \<not> invalidates env e pid v (policy_race_run env s (es1 @ (ft, Fill_cache i) # a))"
    unfolding cached_by_def by blast
  have "\<not> invalidates env e' pid v (policy_race_run env s (es1 @ (ft, Fill_cache i) # a))" if "es2 @ [e] = a @ e' # b" for a e' b
  proof (cases b rule: rev_cases)
    case Nil
    then show ?thesis using that assms(2) h(1) by simp
  next
    case (snoc b' y)
    then show ?thesis using that no[of a e' b'] by simp
  qed
  then show ?thesis unfolding cached_by_def using h by (intro exI[of _ es1] exI[of _ ft] exI[of _ i] exI[of _ "es2 @ [e]"]) simp
qed

lemma cache_set_keeps [simp]: "pe_policies (cache_set_policy env t pid v r s) = pe_policies s"
  by (simp add: cache_set_policy_def split: option.split prod.split)

text \<open>The waiting fills come from reads.\<close>

lemma waiting_read:
  "(pid, r) \<in> set (qr_waiting (policy_race_run env s es)) \<Longrightarrow> read_by env s es pid r"
proof (induction es rule: rev_induct)
  case Nil
  then show ?case by (simp add: policy_race_run_def)
next
  case (snoc e es)
  let ?w = "policy_race_run env s es"
  have keep: "(pid, r) \<in> set (qr_waiting ?w) \<Longrightarrow> read_by env s (es @ [e]) pid r" using snoc.IH read_by_snoc by fast
  obtain t k where e: "e = (t, k)" by (cases e)
  show ?case
  proof (cases k)
    case (Read_db pid' ver)
    show ?thesis
    proof (cases "rule_read pid' ver (qr_state ?w)")
      case None
      then show ?thesis using snoc.prems keep by (simp add: policy_race_run_snoc e Read_db)
    next
      case (Some r')
      then have "(pid, r) \<in> set (qr_waiting ?w) \<or> (pid, r) = (pid', r')"
        using snoc.prems by (auto simp: policy_race_run_snoc e Read_db)
      moreover have "read_by env s (es @ [e]) pid' r'"
        unfolding read_by_def e Read_db using Some by (intro exI[of _ es] exI[of _ t] exI[of _ ver] exI[of _ "[]"]) simp
      ultimately show ?thesis using keep by blast
    qed
  qed (use snoc.prems keep in \<open>auto simp: policy_race_run_snoc e dest: subsetD[OF set_drop_nth] split: if_splits prod.splits\<close>)
qed


lemma store_keeps_redis [simp]: "pe_redis (snd (store_policy t p s)) = pe_redis s"
  by (simp add: store_policy_def Let_def)

context redis_store
begin

lemma cached_explained:
  assumes "pv_redis env = Some rd" and "\<And>t k. lk (pe_redis s) t k = None"
    and "\<forall>e\<in>set es. fst e \<le> t"
    and "lk (pe_redis (qr_state (policy_race_run env s es))) t (policy_cache_key pid v) = Some (RStr data)"
  shows "\<exists>r. data = pv_enc env r \<and> cached_by env s es t pid v r"
  using assms(3,4)
proof (induction es rule: rev_induct)
  case Nil
  then show ?case using assms(2) by (simp add: policy_race_run_def)
next
  case (snoc e es)
  let ?w = "policy_race_run env s es" and ?key = "policy_cache_key pid v"
  let ?w' = "policy_race_run env s (es @ [e])"
  obtain te k where e: "e = (te, k)" by (cases e)
  have te: "te \<le> t" using snoc.prems(1) by (simp add: e)
  have keep: ?case if "lk (pe_redis (qr_state ?w)) t ?key = Some (RStr data)" "\<not> invalidates env e pid v ?w"
  proof -
    have "\<forall>e\<in>set es. fst e \<le> t" using snoc.prems(1) by simp
    from snoc.IH[OF this that(1)] show ?thesis using cached_by_snoc[OF _ that(2)] by blast
  qed
  have same: ?case if "pe_redis (qr_state ?w') = pe_redis (qr_state ?w)" "\<not> invalidates env e pid v ?w"
    using keep that snoc.prems(2) by simp
  show ?case
  proof (cases k)
    case (Fill_cache i)
    show ?thesis
    proof (cases "i < length (qr_waiting ?w)")
      case False
      then show ?thesis by (intro same) (simp_all add: policy_race_run_snoc e Fill_cache invalidates_def)
    next
      case i: True
      obtain pid' r' where z: "qr_waiting ?w ! i = (pid', r')" by fastforce
      let ?set = "rd_set rd te (policy_cache_key pid' (po_version r')) (pv_enc env r') (Some cache_ttl_seconds) False (pe_redis (qr_state ?w))"
      show ?thesis
      proof (cases ?set)
        case None
        then show ?thesis using i z assms(1)
          by (intro same) (simp_all add: policy_race_run_snoc e Fill_cache invalidates_def cache_set_policy_def)
      next
        case (Some x)
        obtain b rs where x: "?set = Some (b, rs)" using Some by (cases x) simp
        have rs: "pe_redis (qr_state ?w') = rs"
          using i z assms(1) x by (simp add: policy_race_run_snoc e Fill_cache cache_set_policy_def)
        have law: "lk rs t ?key = (if b \<and> ?key = policy_cache_key pid' (po_version r')
            then (if alive te (Some cache_ttl_seconds) t then Some (RStr (pv_enc env r')) else None)
            else lk (pe_redis (qr_state ?w)) t ?key)" "b"
          using set_law[OF x] te by blast+
        show ?thesis
        proof (cases "pid = pid' \<and> v = po_version r'")
          case True
          then have h: "data = pv_enc env r'" "t < te + 300 * sec"
            using law snoc.prems(2) unfolding rs by (auto simp: alive_def cache_ttl_seconds_def split: if_splits)
          have "(pid', r') \<in> set (qr_waiting ?w)" using nth_mem[OF i] z by simp
          then have "read_by env s es pid r'" using waiting_read True by metis
          then have "cached_by env s (es @ [e]) t pid v r'"
            unfolding cached_by_def e Fill_cache using h(2) i z True
            by (intro exI[of _ es] exI[of _ te] exI[of _ i] exI[of _ "[]"]) simp
          then show ?thesis using h(1) by blast
        next
          case False
          then have "\<not> (b \<and> ?key = policy_cache_key pid' (po_version r'))" by simp
          with law(1) have "lk rs t ?key = lk (pe_redis (qr_state ?w)) t ?key" by (simp only: if_False simp_thms)
          then have "lk (pe_redis (qr_state ?w)) t ?key = Some (RStr data)" using snoc.prems(2) rs by simp
          then show ?thesis by (intro keep) (simp_all add: invalidates_def e Fill_cache)
        qed
      qed
    qed
  next
    case (Invalidate pid' v')
    let ?del = "rd_del rd te (policy_cache_key pid' v') (pe_redis (qr_state ?w))"
    show ?thesis
    proof (cases ?del)
      case None
      then show ?thesis using assms(1)
        by (intro same) (auto simp: policy_race_run_snoc e Invalidate invalidates_def cache_invalidate_def)
    next
      case (Some x)
      obtain b rs where x: "?del = Some (b, rs)" using Some by (cases x) simp
      have rs: "pe_redis (qr_state ?w') = rs"
        using assms(1) x by (simp add: policy_race_run_snoc e Invalidate cache_invalidate_def)
      have law: "lk rs t ?key = (if ?key = policy_cache_key pid' v' then None else lk (pe_redis (qr_state ?w)) t ?key)"
        using del_law[OF x] te by blast
      then have "?key \<noteq> policy_cache_key pid' v'" "lk (pe_redis (qr_state ?w)) t ?key = Some (RStr data)"
        using snoc.prems(2) unfolding rs by (auto split: if_splits)
      then show ?thesis by (intro keep) (auto simp: invalidates_def e Invalidate)
    qed
  qed (use same in \<open>auto simp: policy_race_run_snoc e invalidates_def split: option.splits\<close>)
qed

lemma read_explained:
  assumes "pv_redis env = Some rd" and "\<And>t k. lk (pe_redis s) t k = None" and "\<forall>e\<in>set es. fst e \<le> t"
    and "fst (get_policy env t pid ver (qr_state (policy_race_run env s es))) = Inr (Some r')"
  shows "rule_read pid ver (qr_state (policy_race_run env s es)) = Some r' \<or>
    (\<exists>v r. ver = Some v \<and> pv_dec env (pv_enc env r) = Some r' \<and> cached_by env s es t pid v r)"
proof (cases "(case ver of None \<Rightarrow> None | Some v \<Rightarrow> cache_get_policy env t pid v (qr_state (policy_race_run env s es)))")
  case None
  then show ?thesis using assms(4) get_policy_events(2)[of ver env t pid "qr_state (policy_race_run env s es)" r'] by fastforce
next
  case (Some r0)
  then obtain v where v: "ver = Some v" "cache_get_policy env t pid v (qr_state (policy_race_run env s es)) = Some r0"
    by (cases ver) simp_all
  then have r0: "r' = r0" using assms(4) by (simp add: get_policy_def)
  obtain data where data: "rd_get rd t (policy_cache_key pid v) (pe_redis (qr_state (policy_race_run env s es))) = Some (Some data)"
    "pv_dec env data = Some r0"
    using v(2) assms(1) by (auto simp: cache_get_policy_def split: option.splits)
  from cached_explained[OF assms(1-3) get_SomeD[OF data(1)]] data(2) v(1) r0 show ?thesis by blast
qed

end


section \<open>The property\<close>

text \<open>C36. How stale a rule can be. However database reads, cache fills, commits, invalidations and outages of all calls interleave,
  and whichever Redis commands fail: when \<open>get_policy\<close> answers with a rule, the table holds this rule now, or the read named
  a version and the rule came from the cache. In the second case an earlier read found it in the table with this version, a
  fill wrote it to the cache less than 300 seconds ago, and no invalidation that Redis carried out came after this fill. So
  a replaced rule is served only when its fill overlapped the replacement, or its invalidation failed, and for less than five
  minutes. Assumed: Redis keeps the laws of \<open>redis_store\<close> and holds nothing at the start. The answer is what Pydantic
  decodes from the JSON of the rule.
\<close>
theorem stale_rules_bounded:
  assumes "redis_store rd lk" and "pv_redis env = Some rd" and "\<And>t k. lk (pe_redis s) t k = None"
    and "\<forall>e\<in>set es. fst e \<le> t"
    and "fst (get_policy env t pid ver (qr_state (policy_race_run env s es))) = Inr (Some r')"
  shows "rule_read pid ver (qr_state (policy_race_run env s es)) = Some r' \<or>
    (\<exists>v r. ver = Some v \<and> pv_dec env (pv_enc env r) = Some r' \<and> cached_by env s es t pid v r)"
  using assms by (rule redis_store.read_explained)

text \<open>A rule is created and read; then the database goes down, and the cache still answers.\<close>

definition cached_events :: "(int \<times> policy_event) list" where
  "cached_events = (let r = learned_rule ''Fetcher'' ''t'' 3 8192 in
     [(0, Commit_rule r), (0, Invalidate (po_policy_id r) 1), (1, Read_db (po_policy_id r) None), (2, Fill_cache 0), (3, Database False)])"

lemma stale_rules_bounded_witness:
  "\<exists>r. pv_dec cached_env (pv_enc cached_env r) = Some (stored_form (learned_rule ''Fetcher'' ''t'' 3 8192)) \<and>
     cached_by cached_env empty_state cached_events 10 ''learned:Fetcher:t'' 1 r"
proof -
  let ?r = "stored_form (learned_rule ''Fetcher'' ''t'' 3 8192)" and ?s = "qr_state (policy_race_run cached_env empty_state cached_events)"
  have w: "pe_redis ?s = dict_set (policy_cache_key ''learned:Fetcher:t'' 1) (RStr ''rule'', Some (2 + 300 * sec)) []" "\<not> pe_db_up ?s"
    by code_simp+
  have env: "pv_redis cached_env = Some mem_redis" "pv_dec cached_env d = Some ?r" for d by (simp_all add: cached_env_def)
  have "cache_get_policy cached_env 10 ''learned:Fetcher:t'' 1 ?s = Some ?r"
    unfolding cache_get_policy_def env(1) w(1) by (simp add: mem_redis_def sec_def env(2) mem_lookup_def)
  then have 1: "fst (get_policy cached_env 10 ''learned:Fetcher:t'' (Some 1) ?s) = Inr (Some ?r)"
    by (simp add: get_policy_def)
  have 2: "rule_read ''learned:Fetcher:t'' (Some 1) ?s = None" by (simp add: rule_read_def db_get_policy_def w)
  have 3: "\<forall>e\<in>set cached_events. fst e \<le> 10" by (simp add: cached_events_def Let_def)
  have 4: "mem_lookup (pe_redis empty_state) t k = None" for t k by (simp add: empty_state_def mem_lookup_def)
  show ?thesis
    using stale_rules_bounded[OF mem_store.redis_store_axioms env(1) 4 3 1] 2 by auto
qed

end
