(* ===== verification/History_Race.thy ===== *)
theory History_Race
  imports History_Laws Race_Lists
begin

text \<open>
  Concurrent stores of the History. \<open>store_fact\<close> commits the fact first; then \<open>update_patterns_on_store\<close> reads the user's
  patterns, computes the new count and commits the pattern, each in a transaction of its own, and other requests run in
  between. Here every transaction is an event; a call may be lost between two of them. A store that nothing interrupts is
  \<open>store_fact\<close> of \<open>History_Service\<close>.
\<close>

section \<open>Events\<close>

datatype history_race_event =
    Begin_store string string string int fact_request
  | Count_pattern nat
  | Commit_pattern nat
  | Lose_count nat
  | Lose_commit nat
  | Clean_expired int

text \<open>The stores that wait for their patterns with the identifier of a new pattern, and those that wait for the commit.\<close>

record history_race =
  hr_tables :: history
  hr_stored :: "(string \<times> fact) list"
  hr_counted :: "fact_pattern list"

definition pattern_after :: "history_env \<Rightarrow> string \<Rightarrow> fact \<Rightarrow> history \<Rightarrow> fact_pattern option" where
  "pattern_after env pid f h = (case extract_entity_key (hn_text env) (fc_entities f) of
       None \<Rightarrow> None
     | Some ek \<Rightarrow> (let k = pattern_key (fc_intent f) ek (weekday (fc_created f));
           p = pattern_of pid (fc_user f) f ek (find (\<lambda>p. fp_key p = k) (query_patterns (fc_user f) (Some (fc_intent f)) 0 h))
         in if fact_pattern_ok p then Some p else None))"

definition begin_store :: "history_env \<Rightarrow> string \<Rightarrow> string \<Rightarrow> int \<Rightarrow> fact_request \<Rightarrow> history \<Rightarrow> fact option \<times> history" where
  "begin_store env fid user now r h =
     (let f = new_fact env fid user now r
      in if fact_request_ok r \<and> check_fact now (fr_text r) = None \<and> fact_ok f
         then (case insert_fact f h of ((g, new), h1) \<Rightarrow> (if new then Some g else None, h1))
         else (None, h))"

fun history_race_step :: "history_env \<Rightarrow> history_race_event \<Rightarrow> history_race \<Rightarrow> history_race" where
  "history_race_step env (Begin_store fid pid user now r) w = (case begin_store env fid user now r (hr_tables w) of
       (None, h) \<Rightarrow> w \<lparr>hr_tables := h\<rparr>
     | (Some f, h) \<Rightarrow> w \<lparr>hr_tables := h, hr_stored := hr_stored w @ [(pid, f)]\<rparr>)"
| "history_race_step env (Count_pattern i) w = (if i < length (hr_stored w)
     then (case hr_stored w ! i of (pid, f) \<Rightarrow>
       w \<lparr>hr_stored := drop_nth i (hr_stored w),
          hr_counted := (case pattern_after env pid f (hr_tables w) of None \<Rightarrow> hr_counted w | Some p \<Rightarrow> hr_counted w @ [p])\<rparr>)
     else w)"
| "history_race_step env (Commit_pattern i) w = (if i < length (hr_counted w)
     then w \<lparr>hr_tables := upsert_pattern (hr_counted w ! i) (hr_tables w), hr_counted := drop_nth i (hr_counted w)\<rparr> else w)"
| "history_race_step env (Lose_count i) w = w \<lparr>hr_stored := drop_nth i (hr_stored w)\<rparr>"
| "history_race_step env (Lose_commit i) w = w \<lparr>hr_counted := drop_nth i (hr_counted w)\<rparr>"
| "history_race_step env (Clean_expired now) w = w \<lparr>hr_tables := snd (cleanup_expired_facts now (hr_tables w))\<rparr>"

definition history_race_run :: "history_env \<Rightarrow> history_race_event list \<Rightarrow> history_race" where
  "history_race_run env es =
     fold (history_race_step env) es \<lparr>hr_tables = \<lparr>hi_facts = [], hi_patterns = []\<rparr>, hr_stored = [], hr_counted = []\<rparr>"

text \<open>Complete stores and clean-ups, one after another.\<close>

definition in_turn :: "history_event list \<Rightarrow> history_race_event list" where
  "in_turn es = concat (map (\<lambda>e. case e of
       Store fid pid user now r \<Rightarrow> [Begin_store fid pid user now r, Count_pattern 0, Commit_pattern 0]
     | Cleanup now \<Rightarrow> [Clean_expired now]
     | Purge _ _ \<Rightarrow> []) es)"

section \<open>A store that nothing interrupts\<close>

abbreviation quiet_race :: "history \<Rightarrow> history_race" where
  "quiet_race h \<equiv> \<lparr>hr_tables = h, hr_stored = [], hr_counted = []\<rparr>"

lemma update_patterns_after:
  "snd (update_patterns_on_store env pid (fc_user f) f h) =
     (case pattern_after env pid f h of None \<Rightarrow> h | Some p \<Rightarrow> upsert_pattern p h)"
  by (simp add: update_patterns_on_store_def pattern_after_def Let_def split: option.split)

lemma updated_facts: "update_patterns_on_store env pid user f h = (x, h') \<Longrightarrow> hi_facts h' = hi_facts h"
  using update_patterns_facts[of env pid user f h] by simp

lemma store_in_turn:
  assumes "fact_request_ok r"
  shows "fold (history_race_step env) [Begin_store fid pid user now r, Count_pattern 0, Commit_pattern 0] (quiet_race h) =
    quiet_race (snd (store_fact env fid pid user now r h))"
proof (cases rule: store_fact_cases[of env fid pid user now r h])
  case (refused e)
  then have "begin_store env fid user now r h = (None, h)"
    by (auto simp: store_fact_def begin_store_def Let_def insert_fact_def split: option.splits if_splits sum.splits prod.splits
        dest!: updated_facts)
  then show ?thesis using refused by simp
next
  case (duplicate g)
  then have "begin_store env fid user now r h = (None, h)" by (simp add: begin_store_def Let_def insert_fact_def)
  then show ?thesis using duplicate by simp
next
  case (new f h1)
  then have "begin_store env fid user now r h = (Some f, h1)" "fc_user f = user"
    using assms by (simp_all add: begin_store_def Let_def) (simp add: new_fact_def)
  then show ?thesis using new update_patterns_after[of env pid f h1]
    by (cases "pattern_after env pid f h1") (simp_all add: drop_nth_def)
qed

lemma run_in_turn:
  assumes "list_all keeps_rows es"
  shows "fold (history_race_step env) (in_turn es) (quiet_race h) = quiet_race (fold (history_step env) es h)"
  using assms
proof (induction es arbitrary: h)
  case (Cons e es)
  show ?case
  proof (cases e)
    case (Store fid pid user now r)
    show ?thesis
    proof (cases "fact_request_ok r")
      case True
      then show ?thesis using Cons store_in_turn[OF True, of env fid pid user now h]
        by (simp add: Store in_turn_def history_step_def del: history_race_step.simps)
    next
      case False
      then show ?thesis using Cons by (simp add: Store in_turn_def history_step_def begin_store_def Let_def)
    qed
  qed (use Cons in \<open>simp_all add: in_turn_def history_step_def keeps_rows_def\<close>)
qed (simp add: in_turn_def)


section \<open>The invariant\<close>

definition unfinished :: "history_env \<Rightarrow> history_race \<Rightarrow> string \<times> string \<times> string \<Rightarrow> nat" where
  "unfinished env w k = length (filter (\<lambda>(pid, f). fact_key env f = Some k) (hr_stored w)) +
     length (filter (\<lambda>p. pattern_index p = k) (hr_counted w))"

definition room :: "history_env \<Rightarrow> history_race \<Rightarrow> string \<times> string \<times> string \<Rightarrow> int" where
  "room env w k = int (facts_with env (hr_tables w) k) - int (unfinished env w k)"

definition race_ok :: "history_env \<Rightarrow> history_race \<Rightarrow> bool" where
  "race_ok env w \<longleftrightarrow> history_ok (hr_tables w) \<and> list_all (\<lambda>(pid, f). fc_intent f \<noteq> []) (hr_stored w) \<and>
     list_all stored_pattern_ok (hr_counted w) \<and> (\<forall>k. pattern_count (hr_tables w) k \<le> room env w k) \<and>
     list_all (\<lambda>p. fp_count p \<le> room env w (pattern_index p) + 1) (hr_counted w)"

lemma pattern_after_spec:
  assumes "history_ok h" "fc_intent f \<noteq> []"
  shows "case pattern_after env pid f h of None \<Rightarrow> fact_key env f = None
    | Some p \<Rightarrow> fact_key env f = Some (pattern_index p) \<and> stored_pattern_ok p \<and> fp_count p = pattern_count h (pattern_index p) + 1"
proof (cases "extract_entity_key (hn_text env) (fc_entities f)")
  case None
  then show ?thesis by (simp add: pattern_after_def fact_key_def)
next
  case (Some ek)
  let ?i = "(fc_user f, fc_intent f, pattern_key (fc_intent f) ek (weekday (fc_created f)))"
  define old where "old = find (\<lambda>p. pattern_index p = ?i) (hi_patterns h)"
  define p where "p = pattern_of pid (fc_user f) f ek old"
  have after: "pattern_after env pid f h = (if fact_pattern_ok p then Some p else None)"
    using Some find_pattern[OF assms] by (simp add: pattern_after_def Let_def p_def old_def)
  have old_ok: "1 \<le> fp_count q" if "old = Some q" for q
    using find_SomeD[of _ "hi_patterns h" q] that assms(1)
    by (auto simp: old_def history_ok_def list_all_iff stored_pattern_ok_def fact_pattern_ok_def)
  have "fact_pattern_ok p \<longleftrightarrow> fact_pattern_ok (pattern_of [] (fc_user f) f ek None)"
    using old_ok by (auto simp: p_def fact_pattern_ok_def pattern_of_def Let_def pattern_confidence_def split: option.split)
  then have "fact_key env f = (if fact_pattern_ok p then Some ?i else None)"
    using Some by (simp add: fact_key_def Let_def pattern_of_index)
  moreover have "fp_count p = pattern_count h ?i + 1"
    by (simp add: p_def pattern_count_def old_def pattern_of_def Let_def split: option.split)
  moreover have "pattern_index p = ?i" by (simp add: p_def pattern_of_index)
  ultimately show ?thesis using after by (auto simp: p_def pattern_of_stored)
qed

lemma race_okI:
  assumes "history_ok (hr_tables w)" "list_all (\<lambda>(pid, f). fc_intent f \<noteq> []) (hr_stored w)" "list_all stored_pattern_ok (hr_counted w)"
    "\<And>k. pattern_count (hr_tables w) k \<le> room env w k" "\<And>p. p \<in> set (hr_counted w) \<Longrightarrow> fp_count p \<le> room env w (pattern_index p) + 1"
  shows "race_ok env w"
  unfolding race_ok_def list_all_iff using assms by (auto simp: list_all_iff)

lemma race_okD:
  assumes "race_ok env w"
  shows "history_ok (hr_tables w)" "list_all (\<lambda>(pid, f). fc_intent f \<noteq> []) (hr_stored w)" "list_all stored_pattern_ok (hr_counted w)"
    "pattern_count (hr_tables w) k \<le> room env w k" "p \<in> set (hr_counted w) \<Longrightarrow> fp_count p \<le> room env w (pattern_index p) + 1"
  using assms unfolding race_ok_def list_all_iff by blast+

lemma begin_store_cases:
  assumes "begin_store env fid user now r h = (g, h')"
  obtains (same) "g = None" "h' = h"
  | (new) f where "g = Some f" "hi_facts h' = hi_facts h @ [f]" "hi_patterns h' = hi_patterns h" "fc_intent f \<noteq> []"
      "history_ok h \<Longrightarrow> history_ok h'"
proof (cases "fact_request_ok r \<and> check_fact now (fr_text r) = None \<and> fact_ok (new_fact env fid user now r)")
  case ok: True
  let ?f = "new_fact env fid user now r"
  obtain f b h1 where i: "insert_fact ?f h = ((f, b), h1)" by (metis prod.exhaust)
  then have gh: "g = (if b then Some f else None)" "h' = h1" using assms ok by (simp_all add: begin_store_def Let_def split: if_splits)
  have st: "stored_fact_ok ?f" "active ?f" using new_fact_stored ok by blast+
  have res: "hi_patterns h1 = hi_patterns h" "b \<Longrightarrow> f = ?f \<and> hi_facts h1 = hi_facts h @ [f]" "\<not> b \<Longrightarrow> h1 = h"
    using insert_fact_result[OF i] by auto
  show thesis
  proof (cases b)
    case True
    show thesis
      by (rule new[of f])
        (use gh res True st insert_fact_ok[of h ?f] i in \<open>simp_all add: stored_fact_ok_def\<close>)
  next
    case False
    show thesis by (rule same) (use gh res False in simp_all)
  qed
next
  case False
  show thesis by (rule same) (use assms False in \<open>simp_all add: begin_store_def Let_def\<close>)
qed

lemma race_ok_step:
  assumes inv: "race_ok env w"
  shows "race_ok env (history_race_step env e w)"
proof (cases e)
  case (Begin_store fid pid user now r)
  obtain g h where b: "begin_store env fid user now r (hr_tables w) = (g, h)" by fastforce
  from b show ?thesis
  proof (cases rule: begin_store_cases)
    case same
    then show ?thesis using inv b by (simp add: Begin_store)
  next
    case (new f)
    let ?w = "w \<lparr>hr_tables := h, hr_stored := hr_stored w @ [(pid, f)]\<rparr>"
    have room: "room env ?w k = room env w k" for k by (simp add: room_def facts_with_def unfinished_def new(2))
    have count: "pattern_count h k = pattern_count (hr_tables w) k" for k by (simp add: pattern_count_def new(3))
    have "race_ok env ?w" using race_okD[OF inv] new by (intro race_okI) (simp_all add: room count)
    then show ?thesis using b new(1) by (simp add: Begin_store)
  qed
next
  case (Count_pattern i)
  show ?thesis
  proof (cases "i < length (hr_stored w)")
    case i: True
    obtain pid f where z: "hr_stored w ! i = (pid, f)" by fastforce
    have intent: "fc_intent f \<noteq> []" using race_okD(2)[OF inv] nth_mem[OF i] z by (auto simp: list_all_iff)
    note spec = pattern_after_spec[OF race_okD(1)[OF inv] intent, of env pid]
    note drop = filter_drop_nth[OF i]
    let ?s = "drop_nth i (hr_stored w)"
    have rest: "list_all (\<lambda>(pid, f). fc_intent f \<noteq> []) ?s" using race_okD(2)[OF inv] by (rule list_all_drop_nth)
    show ?thesis
    proof (cases "pattern_after env pid f (hr_tables w)")
      case None
      then have "room env (w \<lparr>hr_stored := ?s\<rparr>) k = room env w k" for k
        using spec drop[of "\<lambda>(pid, f). fact_key env f = Some k"] z by (simp add: room_def unfinished_def)
      then have "race_ok env (w \<lparr>hr_stored := ?s\<rparr>)" using race_okD[OF inv] rest by (intro race_okI) simp_all
      then show ?thesis using i z None by (simp add: Count_pattern)
    next
      case (Some p)
      let ?w = "w \<lparr>hr_stored := ?s, hr_counted := hr_counted w @ [p]\<rparr>"
      have p: "fact_key env f = Some (pattern_index p)" "stored_pattern_ok p" "fp_count p = pattern_count (hr_tables w) (pattern_index p) + 1"
        using spec Some by simp_all
      have room: "room env ?w k = room env w k" for k
        using drop[of "\<lambda>(pid, f). fact_key env f = Some k"] z p(1) by (auto simp: room_def unfinished_def)
      have "fp_count p \<le> room env w (pattern_index p) + 1" using p(3) race_okD(4)[OF inv, of "pattern_index p"] by linarith
      then have "race_ok env ?w" using race_okD[OF inv] rest p(2) by (intro race_okI) (auto simp: room)
      then show ?thesis using i z Some by (simp add: Count_pattern)
    qed
  qed (use inv Count_pattern in simp)
next
  case (Commit_pattern i)
  show ?thesis
  proof (cases "i < length (hr_counted w)")
    case i: True
    let ?p = "hr_counted w ! i" and ?c = "drop_nth i (hr_counted w)"
    let ?w = "w \<lparr>hr_tables := upsert_pattern ?p (hr_tables w), hr_counted := ?c\<rparr>"
    have pin: "?p \<in> set (hr_counted w)" using i by simp
    have room: "room env ?w k = room env w k + (if k = pattern_index ?p then 1 else 0)" for k
      using filter_drop_nth[OF i, of "\<lambda>p. pattern_index p = k"] by (auto simp: room_def facts_with_def unfinished_def upserted)
    have count: "pattern_count (upsert_pattern ?p (hr_tables w)) k =
        (if k = pattern_index ?p then fp_count ?p else pattern_count (hr_tables w) k)" for k
      using race_okD(1)[OF inv] by (intro upsert_count) (simp add: history_ok_def)
    have "stored_pattern_ok ?p" using race_okD(3)[OF inv] pin by (simp add: list_all_iff)
    then have "history_ok (upsert_pattern ?p (hr_tables w))" using race_okD(1)[OF inv] by (rule upsert_ok[rotated])
    moreover have "fp_count q \<le> room env ?w (pattern_index q) + 1" if "q \<in> set ?c" for q
      using race_okD(5)[OF inv subsetD[OF set_drop_nth that]] room[of "pattern_index q"]
      by (cases "pattern_index q = pattern_index ?p") simp_all
    ultimately have "race_ok env ?w"
      using race_okD[OF inv] pin list_all_drop_nth[OF race_okD(3)[OF inv], of i]
      by (intro race_okI) (simp_all add: room count)
    then show ?thesis using i by (simp add: Commit_pattern)
  qed (use inv Commit_pattern in simp)
next
  case (Lose_count i)
  let ?w = "w \<lparr>hr_stored := drop_nth i (hr_stored w)\<rparr>"
  have room: "room env w k \<le> room env ?w k" for k
  proof (cases "i < length (hr_stored w)")
    case True
    then show ?thesis using filter_drop_nth[OF True, of "\<lambda>(pid, f). fact_key env f = Some k"] by (simp add: room_def unfinished_def)
  qed (simp add: drop_nth_def room_def unfinished_def)
  have "race_ok env ?w"
    using race_okD[OF inv] list_all_drop_nth[OF race_okD(2)[OF inv], of i] room order_trans[OF _ room]
    by (intro race_okI) (simp_all, meson add_mono order_refl order_trans)
  then show ?thesis by (simp add: Lose_count)
next
  case (Lose_commit i)
  let ?w = "w \<lparr>hr_counted := drop_nth i (hr_counted w)\<rparr>"
  have room: "room env w k \<le> room env ?w k" for k
  proof (cases "i < length (hr_counted w)")
    case True
    then show ?thesis using filter_drop_nth[OF True, of "\<lambda>p. pattern_index p = k"] by (simp add: room_def unfinished_def)
  qed (simp add: drop_nth_def room_def unfinished_def)
  have "fp_count q \<le> room env ?w (pattern_index q) + 1" if "q \<in> set (drop_nth i (hr_counted w))" for q
    using race_okD(5)[OF inv, of q] subsetD[OF set_drop_nth that] room[of "pattern_index q"] by simp
  then have "race_ok env ?w"
    using race_okD[OF inv] list_all_drop_nth[OF race_okD(3)[OF inv], of i] order_trans[OF _ room]
    by (intro race_okI) simp_all
  then show ?thesis by (simp add: Lose_commit)
next
  case (Clean_expired now)
  let ?h = "snd (cleanup_expired_facts now (hr_tables w))"
  let ?clean = "\<lambda>f. if fc_expires f < now \<and> active f then f \<lparr>fc_deleted := Some now\<rparr> else f"
  have "length (filter (\<lambda>f. fact_key env f = Some k) (map ?clean fs)) = length (filter (\<lambda>f. fact_key env f = Some k) fs)" for fs k
    by (induction fs) auto
  then have "facts_with env ?h k = facts_with env (hr_tables w) k" "pattern_count ?h k = pattern_count (hr_tables w) k" for k
    by (simp_all add: cleanup_expired_facts_def Let_def facts_with_def pattern_count_def)
  then have "race_ok env (w \<lparr>hr_tables := ?h\<rparr>)"
    using race_okD[OF inv] cleanup_ok[OF race_okD(1)[OF inv], of now] by (intro race_okI) (simp_all add: room_def unfinished_def)
  then show ?thesis by (simp add: Clean_expired)
qed

lemma race_ok_run: "race_ok env (history_race_run env es)"
proof -
  have "race_ok env (fold (history_race_step env) es w)" if "race_ok env w" for w
    using that by (induction es arbitrary: w) (simp_all add: race_ok_step)
  moreover have "race_ok env (quiet_race \<lparr>hi_facts = [], hi_patterns = []\<rparr>)"
    by (simp add: race_ok_def history_ok_def room_def facts_with_def unfinished_def pattern_count_def)
  ultimately show ?thesis unfolding history_race_run_def by blast
qed


section \<open>The property\<close>

lemma in_turn_keeps: "in_turn (filter keeps_rows es) = in_turn es"
  by (induction es) (auto simp: in_turn_def keeps_rows_def split: history_event.splits)

lemma tables_in_turn: "hr_tables (history_race_run env (in_turn es)) = history_run env (filter keeps_rows es)"
  using run_in_turn[of "filter keeps_rows es" env "\<lparr>hi_facts = [], hi_patterns = []\<rparr>"]
  by (simp add: history_race_run_def history_run_def in_turn_keeps list_all_iff)

text \<open>C13. A pattern never counts more than its facts. However the transactions of concurrent stores and of clean-ups interleave,
  and wherever a store is lost between two of them, the tables stay well formed, and the count of the pattern of a user, an
  intent and a key, together with the stores of this pattern that are not finished, is at most the number of stored facts
  that belong to it; so no confidence claims more than the facts support. When every store runs to its end before the next
  begins, the count is exact. It is not in general: two stores that read the same count write the same successor, and a
  store that fails after its fact is committed leaves the fact uncounted. Rows are marked as deleted here, not removed.
\<close>
theorem patterns_never_overcount:
  "(let w = history_race_run env es in history_ok (hr_tables w) \<and>
      pattern_count (hr_tables w) k + int (unfinished env w k) \<le> int (facts_with env (hr_tables w) k)) \<and>
   (let h = hr_tables (history_race_run env (in_turn xs)) in pattern_count h k = int (facts_with env h k))"
proof -
  have "race_ok env (history_race_run env es)" by (rule race_ok_run)
  from race_okD(1)[OF this] race_okD(4)[OF this, of k] show ?thesis
    using sequential_counts[of "filter keeps_rows xs" env k] by (simp add: Let_def room_def tables_in_turn list_all_iff)
qed

end
