(* ===== verification/Spec2Isabelle.thy ===== *)
theory Spec2Isabelle
  imports Trust_Step Monitored_Run Planned_Run Scheduler_Laws Preview_Laws Memory_Laws Audit_Laws Intake_Laws Profile_Laws Context_Laws
    Spawn_Race Policy_Race History_Race
begin

text \<open>
  Aexor turns a request in natural language into a plan (a graph of typed steps), shows the plan's effects in a
  preview, asks the user to approve the steps that change something, executes the plan over MCP tool servers, and can
  repeat it on a schedule. Untrusted tool output is scanned before a reasoning step sees it, and a policy engine
  decides which steps a reasoning step may add. What happened is remembered (facts, plans, preferences, embeddings) and
  gathered as context for the next plan, and audited. This library models these services and proves what each promises.

  \<^bold>\<open>The parts and their theories.\<close> Every path is under \<open>src/\<close>.

  \<^item> Vocabulary. \<open>Aexor_Prelude\<close> (results as sums, check sequences, insertion-ordered dictionaries), \<open>Result_State\<close>
    (stateful code that may raise, with the introduction rules of \<open>keeps\<close>), \<open>Json_Value\<close>, \<open>Py_Strings\<close>, \<open>Py_Regex\<close> (the
    part of \<open>re\<close> the sources use), \<open>Py_Dates\<close> (dates, titles, UTF-8 sizes), \<open>Redis_Api\<close> and \<open>Record_Store\<close> (contracts of Redis and of
    keyed stores), \<open>Race_Lists\<close> (waiting calls of the theories on concurrency).
  \<^item> Contracts between services: \<open>Plan_Schema\<close> (\<open>shared/schemas\<close>).
  \<^item> Planner (\<open>components/Planner\<close>): \<open>Workflow_Types\<close>, \<open>Workflow_Data\<close>, \<open>Workflow_Registry\<close>, \<open>Workflow_Order\<close>
    (\<open>adapters/workflow_registry.py\<close>), \<open>Deterministic_Planner\<close>, \<open>Plan_Validator\<close>, \<open>Plan_Hasher\<close>, \<open>Tool_Filter\<close>,
    \<open>Circuit_Breaker\<close> (the adapters of these names), \<open>Planner_Service\<close> and \<open>Planner_Results\<close> (\<open>generate_plan\<close>).
  \<^item> Tool catalog: \<open>Mcp_Catalog\<close> (\<open>shared/mcp/catalog.py\<close>).
  \<^item> PreviewOrchestrator: \<open>Preview_Service\<close>, \<open>Preview_Laws\<close>; ApprovalGate: \<open>Approval_Gate\<close>; PolicyEngine: \<open>Policy_Engine\<close>, \<open>Policy_Race\<close>.
  \<^item> ExecuteOrchestrator: \<open>Dag_Resolver\<close>, \<open>Exec_Adapters\<close> (idempotency, locks, retries), \<open>Template_Resolver\<close>,
    \<open>Execute_Service\<close> (\<open>service/execute_service.py\<close>), \<open>Execute_Safety\<close>, \<open>Gate_Pause\<close> and \<open>Spawn_Race\<close> (its laws).
  \<^item> TrustFilter: \<open>Trust_Rules\<close>, \<open>Json_Path\<close>, \<open>Trust_Walker\<close>, \<open>Trust_Filter\<close>.
  \<^item> ExecutionMonitor: \<open>Execution_Monitor\<close>. Scheduler: \<open>Cron_Builder\<close>, \<open>Scheduler_Store\<close>, \<open>Scheduler_Service\<close>,
    \<open>Scheduled_Run\<close>, \<open>Scheduler_Laws\<close>.
  \<^item> Memory: History (\<open>History_Store\<close>, \<open>History_Service\<close>, \<open>History_Laws\<close>, \<open>History_Race\<close>), PlanLibrary and PlanWriter (\<open>Plan_Library\<close>,
    \<open>Plan_Service\<close>, \<open>Plan_Writer\<close>, \<open>Memory_Laws\<close>), ProfileStore with the shared encryption (\<open>Secret_Codec\<close>, \<open>Profile_Store\<close>,
    \<open>Profile_Laws\<close>), VectorIndex (\<open>Vector_Index\<close>), ContextRAG (\<open>Context_Rag\<close>, \<open>Context_Laws\<close>).
  \<^item> Audit: \<open>Audit_Log\<close>, \<open>Audit_Laws\<close>. Intake: \<open>Intake_Parser\<close>, \<open>Intake_Service\<close>, \<open>Intake_Laws\<close>.
  \<^item> Compositions: \<open>Trust_Step\<close> (the filter inside an execution), \<open>Monitored_Run\<close> (an execution under the watchdog),
    \<open>Planned_Run\<close> (a plan built from workflows in the executor), \<open>Scheduled_Run\<close> (planner, approval and executor in a job).

  \<^bold>\<open>How they interact.\<close> The planner calls the catalog, the filters, the breakers and the validator; its plans are the plans
  the preview, the ApprovalGate and the executor take. Preview and executor get their levels from the resolver
  and their arguments from the template resolver. The ApprovalGate and the executor use the policy
  engine's state (tables and Redis); the executor asks it about spawned steps and reports its progress to the tracker the watchdog polls. The
  scheduler runs planner, ApprovalGate and executor.

  \<^bold>\<open>How the code is read.\<close> A Pydantic model or dataclass is a \<open>record\<close>, with \<open>\<dots>_ok\<close> for its field constraints; a
  \<open>Literal\<close> is a \<open>datatype\<close>; a \<open>dict\<close> is an association list in insertion order; a table is a list of rows in insertion order. An
  exception is \<open>Inl\<close>; the executor is written in the state monad of \<open>Result_State\<close>, where an exception keeps
  the effects before it. Strings hold characters below 256, floats are exact rationals, instants are microseconds. Loops are structural
  recursion, except: Kahn's loop and the searches of the validator, which get as many rounds as there are
  steps (\<open>kahn_terminates\<close> and the completeness of \<open>bfs\<close> show that this is enough); the retry loop, bounded by
  the policy's number of retries; \<open>sub\<close> of the template resolver, bounded by the characters left to read.
  Interleavings are step relations or folds over events: \<open>vstep\<close> (validations of tokens), \<open>bstep\<close> (calls through a breaker), \<open>mstep\<close>
  (executor and watchdog), \<open>spawn_race_run\<close> (spawns of a level), \<open>policy_race_run\<close> (reads and writes of policies),
  \<open>history_race_run\<close> (stores of facts), and the events of the audit buffer.

  \<^bold>\<open>What the lemmas show.\<close>
  \<^item> Plans: what the validator accepts is acyclic and obeys the rules of roles, gates and trust, with rule F equal to a
    statement about paths; the resolver terminates and its levels are the longest-path levels; plans
    built from the registered workflows pass every rule but F, and \<open>generate_plan\<close> returns finalised plans only.
  \<^item> Preview: it calls only read tools of ungated steps, accounts for every step, and its cache gives back what was stored.
  \<^item> Approval: a token is used once per lifetime under any interleaving, and the boundary at which this fails is exact.
  \<^item> Execution: every invocation, recovery and spawned steps included, is made behind an open gate; spawned steps are attested and
    bounded under every interleaving of a level; success settles every step; the only exception let out is that of a closed gate.
  \<^item> Policy: auto-approval is within the limits, and a rule read from the cache is less than 300 seconds old.
  \<^item> Trust: a detected injection is redacted from every field of a plain payload; the final verdict is never lowered.
  \<^item> Watchdog and schedules: ended rows stay ended, overdue runs are ended; a start registers exactly the active schedules, and a schedule runs within its budget.
  \<^item> Memory: tables stay well formed, patterns never count more than their facts, sensitive preferences are stored encrypted and read
    back, the answer of the PlanWriter says what was written, the gathered context fits its budget.
  \<^item> Audit and Intake: no secret reaches the audit, no event is lost or doubled unnoticed, pages enumerate the matches; sessions stay with
    their user and within their limits.

  Locales state the interfaces: \<open>level_scheduler\<close> (resolver), \<open>redis_store\<close> and \<open>gate_ledger\<close> (Redis and the consumed
  tokens), the keyed stores of \<open>Record_Store\<close>, \<open>owned_store\<close> (tables with an owner); each is interpreted on the model's definitions.

  \<^bold>\<open>Parameters.\<close> MCP servers, language models, JWT and JSON text, Redis, embeddings, the text search of PostgreSQL, AES-GCM, APScheduler, ISO timestamps, fresh
  identifiers and the clock are arguments (fields of the environment records). Where a property needs documented behaviour
  of one of them (a read of Redis after a write, \<open>json.loads\<close> of \<open>json.dumps\<close>) it is a hypothesis, met in the witness by a concrete function.

  \<^bold>\<open>Not modelled.\<close> HTTP routes and their authentication, application start-up, the database engine (migrations, constraints beyond those
  named, failures other than an outage), logging and metrics, IntegrationManager, the sessions of MCP servers, the clients of language
  models and the embedding model. The steps of an execution or preview level, concurrent in the code, run in list order except in
  \<open>Spawn_Race\<close>; a store of the History and a policy read or write are one step except in the theories on their races; a firing
  of the scheduler is one step, and one operation of it reads the clock once; a failed Redis command has had no effect.
\<close>

end
